(* ===== verification/Prelude.thy ===== *)
theory Prelude
  imports Main "HOL-Library.Monad_Syntax"
begin

text \<open>
  Shared vocabulary of the development: calls that may fail to return, short-circuit
  connectives over them, early-exit loops over lists, and the facts about them that the
  component theories use.

  A Go call that can recurse for ever (overflowing the stack), loop for ever or dereference a
  nil interface is modelled with result type \<open>'a run\<close>: \<open>Some v\<close> when it returns
  \<open>v\<close>, \<open>None\<close> when it does not return. Errors that the code returns as values are not
  \<open>None\<close>; they are values of a sum type inside \<open>Some\<close>.
\<close>

named_theorems run_mono \<open>monotonicity of open-recursive methods in the dispatched call\<close>
named_theorems tok_simps \<open>evaluation of the scanner primitives\<close>

type_synonym 'a run = "'a option"

section \<open>Short-circuit connectives\<close>

definition andM :: "bool run \<Rightarrow> bool run \<Rightarrow> bool run" where
  "andM a b = (case a of None \<Rightarrow> None | Some x \<Rightarrow> if x then b else Some False)"

definition orM :: "bool run \<Rightarrow> bool run \<Rightarrow> bool run" where
  "orM a b = (case a of None \<Rightarrow> None | Some x \<Rightarrow> if x then Some True else b)"

lemma andM_simps [simp]:
  "andM None b = None" "andM (Some True) b = b" "andM (Some False) b = Some False"
  by (simp_all add: andM_def)

lemma orM_simps [simp]:
  "orM None b = None" "orM (Some True) b = Some True" "orM (Some False) b = b"
  by (simp_all add: orM_def)

lemma andM_Some [simp]: "andM (Some x) (Some y) = Some (x \<and> y)"
  by (simp add: andM_def)

lemma orM_Some [simp]: "orM (Some x) (Some y) = Some (x \<or> y)"
  by (simp add: orM_def)

lemma andM_True_iff: "andM a b = Some True \<longleftrightarrow> a = Some True \<and> b = Some True"
  by (auto simp: andM_def split: option.splits)

lemma orM_True_iff: "orM a b = Some True \<longleftrightarrow> a = Some True \<or> (a = Some False \<and> b = Some True)"
  by (auto simp: orM_def split: option.splits)

section \<open>Early-exit loops\<close>

fun allM :: "('a \<Rightarrow> bool run) \<Rightarrow> 'a list \<Rightarrow> bool run" where
  "allM f [] = Some True"
| "allM f (x # xs) = andM (f x) (allM f xs)"

fun anyM :: "('a \<Rightarrow> bool run) \<Rightarrow> 'a list \<Rightarrow> bool run" where
  "anyM f [] = Some False"
| "anyM f (x # xs) = orM (f x) (anyM f xs)"

text \<open>The loop over two slices whose lengths were compared before.\<close>

fun all2M :: "('a \<Rightarrow> 'b \<Rightarrow> bool run) \<Rightarrow> 'a list \<Rightarrow> 'b list \<Rightarrow> bool run" where
  "all2M f (x # xs) (y # ys) = andM (f x y) (all2M f xs ys)"
| "all2M f _ _ = Some True"

lemma allM_Some: "(\<And>x. x \<in> set xs \<Longrightarrow> f x = Some (P x)) \<Longrightarrow> allM f xs = Some (list_all P xs)"
  by (induction xs) auto

lemma anyM_Some: "(\<And>x. x \<in> set xs \<Longrightarrow> f x = Some (P x)) \<Longrightarrow> anyM f xs = Some (list_ex P xs)"
  by (induction xs) auto

lemma all2M_Some:
  assumes "length xs = length ys"
    and "\<And>x y. x \<in> set xs \<Longrightarrow> y \<in> set ys \<Longrightarrow> f x y = Some (P x y)"
  shows "all2M f xs ys = Some (list_all2 P xs ys)"
  using assms by (induction xs ys rule: list_induct2) auto

lemma all2M_returns:
  assumes "\<And>x y. x \<in> set xs \<Longrightarrow> y \<in> set ys \<Longrightarrow> f x y \<noteq> None"
  shows "all2M f xs ys \<noteq> None"
  using assms by (induction f xs ys rule: all2M.induct) (auto simp: andM_def split: option.splits)

lemma all2M_True_nth:
  "all2M f xs ys = Some True \<Longrightarrow> i < length xs \<Longrightarrow> i < length ys \<Longrightarrow> f (xs ! i) (ys ! i) = Some True"
  by (induction f xs ys arbitrary: i rule: all2M.induct)
     (auto simp: andM_True_iff nth_Cons split: nat.splits)

section \<open>Monotonicity\<close>

text \<open>
  A call dispatched on the type of its receiver is the least solution of its equation
  (\<open>partial_function\<close>). The connectives and loops are monotone in the calls they contain.
\<close>

lemma andM_mono [partial_function_mono, run_mono]:
  "mono_option A \<Longrightarrow> mono_option B \<Longrightarrow> mono_option (\<lambda>f. andM (A f) (B f))"
  by (fastforce simp: monotone_def flat_ord_def andM_def split: option.splits)

lemma orM_mono [partial_function_mono, run_mono]:
  "mono_option A \<Longrightarrow> mono_option B \<Longrightarrow> mono_option (\<lambda>f. orM (A f) (B f))"
  by (fastforce simp: monotone_def flat_ord_def orM_def split: option.splits)

lemma allM_mono [partial_function_mono, run_mono]:
  "(\<And>x. mono_option (\<lambda>f. F f x)) \<Longrightarrow> mono_option (\<lambda>f. allM (F f) xs)"
  by (induction xs) (simp_all add: andM_mono option.const_mono)

lemma anyM_mono [partial_function_mono, run_mono]:
  "(\<And>x. mono_option (\<lambda>f. F f x)) \<Longrightarrow> mono_option (\<lambda>f. anyM (F f) xs)"
  by (induction xs) (simp_all add: orM_mono option.const_mono)

lemma all2M_mono [partial_function_mono, run_mono]:
  "(\<And>x y. mono_option (\<lambda>f. F f x y)) \<Longrightarrow> mono_option (\<lambda>f. all2M (F f) xs ys)"
proof (induction xs arbitrary: ys)
  case (Cons x xs)
  then show ?case by (cases ys) (simp_all add: andM_mono option.const_mono)
qed (simp add: option.const_mono)

section \<open>Slices\<close>

definition slice :: "nat \<Rightarrow> nat \<Rightarrow> 'a list \<Rightarrow> 'a list" where
  "slice i j xs = take (j - i) (drop i xs)"

lemma slice_empty [simp]: "slice i i xs = []"
  by (simp add: slice_def)

lemma slice_length: "i \<le> j \<Longrightarrow> j \<le> length xs \<Longrightarrow> length (slice i j xs) = j - i"
  by (simp add: slice_def)

lemma slice_snoc: "i \<le> j \<Longrightarrow> j < length xs \<Longrightarrow> slice i (Suc j) xs = slice i j xs @ [xs ! j]"
  by (simp add: slice_def Suc_diff_le take_Suc_conv_app_nth)

lemma slice_Suc0: "i < length xs \<Longrightarrow> slice i (Suc i) xs = [xs ! i]"
  by (simp add: slice_snoc)

lemma slice_Suc1: "Suc i < length xs \<Longrightarrow> slice i (Suc (Suc i)) xs = [xs ! i, xs ! Suc i]"
  by (simp add: slice_snoc)

lemma slice_Suc2:
  "Suc (Suc i) < length xs \<Longrightarrow> slice i (Suc (Suc (Suc i))) xs = [xs ! i, xs ! Suc i, xs ! Suc (Suc i)]"
  by (simp add: slice_snoc)

lemma slice_Cons: "i < length xs \<Longrightarrow> i < j \<Longrightarrow> slice i j xs = xs ! i # slice (Suc i) j xs"
  by (simp add: slice_def Cons_nth_drop_Suc [symmetric] take_Cons')

lemma slice_append: "i \<le> j \<Longrightarrow> j \<le> k \<Longrightarrow> slice i j xs @ slice j k xs = slice i k xs"
proof -
  assume h: "i \<le> j" "j \<le> k"
  then have "drop j xs = drop (j - i) (drop i xs)" and "k - i = (j - i) + (k - j)"
    by simp_all
  then show ?thesis by (simp add: slice_def take_add)
qed

lemma set_slice: "x \<in> set (slice i j xs) \<Longrightarrow> x \<in> set xs"
  by (auto simp: slice_def dest: in_set_takeD in_set_dropD)

section \<open>Joining strings\<close>

text \<open>\<open>strings.Join\<close>.\<close>

fun join_strings :: "string \<Rightarrow> string list \<Rightarrow> string" where
  "join_strings sep [] = []"
| "join_strings sep [x] = x"
| "join_strings sep (x # y # zs) = x @ sep @ join_strings sep (y # zs)"

section \<open>Decimal text of integers\<close>

text \<open>\<open>strconv.Itoa\<close> and \<open>big.Int.String\<close>.\<close>

fun decimal :: "nat \<Rightarrow> string" where
  "decimal n =
    (if n < 10 then [char_of (48 + n)] else decimal (n div 10) @ [char_of (48 + n mod 10)])"

declare decimal.simps [simp del]

definition decimal_int :: "int \<Rightarrow> string" where
  "decimal_int i = (if i < 0 then CHR ''-'' # decimal (nat (- i)) else decimal (nat i))"

definition decimal_value :: "string \<Rightarrow> nat" where
  "decimal_value s = foldl (\<lambda>a c. a * 10 + (of_char c - 48)) 0 s"

lemma decimal_value_decimal: "decimal_value (decimal n) = n"
proof (induction n rule: decimal.induct)
  case (1 n)
  show ?case
  proof (cases "n < 10")
    case True
    then show ?thesis by (subst decimal.simps) (simp add: decimal_value_def)
  next
    case False
    with "1.IH" have "decimal_value (decimal (n div 10)) = n div 10" by simp
    with False show ?thesis by (subst decimal.simps) (simp add: decimal_value_def)
  qed
qed

lemma decimal_inj: "decimal m = decimal n \<Longrightarrow> m = n"
  by (metis decimal_value_decimal)

lemma decimal_nonempty [simp]: "decimal n \<noteq> []"
  by (subst decimal.simps) simp

lemma decimal_digits: "c \<in> set (decimal n) \<Longrightarrow> 48 \<le> (of_char c :: nat) \<and> (of_char c :: nat) < 58"
proof (induction n rule: decimal.induct)
  case (1 n)
  then show ?case
    by (cases "n < 10") (subst (asm) decimal.simps; auto)+
qed

end
