(* ===== verification/Source_Text.thy ===== *)
theory Source_Text
  imports Prelude
begin

text \<open>
  \<^verbatim>\<open>src/shared/utils.go\<close> (positions and spans) and the Go string and rune conversions
  the front end uses: a Go string is a list of bytes, a rune is a code point (a \<open>nat\<close>),
  \<open>[]rune(s)\<close> decodes UTF-8 and replaces every invalid byte by U+FFFD, and
  \<open>string(r)\<close> encodes one rune.
\<close>

type_synonym rune = nat

abbreviation rn :: "char \<Rightarrow> rune" where
  "rn c \<equiv> of_char c"

section \<open>UTF-8\<close>

definition valid_rune :: "rune \<Rightarrow> bool" where
  "valid_rune r \<longleftrightarrow> r < 0xD800 \<or> (0xDFFF < r \<and> r \<le> 0x10FFFF)"

text \<open>\<open>string(r)\<close>: an invalid rune is written as U+FFFD.\<close>

definition encode_rune :: "rune \<Rightarrow> string" where
  "encode_rune r =
    (if r < 0x80 then [char_of r]
     else if r < 0x800 then [char_of (0xC0 + r div 64), char_of (0x80 + r mod 64)]
     else if \<not> valid_rune r then [char_of (0xEF::nat), char_of (0xBF::nat), char_of (0xBD::nat)]
     else if r < 0x10000 then
       [char_of (0xE0 + r div 4096), char_of (0x80 + r div 64 mod 64), char_of (0x80 + r mod 64)]
     else
       [char_of (0xF0 + r div 262144), char_of (0x80 + r div 4096 mod 64),
        char_of (0x80 + r div 64 mod 64), char_of (0x80 + r mod 64)])"

definition string_of_runes :: "rune list \<Rightarrow> string" where
  "string_of_runes rs = concat (map encode_rune rs)"

definition cont_byte :: "nat \<Rightarrow> bool" where
  "cont_byte b \<longleftrightarrow> 0x80 \<le> b \<and> b < 0xC0"

text \<open>One decoding step on bytes: the rune and the number of bytes it takes.\<close>

fun decode_rune :: "nat list \<Rightarrow> rune \<times> nat" where
  "decode_rune [] = (0xFFFD, 0)"
| "decode_rune (a # bs) =
    (if a < 0x80 then (a, 1)
     else if 0xC2 \<le> a \<and> a < 0xE0 then
       (case bs of b # _ \<Rightarrow>
          if cont_byte b then ((a - 0xC0) * 64 + (b - 0x80), 2) else (0xFFFD, 1)
        | [] \<Rightarrow> (0xFFFD, 1))
     else if 0xE0 \<le> a \<and> a < 0xF0 then
       (case bs of b # c # _ \<Rightarrow>
          (let r = (a - 0xE0) * 4096 + (b - 0x80) * 64 + (c - 0x80)
           in if cont_byte b \<and> cont_byte c \<and> 0x800 \<le> r \<and> valid_rune r then (r, 3)
              else (0xFFFD, 1))
        | _ \<Rightarrow> (0xFFFD, 1))
     else if 0xF0 \<le> a \<and> a < 0xF5 then
       (case bs of b # c # d # _ \<Rightarrow>
          (let r = (a - 0xF0) * 262144 + (b - 0x80) * 4096 + (c - 0x80) * 64 + (d - 0x80)
           in if cont_byte b \<and> cont_byte c \<and> cont_byte d \<and> 0x10000 \<le> r \<and> valid_rune r
              then (r, 4) else (0xFFFD, 1))
        | _ \<Rightarrow> (0xFFFD, 1))
     else (0xFFFD, 1))"

lemma decode_rune_width: "decode_rune (b # bs) = (r, n) \<Longrightarrow> 0 < n"
  by (auto split: list.splits if_splits simp: Let_def)

lemma decode_rune_ascii: "b < 0x80 \<Longrightarrow> decode_rune (b # bs) = (b, 1)"
  by simp

declare decode_rune.simps [simp del]

function decode_bytes :: "nat list \<Rightarrow> rune list" where
  "decode_bytes [] = []"
| "decode_bytes (b # bs) =
    (case decode_rune (b # bs) of (r, n) \<Rightarrow> r # decode_bytes (drop n (b # bs)))"
  by pat_completeness auto
termination
  by (relation "measure length") (auto dest!: decode_rune_width [OF sym])

text \<open>\<open>[]rune(text)\<close>.\<close>

definition runes_of_string :: "string \<Rightarrow> rune list" where
  "runes_of_string s = decode_bytes (map of_char s)"

lemma decode_bytes_ascii: "(\<And>b. b \<in> set bs \<Longrightarrow> b < 0x80) \<Longrightarrow> decode_bytes bs = bs"
  by (induction bs) (auto simp: decode_rune_ascii)

lemma string_of_runes_append [simp]:
  "string_of_runes (xs @ ys) = string_of_runes xs @ string_of_runes ys"
  by (simp add: string_of_runes_def)

lemma string_of_runes_Nil [simp]: "string_of_runes [] = []"
  by (simp add: string_of_runes_def)

lemma string_of_runes_single [simp]: "string_of_runes [r] = encode_rune r"
  by (simp add: string_of_runes_def)

lemma encode_rune_ascii: "r < 0x80 \<Longrightarrow> encode_rune r = [char_of r]"
  by (simp add: encode_rune_def)

section \<open>Locations\<close>

record LineCol =
  Line :: nat
  Col :: nat

record Location =
  LC :: LineCol
  EndLC :: LineCol
  Offset :: nat
  EndOffset :: nat
  FilePath :: string
  SourceText :: string

definition Location_WithEnd :: "Location \<Rightarrow> Location \<Rightarrow> Location" where
  "Location_WithEnd l e =
    (let l' = l\<lparr>EndLC := EndLC e, EndOffset := EndOffset e\<rparr>
     in if Line (EndLC l') = 0 then l'\<lparr>EndLC := LC e, EndOffset := Offset e\<rparr> else l')"

lemma WithEnd_start [simp]:
  "LC (Location_WithEnd l e) = LC l" "Offset (Location_WithEnd l e) = Offset l"
  by (simp_all add: Location_WithEnd_def Let_def)

end
