(* ===== verification/Tokens.thy ===== *)
theory Tokens
  imports Source_Text
begin

text \<open>
  \<^verbatim>\<open>src/tokeniser/token.go\<close> and the tables of \<^verbatim>\<open>src/tokeniser/tokeniser.go\<close>: token
  kinds, tokens, keywords, the display form of a token and the width of operator tokens.
\<close>

datatype TokenKind =
    TokenEof | TokenNewline
  | TokenKeyword | TokenIdentifier | TokenNumber | TokenFloat | TokenString | TokenCString
  | TokenChar
  | TokenOpenParen | TokenCloseParen | TokenOpenCurly | TokenCloseCurly
  | TokenOpenSquare | TokenCloseSquare
  | TokenEquals | TokenEqualsEquals | TokenNotEquals | TokenLess | TokenGreater
  | TokenLessEquals | TokenGreaterEquals
  | TokenPlus | TokenMinus | TokenNoInitializer | TokenAsterisk | TokenSlash | TokenPercent
  | TokenAmpersand | TokenLogicalAnd | TokenPipe | TokenLogicalOr | TokenCaret | TokenTilde
  | TokenShiftLeft | TokenShiftRight
  | TokenIncBy | TokenDecBy | TokenMulBy | TokenDivBy | TokenModBy | TokenBitwiseAndBy
  | TokenBitwiseOrBy | TokenBitwiseXorBy | TokenShiftLeftBy | TokenShiftRightBy
  | TokenSemicolon | TokenComma | TokenExclam | TokenColon | TokenDot | Token2Dots | Token3Dots
  | TokenArrow | TokenFatArrow | TokenAt | TokenDollar

record Token =
  tok_Type :: TokenKind
  tok_Value :: string
  tok_Loc :: Location
  NumberBase :: nat

definition keyword_table :: "string list" where
  "keyword_table =
    [''let'', ''mut'', ''struct'', ''enum'', ''union'', ''opaque'', ''trait'', ''dyn'', ''type'',
     ''alias'', ''if'', ''match'', ''as'', ''when'', ''else'', ''for'', ''break'', ''continue'',
     ''return'', ''defer'', ''import'', ''module'', ''pub'', ''true'', ''false'', ''nil'', ''in'']"

definition IsKeyword :: "string \<Rightarrow> bool" where
  "IsKeyword w \<longleftrightarrow> w \<in> set keyword_table"

fun kind_String :: "TokenKind \<Rightarrow> string \<Rightarrow> string" where
  "kind_String TokenEof v = ''<eof>''"
| "kind_String TokenNewline v = [CHR 0x5C, CHR ''n'']"
| "kind_String TokenKeyword v = ''kw('' @ v @ '')''"
| "kind_String TokenDollar v = ''$''"
| "kind_String TokenIdentifier v = ''ident('' @ v @ '')''"
| "kind_String TokenNumber v = ''num('' @ v @ '')''"
| "kind_String TokenFloat v = ''float('' @ v @ '')''"
| "kind_String TokenString v = ''str('' @ v @ '')''"
| "kind_String TokenChar v = ''ch('' @ v @ '')''"
| "kind_String TokenOpenParen v = ''(''"
| "kind_String TokenCloseParen v = '')''"
| "kind_String TokenOpenCurly v = ''{''"
| "kind_String TokenCloseCurly v = ''}''"
| "kind_String TokenOpenSquare v = ''[''"
| "kind_String TokenCloseSquare v = '']''"
| "kind_String TokenEquals v = ''=''"
| "kind_String TokenEqualsEquals v = ''==''"
| "kind_String TokenNotEquals v = ''!=''"
| "kind_String TokenLess v = ''<''"
| "kind_String TokenGreater v = ''>''"
| "kind_String TokenLessEquals v = ''<=''"
| "kind_String TokenGreaterEquals v = ''>=''"
| "kind_String TokenPlus v = ''+''"
| "kind_String TokenMinus v = ''-''"
| "kind_String TokenNoInitializer v = ''---''"
| "kind_String TokenAsterisk v = ''*''"
| "kind_String TokenSlash v = ''/''"
| "kind_String TokenPercent v = ''%''"
| "kind_String TokenAmpersand v = ''&''"
| "kind_String TokenLogicalAnd v = ''&&''"
| "kind_String TokenPipe v = ''|''"
| "kind_String TokenLogicalOr v = ''||''"
| "kind_String TokenCaret v = ''^''"
| "kind_String TokenTilde v = ''~''"
| "kind_String TokenShiftLeft v = ''<<''"
| "kind_String TokenShiftRight v = ''>>''"
| "kind_String TokenIncBy v = ''+=''"
| "kind_String TokenDecBy v = ''-=''"
| "kind_String TokenMulBy v = ''*=''"
| "kind_String TokenDivBy v = ''/=''"
| "kind_String TokenModBy v = ''%=''"
| "kind_String TokenBitwiseAndBy v = ''&=''"
| "kind_String TokenBitwiseOrBy v = ''|=''"
| "kind_String TokenBitwiseXorBy v = ''^=''"
| "kind_String TokenShiftLeftBy v = ''<<=''"
| "kind_String TokenShiftRightBy v = ''>>=''"
| "kind_String TokenSemicolon v = '';''"
| "kind_String TokenComma v = '',''"
| "kind_String TokenExclam v = ''!''"
| "kind_String TokenColon v = '':''"
| "kind_String TokenDot v = ''.''"
| "kind_String Token2Dots v = ''..''"
| "kind_String Token3Dots v = ''...''"
| "kind_String TokenArrow v = ''->''"
| "kind_String TokenFatArrow v = ''=>''"
| "kind_String TokenAt v = ''@''"
| "kind_String _ v = ''{UNKNOWN}''"

definition Token_String :: "Token \<Rightarrow> string" where
  "Token_String t = kind_String (tok_Type t) (tok_Value t)"

text \<open>The kinds that stand for one fixed spelling, which \<open>String\<close> returns.\<close>

fun fixed_kind :: "TokenKind \<Rightarrow> bool" where
  "fixed_kind TokenEof = False"
| "fixed_kind TokenNewline = False"
| "fixed_kind TokenKeyword = False"
| "fixed_kind TokenIdentifier = False"
| "fixed_kind TokenNumber = False"
| "fixed_kind TokenFloat = False"
| "fixed_kind TokenString = False"
| "fixed_kind TokenCString = False"
| "fixed_kind TokenChar = False"
| "fixed_kind _ = True"

fun tokenWidth :: "TokenKind \<Rightarrow> nat" where
  "tokenWidth TokenNoInitializer = 3"
| "tokenWidth TokenShiftLeftBy = 3"
| "tokenWidth TokenShiftRightBy = 3"
| "tokenWidth Token3Dots = 3"
| "tokenWidth TokenEqualsEquals = 2"
| "tokenWidth TokenNotEquals = 2"
| "tokenWidth TokenLessEquals = 2"
| "tokenWidth TokenGreaterEquals = 2"
| "tokenWidth TokenShiftLeft = 2"
| "tokenWidth TokenShiftRight = 2"
| "tokenWidth TokenIncBy = 2"
| "tokenWidth TokenDecBy = 2"
| "tokenWidth TokenMulBy = 2"
| "tokenWidth TokenDivBy = 2"
| "tokenWidth TokenModBy = 2"
| "tokenWidth TokenBitwiseAndBy = 2"
| "tokenWidth TokenBitwiseOrBy = 2"
| "tokenWidth TokenBitwiseXorBy = 2"
| "tokenWidth TokenLogicalAnd = 2"
| "tokenWidth TokenLogicalOr = 2"
| "tokenWidth Token2Dots = 2"
| "tokenWidth TokenArrow = 2"
| "tokenWidth TokenFatArrow = 2"
| "tokenWidth _ = 1"

lemma tokenWidth_fixed_imp: "fixed_kind k \<longrightarrow> tokenWidth k = length (kind_String k v)"
  by (cases k; hypsubst; simp)

lemma tokenWidth_fixed: "fixed_kind k \<Longrightarrow> tokenWidth k = length (kind_String k v)"
  using tokenWidth_fixed_imp by blast

end
