(* ===== verification/Scanner.thy ===== *)
theory Scanner
  imports Tokens
begin

text \<open>
  The primitives of \<^verbatim>\<open>src/tokeniser/tokeniser.go\<close>: the cursor (\<open>Peek\<close>, \<open>Next\<close>,
  \<open>Inc\<close>, \<open>Consume\<close>), the character classes, the readers of words, numbers, escapes,
  strings and comments, and \<open>AddToken\<close>. The state is the Go struct passed explicitly;
  error returns are values of \<open>scan_error\<close>. A loop that stops for every input is a total
  function, a loop that may run for ever is a \<^theory_text>\<open>partial_function\<close> whose value
  \<open>None\<close> means that it does not return. Offsets and columns only ever grow from 0, so they
  are \<open>nat\<close> and the code's tests for a negative position are vacuous.
\<close>

section \<open>State and cursor\<close>

record Tokeniser =
  tk_pos :: nat
  tk_line :: nat
  tk_col :: nat
  tk_text :: "rune list"
  tk_sourceText :: string
  tk_fileOrigin :: string
  tk_tokens :: "Token list"

datatype scan_error =
    InvalidDigit Location rune nat
  | ExpectedDigits Location nat
  | PrefixedFloat Location nat
  | InvalidFloatChar Location rune
  | InvalidLiteral Location nat
  | InvalidEscape Location
  | ExpectedStringStart Location
  | ExpectedStringEnd Location
  | ExpectedCharEnd Location
  | UnexpectedChar Location rune

definition NewTokeniser :: "string \<Rightarrow> string \<Rightarrow> Tokeniser" where
  "NewTokeniser src origin =
    \<lparr>tk_pos = 0, tk_line = 1, tk_col = 1, tk_text = runes_of_string src,
     tk_sourceText = src, tk_fileOrigin = origin, tk_tokens = []\<rparr>"

definition Peek :: "Tokeniser \<Rightarrow> rune" where
  "Peek t = (if tk_pos t \<ge> length (tk_text t) then 0 else tk_text t ! tk_pos t)"

definition Next :: "Tokeniser \<Rightarrow> rune" where
  "Next t = (let p = tk_pos t + 1 in if p \<ge> length (tk_text t) then 0 else tk_text t ! p)"

definition Inc :: "Tokeniser \<Rightarrow> Tokeniser" where
  "Inc t =
    (let t' = (if Peek t = rn CHR 0x0A then t\<lparr>tk_line := tk_line t + 1, tk_col := 1\<rparr>
               else if Peek t \<noteq> rn CHR 0x0D then t\<lparr>tk_col := tk_col t + 1\<rparr>
               else t)
     in t'\<lparr>tk_pos := tk_pos t' + 1\<rparr>)"

definition Consume :: "Tokeniser \<Rightarrow> rune \<times> Tokeniser" where
  "Consume t = (let c = Peek t in (c, Inc t))"

definition IsAlpha :: "rune \<Rightarrow> bool" where
  "IsAlpha c \<longleftrightarrow> (c \<ge> rn CHR ''a'' \<and> c \<le> rn CHR ''z'') \<or> (c \<ge> rn CHR ''A'' \<and> c \<le> rn CHR ''Z'')"

definition IsNum :: "rune \<Rightarrow> bool" where
  "IsNum c \<longleftrightarrow> c \<ge> rn CHR ''0'' \<and> c \<le> rn CHR ''9''"

definition IsLegalWordStart :: "rune \<Rightarrow> bool" where
  "IsLegalWordStart c \<longleftrightarrow> IsAlpha c \<or> c = rn CHR ''_''"

definition IsLegalWordChar :: "rune \<Rightarrow> bool" where
  "IsLegalWordChar c \<longleftrightarrow> IsLegalWordStart c \<or> IsNum c"

definition IsSpace :: "rune \<Rightarrow> bool" where
  "IsSpace c \<longleftrightarrow> c = rn CHR '' '' \<or> c = rn CHR 0x09 \<or> c = rn CHR 0x0D"

lemma Inc_frame [simp]:
  "tk_pos (Inc t) = Suc (tk_pos t)" "tk_text (Inc t) = tk_text t"
  "tk_sourceText (Inc t) = tk_sourceText t" "tk_fileOrigin (Inc t) = tk_fileOrigin t"
  "tk_tokens (Inc t) = tk_tokens t"
  by (simp_all add: Inc_def Let_def)

lemma Peek_in: "0 < Peek t \<Longrightarrow> tk_pos t < length (tk_text t) \<and> tk_text t ! tk_pos t = Peek t"
  by (auto simp: Peek_def split: if_splits)

lemma Next_in:
  "0 < Next t \<Longrightarrow> Suc (tk_pos t) < length (tk_text t) \<and> tk_text t ! Suc (tk_pos t) = Next t"
  by (auto simp: Next_def Let_def split: if_splits)

lemma Peek_Inc: "Peek (Inc t) = Next t"
  by (simp add: Peek_def Next_def)

lemma class_not_0 [simp]:
  "\<not> IsAlpha 0" "\<not> IsNum 0" "\<not> IsLegalWordStart 0" "\<not> IsLegalWordChar 0" "\<not> IsSpace 0"
  by (simp_all add: IsAlpha_def IsNum_def IsLegalWordStart_def IsLegalWordChar_def IsSpace_def)

lemma class_pos:
  "IsAlpha c \<Longrightarrow> 0 < c" "IsNum c \<Longrightarrow> 0 < c" "IsLegalWordStart c \<Longrightarrow> 0 < c"
  "IsLegalWordChar c \<Longrightarrow> 0 < c" "IsSpace c \<Longrightarrow> 0 < c"
  using class_not_0 by (metis not_gr_zero)+

lemma in_text_measure:
  "0 < Peek t \<Longrightarrow> length (tk_text t) - Suc (tk_pos t) < length (tk_text t) - tk_pos t"
  by (auto dest: Peek_in)

section \<open>Words\<close>

text \<open>The loop of \<open>ReadWord\<close>: the runes written so far and the state.\<close>

function word_loop :: "rune list \<Rightarrow> Tokeniser \<Rightarrow> rune list \<times> Tokeniser" where
  "word_loop s t =
    (if IsLegalWordChar (Peek t)
     then (case Consume t of (c, t') \<Rightarrow> word_loop (s @ [c]) t') else (s, t))"
  by pat_completeness auto
termination
  by (relation "measure (\<lambda>(s, t). length (tk_text t) - tk_pos t)")
     (auto simp: Consume_def Let_def dest: class_pos intro!: in_text_measure)

declare word_loop.simps [simp del]

definition ReadWord :: "Tokeniser \<Rightarrow> string \<times> Tokeniser" where
  "ReadWord t = (case word_loop [] t of (s, t') \<Rightarrow> (string_of_runes s, t'))"

section \<open>Numbers\<close>

definition digitValue :: "rune \<Rightarrow> nat" where
  "digitValue c =
    (if c \<ge> rn CHR ''0'' \<and> c \<le> rn CHR ''9'' then c - rn CHR ''0''
     else if c \<ge> rn CHR ''a'' \<and> c \<le> rn CHR ''f'' then c - rn CHR ''a'' + 10
     else if c \<ge> rn CHR ''A'' \<and> c \<le> rn CHR ''F'' then c - rn CHR ''A'' + 10
     else 36)"

text \<open>
  \<open>new(big.Int).SetString(s, base)\<close> for an explicit base of at most 16 and a text without
  sign, and \<open>String()\<close> of a natural number.
\<close>

definition digits_value :: "nat \<Rightarrow> rune list \<Rightarrow> nat" where
  "digits_value base ds = foldl (\<lambda>a d. a * base + digitValue d) 0 ds"

definition big_SetString :: "rune list \<Rightarrow> nat \<Rightarrow> nat option" where
  "big_SetString ds base =
    (if ds \<noteq> [] \<and> (\<forall>d \<in> set ds. digitValue d < base) then Some (digits_value base ds) else None)"

definition GetLoc :: "Tokeniser \<Rightarrow> Location" where
  "GetLoc t =
    (let lc = \<lparr>Line = tk_line t, Col = tk_col t\<rparr>
     in \<lparr>LC = lc, EndLC = lc, Offset = tk_pos t, EndOffset = tk_pos t,
         FilePath = tk_fileOrigin t, SourceText = tk_sourceText t\<rparr>)"

text \<open>The digit loop: stops at the first rune that is no letter and no digit.\<close>

function digit_loop ::
  "nat \<Rightarrow> rune list \<Rightarrow> Tokeniser \<Rightarrow> scan_error + (rune list \<times> Tokeniser)" where
  "digit_loop base ds t =
    (if \<not> IsSpace (Peek t) \<and> Peek t \<noteq> rn CHR 0x0A then
       (let c = Peek t
        in if \<not> IsAlpha c \<and> \<not> IsNum c then Inr (ds, t)
           else if digitValue c \<ge> base then Inl (InvalidDigit (GetLoc t) c base)
           else (case Consume t of (c', t') \<Rightarrow> digit_loop base (ds @ [c']) t'))
     else Inr (ds, t))"
  by pat_completeness auto
termination
  by (relation "measure (\<lambda>(b, ds, t). length (tk_text t) - tk_pos t)")
     (auto simp: Consume_def Let_def dest: class_pos intro!: in_text_measure)

declare digit_loop.simps [simp del]

text \<open>The loop over the fraction digits.\<close>

function fraction_loop :: "rune list \<Rightarrow> Tokeniser \<Rightarrow> rune list \<times> Tokeniser" where
  "fraction_loop ds t =
    (if IsNum (Peek t)
     then (case Consume t of (c, t') \<Rightarrow> fraction_loop (ds @ [c]) t') else (ds, t))"
  by pat_completeness auto
termination
  by (relation "measure (\<lambda>(s, t). length (tk_text t) - tk_pos t)")
     (auto simp: Consume_def Let_def dest: class_pos intro!: in_text_measure)

declare fraction_loop.simps [simp del]

definition number_base :: "Tokeniser \<Rightarrow> nat \<times> bool" where
  "number_base t =
    (if Peek t = rn CHR ''0'' then
       (if Next t = rn CHR ''b'' \<or> Next t = rn CHR ''B'' then (2, True)
        else if Next t = rn CHR ''o'' \<or> Next t = rn CHR ''O'' then (8, True)
        else if Next t = rn CHR ''x'' \<or> Next t = rn CHR ''X'' then (16, True)
        else (10, False))
     else (10, False))"

text \<open>The fraction of an unprefixed number, after its integer digits \<open>ds\<close>.\<close>

definition number_fraction ::
  "bool \<Rightarrow> rune list \<Rightarrow> Tokeniser \<Rightarrow> scan_error + (rune list \<times> Tokeniser)" where
  "number_fraction prefixed ds t =
    (if \<not> prefixed \<and> Peek t = rn CHR ''.'' \<and> IsNum (Next t) then
       (case Consume t of (dot, t1) \<Rightarrow>
          (case fraction_loop (ds @ [dot]) t1 of (ds', t2) \<Rightarrow>
             if IsAlpha (Peek t2) then Inl (InvalidFloatChar (GetLoc t2) (Peek t2))
             else Inr (ds', t2)))
     else Inr (ds, t))"

definition ReadNumber :: "Tokeniser \<Rightarrow> scan_error + (string \<times> nat \<times> Tokeniser)" where
  "ReadNumber t =
    (let negative = (Peek t = rn CHR ''-'');
         t1 = (if negative then Inc t else t);
         base = fst (number_base t1);
         prefixed = snd (number_base t1);
         t2 = (if prefixed then Inc (Inc t1) else t1)
     in case digit_loop base [] t2 of
          Inl e \<Rightarrow> Inl e
        | Inr (ds, t3) \<Rightarrow>
            if ds = [] then Inl (ExpectedDigits (GetLoc t3) base)
            else if prefixed \<and> Peek t3 = rn CHR ''.'' \<and> IsNum (Next t3)
            then Inl (PrefixedFloat (GetLoc t3) base)
            else (case number_fraction prefixed ds t3 of
                    Inl e \<Rightarrow> Inl e
                  | Inr (ds', t4) \<Rightarrow>
                      (case (if prefixed then map_option decimal (big_SetString ds' base)
                             else Some (string_of_runes ds')) of
                         None \<Rightarrow> Inl (InvalidLiteral (GetLoc t4) base)
                       | Some value \<Rightarrow>
                           Inr (if negative then CHR ''-'' # value else value, base, t4))))"

section \<open>Escapes, strings and comments\<close>

definition HanldeEscape :: "Tokeniser \<Rightarrow> scan_error + (string \<times> Tokeniser)" where
  "HanldeEscape t =
    (case Consume t of (c, t1) \<Rightarrow>
       if c \<noteq> rn CHR 0x5C then Inr (encode_rune c, t1)
       else (case Consume t1 of (e, t2) \<Rightarrow>
         if e = rn CHR 0x5C then Inr ([CHR 0x5C], t2)
         else if e = rn CHR 0x22 then Inr ([CHR 0x22], t2)
         else if e = rn CHR ''n'' then Inr ([CHR 0x0A], t2)
         else if e = rn CHR ''r'' then Inr ([CHR 0x0D], t2)
         else if e = rn CHR ''t'' then Inr ([CHR 0x09], t2)
         else if e = rn CHR ''b'' then Inr ([CHR 0x08], t2)
         else if e = rn CHR ''f'' then Inr ([CHR 0x0C], t2)
         else if e = rn CHR ''v'' then Inr ([CHR 0x0B], t2)
         else if e = rn CHR ''a'' then Inr ([CHR 0x07], t2)
         else if e = rn CHR ''0'' then Inr (encode_rune 0, t2)
         else Inl (InvalidEscape (GetLoc t2))))"

partial_function (option) string_loop ::
  "string \<Rightarrow> Tokeniser \<Rightarrow> (scan_error + (string \<times> Tokeniser)) run" where
  "string_loop s t =
    (if Peek t \<noteq> rn CHR 0x22 \<and> Peek t \<noteq> rn CHR 0x0A then
       (case HanldeEscape t of
          Inl e \<Rightarrow> Some (Inl e)
        | Inr (ch, t') \<Rightarrow> string_loop (s @ ch) t')
     else Some (Inr (s, t)))"

declare string_loop.simps [code]

definition ReadString :: "Tokeniser \<Rightarrow> (scan_error + (string \<times> Tokeniser)) run" where
  "ReadString t =
    (if Peek t \<noteq> rn CHR 0x22 then Some (Inl (ExpectedStringStart (GetLoc t)))
     else do {
       r \<leftarrow> string_loop [] (Inc t);
       Some (case r of
               Inl e \<Rightarrow> Inl e
             | Inr (s, t') \<Rightarrow>
                 if Peek t' \<noteq> rn CHR 0x22 then Inl (ExpectedStringEnd (GetLoc t'))
                 else Inr (s, Inc t')) })"

partial_function (option) comment_loop :: "Tokeniser \<Rightarrow> Tokeniser run" where
  "comment_loop t = (if Peek t \<noteq> rn CHR 0x0A then comment_loop (Inc t) else Some t)"

declare comment_loop.simps [code]

definition IgnoreComment :: "Tokeniser \<Rightarrow> Tokeniser run" where
  "IgnoreComment t = comment_loop (Inc (Inc t))"

function multiline_loop :: "Tokeniser \<Rightarrow> Tokeniser" where
  "multiline_loop t =
    (if Peek t = rn CHR ''*'' \<and> Next t = rn CHR ''/'' then Inc (Inc t)
     else if Peek t = 0 then t
     else multiline_loop (Inc t))"
  by pat_completeness auto
termination
  by (relation "measure (\<lambda>t. length (tk_text t) - tk_pos t)") (auto dest: Peek_in)

declare multiline_loop.simps [simp del]

definition IgnoreMultilineComment :: "Tokeniser \<Rightarrow> Tokeniser" where
  "IgnoreMultilineComment t = multiline_loop (Inc (Inc t))"

section \<open>Emitting tokens\<close>

text \<open>The loop that advances the end of a span over \<open>width\<close> runes of the text.\<close>

fun advance_end :: "rune list \<Rightarrow> nat \<Rightarrow> Location \<Rightarrow> Location" where
  "advance_end txt 0 e = e"
| "advance_end txt (Suc w) e =
    (if EndOffset e < length txt then
       (let c = txt ! EndOffset e; e' = e\<lparr>EndOffset := EndOffset e + 1\<rparr>
        in advance_end txt w
             (if c = rn CHR 0x0A then e'\<lparr>EndLC := \<lparr>Line = Line (EndLC e') + 1, Col = 1\<rparr>\<rparr>
              else if c \<noteq> rn CHR 0x0D then e'\<lparr>EndLC := (EndLC e')\<lparr>Col := Col (EndLC e') + 1\<rparr>\<rparr>
              else e'))
     else e)"

definition AddToken :: "TokenKind \<Rightarrow> Location \<Rightarrow> string \<Rightarrow> Tokeniser \<Rightarrow> Tokeniser" where
  "AddToken ttype loc value t =
    (let end0 = GetLoc t;
         end1 = (if Offset end0 = Offset loc \<and> ttype \<noteq> TokenEof
                 then advance_end (tk_text t) (tokenWidth ttype) loc
                 else loc\<lparr>EndLC := LC end0, EndOffset := Offset end0\<rparr>);
         loc' = loc\<lparr>EndLC := EndLC end1, EndOffset := EndOffset end1\<rparr>
     in t\<lparr>tk_tokens := tk_tokens t @
          [\<lparr>tok_Type = ttype, tok_Value = value, tok_Loc = loc', NumberBase = 0\<rparr>]\<rparr>)"

definition ends_expression :: "Token \<Rightarrow> bool" where
  "ends_expression p =
    (tok_Type p \<in> {TokenIdentifier, TokenNumber, TokenFloat, TokenString, TokenCString, TokenChar,
       TokenCloseParen, TokenCloseCurly, TokenCloseSquare} \<or>
     (tok_Type p = TokenKeyword \<and>
       (tok_Value p = ''true'' \<or> tok_Value p = ''false'' \<or> tok_Value p = ''nil'')))"

definition previousTokenEndsExpressionHere :: "Tokeniser \<Rightarrow> bool" where
  "previousTokenEndsExpressionHere t =
    (if tk_tokens t = [] then False
     else let previous = last (tk_tokens t)
          in if EndOffset (tok_Loc previous) \<noteq> tk_pos t then False
             else ends_expression previous)"

definition previousTokenIsHere :: "TokenKind \<Rightarrow> Tokeniser \<Rightarrow> bool" where
  "previousTokenIsHere ttype t =
    (if tk_tokens t = [] then False
     else let previous = last (tk_tokens t)
          in tok_Type previous = ttype \<and> EndOffset (tok_Loc previous) = tk_pos t)"

definition set_last_base :: "nat \<Rightarrow> Tokeniser \<Rightarrow> Tokeniser" where
  "set_last_base base t =
    t\<lparr>tk_tokens := butlast (tk_tokens t) @ [(last (tk_tokens t))\<lparr>NumberBase := base\<rparr>]\<rparr>"

end
