(* ===== verification/Tokenise.thy ===== *)
theory Tokenise
  imports Scanner
begin

text \<open>
  The main loop of \<^verbatim>\<open>src/tokeniser/tokeniser.go\<close>. One turn of the loop is \<open>tok_step\<close>:
  the guards before the switch in their order, then the cases of the switch, grouped by the
  character they handle. \<open>Tokenise\<close> iterates it; its value \<open>None\<close> means that the loop
  never ends.
\<close>

datatype step = Finished Tokeniser | Continue Tokeniser | Fail scan_error

section \<open>The cases of the switch\<close>

text \<open>\<open>t.AddToken(k, t.GetLoc())\<close> followed by \<open>n\<close> calls of \<open>Inc\<close>.\<close>

definition emit :: "TokenKind \<Rightarrow> nat \<Rightarrow> Tokeniser \<Rightarrow> step" where
  "emit k n t = Continue ((Inc ^^ n) (AddToken k (GetLoc t) [] t))"

text \<open>The rune two places ahead is \<open>c\<close>.\<close>

definition third_is :: "rune \<Rightarrow> Tokeniser \<Rightarrow> bool" where
  "third_is c t \<longleftrightarrow> tk_pos t + 2 < length (tk_text t) \<and> tk_text t ! (tk_pos t + 2) = c"

definition lex_brackets :: "rune \<Rightarrow> Tokeniser \<Rightarrow> step option" where
  "lex_brackets c t =
    (if c = rn CHR 0x0A then Some (emit TokenNewline 1 t)
     else if c = rn CHR ''('' then Some (emit TokenOpenParen 1 t)
     else if c = rn CHR '')'' then Some (emit TokenCloseParen 1 t)
     else if c = rn CHR ''{'' then Some (emit TokenOpenCurly 1 t)
     else if c = rn CHR ''}'' then Some (emit TokenCloseCurly 1 t)
     else if c = rn CHR ''['' then Some (emit TokenOpenSquare 1 t)
     else if c = rn CHR '']'' then Some (emit TokenCloseSquare 1 t)
     else None)"

definition lex_comparison :: "rune \<Rightarrow> Tokeniser \<Rightarrow> step option" where
  "lex_comparison c t =
    (if c = rn CHR ''='' then Some
       (if Next t = rn CHR ''>'' then emit TokenFatArrow 2 t
        else if Next t = rn CHR ''='' then emit TokenEqualsEquals 2 t
        else emit TokenEquals 1 t)
     else if c = rn CHR ''!'' then Some
       (if Next t = rn CHR ''='' then emit TokenNotEquals 2 t else emit TokenExclam 1 t)
     else if c = rn CHR ''<'' then Some
       (if Next t = rn CHR ''<'' \<and> third_is (rn CHR ''='') t then emit TokenShiftLeftBy 3 t
        else if Next t = rn CHR ''<'' then emit TokenShiftLeft 2 t
        else if Next t = rn CHR ''='' then emit TokenLessEquals 2 t
        else emit TokenLess 1 t)
     else if c = rn CHR ''>'' then Some
       (if Next t = rn CHR ''>'' \<and> third_is (rn CHR ''='') t then emit TokenShiftRightBy 3 t
        else if Next t = rn CHR ''>'' then emit TokenShiftRight 2 t
        else if Next t = rn CHR ''='' then emit TokenGreaterEquals 2 t
        else emit TokenGreater 1 t)
     else if c = rn CHR ''+'' then Some
       (if Next t = rn CHR ''='' then emit TokenIncBy 2 t else emit TokenPlus 1 t)
     else None)"

text \<open>A number token: \<open>ReadNumber\<close>, the kind by the presence of a point, the base.\<close>

definition lex_number :: "Tokeniser \<Rightarrow> step" where
  "lex_number t =
    (let pos = GetLoc t
     in case ReadNumber t of
          Inl e \<Rightarrow> Fail e
        | Inr (n, base, t') \<Rightarrow>
            (let kind = (if CHR ''.'' \<in> set n then TokenFloat else TokenNumber)
             in Continue (set_last_base base (AddToken kind pos n t'))))"

definition lex_minus :: "Tokeniser \<Rightarrow> step" where
  "lex_minus t =
    (if Next t = rn CHR ''-'' \<and> third_is (rn CHR ''-'') t then emit TokenNoInitializer 3 t
     else if IsNum (Next t) \<and> \<not> previousTokenEndsExpressionHere t
       \<and> \<not> previousTokenIsHere TokenMinus t
     then lex_number t
     else if Next t = rn CHR ''='' then emit TokenDecBy 2 t
     else if Next t = rn CHR ''>'' then emit TokenArrow 2 t
     else emit TokenMinus 1 t)"

definition lex_slash :: "Tokeniser \<Rightarrow> step run" where
  "lex_slash t =
    (if Next t = rn CHR ''/'' then map_option Continue (IgnoreComment t)
     else if Next t = rn CHR ''*'' then Some (Continue (IgnoreMultilineComment t))
     else if Next t = rn CHR ''='' then Some (emit TokenDivBy 2 t)
     else Some (emit TokenSlash 1 t))"

definition lex_operators :: "rune \<Rightarrow> Tokeniser \<Rightarrow> step option" where
  "lex_operators c t =
    (if c = rn CHR ''*'' then Some
       (if Next t = rn CHR ''='' then emit TokenMulBy 2 t else emit TokenAsterisk 1 t)
     else if c = rn CHR ''%'' then Some
       (if Next t = rn CHR ''='' then emit TokenModBy 2 t else emit TokenPercent 1 t)
     else if c = rn CHR ''&'' then Some
       (if Next t = rn CHR ''='' then emit TokenBitwiseAndBy 2 t
        else if Next t = rn CHR ''&'' then emit TokenLogicalAnd 2 t
        else emit TokenAmpersand 1 t)
     else if c = rn CHR ''|'' then Some
       (if Next t = rn CHR ''='' then emit TokenBitwiseOrBy 2 t
        else if Next t = rn CHR ''|'' then emit TokenLogicalOr 2 t
        else emit TokenPipe 1 t)
     else if c = rn CHR ''^'' then Some
       (if Next t = rn CHR ''='' then emit TokenBitwiseXorBy 2 t else emit TokenCaret 1 t)
     else None)"

definition lex_single :: "rune \<Rightarrow> Tokeniser \<Rightarrow> step option" where
  "lex_single c t =
    (if c = rn CHR ''~'' then Some (emit TokenTilde 1 t)
     else if c = rn CHR '';'' then Some (emit TokenSemicolon 1 t)
     else if c = rn CHR '','' then Some (emit TokenComma 1 t)
     else if c = rn CHR '':'' then Some (emit TokenColon 1 t)
     else if c = rn CHR ''@'' then Some (emit TokenAt 1 t)
     else if c = rn CHR ''$'' then Some (emit TokenDollar 1 t)
     else None)"

definition lex_dot :: "Tokeniser \<Rightarrow> step" where
  "lex_dot t =
    (let loc = GetLoc t
     in if Next t = rn CHR ''.'' then
          (let t1 = Inc t
           in if Next t1 = rn CHR ''.'' then Continue (AddToken Token3Dots loc [] (Inc (Inc t1)))
              else Continue (AddToken Token2Dots loc [] (Inc t1)))
        else emit TokenDot 1 t)"

definition lex_char :: "Tokeniser \<Rightarrow> step" where
  "lex_char t =
    (let loc = GetLoc t
     in case HanldeEscape (Inc t) of
          Inl e \<Rightarrow> Fail e
        | Inr (ch, t1) \<Rightarrow>
            (case Consume t1 of (q, t2) \<Rightarrow>
               if q \<noteq> rn CHR 0x27 then Fail (ExpectedCharEnd loc)
               else Continue (AddToken TokenChar loc ch t2)))"

text \<open>A string token of the given kind that starts at \<open>pos\<close>; \<open>t\<close> is at the quote.\<close>

definition lex_string :: "TokenKind \<Rightarrow> Location \<Rightarrow> Tokeniser \<Rightarrow> step run" where
  "lex_string k pos t =
    map_option (\<lambda>r. case r of Inl e \<Rightarrow> Fail e | Inr (s, t') \<Rightarrow> Continue (AddToken k pos s t'))
      (ReadString t)"

definition lex_backslash :: "Tokeniser \<Rightarrow> step" where
  "lex_backslash t = Continue (if Next t = rn CHR 0x0A then Inc (Inc t) else t)"

definition lex_switch :: "rune \<Rightarrow> Tokeniser \<Rightarrow> step run" where
  "lex_switch c t =
    (if c = rn CHR 0x22 then lex_string TokenString (GetLoc t) t
     else if c = rn CHR 0x5C then Some (lex_backslash t)
     else case lex_brackets c t of Some s \<Rightarrow> Some s | None \<Rightarrow>
     (case lex_comparison c t of Some s \<Rightarrow> Some s | None \<Rightarrow>
     (if c = rn CHR ''-'' then Some (lex_minus t)
      else if c = rn CHR ''/'' then lex_slash t
      else case lex_operators c t of Some s \<Rightarrow> Some s | None \<Rightarrow>
      (case lex_single c t of Some s \<Rightarrow> Some s | None \<Rightarrow>
      (if c = rn CHR ''.'' then Some (lex_dot t)
       else if c = rn CHR 0x27 then Some (lex_char t)
       else Some (Fail (UnexpectedChar (GetLoc t) c)))))))"

section \<open>The loop\<close>

definition lex_word :: "Tokeniser \<Rightarrow> step" where
  "lex_word t =
    (let pos = GetLoc t
     in case ReadWord t of (w, t') \<Rightarrow>
          if IsKeyword w then Continue (AddToken TokenKeyword pos w t')
          else Continue (AddToken TokenIdentifier pos w t'))"

definition tok_step :: "Tokeniser \<Rightarrow> step run" where
  "tok_step t =
    (let c = Peek t
     in if c = 0 then Some (Finished (AddToken TokenEof (GetLoc t) [] t))
        else if IsSpace c then Some (Continue (Inc t))
        else if c = rn CHR ''c'' \<and> Next t = rn CHR 0x22
        then lex_string TokenCString (GetLoc t) (Inc t)
        else if IsLegalWordStart c then Some (lex_word t)
        else if IsNum c then Some (lex_number t)
        else lex_switch c t)"

partial_function (option) Tokenise :: "Tokeniser \<Rightarrow> (scan_error + Token list) run" where
  "Tokenise t =
    Option.bind (tok_step t) (\<lambda>s.
      case s of
        Finished t' \<Rightarrow> Some (Inr (tk_tokens t'))
      | Fail e \<Rightarrow> Some (Inl e)
      | Continue t' \<Rightarrow> Tokenise t')"

declare Tokenise.simps [code]

end
