(* ===== verification/Lexical_Grammar.thy ===== *)
theory Lexical_Grammar
  imports Scanner "HOL-Library.Sublist"
begin

text \<open>
  The lexical grammar of qk as a description of texts, independent of the scanner's state:
  what the runes of a string or character literal denote (\<open>string_text\<close>,
  \<open>escape_unit\<close>), which runes may stand between two tokens (\<open>skips\<close>), and where a token
  ends (\<open>ends_lexeme\<close>). The correctness theorem of \<open>Tokenise\<close> is stated over it.
\<close>

section \<open>Literals\<close>

text \<open>The letters after a backslash and the runes they stand for.\<close>

definition escapes :: "(rune \<times> rune) list" where
  "escapes =
    [(rn CHR 0x5C, rn CHR 0x5C), (rn CHR 0x22, rn CHR 0x22), (rn CHR ''n'', 10),
     (rn CHR ''r'', 13), (rn CHR ''t'', 9), (rn CHR ''b'', 8), (rn CHR ''f'', 12),
     (rn CHR ''v'', 11), (rn CHR ''a'', 7), (rn CHR ''0'', 0)]"

text \<open>One rune or one escape, and the text it denotes.\<close>

fun escape_unit :: "rune list \<Rightarrow> string option" where
  "escape_unit [c] = (if c = rn CHR 0x5C then None else Some (encode_rune c))"
| "escape_unit [b, e] =
    (if b = rn CHR 0x5C then map_option encode_rune (map_of escapes e) else None)"
| "escape_unit _ = None"

text \<open>
  The runes between the quotes of a string: a sequence of units without a bare quote or
  newline, and the text they denote.
\<close>

fun string_text :: "rune list \<Rightarrow> string option" where
  "string_text [] = Some []"
| "string_text (c # cs) =
    (if c = rn CHR 0x5C then
       (case cs of
          [] \<Rightarrow> None
        | e # cs' \<Rightarrow>
            (case escape_unit [c, e] of
               None \<Rightarrow> None
             | Some s \<Rightarrow> map_option ((@) s) (string_text cs')))
     else if c = rn CHR 0x22 \<or> c = rn CHR 0x0A then None
     else map_option ((@) (encode_rune c)) (string_text cs))"

section \<open>Gaps\<close>

text \<open>The scanner takes a NUL rune for the end of the text.\<close>

definition at_end :: "rune list \<Rightarrow> bool" where
  "at_end xs \<longleftrightarrow> xs = [] \<or> hd xs = 0"

text \<open>
  \<open>skips xs ys\<close>: the text \<open>xs\<close> starts with blanks, continued lines and comments, and
  \<open>ys\<close> is what follows them. A block comment ends at the first \<open>*/\<close> after its opening
  or at the end of the text; a line comment leaves its newline, which is a token.
\<close>

inductive skips :: "rune list \<Rightarrow> rune list \<Rightarrow> bool" where
  nothing: "skips xs xs"
| blank: "IsSpace c \<Longrightarrow> skips xs ys \<Longrightarrow> skips (c # xs) ys"
| continuation: "skips xs ys \<Longrightarrow> skips (rn CHR 0x5C # rn CHR 0x0A # xs) ys"
| line_comment:
    "rn CHR 0x0A \<notin> set cs \<Longrightarrow> skips (rn CHR 0x0A # xs) ys \<Longrightarrow>
     skips (rn CHR ''/'' # rn CHR ''/'' # cs @ rn CHR 0x0A # xs) ys"
| block_comment:
    "0 \<notin> set cs \<Longrightarrow> \<not> sublist (map of_char ''*/'') (cs @ [rn CHR ''*'']) \<Longrightarrow> skips xs ys \<Longrightarrow>
     skips (rn CHR ''/'' # rn CHR ''*'' # cs @ rn CHR ''*'' # rn CHR ''/'' # xs) ys"
| open_comment:
    "0 \<notin> set cs \<Longrightarrow> \<not> sublist (map of_char ''*/'') cs \<Longrightarrow> at_end xs \<Longrightarrow> skips xs ys \<Longrightarrow>
     skips (rn CHR ''/'' # rn CHR ''*'' # cs @ xs) ys"

lemmas skips_intros = skips.intros [simplified]

lemma skips_trans: "skips xs ys \<Longrightarrow> skips ys zs \<Longrightarrow> skips xs zs"
  by (induction rule: skips.induct) (auto intro: skips_intros)

section \<open>Ends\<close>

text \<open>The spellings of two or three runes: operators and the openings of comments.\<close>

definition long_spellings :: "string list" where
  "long_spellings =
    [''=>'', ''=='', ''!='', ''<<'', ''<='', ''<<='', ''>>'', ''>='', ''>>='', ''+='', ''-='',
     ''->'', ''---'', ''*='', ''%='', ''&='', ''&&'', ''|='', ''||'', ''^='', ''/='', ''//'',
     ''/*'', ''..'', ''...'']"

text \<open>The text \<open>xs\<close> starts with no spelling that properly extends \<open>s\<close>.\<close>

definition longest :: "string \<Rightarrow> rune list \<Rightarrow> bool" where
  "longest s xs \<longleftrightarrow>
    list_all (\<lambda>l. strict_prefix s l \<longrightarrow> \<not> prefix (map of_char l) xs) long_spellings"

text \<open>
  \<open>ends_lexeme k xs ys\<close>: a token of kind \<open>k\<close> whose text begins \<open>xs\<close> may end before
  \<open>ys\<close>: the end of file is at the end of the text, a word or a number does not continue,
  an integer is not the integer part of a fraction, and an operator is the longest there.
\<close>

definition ends_lexeme :: "TokenKind \<Rightarrow> rune list \<Rightarrow> rune list \<Rightarrow> bool" where
  "ends_lexeme k xs ys \<longleftrightarrow>
    (if k = TokenEof then at_end ys
     else if k = TokenIdentifier \<or> k = TokenKeyword then ys = [] \<or> \<not> IsLegalWordChar (hd ys)
     else if k = TokenNumber then
       (ys = [] \<or> \<not> IsAlpha (hd ys) \<and> \<not> IsNum (hd ys)) \<and>
       (\<forall>d zs. ys = rn CHR ''.'' # d # zs \<longrightarrow> \<not> IsNum d)
     else if k = TokenFloat then ys = [] \<or> \<not> IsAlpha (hd ys) \<and> \<not> IsNum (hd ys)
     else if fixed_kind k then longest (kind_String k []) xs
     else True)"

end
