(* ===== verification/Scanner_Facts.thy ===== *)
theory Scanner_Facts
  imports Lexical_Grammar
begin

text \<open>
  What the scanner primitives keep: the cursor invariant (line and column are those of the
  consumed prefix), the frame of every reader, and where a reader can stop. The contract of a
  reader is the locale \<open>reader\<close>; every reading loop is an instance of it.
\<close>

section \<open>Line and column of a prefix\<close>

definition lc_step :: "LineCol \<Rightarrow> rune \<Rightarrow> LineCol" where
  "lc_step l c =
    (if c = rn CHR 0x0A then \<lparr>Line = Line l + 1, Col = 1\<rparr>
     else if c \<noteq> rn CHR 0x0D then l\<lparr>Col := Col l + 1\<rparr> else l)"

definition lc_at :: "rune list \<Rightarrow> nat \<Rightarrow> LineCol" where
  "lc_at txt p = foldl lc_step \<lparr>Line = 1, Col = 1\<rparr> (take p txt)"

lemma lc_at_0 [simp]: "lc_at txt 0 = \<lparr>Line = 1, Col = 1\<rparr>"
  by (simp add: lc_at_def)

lemma lc_at_Suc: "p < length txt \<Longrightarrow> lc_at txt (Suc p) = lc_step (lc_at txt p) (txt ! p)"
  by (simp add: lc_at_def take_Suc_conv_app_nth)

definition cursor_ok :: "Tokeniser \<Rightarrow> bool" where
  "cursor_ok t \<longleftrightarrow> tk_pos t \<le> length (tk_text t) \<and>
     \<lparr>Line = tk_line t, Col = tk_col t\<rparr> = lc_at (tk_text t) (tk_pos t)"

lemma cursor_ok_new: "cursor_ok (NewTokeniser src f)"
  by (simp add: cursor_ok_def NewTokeniser_def)

lemma cursor_ok_Inc:
  assumes "cursor_ok t" and "tk_pos t < length (tk_text t)"
  shows "cursor_ok (Inc t)"
proof -
  have lc: "lc_at (tk_text t) (tk_pos t) = \<lparr>Line = tk_line t, Col = tk_col t\<rparr>"
    using assms(1) by (simp add: cursor_ok_def)
  have "Peek t = tk_text t ! tk_pos t" using assms(2) by (simp add: Peek_def)
  then have "\<lparr>Line = tk_line (Inc t), Col = tk_col (Inc t)\<rparr> = lc_step (lc_at (tk_text t) (tk_pos t)) (tk_text t ! tk_pos t)"
    by (simp add: lc lc_step_def Inc_def Let_def)
  with assms(2) show ?thesis by (simp add: cursor_ok_def lc_at_Suc)
qed

lemma advance_end_at:
  "EndOffset e + w \<le> length txt \<Longrightarrow> EndLC e = lc_at txt (EndOffset e) \<Longrightarrow>
   EndOffset (advance_end txt w e) = EndOffset e + w \<and>
   EndLC (advance_end txt w e) = lc_at txt (EndOffset e + w)"
  by (induction "txt" w e rule: advance_end.induct) (auto simp: Let_def lc_at_Suc lc_step_def)

section \<open>Readers\<close>

text \<open>\<open>t'\<close> is \<open>t\<close> with the cursor moved forward, never past the end of the text.\<close>

definition moves :: "Tokeniser \<Rightarrow> Tokeniser \<Rightarrow> bool" where
  "moves t t' \<longleftrightarrow> tk_text t' = tk_text t \<and> tk_tokens t' = tk_tokens t \<and>
     tk_sourceText t' = tk_sourceText t \<and> tk_fileOrigin t' = tk_fileOrigin t \<and>
     tk_pos t \<le> tk_pos t' \<and> (cursor_ok t \<longrightarrow> cursor_ok t')"

lemma moves_refl [simp]: "moves t t"
  by (simp add: moves_def)

lemma moves_trans: "moves t u \<Longrightarrow> moves u v \<Longrightarrow> moves t v"
  by (auto simp: moves_def)

lemma moves_Inc: "tk_pos t < length (tk_text t) \<Longrightarrow> moves t (Inc t)"
  by (auto simp: moves_def intro: cursor_ok_Inc)

lemma moves_Inc_Peek: "0 < Peek t \<Longrightarrow> moves t (Inc t)"
  by (auto intro!: moves_Inc dest: Peek_in)

lemma moves_Inc_Next: "0 < Next t \<Longrightarrow> moves t (Inc (Inc t))"
  by (auto intro!: moves_trans [OF moves_Inc moves_Inc] dest: Next_in)

lemma moves_step: "0 < Peek t \<Longrightarrow> moves (Inc t) u \<Longrightarrow> moves t u"
  using moves_Inc_Peek moves_trans by blast

lemma moves_cursor: "moves t t' \<Longrightarrow> cursor_ok t \<Longrightarrow> cursor_ok t'"
  by (simp add: moves_def)

text \<open>
  The interface between the main loop and its readers: a reader takes the state and may
  return a result with a moved state. The client lemmas are proved from this contract alone.
\<close>

locale reader =
  fixes read :: "Tokeniser \<Rightarrow> 'r option" and state :: "'r \<Rightarrow> Tokeniser"
  assumes read_moves: "read t = Some r \<Longrightarrow> moves t (state r)"
begin

lemma read_frame:
  "read t = Some r \<Longrightarrow> tk_text (state r) = tk_text t \<and> tk_tokens (state r) = tk_tokens t"
  using read_moves by (simp add: moves_def)

lemma read_cursor: "read t = Some r \<Longrightarrow> cursor_ok t \<Longrightarrow> cursor_ok (state r)"
  using read_moves moves_cursor by blast

lemma read_forward: "read t = Some r \<Longrightarrow> tk_pos t \<le> tk_pos (state r)"
  using read_moves by (simp add: moves_def)

lemma read_inside:
  "read t = Some r \<Longrightarrow> cursor_ok t \<Longrightarrow> tk_pos (state r) \<le> length (tk_text t)"
  using read_cursor read_frame by (metis cursor_ok_def)

end

subsection \<open>Words\<close>

lemma word_loop_spec:
  "word_loop s t = (s', t') \<Longrightarrow>
   moves t t' \<and> s' = s @ slice (tk_pos t) (tk_pos t') (tk_text t) \<and>
   (\<forall>c \<in> set (slice (tk_pos t) (tk_pos t') (tk_text t)). IsLegalWordChar c) \<and>
   (IsLegalWordChar (Peek t) \<longrightarrow> tk_pos t < tk_pos t') \<and> \<not> IsLegalWordChar (Peek t')"
proof (induction s t rule: word_loop.induct)
  case (1 s t)
  show ?case
  proof (cases "IsLegalWordChar (Peek t)")
    case False
    with "1.prems" show ?thesis by (simp add: word_loop.simps)
  next
    case True
    then have p: "0 < Peek t" by (rule class_pos)
    from True "1.prems" have loop: "word_loop (s @ [Peek t]) (Inc t) = (s', t')"
      by (simp add: word_loop.simps [of s] Consume_def Let_def)
    have IH: "moves (Inc t) t' \<and>
        s' = s @ [Peek t] @ slice (Suc (tk_pos t)) (tk_pos t') (tk_text t) \<and>
        (\<forall>c \<in> set (slice (Suc (tk_pos t)) (tk_pos t') (tk_text t)). IsLegalWordChar c) \<and>
        \<not> IsLegalWordChar (Peek t')"
      using "1.IH" [OF True _ loop] by (simp add: Consume_def Let_def)
    have le: "Suc (tk_pos t) \<le> tk_pos t'" using IH by (simp add: moves_def)
    have cons: "slice (tk_pos t) (tk_pos t') (tk_text t) =
        Peek t # slice (Suc (tk_pos t)) (tk_pos t') (tk_text t)"
      using le Peek_in [OF p] by (simp add: slice_Cons)
    from IH le cons True show ?thesis by (auto intro: moves_step [OF p])
  qed
qed

interpretation word_reader: reader "\<lambda>t. Some (ReadWord t)" snd
proof
  fix t r
  assume "Some (ReadWord t) = Some r"
  then show "moves t (snd r)"
    by (auto simp: ReadWord_def split: prod.splits dest: word_loop_spec)
qed

subsection \<open>Numbers\<close>

lemma digit_loop_spec:
  "digit_loop base ds t = Inr (ds', t') \<Longrightarrow>
   moves t t' \<and> ds' = ds @ slice (tk_pos t) (tk_pos t') (tk_text t) \<and>
   (\<forall>c \<in> set (slice (tk_pos t) (tk_pos t') (tk_text t)). digitValue c < base) \<and>
   \<not> IsAlpha (Peek t') \<and> \<not> IsNum (Peek t')"
proof (induction base ds t rule: digit_loop.induct)
  case (1 base ds t)
  show ?case
  proof (cases "IsAlpha (Peek t) \<or> IsNum (Peek t)")
    case False
    with "1.prems" have "ds' = ds \<and> t' = t"
      by (auto simp: digit_loop.simps [of base ds t] Let_def split: if_splits)
    with False show ?thesis by simp
  next
    case True
    then have p: "0 < Peek t" by (auto dest: class_pos)
    have nsp: "\<not> IsSpace (Peek t) \<and> Peek t \<noteq> rn CHR 0x0A"
      using True by (auto simp: IsAlpha_def IsNum_def IsSpace_def)
    have dv: "digitValue (Peek t) < base" and loop: "digit_loop base (ds @ [Peek t]) (Inc t) = Inr (ds', t')"
      using True nsp "1.prems"
      by (auto simp: digit_loop.simps [of base ds t] Consume_def Let_def split: if_splits)
    have IH: "moves (Inc t) t' \<and>
        ds' = ds @ [Peek t] @ slice (Suc (tk_pos t)) (tk_pos t') (tk_text t) \<and>
        (\<forall>c \<in> set (slice (Suc (tk_pos t)) (tk_pos t') (tk_text t)). digitValue c < base) \<and>
        \<not> IsAlpha (Peek t') \<and> \<not> IsNum (Peek t')"
      using "1.IH" [OF nsp refl _ _ _ loop] True dv by (auto simp: Consume_def Let_def)
    have le: "Suc (tk_pos t) \<le> tk_pos t'" using IH by (simp add: moves_def)
    have cons: "slice (tk_pos t) (tk_pos t') (tk_text t) =
        Peek t # slice (Suc (tk_pos t)) (tk_pos t') (tk_text t)"
      using le Peek_in [OF p] by (simp add: slice_Cons)
    from IH cons dv show ?thesis by (auto intro: moves_step [OF p])
  qed
qed

lemma fraction_loop_spec:
  "fraction_loop ds t = (ds', t') \<Longrightarrow>
   moves t t' \<and> ds' = ds @ slice (tk_pos t) (tk_pos t') (tk_text t) \<and> \<not> IsNum (Peek t')"
proof (induction ds t rule: fraction_loop.induct)
  case (1 ds t)
  show ?case
  proof (cases "IsNum (Peek t)")
    case False
    with "1.prems" show ?thesis by (simp add: fraction_loop.simps)
  next
    case True
    then have p: "0 < Peek t" by (rule class_pos)
    from True "1.prems" have loop: "fraction_loop (ds @ [Peek t]) (Inc t) = (ds', t')"
      by (simp add: fraction_loop.simps [of ds] Consume_def Let_def)
    have IH: "moves (Inc t) t' \<and>
        ds' = ds @ [Peek t] @ slice (Suc (tk_pos t)) (tk_pos t') (tk_text t) \<and> \<not> IsNum (Peek t')"
      using "1.IH" [OF True _ loop] by (simp add: Consume_def Let_def)
    then have "slice (tk_pos t) (tk_pos t') (tk_text t) =
        Peek t # slice (Suc (tk_pos t)) (tk_pos t') (tk_text t)"
      using Peek_in [OF p] by (simp add: slice_Cons moves_def)
    with IH show ?thesis by (auto intro: moves_step [OF p])
  qed
qed

lemma number_fraction_spec:
  assumes "number_fraction prefixed ds t = Inr (ds', t')"
    and "\<not> IsAlpha (Peek t)" and "\<not> IsNum (Peek t)"
  shows "moves t t' \<and> ds' = ds @ slice (tk_pos t) (tk_pos t') (tk_text t) \<and>
    (prefixed \<longrightarrow> t' = t \<and> ds' = ds) \<and> \<not> IsAlpha (Peek t') \<and> \<not> IsNum (Peek t') \<and>
    (Peek t' = rn CHR ''.'' \<and> IsNum (Next t') \<and> \<not> prefixed \<longrightarrow> rn CHR ''.'' \<in> set ds')"
proof (cases "\<not> prefixed \<and> Peek t = rn CHR ''.'' \<and> IsNum (Next t)")
  case False
  with assms show ?thesis by (auto simp: number_fraction_def)
next
  case True
  then have p: "0 < Peek t" by simp
  from True assms have loop: "fraction_loop (ds @ [Peek t]) (Inc t) = (ds', t')"
    and na: "\<not> IsAlpha (Peek t')"
    by (auto simp: number_fraction_def Consume_def Let_def split: prod.splits if_splits)
  from fraction_loop_spec [OF loop] have sp: "moves (Inc t) t'"
    "ds' = ds @ [Peek t] @ slice (Suc (tk_pos t)) (tk_pos t') (tk_text t)" "\<not> IsNum (Peek t')"
    by auto
  then have "slice (tk_pos t) (tk_pos t') (tk_text t) =
      Peek t # slice (Suc (tk_pos t)) (tk_pos t') (tk_text t)"
    using Peek_in [OF p] by (simp add: slice_Cons moves_def)
  with sp na True show ?thesis by (auto intro: moves_step [OF p])
qed

text \<open>
  What the text of a number literal says: an optional sign, then either plain characters that
  are the value, or a base prefix and digits of that base.
\<close>

definition unsigned_number_text :: "nat \<Rightarrow> string \<Rightarrow> rune list \<Rightarrow> bool" where
  "unsigned_number_text base v w \<longleftrightarrow>
    (if base = 10 then string_of_runes w = v
     else \<exists>p ds. w = [rn CHR ''0'', p] @ ds \<and>
       (base, p) \<in> {2} \<times> {rn CHR ''b'', rn CHR ''B''} \<union> {8} \<times> {rn CHR ''o'', rn CHR ''O''} \<union>
         {16} \<times> {rn CHR ''x'', rn CHR ''X''} \<and>
       ds \<noteq> [] \<and> (\<forall>d \<in> set ds. digitValue d < base) \<and> v = decimal (digits_value base ds))"

definition number_text :: "nat \<Rightarrow> string \<Rightarrow> rune list \<Rightarrow> bool" where
  "number_text base v w \<longleftrightarrow> unsigned_number_text base v w \<or>
     (\<exists>v' w'. v = CHR ''-'' # v' \<and> w = rn CHR ''-'' # w' \<and> unsigned_number_text base v' w')"

lemma number_base_cases:
  "number_base t = (base, prefixed) \<Longrightarrow>
   (\<not> prefixed \<and> base = 10) \<or>
   (prefixed \<and> base \<noteq> 10 \<and> Peek t = rn CHR ''0'' \<and> 0 < Next t \<and>
    (base, Next t) \<in> {2} \<times> {rn CHR ''b'', rn CHR ''B''} \<union> {8} \<times> {rn CHR ''o'', rn CHR ''O''} \<union>
      {16} \<times> {rn CHR ''x'', rn CHR ''X''})"
  by (auto simp: number_base_def split: if_splits)

text \<open>Where a number may end: before no letter or digit, and an integer before no fraction.\<close>

definition number_ends :: "string \<Rightarrow> Tokeniser \<Rightarrow> bool" where
  "number_ends v t \<longleftrightarrow> \<not> IsAlpha (Peek t) \<and> \<not> IsNum (Peek t) \<and>
     (Peek t = rn CHR ''.'' \<and> IsNum (Next t) \<longrightarrow> CHR ''.'' \<in> set v)"

lemma dot_in_string: "rn CHR ''.'' \<in> set rs \<Longrightarrow> CHR ''.'' \<in> set (string_of_runes rs)"
proof -
  have "encode_rune (rn CHR ''.'') = ''.''" by code_simp
  then show "rn CHR ''.'' \<in> set rs \<Longrightarrow> CHR ''.'' \<in> set (string_of_runes rs)"
    unfolding string_of_runes_def by (induction rs) auto
qed

text \<open>The body of \<open>ReadNumber\<close> after the sign.\<close>

lemma unsigned_text:
  assumes nb: "number_base t = (base, prefixed)"
    and t2: "t2 = (if prefixed then Inc (Inc t) else t)"
    and dl: "digit_loop base [] t2 = Inr (ds, t3)" and ne: "ds \<noteq> []"
    and fr: "number_fraction prefixed ds t3 = Inr (ds', t4)"
    and pf: "\<not> (prefixed \<and> Peek t3 = rn CHR ''.'' \<and> IsNum (Next t3))"
    and val: "(if prefixed then map_option decimal (big_SetString ds' base)
               else Some (string_of_runes ds')) = Some v"
  shows "moves t t4 \<and> unsigned_number_text base v (slice (tk_pos t) (tk_pos t4) (tk_text t)) \<and>
    tk_pos t < tk_pos t4 \<and> number_ends v t4"
proof -
  let ?w = "slice (tk_pos t2) (tk_pos t4) (tk_text t)"
  have m2: "moves t t2" "tk_text t2 = tk_text t"
    using number_base_cases [OF nb] t2 by (auto simp: moves_Inc_Next)
  have d: "moves t2 t3" "ds = slice (tk_pos t2) (tk_pos t3) (tk_text t)"
    "\<forall>c \<in> set ds. digitValue c < base" "\<not> IsAlpha (Peek t3)" "\<not> IsNum (Peek t3)"
    using digit_loop_spec [OF dl] m2 by auto
  have f: "moves t3 t4" "ds' = ds @ slice (tk_pos t3) (tk_pos t4) (tk_text t)"
    "prefixed \<longrightarrow> t4 = t3 \<and> ds' = ds" "\<not> IsAlpha (Peek t4)" "\<not> IsNum (Peek t4)"
    "Peek t4 = rn CHR ''.'' \<and> IsNum (Next t4) \<and> \<not> prefixed \<longrightarrow> rn CHR ''.'' \<in> set ds'"
    using number_fraction_spec [OF fr d(4,5)] d(1) m2(2) by (auto simp: moves_def)
  have en: "number_ends v t4"
    using f(3-6) pf val by (auto simp: number_ends_def dot_in_string split: if_splits)
  have le: "tk_pos t2 \<le> tk_pos t3" "tk_pos t3 \<le> tk_pos t4"
    using d(1) f(1) by (auto simp: moves_def)
  have w: "ds' = ?w" using f(2) d(2) le by (simp add: slice_append)
  have lt: "tk_pos t2 < tk_pos t4" using d(2) ne le by (cases "tk_pos t2 = tk_pos t3") auto
  have m: "moves t t4" using m2(1) d(1) f(1) moves_trans by blast
  show ?thesis
  proof (cases prefixed)
    case False
    with nb t2 w val m lt en show ?thesis
      using number_base_cases [OF nb] by (auto simp: unsigned_number_text_def)
  next
    case True
    have nx: "0 < Next t" and pk: "0 < Peek t" and b: "base \<noteq> 10" "Peek t = rn CHR ''0''"
      "(base, Next t) \<in> {2} \<times> {rn CHR ''b'', rn CHR ''B''} \<union> {8} \<times> {rn CHR ''o'', rn CHR ''O''} \<union>
        {16} \<times> {rn CHR ''x'', rn CHR ''X''}"
      using True number_base_cases [OF nb] by auto
    have "slice (tk_pos t) (tk_pos t4) (tk_text t) = [rn CHR ''0'', Next t] @ ds"
      using lt t2 True Next_in [OF nx] Peek_in [OF pk] b(2) w f(3) by (simp add: slice_Cons)
    then have "unsigned_number_text base v (slice (tk_pos t) (tk_pos t4) (tk_text t))"
      unfolding unsigned_number_text_def using b d(3) ne val True f(3)
      by (auto simp: big_SetString_def split: if_splits)
    with m lt t2 True en show ?thesis by simp
  qed
qed

lemma ReadNumber_spec:
  assumes "ReadNumber t = Inr (v, base, t')"
  shows "moves t t' \<and> number_text base v (slice (tk_pos t) (tk_pos t') (tk_text t)) \<and>
    tk_pos t < tk_pos t' \<and> number_ends v t'"
proof -
  define neg where "neg = (Peek t = rn CHR ''-'')"
  define t1 where "t1 = (if neg then Inc t else t)"
  obtain b prefixed where nb: "number_base t1 = (b, prefixed)" by force
  define t2 where "t2 = (if prefixed then Inc (Inc t1) else t1)"
  define value_of where "value_of ds' = (if prefixed then map_option decimal (big_SetString ds' b)
    else Some (string_of_runes ds'))" for ds'
  have R: "(case digit_loop b [] t2 of Inl e \<Rightarrow> Inl e
      | Inr (ds, t3) \<Rightarrow>
          if ds = [] then Inl (ExpectedDigits (GetLoc t3) b)
          else if prefixed \<and> Peek t3 = rn CHR ''.'' \<and> IsNum (Next t3)
          then Inl (PrefixedFloat (GetLoc t3) b)
          else (case number_fraction prefixed ds t3 of Inl e \<Rightarrow> Inl e
            | Inr (ds', t4) \<Rightarrow>
                (case value_of ds' of None \<Rightarrow> Inl (InvalidLiteral (GetLoc t4) b)
                 | Some value \<Rightarrow> Inr (if neg then CHR ''-'' # value else value, b, t4))))
      = Inr (v, base, t')"
    using assms unfolding ReadNumber_def Let_def neg_def [symmetric] t1_def [symmetric] nb
      fst_conv snd_conv t2_def [symmetric] value_of_def [symmetric] .
  obtain ds t3 where dl: "digit_loop b [] t2 = Inr (ds, t3)" and ne: "ds \<noteq> []"
    using R by (cases "digit_loop b [] t2") (auto split: if_splits)
  obtain ds' t4 where fr: "number_fraction prefixed ds t3 = Inr (ds', t4)"
    using R dl ne by (cases "number_fraction prefixed ds t3") (auto split: if_splits)
  have pf: "\<not> (prefixed \<and> Peek t3 = rn CHR ''.'' \<and> IsNum (Next t3))"
    using R dl ne by (auto split: if_splits)
  obtain u where val: "value_of ds' = Some u"
    using R dl ne fr by (cases "value_of ds'") (auto split: if_splits)
  have res: "v = (if neg then CHR ''-'' # u else u)" "base = b" "t' = t4"
    using R dl ne fr val by (auto split: if_splits)
  note un = unsigned_text [OF nb t2_def dl ne fr pf val [unfolded value_of_def]]
  show ?thesis
  proof (cases neg)
    case False
    with un res show ?thesis by (simp add: t1_def number_text_def)
  next
    case True
    then have p: "0 < Peek t" by (simp add: neg_def)
    with un res True have un': "moves (Inc t) t'" "Suc (tk_pos t) < tk_pos t'" "number_ends u t'"
      "unsigned_number_text base u (slice (Suc (tk_pos t)) (tk_pos t') (tk_text t))"
      by (simp_all add: t1_def)
    have "number_ends v t'" using un'(3) res(1) by (auto simp: number_ends_def)
    moreover have cons: "slice (tk_pos t) (tk_pos t') (tk_text t) =
        rn CHR ''-'' # slice (Suc (tk_pos t)) (tk_pos t') (tk_text t)"
      using un'(2) Peek_in [OF p] True by (simp add: slice_Cons neg_def)
    ultimately show ?thesis using un' True res(1)
      by (auto simp: number_text_def intro: moves_step [OF p])
  qed
qed

interpretation number_reader:
  reader "\<lambda>t. case ReadNumber t of Inl _ \<Rightarrow> None | Inr r \<Rightarrow> Some r" "\<lambda>r. snd (snd r)"
proof
  fix t r
  assume "(case ReadNumber t of Inl _ \<Rightarrow> None | Inr r \<Rightarrow> Some r) = Some r"
  then show "moves t (snd (snd r))"
    by (cases r) (auto split: sum.splits dest: ReadNumber_spec)
qed

subsection \<open>Escapes and strings\<close>

lemma string_text_unit:
  "escape_unit u = Some ch \<Longrightarrow> hd u \<noteq> rn CHR 0x22 \<Longrightarrow> hd u \<noteq> rn CHR 0x0A \<Longrightarrow>
   string_text (u @ xs) = map_option ((@) ch) (string_text xs)"
  by (cases u rule: escape_unit.cases) (auto split: if_splits option.splits)

lemma escape_texts:
  "map (\<lambda>e. encode_rune (snd e)) escapes =
    [[CHR 0x5C], [CHR 0x22], [CHR 0x0A], [CHR 0x0D], [CHR 0x09], [CHR 0x08], [CHR 0x0C],
     [CHR 0x0B], [CHR 0x07], encode_rune 0]"
  by code_simp

lemma HanldeEscape_spec:
  assumes "HanldeEscape t = Inr (ch, t')" and lt: "tk_pos t < length (tk_text t)"
  shows "moves t t' \<and> tk_pos t < tk_pos t' \<and>
    escape_unit (slice (tk_pos t) (tk_pos t') (tk_text t)) = Some ch"
proof (cases "Peek t = rn CHR 0x5C")
  case False
  with assms show ?thesis
    by (auto simp: HanldeEscape_def Consume_def Let_def moves_Inc slice_Suc0 Peek_def)
next
  case True
  have pk: "Peek t = tk_text t ! tk_pos t" using lt by (simp add: Peek_def)
  from assms True have t': "t' = Inc (Inc t)" "0 < Peek (Inc t)"
    "map_option encode_rune (map_of escapes (Peek (Inc t))) = Some ch"
    using escape_texts
    by (auto simp: HanldeEscape_def Consume_def Let_def escapes_def split: if_splits)
  from Peek_in [OF t'(2)] have nx: "Suc (tk_pos t) < length (tk_text t)"
    "tk_text t ! Suc (tk_pos t) = Peek (Inc t)" by auto
  have "slice (tk_pos t) (tk_pos t') (tk_text t) = [Peek t, Peek (Inc t)]"
    using nx pk t'(1) by (simp add: slice_Suc1)
  then show ?thesis
    using moves_Inc [OF lt] moves_Inc_Peek [OF t'(2)] moves_trans t' True by auto
qed

lemma HanldeEscape_moves:
  "HanldeEscape t = Inr (ch, t') \<Longrightarrow> tk_pos t < length (tk_text t) \<Longrightarrow> moves t t' \<and> tk_pos t < tk_pos t'"
  using HanldeEscape_spec by blast

lemma HanldeEscape_forward: "HanldeEscape t = Inr (ch, t') \<Longrightarrow> tk_pos t < tk_pos t' \<and> tk_text t' = tk_text t"
  by (auto simp: HanldeEscape_def Consume_def Let_def split: if_splits)

text \<open>What the loop of \<open>ReadString\<close> has read, up to the quote or the newline it stops at.\<close>

definition string_read :: "string \<Rightarrow> Tokeniser \<Rightarrow> string \<Rightarrow> Tokeniser \<Rightarrow> bool" where
  "string_read s t s' t' \<longleftrightarrow> moves t t' \<and> (Peek t' = rn CHR 0x22 \<or> Peek t' = rn CHR 0x0A) \<and>
     (\<exists>v. string_text (slice (tk_pos t) (tk_pos t') (tk_text t)) = Some v \<and> s' = s @ v)"

lemma string_read_step:
  assumes h: "HanldeEscape t = Inr (ch, u)" and lt: "tk_pos t < length (tk_text t)"
    and q: "Peek t \<noteq> rn CHR 0x22" "Peek t \<noteq> rn CHR 0x0A" and rd: "string_read (s @ ch) u s' t'"
  shows "string_read s t s' t'"
proof -
  note sp = HanldeEscape_spec [OF h lt]
  let ?u = "slice (tk_pos t) (tk_pos u) (tk_text t)"
  have m: "moves t u" "moves u t'" "tk_text u = tk_text t" "tk_pos u \<le> tk_pos t'"
    using sp rd by (auto simp: string_read_def moves_def)
  have app: "slice (tk_pos t) (tk_pos t') (tk_text t) = ?u @ slice (tk_pos u) (tk_pos t') (tk_text t)"
    using sp m(4) by (simp add: slice_append)
  have "hd ?u = Peek t" using sp lt by (simp add: slice_Cons Peek_def)
  then have "string_text (?u @ xs) = map_option ((@) ch) (string_text xs)" for xs
    using sp q by (intro string_text_unit) auto
  then show ?thesis
    using rd m moves_trans [OF m(1,2)] by (auto simp: string_read_def app)
qed

lemma string_loop_spec:
  assumes ret: "string_loop s t = Some r"
  shows "tk_pos t < length (tk_text t) \<and> (\<forall>s' t'. r = Inr (s', t') \<longrightarrow> string_read s t s' t')"
proof (rule string_loop.raw_induct [where P = "\<lambda>s t r. tk_pos t < length (tk_text t) \<and>
    (\<forall>s' t'. r = Inr (s', t') \<longrightarrow> string_read s t s' t')", OF _ ret])
  fix f s t r
  let ?P = "\<lambda>s t r. tk_pos t < length (tk_text t) \<and>
    (\<forall>s' t'. r = Inr (s', t') \<longrightarrow> string_read s t s' t')"
  assume IH: "\<And>s t r. f s t = Some r \<Longrightarrow> ?P s t r"
    and eq: "(if Peek t \<noteq> rn CHR 0x22 \<and> Peek t \<noteq> rn CHR 0x0A then
       (case HanldeEscape t of Inl e \<Rightarrow> Some (Inl e) | Inr (ch, t') \<Rightarrow> f (s @ ch) t')
     else Some (Inr (s, t))) = Some r"
  show "?P s t r"
  proof (cases "Peek t = rn CHR 0x22 \<or> Peek t = rn CHR 0x0A")
    case True
    with eq show ?thesis using Peek_in [of t] by (auto simp: string_read_def)
  next
    case False
    show ?thesis
    proof (cases "HanldeEscape t")
      case (Inl e)
      then have "0 < Peek t" by (auto simp: HanldeEscape_def Consume_def Let_def split: if_splits)
      with Inl False eq show ?thesis using Peek_in [of t] by auto
    next
      case (Inr x)
      obtain ch u where x: "x = (ch, u)" by force
      with Inr False eq have "f (s @ ch) u = Some r" by auto
      note P = IH [OF this]
      have fw: "tk_pos t < tk_pos u \<and> tk_text u = tk_text t"
        using Inr x HanldeEscape_forward by blast
      with P have lt: "tk_pos t < length (tk_text t)" by auto
      then show ?thesis using P False string_read_step [OF Inr [unfolded x] lt] by auto
    qed
  qed
qed

lemma ReadString_spec:
  assumes "ReadString t = Some (Inr (s, t'))"
  shows "moves t t' \<and> Peek t = rn CHR 0x22 \<and> tk_pos t < tk_pos t' \<and>
    (\<exists>body. slice (tk_pos t) (tk_pos t') (tk_text t) = rn CHR 0x22 # body @ [rn CHR 0x22] \<and>
      string_text body = Some s)"
proof -
  have q: "Peek t = rn CHR 0x22"
    using assms by (auto simp: ReadString_def split: if_splits)
  then have p: "0 < Peek t" by simp
  from assms q obtain u where u: "string_loop [] (Inc t) = Some (Inr (s, u))"
    "Peek u = rn CHR 0x22" "t' = Inc u"
    by (cases "string_loop [] (Inc t)"; cases "the (string_loop [] (Inc t))")
       (auto simp: ReadString_def split: if_splits)
  have m: "moves (Inc t) u"
    and b: "string_text (slice (Suc (tk_pos t)) (tk_pos u) (tk_text t)) = Some s"
    using string_loop_spec [OF u(1)] by (auto simp: string_read_def)
  have mu: "moves u (Inc u)" using u(2) by (simp add: moves_Inc_Peek)
  have at: "tk_pos u < length (tk_text t)" "tk_text t ! tk_pos u = rn CHR 0x22" "Suc (tk_pos t) \<le> tk_pos u"
    using Peek_in [of u] u(2) m by (auto simp: moves_def)
  have "slice (tk_pos t) (tk_pos t') (tk_text t) =
      rn CHR 0x22 # slice (Suc (tk_pos t)) (tk_pos u) (tk_text t) @ [rn CHR 0x22]"
    using at u(3) q Peek_in [OF p] slice_Cons [of "tk_pos t" "tk_text t" "tk_pos t'"]
      slice_snoc [of "Suc (tk_pos t)" "tk_pos u" "tk_text t"] by simp
  then show ?thesis
    using m mu b u(3) q at moves_step [OF p m] by (auto intro: moves_trans)
qed

interpretation string_reader:
  reader "\<lambda>t. case ReadString t of Some (Inr r) \<Rightarrow> Some r | _ \<Rightarrow> None" snd
proof
  fix t r
  assume "(case ReadString t of Some (Inr r) \<Rightarrow> Some r | _ \<Rightarrow> None) = Some r"
  then show "moves t (snd r)"
    by (cases r) (auto split: option.splits sum.splits dest: ReadString_spec)
qed

subsection \<open>Comments\<close>

definition text_from :: "Tokeniser \<Rightarrow> rune list" where
  "text_from t = drop (tk_pos t) (tk_text t)"

lemma text_from_Peek: "0 < Peek t \<Longrightarrow> text_from t = Peek t # text_from (Inc t)"
  using Peek_in [of t] by (simp add: text_from_def Cons_nth_drop_Suc [symmetric])

lemma Peek_from: "text_from t = c # cs \<Longrightarrow> Peek t = c"
  by (auto simp: text_from_def Peek_def hd_drop_conv_nth [symmetric])

lemma text_from_Next: "0 < Next t \<Longrightarrow> text_from t = Peek t # Next t # text_from (Inc (Inc t))"
  using Next_in [of t] by (simp add: text_from_def Peek_def Cons_nth_drop_Suc [symmetric])

lemma at_end_from: "Peek t = 0 \<Longrightarrow> at_end (text_from t)"
  by (auto simp: at_end_def text_from_def Peek_def hd_drop_conv_nth split: if_splits)

lemma comment_loop_spec:
  assumes ret: "comment_loop t = Some t'"
  shows "tk_pos t < length (tk_text t) \<and> moves t t' \<and> Peek t' = rn CHR 0x0A \<and>
    (\<exists>cs. text_from t = cs @ text_from t' \<and> rn CHR 0x0A \<notin> set cs)"
proof (rule comment_loop.raw_induct [where P = "\<lambda>t t'. tk_pos t < length (tk_text t) \<and> moves t t' \<and>
    Peek t' = rn CHR 0x0A \<and> (\<exists>cs. text_from t = cs @ text_from t' \<and> rn CHR 0x0A \<notin> set cs)", OF _ ret])
  fix f t t'
  let ?P = "\<lambda>t t'. tk_pos t < length (tk_text t) \<and> moves t t' \<and> Peek t' = rn CHR 0x0A \<and>
    (\<exists>cs. text_from t = cs @ text_from t' \<and> rn CHR 0x0A \<notin> set cs)"
  assume IH: "\<And>t t'. f t = Some t' \<Longrightarrow> ?P t t'"
    and eq: "(if Peek t \<noteq> rn CHR 0x0A then f (Inc t) else Some t) = Some t'"
  show "?P t t'"
  proof (cases "Peek t = rn CHR 0x0A")
    case True
    with eq show ?thesis using Peek_in [of t] by auto
  next
    case False
    with eq have "f (Inc t) = Some t'" by simp
    note P = IH [OF this]
    then have lt: "tk_pos t < length (tk_text t)" by simp
    then have "text_from t = Peek t # text_from (Inc t)"
      by (simp add: text_from_def Peek_def Cons_nth_drop_Suc)
    with P False obtain cs where "text_from t = (Peek t # cs) @ text_from t'" "rn CHR 0x0A \<notin> set (Peek t # cs)"
      by auto
    then show ?thesis using P lt by (blast intro: moves_trans [OF moves_Inc])
  qed
qed

lemma IgnoreComment_spec:
  assumes "IgnoreComment t = Some t'" and "Peek t = rn CHR ''/''" and n: "Next t = rn CHR ''/''"
  shows "moves t t' \<and> tk_pos t < tk_pos t' \<and> skips (text_from t) (text_from t')"
proof -
  have nx: "0 < Next t" using n by simp
  from comment_loop_spec [of "Inc (Inc t)" t'] assms obtain cs where
    m: "moves (Inc (Inc t)) t'" "Peek t' = rn CHR 0x0A"
      "text_from (Inc (Inc t)) = cs @ text_from t'" "rn CHR 0x0A \<notin> set cs"
    by (auto simp: IgnoreComment_def)
  have "text_from t' = rn CHR 0x0A # text_from (Inc t')" using text_from_Peek [of t'] m(2) by simp
  then have "skips (text_from t) (text_from t')"
    using skips.line_comment [OF m(4) skips.nothing] text_from_Next [OF nx] m(3) assms(2) n by simp
  then show ?thesis
    using m(1) moves_trans [OF moves_Inc_Next [OF nx] m(1)] by (auto simp: moves_def)
qed

lemma multiline_loop_moves: "moves t (multiline_loop t)"
proof (induction t rule: multiline_loop.induct)
  case (1 t)
  show ?case
  proof (cases "Peek t = rn CHR ''*'' \<and> Next t = rn CHR ''/''")
    case True
    then show ?thesis by (simp add: multiline_loop.simps [of t] moves_Inc_Next)
  next
    case False
    show ?thesis
    proof (cases "Peek t = 0")
      case True
      with False show ?thesis by (simp add: multiline_loop.simps [of t])
    next
      case pk: False
      from "1.IH" [OF False pk] False pk show ?thesis
        by (subst multiline_loop.simps) (auto intro: moves_step)
    qed
  qed
qed

text \<open>The loop stops after the first \<open>*/\<close>, or at the end when there is none.\<close>

lemma multiline_loop_spec:
  "\<exists>cs. 0 \<notin> set cs \<and>
     (text_from t = cs @ map of_char ''*/'' @ text_from (multiline_loop t) \<and>
        \<not> sublist (map of_char ''*/'') (cs @ [rn CHR ''*'']) \<or>
      text_from t = cs @ text_from (multiline_loop t) \<and> at_end (text_from (multiline_loop t)) \<and>
        \<not> sublist (map of_char ''*/'') cs)"
proof (induction t rule: multiline_loop.induct)
  case (1 t)
  let ?close = "map of_char ''*/'' :: rune list"
  show ?case
  proof (cases "Peek t = rn CHR ''*'' \<and> Next t = rn CHR ''/''")
    case True
    then have "0 < Next t" by simp
    with True have "text_from t = [] @ ?close @ text_from (multiline_loop t)"
      using text_from_Next [of t] by (simp add: multiline_loop.simps [of t])
    moreover have "\<not> sublist ?close ([] @ [rn CHR ''*''])" by (auto dest: sublist_length_le)
    ultimately show ?thesis by (metis empty_iff list.set(1))
  next
    case nc: False
    show ?thesis
    proof (cases "Peek t = 0")
      case True
      then have "multiline_loop t = t" by (simp add: multiline_loop.simps [of t])
      then show ?thesis using at_end_from [OF True] by (intro exI [of _ "[]"]) simp
    next
      case pk: False
      then have p: "0 < Peek t" by simp
      have ml: "multiline_loop t = multiline_loop (Inc t)"
        using nc pk by (subst multiline_loop.simps) auto
      have tx: "text_from t = Peek t # text_from (Inc t)" using p by (rule text_from_Peek)
      have first: "\<not> prefix ?close (Peek t # xs)" if "xs @ ys = text_from (Inc t)" for xs ys
      proof
        assume "prefix ?close (Peek t # xs)"
        then obtain zs where zs: "Peek t = rn CHR ''*''" "xs = rn CHR ''/'' # zs"
          by (auto simp: prefix_def)
        with that have "text_from (Inc t) = rn CHR ''/'' # zs @ ys" by simp
        then have "Next t = rn CHR ''/''" using Peek_from Peek_Inc by metis
        with zs nc show False by simp
      qed
      from "1.IH" [OF nc pk] obtain cs where cs: "0 \<notin> set cs"
        "text_from (Inc t) = cs @ ?close @ text_from (multiline_loop t) \<and>
           \<not> sublist ?close (cs @ [rn CHR ''*'']) \<or>
         text_from (Inc t) = cs @ text_from (multiline_loop t) \<and> at_end (text_from (multiline_loop t)) \<and>
           \<not> sublist ?close cs"
        unfolding ml by blast
      from cs(2) show ?thesis
      proof
        assume a: "text_from (Inc t) = cs @ ?close @ text_from (multiline_loop t) \<and>
          \<not> sublist ?close (cs @ [rn CHR ''*''])"
        then have "\<not> prefix ?close (Peek t # (cs @ [rn CHR ''*'']))"
          using first [of "cs @ [rn CHR ''*'']" "rn CHR ''/'' # text_from (multiline_loop t)"] by simp
        with a have "\<not> sublist ?close ((Peek t # cs) @ [rn CHR ''*''])"
          by (simp only: append_Cons sublist_Cons_right) blast
        with a tx cs(1) pk show ?thesis by (intro exI [of _ "Peek t # cs"]) simp
      next
        assume a: "text_from (Inc t) = cs @ text_from (multiline_loop t) \<and>
          at_end (text_from (multiline_loop t)) \<and> \<not> sublist ?close cs"
        then have "\<not> prefix ?close (Peek t # cs)" using first [of cs] by simp
        with a have "\<not> sublist ?close (Peek t # cs)"
          by (simp only: sublist_Cons_right) blast
        with a tx cs(1) pk show ?thesis by (intro exI [of _ "Peek t # cs"]) simp
      qed
    qed
  qed
qed

lemma IgnoreMultilineComment_spec:
  assumes "Peek t = rn CHR ''/''" and n: "Next t = rn CHR ''*''"
  shows "moves t (IgnoreMultilineComment t) \<and> tk_pos t < tk_pos (IgnoreMultilineComment t) \<and>
    skips (text_from t) (text_from (IgnoreMultilineComment t))"
proof -
  let ?u = "IgnoreMultilineComment t"
  have nx: "0 < Next t" using n by simp
  have m: "moves (Inc (Inc t)) ?u" unfolding IgnoreMultilineComment_def by (rule multiline_loop_moves)
  have tx: "text_from t = rn CHR ''/'' # rn CHR ''*'' # text_from (Inc (Inc t))"
    using text_from_Next [OF nx] assms by simp
  have "skips (text_from t) (text_from ?u)"
    using multiline_loop_spec [of "Inc (Inc t)"]
    unfolding tx IgnoreMultilineComment_def [symmetric]
    by (auto intro: skips_intros(5) [OF _ _ skips.nothing] skips_intros(6) [OF _ _ _ skips.nothing])
  then show ?thesis
    using m moves_trans [OF moves_Inc_Next [OF nx] m] by (auto simp: moves_def)
qed

interpretation multiline_reader: reader "\<lambda>t. Some (multiline_loop t)" id
  by unfold_locales (auto simp: multiline_loop_moves)

interpretation comment_reader: reader comment_loop id
  by unfold_locales (auto dest: comment_loop_spec)

end
