(* ===== verification/Tokenise_Facts.thy ===== *)
theory Tokenise_Facts
  imports Tokenise Scanner_Facts
begin

text \<open>
  Correctness of the main loop: every token carries the exact span of its spelling and its
  exact value, spans are in source order and do not overlap, everything between two spans is
  blank or comment, positions agree with the line and column of the text (\<open>state_inv\<close>),
  every turn of the loop keeps this, and the loop runs for ever only in the situations named
  by \<open>stuck\<close>.
\<close>

section \<open>The invariant\<close>

definition lexeme_ok :: "Token \<Rightarrow> rune list \<Rightarrow> bool" where
  "lexeme_ok k w \<longleftrightarrow>
    (case tok_Type k of
       TokenEof \<Rightarrow> w = []
     | TokenNewline \<Rightarrow> w = [rn CHR 0x0A]
     | TokenIdentifier \<Rightarrow> w \<noteq> [] \<and> IsLegalWordStart (hd w) \<and> (\<forall>c \<in> set w. IsLegalWordChar c) \<and>
         tok_Value k = string_of_runes w \<and> \<not> IsKeyword (tok_Value k)
     | TokenKeyword \<Rightarrow> w \<noteq> [] \<and> IsLegalWordStart (hd w) \<and> (\<forall>c \<in> set w. IsLegalWordChar c) \<and>
         tok_Value k = string_of_runes w \<and> IsKeyword (tok_Value k)
     | TokenNumber \<Rightarrow> number_text (NumberBase k) (tok_Value k) w \<and> CHR ''.'' \<notin> set (tok_Value k)
     | TokenFloat \<Rightarrow> number_text (NumberBase k) (tok_Value k) w \<and> CHR ''.'' \<in> set (tok_Value k)
     | TokenString \<Rightarrow> (\<exists>body. w = rn CHR 0x22 # body @ [rn CHR 0x22] \<and>
         string_text body = Some (tok_Value k))
     | TokenCString \<Rightarrow> (\<exists>body. w = rn CHR ''c'' # rn CHR 0x22 # body @ [rn CHR 0x22] \<and>
         string_text body = Some (tok_Value k))
     | TokenChar \<Rightarrow> (\<exists>body. w = rn CHR 0x27 # body @ [rn CHR 0x27] \<and>
         escape_unit body = Some (tok_Value k))
     | _ \<Rightarrow> w = map of_char (Token_String k))"

definition span_ok :: "rune list \<Rightarrow> Location \<Rightarrow> bool" where
  "span_ok txt l \<longleftrightarrow> Offset l \<le> EndOffset l \<and> EndOffset l \<le> length txt \<and>
     LC l = lc_at txt (Offset l) \<and> EndLC l = lc_at txt (EndOffset l)"

definition token_ok :: "rune list \<Rightarrow> Token \<Rightarrow> bool" where
  "token_ok txt k \<longleftrightarrow> span_ok txt (tok_Loc k) \<and>
     lexeme_ok k (slice (Offset (tok_Loc k)) (EndOffset (tok_Loc k)) txt) \<and>
     ends_lexeme (tok_Type k) (drop (Offset (tok_Loc k)) txt) (drop (EndOffset (tok_Loc k)) txt)"

text \<open>The spans follow each other from \<open>lo\<close> to \<open>hi\<close>.\<close>

fun spans_in_order :: "nat \<Rightarrow> Token list \<Rightarrow> nat \<Rightarrow> bool" where
  "spans_in_order lo [] hi \<longleftrightarrow> lo \<le> hi"
| "spans_in_order lo (k # ks) hi \<longleftrightarrow>
     lo \<le> Offset (tok_Loc k) \<and> Offset (tok_Loc k) \<le> EndOffset (tok_Loc k) \<and>
     spans_in_order (EndOffset (tok_Loc k)) ks hi"

text \<open>Only blanks and comments stand before, between and after the spans from \<open>lo\<close> to \<open>hi\<close>.\<close>

fun covered :: "rune list \<Rightarrow> nat \<Rightarrow> Token list \<Rightarrow> nat \<Rightarrow> bool" where
  "covered txt lo [] hi \<longleftrightarrow> skips (drop lo txt) (drop hi txt)"
| "covered txt lo (k # ks) hi \<longleftrightarrow>
     skips (drop lo txt) (drop (Offset (tok_Loc k)) txt) \<and> covered txt (EndOffset (tok_Loc k)) ks hi"

definition state_inv :: "Tokeniser \<Rightarrow> bool" where
  "state_inv t \<longleftrightarrow> cursor_ok t \<and> (\<forall>k \<in> set (tk_tokens t). token_ok (tk_text t) k) \<and>
     spans_in_order 0 (tk_tokens t) (tk_pos t) \<and> covered (tk_text t) 0 (tk_tokens t) (tk_pos t)"

lemma covered_skips:
  "covered txt lo ks p \<Longrightarrow> skips (drop p txt) (drop q txt) \<Longrightarrow> covered txt lo ks q"
  by (induction ks arbitrary: lo) (auto intro: skips_trans)

lemma covered_snoc:
  "covered txt lo (ks @ [k]) hi \<longleftrightarrow>
   covered txt lo ks (Offset (tok_Loc k)) \<and> skips (drop (EndOffset (tok_Loc k)) txt) (drop hi txt)"
  by (induction ks arbitrary: lo) auto

lemma spans_in_order_mono: "spans_in_order lo ks hi \<Longrightarrow> hi \<le> hi' \<Longrightarrow> spans_in_order lo ks hi'"
  by (induction ks arbitrary: lo) auto

lemma spans_in_order_snoc:
  "spans_in_order lo (ks @ [k]) hi \<longleftrightarrow>
   spans_in_order lo ks (Offset (tok_Loc k)) \<and> Offset (tok_Loc k) \<le> EndOffset (tok_Loc k) \<and>
   EndOffset (tok_Loc k) \<le> hi"
  by (induction ks arbitrary: lo) auto

lemma state_inv_new: "state_inv (NewTokeniser src f)"
  using cursor_ok_new [of src f] by (simp add: state_inv_def NewTokeniser_def skips.nothing)

lemma state_inv_skips:
  "state_inv t \<Longrightarrow> moves t t' \<Longrightarrow> skips (text_from t) (text_from t') \<Longrightarrow> state_inv t'"
  by (auto simp: state_inv_def moves_def text_from_def
      intro: spans_in_order_mono covered_skips)

lemma state_invD:
  "state_inv t \<Longrightarrow> tk_pos t \<le> length (tk_text t)"
  "state_inv t \<Longrightarrow> LC (GetLoc t) = lc_at (tk_text t) (tk_pos t)"
  by (auto simp: state_inv_def cursor_ok_def GetLoc_def Let_def)

lemma GetLoc_fields [simp]:
  "Offset (GetLoc t) = tk_pos t" "EndOffset (GetLoc t) = tk_pos t" "EndLC (GetLoc t) = LC (GetLoc t)"
  by (simp_all add: GetLoc_def Let_def)

lemma covered_last: "covered txt lo ks hi \<Longrightarrow> ks \<noteq> [] \<Longrightarrow> covered txt lo ks (EndOffset (tok_Loc (last ks)))"
proof (induction ks rule: rev_induct)
  case (snoc k ks)
  then show ?case by (simp add: covered_snoc skips.nothing)
qed simp

section \<open>Adding a token\<close>

definition span :: "Tokeniser \<Rightarrow> Tokeniser \<Rightarrow> Location" where
  "span t t' = (GetLoc t)\<lparr>EndLC := LC (GetLoc t'), EndOffset := tk_pos t'\<rparr>"

definition push :: "TokenKind \<Rightarrow> string \<Rightarrow> nat \<Rightarrow> Tokeniser \<Rightarrow> Tokeniser \<Rightarrow> Tokeniser" where
  "push k v b t t' = t'\<lparr>tk_tokens := tk_tokens t' @
     [\<lparr>tok_Type = k, tok_Value = v, tok_Loc = span t t', NumberBase = b\<rparr>]\<rparr>"

lemma push_fields [simp]:
  "tk_text (push k v b t t') = tk_text t'" "tk_pos (push k v b t t') = tk_pos t'"
  by (simp_all add: push_def)

lemma push_inv:
  assumes inv: "state_inv t" and m: "moves t t'"
    and lex: "lexeme_ok \<lparr>tok_Type = k, tok_Value = v, tok_Loc = span t t', NumberBase = b\<rparr>
      (slice (tk_pos t) (tk_pos t') (tk_text t))"
    and en: "ends_lexeme k (text_from t) (text_from t')"
  shows "state_inv (push k v b t t')"
proof -
  have cu: "cursor_ok t" "cursor_ok t'"
    using inv moves_cursor [OF m] by (simp_all add: state_inv_def)
  have fr: "tk_text t' = tk_text t" "tk_tokens t' = tk_tokens t" "tk_pos t \<le> tk_pos t'"
    using m by (simp_all add: moves_def)
  have "token_ok (tk_text t) \<lparr>tok_Type = k, tok_Value = v, tok_Loc = span t t', NumberBase = b\<rparr>"
    using lex en fr cu
    by (simp add: token_ok_def span_ok_def span_def cursor_ok_def GetLoc_def Let_def text_from_def)
  then show ?thesis
    using cu inv fr
    by (auto simp: state_inv_def push_def cursor_ok_def spans_in_order_snoc span_def covered_snoc
        intro: skips.nothing)
qed

lemma AddToken_moved:
  "tk_pos t < tk_pos t' \<Longrightarrow> AddToken k (GetLoc t) v t' = push k v 0 t t'"
  by (simp add: AddToken_def push_def span_def Let_def GetLoc_def)

lemma set_last_base_push: "set_last_base b (push k v b' t t') = push k v b t t'"
  by (simp add: set_last_base_def push_def)

lemma AddToken_eof: "AddToken TokenEof (GetLoc t) v t = push TokenEof v 0 t t"
  by (simp add: AddToken_def push_def span_def Let_def GetLoc_def)

lemma Incs_frame [simp]:
  "tk_pos ((Inc ^^ n) t) = tk_pos t + n" "tk_text ((Inc ^^ n) t) = tk_text t"
  "tk_tokens ((Inc ^^ n) t) = tk_tokens t"
  by (induction n) simp_all

lemma Inc_tokens: "Inc (t\<lparr>tk_tokens := ks\<rparr>) = (Inc t)\<lparr>tk_tokens := ks\<rparr>"
  by (simp add: Inc_def Let_def Peek_def)

lemma Incs_tokens: "(Inc ^^ n) (t\<lparr>tk_tokens := ks\<rparr>) = ((Inc ^^ n) t)\<lparr>tk_tokens := ks\<rparr>"
  by (induction n) (simp_all add: Inc_tokens)

lemma moves_Incs: "tk_pos t + n \<le> length (tk_text t) \<Longrightarrow> moves t ((Inc ^^ n) t)"
proof (induction n)
  case (Suc n)
  then have "moves t ((Inc ^^ n) t)" by simp
  moreover have "moves ((Inc ^^ n) t) (Inc ((Inc ^^ n) t))"
    using Suc.prems by (intro moves_Inc) simp
  ultimately show ?case by (auto intro: moves_trans)
qed simp

lemma emit_push:
  assumes inv: "state_inv t" and n: "tokenWidth k = n" "k \<noteq> TokenEof"
    and le: "tk_pos t + n \<le> length (tk_text t)"
  shows "emit k n t = Continue (push k [] 0 t ((Inc ^^ n) t))"
proof -
  let ?u = "(Inc ^^ n) t"
  have cu: "cursor_ok ?u"
    using inv moves_cursor [OF moves_Incs [OF le]] by (simp add: state_inv_def)
  have "EndOffset (advance_end (tk_text t) n (GetLoc t)) = tk_pos t + n"
    and "EndLC (advance_end (tk_text t) n (GetLoc t)) = lc_at (tk_text t) (tk_pos t + n)"
    using advance_end_at [of "GetLoc t" n "tk_text t"] le state_invD(2) [OF inv] by auto
  moreover have "LC (GetLoc ?u) = lc_at (tk_text t) (tk_pos t + n)"
    using cu by (simp add: cursor_ok_def GetLoc_def Let_def)
  ultimately show ?thesis
    using n by (simp add: emit_def AddToken_def Let_def push_def span_def Incs_tokens)
qed

section \<open>One turn of the loop\<close>

text \<open>What a turn guarantees from a state that satisfies the invariant.\<close>

definition step_ok :: "Tokeniser \<Rightarrow> step \<Rightarrow> bool" where
  "step_ok t s \<longleftrightarrow>
    (case s of
       Continue t' \<Rightarrow> state_inv t' \<and> tk_text t' = tk_text t \<and> tk_pos t < tk_pos t'
     | Finished t' \<Rightarrow> state_inv t' \<and> tk_text t' = tk_text t \<and> tk_tokens t' \<noteq> [] \<and>
         tok_Type (last (tk_tokens t')) = TokenEof \<and> Peek t = 0
     | Fail _ \<Rightarrow> True)"

lemma step_ok_push:
  assumes "state_inv t" and "moves t t'" and "tk_pos t < tk_pos t'"
    and "lexeme_ok \<lparr>tok_Type = k, tok_Value = v, tok_Loc = span t t', NumberBase = b\<rparr>
      (slice (tk_pos t) (tk_pos t') (tk_text t))"
    and "ends_lexeme k (text_from t) (text_from t')"
  shows "step_ok t (Continue (push k v b t t'))"
  using push_inv [OF assms(1,2,4,5)] assms(2,3) by (simp add: step_ok_def moves_def)

lemma step_ok_emit:
  assumes inv: "state_inv t" and w: "tokenWidth k = n" "k \<noteq> TokenEof" "0 < n"
    and le: "tk_pos t + n \<le> length (tk_text t)"
    and lex: "\<And>l. lexeme_ok \<lparr>tok_Type = k, tok_Value = [], tok_Loc = l, NumberBase = 0\<rparr>
      (slice (tk_pos t) (tk_pos t + n) (tk_text t))"
    and en: "ends_lexeme k (text_from t) (text_from ((Inc ^^ n) t))"
  shows "step_ok t (emit k n t)"
  unfolding emit_push [OF inv w(1,2) le]
  using step_ok_push [OF inv moves_Incs [OF le]] lex en w by simp

lemma ends_fixed: "fixed_kind k \<longrightarrow> ends_lexeme k xs ys = longest (kind_String k []) xs"
  by (cases k; simp add: ends_lexeme_def)

lemma fixed_lexeme:
  "fixed_kind (tok_Type k) \<longrightarrow> lexeme_ok k w = (w = map of_char (Token_String k))"
  by (cases "tok_Type k"; simp add: lexeme_ok_def)

lemma fixed_not_eof: "fixed_kind k \<Longrightarrow> k \<noteq> TokenEof"
  by auto

lemma emit1:
  assumes "state_inv t" and "fixed_kind k" and "kind_String k [] = [x]" and "Peek t = rn x"
    and "0 < Peek t" and "longest [x] (text_from t)"
  shows "step_ok t (emit k (Suc 0) t)"
proof (rule step_ok_emit [OF assms(1)])
  have "tokenWidth k = length (kind_String k [])" using assms(2) by (rule tokenWidth_fixed)
  then show "tokenWidth k = Suc 0" using assms(3) by simp
  show "tk_pos t + Suc 0 \<le> length (tk_text t)" using Peek_in [OF assms(5)] by simp
  fix l
  show "lexeme_ok \<lparr>tok_Type = k, tok_Value = [], tok_Loc = l, NumberBase = 0\<rparr>
      (slice (tk_pos t) (tk_pos t + Suc 0) (tk_text t))"
    using fixed_lexeme [of "\<lparr>tok_Type = k, tok_Value = [], tok_Loc = l, NumberBase = 0\<rparr>"] assms
      Peek_in [OF assms(5)] by (simp add: Token_String_def slice_Suc0)
qed (use assms ends_fixed in auto)

lemma emit2:
  assumes "state_inv t" and "fixed_kind k" and "kind_String k [] = [x, y]" and "Peek t = rn x"
    and "Next t = rn y" and "0 < Peek t" and "0 < Next t" and "longest [x, y] (text_from t)"
  shows "step_ok t (emit k 2 t)"
proof (rule step_ok_emit [OF assms(1)])
  have "tokenWidth k = length (kind_String k [])" using assms(2) by (rule tokenWidth_fixed)
  then show "tokenWidth k = 2" using assms(3) by simp
  show "tk_pos t + 2 \<le> length (tk_text t)" using Next_in [OF assms(7)] by simp
  fix l
  show "lexeme_ok \<lparr>tok_Type = k, tok_Value = [], tok_Loc = l, NumberBase = 0\<rparr>
      (slice (tk_pos t) (tk_pos t + 2) (tk_text t))"
    using fixed_lexeme [of "\<lparr>tok_Type = k, tok_Value = [], tok_Loc = l, NumberBase = 0\<rparr>"] assms
      Peek_in [OF assms(6)] Next_in [OF assms(7)]
    by (simp add: Token_String_def slice_Suc1 numeral_2_eq_2)
qed (use assms ends_fixed in auto)

lemma emit3:
  assumes "state_inv t" and "fixed_kind k" and "kind_String k [] = [x, y, z]" and "Peek t = rn x"
    and "Next t = rn y" and "third_is (rn z) t" and "0 < Peek t" and "0 < Next t"
    and "longest [x, y, z] (text_from t)"
  shows "step_ok t (emit k 3 t)"
proof (rule step_ok_emit [OF assms(1)])
  have "tokenWidth k = length (kind_String k [])" using assms(2) by (rule tokenWidth_fixed)
  then show "tokenWidth k = 3" using assms(3) by simp
  show "tk_pos t + 3 \<le> length (tk_text t)" using assms(6) by (simp add: third_is_def)
  fix l
  show "lexeme_ok \<lparr>tok_Type = k, tok_Value = [], tok_Loc = l, NumberBase = 0\<rparr>
      (slice (tk_pos t) (tk_pos t + 3) (tk_text t))"
    using fixed_lexeme [of "\<lparr>tok_Type = k, tok_Value = [], tok_Loc = l, NumberBase = 0\<rparr>"] assms
      Peek_in [OF assms(7)] Next_in [OF assms(8)]
    by (simp add: Token_String_def slice_Suc2 numeral_3_eq_3 third_is_def)
qed (use assms ends_fixed in auto)

text \<open>The switch cases that only emit a token of a fixed spelling.\<close>

lemmas lex_fixed_defs = lex_brackets_def lex_comparison_def lex_operators_def lex_single_def

lemma emit_newline:
  assumes "state_inv t" and "Peek t = rn CHR 0x0A"
  shows "step_ok t (emit TokenNewline 1 t)"
proof (rule step_ok_emit [OF assms(1)])
  have p: "0 < Peek t" using assms(2) by simp
  show "tk_pos t + 1 \<le> length (tk_text t)" using Peek_in [OF p] by simp
  fix l
  show "lexeme_ok \<lparr>tok_Type = TokenNewline, tok_Value = [], tok_Loc = l, NumberBase = 0\<rparr>
      (slice (tk_pos t) (tk_pos t + 1) (tk_text t))"
    using Peek_in [OF p] assms(2) by (simp add: lexeme_ok_def slice_Suc0)
qed (auto simp: ends_lexeme_def)

text \<open>The longest spelling at the cursor, read off the next three runes.\<close>

lemma text_from_ahead:
  "text_from t = x # y # zs \<Longrightarrow> Peek t = x \<and> Next t = y"
  "text_from t = x # y # z # zs \<Longrightarrow> third_is z t"
proof -
  have nth: "j < length (text_from t) \<Longrightarrow>
      tk_pos t + j < length (tk_text t) \<and> tk_text t ! (tk_pos t + j) = text_from t ! j" for j
    by (auto simp: text_from_def)
  show "text_from t = x # y # zs \<Longrightarrow> Peek t = x \<and> Next t = y"
    using nth [of 0] nth [of 1] by (simp add: Peek_def Next_def)
  show "text_from t = x # y # z # zs \<Longrightarrow> third_is z t"
    using nth [of 2] by (simp add: third_is_def)
qed

lemma prefix_2: "0 < y \<Longrightarrow> prefix [x, y] (text_from t) \<longleftrightarrow> Peek t = x \<and> Next t = y"
  using text_from_ahead(1) [of t x y] text_from_Next [of t] by (auto simp: prefix_def)

lemma prefix_3:
  "0 < y \<Longrightarrow> prefix [x, y, z] (text_from t) \<longleftrightarrow> Peek t = x \<and> Next t = y \<and> third_is z t"
  using text_from_ahead(1) [of t x y] text_from_ahead(2) [of t x y z] text_from_Next [of t]
  by (auto simp: prefix_def third_is_def text_from_def Cons_nth_drop_Suc [symmetric])

lemmas longest_here = longest_def long_spellings_def prefix_2 prefix_3

lemma lex_brackets_ok:
  "state_inv t \<Longrightarrow> lex_brackets (Peek t) t = Some s \<Longrightarrow> step_ok t s"
  unfolding lex_brackets_def
  by (auto split: if_splits intro: emit1 emit_newline [simplified] simp: longest_here)

lemma lex_comparison_ok:
  "state_inv t \<Longrightarrow> lex_comparison (Peek t) t = Some s \<Longrightarrow> step_ok t s"
  unfolding lex_comparison_def
  by (auto split: if_splits intro: emit1 emit2 emit3 simp: longest_here)

lemma lex_operators_ok:
  "state_inv t \<Longrightarrow> lex_operators (Peek t) t = Some s \<Longrightarrow> step_ok t s"
  unfolding lex_operators_def
  by (auto split: if_splits intro: emit1 emit2 simp: longest_here)

lemma lex_single_ok:
  "state_inv t \<Longrightarrow> lex_single (Peek t) t = Some s \<Longrightarrow> step_ok t s"
  unfolding lex_single_def
  by (auto split: if_splits intro: emit1 simp: longest_here)

lemma number_ends_from:
  assumes "number_ends v t"
  shows "text_from t = [] \<or> \<not> IsAlpha (hd (text_from t)) \<and> \<not> IsNum (hd (text_from t))"
    and "CHR ''.'' \<notin> set v \<Longrightarrow> text_from t = rn CHR ''.'' # d # zs \<Longrightarrow> \<not> IsNum d"
proof -
  show "text_from t = [] \<or> \<not> IsAlpha (hd (text_from t)) \<and> \<not> IsNum (hd (text_from t))"
    using assms by (auto simp: number_ends_def text_from_def Peek_def hd_drop_conv_nth split: if_splits)
  show "CHR ''.'' \<notin> set v \<Longrightarrow> text_from t = rn CHR ''.'' # d # zs \<Longrightarrow> \<not> IsNum d"
    using assms text_from_ahead(1) [of t "rn CHR ''.''" d zs] by (auto simp: number_ends_def)
qed

lemma lex_number_ok:
  assumes inv: "state_inv t"
  shows "step_ok t (lex_number t)"
proof (cases "ReadNumber t")
  case (Inl e)
  then show ?thesis by (simp add: lex_number_def step_ok_def)
next
  case (Inr r)
  obtain v b t' where r: "r = (v, b, t')" by (cases r)
  note rn = ReadNumber_spec [OF Inr [unfolded r]]
  have en: "ends_lexeme (if CHR ''.'' \<in> set v then TokenFloat else TokenNumber) xs (text_from t')" for xs
    using rn number_ends_from [of v t'] by (auto simp: ends_lexeme_def)
  show ?thesis
    using Inr r rn en
    by (auto simp: lex_number_def AddToken_moved set_last_base_push lexeme_ok_def
          intro!: step_ok_push [OF inv])
qed

lemma lex_minus_ok:
  assumes "state_inv t" and "Peek t = rn CHR ''-''"
  shows "step_ok t (lex_minus t)"
  using assms unfolding lex_minus_def
  by (auto intro: emit1 emit2 emit3 lex_number_ok simp: longest_here)

lemma lex_slash_ok:
  assumes inv: "state_inv t" and p: "Peek t = rn CHR ''/''" and s: "lex_slash t = Some s"
  shows "step_ok t s"
proof -
  have c: "step_ok t (Continue t')"
    if "moves t t' \<and> tk_pos t < tk_pos t' \<and> skips (text_from t) (text_from t')" for t'
    using state_inv_skips [OF inv] that by (auto simp: step_ok_def moves_def)
  show ?thesis
    using s p inv c [OF IgnoreComment_spec] c [OF IgnoreMultilineComment_spec] unfolding lex_slash_def
    by (auto split: if_splits intro: emit1 emit2 simp: longest_here)
qed

lemma lex_dot_ok:
  assumes inv: "state_inv t" and p: "Peek t = rn CHR ''.''"
  shows "step_ok t (lex_dot t)"
proof (cases "Next t = rn CHR ''.''")
  case False
  with inv p show ?thesis by (auto simp: lex_dot_def Let_def longest_here intro: emit1)
next
  case True
  then have n: "0 < Next t" by simp
  note ne = Next_in [OF n]
  have pk: "tk_text t ! tk_pos t = rn CHR ''.''" using Peek_in [of t] p by simp
  have m2: "moves t (Inc (Inc t))" using n by (rule moves_Inc_Next)
  show ?thesis
  proof (cases "Next (Inc t) = rn CHR ''.''")
    case False
    then have "\<not> third_is (rn CHR ''.'') t" by (auto simp: third_is_def Next_def split: if_splits)
    with False True ne pk m2 show ?thesis
      by (auto simp: lex_dot_def Let_def AddToken_moved lexeme_ok_def Token_String_def slice_Suc1
            ends_fixed longest_here intro!: step_ok_push [OF inv])
  next
    case third: True
    then have n2: "0 < Next (Inc t)" by simp
    have m3: "moves t (Inc (Inc (Inc t)))"
      using m2 moves_trans moves_Inc Next_in [OF n2] by auto
    show ?thesis
      using True third ne pk m3 Next_in [OF n2]
      by (auto simp: lex_dot_def Let_def AddToken_moved lexeme_ok_def Token_String_def slice_Suc2
            ends_fixed longest_here intro!: step_ok_push [OF inv])
  qed
qed

lemma lex_char_ok:
  assumes inv: "state_inv t" and p: "Peek t = rn CHR 0x27"
  shows "step_ok t (lex_char t)"
proof (cases "HanldeEscape (Inc t)")
  case (Inl e)
  then show ?thesis by (simp add: lex_char_def step_ok_def)
next
  case (Inr r)
  obtain ch t1 where r: "r = (ch, t1)" by force
  show ?thesis
  proof (cases "Peek t1 = rn CHR 0x27")
    case False
    with Inr r show ?thesis by (simp add: lex_char_def step_ok_def Consume_def Let_def)
  next
    case True
    then have p1: "0 < Peek t1" by simp
    have fw: "tk_pos (Inc t) < tk_pos t1 \<and> tk_text t1 = tk_text t"
      using HanldeEscape_forward [of "Inc t" ch t1] Inr r by simp
    then have "tk_pos (Inc t) < length (tk_text (Inc t))"
      using Peek_in [OF p1] by auto
    then have m1: "moves (Inc t) t1"
      and u: "escape_unit (slice (Suc (tk_pos t)) (tk_pos t1) (tk_text t)) = Some ch"
      using HanldeEscape_spec [of "Inc t" ch t1] Inr r by auto
    have m: "moves t (Inc t1)"
      using p m1 moves_Inc_Peek [OF p1] moves_step [of t] by (auto intro: moves_trans)
    have "slice (tk_pos t) (tk_pos (Inc t1)) (tk_text t) =
        rn CHR 0x27 # slice (Suc (tk_pos t)) (tk_pos t1) (tk_text t) @ [rn CHR 0x27]"
      using fw p True Peek_in [OF p1] Peek_in [of t] slice_Cons [of "tk_pos t" "tk_text t" "tk_pos (Inc t1)"]
        slice_snoc [of "Suc (tk_pos t)" "tk_pos t1" "tk_text t"] by simp
    moreover have "lex_char t = Continue (push TokenChar ch 0 t (Inc t1))"
      using Inr r True fw by (simp add: lex_char_def Consume_def Let_def AddToken_moved)
    ultimately show ?thesis
      using m fw u by (auto intro!: step_ok_push [OF inv] simp: lexeme_ok_def ends_lexeme_def)
  qed
qed

lemma lex_string_ok:
  assumes inv: "state_inv t" and m0: "moves t u" and s: "lex_string k (GetLoc t) u = Some s"
    and k: "(k = TokenString \<and> u = t \<and> Peek t = rn CHR 0x22) \<or>
      (k = TokenCString \<and> u = Inc t \<and> Peek t = rn CHR ''c'')"
  shows "step_ok t s"
proof -
  obtain r where r: "ReadString u = Some r"
    and sr: "s = (case r of Inl e \<Rightarrow> Fail e | Inr (v, t') \<Rightarrow> Continue (AddToken k (GetLoc t) v t'))"
    using s by (auto simp: lex_string_def)
  show ?thesis
  proof (cases r)
    case (Inl e)
    with sr show ?thesis by (simp add: step_ok_def)
  next
    case (Inr x)
    obtain v t' where x: "x = (v, t')" by force
    note sp = ReadString_spec [OF r [unfolded Inr x]]
    have m: "moves t t'" using m0 sp moves_trans by blast
    have pos: "tk_pos t < tk_pos t'" "tk_text u = tk_text t"
      using m0 sp by (auto simp: moves_def)
    obtain body where b: "slice (tk_pos u) (tk_pos t') (tk_text t) = rn CHR 0x22 # body @ [rn CHR 0x22]"
      "string_text body = Some v"
      using sp pos(2) by auto
    have "s = Continue (push k v 0 t t')" using sr Inr x pos by (simp add: AddToken_moved)
    moreover have "slice (tk_pos t) (tk_pos t') (tk_text t) =
        (if k = TokenString then [] else [rn CHR ''c'']) @ rn CHR 0x22 # body @ [rn CHR 0x22]"
      using k b Peek_in [of t] pos(1) by (auto simp: slice_Cons)
    ultimately show ?thesis
      using m pos b k by (auto intro!: step_ok_push [OF inv] simp: lexeme_ok_def ends_lexeme_def)
  qed
qed

lemma lex_word_ok:
  assumes inv: "state_inv t" and c: "IsLegalWordStart (Peek t)"
  shows "step_ok t (lex_word t)"
proof -
  obtain w t' where w: "word_loop [] t = (w, t')" by force
  have wc: "IsLegalWordChar (Peek t)" using c by (simp add: IsLegalWordChar_def)
  note sp = word_loop_spec [OF w]
  have p: "0 < Peek t" using c by (rule class_pos)
  have pos: "tk_pos t < tk_pos t'" using sp wc by simp
  then have "slice (tk_pos t) (tk_pos t') (tk_text t) =
      Peek t # slice (Suc (tk_pos t)) (tk_pos t') (tk_text t)"
    using Peek_in [OF p] by (simp add: slice_Cons)
  moreover have "text_from t' = [] \<or> \<not> IsLegalWordChar (hd (text_from t'))"
    using sp by (auto simp: text_from_def Peek_def hd_drop_conv_nth split: if_splits)
  ultimately show ?thesis
    using sp pos c w
    by (auto simp: lex_word_def ReadWord_def AddToken_moved lexeme_ok_def ends_lexeme_def Let_def
          intro!: step_ok_push [OF inv])
qed

text \<open>The one state from which a turn changes nothing.\<close>

definition stuck :: "Tokeniser \<Rightarrow> bool" where
  "stuck t \<longleftrightarrow> Peek t = rn CHR 0x5C \<and> Next t \<noteq> rn CHR 0x0A"

lemma lex_backslash_ok:
  assumes inv: "state_inv t" and p: "Peek t = rn CHR 0x5C" and n: "\<not> stuck t"
  shows "step_ok t (lex_backslash t)"
proof -
  have nl: "Next t = rn CHR 0x0A" using p n by (simp add: stuck_def)
  then have nx: "0 < Next t" by simp
  have "skips (text_from t) (text_from (Inc (Inc t)))"
    using text_from_Next [OF nx] p nl by (simp add: skips_intros(1,3))
  then show ?thesis
    using nl state_inv_skips [OF inv moves_Inc_Next [OF nx]]
    by (simp add: lex_backslash_def step_ok_def)
qed

lemma lex_switch_ok:
  assumes inv: "state_inv t" and s: "lex_switch (Peek t) t = Some s" and n: "\<not> stuck t"
  shows "step_ok t s"
  using s lex_string_ok [OF inv moves_refl, of TokenString s] lex_backslash_ok [OF inv _ n]
    lex_brackets_ok [OF inv, of s] lex_comparison_ok [OF inv, of s] lex_minus_ok [OF inv]
    lex_slash_ok [OF inv, of s] lex_operators_ok [OF inv, of s] lex_single_ok [OF inv, of s]
    lex_dot_ok [OF inv] lex_char_ok [OF inv]
  unfolding lex_switch_def
  by (simp split: if_splits option.splits) (auto simp: step_ok_def)

lemma tok_step_ok:
  assumes inv: "state_inv t" and s: "tok_step t = Some s" and n: "\<not> stuck t"
  shows "step_ok t s"
proof (cases "Peek t = 0")
  case True
  then have "s = Finished (push TokenEof [] 0 t t)"
    using s by (simp add: tok_step_def AddToken_eof)
  moreover have "state_inv (push TokenEof [] 0 t t)"
    by (rule push_inv [OF inv moves_refl])
      (use True in \<open>simp_all add: lexeme_ok_def ends_lexeme_def at_end_from\<close>)
  ultimately show ?thesis using True by (simp add: step_ok_def push_def)
next
  case False
  then have p: "0 < Peek t" by simp
  have sp: "step_ok t (Continue (Inc t))" if "IsSpace (Peek t)"
    using state_inv_skips [OF inv moves_Inc_Peek [OF p]] text_from_Peek [OF p] that
    by (simp add: step_ok_def skips.blank skips.nothing)
  show ?thesis
    using s p sp lex_string_ok [OF inv moves_Inc_Peek [OF p], of TokenCString s]
      lex_word_ok [OF inv] lex_number_ok [OF inv] lex_switch_ok [OF inv _ n, of s]
    unfolding tok_step_def Let_def
    by (simp split: if_splits)
qed

section \<open>Runs\<close>

text \<open>The states at the head of the loop that a run passes through.\<close>

inductive reaches :: "Tokeniser \<Rightarrow> Tokeniser \<Rightarrow> bool" where
  here: "reaches t t"
| turn: "tok_step t = Some (Continue t') \<Longrightarrow> reaches t' u \<Longrightarrow> reaches t u"

inductive_cases reaches_from: "reaches t u"

lemma stuck_step: "stuck t \<Longrightarrow> tok_step t = Some (Continue t)"
  by (simp add: stuck_def tok_step_def lex_switch_def lex_backslash_def IsSpace_def
      IsLegalWordStart_def IsAlpha_def IsNum_def)

lemma Tokenise_step:
  "tok_step t = Some (Continue t') \<Longrightarrow> Tokenise t = Tokenise t'"
  by (subst Tokenise.simps) simp

lemma reaches_Tokenise: "reaches t u \<Longrightarrow> Tokenise t = Tokenise u"
  by (induction rule: reaches.induct) (auto simp: Tokenise_step)

lemma stuck_not_fixed:
  assumes ret: "Tokenise t = Some r"
  shows "\<not> stuck t"
proof (rule Tokenise.raw_induct [where P = "\<lambda>t r. \<not> stuck t", OF _ ret])
  fix f t r
  assume IH: "\<And>t r. f t = Some r \<Longrightarrow> \<not> stuck t"
    and eq: "Option.bind (tok_step t) (\<lambda>s. case s of Finished t' \<Rightarrow> Some (Inr (tk_tokens t'))
      | Continue t' \<Rightarrow> f t' | Fail e \<Rightarrow> Some (Inl e)) = Some r"
  show "\<not> stuck t"
  proof
    assume st: "stuck t"
    with eq have "f t = Some r" by (simp add: stuck_step)
    with IH st show False by blast
  qed
qed

lemma stuck_diverges: "stuck t \<Longrightarrow> Tokenise t = None"
  using stuck_not_fixed by (cases "Tokenise t") auto

lemma Tokenise_inv:
  assumes ret: "Tokenise t = Some r" and inv: "state_inv t" and ok: "r = Inr ks"
  shows "\<exists>t'. state_inv t' \<and> tk_text t' = tk_text t \<and> ks = tk_tokens t' \<and> ks \<noteq> [] \<and>
    tok_Type (last ks) = TokenEof"
proof -
  let ?Q = "\<lambda>t r. state_inv t \<longrightarrow> \<not> stuck t \<longrightarrow> (\<forall>ks. r = Inr ks \<longrightarrow>
    (\<exists>t'. state_inv t' \<and> tk_text t' = tk_text t \<and> ks = tk_tokens t' \<and> ks \<noteq> [] \<and>
      tok_Type (last ks) = TokenEof))"
  have "\<not> stuck t \<and> ?Q t r"
  proof (rule Tokenise.raw_induct [where P = "\<lambda>t r. \<not> stuck t \<and> ?Q t r", OF _ ret])
    fix f t r
    assume IH: "\<And>t r. f t = Some r \<Longrightarrow> \<not> stuck t \<and> ?Q t r"
      and eq: "Option.bind (tok_step t) (\<lambda>s. case s of Finished t' \<Rightarrow> Some (Inr (tk_tokens t'))
        | Continue t' \<Rightarrow> f t' | Fail e \<Rightarrow> Some (Inl e)) = Some r"
    have ns: "\<not> stuck t"
    proof
      assume st: "stuck t"
      with eq have "f t = Some r" by (simp add: stuck_step)
      with IH st show False by blast
    qed
    moreover have "?Q t r"
    proof (intro impI)
      assume i: "state_inv t" and "\<not> stuck t"
      obtain s where s: "tok_step t = Some s" using eq by (cases "tok_step t") auto
      note ok = tok_step_ok [OF i s ns]
      show "\<forall>ks. r = Inr ks \<longrightarrow> (\<exists>t'. state_inv t' \<and> tk_text t' = tk_text t \<and> ks = tk_tokens t' \<and>
        ks \<noteq> [] \<and> tok_Type (last ks) = TokenEof)"
        using ok s eq IH by (cases s) (auto simp: step_ok_def, metis)
    qed
    ultimately show "\<not> stuck t \<and> ?Q t r" by blast
  qed
  with inv ok show ?thesis by blast
qed

section \<open>When the loop ends\<close>

text \<open>A text that ends with a newline gives every string and every comment an end.\<close>

definition newline_ended :: "Tokeniser \<Rightarrow> bool" where
  "newline_ended t \<longleftrightarrow> tk_text t \<noteq> [] \<and> last (tk_text t) = rn CHR 0x0A"

lemma newline_here:
  "newline_ended t \<Longrightarrow> Suc (tk_pos t) = length (tk_text t) \<Longrightarrow> Peek t = rn CHR 0x0A"
  by (auto simp: newline_ended_def Peek_def last_conv_nth dest: sym)

lemma newline_before:
  assumes "newline_ended t" and "tk_pos t < length (tk_text t)" and "Peek t \<noteq> rn CHR 0x0A"
  shows "Suc (tk_pos t) < length (tk_text t)"
  using assms newline_here [OF assms(1)] by (cases "Suc (tk_pos t) = length (tk_text t)") auto

lemma comment_loop_returns:
  "newline_ended t \<Longrightarrow> tk_pos t < length (tk_text t) \<Longrightarrow> comment_loop t \<noteq> None"
proof (induction "length (tk_text t) - tk_pos t" arbitrary: t rule: less_induct)
  case less
  show ?case
  proof (cases "Peek t = rn CHR 0x0A")
    case True
    then show ?thesis by (subst comment_loop.simps) simp
  next
    case False
    with less.prems have "Suc (tk_pos t) < length (tk_text t)" by (intro newline_before)
    with less.prems have "comment_loop (Inc t) \<noteq> None"
      by (intro less.hyps) (auto simp: newline_ended_def)
    with False show ?thesis by (subst comment_loop.simps) simp
  qed
qed

lemma string_loop_returns:
  "newline_ended t \<Longrightarrow> tk_pos t < length (tk_text t) \<Longrightarrow> string_loop s t \<noteq> None"
proof (induction "length (tk_text t) - tk_pos t" arbitrary: s t rule: less_induct)
  case less
  show ?case
  proof (cases "Peek t = rn CHR 0x22 \<or> Peek t = rn CHR 0x0A")
    case True
    then show ?thesis by (subst string_loop.simps) auto
  next
    case False
    with less.prems have nx: "Suc (tk_pos t) < length (tk_text t)" by (intro newline_before) auto
    show ?thesis
    proof (cases "HanldeEscape t")
      case (Inl e)
      with False show ?thesis by (subst string_loop.simps) simp
    next
      case (Inr r)
      obtain ch u where r: "r = (ch, u)" by force
      have fw: "tk_pos t < tk_pos u \<and> tk_text u = tk_text t"
        using HanldeEscape_forward Inr r by blast
      have "tk_pos u < length (tk_text u)"
        using Inr r nx less.prems newline_here [of "Inc t"] fw
        by (cases "Suc (Suc (tk_pos t)) = length (tk_text t)")
           (auto simp: HanldeEscape_def Consume_def Let_def newline_ended_def split: if_splits)
      with fw less.prems have "string_loop (s @ ch) u \<noteq> None"
        by (intro less.hyps) (auto simp: newline_ended_def)
      with False Inr r show ?thesis by (subst string_loop.simps) simp
    qed
  qed
qed

lemma first_some_None:
  "(case x of Some s \<Rightarrow> Some s | None \<Rightarrow> y) = None \<longleftrightarrow> x = None \<and> y = None"
  by (cases x) auto

lemma tok_step_returns:
  assumes nl: "newline_ended t" and inv: "state_inv t"
  shows "tok_step t \<noteq> None"
proof (cases "Peek t = 0")
  case True
  then show ?thesis by (simp add: tok_step_def)
next
  case False
  then have p: "0 < Peek t" by simp
  have str: "lex_string k l u \<noteq> None" if "u = t \<or> u = Inc t \<and> 0 < Next t" "Peek u = rn CHR 0x22" for k l u
  proof -
    have "0 < Peek u" using that(2) by simp
    then have u: "tk_pos u < length (tk_text u)" "newline_ended u" "Peek u \<noteq> rn CHR 0x0A"
      using Peek_in [of u] that nl by (auto simp: newline_ended_def)
    then have "Suc (tk_pos u) < length (tk_text u)" by (intro newline_before)
    then have "string_loop [] (Inc u) \<noteq> None"
      using u by (intro string_loop_returns) (auto simp: newline_ended_def)
    then show ?thesis using that by (auto simp: lex_string_def ReadString_def)
  qed
  have slash: "lex_slash t \<noteq> None" if "Peek t = rn CHR ''/''"
  proof (cases "Next t = rn CHR ''/''")
    case True
    then have n: "0 < Next t" by simp
    have "Peek (Inc t) \<noteq> rn CHR 0x0A" using True by (simp add: Peek_Inc)
    then have "Suc (tk_pos (Inc t)) < length (tk_text (Inc t))"
      using Next_in [OF n] nl by (intro newline_before) (auto simp: newline_ended_def)
    then have "comment_loop (Inc (Inc t)) \<noteq> None"
      using nl by (intro comment_loop_returns) (auto simp: newline_ended_def)
    with True show ?thesis by (auto simp: lex_slash_def IgnoreComment_def)
  qed (simp add: lex_slash_def)
  have sw: "lex_switch (Peek t) t \<noteq> None"
    using str [of t TokenString "GetLoc t"] slash unfolding lex_switch_def
    by (simp add: first_some_None del: not_None_eq)
  have cs: "lex_string TokenCString (GetLoc t) (Inc t) \<noteq> None" if "Next t = rn CHR 0x22"
    using str [of "Inc t"] that by (simp add: Peek_Inc)
  show ?thesis using p sw cs by (simp add: tok_step_def Let_def)
qed

lemma Tokenise_returns_or_stuck:
  "newline_ended t \<Longrightarrow> state_inv t \<Longrightarrow> Tokenise t \<noteq> None \<or> (\<exists>u. reaches t u \<and> stuck u)"
proof (induction "length (tk_text t) - tk_pos t" arbitrary: t rule: less_induct)
  case less
  obtain s where s: "tok_step t = Some s" using tok_step_returns less.prems by blast
  show ?case
  proof (cases "stuck t")
    case True
    then show ?thesis using reaches.here by blast
  next
    case False
    note ok = tok_step_ok [OF less.prems(2) s False]
    show ?thesis
    proof (cases s)
      case (Continue t')
      have "length (tk_text t') - tk_pos t' < length (tk_text t) - tk_pos t"
        using ok Continue state_invD(1) [of t'] by (auto simp: step_ok_def)
      then have "Tokenise t' \<noteq> None \<or> (\<exists>u. reaches t' u \<and> stuck u)"
        using less.hyps [of t'] ok Continue less.prems(1) by (auto simp: step_ok_def newline_ended_def)
      then show ?thesis using s Continue Tokenise_step reaches.turn by metis
    qed (use s in \<open>subst Tokenise.simps; simp\<close>)+
  qed
qed

section \<open>Unterminated comments\<close>

lemma comment_loop_needs_newline:
  assumes ret: "comment_loop t = Some t'"
  shows "rn CHR 0x0A \<in> set (drop (tk_pos t) (tk_text t))"
proof (rule comment_loop.raw_induct
    [where P = "\<lambda>t t'. rn CHR 0x0A \<in> set (drop (tk_pos t) (tk_text t))", OF _ ret])
  fix f t t'
  assume IH: "\<And>t t'. f t = Some t' \<Longrightarrow> rn CHR 0x0A \<in> set (drop (tk_pos t) (tk_text t))"
    and eq: "(if Peek t \<noteq> rn CHR 0x0A then f (Inc t) else Some t) = Some t'"
  show "rn CHR 0x0A \<in> set (drop (tk_pos t) (tk_text t))"
  proof (cases "Peek t = rn CHR 0x0A")
    case True
    then have "drop (tk_pos t) (tk_text t) = rn CHR 0x0A # drop (Suc (tk_pos t)) (tk_text t)"
      using Peek_in [of t] by (simp add: Cons_nth_drop_Suc [symmetric])
    then show ?thesis by simp
  next
    case False
    with eq have "f (Inc t) = Some t'" by simp
    then have "rn CHR 0x0A \<in> set (drop (tk_pos (Inc t)) (tk_text (Inc t)))" by (rule IH)
    moreover have "set (drop (tk_pos (Inc t)) (tk_text (Inc t))) \<subseteq> set (drop (tk_pos t) (tk_text t))"
      by (simp add: set_drop_subset_set_drop)
    ultimately show ?thesis by blast
  qed
qed

lemma comment_step_diverges:
  assumes "Peek t = rn CHR ''/''" and "Next t = rn CHR ''/''"
    and "rn CHR 0x0A \<notin> set (drop (tk_pos t + 2) (tk_text t))"
  shows "tok_step t = None"
proof -
  have "comment_loop (Inc (Inc t)) = None"
    using comment_loop_needs_newline [of "Inc (Inc t)"] assms(3)
    by (cases "comment_loop (Inc (Inc t))") auto
  then show ?thesis
    using assms by (simp add: tok_step_def lex_switch_def lex_brackets_def lex_comparison_def
        lex_slash_def IgnoreComment_def IsSpace_def IsLegalWordStart_def IsAlpha_def IsNum_def)
qed

section \<open>Based literals\<close>

lemma digit_loop_reads:
  assumes "slice (tk_pos t) (tk_pos t + length ds) (tk_text t) = ds"
    and "tk_pos t + length ds \<le> length (tk_text t)"
    and "\<forall>d \<in> set ds. (IsAlpha d \<or> IsNum d) \<and> digitValue d < base"
    and "\<not> IsAlpha (Peek ((Inc ^^ length ds) t))" and "\<not> IsNum (Peek ((Inc ^^ length ds) t))"
  shows "digit_loop base acc t = Inr (acc @ ds, (Inc ^^ length ds) t)"
  using assms
proof (induction ds arbitrary: acc t)
  case Nil
  then show ?case by (subst digit_loop.simps) (simp add: Let_def)
next
  case (Cons d ds)
  let ?n = "length ds"
  have cons: "slice (tk_pos t) (tk_pos t + length (d # ds)) (tk_text t) =
      tk_text t ! tk_pos t # slice (Suc (tk_pos t)) (Suc (tk_pos t) + ?n) (tk_text t)"
    using Cons.prems(2) by (simp add: slice_Cons)
  then have d: "Peek t = d" "slice (Suc (tk_pos t)) (Suc (tk_pos t) + ?n) (tk_text t) = ds"
    using Cons.prems(1,2) by (auto simp: Peek_def)
  have nsp: "\<not> IsSpace d \<and> d \<noteq> rn CHR 0x0A"
    using Cons.prems(3) by (auto simp: IsAlpha_def IsNum_def IsSpace_def)
  have sh: "(Inc ^^ ?n) (Inc t) = (Inc ^^ length (d # ds)) t" by (simp add: funpow_swap1)
  have "digit_loop base (acc @ [d]) (Inc t) = Inr ((acc @ [d]) @ ds, (Inc ^^ ?n) (Inc t))"
  proof (rule Cons.IH)
    show "\<forall>d \<in> set ds. (IsAlpha d \<or> IsNum d) \<and> digitValue d < base" using Cons.prems(3) by simp
    show "\<not> IsAlpha (Peek ((Inc ^^ ?n) (Inc t)))" "\<not> IsNum (Peek ((Inc ^^ ?n) (Inc t)))"
      unfolding sh using Cons.prems(4,5) by blast+
  qed (use d Cons.prems(2) in auto)
  then show ?case
    unfolding sh using d nsp Cons.prems(3)
    by (subst digit_loop.simps) (auto simp: Consume_def Let_def)
qed

end
