(* ===== verification/Tokenise_Properties.thy ===== *)
theory Tokenise_Properties
  imports Tokenise_Facts
begin

text \<open>The properties of the tokeniser that the manifest names.\<close>



text \<open>
  C18: on a text that ends with a newline, \<open>Tokenise\<close> runs for ever exactly when its loop
  reaches a backslash outside every literal and comment that is not followed by a newline
  (the case \<open>'\\\\'\<close> of the switch continues without moving); in all other situations it
  returns tokens or an error.
\<close>

theorem tokenise_hangs_iff_stuck:
  assumes "runes_of_string src \<noteq> []" and "last (runes_of_string src) = rn CHR 0x0A"
  shows "Tokenise (NewTokeniser src f) = None \<longleftrightarrow>
    (\<exists>u. reaches (NewTokeniser src f) u \<and> stuck u)"
proof -
  have "newline_ended (NewTokeniser src f)"
    using assms by (simp add: newline_ended_def NewTokeniser_def)
  then show ?thesis
    using Tokenise_returns_or_stuck [OF _ state_inv_new] reaches_Tokenise stuck_diverges by metis
qed

theorem tokenise_hangs_iff_stuck_witness:
  "Tokenise (NewTokeniser [CHR 0x5C, CHR ''x'', CHR 0x0A] ''f'') = None"
proof -
  let ?src = "[CHR 0x5C, CHR ''x'', CHR 0x0A]"
  have "runes_of_string ?src \<noteq> []" and "last (runes_of_string ?src) = rn CHR 0x0A"
    by code_simp+
  moreover have "stuck (NewTokeniser ?src ''f'')" by code_simp
  ultimately show ?thesis
    using tokenise_hangs_iff_stuck [of ?src "''f''"] reaches.here by blast
qed

text \<open>
  a line comment with no newline after it, for example on the last line of a file without
  a final newline, makes \<open>Tokenise\<close> run for ever: the loop of \<open>IgnoreComment\<close> tests only
  for a newline and never for the end of the text.
\<close>

theorem open_line_comment_hangs:
  assumes "reaches (NewTokeniser src f) t"
    and "Peek t = rn CHR ''/''" and "Next t = rn CHR ''/''"
    and "rn CHR 0x0A \<notin> set (drop (tk_pos t) (tk_text t))"
  shows "Tokenise (NewTokeniser src f) = None"
proof -
  have "rn CHR 0x0A \<notin> set (drop (tk_pos t + 2) (tk_text t))"
    using assms(4) set_drop_subset_set_drop [of "tk_pos t" "tk_pos t + 2" "tk_text t"] by auto
  then have "tok_step t = None" by (rule comment_step_diverges [OF assms(2,3)])
  then have "Tokenise t = None" by (subst Tokenise.simps) simp
  with reaches_Tokenise [OF assms(1)] show ?thesis by simp
qed

theorem open_line_comment_hangs_witness: "Tokenise (NewTokeniser ''a// end'' ''f'') = None"
proof -
  let ?t0 = "NewTokeniser ''a// end'' ''f''"
  obtain t where t: "tok_step ?t0 = Some (Continue t)" and "Peek t = rn CHR ''/''"
    "Next t = rn CHR ''/''" "rn CHR 0x0A \<notin> set (drop (tk_pos t) (tk_text t))"
  proof -
    have "(case tok_step ?t0 of Some (Continue t) \<Rightarrow> Peek t = rn CHR ''/'' \<and>
        Next t = rn CHR ''/'' \<and> rn CHR 0x0A \<notin> set (drop (tk_pos t) (tk_text t)) | _ \<Rightarrow> False)"
      by code_simp
    then show ?thesis by (auto split: option.splits step.splits intro: that)
  qed
  moreover have "reaches ?t0 t" using t reaches.here reaches.turn by blast
  ultimately show ?thesis using open_line_comment_hangs by blast
qed

text \<open>
  C35: \<open>ReadNumber\<close> at a base prefix followed by digits of that base, up to a rune that is
  neither a letter nor a digit nor a decimal point, returns the decimal text of the number
  those digits denote in that base, and consumes exactly the literal.
\<close>

theorem based_literal_value:
  assumes base: "(base, p) \<in> {(2, rn CHR ''b''), (2, rn CHR ''B''), (8, rn CHR ''o''),
      (8, rn CHR ''O''), (16, rn CHR ''x''), (16, rn CHR ''X'')}"
    and "tk_text t = pre @ [rn CHR ''0'', p] @ ds @ post" and "tk_pos t = length pre"
    and "ds \<noteq> []" and "\<forall>d \<in> set ds. (IsAlpha d \<or> IsNum d) \<and> digitValue d < base"
    and "post = [] \<or> \<not> IsAlpha (hd post) \<and> \<not> IsNum (hd post) \<and> hd post \<noteq> rn CHR ''.''"
  shows "ReadNumber t =
    Inr (decimal (digits_value base ds), base, (Inc ^^ (length ds + 2)) t)"
proof -
  let ?t2 = "Inc (Inc t)"
  let ?t3 = "(Inc ^^ length ds) ?t2"
  have pk: "Peek t = rn CHR ''0''" "Next t = p"
    using assms(2,3) by (simp_all add: Peek_def Next_def nth_append)
  have nb: "number_base t = (base, True)"
    using base pk by (auto simp: number_base_def)
  have pk3: "Peek ?t3 = (if post = [] then 0 else hd post)"
    using assms(2,3) by (cases post) (simp_all add: Peek_def nth_append)
  have "digit_loop base [] ?t2 = Inr ([] @ ds, ?t3)"
  proof (rule digit_loop_reads)
    show "slice (tk_pos ?t2) (tk_pos ?t2 + length ds) (tk_text ?t2) = ds"
      using assms(2,3) by (simp add: slice_def)
    show "tk_pos ?t2 + length ds \<le> length (tk_text ?t2)" using assms(2,3) by simp
    show "\<not> IsAlpha (Peek ?t3)" "\<not> IsNum (Peek ?t3)"
      using pk3 assms(6) by (auto split: if_splits)
  qed (rule assms(5))
  moreover have "big_SetString ds base = Some (digits_value base ds)"
    using assms(4,5) by (simp add: big_SetString_def)
  moreover have "Peek ?t3 \<noteq> rn CHR ''.''"
    using pk3 assms(6) by (auto split: if_splits)
  moreover have "(Inc ^^ (length ds + 2)) t = ?t3"
    by (simp add: numeral_2_eq_2 funpow_swap1)
  ultimately show ?thesis
    using assms(4) pk nb by (simp add: ReadNumber_def Let_def number_fraction_def)
qed

theorem based_literal_value_witness:
  "ReadNumber (NewTokeniser ''0x1F;'' ''f'') =
     Inr (''31'', 16, Inc (Inc (Inc (Inc (NewTokeniser ''0x1F;'' ''f'')))))"
proof -
  let ?ds = "[rn CHR ''1'', rn CHR ''F'']"
  have tx: "tk_text (NewTokeniser ''0x1F;'' ''f'') =
      [] @ [rn CHR ''0'', rn CHR ''x''] @ ?ds @ [rn CHR '';'']"
    by code_simp
  have p: "tk_pos (NewTokeniser ''0x1F;'' ''f'') = length ([] :: rune list)"
    by (simp add: NewTokeniser_def)
  have h: "\<forall>d \<in> set ?ds. (IsAlpha d \<or> IsNum d) \<and> digitValue d < 16"
    and e: "[rn CHR '';''] = [] \<or> \<not> IsAlpha (hd [rn CHR '';'']) \<and> \<not> IsNum (hd [rn CHR '';'']) \<and>
      hd [rn CHR '';''] \<noteq> rn CHR ''.''"
    and d: "decimal (digits_value 16 ?ds) = ''31''"
    by code_simp+
  show ?thesis
    using based_literal_value [of 16 "rn CHR ''x''" _ "[]" ?ds "[rn CHR '';'']", OF _ tx p _ h e] d
    by simp
qed

end
