(* ===== verification/Types_Syntax.thy ===== *)
theory Types_Syntax
  imports Prelude
begin

text \<open>
  The type terms of \<^verbatim>\<open>src/types/type.go\<close>: one constructor of \<open>ty\<close> per Go type that
  implements the interface \<open>Type\<close>, with its fields, and \<open>NilType\<close> for the nil interface.
  The structs that only occur inside others (\<open>TypeParameter\<close>, \<open>TaggedUnionInfo\<close>,
  \<open>TaggedUnionVariant\<close>, \<open>TraitMethod\<close>, \<open>TraitType\<close>) are datatypes over the type they
  contain, so that the recursion of \<open>ty\<close> runs through them.

  A \<open>*AliasRef\<close> is a pointer with a mutable \<open>Target\<close>. \<open>AliasRef (Some p) m n\<close> is a
  reference whose \<open>Target\<close> field is set; \<open>p\<close> identifies the pointer and the store
  \<open>\<sigma> :: alias_store\<close> maps it to the type its target cell holds (\<open>None\<close> while the cell is
  still nil). \<open>AliasRef None m n\<close> is a reference whose \<open>Target\<close> is nil; the code never
  compares the identity of such a reference.
\<close>

section \<open>Type terms\<close>

datatype PrimitiveType =
    PrimitiveI8 | PrimitiveI16 | PrimitiveI32 | PrimitiveI64
  | PrimitiveU8 | PrimitiveU16 | PrimitiveU32 | PrimitiveU64
  | PrimitiveF32 | PrimitiveF64 | PrimitiveIsz | PrimitiveUsz | PrimitiveVoid | PrimitiveBool

datatype TraitReceiverKind =
  TraitReceiverValue | TraitReceiverPointer | TraitReceiverMutablePointer

datatype 't type_parameter =
  TypeParam (tp_Owner: string) (tp_Name: string) (tp_Index: int) (tp_Constraint: 't)

datatype 't tagged_union_variant =
  TaggedUnionVariant (tv_Name: string) (tv_TagValue: string) (tv_Fields: "(string \<times> 't) list")

datatype 't tagged_union_info =
  TaggedUnionInfo (tu_Tag: 't) (tu_Variants: "'t tagged_union_variant list") (tu_Auto: bool)

datatype 't trait_method =
  TraitMethod (tm_Name: string) (tm_GenericParameters: "'t type_parameter list")
    (tm_Receiver: TraitReceiverKind) (tm_Parameters: "'t list") (tm_ReturnType: 't)
    (tm_HasDefault: bool)

datatype 't trait_type =
  Trait (tr_Module: string) (tr_Name: string) (tr_Methods: "'t trait_method list") (tr_Any: bool)

type_synonym alias_ptr = nat

datatype ty =
    NilType
  | SelfType
  | NoInitializerType
  | OpaqueType
  | ErrorType
  | UntypedInt
  | UntypedFloat
  | UnresolvedEnum
  | PrimitiveTy PrimitiveType
  | TypeParameter "ty type_parameter"
  | DefinedType (dt_Module: string) (dt_Name: string) (dt_Underlying: ty) (dt_GenericName: string)
      (dt_TypeArguments: "ty list")
  | AliasRef "alias_ptr option" string string
  | PointerType ty bool
  | SliceType ty bool
  | ArrayType ty int
  | SequenceType ty int
  | StructType "(string \<times> ty) list" bool "ty tagged_union_info option"
  | UnionType string string "(string \<times> ty) list"
  | EnumType string string string "string list" "string list"
  | FlagsType PrimitiveType "string list" "string list"
  | TraitTy "ty trait_type"
  | TraitPointerType "ty trait_type" bool
  | FunctionType "ty list" ty bool ty
  | MultipleReturnType "ty list"

type_synonym field = "string \<times> ty"
type_synonym alias_store = "alias_ptr \<rightharpoonup> ty"

abbreviation NoTaggedUnion :: "ty tagged_union_info option" where
  "NoTaggedUnion \<equiv> None"

abbreviation u8 :: ty where "u8 \<equiv> PrimitiveTy PrimitiveU8"
abbreviation i32 :: ty where "i32 \<equiv> PrimitiveTy PrimitiveI32"
abbreviation i64 :: ty where "i64 \<equiv> PrimitiveTy PrimitiveI64"
abbreviation f32 :: ty where "f32 \<equiv> PrimitiveTy PrimitiveF32"
abbreviation f64 :: ty where "f64 \<equiv> PrimitiveTy PrimitiveF64"

fun PrimitiveType_String :: "PrimitiveType \<Rightarrow> string" where
  "PrimitiveType_String PrimitiveI8 = ''i8''"
| "PrimitiveType_String PrimitiveI16 = ''i16''"
| "PrimitiveType_String PrimitiveI32 = ''i32''"
| "PrimitiveType_String PrimitiveI64 = ''i64''"
| "PrimitiveType_String PrimitiveU8 = ''u8''"
| "PrimitiveType_String PrimitiveU16 = ''u16''"
| "PrimitiveType_String PrimitiveU32 = ''u32''"
| "PrimitiveType_String PrimitiveU64 = ''u64''"
| "PrimitiveType_String PrimitiveF32 = ''f32''"
| "PrimitiveType_String PrimitiveF64 = ''f64''"
| "PrimitiveType_String PrimitiveIsz = ''isz''"
| "PrimitiveType_String PrimitiveUsz = ''usz''"
| "PrimitiveType_String PrimitiveVoid = ''void''"
| "PrimitiveType_String PrimitiveBool = ''bool''"

definition TypeParameter_Key :: "'t type_parameter \<Rightarrow> string" where
  "TypeParameter_Key p = tp_Owner p @ ''#'' @ decimal_int (tp_Index p)"

text \<open>\<open>StrType\<close>, the nominal string type.\<close>

definition StrType :: ty where
  "StrType = DefinedType [] ''str'' (SliceType (PrimitiveTy PrimitiveU8) False) [] []"

end
