(* ===== verification/Types_Subst.thy ===== *)
theory Types_Subst
  imports Types_Syntax
begin

text \<open>
  The traversals of \<^verbatim>\<open>src/types/type.go\<close> that rebuild a type or look for a placeholder
  in it: \<open>DetachForSerialization\<close>, \<open>SubstituteParameters\<close>, \<open>SubstituteSelf\<close>,
  \<open>Substitute\<close>, \<open>HasSelfType\<close>, \<open>HasTypeParameter\<close> and
  \<open>DynamicIncompatibility\<close>. The Go code copies every slice before it writes to it, so the
  functions are pure.
\<close>

section \<open>Detaching\<close>

primrec DetachForSerialization :: "ty \<Rightarrow> ty" where
  "DetachForSerialization NilType = NilType"
| "DetachForSerialization SelfType = SelfType"
| "DetachForSerialization NoInitializerType = NoInitializerType"
| "DetachForSerialization OpaqueType = OpaqueType"
| "DetachForSerialization ErrorType = ErrorType"
| "DetachForSerialization UntypedInt = UntypedInt"
| "DetachForSerialization UntypedFloat = UntypedFloat"
| "DetachForSerialization UnresolvedEnum = UnresolvedEnum"
| "DetachForSerialization (PrimitiveTy p) = PrimitiveTy p"
| "DetachForSerialization (AliasRef r m n) = AliasRef None m n"
| "DetachForSerialization (TypeParameter p) =
     TypeParameter (map_type_parameter DetachForSerialization p)"
| "DetachForSerialization (DefinedType m n u g ts) =
     DefinedType m n (DetachForSerialization u) g (map DetachForSerialization ts)"
| "DetachForSerialization (PointerType b mu) = PointerType (DetachForSerialization b) mu"
| "DetachForSerialization (SliceType b mu) = SliceType (DetachForSerialization b) mu"
| "DetachForSerialization (ArrayType b l) = ArrayType (DetachForSerialization b) l"
| "DetachForSerialization (SequenceType b l) = SequenceType (DetachForSerialization b) l"
| "DetachForSerialization (StructType fs p tu) =
     StructType (map (map_prod id DetachForSerialization) fs) p
       (map_option (map_tagged_union_info DetachForSerialization) tu)"
| "DetachForSerialization (UnionType m n fs) =
     UnionType m n (map (map_prod id DetachForSerialization) fs)"
| "DetachForSerialization (EnumType m n i vs ws) = EnumType m n i vs ws"
| "DetachForSerialization (FlagsType p vs ws) = FlagsType p vs ws"
| "DetachForSerialization (TraitTy t) = TraitTy (map_trait_type DetachForSerialization t)"
| "DetachForSerialization (TraitPointerType t mu) =
     TraitPointerType (map_trait_type DetachForSerialization t) mu"
| "DetachForSerialization (FunctionType ps r v ve) =
     FunctionType (map DetachForSerialization ps) (DetachForSerialization r) v
       (DetachForSerialization ve)"
| "DetachForSerialization (MultipleReturnType ts) =
     MultipleReturnType (map DetachForSerialization ts)"

section \<open>Substitution of type parameters\<close>

text \<open>
  \<open>Substitute\<close>: a bound parameter is replaced, an unbound one is kept as it is; a trait
  keeps its own structure and is substituted in its methods, generic constraints included.
\<close>

primrec Substitute :: "(string \<rightharpoonup> ty) \<Rightarrow> ty \<Rightarrow> ty" where
  "Substitute s NilType = NilType"
| "Substitute s SelfType = SelfType"
| "Substitute s NoInitializerType = NoInitializerType"
| "Substitute s OpaqueType = OpaqueType"
| "Substitute s ErrorType = ErrorType"
| "Substitute s UntypedInt = UntypedInt"
| "Substitute s UntypedFloat = UntypedFloat"
| "Substitute s UnresolvedEnum = UnresolvedEnum"
| "Substitute s (PrimitiveTy p) = PrimitiveTy p"
| "Substitute s (TypeParameter p) =
     (case s (TypeParameter_Key p) of Some r \<Rightarrow> r | None \<Rightarrow> TypeParameter p)"
| "Substitute s (DefinedType m n u g ts) =
     DefinedType m n (Substitute s u) g (map (Substitute s) ts)"
| "Substitute s (AliasRef r m n) = AliasRef r m n"
| "Substitute s (PointerType b mu) = PointerType (Substitute s b) mu"
| "Substitute s (SliceType b mu) = SliceType (Substitute s b) mu"
| "Substitute s (ArrayType b l) = ArrayType (Substitute s b) l"
| "Substitute s (SequenceType b l) = SequenceType b l"
| "Substitute s (StructType fs p tu) =
     StructType (map (map_prod id (Substitute s)) fs) p
       (map_option (map_tagged_union_info (Substitute s)) tu)"
| "Substitute s (UnionType m n fs) = UnionType m n (map (map_prod id (Substitute s)) fs)"
| "Substitute s (EnumType m n i vs ws) = EnumType m n i vs ws"
| "Substitute s (FlagsType p vs ws) = FlagsType p vs ws"
| "Substitute s (TraitTy t) = TraitTy (map_trait_type (Substitute s) t)"
| "Substitute s (TraitPointerType t mu) = TraitPointerType (map_trait_type (Substitute s) t) mu"
| "Substitute s (FunctionType ps r v ve) =
     FunctionType (map (Substitute s) ps) (Substitute s r) v (Substitute s ve)"
| "Substitute s (MultipleReturnType ts) = MultipleReturnType (map (Substitute s) ts)"

text \<open>
  \<open>SubstituteParameters\<close>: a nil binding counts as none; every other node is detached; the
  constraint of an unbound parameter is substituted, the generic constraints of a trait method
  are only detached. The code calls itself on the children of the detached node; since the
  call detaches its argument again, that is the call on the child itself, and the equations
  below recurse on the children. \<open>SubstituteParameters_detached\<close> and
  \<open>SubstituteParameters_code\<close> recover the code's own shape.
\<close>

definition method_pick :: "(ty \<times> ty) trait_method \<Rightarrow> ty trait_method" where
  "method_pick m =
     TraitMethod (tm_Name m) (map (map_type_parameter fst) (tm_GenericParameters m))
       (tm_Receiver m) (map snd (tm_Parameters m)) (snd (tm_ReturnType m)) (tm_HasDefault m)"

definition trait_pick :: "(ty \<times> ty) trait_type \<Rightarrow> ty trait_type" where
  "trait_pick t = Trait (tr_Module t) (tr_Name t) (map method_pick (tr_Methods t)) (tr_Any t)"

primrec SubstituteParameters :: "(string \<rightharpoonup> ty) \<Rightarrow> ty \<Rightarrow> ty" where
  "SubstituteParameters s NilType = NilType"
| "SubstituteParameters s SelfType = SelfType"
| "SubstituteParameters s NoInitializerType = NoInitializerType"
| "SubstituteParameters s OpaqueType = OpaqueType"
| "SubstituteParameters s ErrorType = ErrorType"
| "SubstituteParameters s UntypedInt = UntypedInt"
| "SubstituteParameters s UntypedFloat = UntypedFloat"
| "SubstituteParameters s UnresolvedEnum = UnresolvedEnum"
| "SubstituteParameters s (PrimitiveTy p) = PrimitiveTy p"
| "SubstituteParameters s (TypeParameter p) =
     (let kept = TypeParameter (map_type_parameter (SubstituteParameters s) p)
      in case s (TypeParameter_Key p) of
           None \<Rightarrow> kept
         | Some r \<Rightarrow> if r = NilType then kept else r)"
| "SubstituteParameters s (DefinedType m n u g ts) =
     DefinedType m n (SubstituteParameters s u) g (map (SubstituteParameters s) ts)"
| "SubstituteParameters s (AliasRef r m n) = AliasRef None m n"
| "SubstituteParameters s (PointerType b mu) = PointerType (SubstituteParameters s b) mu"
| "SubstituteParameters s (SliceType b mu) = SliceType (SubstituteParameters s b) mu"
| "SubstituteParameters s (ArrayType b l) = ArrayType (SubstituteParameters s b) l"
| "SubstituteParameters s (SequenceType b l) = SequenceType (SubstituteParameters s b) l"
| "SubstituteParameters s (StructType fs p tu) =
     StructType (map (map_prod id (SubstituteParameters s)) fs) p
       (map_option (map_tagged_union_info (SubstituteParameters s)) tu)"
| "SubstituteParameters s (UnionType m n fs) =
     UnionType m n (map (map_prod id (SubstituteParameters s)) fs)"
| "SubstituteParameters s (EnumType m n i vs ws) = EnumType m n i vs ws"
| "SubstituteParameters s (FlagsType p vs ws) = FlagsType p vs ws"
| "SubstituteParameters s (TraitTy t) =
     TraitTy (trait_pick
       (map_trait_type (\<lambda>x. (DetachForSerialization x, SubstituteParameters s x)) t))"
| "SubstituteParameters s (TraitPointerType t mu) =
     TraitPointerType (trait_pick
       (map_trait_type (\<lambda>x. (DetachForSerialization x, SubstituteParameters s x)) t)) mu"
| "SubstituteParameters s (FunctionType ps r v ve) =
     FunctionType (map (SubstituteParameters s) ps) (SubstituteParameters s r) v
       (SubstituteParameters s ve)"
| "SubstituteParameters s (MultipleReturnType ts) =
     MultipleReturnType (map (SubstituteParameters s) ts)"

lemma Detach_idem [simp]:
  "DetachForSerialization (DetachForSerialization t) = DetachForSerialization t"
  by (induction t)
     (auto simp: type_parameter.map_comp tagged_union_info.map_comp trait_type.map_comp
        option.map_comp comp_def
        intro!: type_parameter.map_cong option.map_cong tagged_union_info.map_cong
          trait_type.map_cong)

lemma SubstituteParameters_detached [simp]:
  "SubstituteParameters s (DetachForSerialization t) = SubstituteParameters s t"
  by (induction t)
     (auto simp: type_parameter.map_comp tagged_union_info.map_comp trait_type.map_comp
        option.map_comp comp_def TypeParameter_Key_def type_parameter.map_sel Let_def
        intro!: type_parameter.map_cong option.map_cong tagged_union_info.map_cong
          trait_type.map_cong arg_cong [where f = trait_pick]
        cong: type_parameter.map_cong trait_type.map_cong
        split: option.splits)

text \<open>The code's own shape on the composite nodes: detach, then substitute the children.\<close>

lemma SubstituteParameters_code:
  "SubstituteParameters s (PointerType b mu) =
     PointerType (SubstituteParameters s (DetachForSerialization b)) mu"
  "SubstituteParameters s (DefinedType m n u g ts) =
     DefinedType m n (SubstituteParameters s (DetachForSerialization u)) g
       (map (SubstituteParameters s) (map DetachForSerialization ts))"
  "SubstituteParameters s (UnionType m n fs) =
     UnionType m n (map (map_prod id (SubstituteParameters s))
       (map (map_prod id DetachForSerialization) fs))"
  "SubstituteParameters s (FunctionType ps r v ve) =
     FunctionType (map (SubstituteParameters s) (map DetachForSerialization ps))
       (SubstituteParameters s (DetachForSerialization r)) v
       (SubstituteParameters s (DetachForSerialization ve))"
  by auto

section \<open>The Self placeholder\<close>

primrec SubstituteSelf :: "ty \<Rightarrow> ty \<Rightarrow> ty" where
  "SubstituteSelf NilType r = NilType"
| "SubstituteSelf SelfType r = r"
| "SubstituteSelf NoInitializerType r = NoInitializerType"
| "SubstituteSelf OpaqueType r = OpaqueType"
| "SubstituteSelf ErrorType r = ErrorType"
| "SubstituteSelf UntypedInt r = UntypedInt"
| "SubstituteSelf UntypedFloat r = UntypedFloat"
| "SubstituteSelf UnresolvedEnum r = UnresolvedEnum"
| "SubstituteSelf (PrimitiveTy p) r = PrimitiveTy p"
| "SubstituteSelf (TypeParameter p) r = TypeParameter p"
| "SubstituteSelf (DefinedType m n u g ts) r =
     DefinedType m n (SubstituteSelf u r) g (map (\<lambda>x. SubstituteSelf x r) ts)"
| "SubstituteSelf (AliasRef a m n) r = AliasRef a m n"
| "SubstituteSelf (PointerType b mu) r = PointerType (SubstituteSelf b r) mu"
| "SubstituteSelf (SliceType b mu) r = SliceType (SubstituteSelf b r) mu"
| "SubstituteSelf (ArrayType b l) r = ArrayType (SubstituteSelf b r) l"
| "SubstituteSelf (SequenceType b l) r = SequenceType b l"
| "SubstituteSelf (StructType fs p tu) r =
     StructType (map (map_prod id (\<lambda>x. SubstituteSelf x r)) fs) p
       (map_option (map_tagged_union_info (\<lambda>x. SubstituteSelf x r)) tu)"
| "SubstituteSelf (UnionType m n fs) r =
     UnionType m n (map (map_prod id (\<lambda>x. SubstituteSelf x r)) fs)"
| "SubstituteSelf (EnumType m n i vs ws) r = EnumType m n i vs ws"
| "SubstituteSelf (FlagsType p vs ws) r = FlagsType p vs ws"
| "SubstituteSelf (TraitTy t) r = TraitTy t"
| "SubstituteSelf (TraitPointerType t mu) r = TraitPointerType t mu"
| "SubstituteSelf (FunctionType ps ret v ve) r =
     FunctionType (map (\<lambda>x. SubstituteSelf x r) ps) (SubstituteSelf ret r) v (SubstituteSelf ve r)"
| "SubstituteSelf (MultipleReturnType ts) r = MultipleReturnType (map (\<lambda>x. SubstituteSelf x r) ts)"

fun HasSelfType :: "ty \<Rightarrow> bool" where
  "HasSelfType SelfType = True"
| "HasSelfType (DefinedType m n u g ts) = list_ex HasSelfType ts"
| "HasSelfType (PointerType b mu) = HasSelfType b"
| "HasSelfType (SliceType b mu) = HasSelfType b"
| "HasSelfType (ArrayType b l) = HasSelfType b"
| "HasSelfType (StructType fs p tu) = list_ex (\<lambda>f. HasSelfType (snd f)) fs"
| "HasSelfType (UnionType m n fs) = list_ex (\<lambda>f. HasSelfType (snd f)) fs"
| "HasSelfType (FunctionType ps r v ve) \<longleftrightarrow> list_ex HasSelfType ps \<or> HasSelfType r"
| "HasSelfType (MultipleReturnType ts) = list_ex HasSelfType ts"
| "HasSelfType _ = False"

fun HasTypeParameter :: "ty \<Rightarrow> bool" where
  "HasTypeParameter (TypeParameter p) = True"
| "HasTypeParameter (DefinedType m n u g ts) = list_ex HasTypeParameter ts"
| "HasTypeParameter (PointerType b mu) = HasTypeParameter b"
| "HasTypeParameter (SliceType b mu) = HasTypeParameter b"
| "HasTypeParameter (ArrayType b l) = HasTypeParameter b"
| "HasTypeParameter (StructType fs p tu) = list_ex (\<lambda>f. HasTypeParameter (snd f)) fs"
| "HasTypeParameter (UnionType m n fs) = list_ex (\<lambda>f. HasTypeParameter (snd f)) fs"
| "HasTypeParameter (FunctionType ps r v ve) \<longleftrightarrow> list_ex HasTypeParameter ps \<or> HasTypeParameter r"
| "HasTypeParameter (MultipleReturnType ts) = list_ex HasTypeParameter ts"
| "HasTypeParameter _ = False"

text \<open>\<open>TraitType.DynamicIncompatibility\<close>: the first method that rules out \<open>dyn\<close>.\<close>

fun methods_incompatibility :: "ty trait_method list \<Rightarrow> string \<times> string \<times> bool" where
  "methods_incompatibility [] = ([], [], False)"
| "methods_incompatibility (m # ms) =
     (if tm_GenericParameters m \<noteq> [] then (tm_Name m, ''is generic'', True)
      else if HasSelfType (tm_ReturnType m) \<or> list_ex HasSelfType (tm_Parameters m)
      then (tm_Name m, ''uses Self outside its receiver'', True)
      else methods_incompatibility ms)"

definition DynamicIncompatibility :: "ty trait_type \<Rightarrow> string \<times> string \<times> bool" where
  "DynamicIncompatibility t = methods_incompatibility (tr_Methods t)"

lemma methods_compatible_iff:
  "\<not> snd (snd (methods_incompatibility ms)) \<longleftrightarrow>
   (\<forall>m \<in> set ms. tm_GenericParameters m = [] \<and> \<not> HasSelfType (tm_ReturnType m) \<and>
      (\<forall>p \<in> set (tm_Parameters m). \<not> HasSelfType p))"
  by (induction ms) (auto simp: list_ex_iff)

section \<open>What the substitutions do\<close>

text \<open>The keys of the parameters that \<open>Substitute\<close> visits.\<close>

primrec parameters :: "ty \<Rightarrow> string set" where
  "parameters NilType = {}"
| "parameters SelfType = {}"
| "parameters NoInitializerType = {}"
| "parameters OpaqueType = {}"
| "parameters ErrorType = {}"
| "parameters UntypedInt = {}"
| "parameters UntypedFloat = {}"
| "parameters UnresolvedEnum = {}"
| "parameters (PrimitiveTy p) = {}"
| "parameters (TypeParameter p) = {TypeParameter_Key p}"
| "parameters (DefinedType m n u g ts) = parameters u \<union> \<Union> (set (map parameters ts))"
| "parameters (AliasRef r m n) = {}"
| "parameters (PointerType b mu) = parameters b"
| "parameters (SliceType b mu) = parameters b"
| "parameters (ArrayType b l) = parameters b"
| "parameters (SequenceType b l) = {}"
| "parameters (StructType fs p tu) =
     \<Union> (snd ` set (map (map_prod id parameters) fs)) \<union>
     \<Union> (\<Union> (set_tagged_union_info ` set_option (map_option (map_tagged_union_info parameters) tu)))"
| "parameters (UnionType m n fs) = \<Union> (snd ` set (map (map_prod id parameters) fs))"
| "parameters (EnumType m n i vs ws) = {}"
| "parameters (FlagsType p vs ws) = {}"
| "parameters (TraitTy t) = \<Union> (set_trait_type (map_trait_type parameters t))"
| "parameters (TraitPointerType t mu) = \<Union> (set_trait_type (map_trait_type parameters t))"
| "parameters (FunctionType ps r v ve) =
     \<Union> (set (map parameters ps)) \<union> parameters r \<union> parameters ve"
| "parameters (MultipleReturnType ts) = \<Union> (set (map parameters ts))"

lemmas nested_maps =
  type_parameter.map_comp tagged_union_variant.map_comp tagged_union_info.map_comp
  trait_method.map_comp trait_type.map_comp option.map_comp comp_def
  type_parameter.set_map tagged_union_info.set_map trait_type.set_map

lemma parameters_fields [simp]:
  "\<Union> (snd ` map_prod id parameters ` set fs) = (\<Union>f \<in> set fs. parameters (snd f))"
  by (auto simp: image_image)

lemma parameters_info [simp]:
  "(\<Union>i \<in> set_option (map_option (map_tagged_union_info g) tu). set_tagged_union_info i) =
   (\<Union>i \<in> set_option tu. g ` set_tagged_union_info i)"
  by (cases tu) (auto simp: tagged_union_info.set_map)

lemma Substitute_parameters:
  "parameters (Substitute s t) =
   (\<Union>k \<in> parameters t. case s k of None \<Rightarrow> {k} | Some r \<Rightarrow> parameters r)"
proof (induction t)
  case (StructType fs p tu)
  have "parameters (Substitute s (snd f)) =
      (\<Union>k \<in> parameters (snd f). case s k of None \<Rightarrow> {k} | Some r \<Rightarrow> parameters r)"
    if "f \<in> set fs" for f
    using StructType.IH(1) [of f "snd f"] that by (cases f) auto
  with StructType.IH(2) show ?case
    by (cases tu; simp add: image_image UN_Un UN_UN_flatten nested_maps cong: SUP_cong; simp)
next
  case (UnionType m n fs)
  have "parameters (Substitute s (snd f)) =
      (\<Union>k \<in> parameters (snd f). case s k of None \<Rightarrow> {k} | Some r \<Rightarrow> parameters r)"
    if "f \<in> set fs" for f
    using UnionType.IH [of f "snd f"] that by (cases f) auto
  then show ?case by (simp add: image_image UN_UN_flatten cong: SUP_cong)
next
  case (TypeParameter p)
  then show ?case by (cases "s (TypeParameter_Key p)") simp_all
qed (simp_all add: nested_maps image_image UN_Un UN_UN_flatten cong: SUP_cong)

lemma Substitute_cong_id:
  "\<forall>k \<in> parameters t. s k = None \<Longrightarrow> Substitute s t = t"
proof (induction t)
  case (StructType fs p tu)
  have "map (map_prod id (Substitute s)) fs = fs"
  proof (rule map_idI)
    fix f assume f: "f \<in> set fs"
    then have "\<forall>k \<in> parameters (snd f). s k = None" using StructType.prems by (simp add: ball_Un)
    with f have "Substitute s (snd f) = snd f"
      using StructType.IH(1) [of f "snd f"] by (simp add: snds.intros)
    then show "map_prod id (Substitute s) f = f" by (cases f) simp
  qed
  moreover have "map_option (map_tagged_union_info (Substitute s)) tu = tu"
  proof (cases tu)
    case (Some i)
    have "Substitute s x = x" if "x \<in> set_tagged_union_info i" for x
      using that Some StructType.prems
      by (intro StructType.IH(2)) (auto simp: ball_Un tagged_union_info.set_map)
    with Some show ?thesis by (simp add: tagged_union_info.map_ident_strong)
  qed simp
  ultimately show ?case by simp
next
  case (UnionType m n fs)
  have "map (map_prod id (Substitute s)) fs = fs"
  proof (rule map_idI)
    fix f assume f: "f \<in> set fs"
    then have "\<forall>k \<in> parameters (snd f). s k = None" using UnionType.prems by (simp add: ball_Un)
    with f have "Substitute s (snd f) = snd f"
      using UnionType.IH [of f "snd f"] by (simp add: snds.intros)
    then show "map_prod id (Substitute s) f = f" by (cases f) simp
  qed
  then show ?case by simp
qed (simp_all add: nested_maps map_idI trait_type.map_ident_strong ball_Un)

lemma Substitute_compose:
  "Substitute s2 (Substitute s1 t) =
   Substitute (\<lambda>k. case s1 k of Some r \<Rightarrow> Some (Substitute s2 r) | None \<Rightarrow> s2 k) t"
  by (induction t)
     (auto simp: nested_maps intro!: option.map_cong tagged_union_info.map_cong trait_type.map_cong
        split: option.splits)

lemma HasTypeParameter_parameters: "HasTypeParameter t \<Longrightarrow> parameters t \<noteq> {}"
proof (induction t)
  case (StructType fs p tu)
  then obtain f where f: "f \<in> set fs" "HasTypeParameter (snd f)" by (auto simp: list_ex_iff)
  then have "parameters (snd f) \<noteq> {}" by (intro StructType.IH(1) [of f]) (cases f; simp)+
  with f show ?case by auto
next
  case (UnionType m n fs)
  then obtain f where f: "f \<in> set fs" "HasTypeParameter (snd f)" by (auto simp: list_ex_iff)
  then have "parameters (snd f) \<noteq> {}" by (intro UnionType.IH [of f]) (cases f; simp)+
  with f show ?case by auto
qed (fastforce simp: list_ex_iff)+

lemma SubstituteSelf_HasSelfType:
  "HasSelfType (SubstituteSelf t r) \<longleftrightarrow> HasSelfType t \<and> HasSelfType r"
proof (induction t)
  case (StructType fs p tu)
  have "HasSelfType (SubstituteSelf (snd f) r) \<longleftrightarrow> HasSelfType (snd f) \<and> HasSelfType r"
    if "f \<in> set fs" for f
    using StructType.IH(1) [of f "snd f"] that by (cases f) auto
  then show ?case by (auto simp: list_ex_iff)
next
  case (UnionType m n fs)
  have "HasSelfType (SubstituteSelf (snd f) r) \<longleftrightarrow> HasSelfType (snd f) \<and> HasSelfType r"
    if "f \<in> set fs" for f
    using UnionType.IH [of f "snd f"] that by (cases f) auto
  then show ?case by (auto simp: list_ex_iff)
qed (auto simp: list_ex_iff)

end
