(* ===== verification/Types_Subst_Properties.thy ===== *)
theory Types_Subst_Properties
  imports Types_Subst
begin

text \<open>The properties of the type traversals that the manifest names.\<close>

lemma Detach_parameters [simp]: "parameters (DetachForSerialization t) = parameters t"
proof (induction t)
  case (StructType fs p tu)
  have "parameters (DetachForSerialization (snd f)) = parameters (snd f)" if "f \<in> set fs" for f
    using StructType.IH(1) [of f "snd f"] that by (simp add: snds.intros)
  with StructType.IH(2) show ?case
    by (cases tu; simp add: image_image nested_maps cong: SUP_cong; simp)
next
  case (UnionType m n fs)
  have "parameters (DetachForSerialization (snd f)) = parameters (snd f)" if "f \<in> set fs" for f
    using UnionType.IH [of f "snd f"] that by (simp add: snds.intros)
  then show ?case by (simp add: image_image cong: SUP_cong)
next
  case (TypeParameter p)
  then show ?case by (simp add: TypeParameter_Key_def type_parameter.map_sel)
qed (simp_all add: nested_maps image_image cong: SUP_cong)

lemma Detach_Substitute:
  "DetachForSerialization (Substitute s t) =
   Substitute (\<lambda>k. map_option DetachForSerialization (s k)) (DetachForSerialization t)"
  by (induction t)
     (auto simp: nested_maps TypeParameter_Key_def type_parameter.map_sel
        intro!: option.map_cong type_parameter.map_cong tagged_union_info.map_cong
          trait_type.map_cong
        split: option.splits)

text \<open>
  C31: \<open>Substitute\<close> replaces exactly the bound parameters: the parameters of the result are
  the unbound parameters of the type and the parameters of the replacements; substituting
  twice is substituting once with the composed bindings, and a substitution that binds none of
  the parameters is the identity.
\<close>

theorem substitution_laws:
  "parameters (Substitute s t) =
     (\<Union>k \<in> parameters t. case s k of None \<Rightarrow> {k} | Some r \<Rightarrow> parameters r) \<and>
   Substitute s2 (Substitute s t) =
     Substitute (\<lambda>k. case s k of Some r \<Rightarrow> Some (Substitute s2 r) | None \<Rightarrow> s2 k) t \<and>
   Substitute (s |` (- parameters t)) t = t"
  using Substitute_parameters Substitute_compose Substitute_cong_id [of t "s |` (- parameters t)"]
  by (simp add: restrict_map_def)

text \<open>
  C32: a module interface that is written out and read back is instantiated like the one in
  memory: detaching is idempotent, keeps the type parameters, commutes with \<open>Substitute\<close>, and
  \<open>SubstituteParameters\<close> does not see whether its argument was detached before.
\<close>

theorem detached_interfaces_instantiate_alike:
  "DetachForSerialization (DetachForSerialization t) = DetachForSerialization t \<and>
   parameters (DetachForSerialization t) = parameters t \<and>
   DetachForSerialization (Substitute s t) =
     Substitute (\<lambda>k. map_option DetachForSerialization (s k)) (DetachForSerialization t) \<and>
   SubstituteParameters s (DetachForSerialization t) = SubstituteParameters s t"
  using Detach_Substitute by simp

text \<open>
  once a concrete type is put for Self no part that \<open>HasSelfType\<close> looks at depends on
  Self any more, and only then: the result depends on Self exactly when the signature did and
  the replacement does.
\<close>

theorem self_is_eliminated:
  "HasSelfType (SubstituteSelf t r) \<longleftrightarrow> HasSelfType t \<and> HasSelfType r"
  by (rule SubstituteSelf_HasSelfType)

text \<open>What makes a method unfit for \<open>dyn\<close>, and the reason the user is given.\<close>

definition self_outside_receiver :: "ty trait_method \<Rightarrow> bool" where
  "self_outside_receiver m \<longleftrightarrow>
     HasSelfType (tm_ReturnType m) \<or> (\<exists>p \<in> set (tm_Parameters m). HasSelfType p)"

definition unfit_for_dyn :: "ty trait_method \<Rightarrow> bool" where
  "unfit_for_dyn m \<longleftrightarrow> tm_GenericParameters m \<noteq> [] \<or> self_outside_receiver m"

lemma methods_incompatibility_find:
  "methods_incompatibility ms =
    (case List.find unfit_for_dyn ms of
       None \<Rightarrow> ([], [], False)
     | Some m \<Rightarrow> (tm_Name m, if tm_GenericParameters m \<noteq> [] then ''is generic''
          else ''uses Self outside its receiver'', True))"
  by (induction ms) (auto simp: unfit_for_dyn_def self_outside_receiver_def list_ex_iff)

text \<open>
  \<open>DynamicIncompatibility\<close> accepts a trait for \<open>dyn\<close> exactly when every method is
  monomorphic and mentions Self only as receiver, and otherwise it names the first method, in
  declaration order, that is not.
\<close>

theorem dynamic_compatibility_decided:
  "DynamicIncompatibility tr =
    (case List.find unfit_for_dyn (tr_Methods tr) of
       None \<Rightarrow> ([], [], False)
     | Some m \<Rightarrow> (tm_Name m, if tm_GenericParameters m \<noteq> [] then ''is generic''
          else ''uses Self outside its receiver'', True)) \<and>
   (snd (snd (DynamicIncompatibility tr)) \<longleftrightarrow> (\<exists>m \<in> set (tr_Methods tr). unfit_for_dyn m))"
proof (cases "List.find unfit_for_dyn (tr_Methods tr)")
  case None
  then have "\<forall>m \<in> set (tr_Methods tr). \<not> unfit_for_dyn m" by (simp add: find_None_iff)
  with None show ?thesis by (simp add: DynamicIncompatibility_def methods_incompatibility_find)
next
  case (Some m)
  then have "m \<in> set (tr_Methods tr)" "unfit_for_dyn m" by (auto simp: find_Some_iff)
  with Some show ?thesis
    by (auto simp: DynamicIncompatibility_def methods_incompatibility_find)
qed

end
