(* ===== verification/Types_Numeric.thy ===== *)
theory Types_Numeric
  imports Types_Syntax
begin

text \<open>
  The arithmetic types of \<^verbatim>\<open>src/types/type.go\<close>: classification and ranks of the primitive
  types, the coercions and casts between them, and the wider of two integers.
\<close>

section \<open>Classification\<close>

text \<open>
  \<open>IsSigned\<close>, \<open>IsUnsigned\<close>, \<open>IsInteger\<close>, \<open>IsFloat\<close> and \<open>IsNumeric\<close> at a primitive
  type; \<^verbatim>\<open>Types_Compat\<close> has the functions on all types and shows that they agree.
\<close>

definition prim_signed :: "PrimitiveType \<Rightarrow> bool" where
  "prim_signed p \<longleftrightarrow>
     p = PrimitiveI8 \<or> p = PrimitiveI16 \<or> p = PrimitiveI32 \<or> p = PrimitiveI64 \<or> p = PrimitiveIsz"

definition prim_unsigned :: "PrimitiveType \<Rightarrow> bool" where
  "prim_unsigned p \<longleftrightarrow>
     p = PrimitiveU8 \<or> p = PrimitiveU16 \<or> p = PrimitiveU32 \<or> p = PrimitiveU64 \<or> p = PrimitiveUsz"

definition prim_integer :: "PrimitiveType \<Rightarrow> bool" where
  "prim_integer p \<longleftrightarrow> prim_signed p \<or> prim_unsigned p"

definition prim_float :: "PrimitiveType \<Rightarrow> bool" where
  "prim_float p \<longleftrightarrow> p = PrimitiveF32 \<or> p = PrimitiveF64"

definition prim_numeric :: "PrimitiveType \<Rightarrow> bool" where
  "prim_numeric p \<longleftrightarrow> prim_integer p \<or> prim_float p"

fun IntegerRank :: "PrimitiveType \<Rightarrow> int" where
  "IntegerRank PrimitiveI8 = 1"
| "IntegerRank PrimitiveU8 = 1"
| "IntegerRank PrimitiveI16 = 2"
| "IntegerRank PrimitiveU16 = 2"
| "IntegerRank PrimitiveI32 = 3"
| "IntegerRank PrimitiveU32 = 3"
| "IntegerRank PrimitiveI64 = 4"
| "IntegerRank PrimitiveU64 = 4"
| "IntegerRank PrimitiveIsz = 5"
| "IntegerRank PrimitiveUsz = 5"
| "IntegerRank _ = 0"

fun FloatRank :: "PrimitiveType \<Rightarrow> int" where
  "FloatRank PrimitiveF32 = 1"
| "FloatRank PrimitiveF64 = 2"
| "FloatRank _ = 0"

lemmas prim_classes = prim_signed_def prim_unsigned_def prim_integer_def prim_float_def prim_numeric_def

section \<open>Coercions and casts\<close>

text \<open>The part of \<open>PrimitiveType.CanCoerceTo\<close> below the type assertion.\<close>

definition prim_coerces :: "PrimitiveType \<Rightarrow> PrimitiveType \<Rightarrow> bool" where
  "prim_coerces p q =
    (if p = q then True
     else if prim_integer p \<and> prim_integer q then
       (if p = PrimitiveIsz \<and> prim_signed q \<or> q = PrimitiveUsz then True
        else if prim_signed p \<and> prim_signed q then IntegerRank p \<le> IntegerRank q
        else if prim_unsigned p \<and> prim_unsigned q then IntegerRank p \<le> IntegerRank q
        else False)
     else if prim_integer p \<and> prim_float q then True
     else if prim_float p \<and> prim_float q then FloatRank p \<le> FloatRank q
     else False)"

definition PrimitiveType_CanCoerceTo :: "PrimitiveType \<Rightarrow> ty \<Rightarrow> bool" where
  "PrimitiveType_CanCoerceTo p t = (case t of PrimitiveTy q \<Rightarrow> prim_coerces p q | _ \<Rightarrow> False)"

definition prim_casts :: "PrimitiveType \<Rightarrow> PrimitiveType \<Rightarrow> bool" where
  "prim_casts p q =
    (if p = q then True
     else if p = PrimitiveBool \<and> prim_integer q \<or> prim_integer p \<and> q = PrimitiveBool then True
     else if prim_numeric p \<and> prim_numeric q then True
     else False)"

definition PrimitiveType_CanCastTo :: "PrimitiveType \<Rightarrow> ty \<Rightarrow> bool" where
  "PrimitiveType_CanCastTo p t =
    (case t of
       PointerType _ _ \<Rightarrow> prim_integer p
     | PrimitiveTy q \<Rightarrow> prim_casts p q
     | _ \<Rightarrow> False)"

text \<open>\<open>widerSigned\<close> and \<open>widerUnsigned\<close> panic on operands of the wrong kind.\<close>

definition widerSigned :: "PrimitiveType \<Rightarrow> PrimitiveType \<Rightarrow> PrimitiveType run" where
  "widerSigned a b =
    (if \<not> prim_signed a \<or> \<not> prim_signed b then None
     else Some (if IntegerRank a \<ge> IntegerRank b then a else b))"

definition widerUnsigned :: "PrimitiveType \<Rightarrow> PrimitiveType \<Rightarrow> PrimitiveType run" where
  "widerUnsigned a b =
    (if \<not> prim_unsigned a \<or> \<not> prim_unsigned b then None
     else Some (if IntegerRank a \<ge> IntegerRank b then a else b))"

definition PromoteIntegers :: "PrimitiveType \<Rightarrow> PrimitiveType \<Rightarrow> ty run" where
  "PromoteIntegers a b =
    (if prim_signed a \<and> prim_signed b then map_option PrimitiveTy (widerSigned a b)
     else if prim_unsigned a \<and> prim_unsigned b then map_option PrimitiveTy (widerUnsigned a b)
     else Some ErrorType)"

lemma PromoteIntegers_returns [simp]: "PromoteIntegers a b \<noteq> None"
  by (simp add: PromoteIntegers_def widerSigned_def widerUnsigned_def)

section \<open>The values of the fixed-width integers\<close>

text \<open>The width in bits; \<open>isz\<close> and \<open>usz\<close> have the width \<open>w\<close> of a pointer.\<close>

fun int_bits :: "nat \<Rightarrow> PrimitiveType \<Rightarrow> nat" where
  "int_bits w PrimitiveI8 = 8"
| "int_bits w PrimitiveU8 = 8"
| "int_bits w PrimitiveI16 = 16"
| "int_bits w PrimitiveU16 = 16"
| "int_bits w PrimitiveI32 = 32"
| "int_bits w PrimitiveU32 = 32"
| "int_bits w PrimitiveI64 = 64"
| "int_bits w PrimitiveU64 = 64"
| "int_bits w _ = w"

definition int_values :: "nat \<Rightarrow> PrimitiveType \<Rightarrow> int set" where
  "int_values w p =
    (if prim_signed p then {- (2 ^ (int_bits w p - 1)) ..< 2 ^ (int_bits w p - 1)}
     else {0 ..< 2 ^ int_bits w p})"

definition fixed_width :: "PrimitiveType \<Rightarrow> bool" where
  "fixed_width p \<longleftrightarrow> prim_integer p \<and> p \<noteq> PrimitiveIsz \<and> p \<noteq> PrimitiveUsz"

lemma fixed_width_simps [simp]:
  "fixed_width PrimitiveI8" "fixed_width PrimitiveI16" "fixed_width PrimitiveI32"
  "fixed_width PrimitiveI64" "fixed_width PrimitiveU8" "fixed_width PrimitiveU16"
  "fixed_width PrimitiveU32" "fixed_width PrimitiveU64" "\<not> fixed_width PrimitiveIsz"
  "\<not> fixed_width PrimitiveUsz" "\<not> fixed_width PrimitiveF32" "\<not> fixed_width PrimitiveF64"
  "\<not> fixed_width PrimitiveVoid" "\<not> fixed_width PrimitiveBool"
  by (simp_all add: fixed_width_def prim_classes)

lemma coerces_preserves_values:
  "fixed_width p \<Longrightarrow> fixed_width q \<Longrightarrow> prim_coerces p q \<longleftrightarrow>
     prim_signed p = prim_signed q \<and> int_values w p \<subseteq> int_values w q"
  by (cases p; cases q; simp add: prim_coerces_def prim_classes int_values_def)

text \<open>
  The rules for the pointer-sized integers do not look at the values; all conversions, and
  those among them that can lose a value.
\<close>

lemma integer_coercion_table:
  assumes "prim_integer p" and "prim_integer q" and "w = 32 \<or> w = 64"
  shows "prim_coerces p q =
      (if q = PrimitiveUsz then True
       else if p = PrimitiveUsz then False
       else if p = PrimitiveIsz \<or> q = PrimitiveIsz then prim_signed p \<and> prim_signed q
       else prim_signed p = prim_signed q \<and> int_values w p \<subseteq> int_values w q) \<and>
    (prim_coerces p q \<and> \<not> int_values w p \<subseteq> int_values w q \<longleftrightarrow>
       (prim_signed p \<and> q = PrimitiveUsz) \<or>
       (p = PrimitiveIsz \<and> prim_signed q \<and> int_bits w q < w) \<or>
       (w = 32 \<and> (p, q) \<in> {(PrimitiveU64, PrimitiveUsz), (PrimitiveI64, PrimitiveIsz)}))"
  using assms(3)
proof
  assume w: "w = 32"
  from assms(1,2) show ?thesis
    unfolding w by (cases p; cases q; simp add: prim_coerces_def prim_classes int_values_def)
next
  assume w: "w = 64"
  from assms(1,2) show ?thesis
    unfolding w by (cases p; cases q; simp add: prim_coerces_def prim_classes int_values_def)
qed

lemma coerces_refl [simp]: "prim_coerces p p"
  by (simp add: prim_coerces_def)

end
