(* ===== verification/Types_Compat.thy ===== *)
theory Types_Compat
  imports Types_Numeric
begin

text \<open>
  Type compatibility in \<^verbatim>\<open>src/types/type.go\<close>: \<open>Underlying\<close> and the interface methods
  \<open>Equals\<close>, \<open>CanCoerceTo\<close> and \<open>CanCastTo\<close> of every type, with \<open>castCompatible\<close>,
  \<open>CanExplicitCast\<close> and numeric promotion.

  Every Go method is a definition whose first arguments are the calls it makes; the dispatch
  \<open>Equals_step\<close>, \<open>CanCoerceTo_step\<close>, \<open>CanCastTo_step\<close> selects the method by the dynamic
  type of the receiver, and the recursive function is its least fixed point. A method call on a
  nil interface panics, so it does not return.
\<close>

section \<open>Aliases and underlying types\<close>

text \<open>\<open>alias_target\<close>: the type behind a reference, \<open>None\<close> while it is not resolved.\<close>

definition alias_target :: "alias_store \<Rightarrow> alias_ptr option \<Rightarrow> ty option" where
  "alias_target \<sigma> r =
    (case r of
       None \<Rightarrow> None
     | Some p \<Rightarrow> (case \<sigma> p of None \<Rightarrow> None | Some u \<Rightarrow> if u = NilType then None else Some u))"

partial_function (option) Underlying :: "alias_store \<Rightarrow> ty \<Rightarrow> ty run" where
  "Underlying \<sigma> t =
    (case t of
       DefinedType m n u g ts \<Rightarrow> Underlying \<sigma> u
     | AliasRef r m n \<Rightarrow>
         (case alias_target \<sigma> r of None \<Rightarrow> Some t | Some u \<Rightarrow> Underlying \<sigma> u)
     | _ \<Rightarrow> Some t)"

declare Underlying.simps [code]

fun is_named :: "ty \<Rightarrow> bool" where
  "is_named (DefinedType _ _ _ _ _) = True"
| "is_named (AliasRef _ _ _) = True"
| "is_named _ = False"

lemma Underlying_simps [simp]:
  "Underlying \<sigma> (DefinedType m n u g ts) = Underlying \<sigma> u"
  "Underlying \<sigma> (AliasRef r m n) =
     (case alias_target \<sigma> r of None \<Rightarrow> Some (AliasRef r m n) | Some u \<Rightarrow> Underlying \<sigma> u)"
  by (subst Underlying.simps; simp)+

lemma Underlying_other [simp]: "\<not> is_named t \<Longrightarrow> Underlying \<sigma> t = Some t"
  by (subst Underlying.simps) (cases t; simp)

section \<open>Equality\<close>


definition TypeParameter_Equals :: "ty type_parameter \<Rightarrow> ty \<Rightarrow> bool" where
  "TypeParameter_Equals p t =
    (case t of TypeParameter q \<Rightarrow> tp_Owner p = tp_Owner q \<and> tp_Index p = tp_Index q | _ \<Rightarrow> False)"

definition AliasRef_Equals ::
  "alias_store \<Rightarrow> (ty \<Rightarrow> ty \<Rightarrow> bool run) \<Rightarrow> alias_ptr option \<Rightarrow> string \<Rightarrow> string \<Rightarrow> ty \<Rightarrow> bool run" where
  "AliasRef_Equals \<sigma> eq r m n t =
    (if (case t of
           AliasRef r' m' n' \<Rightarrow> m = m' \<and> n = n'
         | DefinedType m' n' u g ts \<Rightarrow> m = m' \<and> n = n'
         | _ \<Rightarrow> False)
     then Some True
     else case alias_target \<sigma> r of
            None \<Rightarrow> Some False
          | Some u \<Rightarrow>
              if (case u of AliasRef r' m' n' \<Rightarrow> r' \<noteq> r | _ \<Rightarrow> True) then eq u t else Some False)"

definition DefinedType_Equals ::
  "(ty \<Rightarrow> ty \<Rightarrow> bool run) \<Rightarrow> ty \<Rightarrow> ty \<Rightarrow> bool run" where
  "DefinedType_Equals eq s t =
    (case t of
       DefinedType m' n' u g ts \<Rightarrow> Some (dt_Module s = m' \<and> dt_Name s = n')
     | AliasRef r m' n' \<Rightarrow> eq t s
     | _ \<Rightarrow> Some False)"

definition TraitType_Equals :: "alias_store \<Rightarrow> ty trait_type \<Rightarrow> ty \<Rightarrow> bool run" where
  "TraitType_Equals \<sigma> tr t = do {
     u \<leftarrow> Underlying \<sigma> t;
     Some (case u of
             TraitTy o' \<Rightarrow>
               tr_Module tr = tr_Module o' \<and> tr_Name tr = tr_Name o' \<and> tr_Any tr = tr_Any o'
           | _ \<Rightarrow> False) }"

definition TraitPointerType_Equals ::
  "alias_store \<Rightarrow> ty trait_type \<Rightarrow> bool \<Rightarrow> ty \<Rightarrow> bool run" where
  "TraitPointerType_Equals \<sigma> tr mu t =
    (case t of
       TraitPointerType tr' mu' \<Rightarrow> andM (Some (mu = mu')) (TraitType_Equals \<sigma> tr (TraitTy tr'))
     | _ \<Rightarrow> Some False)"

definition FlagsType_Equals :: "PrimitiveType \<Rightarrow> string list \<Rightarrow> string list \<Rightarrow> ty \<Rightarrow> bool" where
  "FlagsType_Equals p vs ws t =
    (case t of FlagsType p' vs' ws' \<Rightarrow> p = p' \<and> vs = vs' \<and> ws = ws' | _ \<Rightarrow> False)"

definition UnionType_Equals :: "string \<Rightarrow> string \<Rightarrow> ty \<Rightarrow> bool" where
  "UnionType_Equals m n t = (case t of UnionType m' n' fs' \<Rightarrow> m = m' \<and> n = n' | _ \<Rightarrow> False)"

definition EnumType_Equals :: "string \<Rightarrow> string \<Rightarrow> string \<Rightarrow> ty \<Rightarrow> bool" where
  "EnumType_Equals m n i t =
    (case t of
       EnumType m' n' i' vs' ws' \<Rightarrow>
         if i \<noteq> [] \<or> i' \<noteq> [] then i \<noteq> [] \<and> i = i' else m = m' \<and> n = n'
     | _ \<Rightarrow> False)"

definition StructType_Equals ::
  "(ty \<Rightarrow> ty \<Rightarrow> bool run) \<Rightarrow> field list \<Rightarrow> bool \<Rightarrow> ty \<Rightarrow> bool run" where
  "StructType_Equals eq fs p t =
    (case t of
       StructType fs' p' tu' \<Rightarrow>
         if p \<noteq> p' then Some False
         else if length fs \<noteq> length fs' then Some False
         else all2M (\<lambda>f f'. andM (Some (fst f = fst f')) (eq (snd f) (snd f'))) fs fs'
     | _ \<Rightarrow> Some False)"

definition PointerType_Equals :: "(ty \<Rightarrow> ty \<Rightarrow> bool run) \<Rightarrow> ty \<Rightarrow> bool \<Rightarrow> ty \<Rightarrow> bool run" where
  "PointerType_Equals eq b mu t =
    (case t of PointerType b' mu' \<Rightarrow> andM (eq b b') (Some (mu = mu')) | _ \<Rightarrow> Some False)"

definition SliceType_Equals :: "(ty \<Rightarrow> ty \<Rightarrow> bool run) \<Rightarrow> ty \<Rightarrow> bool \<Rightarrow> ty \<Rightarrow> bool run" where
  "SliceType_Equals eq b mu t =
    (case t of
       SliceType b' mu' \<Rightarrow> if mu \<noteq> mu' then Some False else eq b b'
     | _ \<Rightarrow> Some False)"

definition ArrayType_Equals :: "(ty \<Rightarrow> ty \<Rightarrow> bool run) \<Rightarrow> ty \<Rightarrow> int \<Rightarrow> ty \<Rightarrow> bool run" where
  "ArrayType_Equals eq b l t =
    (case t of ArrayType b' l' \<Rightarrow> andM (Some (l = l')) (eq b b') | _ \<Rightarrow> Some False)"

definition SequenceType_Equals :: "(ty \<Rightarrow> ty \<Rightarrow> bool run) \<Rightarrow> ty \<Rightarrow> int \<Rightarrow> ty \<Rightarrow> bool run" where
  "SequenceType_Equals eq b l t =
    (case t of SequenceType b' l' \<Rightarrow> andM (Some (l = l')) (eq b b') | _ \<Rightarrow> Some False)"

definition MultipleReturnType_Equals :: "(ty \<Rightarrow> ty \<Rightarrow> bool run) \<Rightarrow> ty list \<Rightarrow> ty \<Rightarrow> bool run" where
  "MultipleReturnType_Equals eq ts t =
    (case t of
       MultipleReturnType ts' \<Rightarrow>
         if length ts \<noteq> length ts' then Some False else all2M eq ts ts'
     | _ \<Rightarrow> Some False)"

definition FunctionType_Equals ::
  "(ty \<Rightarrow> ty \<Rightarrow> bool run) \<Rightarrow> ty list \<Rightarrow> ty \<Rightarrow> bool \<Rightarrow> ty \<Rightarrow> bool run" where
  "FunctionType_Equals eq ps r v t =
    (case t of
       FunctionType ps' r' v' ve' \<Rightarrow>
         if length ps \<noteq> length ps' then Some False
         else if v \<noteq> v' then Some False
         else andM (all2M eq ps ps') (eq r r')
     | _ \<Rightarrow> Some False)"

fun Equals_step :: "alias_store \<Rightarrow> (ty \<Rightarrow> ty \<Rightarrow> bool run) \<Rightarrow> ty \<Rightarrow> ty \<Rightarrow> bool run" where
  "Equals_step \<sigma> eq NilType t = None"
| "Equals_step \<sigma> eq SelfType t = Some (t = SelfType)"
| "Equals_step \<sigma> eq NoInitializerType t = Some (t = NoInitializerType)"
| "Equals_step \<sigma> eq OpaqueType t = Some (t = OpaqueType)"
| "Equals_step \<sigma> eq ErrorType t = Some (t = ErrorType)"
| "Equals_step \<sigma> eq UntypedInt t = Some (t = UntypedInt)"
| "Equals_step \<sigma> eq UntypedFloat t = Some (t = UntypedFloat)"
| "Equals_step \<sigma> eq UnresolvedEnum t = Some (t = UnresolvedEnum)"
| "Equals_step \<sigma> eq (PrimitiveTy p) t = Some (t = PrimitiveTy p)"
| "Equals_step \<sigma> eq (TypeParameter p) t = Some (TypeParameter_Equals p t)"
| "Equals_step \<sigma> eq (DefinedType m n u g ts) t = DefinedType_Equals eq (DefinedType m n u g ts) t"
| "Equals_step \<sigma> eq (AliasRef r m n) t = AliasRef_Equals \<sigma> eq r m n t"
| "Equals_step \<sigma> eq (PointerType b mu) t = PointerType_Equals eq b mu t"
| "Equals_step \<sigma> eq (SliceType b mu) t = SliceType_Equals eq b mu t"
| "Equals_step \<sigma> eq (ArrayType b l) t = ArrayType_Equals eq b l t"
| "Equals_step \<sigma> eq (SequenceType b l) t = SequenceType_Equals eq b l t"
| "Equals_step \<sigma> eq (StructType fs p tu) t = StructType_Equals eq fs p t"
| "Equals_step \<sigma> eq (UnionType m n fs) t = Some (UnionType_Equals m n t)"
| "Equals_step \<sigma> eq (EnumType m n i vs ws) t = Some (EnumType_Equals m n i t)"
| "Equals_step \<sigma> eq (FlagsType p vs ws) t = Some (FlagsType_Equals p vs ws t)"
| "Equals_step \<sigma> eq (TraitTy tr) t = TraitType_Equals \<sigma> tr t"
| "Equals_step \<sigma> eq (TraitPointerType tr mu) t = TraitPointerType_Equals \<sigma> tr mu t"
| "Equals_step \<sigma> eq (FunctionType ps r v ve) t = FunctionType_Equals eq ps r v t"
| "Equals_step \<sigma> eq (MultipleReturnType ts) t = MultipleReturnType_Equals eq ts t"

lemmas Equals_methods =
  TypeParameter_Equals_def AliasRef_Equals_def DefinedType_Equals_def TraitType_Equals_def
  TraitPointerType_Equals_def FlagsType_Equals_def UnionType_Equals_def EnumType_Equals_def
  StructType_Equals_def PointerType_Equals_def SliceType_Equals_def ArrayType_Equals_def
  SequenceType_Equals_def MultipleReturnType_Equals_def FunctionType_Equals_def

lemma if_run_mono [run_mono]:
  "mono_option A \<Longrightarrow> mono_option B \<Longrightarrow> mono_option (\<lambda>f. if c then A f else B f)"
  by (cases c) simp_all

lemma AliasRef_Equals_mono [run_mono]:
  assumes "\<And>x y. mono_option (\<lambda>f. E f x y)"
  shows "mono_option (\<lambda>f. AliasRef_Equals \<sigma> (E f) r m n t)"
  unfolding AliasRef_Equals_def
  by (cases "alias_target \<sigma> r") (simp_all add: run_mono option.const_mono assms)

lemma Equals_step_mono [partial_function_mono]:
  assumes "\<And>x y. mono_option (\<lambda>f. E f x y)"
  shows "mono_option (\<lambda>f. Equals_step \<sigma> (E f) s t)"
proof (cases "\<exists>r m n. s = AliasRef r m n")
  case True
  then show ?thesis using AliasRef_Equals_mono [OF assms] by auto
next
  case False
  then show ?thesis
    by (cases s; cases t)
       (simp_all add: Equals_methods run_mono option.const_mono assms)
qed

partial_function (option) Equals :: "alias_store \<Rightarrow> ty \<Rightarrow> ty \<Rightarrow> bool run" where
  "Equals \<sigma> s t = Equals_step \<sigma> (Equals \<sigma>) s t"

declare Equals.simps [code]

section \<open>Coercion\<close>

definition TraitPointerType_CanCoerceTo ::
  "alias_store \<Rightarrow> ty trait_type \<Rightarrow> bool \<Rightarrow> ty \<Rightarrow> bool run" where
  "TraitPointerType_CanCoerceTo \<sigma> tr mu t =
    (case t of
       TraitPointerType tr' mu' \<Rightarrow>
         andM (Some (mu \<or> \<not> mu')) (TraitType_Equals \<sigma> tr (TraitTy tr'))
     | _ \<Rightarrow> Some False)"

definition PointerType_CanCoerceTo ::
  "alias_store \<Rightarrow> (ty \<Rightarrow> ty \<Rightarrow> bool run) \<Rightarrow> ty \<Rightarrow> bool \<Rightarrow> ty \<Rightarrow> bool run" where
  "PointerType_CanCoerceTo \<sigma> co b mu t =
    orM (Equals \<sigma> (PointerType b mu) t)
      (case t of
         PointerType b' mu' \<Rightarrow>
           if \<not> mu \<and> mu' then Some False
           else do {
             void \<leftarrow> orM (Equals \<sigma> b (PrimitiveTy PrimitiveVoid))
               (Equals \<sigma> b' (PrimitiveTy PrimitiveVoid));
             if void then Some True else co b b' }
       | _ \<Rightarrow> Some False)"

definition SliceType_CanCoerceTo :: "alias_store \<Rightarrow> ty \<Rightarrow> bool \<Rightarrow> ty \<Rightarrow> bool run" where
  "SliceType_CanCoerceTo \<sigma> b mu t =
    orM (Equals \<sigma> (SliceType b mu) t)
      (case t of
         SliceType b' mu' \<Rightarrow> if mu' \<and> \<not> mu then Some False else Equals \<sigma> b b'
       | _ \<Rightarrow> Some False)"

definition ArrayType_CanCoerceTo :: "alias_store \<Rightarrow> ty \<Rightarrow> int \<Rightarrow> ty \<Rightarrow> bool run" where
  "ArrayType_CanCoerceTo \<sigma> b l t =
    orM (Equals \<sigma> (ArrayType b l) t)
      (case t of
         SliceType b' mu' \<Rightarrow> if mu' then Some False else Equals \<sigma> b b'
       | _ \<Rightarrow> Some False)"

definition MultipleReturnType_CanCoerceTo ::
  "(ty \<Rightarrow> ty \<Rightarrow> bool run) \<Rightarrow> ty list \<Rightarrow> ty \<Rightarrow> bool run" where
  "MultipleReturnType_CanCoerceTo co ts t =
    (case t of
       MultipleReturnType ts' \<Rightarrow>
         if length ts \<noteq> length ts' then Some False
         else all2M co ts ts'
     | _ \<Rightarrow> Some False)"

text \<open>Parameters are contravariant: the loop asks the other function's parameters.\<close>

definition FunctionType_CanCoerceTo ::
  "(ty \<Rightarrow> ty \<Rightarrow> bool run) \<Rightarrow> ty list \<Rightarrow> ty \<Rightarrow> bool \<Rightarrow> ty \<Rightarrow> bool run" where
  "FunctionType_CanCoerceTo co ps r v t =
    (case t of
       FunctionType ps' r' v' ve' \<Rightarrow>
         if length ps \<noteq> length ps' then Some False
         else if v \<noteq> v' then Some False
         else andM (all2M (\<lambda>x y. co y x) ps ps') (co r r')
     | _ \<Rightarrow> Some False)"

definition UntypedInt_CanCoerceTo :: "ty \<Rightarrow> bool" where
  "UntypedInt_CanCoerceTo t =
    (case t of
       PrimitiveTy p \<Rightarrow> prim_integer p \<or> prim_float p
     | UntypedInt \<Rightarrow> True
     | UntypedFloat \<Rightarrow> True
     | _ \<Rightarrow> False)"

definition UntypedFloat_CanCoerceTo :: "ty \<Rightarrow> bool" where
  "UntypedFloat_CanCoerceTo t =
    (case t of PrimitiveTy p \<Rightarrow> prim_float p | UntypedFloat \<Rightarrow> True | _ \<Rightarrow> False)"

fun CanCoerceTo_step :: "alias_store \<Rightarrow> (ty \<Rightarrow> ty \<Rightarrow> bool run) \<Rightarrow> ty \<Rightarrow> ty \<Rightarrow> bool run" where
  "CanCoerceTo_step \<sigma> co NilType t = None"
| "CanCoerceTo_step \<sigma> co NoInitializerType t = Some False"
| "CanCoerceTo_step \<sigma> co UnresolvedEnum t = Some False"
| "CanCoerceTo_step \<sigma> co (SequenceType b l) t = Some False"
| "CanCoerceTo_step \<sigma> co ErrorType t = Some True"
| "CanCoerceTo_step \<sigma> co UntypedInt t = Some (UntypedInt_CanCoerceTo t)"
| "CanCoerceTo_step \<sigma> co UntypedFloat t = Some (UntypedFloat_CanCoerceTo t)"
| "CanCoerceTo_step \<sigma> co (PrimitiveTy p) t = Some (PrimitiveType_CanCoerceTo p t)"
| "CanCoerceTo_step \<sigma> co (TraitPointerType tr mu) t = TraitPointerType_CanCoerceTo \<sigma> tr mu t"
| "CanCoerceTo_step \<sigma> co (PointerType b mu) t = PointerType_CanCoerceTo \<sigma> co b mu t"
| "CanCoerceTo_step \<sigma> co (SliceType b mu) t = SliceType_CanCoerceTo \<sigma> b mu t"
| "CanCoerceTo_step \<sigma> co (ArrayType b l) t = ArrayType_CanCoerceTo \<sigma> b l t"
| "CanCoerceTo_step \<sigma> co (MultipleReturnType ts) t = MultipleReturnType_CanCoerceTo co ts t"
| "CanCoerceTo_step \<sigma> co (FunctionType ps r v ve) t = FunctionType_CanCoerceTo co ps r v t"
| "CanCoerceTo_step \<sigma> co s t = Equals \<sigma> s t"

lemmas CanCoerceTo_methods =
  TraitPointerType_CanCoerceTo_def PointerType_CanCoerceTo_def SliceType_CanCoerceTo_def
  ArrayType_CanCoerceTo_def MultipleReturnType_CanCoerceTo_def FunctionType_CanCoerceTo_def
  UntypedInt_CanCoerceTo_def UntypedFloat_CanCoerceTo_def PrimitiveType_CanCoerceTo_def

lemma CanCoerceTo_step_mono [partial_function_mono]:
  assumes "\<And>x y. mono_option (\<lambda>f. C f x y)"
  shows "mono_option (\<lambda>f. CanCoerceTo_step \<sigma> (C f) s t)"
  by (cases s; cases t)
     (simp_all add: CanCoerceTo_methods run_mono option.const_mono bind_mono assms)

partial_function (option) CanCoerceTo :: "alias_store \<Rightarrow> ty \<Rightarrow> ty \<Rightarrow> bool run" where
  "CanCoerceTo \<sigma> s t = CanCoerceTo_step \<sigma> (CanCoerceTo \<sigma>) s t"

declare CanCoerceTo.simps [code]

section \<open>Explicit casts\<close>

definition upgradesMutableAccess :: "ty \<Rightarrow> ty \<Rightarrow> bool" where
  "upgradesMutableAccess from to =
    (case from of
       PointerType b mu \<Rightarrow>
         (case to of
            PointerType b' mu' \<Rightarrow> mu' \<and> \<not> mu
          | SliceType b' mu' \<Rightarrow> mu' \<and> \<not> mu
          | _ \<Rightarrow> False)
     | SliceType b mu \<Rightarrow>
         (case to of
            PointerType b' mu' \<Rightarrow> mu' \<and> \<not> mu
          | SliceType b' mu' \<Rightarrow> mu' \<and> \<not> mu
          | _ \<Rightarrow> False)
     | _ \<Rightarrow> False)"

text \<open>\<open>castCompatible\<close>; \<open>ca\<close> is the call of \<open>CanCastTo\<close>.\<close>

definition castCompatible_step ::
  "alias_store \<Rightarrow> (ty \<Rightarrow> ty \<Rightarrow> bool run) \<Rightarrow> ty \<Rightarrow> ty \<Rightarrow> bool run" where
  "castCompatible_step \<sigma> ca from to = do {
     s \<leftarrow> Underlying \<sigma> from;
     t \<leftarrow> Underlying \<sigma> to;
     if upgradesMutableAccess s t then Some False
     else orM (Equals \<sigma> s t) (orM (ca s t) (ca t s)) }"

definition DefinedType_CanCastTo ::
  "alias_store \<Rightarrow> (ty \<Rightarrow> ty \<Rightarrow> bool run) \<Rightarrow> ty \<Rightarrow> ty \<Rightarrow> bool run" where
  "DefinedType_CanCastTo \<sigma> ca u t = do {
     t' \<leftarrow> Underlying \<sigma> t;
     castCompatible_step \<sigma> ca u t' }"

definition FlagsType_CanCastTo ::
  "alias_store \<Rightarrow> PrimitiveType \<Rightarrow> string list \<Rightarrow> string list \<Rightarrow> ty \<Rightarrow> bool run" where
  "FlagsType_CanCastTo \<sigma> p vs ws t =
    orM (Equals \<sigma> t (PrimitiveTy p)) (Some (FlagsType_Equals p vs ws t))"

definition PointerType_CanCastTo :: "alias_store \<Rightarrow> ty \<Rightarrow> bool \<Rightarrow> ty \<Rightarrow> bool run" where
  "PointerType_CanCastTo \<sigma> b mu t =
    orM (Equals \<sigma> (PointerType b mu) t)
      (case t of
         PointerType b' mu' \<Rightarrow> Some (\<not> (\<not> mu \<and> mu'))
       | PrimitiveTy p \<Rightarrow> Some (prim_integer p)
       | _ \<Rightarrow> Some False)"

definition SliceType_CanCastTo :: "alias_store \<Rightarrow> ty \<Rightarrow> bool \<Rightarrow> ty \<Rightarrow> bool run" where
  "SliceType_CanCastTo \<sigma> b mu t =
    orM (Equals \<sigma> (SliceType b mu) t)
      (case t of
         SliceType b' mu' \<Rightarrow> if mu' \<and> \<not> mu then Some False else Equals \<sigma> b b'
       | ArrayType b' l' \<Rightarrow> Equals \<sigma> b b'
       | _ \<Rightarrow> Some False)"

definition ArrayType_CanCastTo :: "alias_store \<Rightarrow> ty \<Rightarrow> int \<Rightarrow> ty \<Rightarrow> bool run" where
  "ArrayType_CanCastTo \<sigma> b l t =
    orM (Equals \<sigma> (ArrayType b l) t)
      (case t of SliceType b' mu' \<Rightarrow> Equals \<sigma> b b' | _ \<Rightarrow> Some False)"

definition UntypedInt_CanCastTo :: "ty \<Rightarrow> bool" where
  "UntypedInt_CanCastTo t =
    (case t of PrimitiveTy p \<Rightarrow> prim_numeric p \<or> p = PrimitiveBool | _ \<Rightarrow> False)"

definition UntypedFloat_CanCastTo :: "ty \<Rightarrow> bool" where
  "UntypedFloat_CanCastTo t =
    (case t of PrimitiveTy p \<Rightarrow> prim_float p \<or> prim_integer p | _ \<Rightarrow> False)"

fun CanCastTo_step :: "alias_store \<Rightarrow> (ty \<Rightarrow> ty \<Rightarrow> bool run) \<Rightarrow> ty \<Rightarrow> ty \<Rightarrow> bool run" where
  "CanCastTo_step \<sigma> ca NilType t = None"
| "CanCastTo_step \<sigma> ca NoInitializerType t = Some False"
| "CanCastTo_step \<sigma> ca UnresolvedEnum t = Some False"
| "CanCastTo_step \<sigma> ca (SequenceType b l) t = Some False"
| "CanCastTo_step \<sigma> ca ErrorType t = Some True"
| "CanCastTo_step \<sigma> ca UntypedInt t = Some (UntypedInt_CanCastTo t)"
| "CanCastTo_step \<sigma> ca UntypedFloat t = Some (UntypedFloat_CanCastTo t)"
| "CanCastTo_step \<sigma> ca (PrimitiveTy p) t = Some (PrimitiveType_CanCastTo p t)"
| "CanCastTo_step \<sigma> ca (DefinedType m n u g ts) t = DefinedType_CanCastTo \<sigma> ca u t"
| "CanCastTo_step \<sigma> ca (AliasRef r m n) t = castCompatible_step \<sigma> ca (AliasRef r m n) t"
| "CanCastTo_step \<sigma> ca (FlagsType p vs ws) t = FlagsType_CanCastTo \<sigma> p vs ws t"
| "CanCastTo_step \<sigma> ca (TraitPointerType tr mu) t = TraitPointerType_CanCoerceTo \<sigma> tr mu t"
| "CanCastTo_step \<sigma> ca (PointerType b mu) t = PointerType_CanCastTo \<sigma> b mu t"
| "CanCastTo_step \<sigma> ca (SliceType b mu) t = SliceType_CanCastTo \<sigma> b mu t"
| "CanCastTo_step \<sigma> ca (ArrayType b l) t = ArrayType_CanCastTo \<sigma> b l t"
| "CanCastTo_step \<sigma> ca s t = Equals \<sigma> s t"

lemmas CanCastTo_methods =
  DefinedType_CanCastTo_def FlagsType_CanCastTo_def PointerType_CanCastTo_def
  SliceType_CanCastTo_def ArrayType_CanCastTo_def UntypedInt_CanCastTo_def
  UntypedFloat_CanCastTo_def PrimitiveType_CanCastTo_def TraitPointerType_CanCoerceTo_def

lemma castCompatible_step_mono [run_mono, partial_function_mono]:
  assumes "\<And>x y. mono_option (\<lambda>f. C f x y)"
  shows "mono_option (\<lambda>f. castCompatible_step \<sigma> (C f) s t)"
  unfolding castCompatible_step_def
  by (intro bind_mono option.const_mono if_run_mono run_mono assms)

lemma CanCastTo_step_mono [partial_function_mono]:
  assumes "\<And>x y. mono_option (\<lambda>f. C f x y)"
  shows "mono_option (\<lambda>f. CanCastTo_step \<sigma> (C f) s t)"
proof (cases "is_named s")
  case True
  then show ?thesis
    by (cases s)
       (simp_all add: DefinedType_CanCastTo_def bind_mono castCompatible_step_mono assms
          option.const_mono)
next
  case False
  then show ?thesis by (cases s) (simp_all add: option.const_mono)
qed

partial_function (option) CanCastTo :: "alias_store \<Rightarrow> ty \<Rightarrow> ty \<Rightarrow> bool run" where
  "CanCastTo \<sigma> s t = CanCastTo_step \<sigma> (CanCastTo \<sigma>) s t"

declare CanCastTo.simps [code]

definition castCompatible :: "alias_store \<Rightarrow> ty \<Rightarrow> ty \<Rightarrow> bool run" where
  "castCompatible \<sigma> from to = castCompatible_step \<sigma> (CanCastTo \<sigma>) from to"

fun is_defined :: "ty \<Rightarrow> bool" where
  "is_defined (DefinedType _ _ _ _ _) = True"
| "is_defined _ = False"

definition CanExplicitCast :: "alias_store \<Rightarrow> ty \<Rightarrow> ty \<Rightarrow> bool run" where
  "CanExplicitCast \<sigma> from to =
    orM (CanCastTo \<sigma> from to)
      (andM (Some (is_defined from \<or> is_defined to)) (castCompatible \<sigma> from to))"

section \<open>Classification of all types\<close>

definition IsSigned :: "alias_store \<Rightarrow> ty \<Rightarrow> bool run" where
  "IsSigned \<sigma> t = do {
     u \<leftarrow> Underlying \<sigma> t;
     Some (case u of PrimitiveTy p \<Rightarrow> prim_signed p | _ \<Rightarrow> False) }"

definition IsUnsigned :: "alias_store \<Rightarrow> ty \<Rightarrow> bool run" where
  "IsUnsigned \<sigma> t = do {
     u \<leftarrow> Underlying \<sigma> t;
     Some (case u of PrimitiveTy p \<Rightarrow> prim_unsigned p | _ \<Rightarrow> False) }"

definition IsInteger :: "alias_store \<Rightarrow> ty \<Rightarrow> bool run" where
  "IsInteger \<sigma> t = orM (orM (IsSigned \<sigma> t) (IsUnsigned \<sigma> t)) (Equals \<sigma> t UntypedInt)"

text \<open>\<open>IsFloat\<close> does not look through names.\<close>

definition IsFloat :: "alias_store \<Rightarrow> ty \<Rightarrow> bool run" where
  "IsFloat \<sigma> t =
    orM (Some (t = PrimitiveTy PrimitiveF32 \<or> t = PrimitiveTy PrimitiveF64)) (Equals \<sigma> t UntypedFloat)"

definition IsNumeric :: "alias_store \<Rightarrow> ty \<Rightarrow> bool run" where
  "IsNumeric \<sigma> t = orM (IsInteger \<sigma> t) (IsFloat \<sigma> t)"

definition IsPointer :: "alias_store \<Rightarrow> ty \<Rightarrow> bool run" where
  "IsPointer \<sigma> t = do {
     u \<leftarrow> Underlying \<sigma> t;
     Some (case u of PointerType b mu \<Rightarrow> True | _ \<Rightarrow> False) }"

definition IsOpaque :: "alias_store \<Rightarrow> ty \<Rightarrow> bool run" where
  "IsOpaque \<sigma> t = do { u \<leftarrow> Underlying \<sigma> t; Some (u = OpaqueType) }"

section \<open>Promotion\<close>

definition PromoteNumeric :: "alias_store \<Rightarrow> ty \<Rightarrow> ty \<Rightarrow> ty run" where
  "PromoteNumeric \<sigma> a b = do {
     same \<leftarrow> Equals \<sigma> a b;
     if same then Some a
     else if a = UntypedFloat \<or> b = UntypedFloat then
       (let other = (if b = UntypedFloat then a else b)
        in if other = UntypedInt then Some UntypedFloat
           else case other of
             PrimitiveTy p \<Rightarrow>
               Some (if prim_float p then PrimitiveTy p
                     else if prim_integer p then PrimitiveTy PrimitiveF64
                     else ErrorType)
           | _ \<Rightarrow> Some ErrorType)
     else if a = UntypedInt then Some b
     else if b = UntypedInt then Some a
     else case a of
       PrimitiveTy p \<Rightarrow>
         (case b of
            PrimitiveTy q \<Rightarrow>
              if prim_float p \<or> prim_float q then
                Some (PrimitiveTy (if p = PrimitiveF64 \<or> q = PrimitiveF64 then PrimitiveF64
                                   else PrimitiveF32))
              else PromoteIntegers p q
          | _ \<Rightarrow> Some ErrorType)
     | _ \<Rightarrow> Some ErrorType }"

definition CommonType :: "alias_store \<Rightarrow> ty \<Rightarrow> ty \<Rightarrow> ty run" where
  "CommonType \<sigma> a b = do {
     same \<leftarrow> Equals \<sigma> a b;
     if same then Some a else PromoteNumeric \<sigma> a b }"

end
