(* ===== verification/Types_Compat_Facts.thy ===== *)
theory Types_Compat_Facts
  imports Types_Compat
begin

text \<open>
  Facts about type compatibility: when the methods return, what \<open>Equals\<close> decides, how
  coercion and casting relate to it, and what happens at references that are not resolved.
\<close>

section \<open>Well-formed types and alias stores\<close>

text \<open>No method call on the components of a well-formed type meets a nil interface.\<close>

fun wf_ty :: "ty \<Rightarrow> bool" where
  "wf_ty NilType = False"
| "wf_ty (DefinedType m n u g ts) = wf_ty u"
| "wf_ty (PointerType b mu) = wf_ty b"
| "wf_ty (SliceType b mu) = wf_ty b"
| "wf_ty (ArrayType b l) = wf_ty b"
| "wf_ty (SequenceType b l) = wf_ty b"
| "wf_ty (StructType fs p tu) = list_all (\<lambda>f. wf_ty (snd f)) fs"
| "wf_ty (FunctionType ps r v ve) \<longleftrightarrow> list_all wf_ty ps \<and> wf_ty r"
| "wf_ty (MultipleReturnType ts) = list_all wf_ty ts"
| "wf_ty _ = True"

text \<open>
  Following names without passing an aggregate must end: \<open>rk\<close> bounds the number of
  references met on the way to the underlying type. Recursion behind a pointer, slice or
  struct is not restricted.
\<close>

fun head_rank :: "(alias_ptr \<Rightarrow> nat) \<Rightarrow> ty \<Rightarrow> nat" where
  "head_rank rk (DefinedType m n u g ts) = head_rank rk u"
| "head_rank rk (AliasRef (Some p) m n) = Suc (rk p)"
| "head_rank rk _ = 0"

definition alias_ok :: "alias_store \<Rightarrow> (alias_ptr \<Rightarrow> nat) \<Rightarrow> bool" where
  "alias_ok \<sigma> rk \<longleftrightarrow>
     (\<forall>p u. alias_target \<sigma> (Some p) = Some u \<longrightarrow> wf_ty u \<and> head_rank rk u \<le> rk p)"

lemma alias_target_None [simp]: "alias_target \<sigma> None = None"
  by (simp add: alias_target_def)

lemma alias_target_not_nil: "alias_target \<sigma> r = Some u \<Longrightarrow> u \<noteq> NilType"
  by (auto simp: alias_target_def split: option.splits if_splits)

lemma alias_okD:
  assumes "alias_ok \<sigma> rk" and "alias_target \<sigma> r = Some u"
  shows "wf_ty u" and "head_rank rk u < head_rank rk (AliasRef r m n)"
  using assms by (cases r; auto simp: alias_ok_def less_Suc_eq_le)+

section \<open>Underlying types\<close>

lemma Underlying_returns:
  assumes "alias_ok \<sigma> rk"
  shows "\<exists>u. Underlying \<sigma> t = Some u"
proof (induction "(head_rank rk t, size t)" arbitrary: t rule: wf_induct [OF wf_lex_prod [OF wf_less wf_less]])
  case 1
  then have IH: "\<exists>u. Underlying \<sigma> t' = Some u"
    if "head_rank rk t' < head_rank rk t \<or> head_rank rk t' = head_rank rk t \<and> size t' < size t" for t'
    using that by auto
  show ?case
  proof (cases t)
    case (AliasRef r m n)
    with IH alias_okD [OF assms] show ?thesis by (cases "alias_target \<sigma> r") auto
  next
    case (DefinedType m n u g ts)
    with IH show ?thesis by auto
  qed auto
qed

text \<open>The result of \<open>Underlying\<close> is not a name, unless it is an unresolved reference.\<close>

definition is_underlying :: "alias_store \<Rightarrow> ty \<Rightarrow> bool" where
  "is_underlying \<sigma> u \<longleftrightarrow>
     \<not> is_named u \<or> (\<exists>r m n. u = AliasRef r m n \<and> alias_target \<sigma> r = None)"

lemma Underlying_result:
  assumes ret: "Underlying \<sigma> t = Some u"
  shows "is_underlying \<sigma> u"
proof (rule Underlying.raw_induct [where P = "\<lambda>\<sigma> t u. is_underlying \<sigma> u", OF _ ret])
  fix f :: "alias_store \<Rightarrow> ty \<Rightarrow> ty run" and \<sigma> t u
  assume IH: "\<And>\<sigma> t u. f \<sigma> t = Some u \<Longrightarrow> is_underlying \<sigma> u"
    and eq: "(case t of
       DefinedType m n u g ts \<Rightarrow> f \<sigma> u
     | AliasRef r m n \<Rightarrow>
         (case alias_target \<sigma> r of None \<Rightarrow> Some t | Some u \<Rightarrow> f \<sigma> u)
     | _ \<Rightarrow> Some t) = Some u"
  show "is_underlying \<sigma> u"
    using eq IH by (cases t) (auto simp: is_underlying_def split: option.splits)
qed

lemma Underlying_idem: "is_underlying \<sigma> u \<Longrightarrow> Underlying \<sigma> u = Some u"
  by (auto simp: is_underlying_def)

section \<open>The equality methods return\<close>

lemma Equals_simps [simp]:
  "Equals \<sigma> NilType t = None"
  "Equals \<sigma> SelfType t = Some (t = SelfType)"
  "Equals \<sigma> NoInitializerType t = Some (t = NoInitializerType)"
  "Equals \<sigma> OpaqueType t = Some (t = OpaqueType)"
  "Equals \<sigma> ErrorType t = Some (t = ErrorType)"
  "Equals \<sigma> UntypedInt t = Some (t = UntypedInt)"
  "Equals \<sigma> UntypedFloat t = Some (t = UntypedFloat)"
  "Equals \<sigma> UnresolvedEnum t = Some (t = UnresolvedEnum)"
  "Equals \<sigma> (PrimitiveTy p) t = Some (t = PrimitiveTy p)"
  "Equals \<sigma> (TypeParameter q) t = Some (TypeParameter_Equals q t)"
  "Equals \<sigma> (DefinedType m n u g ts) t =
     DefinedType_Equals (Equals \<sigma>) (DefinedType m n u g ts) t"
  "Equals \<sigma> (AliasRef r m n) t = AliasRef_Equals \<sigma> (Equals \<sigma>) r m n t"
  "Equals \<sigma> (PointerType b mu) t = PointerType_Equals (Equals \<sigma>) b mu t"
  "Equals \<sigma> (SliceType b mu) t = SliceType_Equals (Equals \<sigma>) b mu t"
  "Equals \<sigma> (ArrayType b l) t = ArrayType_Equals (Equals \<sigma>) b l t"
  "Equals \<sigma> (SequenceType b l) t = SequenceType_Equals (Equals \<sigma>) b l t"
  "Equals \<sigma> (StructType fs p' tu) t = StructType_Equals (Equals \<sigma>) fs p' t"
  "Equals \<sigma> (UnionType m n fs) t = Some (UnionType_Equals m n t)"
  "Equals \<sigma> (EnumType m n i vs ws) t = Some (EnumType_Equals m n i t)"
  "Equals \<sigma> (FlagsType p vs ws) t = Some (FlagsType_Equals p vs ws t)"
  "Equals \<sigma> (TraitTy tr) t = TraitType_Equals \<sigma> tr t"
  "Equals \<sigma> (TraitPointerType tr mu) t = TraitPointerType_Equals \<sigma> tr mu t"
  "Equals \<sigma> (FunctionType ps rt v ve) t = FunctionType_Equals (Equals \<sigma>) ps rt v t"
  "Equals \<sigma> (MultipleReturnType ts) t = MultipleReturnType_Equals (Equals \<sigma>) ts t"
  by (subst Equals.simps; simp)+

text \<open>Against a nominal type every receiver answers after following its references.\<close>

lemma Equals_defined_returns:
  assumes ok: "alias_ok \<sigma> rk" and "s \<noteq> NilType"
  shows "Equals \<sigma> s (DefinedType m n u g ts) \<noteq> None"
  using assms(2)
proof (induction "head_rank rk s" arbitrary: s rule: less_induct)
  case less
  show ?case
  proof (cases s)
    case (AliasRef r m' n')
    show ?thesis
    proof (cases "alias_target \<sigma> r")
      case (Some a)
      then have "Equals \<sigma> a (DefinedType m n u g ts) \<noteq> None"
        using less.hyps alias_okD(2) [OF ok Some] alias_target_not_nil AliasRef by blast
      with Some AliasRef show ?thesis by (simp add: AliasRef_Equals_def del: not_None_eq)
    qed (simp add: AliasRef AliasRef_Equals_def del: not_None_eq)
  next
    case (TraitTy tr)
    then show ?thesis
      using Underlying_returns [OF ok, of u] by (auto simp: TraitType_Equals_def)
  qed (use less.prems in \<open>simp_all add: Equals_methods\<close>)
qed

lemma andM_returns: "a \<noteq> None \<Longrightarrow> (a = Some True \<Longrightarrow> b \<noteq> None) \<Longrightarrow> andM a b \<noteq> None"
  by (cases a) (auto simp: andM_def)

lemma orM_returns: "a \<noteq> None \<Longrightarrow> (a = Some False \<Longrightarrow> b \<noteq> None) \<Longrightarrow> orM a b \<noteq> None"
  by (cases a) (auto simp: orM_def)

lemma andM_None_iff: "andM a b = None \<longleftrightarrow> a = None \<or> a = Some True \<and> b = None"
  by (auto simp: andM_def split: option.splits)

lemma orM_None_iff: "orM a b = None \<longleftrightarrow> a = None \<or> a = Some False \<and> b = None"
  by (auto simp: orM_def split: option.splits)

lemma all2M_None: "all2M f xs ys = None \<Longrightarrow> \<exists>x \<in> set xs. \<exists>y \<in> set ys. f x y = None"
  by (metis all2M_returns)

lemmas run_returns = andM_returns orM_returns all2M_returns

lemma size_field: "f \<in> set fs \<Longrightarrow> size (snd f) < Suc (size_list (size_prod (\<lambda>_. 0) size) fs)"
  by (induction fs) auto

lemma Equals_returns:
  assumes ok: "alias_ok \<sigma> rk" and "wf_ty s"
  shows "Equals \<sigma> s t \<noteq> None"
  using assms(2)
proof (induction "(size t, head_rank rk s)" arbitrary: s t
    rule: wf_induct [OF wf_lex_prod [OF wf_less wf_less]])
  case 1
  then have smaller: "\<And>s' t'. size t' < size t \<Longrightarrow> wf_ty s' \<Longrightarrow> Equals \<sigma> s' t' \<noteq> None"
    and behind: "\<And>s'. head_rank rk s' < head_rank rk s \<Longrightarrow> wf_ty s' \<Longrightarrow> Equals \<sigma> s' t \<noteq> None"
    by auto
  show ?case
  proof (cases s)
    case (AliasRef r m n)
    show ?thesis
    proof (cases "alias_target \<sigma> r")
      case (Some a)
      then have "Equals \<sigma> a t \<noteq> None"
        using behind alias_okD [OF ok Some] AliasRef by blast
      with Some AliasRef show ?thesis by (simp add: AliasRef_Equals_def del: not_None_eq)
    qed (simp add: AliasRef AliasRef_Equals_def del: not_None_eq)
  next
    case (DefinedType m n u g ts)
    then show ?thesis
      using Equals_defined_returns [OF ok, of t]
      by (cases t) (auto simp: DefinedType_Equals_def iff del: not_None_eq)
  next
    case (TraitTy tr)
    then show ?thesis
      using Underlying_returns [OF ok, of t] by (auto simp: TraitType_Equals_def)
  next
    case (StructType fs p tu)
    have "Equals \<sigma> (snd f) (snd f') \<noteq> None"
      if "f \<in> set fs" "f' \<in> set fs'" "t = StructType fs' p' tu'" for f f' fs' p' tu'
      using smaller [of "snd f'" "snd f"] that "1.prems" StructType size_field [OF that(2)]
      by (auto simp: list_all_iff iff del: not_None_eq)
    then show ?thesis
      unfolding StructType
      by (cases t) (auto simp: StructType_Equals_def andM_None_iff intro!: run_returns iff del: not_None_eq)
  next
    case (FunctionType ps rt v ve)
    have "Equals \<sigma> x x' \<noteq> None"
      if "x \<in> set ps" "x' \<in> set ps'" "t = FunctionType ps' r' v' ve'" for x x' ps' r' v' ve'
      using smaller [of x' x] that "1.prems" FunctionType size_list_estimation' [of x' ps' _ size]
      by (fastforce simp: list_all_iff less_Suc_eq_le iff del: not_None_eq)
    moreover have "Equals \<sigma> rt r' \<noteq> None" if "t = FunctionType ps' r' v' ve'" for ps' r' v' ve'
      using smaller [of r' rt] that "1.prems" FunctionType by simp
    ultimately show ?thesis
      unfolding FunctionType
      by (cases t) (auto simp: FunctionType_Equals_def andM_None_iff dest!: all2M_None iff del: not_None_eq)
  next
    case (MultipleReturnType ts)
    have "Equals \<sigma> x x' \<noteq> None"
      if "x \<in> set ts" "x' \<in> set ts'" "t = MultipleReturnType ts'" for x x' ts'
      using smaller [of x' x] that "1.prems" MultipleReturnType size_list_estimation' [of x' ts' _ size]
      by (fastforce simp: list_all_iff less_Suc_eq_le iff del: not_None_eq)
    then show ?thesis
      unfolding MultipleReturnType
      by (cases t) (auto simp: MultipleReturnType_Equals_def intro!: run_returns iff del: not_None_eq)
  next
    case (PointerType b mu)
    then show ?thesis
      using smaller [of _ b] "1.prems"
      by (cases t) (auto simp: PointerType_Equals_def andM_None_iff iff del: not_None_eq)
  next
    case (SliceType b mu)
    then show ?thesis
      using smaller [of _ b] "1.prems"
      by (cases t) (auto simp: SliceType_Equals_def andM_None_iff iff del: not_None_eq)
  next
    case (ArrayType b l)
    then show ?thesis
      using smaller [of _ b] "1.prems"
      by (cases t) (auto simp: ArrayType_Equals_def andM_None_iff iff del: not_None_eq)
  next
    case (SequenceType b l)
    then show ?thesis
      using smaller [of _ b] "1.prems"
      by (cases t) (auto simp: SequenceType_Equals_def andM_None_iff iff del: not_None_eq)
  next
    case (TraitPointerType tr mu)
    then show ?thesis
      by (cases t) (auto simp: TraitPointerType_Equals_def TraitType_Equals_def)
  qed (use "1.prems" in simp_all)
qed

section \<open>Classification of primitive types\<close>

lemma classification_primitive [simp]:
  "IsSigned \<sigma> (PrimitiveTy p) = Some (prim_signed p)"
  "IsUnsigned \<sigma> (PrimitiveTy p) = Some (prim_unsigned p)"
  "IsInteger \<sigma> (PrimitiveTy p) = Some (prim_integer p)"
  "IsFloat \<sigma> (PrimitiveTy p) = Some (prim_float p)"
  "IsNumeric \<sigma> (PrimitiveTy p) = Some (prim_numeric p)"
  by (simp_all add: IsSigned_def IsUnsigned_def IsInteger_def IsFloat_def IsNumeric_def
      prim_integer_def prim_float_def prim_numeric_def)

section \<open>What equality decides\<close>

text \<open>
  \<open>plain\<close>: no nil component that \<open>Equals\<close> visits, no reference, and no trait behind a name
  (a trait equals a name for it, but not the other way round). \<open>canon\<close> erases what
  \<open>Equals\<close> ignores.
\<close>

fun core :: "ty \<Rightarrow> ty" where
  "core (DefinedType m n u g ts) = core u"
| "core t = t"

fun is_trait_or_alias :: "ty \<Rightarrow> bool" where
  "is_trait_or_alias (TraitTy tr) = True"
| "is_trait_or_alias (AliasRef r m n) = True"
| "is_trait_or_alias _ = False"

fun plain :: "ty \<Rightarrow> bool" where
  "plain NilType = False"
| "plain (AliasRef r m n) = False"
| "plain (DefinedType m n u g ts) \<longleftrightarrow> \<not> is_trait_or_alias (core u)"
| "plain (PointerType b mu) = plain b"
| "plain (SliceType b mu) = plain b"
| "plain (ArrayType b l) = plain b"
| "plain (SequenceType b l) = plain b"
| "plain (StructType fs p tu) = list_all (\<lambda>f. plain (snd f)) fs"
| "plain (FunctionType ps r v ve) \<longleftrightarrow> list_all plain ps \<and> plain r"
| "plain (MultipleReturnType ts) = list_all plain ts"
| "plain _ = True"

fun canon :: "ty \<Rightarrow> ty" where
  "canon (TypeParameter q) = TypeParameter (TypeParam (tp_Owner q) [] (tp_Index q) NilType)"
| "canon (DefinedType m n u g ts) = DefinedType m n NilType [] []"
| "canon (PointerType b mu) = PointerType (canon b) mu"
| "canon (SliceType b mu) = SliceType (canon b) mu"
| "canon (ArrayType b l) = ArrayType (canon b) l"
| "canon (SequenceType b l) = SequenceType (canon b) l"
| "canon (StructType fs p tu) = StructType (map (\<lambda>f. (fst f, canon (snd f))) fs) p None"
| "canon (UnionType m n fs) = UnionType m n []"
| "canon (EnumType m n i vs ws) =
     (if i = [] then EnumType m n [] [] [] else EnumType [] [] i [] [])"
| "canon (TraitTy tr) = TraitTy (Trait (tr_Module tr) (tr_Name tr) [] (tr_Any tr))"
| "canon (TraitPointerType tr mu) =
     TraitPointerType (Trait (tr_Module tr) (tr_Name tr) [] (tr_Any tr)) mu"
| "canon (FunctionType ps r v ve) = FunctionType (map canon ps) (canon r) v NilType"
| "canon (MultipleReturnType ts) = MultipleReturnType (map canon ts)"
| "canon t = t"

lemma Underlying_core: "\<not> is_trait_or_alias (core u) \<Longrightarrow> Underlying \<sigma> u = Some (core u)"
proof (induction u)
  case (DefinedType m n u g ts)
  then show ?case by simp
qed (subst Underlying.simps; simp)+

lemma all2M_canon:
  assumes "\<And>x y. x \<in> set xs \<Longrightarrow> y \<in> set ys \<Longrightarrow> f x y = Some (g x = h y)" and "length xs = length ys"
  shows "all2M f xs ys = Some (map g xs = map h ys)"
  using assms(2,1) by (induction xs ys rule: list_induct2) auto

lemma Equals_canon: "plain s \<Longrightarrow> plain t \<Longrightarrow> Equals \<sigma> s t = Some (canon s = canon t)"
proof (induction s arbitrary: t)
  case (StructType fs p tu)
  have "andM (Some (fst f = fst f')) (Equals \<sigma> (snd f) (snd f')) =
      Some ((fst f, canon (snd f)) = (fst f', canon (snd f')))"
    if "f \<in> set fs" "f' \<in> set fs'" "t = StructType fs' p' tu'" for f f' fs' p' tu'
    using StructType.IH(1) [of f "snd f" "snd f'"] StructType.prems that
    by (auto simp: snds.intros list_all_iff andM_def)
  then show ?case
    by (cases t) (auto simp: StructType_Equals_def all2M_canon dest: map_eq_imp_length_eq)
next
  case (FunctionType ps r v ve)
  then show ?case
    by (cases t)
       (auto simp: FunctionType_Equals_def list_all_iff all2M_canon [where g = canon and h = canon]
          dest: map_eq_imp_length_eq)
next
  case (MultipleReturnType ts)
  then show ?case
    by (cases t)
       (auto simp: MultipleReturnType_Equals_def list_all_iff
          all2M_canon [where g = canon and h = canon] dest: map_eq_imp_length_eq)
next
  case (TraitTy tr)
  then show ?case
    using Underlying_core [of t \<sigma>] by (cases t) (auto simp: TraitType_Equals_def Underlying_core split: ty.splits)
next
  case (TypeParameter q)
  then show ?case by (cases t) (auto simp: TypeParameter_Equals_def)
qed (simp_all, (case_tac t; auto simp: Equals_methods split: if_splits)+)

lemma Equals_refl: "wf_ty s \<Longrightarrow> Equals \<sigma> s s = Some True"
proof (induction s)
  case (StructType fs p tu)
  have "Equals \<sigma> (snd f) (snd f) = Some True" if "f \<in> set fs" for f
    using StructType.IH(1) [of f "snd f"] StructType.prems that
    by (auto simp: snds.intros list_all_iff)
  then have "all2M (\<lambda>f f'. andM (Some (fst f = fst f')) (Equals \<sigma> (snd f) (snd f'))) fs fs = Some True"
    by (induction fs) auto
  then show ?case by (simp add: StructType_Equals_def)
next
  case (FunctionType ps r v ve)
  then have "all2M (Equals \<sigma>) ps ps = Some True" by (induction ps) (auto simp: list_all_iff)
  with FunctionType show ?case by (simp add: FunctionType_Equals_def)
next
  case (MultipleReturnType ts)
  then have "all2M (Equals \<sigma>) ts ts = Some True" by (induction ts) (auto simp: list_all_iff)
  then show ?case by (simp add: MultipleReturnType_Equals_def)
next
  case (TraitTy tr)
  then show ?case by (simp add: TraitType_Equals_def)
next
  case (TraitPointerType tr mu)
  then show ?case by (simp add: TraitPointerType_Equals_def TraitType_Equals_def)
qed (simp_all add: Equals_methods)

section \<open>Coercion extends equality\<close>

lemma CanCoerceTo_simps [simp]:
  "CanCoerceTo \<sigma> NilType t = None"
  "CanCoerceTo \<sigma> NoInitializerType t = Some False"
  "CanCoerceTo \<sigma> UnresolvedEnum t = Some False"
  "CanCoerceTo \<sigma> (SequenceType b l) t = Some False"
  "CanCoerceTo \<sigma> ErrorType t = Some True"
  "CanCoerceTo \<sigma> UntypedInt t = Some (UntypedInt_CanCoerceTo t)"
  "CanCoerceTo \<sigma> UntypedFloat t = Some (UntypedFloat_CanCoerceTo t)"
  "CanCoerceTo \<sigma> (PrimitiveTy p) t = Some (PrimitiveType_CanCoerceTo p t)"
  "CanCoerceTo \<sigma> (TraitPointerType tr mu) t = TraitPointerType_CanCoerceTo \<sigma> tr mu t"
  "CanCoerceTo \<sigma> (PointerType b mu) t = PointerType_CanCoerceTo \<sigma> (CanCoerceTo \<sigma>) b mu t"
  "CanCoerceTo \<sigma> (SliceType b mu) t = SliceType_CanCoerceTo \<sigma> b mu t"
  "CanCoerceTo \<sigma> (ArrayType b l) t = ArrayType_CanCoerceTo \<sigma> b l t"
  "CanCoerceTo \<sigma> (MultipleReturnType ts) t = MultipleReturnType_CanCoerceTo (CanCoerceTo \<sigma>) ts t"
  "CanCoerceTo \<sigma> (FunctionType ps r v ve) t = FunctionType_CanCoerceTo (CanCoerceTo \<sigma>) ps r v t"
  "CanCoerceTo \<sigma> SelfType t = Equals \<sigma> SelfType t"
  "CanCoerceTo \<sigma> OpaqueType t = Equals \<sigma> OpaqueType t"
  "CanCoerceTo \<sigma> (TypeParameter q) t = Equals \<sigma> (TypeParameter q) t"
  "CanCoerceTo \<sigma> (DefinedType m n u g ts) t = Equals \<sigma> (DefinedType m n u g ts) t"
  "CanCoerceTo \<sigma> (AliasRef a m n) t = Equals \<sigma> (AliasRef a m n) t"
  "CanCoerceTo \<sigma> (StructType fs p' tu) t = Equals \<sigma> (StructType fs p' tu) t"
  "CanCoerceTo \<sigma> (UnionType m n fs) t = Equals \<sigma> (UnionType m n fs) t"
  "CanCoerceTo \<sigma> (EnumType m n i vs ws) t = Equals \<sigma> (EnumType m n i vs ws) t"
  "CanCoerceTo \<sigma> (FlagsType p vs ws) t = Equals \<sigma> (FlagsType p vs ws) t"
  "CanCoerceTo \<sigma> (TraitTy tr) t = Equals \<sigma> (TraitTy tr) t"
  by (subst CanCoerceTo.simps; simp only: CanCoerceTo_step.simps)+

text \<open>
  \<open>storable\<close>: no literal marker (\<open>NoInitializerType\<close>, \<open>UnresolvedEnum\<close>, \<open>SequenceType\<close>)
  where coercion looks; these never coerce, not even to themselves.
\<close>

fun storable :: "ty \<Rightarrow> bool" where
  "storable NoInitializerType = False"
| "storable UnresolvedEnum = False"
| "storable (SequenceType b l) = False"
| "storable (MultipleReturnType ts) = list_all storable ts"
| "storable (FunctionType ps r v ve) \<longleftrightarrow> list_all storable ps \<and> storable r"
| "storable _ = True"

lemma storable_canon: "storable (canon t) = storable t"
  by (induction t) (auto simp: list_all_iff)

lemma all2M_map_eq:
  assumes "map g xs = map h ys" and "\<And>x y. x \<in> set xs \<Longrightarrow> y \<in> set ys \<Longrightarrow> g x = h y \<Longrightarrow> f x y = Some True"
  shows "all2M f xs ys = Some True"
  using map_eq_imp_length_eq [OF assms(1)] assms
  by (induction xs ys rule: list_induct2) auto

lemma coerces_canon:
  assumes "plain s" and "plain t" and "canon s = canon t" and "storable s"
  shows "CanCoerceTo \<sigma> s t = Some True \<and> CanCoerceTo \<sigma> t s = Some True"
  using assms
proof (induction s arbitrary: t)
  case (FunctionType ps r v ve)
  then obtain ps' r' ve' where t: "t = FunctionType ps' r' v ve'" and eq: "map canon ps = map canon ps'"
    "canon r = canon r'" by (cases t) (auto split: if_splits)
  have "CanCoerceTo \<sigma> x y = Some True \<and> CanCoerceTo \<sigma> y x = Some True"
    if "x \<in> set ps" "y \<in> set ps'" "canon x = canon y" for x y
    using FunctionType.IH(1) [of x y] that FunctionType.prems t by (auto simp: list_all_iff)
  then have "all2M (\<lambda>x y. CanCoerceTo \<sigma> y x) ps ps' = Some True"
    "all2M (\<lambda>x y. CanCoerceTo \<sigma> y x) ps' ps = Some True"
    using all2M_map_eq [OF eq(1)] all2M_map_eq [OF eq(1) [symmetric]] by simp_all
  moreover have "CanCoerceTo \<sigma> r r' = Some True \<and> CanCoerceTo \<sigma> r' r = Some True"
    using FunctionType.IH(2) [of r'] FunctionType.prems t by simp
  ultimately show ?case
    using map_eq_imp_length_eq [OF eq(1)] by (simp add: t FunctionType_CanCoerceTo_def)
next
  case (MultipleReturnType ts)
  then obtain ts' where t: "t = MultipleReturnType ts'" and eq: "map canon ts = map canon ts'"
    by (cases t) (auto split: if_splits)
  have "CanCoerceTo \<sigma> x y = Some True \<and> CanCoerceTo \<sigma> y x = Some True"
    if "x \<in> set ts" "y \<in> set ts'" "canon x = canon y" for x y
    using MultipleReturnType.IH [of x y] that MultipleReturnType.prems t by (auto simp: list_all_iff)
  then have "all2M (CanCoerceTo \<sigma>) ts ts' = Some True" "all2M (CanCoerceTo \<sigma>) ts' ts = Some True"
    using all2M_map_eq [OF eq] all2M_map_eq [OF eq [symmetric]] by simp_all
  then show ?case
    using map_eq_imp_length_eq [OF eq] by (simp add: t MultipleReturnType_CanCoerceTo_def)
qed (case_tac t; auto simp: CanCoerceTo_methods Equals_canon TraitType_Equals_def
    simp del: Equals_simps split: if_splits)+

lemma CanCoerceTo_returns:
  assumes ok: "alias_ok \<sigma> rk" and "wf_ty s" and "wf_ty t"
  shows "CanCoerceTo \<sigma> s t \<noteq> None"
  using assms(2,3)
proof (induction "size s + size t" arbitrary: s t rule: less_induct)
  case less
  have eq: "Equals \<sigma> x y \<noteq> None" if "wf_ty x" for x y using Equals_returns [OF ok that] .
  have eqs: "Equals \<sigma> s y \<noteq> None" for y using less.prems(1) by (rule eq)
  show ?case
  proof (cases s)
    case (PointerType b mu)
    show ?thesis
    proof (cases t)
      case [simp]: (PointerType b' mu')
      have "CanCoerceTo \<sigma> b b' \<noteq> None"
        using less.hyps [of b b'] less.prems \<open>s = PointerType b mu\<close> by simp
      moreover have "orM (Equals \<sigma> b (PrimitiveTy PrimitiveVoid)) (Equals \<sigma> b' (PrimitiveTy PrimitiveVoid)) \<noteq> None"
        using eq less.prems \<open>s = PointerType b mu\<close> by (intro orM_returns) auto
      ultimately show ?thesis
        using eqs [of t] unfolding \<open>s = PointerType b mu\<close> CanCoerceTo_simps
        by (auto simp: PointerType_CanCoerceTo_def simp del: Equals_simps split: bind_splits
            intro!: orM_returns)
    qed (use eqs [of t] PointerType in \<open>auto simp: PointerType_CanCoerceTo_def simp del: Equals_simps
           intro!: orM_returns\<close>)
  next
    case (FunctionType ps r v ve)
    have "CanCoerceTo \<sigma> y x \<noteq> None"
      if "x \<in> set ps" "y \<in> set ps'" "t = FunctionType ps' r' v' ve'" for x y ps' r' v' ve'
      using less.hyps [of y x] that less.prems FunctionType size_list_estimation' [of x ps _ size]
        size_list_estimation' [of y ps' _ size]
      by (fastforce simp: list_all_iff)
    moreover have "CanCoerceTo \<sigma> r r' \<noteq> None" if "t = FunctionType ps' r' v' ve'" for ps' r' v' ve'
      using less.hyps [of r r'] that less.prems FunctionType by simp
    ultimately show ?thesis
      unfolding FunctionType
      by (cases t)
         (auto simp: FunctionType_CanCoerceTo_def andM_None_iff dest!: all2M_None iff del: not_None_eq)
  next
    case (MultipleReturnType ts)
    have "CanCoerceTo \<sigma> x y \<noteq> None"
      if "x \<in> set ts" "y \<in> set ts'" "t = MultipleReturnType ts'" for x y ts'
      using less.hyps [of x y] that less.prems MultipleReturnType size_list_estimation' [of x ts _ size]
        size_list_estimation' [of y ts' _ size]
      by (fastforce simp: list_all_iff)
    then show ?thesis
      unfolding MultipleReturnType
      by (cases t)
         (auto simp: MultipleReturnType_CanCoerceTo_def dest!: all2M_None iff del: not_None_eq)
  next
    case (SliceType b mu)
    then show ?thesis
      using eqs [of t] eq [of b] less.prems
      by (cases t)
         (auto simp: SliceType_CanCoerceTo_def orM_None_iff simp del: Equals_simps iff del: not_None_eq)
  next
    case (ArrayType b l)
    then show ?thesis
      using eqs [of t] eq [of b] less.prems
      by (cases t)
         (auto simp: ArrayType_CanCoerceTo_def orM_None_iff simp del: Equals_simps iff del: not_None_eq)
  next
    case (TraitPointerType tr mu)
    then show ?thesis
      by (cases t) (auto simp: TraitPointerType_CanCoerceTo_def TraitType_Equals_def)
  qed (use eqs [of t] less.prems in simp_all)
qed

section \<open>Casts and mutable access\<close>

lemma CanCastTo_simps [simp]:
  "CanCastTo \<sigma> NilType t = None"
  "CanCastTo \<sigma> NoInitializerType t = Some False"
  "CanCastTo \<sigma> UnresolvedEnum t = Some False"
  "CanCastTo \<sigma> (SequenceType b l) t = Some False"
  "CanCastTo \<sigma> ErrorType t = Some True"
  "CanCastTo \<sigma> UntypedInt t = Some (UntypedInt_CanCastTo t)"
  "CanCastTo \<sigma> UntypedFloat t = Some (UntypedFloat_CanCastTo t)"
  "CanCastTo \<sigma> (PrimitiveTy p) t = Some (PrimitiveType_CanCastTo p t)"
  "CanCastTo \<sigma> (FlagsType p vs ws) t = FlagsType_CanCastTo \<sigma> p vs ws t"
  "CanCastTo \<sigma> (TraitPointerType tr mu) t = TraitPointerType_CanCoerceTo \<sigma> tr mu t"
  "CanCastTo \<sigma> (PointerType b mu) t = PointerType_CanCastTo \<sigma> b mu t"
  "CanCastTo \<sigma> (SliceType b mu) t = SliceType_CanCastTo \<sigma> b mu t"
  "CanCastTo \<sigma> (ArrayType b l) t = ArrayType_CanCastTo \<sigma> b l t"
  "CanCastTo \<sigma> SelfType t = Equals \<sigma> SelfType t"
  "CanCastTo \<sigma> OpaqueType t = Equals \<sigma> OpaqueType t"
  "CanCastTo \<sigma> (TypeParameter q) t = Equals \<sigma> (TypeParameter q) t"
  "CanCastTo \<sigma> (StructType fs p' tu) t = Equals \<sigma> (StructType fs p' tu) t"
  "CanCastTo \<sigma> (UnionType m n fs) t = Equals \<sigma> (UnionType m n fs) t"
  "CanCastTo \<sigma> (EnumType m n i vs ws) t = Equals \<sigma> (EnumType m n i vs ws) t"
  "CanCastTo \<sigma> (TraitTy tr) t = Equals \<sigma> (TraitTy tr) t"
  "CanCastTo \<sigma> (FunctionType ps r v ve) t = Equals \<sigma> (FunctionType ps r v ve) t"
  "CanCastTo \<sigma> (MultipleReturnType ts) t = Equals \<sigma> (MultipleReturnType ts) t"
  by (subst CanCastTo.simps; simp only: CanCastTo_step.simps)+

text \<open>Named types are cast through their underlying types.\<close>

lemma CanCastTo_named:
  "CanCastTo \<sigma> (AliasRef r m n) t = castCompatible \<sigma> (AliasRef r m n) t"
  "Underlying \<sigma> t = Some t' \<Longrightarrow> CanCastTo \<sigma> (DefinedType m n u g ts) t = castCompatible \<sigma> u t'"
  by (subst CanCastTo.simps; simp add: castCompatible_def DefinedType_CanCastTo_def)+

text \<open>\<open>access t\<close>: whether a pointer or slice gives mutable access to its elements.\<close>

fun access :: "ty \<Rightarrow> bool option" where
  "access (PointerType b mu) = Some mu"
| "access (SliceType b mu) = Some mu"
| "access _ = None"

lemma upgradesMutableAccess_access:
  "upgradesMutableAccess s t \<longleftrightarrow> access s = Some False \<and> access t = Some True"
  by (cases s; cases t; auto simp: upgradesMutableAccess_def)

lemma castCompatible_upgrade:
  assumes "Underlying \<sigma> from = Some s" and "Underlying \<sigma> to = Some t"
    and "access s = Some False" and "access t = Some True"
  shows "castCompatible \<sigma> from to = Some False"
  using assms by (simp add: castCompatible_def castCompatible_step_def upgradesMutableAccess_access)

lemma andM_False [simp]: "andM a (Some False) \<noteq> Some True"
  by (simp add: andM_True_iff)

lemma CanCastTo_upgrade:
  assumes s: "Underlying \<sigma> from = Some s" and t: "Underlying \<sigma> to = Some t"
    and im: "access s = Some False" and mu: "access t = Some True"
  shows "CanCastTo \<sigma> from to \<noteq> Some True"
proof -
  have t2: "Underlying \<sigma> t = Some t" using Underlying_result [OF t] by (rule Underlying_idem)
  show ?thesis
  proof (cases "from")
    case (DefinedType m n u g ts)
    then have "castCompatible \<sigma> u t = Some False"
      using castCompatible_upgrade [OF _ t2 im mu] s by simp
    with DefinedType show ?thesis by (simp add: CanCastTo_named(2) [OF t])
  next
    case (AliasRef r m n)
    then show ?thesis
      using castCompatible_upgrade [OF s t im mu] by (simp add: CanCastTo_named(1))
  next
    case (PointerType b i)
    with s t im mu show ?thesis
      by (cases to) (auto simp: PointerType_CanCastTo_def PointerType_Equals_def orM_True_iff)
  next
    case (SliceType b i)
    with s t im mu show ?thesis
      by (cases to) (auto simp: SliceType_CanCastTo_def SliceType_Equals_def orM_True_iff)
  qed (use s im in auto)
qed

text \<open>A name for immutable access never equals a type that gives mutable access.\<close>

lemma Equals_upgrade:
  assumes ret: "Equals \<sigma> s t = Some r" and "Underlying \<sigma> s = Some u"
    and "access u = Some False" and "access t = Some True"
  shows "\<not> r"
proof -
  let ?P = "\<lambda>\<sigma> s t r. \<forall>u. Underlying \<sigma> s = Some u \<and> access u = Some False \<and> access t = Some True \<longrightarrow> \<not> r"
  have "?P \<sigma> s t r"
  proof (rule Equals.raw_induct [where P = ?P, OF _ ret])
    fix f :: "alias_store \<Rightarrow> ty \<Rightarrow> ty \<Rightarrow> bool run" and \<sigma> s t r
    assume IH: "\<And>\<sigma> s t r. f \<sigma> s t = Some r \<Longrightarrow> ?P \<sigma> s t r"
      and eq: "Equals_step \<sigma> (f \<sigma>) s t = Some r"
    show "?P \<sigma> s t r"
    proof (intro allI impI)
      fix u
      assume a: "Underlying \<sigma> s = Some u \<and> access u = Some False \<and> access t = Some True"
      then have t: "\<exists>b. t = PointerType b True \<or> t = SliceType b True" by (cases t) auto
      show "\<not> r"
      proof (cases s)
        case (AliasRef p m n)
        show ?thesis
        proof (cases "alias_target \<sigma> p")
          case None
          with a AliasRef show ?thesis by auto
        next
          case (Some v)
          with AliasRef eq t have "f \<sigma> v t = Some r \<or> \<not> r"
            by (auto simp: AliasRef_Equals_def split: if_splits)
          moreover have "Underlying \<sigma> v = Some u" using a AliasRef Some by simp
          ultimately show ?thesis using IH a by blast
        qed
      next
        case (DefinedType m n w g ts)
        with eq t show ?thesis by (auto simp: DefinedType_Equals_def)
      next
        case (PointerType b mu)
        with eq t a show ?thesis by (auto simp: PointerType_Equals_def andM_def split: option.splits if_splits)
      next
        case (SliceType b mu)
        with eq t a show ?thesis by (auto simp: SliceType_Equals_def)
      qed (use a in auto)
    qed
  qed
  with assms(2-4) show ?thesis by blast
qed

text \<open>An implicit conversion that would gain access is one between equal names.\<close>

lemma CanCoerceTo_upgrade:
  assumes s: "Underlying \<sigma> from = Some s" and t: "Underlying \<sigma> to = Some t"
    and im: "access s = Some False" and mu: "access t = Some True"
    and co: "CanCoerceTo \<sigma> from to = Some True"
  shows "is_named from \<and> is_named to \<and> Equals \<sigma> from to = Some True"
proof -
  have nt: "is_named to" if eq: "Equals \<sigma> from to = Some True"
  proof (rule ccontr)
    assume "\<not> is_named to"
    with t have "to = t" by (cases to) auto
    with Equals_upgrade [OF eq s im] mu show False by simp
  qed
  show ?thesis
  proof (cases "from")
    case (PointerType b i)
    with s t im mu co nt show ?thesis
      by (cases to) (auto simp: PointerType_CanCoerceTo_def PointerType_Equals_def orM_True_iff)
  next
    case (SliceType b i)
    with s t im mu co nt show ?thesis
      by (cases to) (auto simp: SliceType_CanCoerceTo_def SliceType_Equals_def orM_True_iff)
  qed (use s im co nt in auto)
qed

text \<open>Between two pointers, an explicit cast looks at the access only.\<close>

lemma pointer_cast:
  assumes "Equals \<sigma> b b' \<noteq> None"
  shows "CanExplicitCast \<sigma> (PointerType b mu) (PointerType b' mu') = Some (mu' \<longrightarrow> mu)"
  using assms
  by (auto simp: CanExplicitCast_def PointerType_CanCastTo_def PointerType_Equals_def andM_def orM_def
      split: option.splits)

section \<open>Casts at references that are not resolved\<close>

lemma unresolved_cast_not_fixed:
  assumes ret: "CanCastTo \<sigma> s t = Some b"
  shows "\<not> (\<exists>r m n u. s = AliasRef r m n \<and> alias_target \<sigma> r = None \<and>
    Underlying \<sigma> t = Some u \<and> Equals \<sigma> s u \<noteq> Some True)"
proof (rule CanCastTo.raw_induct [where P = "\<lambda>\<sigma> s t b. \<not> (\<exists>r m n u. s = AliasRef r m n \<and>
    alias_target \<sigma> r = None \<and> Underlying \<sigma> t = Some u \<and> Equals \<sigma> s u \<noteq> Some True)", OF _ ret])
  fix f :: "alias_store \<Rightarrow> ty \<Rightarrow> ty \<Rightarrow> bool run" and \<sigma> s t b
  assume IH: "\<And>\<sigma> s t b. f \<sigma> s t = Some b \<Longrightarrow> \<not> (\<exists>r m n u. s = AliasRef r m n \<and>
      alias_target \<sigma> r = None \<and> Underlying \<sigma> t = Some u \<and> Equals \<sigma> s u \<noteq> Some True)"
    and eq: "CanCastTo_step \<sigma> (f \<sigma>) s t = Some b"
  show "\<not> (\<exists>r m n u. s = AliasRef r m n \<and> alias_target \<sigma> r = None \<and>
      Underlying \<sigma> t = Some u \<and> Equals \<sigma> s u \<noteq> Some True)"
  proof
    assume "\<exists>r m n u. s = AliasRef r m n \<and> alias_target \<sigma> r = None \<and>
      Underlying \<sigma> t = Some u \<and> Equals \<sigma> s u \<noteq> Some True"
    then obtain r m n u where s: "s = AliasRef r m n" "alias_target \<sigma> r = None"
      and u: "Underlying \<sigma> t = Some u" and ne: "Equals \<sigma> s u \<noteq> Some True" by blast
    have "orM (Equals \<sigma> s u) (orM (f \<sigma> s u) (f \<sigma> u s)) = Some b"
      using eq u s by (simp add: castCompatible_step_def upgradesMutableAccess_def)
    then obtain c where "f \<sigma> s u = Some c"
      using ne by (cases "f \<sigma> s u") (auto simp: orM_def split: option.splits if_splits)
    moreover have "Underlying \<sigma> u = Some u" using Underlying_result [OF u] by (rule Underlying_idem)
    ultimately show False using IH s ne by blast
  qed
qed

lemma unresolved_cast_diverges:
  assumes "alias_target \<sigma> r = None" and "Underlying \<sigma> t = Some u"
    and "Equals \<sigma> (AliasRef r m n) u \<noteq> Some True"
  shows "CanCastTo \<sigma> (AliasRef r m n) t = None"
  using unresolved_cast_not_fixed assms by (cases "CanCastTo \<sigma> (AliasRef r m n) t") blast+

section \<open>Casts return where references are resolved\<close>

text \<open>\<open>resolved\<close>: the name does not end at an unresolved reference.\<close>

definition resolved :: "alias_store \<Rightarrow> ty \<Rightarrow> bool" where
  "resolved \<sigma> t \<longleftrightarrow> (\<exists>u. Underlying \<sigma> t = Some u \<and> \<not> is_named u \<and> wf_ty u)"

lemma leaf_cast_returns:
  assumes ok: "alias_ok \<sigma> rk" and "wf_ty s" and "\<not> is_named s" and "wf_ty t"
  shows "CanCastTo \<sigma> s t \<noteq> None"
proof -
  have eq: "Equals \<sigma> x y \<noteq> None" if "wf_ty x" for x y using Equals_returns [OF ok that] .
  have eqs: "Equals \<sigma> s y \<noteq> None" for y using assms(2) by (rule eq)
  show ?thesis
  proof (cases s)
    case (PointerType b mu)
    then show ?thesis
      using eqs [of t]
      by (cases t)
         (auto simp: PointerType_CanCastTo_def orM_None_iff simp del: Equals_simps iff del: not_None_eq)
  next
    case (SliceType b mu)
    then show ?thesis
      using eqs [of t] eq [of b] assms(2)
      by (cases t)
         (auto simp: SliceType_CanCastTo_def orM_None_iff simp del: Equals_simps iff del: not_None_eq)
  next
    case (ArrayType b l)
    then show ?thesis
      using eqs [of t] eq [of b] assms(2)
      by (cases t)
         (auto simp: ArrayType_CanCastTo_def orM_None_iff simp del: Equals_simps iff del: not_None_eq)
  next
    case (FlagsType p vs ws)
    then show ?thesis
      using eq [OF assms(4)]
      by (auto simp: FlagsType_CanCastTo_def orM_None_iff simp del: Equals_simps iff del: not_None_eq)
  next
    case (TraitPointerType tr mu)
    then show ?thesis
      by (cases t) (auto simp: TraitPointerType_CanCoerceTo_def TraitType_Equals_def)
  qed (use eqs [of t] assms(2,3) in simp_all)
qed

lemma castCompatible_returns:
  assumes ok: "alias_ok \<sigma> rk" and "resolved \<sigma> s" and "resolved \<sigma> t"
  shows "castCompatible \<sigma> s t \<noteq> None"
proof -
  obtain u v where u: "Underlying \<sigma> s = Some u" "\<not> is_named u" "wf_ty u"
    and v: "Underlying \<sigma> t = Some v" "\<not> is_named v" "wf_ty v"
    using assms(2,3) by (auto simp: resolved_def)
  then show ?thesis
    using leaf_cast_returns [OF ok] Equals_returns [OF ok]
    by (simp add: castCompatible_def castCompatible_step_def orM_None_iff del: not_None_eq)
qed

lemma resolved_underlying:
  "resolved \<sigma> t \<Longrightarrow> Underlying \<sigma> t = Some u \<Longrightarrow> resolved \<sigma> u"
  by (auto simp: resolved_def)

lemma resolved_defined [simp]: "resolved \<sigma> (DefinedType m n u g ts) = resolved \<sigma> u"
  by (simp add: resolved_def)

lemma CanCastTo_returns:
  assumes ok: "alias_ok \<sigma> rk" and "resolved \<sigma> s" and "resolved \<sigma> t" and wf: "wf_ty s" "wf_ty t"
  shows "CanCastTo \<sigma> s t \<noteq> None"
proof (cases "is_named s")
  case False
  then show ?thesis by (rule leaf_cast_returns [OF ok wf(1) _ wf(2)])
next
  case True
  obtain t' where t': "Underlying \<sigma> t = Some t'" using assms(3) by (auto simp: resolved_def)
  show ?thesis
  proof (cases s)
    case (DefinedType m n u g ts)
    then show ?thesis
      using castCompatible_returns [OF ok _ resolved_underlying [OF assms(3) t'], of u] assms(2)
      by (simp add: CanCastTo_named(2) [OF t'] del: not_None_eq)
  next
    case (AliasRef r m n)
    then show ?thesis
      using castCompatible_returns [OF ok assms(2,3)]
      by (simp add: CanCastTo_named(1) del: not_None_eq)
  qed (use True in simp_all)
qed

end
