(* ===== verification/Types_Compat_Properties.thy ===== *)
theory Types_Compat_Properties
  imports Types_Compat_Facts
begin

text \<open>The properties of type compatibility that the manifest names.\<close>

text \<open>An alias store with one recursive list type: its reference leads back to the struct.\<close>

definition list_node :: ty where
  "list_node = DefinedType ''m'' ''Node''
     (StructType [(''value'', i32), (''next'', PointerType (AliasRef (Some 0) ''m'' ''Node'') True)]
        False None) [] []"

definition list_store :: alias_store where
  "list_store = [0 \<mapsto> list_node]"

lemma list_store_ok: "alias_ok list_store (\<lambda>_. 0)"
  by (auto simp: alias_ok_def alias_target_def list_store_def list_node_def split: if_splits)

text \<open>
  C10: the compatibility methods return on well-formed types, recursive ones included, as long
  as following names alone (without passing a pointer, slice or aggregate) comes to an end:
  \<open>Underlying\<close>, \<open>Equals\<close> and \<open>CanCoerceTo\<close> for all of them, and \<open>CanCastTo\<close> and
  \<open>castCompatible\<close> when both types lead to a resolved type.
\<close>

theorem compatibility_terminates:
  assumes "alias_ok \<sigma> rk" and "wf_ty s" and "wf_ty t"
  shows "Underlying \<sigma> s \<noteq> None \<and> Equals \<sigma> s t \<noteq> None \<and> CanCoerceTo \<sigma> s t \<noteq> None \<and>
    (resolved \<sigma> s \<and> resolved \<sigma> t \<longrightarrow> CanCastTo \<sigma> s t \<noteq> None \<and> castCompatible \<sigma> s t \<noteq> None)"
  using Underlying_returns [OF assms(1), of s] Equals_returns [OF assms(1,2)]
    CanCoerceTo_returns [OF assms] CanCastTo_returns [OF assms(1) _ _ assms(2,3)]
    castCompatible_returns [OF assms(1)]
  by auto

theorem compatibility_terminates_witness:
  "Equals list_store list_node (AliasRef (Some 0) ''m'' ''Node'') \<noteq> None \<and>
   CanCastTo list_store list_node (AliasRef (Some 0) ''m'' ''Node'') \<noteq> None"
proof -
  have "wf_ty list_node" "wf_ty (AliasRef (Some 0) ''m'' ''Node'')"
    by (simp_all add: list_node_def)
  moreover have "resolved list_store list_node"
    "resolved list_store (AliasRef (Some 0) ''m'' ''Node'')"
    by (simp_all add: resolved_def list_node_def list_store_def alias_target_def)
  ultimately show ?thesis using compatibility_terminates [OF list_store_ok] by blast
qed

text \<open>
  C15: on plain types (no reference, no trait behind a name) \<open>Equals\<close> decides equality of
  canonical forms, and so is an equivalence relation: nominal types by module and name,
  structs by packing, field names and field types, functions by parameters, result and
  variadic flag (not by the variadic element), parameters by owner and index.
\<close>

theorem equality_is_structural:
  assumes "plain s" and "plain t"
  shows "Equals \<sigma> s t = Some (canon s = canon t)"
  using assms by (rule Equals_canon)

theorem equality_is_structural_witness:
  "Equals Map.empty (FunctionType [SliceType u8 False] i32 True u8)
     (FunctionType [SliceType u8 False] i32 True i64) = Some True \<and>
   Equals Map.empty (PointerType i32 True) (PointerType i32 False) = Some False"
  using equality_is_structural [of "FunctionType [SliceType u8 False] i32 True u8"
      "FunctionType [SliceType u8 False] i32 True i64" Map.empty]
    equality_is_structural [of "PointerType i32 True" "PointerType i32 False" Map.empty]
  by simp

text \<open>
  \<open>Equals\<close> is reflexive on every well-formed type, references included, and equal plain
  types coerce into each other unless a literal marker (\<open>---\<close>, an unresolved enum, a sequence
  literal) occurs in them.
\<close>

theorem coercion_extends_equality:
  assumes "wf_ty s"
  shows "Equals \<sigma> s s = Some True \<and>
    (plain s \<and> plain t \<and> storable s \<and> Equals \<sigma> s t = Some True \<longrightarrow>
       CanCoerceTo \<sigma> s t = Some True \<and> CanCoerceTo \<sigma> t s = Some True)"
  using Equals_refl [OF assms] coerces_canon Equals_canon by auto

theorem coercion_extends_equality_witness:
  "Equals list_store list_node list_node = Some True \<and>
   CanCoerceTo Map.empty (FunctionType [u8] i32 True u8) (FunctionType [u8] i32 True i64) = Some True"
proof -
  have "Equals list_store list_node list_node = Some True"
    using coercion_extends_equality [of list_node list_store] by (simp add: list_node_def)
  moreover have "Equals Map.empty (FunctionType [u8] i32 True u8) (FunctionType [u8] i32 True i64)
      = Some True" by code_simp
  ultimately show ?thesis
    using coercion_extends_equality [of "FunctionType [u8] i32 True u8" Map.empty
        "FunctionType [u8] i32 True i64"]
    by simp
qed

text \<open>
  C9: a pointer or slice that gives immutable access to what it points to is never turned into
  one that gives mutable access to it, through any chain of type names: no explicit cast is
  allowed, and the only implicit conversion is from a name to itself (two names that are
  \<open>Equals\<close>). This is about the access through the pointer itself; what lies behind a second
  pointer is the subject of the next property.
\<close>

theorem casts_keep_immutability:
  assumes "Underlying \<sigma> from = Some s" and "Underlying \<sigma> to = Some t"
    and "access s = Some False" and "access t = Some True"
  shows "CanCastTo \<sigma> from to \<noteq> Some True \<and> CanExplicitCast \<sigma> from to \<noteq> Some True \<and>
    (CanCoerceTo \<sigma> from to = Some True \<longrightarrow>
       is_named from \<and> is_named to \<and> Equals \<sigma> from to = Some True)"
  using CanCastTo_upgrade [OF assms] castCompatible_upgrade [OF assms] CanCoerceTo_upgrade [OF assms]
  by (auto simp: CanExplicitCast_def orM_True_iff andM_True_iff)

theorem casts_keep_immutability_witness:
  "CanExplicitCast Map.empty (DefinedType ''m'' ''A'' (PointerType u8 False) [] [])
     (PointerType u8 True) \<noteq> Some True \<and>
   CanCoerceTo Map.empty (DefinedType ''m'' ''A'' (PointerType u8 False) [] [])
     (PointerType u8 True) \<noteq> Some True"
  using casts_keep_immutability [of Map.empty
      "DefinedType ''m'' ''A'' (PointerType u8 False) [] []" "PointerType u8 False"
      "PointerType u8 True" "PointerType u8 True"]
  by simp

text \<open>
  C37: an explicit cast between pointers compares the access of the two pointers and nothing
  else. Whatever they point to, it is allowed unless it gains access; so a pointer to an
  immutable pointer can be cast to a pointer to a mutable one, and writing through the result
  needs no further cast. The implicit conversion refuses this.
\<close>

theorem pointer_casts_ignore_targets:
  assumes "Equals \<sigma> b b' \<noteq> None"
  shows "CanExplicitCast \<sigma> (PointerType b mu) (PointerType b' mu') = Some (mu' \<longrightarrow> mu) \<and>
    CanExplicitCast \<sigma> (PointerType (PointerType b False) mu) (PointerType (PointerType b' True) mu)
      = Some True \<and>
    CanCoerceTo \<sigma> (PointerType (PointerType b False) mu) (PointerType (PointerType b' True) mu')
      = Some False"
proof -
  have "Equals \<sigma> (PointerType b False) (PointerType b' True) = Some False"
    using assms by (auto simp: PointerType_Equals_def andM_def)
  then show ?thesis
    using assms pointer_cast [of \<sigma> "PointerType b False" "PointerType b' True" mu mu]
    by (simp add: pointer_cast PointerType_CanCoerceTo_def PointerType_Equals_def)
qed

theorem pointer_casts_ignore_targets_witness:
  "CanExplicitCast Map.empty (PointerType (PointerType u8 False) False)
     (PointerType (PointerType u8 True) False) = Some True"
  using pointer_casts_ignore_targets [of Map.empty u8 u8 False False] by simp

text \<open>
  C36: the check does not cover trait pointers. Directly, an immutable \<open>dyn\<close> pointer cannot
  be cast to a mutable one, but through two nominal types it can: \<open>upgradesMutableAccess\<close>
  ignores trait pointers and \<open>castCompatible\<close> also tries the reverse direction, which drops
  mutability and is allowed.
\<close>

theorem trait_pointer_cast_gains_mutability:
  "CanExplicitCast \<sigma> (TraitPointerType tr False) (TraitPointerType tr True) = Some False \<and>
   CanExplicitCast \<sigma> (DefinedType m n (TraitPointerType tr False) g ts)
     (DefinedType m' n' (TraitPointerType tr True) g' ts') = Some True"
  by (simp add: CanExplicitCast_def CanCastTo_named castCompatible_def castCompatible_step_def
      upgradesMutableAccess_def TraitPointerType_Equals_def TraitPointerType_CanCoerceTo_def
      TraitType_Equals_def)

text \<open>
  casting a reference whose target is not set yet never returns, unless the two sides are
  the same name: \<open>castCompatible\<close> calls \<open>CanCastTo\<close> on the reference, which calls
  \<open>castCompatible\<close> on the same reference again.
\<close>

theorem unresolved_reference_cast_overflows:
  assumes "alias_target \<sigma> r = None" and "Underlying \<sigma> t = Some u"
    and "Equals \<sigma> (AliasRef r m n) u \<noteq> Some True"
  shows "CanCastTo \<sigma> (AliasRef r m n) t = None"
  using assms by (rule unresolved_cast_diverges)

theorem unresolved_reference_cast_overflows_witness:
  "CanCastTo Map.empty (AliasRef None ''m'' ''T'') i32 = None"
  using unresolved_reference_cast_overflows [of Map.empty None i32 i32 "''m''" "''T''"]
  by (simp add: AliasRef_Equals_def)

text \<open>
  C38: which integers are implicitly converted into which. Between the fixed-width types the
  conversion is exactly value-preserving widening within one signedness; \<open>usz\<close> takes every
  integer and goes into no other type; \<open>isz\<close> goes into every signed type and takes every
  signed type. Where a pointer has \<open>w\<close> bits (32 or 64), the conversions that can lose a value
  are therefore exactly these: signed integers to \<open>usz\<close>, \<open>isz\<close> to a narrower signed type
  and, on 32 bits, \<open>u64\<close> to \<open>usz\<close> and \<open>i64\<close> to \<open>isz\<close>.
\<close>

theorem integer_coercions:
  assumes "prim_integer p" and "prim_integer q" and "w = 32 \<or> w = 64"
  shows "CanCoerceTo \<sigma> (PrimitiveTy p) (PrimitiveTy q) =
      Some (if q = PrimitiveUsz then True
            else if p = PrimitiveUsz then False
            else if p = PrimitiveIsz \<or> q = PrimitiveIsz then prim_signed p \<and> prim_signed q
            else prim_signed p = prim_signed q \<and> int_values w p \<subseteq> int_values w q) \<and>
    (CanCoerceTo \<sigma> (PrimitiveTy p) (PrimitiveTy q) = Some True \<and> \<not> int_values w p \<subseteq> int_values w q \<longleftrightarrow>
       (prim_signed p \<and> q = PrimitiveUsz) \<or>
       (p = PrimitiveIsz \<and> prim_signed q \<and> int_bits w q < w) \<or>
       (w = 32 \<and> (p, q) \<in> {(PrimitiveU64, PrimitiveUsz), (PrimitiveI64, PrimitiveIsz)}))"
proof -
  have c: "CanCoerceTo \<sigma> (PrimitiveTy p) (PrimitiveTy q) = Some (prim_coerces p q)"
    by (simp add: PrimitiveType_CanCoerceTo_def)
  show ?thesis
    unfolding c option.inject eq_True by (rule integer_coercion_table [OF assms])
qed

theorem integer_coercions_witness:
  "CanCoerceTo Map.empty (PrimitiveTy PrimitiveIsz) (PrimitiveTy PrimitiveI8) = Some True \<and>
   \<not> int_values 64 PrimitiveIsz \<subseteq> int_values 64 PrimitiveI8 \<and>
   CanCoerceTo Map.empty (PrimitiveTy PrimitiveU8) (PrimitiveTy PrimitiveI64) = Some False"
  using integer_coercions [of PrimitiveIsz PrimitiveI8 64 Map.empty]
    integer_coercions [of PrimitiveU8 PrimitiveI64 64 Map.empty]
  by (simp add: prim_classes)

text \<open>
  promoting two numeric primitive types commutes; it fails exactly for integers of
  different signedness; otherwise the result is the least type both operands coerce to.
\<close>

theorem promotion_is_least_upper_bound:
  assumes "prim_numeric p" and "prim_numeric q"
  shows "PromoteNumeric \<sigma> (PrimitiveTy p) (PrimitiveTy q) =
      PromoteNumeric \<sigma> (PrimitiveTy q) (PrimitiveTy p) \<and>
    (PromoteNumeric \<sigma> (PrimitiveTy p) (PrimitiveTy q) = Some ErrorType \<longleftrightarrow>
       prim_integer p \<and> prim_integer q \<and> prim_signed p \<noteq> prim_signed q) \<and>
    (\<forall>r. PromoteNumeric \<sigma> (PrimitiveTy p) (PrimitiveTy q) = Some (PrimitiveTy r) \<longrightarrow>
       prim_coerces p r \<and> prim_coerces q r \<and>
       (\<forall>r'. prim_coerces p r' \<and> prim_coerces q r' \<longrightarrow> prim_coerces r r'))"
proof -
  have "\<forall>r'. prim_coerces p r' \<and> prim_coerces q r' \<longrightarrow> prim_coerces r r'"
    and "prim_coerces p r" and "prim_coerces q r"
    if "PromoteNumeric \<sigma> (PrimitiveTy p) (PrimitiveTy q) = Some (PrimitiveTy r)" for r
    using that assms
    by (cases p; cases q; simp add: PromoteNumeric_def PromoteIntegers_def widerSigned_def
        widerUnsigned_def prim_coerces_def prim_classes; fastforce)+
  moreover have "PromoteNumeric \<sigma> (PrimitiveTy p) (PrimitiveTy q) =
      PromoteNumeric \<sigma> (PrimitiveTy q) (PrimitiveTy p)"
    and "PromoteNumeric \<sigma> (PrimitiveTy p) (PrimitiveTy q) = Some ErrorType \<longleftrightarrow>
       prim_integer p \<and> prim_integer q \<and> prim_signed p \<noteq> prim_signed q"
    using assms
    by (cases p; cases q; simp add: PromoteNumeric_def PromoteIntegers_def widerSigned_def
        widerUnsigned_def prim_classes)+
  ultimately show ?thesis by blast
qed

theorem promotion_is_least_upper_bound_witness:
  "PromoteNumeric Map.empty i32 f32 = PromoteNumeric Map.empty f32 i32"
  using promotion_is_least_upper_bound [of PrimitiveI32 PrimitiveF32 Map.empty]
  by (simp add: prim_classes)

end
