(* ===== verification/Types_Identity.thy ===== *)
theory Types_Identity
  imports Types_Subst
begin

text \<open>
  The two textual encodings of a type in \<^verbatim>\<open>src/types/type.go\<close>: \<open>String\<close>, used in
  diagnostics, and \<open>Identity\<close>, the key of specialization caches, symbol mangling and the
  visited sets of the traversals; and the keys of generic instances that are made of identities.
\<close>

section \<open>String\<close>

definition qualified_name :: "string \<Rightarrow> string \<Rightarrow> string" where
  "qualified_name m n = (if m = [] then n else m @ ''.'' @ n)"

definition TraitType_String :: "'t trait_type \<Rightarrow> string" where
  "TraitType_String t = (if tr_Any t then ''Any'' else qualified_name (tr_Module t) (tr_Name t))"

definition mut_prefix :: "bool \<Rightarrow> string \<Rightarrow> string" where
  "mut_prefix mu s = (if mu then s else [])"

text \<open>\<open>writeFields\<close> on the names and the texts of the field types.\<close>

definition writeFields :: "(string \<times> string) list \<Rightarrow> string" where
  "writeFields fs =
     join_strings '', '' (map (\<lambda>f. (if fst f \<noteq> [] then fst f @ '': '' else []) @ snd f) fs)"

text \<open>The parameter list of a function type: a typed variadic prints its element type.\<close>

definition variadic_parts :: "bool \<Rightarrow> string run list \<Rightarrow> string run \<Rightarrow> string run list" where
  "variadic_parts v parts element =
    (if v \<and> parts \<noteq> [] then butlast parts @ [map_option (append ''...'') element] else parts)"

text \<open>
  The methods \<open>String\<close> of the composite types, on the texts of their components. \<open>String\<close>
  is called on the components, so a nil component panics.
\<close>

definition PointerType_String :: "string run \<Rightarrow> bool \<Rightarrow> string run" where
  "PointerType_String b mu = map_option (\<lambda>s. ''*'' @ mut_prefix mu ''mut '' @ s) b"

definition SliceType_String :: "string run \<Rightarrow> bool \<Rightarrow> string run" where
  "SliceType_String b mu = map_option (\<lambda>s. ''[]'' @ mut_prefix mu ''mut '' @ s) b"

definition ArrayType_String :: "string run \<Rightarrow> int \<Rightarrow> string run" where
  "ArrayType_String b l = map_option (\<lambda>s. ''['' @ decimal_int l @ '']'' @ s) b"

definition StructType_String :: "string list \<Rightarrow> string run list \<Rightarrow> bool \<Rightarrow> string run" where
  "StructType_String names parts p =
     map_option (\<lambda>ss. ''struct '' @ (if p then ''@packed '' else []) @ ''{ '' @
         writeFields (zip names ss) @ '' }'')
       (those parts)"

definition UnionType_String ::
  "string \<Rightarrow> string \<Rightarrow> string list \<Rightarrow> string run list \<Rightarrow> string run" where
  "UnionType_String m n names parts =
     (if n \<noteq> [] then Some (qualified_name m n)
      else map_option (\<lambda>ss. ''union { '' @ writeFields (zip names ss) @ '' }'') (those parts))"

definition EnumType_String :: "string \<Rightarrow> string \<Rightarrow> string list \<Rightarrow> string" where
  "EnumType_String m n vs =
     (if n \<noteq> [] then qualified_name m n else ''enum { '' @ join_strings '', '' vs @ '' }'')"

definition FlagsType_String :: "PrimitiveType \<Rightarrow> string" where
  "FlagsType_String p = ''flags('' @ PrimitiveType_String p @ '')''"

definition TraitPointerType_String :: "'t trait_type \<Rightarrow> bool \<Rightarrow> string" where
  "TraitPointerType_String t mu = (if mu then ''*mut dyn '' else ''*dyn '') @ TraitType_String t"

definition FunctionType_String ::
  "string run list \<Rightarrow> string run \<Rightarrow> bool \<Rightarrow> string run \<Rightarrow> string run" where
  "FunctionType_String ps r v ve =
     Option.bind (those (variadic_parts v ps ve)) (\<lambda>ss.
       map_option (\<lambda>s. ''('' @ join_strings '', '' ss @ ''): '' @ s) r)"

definition MultipleReturnType_String :: "string run list \<Rightarrow> string run" where
  "MultipleReturnType_String parts =
     map_option (\<lambda>ss. ''('' @ join_strings '', '' ss @ '')'') (those parts)"

fun type_String :: "ty \<Rightarrow> string run" where
  "type_String NilType = None"
| "type_String SelfType = Some ''Self''"
| "type_String NoInitializerType = Some ''<no initializer>''"
| "type_String OpaqueType = Some ''opaque''"
| "type_String ErrorType = Some ''<error>''"
| "type_String UntypedInt = Some ''<untyped int>''"
| "type_String UntypedFloat = Some ''<untyped float>''"
| "type_String UnresolvedEnum = Some ''<unresolved enum>''"
| "type_String (PrimitiveTy p) = Some (PrimitiveType_String p)"
| "type_String (TypeParameter p) = Some (tp_Name p)"
| "type_String (DefinedType m n u g ts) = Some (qualified_name m n)"
| "type_String (AliasRef r m n) = Some (qualified_name m n)"
| "type_String (PointerType b mu) = PointerType_String (type_String b) mu"
| "type_String (SliceType b mu) = SliceType_String (type_String b) mu"
| "type_String (ArrayType b l) = ArrayType_String (type_String b) l"
| "type_String (SequenceType b l) = Some ''<array or slice literal>''"
| "type_String (StructType fs p tu) =
     StructType_String (map fst fs) (map (\<lambda>f. type_String (snd f)) fs) p"
| "type_String (UnionType m n fs) =
     UnionType_String m n (map fst fs) (map (\<lambda>f. type_String (snd f)) fs)"
| "type_String (EnumType m n i vs ws) = Some (EnumType_String m n vs)"
| "type_String (FlagsType p vs ws) = Some (FlagsType_String p)"
| "type_String (TraitTy t) = Some (TraitType_String t)"
| "type_String (TraitPointerType t mu) = Some (TraitPointerType_String t mu)"
| "type_String (FunctionType ps r v ve) =
     FunctionType_String (map type_String ps) (type_String r) v (type_String ve)"
| "type_String (MultipleReturnType ts) = MultipleReturnType_String (map type_String ts)"

section \<open>Identity\<close>

fun Identity :: "ty \<Rightarrow> string" where
  "Identity NilType = ''<nil>''"
| "Identity SelfType = ''trait-self''"
| "Identity (TypeParameter p) = ''param('' @ TypeParameter_Key p @ '')''"
| "Identity (DefinedType m n u g ts) =
     (if g \<noteq> [] then
        ''defined('' @ m @ '':'' @ g @ ''<'' @ join_strings '','' (map Identity ts) @ ''>)''
      else ''defined('' @ m @ '':'' @ n @ '')'')"
| "Identity (AliasRef r m n) = ''alias('' @ m @ '':'' @ n @ '')''"
| "Identity (PointerType b mu) = ''ptr('' @ mut_prefix mu ''mut:'' @ Identity b @ '')''"
| "Identity (SliceType b mu) = ''slice('' @ mut_prefix mu ''mut:'' @ Identity b @ '')''"
| "Identity (ArrayType b l) = ''array('' @ decimal_int l @ '':'' @ Identity b @ '')''"
| "Identity (FunctionType ps r v ve) =
     ''fn('' @ join_strings '','' (map Identity ps) @ '')->'' @ Identity r"
| "Identity (MultipleReturnType ts) = ''multi('' @ join_strings '','' (map Identity ts) @ '')''"
| "Identity (PrimitiveTy p) = ''primitive('' @ PrimitiveType_String p @ '')''"
| "Identity (StructType fs p tu) =
     ''struct('' @ mut_prefix p ''packed:'' @
       join_strings '','' (map (\<lambda>f. fst f @ '':'' @ Identity (snd f)) fs) @ '')''"
| "Identity (UnionType m n fs) = ''union('' @ m @ '':'' @ n @ '')''"
| "Identity (EnumType m n i vs ws) =
     (if i \<noteq> [] then ''enum('' @ i @ '')'' else ''enum('' @ m @ '':'' @ n @ '')'')"
| "Identity (FlagsType p vs ws) = ''flags('' @ FlagsType_String p @ '')''"
| "Identity (TraitTy t) = ''trait('' @ TraitType_String t @ '')''"
| "Identity (TraitPointerType t mu) =
     ''dyn('' @ mut_prefix mu ''mut:'' @ ''trait('' @ TraitType_String t @ '')'' @ '')''"
| "Identity NoInitializerType = ''<no initializer>''"
| "Identity OpaqueType = ''opaque''"
| "Identity ErrorType = ''<error>''"
| "Identity UntypedInt = ''<untyped int>''"
| "Identity UntypedFloat = ''<untyped float>''"
| "Identity UnresolvedEnum = ''<unresolved enum>''"
| "Identity (SequenceType b l) = ''<array or slice literal>''"

section \<open>Specialization keys\<close>

text \<open>
  The texts by which \<^verbatim>\<open>src/sema/generics.go\<close> and \<^verbatim>\<open>src/loader/specializations.go\<close>
  recognise an instance of a generic declaration. \<open>SpecializationName\<close> takes the hexadecimal
  SHA-256 digest of Go's library as the parameter \<open>digest\<close>.
\<close>

definition genericOwner :: "string \<Rightarrow> string \<Rightarrow> string" where
  "genericOwner m n = m @ '':'' @ n"

definition specializationKey :: "ty list \<Rightarrow> string" where
  "specializationKey ts = join_strings '','' (map Identity ts)"

definition specialization_text :: "string \<Rightarrow> string \<Rightarrow> ty list \<Rightarrow> string" where
  "specialization_text m n ts = genericOwner m n @ ''<'' @ specializationKey ts @ ''>''"

definition SpecializationName ::
  "(string \<Rightarrow> string) \<Rightarrow> string \<Rightarrow> string \<Rightarrow> ty list \<Rightarrow> string" where
  "SpecializationName digest m n ts = n @ ''$'' @ digest (specialization_text m n ts)"

definition specializationRequestKey :: "string \<Rightarrow> string \<Rightarrow> ty list \<Rightarrow> string" where
  "specializationRequestKey m n ts =
     m @ [CHR 0x00] @ n @ [CHR 0x00] @ join_strings '','' (map Identity ts)"

lemma Identity_detached [simp]: "Identity (DetachForSerialization t) = Identity t"
proof (induction t)
  case (StructType fs p tu)
  have "Identity (DetachForSerialization (snd f)) = Identity (snd f)" if "f \<in> set fs" for f
    using StructType.IH(1) [of f "snd f"] that by (simp add: snds.intros)
  then show ?case by (simp add: comp_def cong: map_cong)
next
  case (TypeParameter p)
  then show ?case by (simp add: TypeParameter_Key_def type_parameter.map_sel)
next
  case (TraitTy tr)
  then show ?case by (simp add: TraitType_String_def trait_type.map_sel)
next
  case (TraitPointerType tr mu)
  then show ?case by (simp add: TraitType_String_def trait_type.map_sel)
qed (simp_all add: comp_def cong: map_cong)

end
