(* ===== verification/Types_Graph.thy ===== *)
theory Types_Graph
  imports Types_Compat Types_Identity
begin

text \<open>
  The traversals of \<^verbatim>\<open>src/types/type.go\<close> that follow references through the alias store
  and guard against cycles with visited sets: \<open>IsComplete\<close>, \<open>HasError\<close>,
  \<open>HasTaggedUnion\<close>, \<open>HasTraitPointer\<close>, and the queries \<open>HasUntyped\<close>, \<open>TaggedUnion\<close>,
  \<open>TaggedUnionRepr\<close>, \<open>Variant\<close> and \<open>VariantValue\<close>.
\<close>

section \<open>Completeness\<close>

text \<open>
  \<open>D\<close> holds the identities of the nominal types and \<open>A\<close> the references on the path to
  the current type; both are removed again on return, so they are passed down by value.
\<close>

fun isComplete_step ::
  "alias_store \<Rightarrow> (string set \<Rightarrow> alias_ptr set \<Rightarrow> ty \<Rightarrow> bool run) \<Rightarrow>
   string set \<Rightarrow> alias_ptr set \<Rightarrow> ty \<Rightarrow> bool run" where
  "isComplete_step \<sigma> rec D A (DefinedType m n u g ts) =
     (let key = Identity (DefinedType m n u g ts)
      in if key \<in> D then Some False else rec (insert key D) A u)"
| "isComplete_step \<sigma> rec D A (AliasRef r m n) =
     (case r of
        None \<Rightarrow> Some False
      | Some p \<Rightarrow>
          if p \<in> A then Some False
          else (case alias_target \<sigma> r of
                  None \<Rightarrow> Some False
                | Some u \<Rightarrow> rec D (insert p A) u))"
| "isComplete_step \<sigma> rec D A OpaqueType = Some False"
| "isComplete_step \<sigma> rec D A (TraitTy tr) = Some False"
| "isComplete_step \<sigma> rec D A SelfType = Some False"
| "isComplete_step \<sigma> rec D A (StructType fs p tu) = allM (\<lambda>f. rec D A (snd f)) fs"
| "isComplete_step \<sigma> rec D A (UnionType m n fs) = allM (\<lambda>f. rec D A (snd f)) fs"
| "isComplete_step \<sigma> rec D A (SliceType b mu) = rec D A b"
| "isComplete_step \<sigma> rec D A (ArrayType b l) = rec D A b"
| "isComplete_step \<sigma> rec D A (MultipleReturnType ts) = allM (rec D A) ts"
| "isComplete_step \<sigma> rec D A _ = Some True"

lemma isComplete_step_mono [partial_function_mono]:
  assumes "\<And>D A t. mono_option (\<lambda>f. R f D A t)"
  shows "mono_option (\<lambda>f. isComplete_step \<sigma> (R f) D A t)"
proof (cases "\<exists>r m n. t = AliasRef r m n")
  case True
  then obtain r m n where t: "t = AliasRef r m n" by blast
  show ?thesis
    unfolding t isComplete_step.simps
    by (cases r; cases "alias_target \<sigma> r") (simp_all add: run_mono option.const_mono assms)
next
  case False
  then show ?thesis by (cases t) (simp_all add: Let_def run_mono option.const_mono assms)
qed

partial_function (option) isComplete ::
  "alias_store \<Rightarrow> string set \<Rightarrow> alias_ptr set \<Rightarrow> ty \<Rightarrow> bool run" where
  "isComplete \<sigma> D A t = isComplete_step \<sigma> (isComplete \<sigma>) D A t"

declare isComplete.simps [code]

definition IsComplete :: "alias_store \<Rightarrow> ty \<Rightarrow> bool run" where
  "IsComplete \<sigma> t = isComplete \<sigma> {} {} t"

section \<open>Traversals with a growing visited set\<close>

text \<open>
  \<open>hasError\<close> and \<open>hasTaggedUnion\<close> share their two maps between siblings and never delete
  an entry: the maps are a state that every call returns.
\<close>

type_synonym visited = "string set \<times> alias_ptr set"
type_synonym traversal = "visited \<Rightarrow> (bool \<times> visited) run"

definition or_visit :: "traversal \<Rightarrow> traversal \<Rightarrow> traversal" where
  "or_visit f g v = do {
     r \<leftarrow> f v;
     if fst r then Some (True, snd r) else g (snd r) }"

definition not_found :: traversal where
  "not_found v = Some (False, v)"

definition any_visit :: "('a \<Rightarrow> traversal) \<Rightarrow> 'a list \<Rightarrow> traversal" where
  "any_visit f xs = foldr (\<lambda>x k. or_visit (f x) k) xs not_found"

lemma any_visit_simps [simp]:
  "any_visit f [] = not_found"
  "any_visit f (x # xs) = or_visit (f x) (any_visit f xs)"
  by (simp_all add: any_visit_def)

text \<open>Enter a nominal type, parameter or trait by its identity, or a reference by its pointer.\<close>

definition enter_named :: "string \<Rightarrow> traversal \<Rightarrow> traversal" where
  "enter_named key f v =
    (if key \<in> fst v then Some (False, v) else f (insert key (fst v), snd v))"

definition enter_alias :: "alias_store \<Rightarrow> alias_ptr option \<Rightarrow> (ty \<Rightarrow> traversal) \<Rightarrow> traversal" where
  "enter_alias \<sigma> r f v =
    (case r of
       None \<Rightarrow> Some (False, v)
     | Some p \<Rightarrow>
         if p \<in> snd v then Some (False, v)
         else (case alias_target \<sigma> r of
                 None \<Rightarrow> Some (False, v)
               | Some u \<Rightarrow> f u (fst v, insert p (snd v))))"

definition visit_method :: "(ty \<Rightarrow> traversal) \<Rightarrow> ty trait_method \<Rightarrow> traversal" where
  "visit_method rec m =
     or_visit (any_visit (\<lambda>p. rec (tp_Constraint p)) (tm_GenericParameters m))
       (or_visit (any_visit rec (tm_Parameters m)) (rec (tm_ReturnType m)))"

definition visit_tagged :: "(ty \<Rightarrow> traversal) \<Rightarrow> ty tagged_union_info \<Rightarrow> traversal" where
  "visit_tagged rec i =
     or_visit (rec (tu_Tag i))
       (any_visit (\<lambda>w. any_visit (\<lambda>f. rec (snd f)) (tv_Fields w)) (tu_Variants i))"

fun hasError_step :: "alias_store \<Rightarrow> (ty \<Rightarrow> traversal) \<Rightarrow> ty \<Rightarrow> traversal" where
  "hasError_step \<sigma> rec ErrorType v = Some (True, v)"
| "hasError_step \<sigma> rec (DefinedType m n u g ts) v =
     enter_named (Identity (DefinedType m n u g ts)) (or_visit (any_visit rec ts) (rec u)) v"
| "hasError_step \<sigma> rec (AliasRef r m n) v = enter_alias \<sigma> r rec v"
| "hasError_step \<sigma> rec (SliceType b mu) v = rec b v"
| "hasError_step \<sigma> rec (ArrayType b l) v = rec b v"
| "hasError_step \<sigma> rec (SequenceType b l) v = rec b v"
| "hasError_step \<sigma> rec (PointerType b mu) v = rec b v"
| "hasError_step \<sigma> rec (TraitPointerType tr mu) v = rec (TraitTy tr) v"
| "hasError_step \<sigma> rec (TypeParameter p) v =
     enter_named (Identity (TypeParameter p)) (rec (tp_Constraint p)) v"
| "hasError_step \<sigma> rec (StructType fs p tu) v =
     or_visit (any_visit (\<lambda>f. rec (snd f)) fs)
       (case tu of None \<Rightarrow> not_found | Some i \<Rightarrow> visit_tagged rec i) v"
| "hasError_step \<sigma> rec (UnionType m n fs) v = any_visit (\<lambda>f. rec (snd f)) fs v"
| "hasError_step \<sigma> rec (FunctionType ps r va ve) v = or_visit (any_visit rec ps) (rec r) v"
| "hasError_step \<sigma> rec (MultipleReturnType ts) v = any_visit rec ts v"
| "hasError_step \<sigma> rec (TraitTy tr) v =
     enter_named (Identity (TraitTy tr)) (any_visit (visit_method rec) (tr_Methods tr)) v"
| "hasError_step \<sigma> rec _ v = Some (False, v)"

fun hasTaggedUnion_step :: "alias_store \<Rightarrow> (ty \<Rightarrow> traversal) \<Rightarrow> ty \<Rightarrow> traversal" where
  "hasTaggedUnion_step \<sigma> rec (DefinedType m n u g ts) v =
     enter_named (Identity (DefinedType m n u g ts)) (rec u) v"
| "hasTaggedUnion_step \<sigma> rec (AliasRef r m n) v = enter_alias \<sigma> r rec v"
| "hasTaggedUnion_step \<sigma> rec (PointerType b mu) v = rec b v"
| "hasTaggedUnion_step \<sigma> rec (SliceType b mu) v = rec b v"
| "hasTaggedUnion_step \<sigma> rec (ArrayType b l) v = rec b v"
| "hasTaggedUnion_step \<sigma> rec (StructType fs p tu) v =
     (if tu \<noteq> None then Some (True, v) else any_visit (\<lambda>f. rec (snd f)) fs v)"
| "hasTaggedUnion_step \<sigma> rec (UnionType m n fs) v = any_visit (\<lambda>f. rec (snd f)) fs v"
| "hasTaggedUnion_step \<sigma> rec (FunctionType ps r va ve) v = or_visit (any_visit rec ps) (rec r) v"
| "hasTaggedUnion_step \<sigma> rec (MultipleReturnType ts) v = any_visit rec ts v"
| "hasTaggedUnion_step \<sigma> rec _ v = Some (False, v)"

lemma or_visit_mono [run_mono]:
  assumes "\<And>v. mono_option (\<lambda>f. F f v)" and "\<And>v. mono_option (\<lambda>f. G f v)"
  shows "mono_option (\<lambda>f. or_visit (F f) (G f) v)"
  unfolding or_visit_def by (intro bind_mono if_run_mono option.const_mono assms)

lemma any_visit_mono [run_mono]:
  assumes "\<And>x v. mono_option (\<lambda>f. F f x v)"
  shows "mono_option (\<lambda>f. any_visit (F f) xs v)"
  by (induction xs arbitrary: v)
     (simp_all add: not_found_def option.const_mono or_visit_mono assms)

lemma enter_named_mono [run_mono]:
  "(\<And>v. mono_option (\<lambda>f. F f v)) \<Longrightarrow> mono_option (\<lambda>f. enter_named key (F f) v)"
  by (simp add: enter_named_def run_mono option.const_mono)

lemma enter_alias_mono [run_mono]:
  "(\<And>x v. mono_option (\<lambda>f. F f x v)) \<Longrightarrow> mono_option (\<lambda>f. enter_alias \<sigma> r (F f) v)"
  unfolding enter_alias_def
  by (cases r; cases "alias_target \<sigma> r") (simp_all add: run_mono option.const_mono)

lemma visit_method_mono [run_mono]:
  "(\<And>x v. mono_option (\<lambda>f. F f x v)) \<Longrightarrow> mono_option (\<lambda>f. visit_method (F f) m v)"
  by (simp add: visit_method_def run_mono)

lemma visit_tagged_mono [run_mono]:
  "(\<And>x v. mono_option (\<lambda>f. F f x v)) \<Longrightarrow> mono_option (\<lambda>f. visit_tagged (F f) i v)"
  by (simp add: visit_tagged_def run_mono)

lemma hasError_step_mono [partial_function_mono]:
  assumes "\<And>t v. mono_option (\<lambda>f. R f t v)"
  shows "mono_option (\<lambda>f. hasError_step \<sigma> (R f) t v)"
proof (cases t)
  case (StructType fs p tu)
  then show ?thesis by (cases tu) (simp_all add: run_mono option.const_mono assms not_found_def)
qed (simp_all add: run_mono option.const_mono assms)

lemma hasTaggedUnion_step_mono [partial_function_mono]:
  assumes "\<And>t v. mono_option (\<lambda>f. R f t v)"
  shows "mono_option (\<lambda>f. hasTaggedUnion_step \<sigma> (R f) t v)"
  by (cases t) (simp_all add: run_mono option.const_mono assms)

partial_function (option) hasError :: "alias_store \<Rightarrow> ty \<Rightarrow> traversal" where
  "hasError \<sigma> t v = hasError_step \<sigma> (hasError \<sigma>) t v"

partial_function (option) hasTaggedUnion :: "alias_store \<Rightarrow> ty \<Rightarrow> traversal" where
  "hasTaggedUnion \<sigma> t v = hasTaggedUnion_step \<sigma> (hasTaggedUnion \<sigma>) t v"

declare hasError.simps [code] hasTaggedUnion.simps [code]

definition HasError :: "alias_store \<Rightarrow> ty \<Rightarrow> bool run" where
  "HasError \<sigma> t = map_option fst (hasError \<sigma> t ({}, {}))"

definition HasTaggedUnion :: "alias_store \<Rightarrow> ty \<Rightarrow> bool run" where
  "HasTaggedUnion \<sigma> t = map_option fst (hasTaggedUnion \<sigma> t ({}, {}))"

section \<open>Trait pointers\<close>

text \<open>\<open>HasTraitPointer\<close> has no visited set.\<close>

fun HasTraitPointer_step :: "(ty \<Rightarrow> bool run) \<Rightarrow> ty \<Rightarrow> bool run" where
  "HasTraitPointer_step rec (TraitPointerType tr mu) = Some True"
| "HasTraitPointer_step rec (StructType fs p tu) = anyM (\<lambda>f. rec (snd f)) fs"
| "HasTraitPointer_step rec (UnionType m n fs) = anyM (\<lambda>f. rec (snd f)) fs"
| "HasTraitPointer_step rec (SliceType b mu) = rec b"
| "HasTraitPointer_step rec (ArrayType b l) = rec b"
| "HasTraitPointer_step rec _ = Some False"

lemma HasTraitPointer_step_mono [partial_function_mono]:
  assumes "\<And>t. mono_option (\<lambda>f. R f t)"
  shows "mono_option (\<lambda>f. HasTraitPointer_step (R f) t)"
  by (cases t) (simp_all add: run_mono option.const_mono assms)

partial_function (option) HasTraitPointer :: "alias_store \<Rightarrow> ty \<Rightarrow> bool run" where
  "HasTraitPointer \<sigma> t =
     Option.bind (Underlying \<sigma> t) (\<lambda>u. HasTraitPointer_step (HasTraitPointer \<sigma>) u)"

declare HasTraitPointer.simps [code]

section \<open>Untyped literals\<close>

definition IsUntyped :: "ty \<Rightarrow> bool" where
  "IsUntyped t \<longleftrightarrow> t = UntypedInt \<or> t = UntypedFloat \<or> t = UnresolvedEnum"

fun HasUntyped :: "ty \<Rightarrow> bool" where
  "HasUntyped (SliceType b mu) = HasUntyped b"
| "HasUntyped (ArrayType b l) = HasUntyped b"
| "HasUntyped (SequenceType b l) = HasUntyped b"
| "HasUntyped (PointerType b mu) = HasUntyped b"
| "HasUntyped (TraitPointerType tr mu) = False"
| "HasUntyped (StructType fs p tu) = list_ex (\<lambda>f. HasUntyped (snd f)) fs"
| "HasUntyped (FunctionType ps r v ve) \<longleftrightarrow> list_ex HasUntyped ps \<or> HasUntyped r"
| "HasUntyped (MultipleReturnType ts) = list_ex HasUntyped ts"
| "HasUntyped t = IsUntyped t"

section \<open>Tagged unions\<close>

definition TaggedUnion :: "alias_store \<Rightarrow> ty \<Rightarrow> ty tagged_union_info option run" where
  "TaggedUnion \<sigma> t = do {
     u \<leftarrow> Underlying \<sigma> t;
     Some (case u of StructType fs p tu \<Rightarrow> tu | _ \<Rightarrow> None) }"

text \<open>
  \<open>strconv.Atoi\<close> succeeds on an optional sign and decimal digits whose value fits a 64-bit
  \<open>int\<close>.
\<close>

definition is_digit :: "char \<Rightarrow> bool" where
  "is_digit c \<longleftrightarrow> 48 \<le> (of_char c :: nat) \<and> (of_char c :: nat) \<le> 57"

definition Atoi_ok :: "string \<Rightarrow> bool" where
  "Atoi_ok s =
    (let neg = (s \<noteq> [] \<and> hd s = CHR ''-'');
         ds = (if s \<noteq> [] \<and> (hd s = CHR ''-'' \<or> hd s = CHR ''+'') then tl s else s)
     in ds \<noteq> [] \<and> list_all is_digit ds \<and>
        int (decimal_value ds) \<le> (if neg then 2 ^ 63 else 2 ^ 63 - 1))"

definition repr_field :: "field \<Rightarrow> field" where
  "repr_field f = ((if Atoi_ok (fst f) then ''_'' @ fst f else fst f), snd f)"

definition repr_payload :: "ty tagged_union_variant list \<Rightarrow> field list" where
  "repr_payload vs =
     map (\<lambda>w. (tv_Name w, StructType (map repr_field (tv_Fields w)) False None))
       (filter (\<lambda>w. tv_Fields w \<noteq> []) vs)"

definition TaggedUnionRepr :: "alias_store \<Rightarrow> ty \<Rightarrow> ty option run" where
  "TaggedUnionRepr \<sigma> t = do {
     u \<leftarrow> Underlying \<sigma> t;
     Some (case u of
             StructType fs p (Some i) \<Rightarrow>
               if tu_Auto i then None
               else Some (StructType [(''tag'', tu_Tag i),
                      (''payload'', UnionType [] [] (repr_payload (tu_Variants i)))] p None)
           | _ \<Rightarrow> None) }"

text \<open>\<open>Variant\<close>: the first variant of that name and its index; a nil receiver has none.\<close>

fun find_variant ::
  "string \<Rightarrow> int \<Rightarrow> 't tagged_union_variant list \<Rightarrow> ('t tagged_union_variant \<times> int) option" where
  "find_variant name i [] = None"
| "find_variant name i (w # ws) = (if tv_Name w = name then Some (w, i) else find_variant name (i + 1) ws)"

definition Variant ::
  "ty tagged_union_info option \<Rightarrow> string \<Rightarrow> (ty tagged_union_variant \<times> int) option" where
  "Variant i name = (case i of None \<Rightarrow> None | Some info \<Rightarrow> find_variant name 0 (tu_Variants info))"

text \<open>\<open>VariantValue\<close> of enums and flags: indexing the values past their end panics.\<close>

fun variant_value :: "string list \<Rightarrow> string list \<Rightarrow> nat \<Rightarrow> string \<Rightarrow> string option run" where
  "variant_value [] values i name = Some None"
| "variant_value (w # ws) values i name =
    (if w = name then (if i < length values then Some (Some (values ! i)) else None)
     else variant_value ws values (Suc i) name)"

definition VariantValue :: "string list \<Rightarrow> string list \<Rightarrow> string \<Rightarrow> string option run" where
  "VariantValue variants values name = variant_value variants values 0 name"

end
