(* ===== verification/Types_Graph_Facts.thy ===== *)
theory Types_Graph_Facts
  imports Types_Graph Types_Compat_Facts
begin

text \<open>
  What the traversals decide: \<open>IsComplete\<close> decides whether a type has a finite by-value
  layout (\<open>sized\<close>), the visited sets make it and the other guarded traversals return on every
  finite alias store, and \<open>HasTraitPointer\<close>, which has none, returns on sized types.
\<close>

section \<open>Sized types\<close>

text \<open>The types that are stored inside a value of the type; \<open>None\<close>: it has no representation.\<close>

fun value_parts :: "alias_store \<Rightarrow> ty \<Rightarrow> ty list option" where
  "value_parts \<sigma> (DefinedType m n u g ts) = Some [u]"
| "value_parts \<sigma> (AliasRef r m n) = map_option (\<lambda>u. [u]) (alias_target \<sigma> r)"
| "value_parts \<sigma> OpaqueType = None"
| "value_parts \<sigma> (TraitTy tr) = None"
| "value_parts \<sigma> SelfType = None"
| "value_parts \<sigma> (StructType fs p tu) = Some (map snd fs)"
| "value_parts \<sigma> (UnionType m n fs) = Some (map snd fs)"
| "value_parts \<sigma> (SliceType b mu) = Some [b]"
| "value_parts \<sigma> (ArrayType b l) = Some [b]"
| "value_parts \<sigma> (MultipleReturnType ts) = Some ts"
| "value_parts \<sigma> _ = Some []"

inductive sized :: "alias_store \<Rightarrow> ty \<Rightarrow> bool" for \<sigma> where
  sized: "value_parts \<sigma> t = Some ps \<Longrightarrow> (\<And>p. p \<in> set ps \<Longrightarrow> sized \<sigma> p) \<Longrightarrow> sized \<sigma> t"

inductive_cases sized_elim: "sized \<sigma> t"

inductive_simps sized_iff: "sized \<sigma> t"

inductive part_of :: "alias_store \<Rightarrow> ty \<Rightarrow> ty \<Rightarrow> bool" for \<sigma> where
  part: "value_parts \<sigma> t = Some ps \<Longrightarrow> p \<in> set ps \<Longrightarrow> part_of \<sigma> p t"

lemma sized_part: "sized \<sigma> t \<Longrightarrow> part_of \<sigma> p t \<Longrightarrow> sized \<sigma> p"
  by (auto elim!: sized_elim part_of.cases)

lemma sized_no_cycle: "sized \<sigma> t \<Longrightarrow> \<not> (part_of \<sigma>)\<^sup>+\<^sup>+ t t"
proof (induction rule: sized.induct)
  case (sized t ps)
  show ?case
  proof
    assume cyc: "(part_of \<sigma>)\<^sup>+\<^sup>+ t t"
    from cyc obtain p where p: "(part_of \<sigma>)\<^sup>*\<^sup>* t p" "part_of \<sigma> p t"
      by (metis tranclpD tranclp.cases rtranclp.rtrancl_refl tranclp_into_rtranclp)
    then have "(part_of \<sigma>)\<^sup>+\<^sup>+ p p" by (meson rtranclp_into_tranclp2)
    moreover have "p \<in> set ps" using p(2) sized.hyps(1) by (auto elim: part_of.cases)
    ultimately show False using sized.IH by blast
  qed
qed

section \<open>IsComplete returns\<close>

abbreviation pointers :: "alias_store \<Rightarrow> alias_ptr set" where
  "pointers \<sigma> \<equiv> dom \<sigma>"

lemma alias_target_dom: "alias_target \<sigma> (Some p) = Some u \<Longrightarrow> p \<in> dom \<sigma>"
  by (auto simp: alias_target_def split: option.splits)

lemma fewer_pointers:
  assumes "finite (dom \<sigma>)" and "alias_target \<sigma> (Some p) = Some u" and "p \<notin> A"
  shows "card (dom \<sigma> - insert p A) < card (dom \<sigma> - A)"
  using assms alias_target_dom [OF assms(2)] by (intro psubset_card_mono) auto

lemma allM_returns: "(\<And>x. x \<in> set xs \<Longrightarrow> f x \<noteq> None) \<Longrightarrow> allM f xs \<noteq> None"
  by (induction xs) (auto simp: andM_None_iff iff del: not_None_eq)

lemma anyM_returns: "(\<And>x. x \<in> set xs \<Longrightarrow> f x \<noteq> None) \<Longrightarrow> anyM f xs \<noteq> None"
  by (induction xs) (auto simp: orM_None_iff iff del: not_None_eq)

lemma value_parts_size:
  "value_parts \<sigma> t = Some ps \<Longrightarrow> p \<in> set ps \<Longrightarrow> (\<And>r m n. t \<noteq> AliasRef r m n) \<Longrightarrow> size p < size t"
proof (cases t)
  case (StructType fs p' tu)
  assume "value_parts \<sigma> t = Some ps" "p \<in> set ps"
  then obtain f where "f \<in> set fs" "p = snd f" using StructType by auto
  then show ?thesis using size_field [of f fs] StructType by simp
next
  case (UnionType m n fs)
  assume "value_parts \<sigma> t = Some ps" "p \<in> set ps"
  then obtain f where "f \<in> set fs" "p = snd f" using UnionType by auto
  then show ?thesis using size_field [of f fs] UnionType by simp
next
  case (MultipleReturnType ts)
  assume "value_parts \<sigma> t = Some ps" "p \<in> set ps"
  then show ?thesis
    using MultipleReturnType size_list_estimation' [of p ts "size p" size] by (simp add: less_Suc_eq_le)
qed auto

lemma allM_map: "allM f (map g xs) = allM (\<lambda>x. f (g x)) xs"
  by (induction xs) auto

lemma andM_Some_True [simp]: "andM a (Some True) = a"
  by (cases a) (auto simp: andM_def)

text \<open>On aggregates and leaves the code asks for all parts.\<close>

lemma isComplete_parts:
  "\<not> is_named t \<Longrightarrow> isComplete_step \<sigma> rec D A t =
     (case value_parts \<sigma> t of None \<Rightarrow> Some False | Some ps \<Rightarrow> allM (rec D A) ps)"
  by (cases t) (auto simp: allM_map)

lemma isComplete_returns:
  assumes fin: "finite (dom \<sigma>)"
  shows "isComplete \<sigma> D A t \<noteq> None"
proof (induction "(card (dom \<sigma> - A), size t)" arbitrary: D A t
    rule: wf_induct [OF wf_lex_prod [OF wf_less wf_less]])
  case 1
  then have IH: "isComplete \<sigma> D' A' t' \<noteq> None"
    if "card (dom \<sigma> - A') < card (dom \<sigma> - A) \<or> A' = A \<and> size t' < size t" for D' A' t'
    using that by auto
  have parts: "isComplete \<sigma> D A p \<noteq> None"
    if "value_parts \<sigma> t = Some ps" "p \<in> set ps" "\<And>r m n. t \<noteq> AliasRef r m n" for ps p
    using IH value_parts_size [OF that] by blast
  have "isComplete_step \<sigma> (isComplete \<sigma>) D A t \<noteq> None"
  proof (cases t)
    case (AliasRef r m n)
    show ?thesis
    proof (cases "\<exists>p u. r = Some p \<and> p \<notin> A \<and> alias_target \<sigma> r = Some u")
      case True
      then obtain p u where p: "r = Some p" "p \<notin> A" "alias_target \<sigma> (Some p) = Some u" by auto
      then have "isComplete \<sigma> D (insert p A) u \<noteq> None"
        using IH fewer_pointers [OF fin p(3,2)] by blast
      with p AliasRef show ?thesis by (simp del: not_None_eq)
    next
      case False
      with AliasRef show ?thesis by (auto split: option.splits)
    qed
  next
    case (DefinedType m n u g ts)
    then show ?thesis using IH [of A u] by (simp add: Let_def del: Identity.simps not_None_eq)
  qed (use parts in \<open>auto simp: isComplete_parts intro!: allM_returns split: option.split
         simp del: isComplete_step.simps value_parts.simps iff del: not_None_eq\<close>)
  then show ?case by (subst isComplete.simps)
qed

section \<open>IsComplete decides sizedness\<close>

lemma allM_True_iff: "allM f xs = Some True \<longleftrightarrow> (\<forall>x \<in> set xs. f x = Some True)"
  by (induction xs) (auto simp: andM_True_iff)

lemma isComplete_sound:
  assumes ret: "isComplete \<sigma> D A t = Some b"
  shows "b \<longrightarrow> sized \<sigma> t"
proof (rule isComplete.raw_induct [where P = "\<lambda>\<sigma> D A t b. b \<longrightarrow> sized \<sigma> t", OF _ ret])
  fix f :: "alias_store \<Rightarrow> string set \<Rightarrow> alias_ptr set \<Rightarrow> ty \<Rightarrow> bool run" and \<sigma> D A t b
  assume IH: "\<And>\<sigma> D A t b. f \<sigma> D A t = Some b \<Longrightarrow> b \<longrightarrow> sized \<sigma> t"
    and eq: "isComplete_step \<sigma> (f \<sigma>) D A t = Some b"
  have rec: "f \<sigma> D' A' t' = Some True \<Longrightarrow> sized \<sigma> t'" for D' A' t' using IH by blast
  show "b \<longrightarrow> sized \<sigma> t"
  proof
    assume b
    with eq have st: "isComplete_step \<sigma> (f \<sigma>) D A t = Some True" by simp
    have "\<exists>ps. value_parts \<sigma> t = Some ps \<and> (\<forall>p \<in> set ps. sized \<sigma> p)"
      using st rec by (cases t) (auto simp: Let_def allM_True_iff split: if_splits option.splits)
    then show "sized \<sigma> t" by (auto intro: sized.intros)
  qed
qed

text \<open>
  Names are coherent below a type when two nominal types stored inside it that have the same
  identity are the same type.
\<close>

definition coherent :: "alias_store \<Rightarrow> ty \<Rightarrow> bool" where
  "coherent \<sigma> t \<longleftrightarrow>
     (\<forall>a b. (part_of \<sigma>)\<^sup>*\<^sup>* a t \<longrightarrow> (part_of \<sigma>)\<^sup>*\<^sup>* b t \<longrightarrow> is_defined a \<longrightarrow> is_defined b \<longrightarrow>
        Identity a = Identity b \<longrightarrow> a = b) \<and>
     (\<forall>p m n m' n'. (part_of \<sigma>)\<^sup>*\<^sup>* (AliasRef (Some p) m n) t \<longrightarrow>
        (part_of \<sigma>)\<^sup>*\<^sup>* (AliasRef (Some p) m' n') t \<longrightarrow> m = m' \<and> n = n')"

lemma coherent_part:
  assumes "coherent \<sigma> t" and "part_of \<sigma> p t"
  shows "coherent \<sigma> p"
  using assms unfolding coherent_def by (meson rtranclp.rtrancl_into_rtrancl)

definition clear_of :: "alias_store \<Rightarrow> string set \<Rightarrow> alias_ptr set \<Rightarrow> ty \<Rightarrow> bool" where
  "clear_of \<sigma> D A t \<longleftrightarrow>
     (\<forall>d. (part_of \<sigma>)\<^sup>*\<^sup>* d t \<longrightarrow> (is_defined d \<longrightarrow> Identity d \<notin> D) \<and>
        (\<forall>p m n. d = AliasRef (Some p) m n \<longrightarrow> p \<notin> A))"

lemma clear_of_part: "clear_of \<sigma> D A t \<Longrightarrow> part_of \<sigma> p t \<Longrightarrow> clear_of \<sigma> D A p"
  unfolding clear_of_def using rtranclp.rtrancl_into_rtrancl [of "part_of \<sigma>"] by blast

lemma clear_of_self: "clear_of \<sigma> D A t \<Longrightarrow> (is_defined t \<longrightarrow> Identity t \<notin> D) \<and>
    (\<forall>p m n. t = AliasRef (Some p) m n \<longrightarrow> p \<notin> A)"
  unfolding clear_of_def by blast

lemma isComplete_complete:
  "sized \<sigma> t \<Longrightarrow> coherent \<sigma> t \<Longrightarrow> clear_of \<sigma> D A t \<Longrightarrow> isComplete \<sigma> D A t = Some True"
proof (induction arbitrary: D A rule: sized.induct)
  case (sized t ps)
  have sz: "sized \<sigma> t" using sized.hyps by (auto intro: sized.intros)
  have part: "part_of \<sigma> p t" if "p \<in> set ps" for p using sized.hyps(1) that by (rule part_of.intros)
  have below: "isComplete \<sigma> D A p = Some True" if "p \<in> set ps" for p
    using sized.IH [OF that] coherent_part [OF sized.prems(1) part [OF that]]
      clear_of_part [OF sized.prems(2) part [OF that]] by blast
  have nocycle: "\<not> (part_of \<sigma>)\<^sup>*\<^sup>* t p" if "p \<in> set ps" for p
    using sized_no_cycle [OF sz] part [OF that] by (meson rtranclp_into_tranclp1)
  note self = clear_of_self [OF sized.prems(2)]
  have "isComplete_step \<sigma> (isComplete \<sigma>) D A t = Some True"
  proof (cases t)
    case (DefinedType m n u g ts)
    then have u: "u \<in> set ps" using sized.hyps(1) by auto
    have "clear_of \<sigma> (insert (Identity t) D) A u"
      unfolding clear_of_def
    proof (intro allI impI conjI)
      fix d assume d: "(part_of \<sigma>)\<^sup>*\<^sup>* d u"
      then have dt: "(part_of \<sigma>)\<^sup>*\<^sup>* d t" using part [OF u] by (rule rtranclp.rtrancl_into_rtrancl)
      show "Identity d \<notin> insert (Identity t) D" if "is_defined d"
      proof -
        have "d \<noteq> t" using nocycle [OF u] d by blast
        then have "Identity d \<noteq> Identity t"
          using sized.prems(1) dt that DefinedType unfolding coherent_def by auto
        then show ?thesis using sized.prems(2) dt that by (auto simp: clear_of_def)
      qed
      show "p \<notin> A" if "d = AliasRef (Some p) m n" for p m n
        using sized.prems(2) dt that by (auto simp: clear_of_def)
    qed
    then show ?thesis
      using sized.IH [OF u] coherent_part [OF sized.prems(1) part [OF u]] self DefinedType
      by (simp add: Let_def del: Identity.simps)
  next
    case (AliasRef r m n)
    then obtain p u where r: "r = Some p" "alias_target \<sigma> r = Some u"
      using sized.hyps(1) by (cases r) auto
    then have u: "u \<in> set ps" using sized.hyps(1) AliasRef by auto
    have "clear_of \<sigma> D (insert p A) u"
      unfolding clear_of_def
    proof (intro allI impI conjI)
      fix d assume d: "(part_of \<sigma>)\<^sup>*\<^sup>* d u"
      then have dt: "(part_of \<sigma>)\<^sup>*\<^sup>* d t" using part [OF u] by (rule rtranclp.rtrancl_into_rtrancl)
      show "Identity d \<notin> D" if "is_defined d"
        using sized.prems(2) dt that by (auto simp: clear_of_def)
      show "q \<notin> insert p A" if q: "d = AliasRef (Some q) m' n'" for q m' n'
      proof -
        have "q \<noteq> p"
        proof
          assume "q = p"
          then have "m' = m \<and> n' = n"
            using sized.prems(1) dt q AliasRef r unfolding coherent_def by blast
          with \<open>q = p\<close> q AliasRef r have "d = t" by simp
          with nocycle [OF u] d show False by blast
        qed
        then show ?thesis using sized.prems(2) dt q by (auto simp: clear_of_def)
      qed
    qed
    then show ?thesis
      using sized.IH [OF u] coherent_part [OF sized.prems(1) part [OF u]] self AliasRef r by simp
  qed (use below sized.hyps(1) in \<open>auto simp: isComplete_parts allM_True_iff
         simp del: isComplete_step.simps value_parts.simps\<close>)
  then show ?case by (subst isComplete.simps)
qed

lemma IsComplete_iff:
  assumes "finite (dom \<sigma>)" and "coherent \<sigma> t"
  shows "IsComplete \<sigma> t = Some (sized \<sigma> t)"
proof -
  obtain b where b: "isComplete \<sigma> {} {} t = Some b"
    using isComplete_returns [OF assms(1), of "{}" "{}" t] by auto
  moreover have "clear_of \<sigma> {} {} t" by (simp add: clear_of_def)
  ultimately show ?thesis
    using isComplete_sound [OF b] isComplete_complete [OF _ assms(2)] by (auto simp: IsComplete_def)
qed

section \<open>Trait pointers\<close>

lemma HasTraitPointer_simps [simp]:
  "HasTraitPointer \<sigma> (DefinedType m n u g ts) = HasTraitPointer \<sigma> u"
  "alias_target \<sigma> r = Some u \<Longrightarrow> HasTraitPointer \<sigma> (AliasRef r m n) = HasTraitPointer \<sigma> u"
  "\<not> is_named t \<Longrightarrow> HasTraitPointer \<sigma> t = HasTraitPointer_step (HasTraitPointer \<sigma>) t"
  by (simp_all add: HasTraitPointer.simps [of \<sigma> "DefinedType m n u g ts"]
      HasTraitPointer.simps [of \<sigma> "AliasRef r m n"] HasTraitPointer.simps [of \<sigma> t]
      HasTraitPointer.simps [of \<sigma> u])

lemma anyM_map: "anyM f (map g xs) = anyM (\<lambda>x. f (g x)) xs"
  by (induction xs) auto

lemma HasTraitPointer_parts:
  assumes "\<not> is_named t" and "value_parts \<sigma> t = Some ps" and "\<And>p. p \<in> set ps \<Longrightarrow> rec p \<noteq> None"
  shows "HasTraitPointer_step rec t \<noteq> None"
proof -
  have "anyM rec ps \<noteq> None" using assms(3) by (rule anyM_returns)
  moreover have "anyM rec [b] \<noteq> None \<Longrightarrow> rec b \<noteq> None" for b by (simp add: orM_None_iff del: not_None_eq)
  ultimately show ?thesis
    using assms(1,2) by (cases t) (auto simp: anyM_map simp del: anyM.simps iff del: not_None_eq)
qed

lemma sized_HasTraitPointer_returns: "sized \<sigma> t \<Longrightarrow> HasTraitPointer \<sigma> t \<noteq> None"
proof (induction rule: sized.induct)
  case (sized t ps)
  show ?case
  proof (cases "is_named t")
    case False
    then show ?thesis
      using HasTraitPointer_parts [OF False sized.hyps(1) sized.IH] by (simp del: not_None_eq)
  next
    case True
    then consider m n u g ts where "t = DefinedType m n u g ts"
      | r m n u where "t = AliasRef r m n" "alias_target \<sigma> r = Some u" "ps = [u]"
      using sized.hyps(1) by (cases t) auto
    then show ?thesis
    proof cases
      case 1
      then show ?thesis using sized.hyps(1) sized.IH by (auto simp del: not_None_eq)
    next
      case 2
      then show ?thesis using sized.IH by (simp del: not_None_eq)
    qed
  qed
qed

text \<open>
  On a type that contains itself through a slice the recursion has no end: every round of
  three unfoldings leads back to the reference.
\<close>

definition slice_node :: ty where
  "slice_node = DefinedType ''m'' ''Node''
     (StructType [(''children'', SliceType (AliasRef (Some 0) ''m'' ''Node'') False)] False None) [] []"

definition slice_store :: alias_store where
  "slice_store = [0 \<mapsto> slice_node]"

lemma slice_node_not_fixed:
  assumes ret: "HasTraitPointer \<sigma> t = Some b"
  shows "\<sigma> = slice_store \<longrightarrow> t \<noteq> slice_node \<and> t \<noteq> AliasRef (Some 0) ''m'' ''Node'' \<and>
    t \<noteq> SliceType (AliasRef (Some 0) ''m'' ''Node'') False"
proof (rule HasTraitPointer.raw_induct [where P = "\<lambda>\<sigma> t b. \<sigma> = slice_store \<longrightarrow>
    t \<noteq> slice_node \<and> t \<noteq> AliasRef (Some 0) ''m'' ''Node'' \<and>
    t \<noteq> SliceType (AliasRef (Some 0) ''m'' ''Node'') False", OF _ ret])
  fix f :: "alias_store \<Rightarrow> ty \<Rightarrow> bool run" and \<sigma> t b
  let ?ref = "AliasRef (Some 0) ''m'' ''Node''"
  let ?P = "\<lambda>\<sigma> t. \<sigma> = slice_store \<longrightarrow>
    t \<noteq> slice_node \<and> t \<noteq> ?ref \<and> t \<noteq> SliceType ?ref False"
  assume IH: "\<And>\<sigma> t b. f \<sigma> t = Some b \<Longrightarrow> ?P \<sigma> t"
    and eq: "Option.bind (Underlying \<sigma> t) (HasTraitPointer_step (f \<sigma>)) = Some b"
  show "?P \<sigma> t"
  proof (intro impI notI conjI)
    have target: "alias_target slice_store (Some 0) = Some slice_node"
      by (simp add: alias_target_def slice_store_def slice_node_def)
    assume s: "\<sigma> = slice_store"
    note s [simp] and slice_node_def [simp] and target [unfolded slice_node_def, simp]
    show False if "t = slice_node"
      using eq that IH [of slice_store "SliceType ?ref False"]
      by (cases "f slice_store (SliceType ?ref False)") auto
    show False if "t = ?ref"
      using eq that IH [of slice_store "SliceType ?ref False"]
      by (cases "f slice_store (SliceType ?ref False)") auto
    show False if "t = SliceType ?ref False"
      using eq that IH [of slice_store ?ref] by (cases "f slice_store ?ref") auto
  qed
qed

section \<open>The traversals with a growing visited set return\<close>

text \<open>A traversal is safe from \<open>v\<close> on when it returns and keeps the references visited so far.\<close>

definition safe_from :: "traversal \<Rightarrow> visited \<Rightarrow> bool" where
  "safe_from f v \<longleftrightarrow>
     (\<forall>w. snd v \<subseteq> snd w \<longrightarrow> (\<exists>b w'. f w = Some (b, w') \<and> snd w \<subseteq> snd w'))"

lemma safe_fromI:
  "(\<And>w. snd v \<subseteq> snd w \<Longrightarrow> \<exists>b w'. f w = Some (b, w') \<and> snd w \<subseteq> snd w') \<Longrightarrow> safe_from f v"
  by (simp add: safe_from_def)

lemma safe_from_or:
  assumes "safe_from f v" and "safe_from g v"
  shows "safe_from (or_visit f g) v"
proof (rule safe_fromI)
  fix w :: visited
  assume w: "snd v \<subseteq> snd w"
  obtain b w' where f: "f w = Some (b, w')" "snd w \<subseteq> snd w'"
    using assms(1) w unfolding safe_from_def by blast
  obtain c u where "g w' = Some (c, u)" "snd w' \<subseteq> snd u"
    using assms(2) w f(2) unfolding safe_from_def by blast
  with f show "\<exists>b w'. or_visit f g w = Some (b, w') \<and> snd w \<subseteq> snd w'"
    by (cases b) (auto simp: or_visit_def)
qed

lemma safe_from_not_found: "safe_from not_found v"
  by (auto simp: safe_from_def not_found_def)

lemma safe_from_any: "(\<And>x. x \<in> set xs \<Longrightarrow> safe_from (f x) v) \<Longrightarrow> safe_from (any_visit f xs) v"
  by (induction xs) (auto intro: safe_from_or safe_from_not_found)

lemma safe_from_named: "safe_from f v \<Longrightarrow> safe_from (enter_named key f) v"
proof (rule safe_fromI)
  fix w :: visited
  assume f: "safe_from f v" and w: "snd v \<subseteq> snd w"
  show "\<exists>b w'. enter_named key f w = Some (b, w') \<and> snd w \<subseteq> snd w'"
  proof (cases "key \<in> fst w")
    case False
    have "snd v \<subseteq> snd (insert key (fst w), snd w)" using w by simp
    then obtain b w' where "f (insert key (fst w), snd w) = Some (b, w')" "snd w \<subseteq> snd w'"
      using f unfolding safe_from_def by (metis snd_conv)
    with False show ?thesis by (simp add: enter_named_def)
  qed (auto simp: enter_named_def)
qed

lemma safe_from_self: "safe_from f v \<Longrightarrow> \<exists>b w. f v = Some (b, w) \<and> snd v \<subseteq> snd w"
  unfolding safe_from_def by blast

lemma size_trait_type_element: "x \<in> set_trait_type tr \<Longrightarrow> size x < size (TraitTy tr)"
proof (cases tr)
  case (Trait m n ms any)
  assume "x \<in> set_trait_type tr"
  then obtain me where me: "me \<in> set ms" "x \<in> set_trait_method me" using Trait by auto
  have "size x < size_trait_method size me"
  proof (cases me)
    case (TraitMethod nm gs rc ps r d)
    have "size x < Suc (size_list size ps)" if "x \<in> set ps"
      using that size_list_estimation' [of x ps "size x" size] by (simp add: less_Suc_eq_le)
    moreover have "size x < Suc (size_list (size_type_parameter size) gs)"
      if "g \<in> set gs" "x \<in> set_type_parameter g" for g
    proof -
      have "size x \<le> size_type_parameter size g" using that(2) by (cases g) simp
      then show ?thesis using size_list_estimation' [OF that(1)] by (simp add: less_Suc_eq_le)
    qed
    ultimately show ?thesis using me(2) TraitMethod by fastforce
  qed
  then show ?thesis
    using me(1) Trait size_list_estimation' [of me ms "size x" "size_trait_method size"] by simp
qed

lemma size_tagged_element: "x \<in> set_tagged_union_info i \<Longrightarrow> size x < size_tagged_union_info size i"
proof (cases i)
  case (TaggedUnionInfo tag vs au)
  assume x: "x \<in> set_tagged_union_info i"
  have "size x < Suc (size_list (size_tagged_union_variant size) vs)"
    if w: "w \<in> set vs" "x \<in> set_tagged_union_variant w" for w
  proof (cases w)
    case (TaggedUnionVariant nm tv fs)
    then obtain f where f: "f \<in> set fs" "x = snd f" using w(2) by (auto simp: snds.simps)
    have "size x < size_tagged_union_variant size w"
      using size_field [OF f(1)] f(2) TaggedUnionVariant by simp
    then show ?thesis
      using size_list_estimation' [OF w(1), of "size x" "size_tagged_union_variant size"]
      by (simp add: less_Suc_eq_le)
  qed
  then show ?thesis using x TaggedUnionInfo by fastforce
qed

lemma method_elements:
  "p \<in> set (tm_GenericParameters m) \<Longrightarrow> tp_Constraint p \<in> set_trait_method m"
  "x \<in> set (tm_Parameters m) \<Longrightarrow> x \<in> set_trait_method m"
  "tm_ReturnType m \<in> set_trait_method m"
  by (cases m; auto; case_tac p; force)+

lemma trait_elements: "m \<in> set (tr_Methods tr) \<Longrightarrow> x \<in> set_trait_method m \<Longrightarrow> x \<in> set_trait_type tr"
  by (cases tr) auto

lemma tagged_elements:
  "tu_Tag i \<in> set_tagged_union_info i"
  "w \<in> set (tu_Variants i) \<Longrightarrow> f \<in> set (tv_Fields w) \<Longrightarrow> snd f \<in> set_tagged_union_info i"
  by (cases i; auto; case_tac w; force simp: snds.simps)+

lemma safe_from_method:
  "(\<And>x. x \<in> set_trait_method m \<Longrightarrow> safe_from (rec x) v) \<Longrightarrow> safe_from (visit_method rec m) v"
  unfolding visit_method_def
  by (intro safe_from_or safe_from_any) (auto intro: method_elements)

lemma safe_from_tagged:
  "(\<And>x. x \<in> set_tagged_union_info i \<Longrightarrow> safe_from (rec x) v) \<Longrightarrow> safe_from (visit_tagged rec i) v"
  unfolding visit_tagged_def
  by (intro safe_from_or safe_from_any) (auto intro: tagged_elements)

text \<open>A trait pointer is followed to its trait, which has the same size.\<close>

definition weight :: "ty \<Rightarrow> nat" where
  "weight t = 2 * size t + (case t of TraitPointerType tr mu \<Rightarrow> 1 | _ \<Rightarrow> 0)"

lemma weight_less: "size s < size t \<Longrightarrow> weight s < weight t"
  by (auto simp: weight_def split: ty.splits)

lemma weight_trait_pointer: "weight (TraitTy tr) < weight (TraitPointerType tr mu)"
  by (simp add: weight_def)

lemma safe_from_alias:
  assumes fin: "finite (dom \<sigma>)"
    and rec: "\<And>u w. card (dom \<sigma> - snd w) < card (dom \<sigma> - snd v) \<Longrightarrow> safe_from (rec u) w"
  shows "safe_from (enter_alias \<sigma> r rec) v"
proof (rule safe_fromI)
  fix w :: visited
  assume w: "snd v \<subseteq> snd w"
  show "\<exists>b w'. enter_alias \<sigma> r rec w = Some (b, w') \<and> snd w \<subseteq> snd w'"
  proof (cases "\<exists>p u. r = Some p \<and> p \<notin> snd w \<and> alias_target \<sigma> r = Some u")
    case True
    then obtain p u where p: "r = Some p" "p \<notin> snd w" "alias_target \<sigma> (Some p) = Some u" by auto
    have "card (dom \<sigma> - insert p (snd w)) < card (dom \<sigma> - snd w)"
      by (rule fewer_pointers [OF fin p(3,2)])
    also have "\<dots> \<le> card (dom \<sigma> - snd v)" using w fin by (intro card_mono) auto
    finally have "safe_from (rec u) (fst w, insert p (snd w))" by (intro rec) simp
    from safe_from_self [OF this] show ?thesis using p by (auto simp: enter_alias_def)
  next
    case False
    then show ?thesis by (cases w) (auto simp: enter_alias_def split: option.splits)
  qed
qed

text \<open>
  A step is safe when the recursive calls are: on smaller types with no fewer references
  visited, on any type with more.
\<close>

definition calls_safe :: "alias_store \<Rightarrow> (ty \<Rightarrow> traversal) \<Rightarrow> ty \<Rightarrow> visited \<Rightarrow> bool" where
  "calls_safe \<sigma> rec t v \<longleftrightarrow>
     (\<forall>s. weight s < weight t \<longrightarrow> safe_from (rec s) v) \<and>
     (\<forall>s w. card (dom \<sigma> - snd w) < card (dom \<sigma> - snd v) \<longrightarrow> safe_from (rec s) w)"

lemma calls_safe_smaller: "calls_safe \<sigma> rec t v \<Longrightarrow> size s < size t \<Longrightarrow> safe_from (rec s) v"
  using weight_less unfolding calls_safe_def by blast

lemma calls_safe_alias:
  assumes "finite (dom \<sigma>)" and "calls_safe \<sigma> rec t v"
  shows "safe_from (enter_alias \<sigma> r rec) v"
  using assms(2) unfolding calls_safe_def by (intro safe_from_alias [OF assms(1)]) blast

lemma calls_safe_fields:
  assumes "calls_safe \<sigma> rec t v" and "\<And>f. f \<in> set fs \<Longrightarrow> size (snd f) < size t"
  shows "safe_from (any_visit (\<lambda>f. rec (snd f)) fs) v"
  using calls_safe_smaller [OF assms(1)] assms(2) by (intro safe_from_any) blast

lemma calls_safe_types:
  assumes "calls_safe \<sigma> rec t v" and "\<And>x. x \<in> set ts \<Longrightarrow> size x < size t"
  shows "safe_from (any_visit rec ts) v"
  using calls_safe_smaller [OF assms(1)] assms(2) by (intro safe_from_any) blast

lemma size_type_element: "x \<in> set ts \<Longrightarrow> size x < Suc (size_list size ts)"
  using size_list_estimation' [of x ts "size x" size] by (simp add: less_Suc_eq_le)

lemmas part_sizes = size_field size_type_element size_trait_type_element size_tagged_element

lemma safe_from_return: "(\<And>w. f w = Some (b, w)) \<Longrightarrow> safe_from f v"
  by (simp add: safe_from_def)

lemma hasError_step_safe:
  assumes fin: "finite (dom \<sigma>)" and calls: "calls_safe \<sigma> rec t v"
  shows "safe_from (hasError_step \<sigma> rec t) v"
proof (cases t)
  case (AliasRef r m n)
  then have "hasError_step \<sigma> rec t = enter_alias \<sigma> r rec" by (simp add: fun_eq_iff)
  moreover have "safe_from (enter_alias \<sigma> r rec) v" by (rule calls_safe_alias [OF fin calls])
  ultimately show ?thesis by simp
next
  case (TraitPointerType tr mu)
  then have "hasError_step \<sigma> rec t = rec (TraitTy tr)" by (simp add: fun_eq_iff)
  then show ?thesis using calls weight_trait_pointer TraitPointerType by (simp add: calls_safe_def)
next
  case (DefinedType m n u g ts)
  have "hasError_step \<sigma> rec t =
      enter_named (Identity (DefinedType m n u g ts)) (or_visit (any_visit rec ts) (rec u))"
    unfolding DefinedType by (simp add: fun_eq_iff)
  moreover have "size x < size t" if "x \<in> set ts" for x
    using size_type_element [OF that] DefinedType by simp
  ultimately show ?thesis
    using calls_safe_types [OF calls] calls_safe_smaller [OF calls, of u] DefinedType
    by (simp add: safe_from_named safe_from_or)
next
  case (TypeParameter p)
  have "hasError_step \<sigma> rec t = enter_named (Identity (TypeParameter p)) (rec (tp_Constraint p))"
    unfolding TypeParameter by (simp add: fun_eq_iff)
  moreover have "size (tp_Constraint p) < size t" using TypeParameter by (cases p) simp
  ultimately show ?thesis using calls_safe_smaller [OF calls] by (simp add: safe_from_named)
next
  case (StructType fs p tu)
  have "hasError_step \<sigma> rec t = or_visit (any_visit (\<lambda>f. rec (snd f)) fs)
      (case tu of None \<Rightarrow> not_found | Some i \<Rightarrow> visit_tagged rec i)"
    unfolding StructType by (simp add: fun_eq_iff)
  moreover have "safe_from (any_visit (\<lambda>f. rec (snd f)) fs) v"
    using size_field StructType by (intro calls_safe_fields [OF calls]) fastforce
  moreover have "size x < size t" if "tu = Some i" "x \<in> set_tagged_union_info i" for x i
    using size_tagged_element [OF that(2)] that(1) StructType by simp
  ultimately show ?thesis
    using calls_safe_smaller [OF calls]
    by (auto intro!: safe_from_or safe_from_tagged safe_from_not_found split: option.split)
next
  case (UnionType m n fs)
  have "hasError_step \<sigma> rec t = any_visit (\<lambda>f. rec (snd f)) fs"
    unfolding UnionType by (simp add: fun_eq_iff)
  moreover have "safe_from (any_visit (\<lambda>f. rec (snd f)) fs) v"
    using size_field UnionType by (intro calls_safe_fields [OF calls]) fastforce
  ultimately show ?thesis by simp
next
  case (FunctionType ps r va ve)
  have "hasError_step \<sigma> rec t = or_visit (any_visit rec ps) (rec r)"
    unfolding FunctionType by (simp add: fun_eq_iff)
  moreover have "size x < size t" if "x \<in> set ps" for x
    using size_type_element [OF that] FunctionType by simp
  ultimately show ?thesis
    using calls_safe_types [OF calls] calls_safe_smaller [OF calls, of r] FunctionType
    by (simp add: safe_from_or)
next
  case (MultipleReturnType ts)
  have "hasError_step \<sigma> rec t = any_visit rec ts"
    unfolding MultipleReturnType by (simp add: fun_eq_iff)
  moreover have "size x < size t" if "x \<in> set ts" for x
    using size_type_element [OF that] MultipleReturnType by simp
  ultimately show ?thesis using calls_safe_types [OF calls] by simp
next
  case (TraitTy tr)
  have "hasError_step \<sigma> rec t =
      enter_named (Identity (TraitTy tr)) (any_visit (visit_method rec) (tr_Methods tr))"
    unfolding TraitTy by (simp add: fun_eq_iff)
  moreover have "safe_from (rec x) v" if "m \<in> set (tr_Methods tr)" "x \<in> set_trait_method m" for m x
    using calls_safe_smaller [OF calls] size_trait_type_element [OF trait_elements [OF that]] TraitTy
    by simp
  ultimately show ?thesis by (auto intro!: safe_from_named safe_from_any safe_from_method)
qed (use calls_safe_smaller [OF calls] in
    \<open>auto simp: safe_from_def\<close>)

lemma hasTaggedUnion_step_safe:
  assumes fin: "finite (dom \<sigma>)" and calls: "calls_safe \<sigma> rec t v"
  shows "safe_from (hasTaggedUnion_step \<sigma> rec t) v"
proof (cases t)
  case (AliasRef r m n)
  then have "hasTaggedUnion_step \<sigma> rec t = enter_alias \<sigma> r rec" by (simp add: fun_eq_iff)
  moreover have "safe_from (enter_alias \<sigma> r rec) v" by (rule calls_safe_alias [OF fin calls])
  ultimately show ?thesis by simp
next
  case (DefinedType m n u g ts)
  have "hasTaggedUnion_step \<sigma> rec t = enter_named (Identity (DefinedType m n u g ts)) (rec u)"
    unfolding DefinedType by (simp add: fun_eq_iff)
  then show ?thesis
    using calls_safe_smaller [OF calls, of u] DefinedType by (simp add: safe_from_named)
next
  case (StructType fs p tu)
  have "hasTaggedUnion_step \<sigma> rec t =
      (if tu \<noteq> None then (\<lambda>v. Some (True, v)) else any_visit (\<lambda>f. rec (snd f)) fs)"
    unfolding StructType by (simp add: fun_eq_iff)
  moreover have "safe_from (any_visit (\<lambda>f. rec (snd f)) fs) v"
    using size_field StructType by (intro calls_safe_fields [OF calls]) fastforce
  ultimately show ?thesis by (cases tu) (auto simp: safe_from_def [of "\<lambda>v. Some (True, v)"])
next
  case (UnionType m n fs)
  have "hasTaggedUnion_step \<sigma> rec t = any_visit (\<lambda>f. rec (snd f)) fs"
    unfolding UnionType by (simp add: fun_eq_iff)
  moreover have "safe_from (any_visit (\<lambda>f. rec (snd f)) fs) v"
    using size_field UnionType by (intro calls_safe_fields [OF calls]) fastforce
  ultimately show ?thesis by simp
next
  case (FunctionType ps r va ve)
  have "hasTaggedUnion_step \<sigma> rec t = or_visit (any_visit rec ps) (rec r)"
    unfolding FunctionType by (simp add: fun_eq_iff)
  moreover have "size x < size t" if "x \<in> set ps" for x
    using size_type_element [OF that] FunctionType by simp
  ultimately show ?thesis
    using calls_safe_types [OF calls] calls_safe_smaller [OF calls, of r] FunctionType
    by (simp add: safe_from_or)
next
  case (MultipleReturnType ts)
  have "hasTaggedUnion_step \<sigma> rec t = any_visit rec ts"
    unfolding MultipleReturnType by (simp add: fun_eq_iff)
  moreover have "size x < size t" if "x \<in> set ts" for x
    using size_type_element [OF that] MultipleReturnType by simp
  ultimately show ?thesis using calls_safe_types [OF calls] by simp
qed (use calls_safe_smaller [OF calls] in
    \<open>auto simp: safe_from_def\<close>)

text \<open>Every traversal whose steps are safe returns.\<close>

lemma traversal_returns:
  assumes fin: "finite (dom \<sigma>)" and fix_eq: "\<And>t. rec t = step rec t"
    and step: "\<And>t v. calls_safe \<sigma> rec t v \<Longrightarrow> safe_from (step rec t) v"
  shows "safe_from (rec t) v"
proof (induction "(card (dom \<sigma> - snd v), weight t)" arbitrary: t v
    rule: wf_induct [OF wf_lex_prod [OF wf_less wf_less]])
  case 1
  then have "safe_from (rec s) w" if "card (dom \<sigma> - snd w) < card (dom \<sigma> - snd v) \<or>
      card (dom \<sigma> - snd w) = card (dom \<sigma> - snd v) \<and> weight s < weight t" for s w
    using that by (intro "1" [rule_format, OF _ refl]) auto
  then have "calls_safe \<sigma> rec t v" unfolding calls_safe_def by blast
  then show ?case using step by (subst fix_eq)
qed

lemma hasError_returns: "finite (dom \<sigma>) \<Longrightarrow> \<exists>b w. hasError \<sigma> t v = Some (b, w)"
  using traversal_returns [of \<sigma> "hasError \<sigma>" "hasError_step \<sigma>", OF _ _ hasError_step_safe]
    safe_from_self [of "hasError \<sigma> t" v] hasError.simps by (metis ext)

lemma hasTaggedUnion_returns: "finite (dom \<sigma>) \<Longrightarrow> \<exists>b w. hasTaggedUnion \<sigma> t v = Some (b, w)"
  using traversal_returns [of \<sigma> "hasTaggedUnion \<sigma>" "hasTaggedUnion_step \<sigma>", OF _ _ hasTaggedUnion_step_safe]
    safe_from_self [of "hasTaggedUnion \<sigma> t" v] hasTaggedUnion.simps by (metis ext)

section \<open>What HasError and HasTaggedUnion find\<close>

definition finds :: "traversal \<Rightarrow> bool" where
  "finds f \<longleftrightarrow> (\<exists>u x. f u = Some (True, x))"

lemma findsI: "f u = Some (True, x) \<Longrightarrow> finds f"
  unfolding finds_def by blast

lemma finds_not_found [simp]: "\<not> finds not_found"
  by (simp add: finds_def not_found_def)

lemma finds_or: "finds (or_visit f g) \<Longrightarrow> finds f \<or> finds g"
proof -
  assume "finds (or_visit f g)"
  then obtain u x where "or_visit f g u = Some (True, x)" unfolding finds_def by blast
  then show ?thesis by (cases "f u") (auto simp: or_visit_def intro: findsI split: if_splits)
qed

lemma finds_any: "finds (any_visit f xs) \<Longrightarrow> \<exists>x \<in> set xs. finds (f x)"
  by (induction xs) (auto dest: finds_or)

lemma finds_named: "finds (enter_named key f) \<Longrightarrow> finds f"
proof -
  assume "finds (enter_named key f)"
  then obtain u x where "enter_named key f u = Some (True, x)" unfolding finds_def by blast
  then show ?thesis by (auto simp: enter_named_def intro: findsI split: if_splits)
qed

lemma finds_alias: "finds (enter_alias \<sigma> r f) \<Longrightarrow> \<exists>u. alias_target \<sigma> r = Some u \<and> finds (f u)"
proof -
  assume "finds (enter_alias \<sigma> r f)"
  then obtain u x where "enter_alias \<sigma> r f u = Some (True, x)" unfolding finds_def by blast
  then show ?thesis by (auto simp: enter_alias_def intro: findsI split: option.splits if_splits)
qed

lemma finds_method: "finds (visit_method rec m) \<Longrightarrow> \<exists>x \<in> set_trait_method m. finds (rec x)"
  unfolding visit_method_def by (auto dest!: finds_or finds_any intro: method_elements)

lemma finds_tagged: "finds (visit_tagged rec i) \<Longrightarrow> \<exists>x \<in> set_tagged_union_info i. finds (rec x)"
  unfolding visit_tagged_def
proof (drule finds_or, elim disjE)
  assume "finds (any_visit (\<lambda>w. any_visit (\<lambda>f. rec (snd f)) (tv_Fields w)) (tu_Variants i))"
  then obtain w f where "w \<in> set (tu_Variants i)" "f \<in> set (tv_Fields w)" "finds (rec (snd f))"
    by (blast dest: finds_any)
  then show ?thesis using tagged_elements(2) by blast
qed (use tagged_elements(1) in blast)

text \<open>The types a traversal calls itself on.\<close>

fun error_parts :: "alias_store \<Rightarrow> ty \<Rightarrow> ty set" where
  "error_parts \<sigma> (DefinedType m n u g ts) = insert u (set ts)"
| "error_parts \<sigma> (AliasRef r m n) = {u. alias_target \<sigma> r = Some u}"
| "error_parts \<sigma> (SliceType b mu) = {b}"
| "error_parts \<sigma> (ArrayType b l) = {b}"
| "error_parts \<sigma> (SequenceType b l) = {b}"
| "error_parts \<sigma> (PointerType b mu) = {b}"
| "error_parts \<sigma> (TraitPointerType tr mu) = {TraitTy tr}"
| "error_parts \<sigma> (TypeParameter p) = {tp_Constraint p}"
| "error_parts \<sigma> (StructType fs p tu) = snd ` set fs \<union> (\<Union>i \<in> set_option tu. set_tagged_union_info i)"
| "error_parts \<sigma> (UnionType m n fs) = snd ` set fs"
| "error_parts \<sigma> (FunctionType ps r v ve) = insert r (set ps)"
| "error_parts \<sigma> (MultipleReturnType ts) = set ts"
| "error_parts \<sigma> (TraitTy tr) = set_trait_type tr"
| "error_parts \<sigma> _ = {}"

inductive contains_error :: "alias_store \<Rightarrow> ty \<Rightarrow> bool" for \<sigma> where
  error: "contains_error \<sigma> ErrorType"
| inside: "p \<in> error_parts \<sigma> t \<Longrightarrow> contains_error \<sigma> p \<Longrightarrow> contains_error \<sigma> t"

lemma hasError_step_finds:
  assumes "finds (hasError_step \<sigma> rec t)"
  shows "t = ErrorType \<or> (\<exists>p \<in> error_parts \<sigma> t. finds (rec p))"
proof (cases t)
  case (DefinedType m n u g ts)
  have "hasError_step \<sigma> rec t =
      enter_named (Identity (DefinedType m n u g ts)) (or_visit (any_visit rec ts) (rec u))"
    unfolding DefinedType by (simp add: fun_eq_iff)
  then have "finds (rec u) \<or> (\<exists>x \<in> set ts. finds (rec x))"
    using assms finds_named finds_or finds_any by metis
  with DefinedType show ?thesis by auto
next
  case (TraitTy tr)
  have "hasError_step \<sigma> rec t =
      enter_named (Identity (TraitTy tr)) (any_visit (visit_method rec) (tr_Methods tr))"
    unfolding TraitTy by (simp add: fun_eq_iff)
  then obtain m where "m \<in> set (tr_Methods tr)" "finds (visit_method rec m)"
    using assms finds_named finds_any by metis
  then show ?thesis using finds_method trait_elements TraitTy by fastforce
next
  case (StructType fs p tu)
  have "hasError_step \<sigma> rec t = or_visit (any_visit (\<lambda>f. rec (snd f)) fs)
      (case tu of None \<Rightarrow> not_found | Some i \<Rightarrow> visit_tagged rec i)"
    unfolding StructType by (simp add: fun_eq_iff)
  then consider "\<exists>f \<in> set fs. finds (rec (snd f))" | i where "tu = Some i" "finds (visit_tagged rec i)"
    using assms by (cases tu) (auto dest!: finds_or finds_any)
  then show ?thesis
  proof cases
    case 2
    then show ?thesis using finds_tagged [OF 2(2)] StructType by auto
  qed (use StructType in auto)
next
  case (UnionType m n fs)
  have "hasError_step \<sigma> rec t = any_visit (\<lambda>f. rec (snd f)) fs"
    unfolding UnionType by (simp add: fun_eq_iff)
  then show ?thesis using assms UnionType by (auto dest!: finds_any)
next
  case (AliasRef r m n)
  then have "hasError_step \<sigma> rec t = enter_alias \<sigma> r rec" by (simp add: fun_eq_iff)
  then show ?thesis using assms AliasRef by (auto dest!: finds_alias)
next
  case (TypeParameter p)
  have "hasError_step \<sigma> rec t = enter_named (Identity (TypeParameter p)) (rec (tp_Constraint p))"
    unfolding TypeParameter by (simp add: fun_eq_iff)
  then show ?thesis using assms TypeParameter by (auto dest!: finds_named)
next
  case (FunctionType ps r va ve)
  have "hasError_step \<sigma> rec t = or_visit (any_visit rec ps) (rec r)"
    unfolding FunctionType by (simp add: fun_eq_iff)
  then show ?thesis using assms FunctionType by (auto dest!: finds_or finds_any)
next
  case (MultipleReturnType ts)
  have "hasError_step \<sigma> rec t = any_visit rec ts"
    unfolding MultipleReturnType by (simp add: fun_eq_iff)
  then show ?thesis using assms MultipleReturnType by (auto dest!: finds_any)
next
  case (TraitPointerType tr mu)
  have "hasError_step \<sigma> rec t = rec (TraitTy tr)"
    unfolding TraitPointerType by (simp add: fun_eq_iff)
  then show ?thesis using assms TraitPointerType by simp
qed (use assms in \<open>auto simp: finds_def\<close>)

lemma hasError_sound:
  assumes ret: "hasError \<sigma> t v = Some r"
  shows "fst r \<longrightarrow> contains_error \<sigma> t"
proof (rule hasError.raw_induct [where P = "\<lambda>\<sigma> t v r. fst r \<longrightarrow> contains_error \<sigma> t", OF _ ret])
  fix f :: "alias_store \<Rightarrow> ty \<Rightarrow> traversal" and \<sigma> t v and r :: "bool \<times> visited"
  assume IH: "\<And>\<sigma> t v r. f \<sigma> t v = Some r \<Longrightarrow> fst r \<longrightarrow> contains_error \<sigma> t"
    and eq: "hasError_step \<sigma> (f \<sigma>) t v = Some r"
  have rec: "finds (f \<sigma> p) \<Longrightarrow> contains_error \<sigma> p" for p
    using IH unfolding finds_def by fastforce
  show "fst r \<longrightarrow> contains_error \<sigma> t"
  proof
    assume "fst r"
    with eq have "finds (hasError_step \<sigma> (f \<sigma>) t)" by (cases r) (auto intro: findsI)
    from hasError_step_finds [OF this] rec show "contains_error \<sigma> t"
      by (auto intro: contains_error.intros)
  qed
qed

end
