(* ===== verification/Types_Identity_Facts.thy ===== *)
theory Types_Identity_Facts
  imports Types_Identity
begin

text \<open>
  \<open>Identity\<close> is a prefix code on the types the analysis builds, and so tells apart all that
  it looks at. Plain names contain none of its delimiters. The names that do contain some (the
  owner of a type parameter, the display name of an instance, the tag of a tagged union) are
  bracketed, or end at a character they never contain.
\<close>

section \<open>Splitting at delimiters\<close>

definition name_char :: "char \<Rightarrow> bool" where
  "name_char c \<longleftrightarrow> c \<notin> set ''():,<>#''"

abbreviation ident :: "string \<Rightarrow> bool" where
  "ident s \<equiv> list_all name_char s"

lemma ident_split:
  assumes "ident a" and "ident b" and "\<not> name_char c" and "\<not> name_char d"
    and "a @ c # x = b @ d # y"
  shows "a = b \<and> c = d \<and> x = y"
proof -
  have "takeWhile name_char (a @ c # x) = a" and "takeWhile name_char (b @ d # y) = b"
    using assms(1-4) by (simp_all add: list_all_iff takeWhile_append2)
  with assms(5) show ?thesis by simp
qed

text \<open>\<open>closes d s\<close>: \<open>s\<close> closes \<open>d\<close> open parentheses and all that it opens.\<close>

fun closes :: "nat \<Rightarrow> string \<Rightarrow> bool" where
  "closes d [] \<longleftrightarrow> d = 0"
| "closes d (c # cs) \<longleftrightarrow>
    (if c = CHR ''('' then closes (Suc d) cs
     else if c = CHR '')'' then 0 < d \<and> closes (d - 1) cs
     else closes d cs)"

abbreviation balanced :: "string \<Rightarrow> bool" where
  "balanced s \<equiv> closes 0 s"

lemma closes_split:
  "closes d a \<Longrightarrow> closes d b \<Longrightarrow> a @ CHR '')'' # x = b @ CHR '')'' # y \<Longrightarrow> a = b \<and> x = y"
proof (induction a arbitrary: d b)
  case Nil
  then show ?case by (cases b) auto
next
  case (Cons c a)
  then show ?case by (cases b) (auto split: if_splits)
qed

lemma ident_balanced: "ident s \<Longrightarrow> closes 0 (s @ z) = closes 0 z"
  by (induction s) (auto simp: name_char_def)

definition colons :: "string \<Rightarrow> nat" where
  "colons s = length (filter (\<lambda>c. c = CHR '':'') s)"

lemma ident_colons: "ident s \<Longrightarrow> colons (s @ z) = colons z"
  by (induction s) (auto simp: colons_def name_char_def)

lemma hash_split:
  "CHR ''#'' \<notin> set a \<Longrightarrow> CHR ''#'' \<notin> set b \<Longrightarrow> a @ CHR ''#'' # x = b @ CHR ''#'' # y \<Longrightarrow>
   a = b \<and> x = y"
proof (induction a arbitrary: b)
  case Nil
  then show ?case by (cases b) auto
next
  case (Cons c a)
  then show ?case by (cases b) auto
qed

lemma digit_name_char: "48 \<le> (of_char c :: nat) \<Longrightarrow> (of_char c :: nat) < 58 \<Longrightarrow> name_char c"
  by (auto simp: name_char_def)

lemma ident_decimal [simp]: "ident (decimal n)"
  using decimal_digits by (auto simp: list_all_iff intro: digit_name_char)

lemma ident_decimal_int [simp]: "ident (decimal_int i)"
  by (simp add: decimal_int_def name_char_def [of "CHR ''-''"])

lemma decimal_not_minus: "decimal n \<noteq> CHR ''-'' # s"
proof
  assume "decimal n = CHR ''-'' # s"
  then have "CHR ''-'' \<in> set (decimal n)" by simp
  from decimal_digits [OF this] show False by simp
qed

lemma decimal_int_inj: "decimal_int i = decimal_int j \<Longrightarrow> i = j"
  by (auto simp: decimal_int_def decimal_not_minus decimal_not_minus [symmetric]
      dest!: decimal_inj split: if_splits)

lemma ident_primitive [simp]: "ident (PrimitiveType_String p)"
  by (cases p) (simp_all add: name_char_def)

lemma PrimitiveType_String_inj: "PrimitiveType_String p = PrimitiveType_String q \<Longrightarrow> p = q"
  by (cases p; cases q; simp)

section \<open>The prefix code\<close>

text \<open>
  \<open>keyed\<close>: the types as the analysis names them. Modules, fields, declared types and
  templates have plain names. The owner of a type parameter (\<open>genericOwner\<close>) contains no
  number sign; the display name of an instance (\<open>Name<arguments>\<close>), which names a reference
  or a trait, is balanced; the identity name of an automatic tag is balanced and has the two
  colons of \<open>module:auto-tag:path:offset\<close> and more.
\<close>

fun keyed :: "ty \<Rightarrow> bool" where
  "keyed SelfType = True"
| "keyed (PrimitiveTy p) = True"
| "keyed (TypeParameter p) \<longleftrightarrow> CHR ''#'' \<notin> set (tp_Owner p)"
| "keyed (DefinedType m n u g ts) \<longleftrightarrow>
     ident m \<and> ident g \<and> (g = [] \<longrightarrow> ident n) \<and> list_all keyed ts"
| "keyed (AliasRef r m n) \<longleftrightarrow> ident m \<and> balanced n"
| "keyed (PointerType b mu) = keyed b"
| "keyed (SliceType b mu) = keyed b"
| "keyed (ArrayType b l) = keyed b"
| "keyed (StructType fs p tu) \<longleftrightarrow>
     list_all (\<lambda>f. ident (fst f) \<and> fst f \<noteq> [] \<and> fst f \<noteq> ''packed'' \<and> keyed (snd f)) fs"
| "keyed (UnionType m n fs) \<longleftrightarrow> ident m \<and> balanced n"
| "keyed (EnumType m n i vs ws) \<longleftrightarrow>
     (if i = [] then ident m \<and> ident n else balanced i \<and> 2 \<le> colons i)"
| "keyed (FlagsType p vs ws) = True"
| "keyed (TraitTy t) = balanced (TraitType_String t)"
| "keyed (TraitPointerType t mu) = balanced (TraitType_String t)"
| "keyed (FunctionType ps r v ve) \<longleftrightarrow> list_all keyed ps \<and> keyed r"
| "keyed (MultipleReturnType ts) = list_all keyed ts"
| "keyed _ = False"

text \<open>\<open>identity_form\<close> erases what \<open>Identity\<close> does not look at.\<close>

fun identity_form :: "ty \<Rightarrow> ty" where
  "identity_form (TypeParameter p) = TypeParameter (TypeParam (tp_Owner p) [] (tp_Index p) NilType)"
| "identity_form (DefinedType m n u g ts) =
     (if g \<noteq> [] then DefinedType m [] NilType g (map identity_form ts)
      else DefinedType m n NilType [] [])"
| "identity_form (AliasRef r m n) = AliasRef None m n"
| "identity_form (PointerType b mu) = PointerType (identity_form b) mu"
| "identity_form (SliceType b mu) = SliceType (identity_form b) mu"
| "identity_form (ArrayType b l) = ArrayType (identity_form b) l"
| "identity_form (StructType fs p tu) =
     StructType (map (\<lambda>f. (fst f, identity_form (snd f))) fs) p None"
| "identity_form (UnionType m n fs) = UnionType m n []"
| "identity_form (EnumType m n i vs ws) =
     (if i \<noteq> [] then EnumType [] [] i [] [] else EnumType m n [] [] [])"
| "identity_form (FlagsType p vs ws) = FlagsType p [] []"
| "identity_form (TraitTy t) = TraitTy (Trait [] (TraitType_String t) [] False)"
| "identity_form (TraitPointerType t mu) =
     TraitPointerType (Trait [] (TraitType_String t) [] False) mu"
| "identity_form (FunctionType ps r v ve) =
     FunctionType (map identity_form ps) (identity_form r) False NilType"
| "identity_form (MultipleReturnType ts) = MultipleReturnType (map identity_form ts)"
| "identity_form t = t"

lemma Identity_form: "keyed t \<Longrightarrow> Identity (identity_form t) = Identity t"
proof (induction t)
  case (StructType fs p tu)
  have "Identity (identity_form (snd f)) = Identity (snd f)" if "f \<in> set fs" for f
    using StructType.IH(1) [of f "snd f"] StructType.prems that
    by (simp add: snds.intros list_all_iff)
  then show ?case by (simp add: comp_def cong: map_cong)
qed (simp_all add: TypeParameter_Key_def TraitType_String_def qualified_name_def FlagsType_String_def
    comp_def list_all_iff cong: map_cong)

lemma Identity_start:
  assumes "keyed t"
  shows "Identity t \<noteq> []" and "hd (Identity t) \<notin> set '',)>''" and "Identity t @ z \<noteq> ''mut:'' @ y"
    and "c \<in> set '',)>'' \<Longrightarrow> Identity t @ z \<noteq> c # y"
  using assms by (cases t; auto)+

lemma join_prefix:
  assumes code: "\<And>s t x y. s \<in> set ss \<Longrightarrow> t \<in> set ts \<Longrightarrow> f s @ x = f t @ y \<Longrightarrow> g s = g t \<and> x = y"
    and start: "\<And>s d z y. s \<in> set ss \<union> set ts \<Longrightarrow> d \<in> set '',)>'' \<Longrightarrow> f s @ z \<noteq> d # y"
    and c: "c \<in> set '')>''"
    and eq: "join_strings '','' (map f ss) @ c # x = join_strings '','' (map f ts) @ c # y"
  shows "map g ss = map g ts \<and> x = y"
  using code start eq
proof (induction ss arbitrary: ts)
  case Nil
  show ?case
  proof (cases ts)
    case (Cons t ts')
    obtain z where "join_strings '','' (map f ts) @ c # y = f t @ z"
      using Cons by (cases ts') auto
    then show ?thesis using Nil.prems(2) [of t c z x] Nil.prems(3) Cons c by auto
  qed (use Nil in simp)
next
  case (Cons s ss)
  define rest where "rest us w = (if us = [] then c # w else CHR '','' # join_strings '','' (map f us) @ c # w)" for us w
  have join: "join_strings '','' (map f (u # us)) @ c # w = f u @ rest us w" for u us w
    by (cases us) (simp_all add: rest_def)
  show ?case
  proof (cases ts)
    case Nil
    then show ?thesis using Cons.prems(2) [of s c "rest ss x" y] Cons.prems(3) c join by auto
  next
    case ts: (Cons t ts')
    have "g s = g t" and r: "rest ss x = rest ts' y"
      using Cons.prems(1) [of s t "rest ss x" "rest ts' y"] Cons.prems(3) ts join by auto
    moreover have "map g ss = map g ts' \<and> x = y"
    proof (cases "ss = [] \<or> ts' = []")
      case True
      with r c show ?thesis by (auto simp: rest_def split: if_splits)
    next
      case False
      with r have "join_strings '','' (map f ss) @ c # x = join_strings '','' (map f ts') @ c # y"
        by (simp add: rest_def)
      then show ?thesis using Cons.IH [of ts'] Cons.prems(1,2) ts by auto
    qed
    ultimately show ?thesis using ts by simp
  qed
qed

lemma mut_split:
  assumes "keyed b" and "keyed b'"
    and "mut_prefix mu ''mut:'' @ Identity b @ x = mut_prefix mu' ''mut:'' @ Identity b' @ y"
  shows "mu = mu' \<and> Identity b @ x = Identity b' @ y"
  using assms Identity_start(3) [of b x] Identity_start(3) [of b' y]
  by (cases mu; cases mu'; simp add: mut_prefix_def; metis)

definition field_identity :: "field \<Rightarrow> string" where
  "field_identity f = fst f @ '':'' @ Identity (snd f)"

lemma colon_split:
  assumes "ident a" and "ident b" and "a @ CHR '':'' # x = b @ CHR '':'' # y"
  shows "a = b \<and> x = y"
  using ident_split [OF assms(1,2) _ _ assms(3)] by (simp add: name_char_def)

lemma close_split:
  assumes "ident a" and "ident b" and "c \<in> set ''():,<>#''" and "d \<in> set ''():,<>#''"
    and "a @ c # x = b @ d # y"
  shows "a = b \<and> c = d \<and> x = y"
  using ident_split [OF assms(1,2) _ _ assms(5)] assms(3,4) by (simp add: name_char_def)

lemma packed_split:
  assumes "\<forall>f \<in> set fs'. ident (fst f) \<and> fst f \<noteq> [] \<and> fst f \<noteq> ''packed''"
  shows "''packed:'' @ x \<noteq> join_strings '','' (map field_identity fs') @ CHR '')'' # y"
proof
  assume eq: "''packed:'' @ x = join_strings '','' (map field_identity fs') @ CHR '')'' # y"
  show False
  proof (cases fs')
    case (Cons f us)
    obtain z where "join_strings '','' (map field_identity fs') @ CHR '')'' # y = fst f @ CHR '':'' # z"
      using Cons by (cases us) (auto simp: field_identity_def)
    with eq have "''packed'' @ CHR '':'' # x = fst f @ CHR '':'' # z" by simp
    then have "''packed'' = fst f"
      using colon_split [of "''packed''" "fst f"] assms Cons by (simp add: name_char_def)
    with assms Cons show False by simp
  qed (use eq in simp)
qed

text \<open>No encoding is a prefix of another one.\<close>

definition prefix_code :: "ty \<Rightarrow> bool" where
  "prefix_code s \<longleftrightarrow>
     (\<forall>t x y. keyed t \<longrightarrow> Identity s @ x = Identity t @ y \<longrightarrow>
        identity_form s = identity_form t \<and> x = y)"

lemma prefix_codeI:
  "(\<And>t x y. keyed t \<Longrightarrow> Identity s @ x = Identity t @ y \<Longrightarrow>
     identity_form s = identity_form t \<and> x = y) \<Longrightarrow> prefix_code s"
  by (auto simp: prefix_code_def)

lemma prefix_codeD:
  "prefix_code s \<Longrightarrow> keyed t \<Longrightarrow> Identity s @ x = Identity t @ y \<Longrightarrow>
     identity_form s = identity_form t \<and> x = y"
  by (auto simp: prefix_code_def)

lemma prefix_code_list:
  assumes "list_all keyed ss" and "list_all keyed ts" and "list_all prefix_code ss"
    and "c \<in> set '')>''"
    and "join_strings '','' (map Identity ss) @ c # x = join_strings '','' (map Identity ts) @ c # y"
  shows "map identity_form ss = map identity_form ts \<and> x = y"
proof (rule join_prefix [OF _ _ assms(4,5)])
  show "identity_form a = identity_form b \<and> v = w"
    if "a \<in> set ss" "b \<in> set ts" "Identity a @ v = Identity b @ w" for a b v w
    using prefix_codeD [of a b v w] that assms(2,3) by (auto simp: list_all_iff)
  show "Identity a @ z \<noteq> d # w" if "a \<in> set ss \<union> set ts" "d \<in> set '',)>''" for a d z w
    using Identity_start(4) [of a d z w] that assms(1,2) by (auto simp: list_all_iff)
qed

lemma prefix_code_SelfType: "prefix_code SelfType"
proof (rule prefix_codeI)
  fix t x y
  assume "keyed t" and "Identity SelfType @ x = Identity t @ y"
  then show "identity_form SelfType = identity_form t \<and> x = y"
    by (cases t) (auto split: if_splits)
qed

lemma prefix_code_PrimitiveTy: "prefix_code (PrimitiveTy p)"
proof (rule prefix_codeI)
  fix t x y
  assume h: "keyed t" "Identity (PrimitiveTy p) @ x = Identity t @ y"
  show "identity_form (PrimitiveTy p) = identity_form t \<and> x = y"
  proof (cases t)
    case (PrimitiveTy q)
    then have "PrimitiveType_String p @ CHR '')'' # x = PrimitiveType_String q @ CHR '')'' # y"
      using h by simp
    then have "PrimitiveType_String p = PrimitiveType_String q \<and> x = y"
      using close_split [of "PrimitiveType_String p" "PrimitiveType_String q" "CHR '')''" "CHR '')''" x y]
      by simp
    with PrimitiveTy show ?thesis using PrimitiveType_String_inj by auto
  qed (use h in \<open>auto split: if_splits\<close>)
qed

lemma prefix_code_TypeParameter:
  assumes "keyed (TypeParameter p)"
  shows "prefix_code (TypeParameter p)"
proof (rule prefix_codeI)
  fix t x y
  assume h: "keyed t" "Identity (TypeParameter p) @ x = Identity t @ y"
  show "identity_form (TypeParameter p) = identity_form t \<and> x = y"
  proof (cases t)
    case (TypeParameter q)
    define i j where "i = decimal_int (tp_Index p)" and "j = decimal_int (tp_Index q)"
    have "tp_Owner p @ CHR ''#'' # (i @ CHR '')'' # x) = tp_Owner q @ CHR ''#'' # (j @ CHR '')'' # y)"
      using h TypeParameter by (simp add: TypeParameter_Key_def i_def j_def)
    then have "tp_Owner p = tp_Owner q \<and> i @ CHR '')'' # x = j @ CHR '')'' # y"
      using hash_split [of "tp_Owner p" "tp_Owner q"] h assms TypeParameter by simp
    moreover have "ident i" "ident j" by (simp_all add: i_def j_def)
    ultimately have "tp_Owner p = tp_Owner q \<and> i = j \<and> x = y"
      using close_split [of i j "CHR '')''" "CHR '')''" x y] by simp
    then show ?thesis using TypeParameter decimal_int_inj by (auto simp: i_def j_def)
  qed (use h in \<open>auto split: if_splits\<close>)
qed

lemma two_names:
  assumes "ident m" and "ident m'" and "balanced n" and "balanced n'"
    and "m @ CHR '':'' # n @ CHR '')'' # x = m' @ CHR '':'' # n' @ CHR '')'' # y"
  shows "m = m' \<and> n = n' \<and> x = y"
  using colon_split [OF assms(1,2,5)] closes_split [OF assms(3,4), of x y] by simp

lemma ident_is_balanced: "ident s \<Longrightarrow> balanced s"
  using ident_balanced [of s "[]"] by simp

text \<open>The name of an automatic tag before the bracket, or a module and a name.\<close>

lemma tag_or_two_names:
  assumes "balanced i" and "2 \<le> colons i" and "ident m" and "ident n"
  shows "i @ CHR '')'' # x \<noteq> m @ CHR '':'' # n @ CHR '')'' # y"
proof
  assume "i @ CHR '')'' # x = m @ CHR '':'' # n @ CHR '')'' # y"
  moreover have "balanced (m @ CHR '':'' # n)"
    using ident_balanced [OF assms(3)] ident_is_balanced [OF assms(4)] by simp
  ultimately have "i = m @ CHR '':'' # n"
    using closes_split [OF assms(1), of "m @ CHR '':'' # n" x y] by simp
  moreover have "colons (m @ CHR '':'' # n) = 1"
    using ident_colons [OF assms(3)] ident_colons [OF assms(4), of "[]"] by (simp add: colons_def)
  ultimately show False using assms(2) by simp
qed

lemma prefix_code_AliasRef:
  assumes "keyed (AliasRef r m n)"
  shows "prefix_code (AliasRef r m n)"
proof (rule prefix_codeI)
  fix t x y
  assume h: "keyed t" "Identity (AliasRef r m n) @ x = Identity t @ y"
  show "identity_form (AliasRef r m n) = identity_form t \<and> x = y"
  proof (cases t)
    case (AliasRef r' m' n')
    with h assms show ?thesis using two_names [of m m' n n' x y] by simp
  qed (use h in \<open>auto split: if_splits\<close>)
qed

lemma prefix_code_UnionType:
  assumes "keyed (UnionType m n fs)"
  shows "prefix_code (UnionType m n fs)"
proof (rule prefix_codeI)
  fix t x y
  assume h: "keyed t" "Identity (UnionType m n fs) @ x = Identity t @ y"
  show "identity_form (UnionType m n fs) = identity_form t \<and> x = y"
  proof (cases t)
    case (UnionType m' n' fs')
    with h assms show ?thesis using two_names [of m m' n n' x y] by simp
  qed (use h in \<open>auto split: if_splits\<close>)
qed

lemma prefix_code_EnumType:
  assumes "keyed (EnumType m n i vs ws)"
  shows "prefix_code (EnumType m n i vs ws)"
proof (rule prefix_codeI)
  fix t x y
  assume h: "keyed t" "Identity (EnumType m n i vs ws) @ x = Identity t @ y"
  show "identity_form (EnumType m n i vs ws) = identity_form t \<and> x = y"
  proof (cases t)
    case (EnumType m' n' i' vs' ws')
    note two = two_names [of m m' n n' x y] and tags = closes_split [of 0 i i' x y]
      and mixed = tag_or_two_names [of i m' n' x y] tag_or_two_names [of i' m n y x]
    show ?thesis
    proof (cases "i = []"; cases "i' = []")
      assume "i = []" "i' = []"
      with h assms EnumType two ident_is_balanced [of n] ident_is_balanced [of n'] show ?thesis by simp
    next
      assume c: "i = []" "i' \<noteq> []"
      then have "i' @ CHR '')'' # y = m @ CHR '':'' # n @ CHR '')'' # x" using h EnumType by simp
      with c h assms EnumType mixed(2) show ?thesis by simp
    next
      assume c: "i \<noteq> []" "i' = []"
      then have "i @ CHR '')'' # x = m' @ CHR '':'' # n' @ CHR '')'' # y" using h EnumType by simp
      with c h assms EnumType mixed(1) show ?thesis by simp
    next
      assume "i \<noteq> []" "i' \<noteq> []"
      with h assms EnumType tags show ?thesis by simp
    qed
  qed (use h in \<open>auto split: if_splits\<close>)
qed

lemma prefix_code_PointerType:
  assumes "keyed b" and "prefix_code b"
  shows "prefix_code (PointerType b mu)"
proof (rule prefix_codeI)
  fix t x y
  assume h: "keyed t" "Identity (PointerType b mu) @ x = Identity t @ y"
  show "identity_form (PointerType b mu) = identity_form t \<and> x = y"
  proof (cases t)
    case (PointerType b' mu')
    with h have "mu = mu' \<and> Identity b @ CHR '')'' # x = Identity b' @ CHR '')'' # y"
      using mut_split [OF assms(1), of b'] by simp
    with h PointerType show ?thesis using prefix_codeD [OF assms(2)] by auto
  qed (use h in \<open>auto split: if_splits\<close>)
qed

lemma prefix_code_SliceType:
  assumes "keyed b" and "prefix_code b"
  shows "prefix_code (SliceType b mu)"
proof (rule prefix_codeI)
  fix t x y
  assume h: "keyed t" "Identity (SliceType b mu) @ x = Identity t @ y"
  show "identity_form (SliceType b mu) = identity_form t \<and> x = y"
  proof (cases t)
    case (SliceType b' mu')
    with h have "mu = mu' \<and> Identity b @ CHR '')'' # x = Identity b' @ CHR '')'' # y"
      using mut_split [OF assms(1), of b'] by simp
    with h SliceType show ?thesis using prefix_codeD [OF assms(2)] by auto
  qed (use h in \<open>auto split: if_splits\<close>)
qed

lemma prefix_code_ArrayType:
  assumes "prefix_code b"
  shows "prefix_code (ArrayType b l)"
proof (rule prefix_codeI)
  fix t x y
  assume h: "keyed t" "Identity (ArrayType b l) @ x = Identity t @ y"
  show "identity_form (ArrayType b l) = identity_form t \<and> x = y"
  proof (cases t)
    case (ArrayType b' l')
    with h have "decimal_int l @ CHR '':'' # Identity b @ CHR '')'' # x =
        decimal_int l' @ CHR '':'' # Identity b' @ CHR '')'' # y" by simp
    then have "decimal_int l = decimal_int l' \<and> Identity b @ CHR '')'' # x = Identity b' @ CHR '')'' # y"
      by (rule colon_split [OF ident_decimal_int ident_decimal_int])
    with h ArrayType show ?thesis using prefix_codeD [OF assms] decimal_int_inj by auto
  qed (use h in \<open>auto split: if_splits\<close>)
qed

text \<open>The part of a nominal type after its module.\<close>

definition nominal_tail :: "string \<Rightarrow> string \<Rightarrow> ty list \<Rightarrow> string \<Rightarrow> string" where
  "nominal_tail g n ts z =
    (if g \<noteq> [] then g @ CHR ''<'' # join_strings '','' (map Identity ts) @ CHR ''>'' # CHR '')'' # z
     else n @ CHR '')'' # z)"

lemma Identity_DefinedType:
  "Identity (DefinedType m n u g ts) @ z = ''defined('' @ m @ CHR '':'' # nominal_tail g n ts z"
  by (simp add: nominal_tail_def)

lemma nominal_tail_split:
  assumes "ident g" "g = [] \<longrightarrow> ident n" "ident g'" "g' = [] \<longrightarrow> ident n'" and "nominal_tail g n ts x = nominal_tail g' n' ts' y"
  shows "(g = [] \<longleftrightarrow> g' = []) \<and> (g = [] \<longrightarrow> n = n' \<and> x = y) \<and> (g \<noteq> [] \<longrightarrow> g = g' \<and>
    join_strings '','' (map Identity ts) @ CHR ''>'' # CHR '')'' # x =
    join_strings '','' (map Identity ts') @ CHR ''>'' # CHR '')'' # y)"
proof (cases "g = []"; cases "g' = []")
  assume "g = []" "g' = []"
  with assms close_split [of n n' "CHR '')''" "CHR '')''" x y] show ?thesis
    by (simp add: nominal_tail_def)
next
  assume c: "g = []" "g' \<noteq> []"
  then have "n @ CHR '')'' # x = g' @ CHR ''<'' # join_strings '','' (map Identity ts') @ CHR ''>'' # CHR '')'' # y"
    using assms(5) by (simp add: nominal_tail_def)
  from close_split [OF _ assms(3) _ _ this] show ?thesis using assms(2) c by simp
next
  assume c: "g \<noteq> []" "g' = []"
  then have "g @ CHR ''<'' # join_strings '','' (map Identity ts) @ CHR ''>'' # CHR '')'' # x = n' @ CHR '')'' # y"
    using assms(5) by (simp add: nominal_tail_def)
  from close_split [OF assms(1) _ _ _ this] show ?thesis using assms(4) c by simp
next
  assume c: "g \<noteq> []" "g' \<noteq> []"
  then have "g @ CHR ''<'' # join_strings '','' (map Identity ts) @ CHR ''>'' # CHR '')'' # x =
      g' @ CHR ''<'' # join_strings '','' (map Identity ts') @ CHR ''>'' # CHR '')'' # y"
    using assms(5) by (simp add: nominal_tail_def)
  from close_split [OF assms(1,3) _ _ this] c show ?thesis by simp
qed

lemma prefix_code_DefinedType:
  assumes "keyed (DefinedType m n u g ts)" and "list_all prefix_code ts"
  shows "prefix_code (DefinedType m n u g ts)"
proof (rule prefix_codeI)
  fix t x y
  assume h: "keyed t" "Identity (DefinedType m n u g ts) @ x = Identity t @ y"
  show "identity_form (DefinedType m n u g ts) = identity_form t \<and> x = y"
  proof (cases t)
    case (DefinedType m' n' u' g' ts')
    with h have "m @ CHR '':'' # nominal_tail g n ts x = m' @ CHR '':'' # nominal_tail g' n' ts' y"
      by (simp only: Identity_DefinedType same_append_eq)
    moreover have "ident m" "ident m'" using h(1) assms(1) DefinedType by simp_all
    ultimately have m: "m = m'" and tl: "nominal_tail g n ts x = nominal_tail g' n' ts' y"
      using colon_split by blast+
    have "ident g" "g = [] \<longrightarrow> ident n" "ident g'" "g' = [] \<longrightarrow> ident n'"
      using h(1) assms(1) DefinedType by simp_all
    note split = nominal_tail_split [OF this tl]
    show ?thesis
    proof (cases "g = []")
      case True
      then have "g' = []" and "n = n' \<and> x = y" using split by blast+
      then show ?thesis using m True DefinedType by simp
    next
      case False
      then have "g' \<noteq> []" and "g = g'"
        and j: "join_strings '','' (map Identity ts) @ CHR ''>'' # CHR '')'' # x =
          join_strings '','' (map Identity ts') @ CHR ''>'' # CHR '')'' # y" using split by blast+
      moreover have "list_all keyed ts" "list_all keyed ts'" using h(1) assms(1) DefinedType by simp_all
      moreover note prefix_code_list [OF this assms(2) _ j]
      ultimately show ?thesis using m DefinedType by simp
    qed
  qed (use h in \<open>auto split: if_splits\<close>)
qed

lemma field_identity_prefix:
  assumes fields: "\<forall>f \<in> set fs \<union> set fs'. ident (fst f) \<and> fst f \<noteq> [] \<and> keyed (snd f)"
    and codes: "\<forall>f \<in> set fs. prefix_code (snd f)"
    and eq: "join_strings '','' (map field_identity fs) @ CHR '')'' # x =
      join_strings '','' (map field_identity fs') @ CHR '')'' # y"
  shows "map (\<lambda>f. (fst f, identity_form (snd f))) fs =
    map (\<lambda>f. (fst f, identity_form (snd f))) fs' \<and> x = y"
proof (rule join_prefix [OF _ _ _ eq])
  show "(fst a, identity_form (snd a)) = (fst b, identity_form (snd b)) \<and> v = w"
    if "a \<in> set fs" "b \<in> set fs'" "field_identity a @ v = field_identity b @ w" for a b v w
    using that fields codes colon_split [of "fst a" "fst b" "Identity (snd a) @ v" "Identity (snd b) @ w"]
      prefix_codeD [of "snd a" "snd b" v w]
    by (auto simp: field_identity_def)
  show "field_identity a @ z \<noteq> d # w" if "a \<in> set fs \<union> set fs'" "d \<in> set '',)>''" for a d z w
  proof -
    have "fst a \<noteq> []" "ident (fst a)" using fields that(1) by auto
    then obtain h us where "fst a = h # us" "name_char h" by (cases "fst a") auto
    with that(2) show ?thesis by (auto simp: field_identity_def name_char_def)
  qed
qed simp

lemma Identity_StructType:
  "Identity (StructType fs p tu) @ z = ''struct('' @ mut_prefix p ''packed:'' @
     join_strings '','' (map field_identity fs) @ CHR '')'' # z"
  by (simp add: field_identity_def [abs_def])

lemma prefix_code_StructType:
  assumes "keyed (StructType fs p tu)" and codes: "\<forall>f \<in> set fs. prefix_code (snd f)"
  shows "prefix_code (StructType fs p tu)"
proof (rule prefix_codeI)
  fix t x y
  assume h: "keyed t" "Identity (StructType fs p tu) @ x = Identity t @ y"
  show "identity_form (StructType fs p tu) = identity_form t \<and> x = y"
  proof (cases t)
    case (StructType fs' p' tu')
    have ok: "\<forall>f \<in> set fs \<union> set fs'. ident (fst f) \<and> fst f \<noteq> [] \<and> fst f \<noteq> ''packed'' \<and> keyed (snd f)"
      using h assms StructType by (auto simp: list_all_iff)
    have body: "mut_prefix p ''packed:'' @ join_strings '','' (map field_identity fs) @ CHR '')'' # x =
        mut_prefix p' ''packed:'' @ join_strings '','' (map field_identity fs') @ CHR '')'' # y"
      using h(2) unfolding StructType Identity_StructType by (simp only: same_append_eq)
    have "p = p'"
    proof (rule ccontr)
      assume "p \<noteq> p'"
      with body show False
        using packed_split [of fs] packed_split [of fs'] ok
        by (cases p) (auto simp: mut_prefix_def dest: sym)
    qed
    with body have "join_strings '','' (map field_identity fs) @ CHR '')'' # x =
        join_strings '','' (map field_identity fs') @ CHR '')'' # y" by simp
    then show ?thesis
      using field_identity_prefix [of fs fs' x y] ok codes \<open>p = p'\<close> StructType by simp
  qed (use h in \<open>auto split: if_splits\<close>)
qed

lemma prefix_code_FunctionType:
  assumes "keyed (FunctionType ps r v ve)" and "list_all prefix_code ps" and "prefix_code r"
  shows "prefix_code (FunctionType ps r v ve)"
proof (rule prefix_codeI)
  fix t x y
  assume h: "keyed t" "Identity (FunctionType ps r v ve) @ x = Identity t @ y"
  show "identity_form (FunctionType ps r v ve) = identity_form t \<and> x = y"
  proof (cases t)
    case (FunctionType ps' r' v' ve')
    with h have "join_strings '','' (map Identity ps) @ CHR '')'' # ''->'' @ Identity r @ x =
        join_strings '','' (map Identity ps') @ CHR '')'' # ''->'' @ Identity r' @ y" by simp
    then have "map identity_form ps = map identity_form ps' \<and> ''->'' @ Identity r @ x = ''->'' @ Identity r' @ y"
      using prefix_code_list [of ps ps' "CHR '')''" "''->'' @ Identity r @ x" "''->'' @ Identity r' @ y"]
        h(1) assms(1,2) FunctionType by simp
    then show ?thesis using prefix_codeD [OF assms(3), of r' x y] h(1) FunctionType by simp
  qed (use h in \<open>auto split: if_splits\<close>)
qed

lemma prefix_code_MultipleReturnType:
  assumes "list_all keyed ts" and "list_all prefix_code ts"
  shows "prefix_code (MultipleReturnType ts)"
proof (rule prefix_codeI)
  fix t x y
  assume h: "keyed t" "Identity (MultipleReturnType ts) @ x = Identity t @ y"
  show "identity_form (MultipleReturnType ts) = identity_form t \<and> x = y"
  proof (cases t)
    case (MultipleReturnType ts')
    with h show ?thesis using prefix_code_list [of ts ts' "CHR '')''" x y] assms by simp
  qed (use h in \<open>auto split: if_splits\<close>)
qed

lemma prefix_code_FlagsType: "prefix_code (FlagsType p vs ws)"
proof (rule prefix_codeI)
  fix t x y
  assume h: "keyed t" "Identity (FlagsType p vs ws) @ x = Identity t @ y"
  show "identity_form (FlagsType p vs ws) = identity_form t \<and> x = y"
  proof (cases t)
    case (FlagsType q vs' ws')
    then have "PrimitiveType_String p @ CHR '')'' # CHR '')'' # x =
        PrimitiveType_String q @ CHR '')'' # CHR '')'' # y"
      using h by (simp add: FlagsType_String_def)
    then have "PrimitiveType_String p = PrimitiveType_String q \<and> x = y"
      using close_split [of "PrimitiveType_String p" "PrimitiveType_String q" "CHR '')''" "CHR '')''"
          "CHR '')'' # x" "CHR '')'' # y"]
      by simp
    with FlagsType show ?thesis using PrimitiveType_String_inj by auto
  qed (use h in \<open>auto split: if_splits\<close>)
qed

lemma prefix_code_TraitTy:
  assumes "keyed (TraitTy tr)"
  shows "prefix_code (TraitTy tr)"
proof (rule prefix_codeI)
  fix t x y
  assume h: "keyed t" "Identity (TraitTy tr) @ x = Identity t @ y"
  show "identity_form (TraitTy tr) = identity_form t \<and> x = y"
  proof (cases t)
    case (TraitTy tr')
    then show ?thesis
      using h assms closes_split [of 0 "TraitType_String tr" "TraitType_String tr'" x y] by simp
  qed (use h in \<open>auto split: if_splits\<close>)
qed

lemma prefix_code_TraitPointerType:
  assumes "keyed (TraitPointerType tr mu)"
  shows "prefix_code (TraitPointerType tr mu)"
proof (rule prefix_codeI)
  fix t x y
  assume h: "keyed t" "Identity (TraitPointerType tr mu) @ x = Identity t @ y"
  show "identity_form (TraitPointerType tr mu) = identity_form t \<and> x = y"
  proof (cases t)
    case (TraitPointerType tr' mu')
    then have "mu = mu' \<and> TraitType_String tr @ CHR '')'' # CHR '')'' # x =
        TraitType_String tr' @ CHR '')'' # CHR '')'' # y"
      using h by (cases mu; cases mu') (auto simp: mut_prefix_def)
    then show ?thesis
      using closes_split [of 0 "TraitType_String tr" "TraitType_String tr'" "CHR '')'' # x" "CHR '')'' # y"]
        h assms TraitPointerType by simp
  qed (use h in \<open>auto split: if_splits\<close>)
qed

lemma Identity_prefix: "keyed s \<Longrightarrow> prefix_code s"
proof (induction s)
  case (StructType fs p tu)
  have "prefix_code (snd f)" if "f \<in> set fs" for f
    using StructType.IH(1) [of f "snd f"] StructType.prems that by (simp add: snds.intros list_all_iff)
  with StructType.prems show ?case by (intro prefix_code_StructType) auto
qed (auto simp: list_all_iff intro: prefix_code_SelfType prefix_code_PrimitiveTy
    prefix_code_TypeParameter prefix_code_AliasRef prefix_code_UnionType prefix_code_EnumType
    prefix_code_PointerType prefix_code_SliceType prefix_code_ArrayType prefix_code_DefinedType
    prefix_code_FunctionType prefix_code_MultipleReturnType prefix_code_FlagsType prefix_code_TraitTy
    prefix_code_TraitPointerType)

lemma Identity_eq_iff:
  assumes "keyed s" and "keyed t"
  shows "Identity s = Identity t \<longleftrightarrow> identity_form s = identity_form t"
  using prefix_codeD [OF Identity_prefix [OF assms(1)] assms(2), of "[]" "[]"]
    Identity_form [OF assms(1)] Identity_form [OF assms(2)]
  by auto

section \<open>Keys of instances\<close>

lemma map_form_Identity: "list_all keyed ss \<Longrightarrow> list_all keyed ts \<Longrightarrow>
  map identity_form ss = map identity_form ts \<Longrightarrow> map Identity ss = map Identity ts"
proof (induction ss arbitrary: ts)
  case (Cons s ss)
  then show ?case by (cases ts) (auto simp: Identity_eq_iff)
qed simp

lemma specializationKey_prefix:
  assumes "list_all keyed ss" and "list_all keyed ts" and "c \<in> set '')>''"
  shows "specializationKey ss @ c # x = specializationKey ts @ c # y \<longleftrightarrow>
    map identity_form ss = map identity_form ts \<and> x = y"
proof -
  have codes: "list_all prefix_code ss"
    unfolding list_all_iff
  proof
    fix s
    assume "s \<in> set ss"
    with assms(1) have "keyed s" by (simp add: list_all_iff)
    then show "prefix_code s" by (rule Identity_prefix)
  qed
  show ?thesis
    unfolding specializationKey_def
    using prefix_code_list [OF assms(1,2) codes assms(3), of x y] map_form_Identity [OF assms(1,2)]
    by metis
qed

lemma specializationKey_eq_iff:
  assumes "list_all keyed ss" and "list_all keyed ts"
  shows "specializationKey ss = specializationKey ts \<longleftrightarrow> map identity_form ss = map identity_form ts"
  using specializationKey_prefix [OF assms, of "CHR ''>''" "[]" "[]"] by simp

lemma specialization_text_eq_iff:
  assumes "list_all keyed ss" and "list_all keyed ts"
    and "ident m" and "ident n" and "ident m'" and "ident n'"
  shows "specialization_text m n ss = specialization_text m' n' ts \<longleftrightarrow>
    m = m' \<and> n = n' \<and> map identity_form ss = map identity_form ts"
proof
  let ?x = "specializationKey ss @ ''>''" and ?y = "specializationKey ts @ ''>''"
  assume "specialization_text m n ss = specialization_text m' n' ts"
  then have eq: "m @ CHR '':'' # n @ CHR ''<'' # ?x = m' @ CHR '':'' # n' @ CHR ''<'' # ?y"
    by (simp add: specialization_text_def genericOwner_def)
  from colon_split [OF assms(3,5) eq] have "m = m'" and "n @ CHR ''<'' # ?x = n' @ CHR ''<'' # ?y" by auto
  moreover from close_split [OF assms(4,6) _ _ this(2)] have "n = n'" and "?x = ?y" by auto
  ultimately show "m = m' \<and> n = n' \<and> map identity_form ss = map identity_form ts"
    using specializationKey_prefix [OF assms(1,2), of "CHR ''>''" "[]" "[]"] by simp
next
  assume "m = m' \<and> n = n' \<and> map identity_form ss = map identity_form ts"
  then show "specialization_text m n ss = specialization_text m' n' ts"
    using specializationKey_eq_iff [OF assms(1,2)] by (simp add: specialization_text_def)
qed

end
