(* ===== verification/Types_Graph_Properties.thy ===== *)
theory Types_Graph_Properties
  imports Types_Graph_Facts Types_Identity_Facts
begin

text \<open>The properties of the encodings and traversals of types that the manifest names.\<close>

text \<open>
  C23: the keys under which instances are recognised keep different instances apart. For types
  named as the analysis names them (\<open>keyed\<close>: also type parameters, whose owner is
  \<open>module:name\<close>, and instances of templates), two types have the same \<open>Identity\<close> exactly
  when they agree on everything the encoding looks at; two lists of arguments have the same
  \<open>specializationKey\<close> exactly when they agree argument by argument; and the texts that are
  hashed into the names of two instances are equal exactly when module, name and arguments
  are.
\<close>

theorem identity_is_injective:
  assumes "keyed s" and "keyed t" and "list_all keyed ss" and "list_all keyed ts"
    and "ident m" and "ident n" and "ident m'" and "ident n'"
  shows "(Identity s = Identity t \<longleftrightarrow> identity_form s = identity_form t) \<and>
    (specializationKey ss = specializationKey ts \<longleftrightarrow>
       map identity_form ss = map identity_form ts) \<and>
    (specialization_text m n ss = specialization_text m' n' ts \<longleftrightarrow>
       m = m' \<and> n = n' \<and> map identity_form ss = map identity_form ts)"
  using Identity_eq_iff [OF assms(1,2)] specializationKey_eq_iff [OF assms(3,4)]
    specialization_text_eq_iff [OF assms(3-8)]
  by blast

theorem identity_is_injective_witness:
  "specialization_text ''app'' ''make'' [TypeParameter (TypeParam ''app:make'' ''T'' 0 NilType),
       PointerType u8 True] \<noteq>
   specialization_text ''app'' ''make'' [TypeParameter (TypeParam ''app:make'' ''T'' 1 NilType),
       PointerType u8 True] \<and>
   Identity (AliasRef None ''m'' ''Map<(i32): u8, *mut u8>'') \<noteq>
   Identity (DefinedType ''m'' ''Map<u8>'' NilType ''Map'' [u8])"
  using identity_is_injective [of "AliasRef None ''m'' ''Map<(i32): u8, *mut u8>''"
      "DefinedType ''m'' ''Map<u8>'' NilType ''Map'' [u8]"
      "[TypeParameter (TypeParam ''app:make'' ''T'' 0 NilType), PointerType u8 True]"
      "[TypeParameter (TypeParam ''app:make'' ''T'' 1 NilType), PointerType u8 True]"
      "''app''" "''make''" "''app''" "''make''"]
  by (simp add: name_char_def)

text \<open>
  C14: on a finite alias store, \<open>IsComplete\<close> decides whether the type has a finite by-value
  layout: following fields, elements (of slices too), names and references never comes back to
  the same type and never meets an opaque type, a trait, \<open>Self\<close> or an unresolved reference.
\<close>

theorem completeness_decided:
  assumes "finite (dom \<sigma>)" and "coherent \<sigma> t"
  shows "IsComplete \<sigma> t = Some (sized \<sigma> t)"
  using assms by (rule IsComplete_iff)

theorem completeness_decided_witness:
  "IsComplete Map.empty (StructType [(''x'', i32), (''p'', PointerType OpaqueType False)] False None)
     = Some True \<and>
   sized Map.empty (StructType [(''x'', i32), (''p'', PointerType OpaqueType False)] False None)"
proof -
  let ?t = "StructType [(''x'', i32), (''p'', PointerType OpaqueType False)] False None"
  have parts: "a = ?t \<or> a = i32 \<or> a = PointerType OpaqueType False"
    if "(part_of Map.empty)\<^sup>*\<^sup>* a ?t" for a
    using that by (induction rule: converse_rtranclp_induct) (auto elim!: part_of.cases)
  have "coherent Map.empty ?t" unfolding coherent_def by (auto dest!: parts)
  moreover have "IsComplete Map.empty ?t = Some True" by code_simp
  ultimately show ?thesis using completeness_decided [of Map.empty ?t] by simp
qed

text \<open>
  C33: the visited sets make the guarded traversals return on every type of a finite alias
  store, whatever cycles it has; and \<open>HasError\<close> answers yes only when an error type occurs in
  the type.
\<close>

theorem guarded_traversals_terminate:
  assumes "finite (dom \<sigma>)"
  shows "IsComplete \<sigma> t \<noteq> None \<and> HasTaggedUnion \<sigma> t \<noteq> None \<and> HasError \<sigma> t \<noteq> None \<and>
    (HasError \<sigma> t = Some True \<longrightarrow> contains_error \<sigma> t)"
  using isComplete_returns [OF assms, of "{}" "{}" t] hasTaggedUnion_returns [OF assms, of t "({}, {})"]
    hasError_returns [OF assms, of t "({}, {})"] hasError_sound [of \<sigma> t "({}, {})"]
  by (auto simp: IsComplete_def HasTaggedUnion_def HasError_def)

theorem guarded_traversals_terminate_witness:
  "HasError slice_store slice_node = Some False \<and> HasTaggedUnion slice_store slice_node \<noteq> None"
proof -
  have "HasError slice_store slice_node = Some False"
    by (simp add: HasError_def hasError.simps slice_node_def slice_store_def enter_named_def
        enter_alias_def alias_target_def or_visit_def not_found_def)
  moreover have "finite (dom slice_store)" by (simp add: slice_store_def)
  ultimately show ?thesis using guarded_traversals_terminate [of slice_store slice_node] by blast
qed

text \<open>
  C34: \<open>HasTraitPointer\<close> has no visited set. It returns on every complete type, but on a type
  that contains a slice of itself it recurses for ever; the validator calls it on the
  parameters of foreign functions before it checks that they are complete.
\<close>

theorem trait_pointer_search:
  "(sized \<sigma> t \<longrightarrow> HasTraitPointer \<sigma> t \<noteq> None) \<and>
   HasTraitPointer slice_store slice_node = None \<and>
   IsComplete slice_store slice_node = Some False"
proof -
  have "HasTraitPointer slice_store slice_node = None"
    using slice_node_not_fixed by (cases "HasTraitPointer slice_store slice_node") auto
  moreover have "IsComplete slice_store slice_node = Some False"
    by (simp add: IsComplete_def isComplete.simps slice_node_def slice_store_def alias_target_def)
  ultimately show ?thesis using sized_HasTraitPointer_returns by blast
qed

theorem trait_pointer_search_witness:
  "HasTraitPointer Map.empty (SliceType u8 False) \<noteq> None"
proof -
  have "sized Map.empty (SliceType u8 False)"
    by (rule sized.intros [of _ _ "[u8]"]) (auto intro: sized.intros)
  then show ?thesis using trait_pointer_search by blast
qed

lemma Atoi_underscore [simp]: "\<not> Atoi_ok (CHR ''_'' # s)"
  by (simp add: Atoi_ok_def is_digit_def)

text \<open>
  the source-visible form of an explicitly tagged union has a tag and a union with one
  struct for every variant that has fields, in order, and no payload field whose name reads as
  an integer; auto-tagged unions have no such form.
\<close>

theorem tagged_union_form:
  assumes "Underlying \<sigma> t = Some (StructType fs p (Some i))"
  shows "TaggedUnionRepr \<sigma> t = Some
      (if tu_Auto i then None
       else Some (StructType [(''tag'', tu_Tag i),
              (''payload'', UnionType [] [] (repr_payload (tu_Variants i)))] p None)) \<and>
    map fst (repr_payload (tu_Variants i)) =
      map tv_Name (filter (\<lambda>w. tv_Fields w \<noteq> []) (tu_Variants i)) \<and>
    (\<forall>x \<in> set (repr_payload (tu_Variants i)). \<exists>gs. snd x = StructType gs False None \<and>
       (\<forall>g \<in> set gs. \<not> Atoi_ok (fst g)))"
proof (intro conjI ballI)
  show "map fst (repr_payload (tu_Variants i)) =
      map tv_Name (filter (\<lambda>w. tv_Fields w \<noteq> []) (tu_Variants i))"
    by (simp add: repr_payload_def comp_def)
  fix x assume "x \<in> set (repr_payload (tu_Variants i))"
  then obtain w where "snd x = StructType (map repr_field (tv_Fields w)) False None"
    by (auto simp: repr_payload_def)
  moreover have "\<not> Atoi_ok (fst (repr_field f))" for f by (simp add: repr_field_def)
  ultimately show "\<exists>gs. snd x = StructType gs False None \<and> (\<forall>g \<in> set gs. \<not> Atoi_ok (fst g))"
    by auto
qed (simp add: TaggedUnionRepr_def assms)

theorem tagged_union_form_witness:
  "TaggedUnionRepr Map.empty (StructType [] False (Some (TaggedUnionInfo u8
      [TaggedUnionVariant ''none'' ''0'' [], TaggedUnionVariant ''some'' ''1'' [(''0'', i32)]] False))) =
    Some (Some (StructType [(''tag'', u8),
      (''payload'', UnionType [] [] [(''some'', StructType [(''_0'', i32)] False None)])] False None))"
proof -
  have "repr_payload [TaggedUnionVariant ''none'' ''0'' [], TaggedUnionVariant ''some'' ''1'' [(''0'', i32)]] =
      [(''some'', StructType [(''_0'', i32)] False None)]"
    by (simp add: repr_payload_def repr_field_def Atoi_ok_def is_digit_def decimal_value_def)
  then show ?thesis
    using tagged_union_form [of Map.empty "StructType [] False (Some (TaggedUnionInfo u8
      [TaggedUnionVariant ''none'' ''0'' [], TaggedUnionVariant ''some'' ''1'' [(''0'', i32)]] False))"
      "[]" False "TaggedUnionInfo u8
      [TaggedUnionVariant ''none'' ''0'' [], TaggedUnionVariant ''some'' ''1'' [(''0'', i32)]] False"]
    by simp
qed

end
