(* ===== verification/Target.thy ===== *)
theory Target
  imports Types_Compat
begin

text \<open>
  Target triples, \<^verbatim>\<open>src/target/target.go\<close>, and the target queries of the LLVM emitter,
  \<^verbatim>\<open>src/codegen/llvm/target.go\<close>. The architecture and system the compiler runs on
  (\<open>runtime.GOARCH\<close>, \<open>runtime.GOOS\<close>) are fields of the emitter's record. Triples are
  byte strings; \<open>strings.ToLower\<close> is the ASCII one.
\<close>

definition lower_char :: "char \<Rightarrow> char" where
  "lower_char c =
    (if 65 \<le> (of_char c :: nat) \<and> (of_char c :: nat) \<le> 90 then char_of ((of_char c :: nat) + 32) else c)"

definition ToLower :: "string \<Rightarrow> string" where
  "ToLower s = map lower_char s"

fun starts_with :: "'a list \<Rightarrow> 'a list \<Rightarrow> bool" where
  "starts_with [] s = True"
| "starts_with (p # ps) [] = False"
| "starts_with (p # ps) (c # s) \<longleftrightarrow> p = c \<and> starts_with ps s"

text \<open>\<open>strings.Contains\<close>.\<close>

fun Contains :: "'a list \<Rightarrow> 'a list \<Rightarrow> bool" where
  "Contains [] sub \<longleftrightarrow> sub = []"
| "Contains (c # s) sub \<longleftrightarrow> starts_with sub (c # s) \<or> Contains s sub"

record emitter =
  em_TargetTriple :: string
  em_GOARCH :: string
  em_GOOS :: string

section \<open>Triples\<close>

definition EffectiveTriple :: "emitter \<Rightarrow> string \<Rightarrow> string" where
  "EffectiveTriple e triple = (if triple \<noteq> [] then triple else em_GOARCH e @ ''-'' @ em_GOOS e)"

definition Arch :: "emitter \<Rightarrow> string \<Rightarrow> string" where
  "Arch e triple = takeWhile (\<lambda>c. c \<noteq> CHR ''-'') (ToLower (EffectiveTriple e triple))"

definition arch32 :: "string list" where
  "arch32 = [''386'', ''i386'', ''i486'', ''i586'', ''i686'', ''x86'',
     ''arm'', ''armv6'', ''armv7'', ''armv7a'', ''armv7l'', ''thumb'', ''thumbv7'', ''thumbv7a'',
     ''mips'', ''mipsel'', ''powerpc'', ''ppc'', ''riscv32'', ''wasm32'']"

definition arch64 :: "string list" where
  "arch64 = [''x86_64'', ''amd64'', ''aarch64'', ''arm64'', ''mips64'', ''mips64el'',
     ''powerpc64'', ''powerpc64le'', ''ppc64'', ''ppc64le'', ''riscv64'', ''s390x'', ''sparcv9'',
     ''wasm64'']"

definition PointerBits :: "emitter \<Rightarrow> string \<Rightarrow> int option" where
  "PointerBits e triple =
    (if Arch e triple \<in> set arch32 then Some 32
     else if Arch e triple \<in> set arch64 then Some 64
     else None)"

definition arm_family :: "string list" where
  "arm_family = [''arm'', ''armv6'', ''armv7'', ''armv7a'', ''armv7l'', ''thumb'', ''thumbv7'',
     ''thumbv7a'', ''aarch64'', ''arm64'']"

definition CCharSigned :: "emitter \<Rightarrow> string \<Rightarrow> bool" where
  "CCharSigned e triple =
    (let target = ToLower (EffectiveTriple e triple)
     in if Arch e target \<in> set arm_family then
          Contains target ''apple'' \<or> Contains target ''darwin'' \<or> Contains target ''macos'' \<or>
          Contains target ''windows'' \<or> Contains target ''mingw'' \<or> Contains target ''msvc'' \<or>
          Contains target ''win32''
        else True)"

section \<open>The emitter's queries\<close>

definition targetTriple :: "emitter \<Rightarrow> string" where
  "targetTriple e = EffectiveTriple e (em_TargetTriple e)"

definition targetArch :: "emitter \<Rightarrow> string" where
  "targetArch e = Arch e (targetTriple e)"

text \<open>An architecture without known pointer width panics.\<close>

definition pointerBits :: "emitter \<Rightarrow> int run" where
  "pointerBits e = PointerBits e (targetTriple e)"

definition pointerBytes :: "emitter \<Rightarrow> int run" where
  "pointerBytes e = map_option (\<lambda>b. b div 8) (pointerBits e)"

definition pointerIntType :: "emitter \<Rightarrow> string run" where
  "pointerIntType e = map_option (\<lambda>b. ''i'' @ decimal_int b) (pointerBits e)"

fun integerBits :: "emitter \<Rightarrow> PrimitiveType \<Rightarrow> int run" where
  "integerBits e PrimitiveI8 = Some 8"
| "integerBits e PrimitiveU8 = Some 8"
| "integerBits e PrimitiveI16 = Some 16"
| "integerBits e PrimitiveU16 = Some 16"
| "integerBits e PrimitiveI32 = Some 32"
| "integerBits e PrimitiveU32 = Some 32"
| "integerBits e PrimitiveI64 = Some 64"
| "integerBits e PrimitiveU64 = Some 64"
| "integerBits e PrimitiveIsz = pointerBits e"
| "integerBits e PrimitiveUsz = pointerBits e"
| "integerBits e _ = Some 0"

definition x86_32 :: "string list" where
  "x86_32 = [''386'', ''i386'', ''i486'', ''i586'', ''i686'', ''x86'']"

definition windows_target :: "string \<Rightarrow> bool" where
  "windows_target target \<longleftrightarrow>
     Contains target ''windows'' \<or> Contains target ''win32'' \<or>
     Contains target ''mingw'' \<or> Contains target ''msvc''"

definition scalar64Align :: "emitter \<Rightarrow> int" where
  "scalar64Align e =
    (if targetArch e \<in> set x86_32 then (if windows_target (ToLower (targetTriple e)) then 8 else 4)
     else 8)"

section \<open>Facts\<close>

lemma pointerBits_cases: "pointerBits e = Some b \<Longrightarrow> b = 32 \<or> b = 64"
  by (auto simp: pointerBits_def PointerBits_def split: if_splits)

lemma pointerBytes_cases: "pointerBytes e = Some b \<Longrightarrow> b = 4 \<or> b = 8"
  using pointerBits_cases [of e] by (auto simp: pointerBytes_def)

lemma scalar64Align_cases: "scalar64Align e = 4 \<or> scalar64Align e = 8"
  by (simp add: scalar64Align_def)

lemma arch_disjoint: "set arch32 \<inter> set arch64 = {}"
  by (simp add: arch32_def arch64_def)

end
