(* ===== verification/Layout.thy ===== *)
theory Layout
  imports Target Types_Graph "HOL-Library.Word"
begin

text \<open>
  Sizes and alignments, \<open>typeSizeAlign\<close> and \<open>alignTo\<close> in
  \<^verbatim>\<open>src/codegen/llvm/foreign_abi.go\<close>, and the LLVM type text \<open>TypeEmit\<close> in
  \<^verbatim>\<open>src/codegen/llvm/llvmgen.go\<close>. A Go \<open>int\<close> is 64 bits wide and wraps: \<open>wrap64\<close> is
  written at every sum and product whose operands are not constants. An unsupported type and a
  target without known pointer width panic.
\<close>

unbundle bit_operations_syntax

definition wrap64 :: "int \<Rightarrow> int" where
  "wrap64 x = (x + 2 ^ 63) mod 2 ^ 64 - 2 ^ 63"

definition alignTo :: "int \<Rightarrow> int \<Rightarrow> int" where
  "alignTo v a = wrap64 (v + a - 1) AND NOT (wrap64 (a - 1))"

definition max_int :: "int \<Rightarrow> int \<Rightarrow> int" where
  "max_int a b = (if a < b then b else a)"

section \<open>Sizes and alignments\<close>

type_synonym size_align = "int \<times> int"

definition prim_size_align :: "emitter \<Rightarrow> PrimitiveType \<Rightarrow> size_align run" where
  "prim_size_align e p =
    (case p of
       PrimitiveVoid \<Rightarrow> Some (0, 1)
     | PrimitiveI8 \<Rightarrow> Some (1, 1)
     | PrimitiveU8 \<Rightarrow> Some (1, 1)
     | PrimitiveBool \<Rightarrow> Some (1, 1)
     | PrimitiveI16 \<Rightarrow> Some (2, 2)
     | PrimitiveU16 \<Rightarrow> Some (2, 2)
     | PrimitiveI32 \<Rightarrow> Some (4, 4)
     | PrimitiveU32 \<Rightarrow> Some (4, 4)
     | PrimitiveF32 \<Rightarrow> Some (4, 4)
     | PrimitiveIsz \<Rightarrow> map_option (\<lambda>b. (b, b)) (pointerBytes e)
     | PrimitiveUsz \<Rightarrow> map_option (\<lambda>b. (b, b)) (pointerBytes e)
     | PrimitiveI64 \<Rightarrow> Some (8, scalar64Align e)
     | PrimitiveU64 \<Rightarrow> Some (8, scalar64Align e)
     | PrimitiveF64 \<Rightarrow> Some (8, scalar64Align e))"

text \<open>The three loops over fields; \<open>sa\<close> is the call of \<open>typeSizeAlign\<close>.\<close>

fun packed_loop :: "(ty \<Rightarrow> size_align run) \<Rightarrow> field list \<Rightarrow> int \<Rightarrow> int run" where
  "packed_loop sa [] bytes = Some bytes"
| "packed_loop sa (f # fs) bytes = do {
     r \<leftarrow> sa (snd f);
     packed_loop sa fs (wrap64 (bytes + fst r)) }"

fun struct_loop :: "(ty \<Rightarrow> size_align run) \<Rightarrow> field list \<Rightarrow> int \<Rightarrow> int \<Rightarrow> size_align run" where
  "struct_loop sa [] offset maxAlign = Some (offset, maxAlign)"
| "struct_loop sa (f # fs) offset maxAlign = do {
     r \<leftarrow> sa (snd f);
     struct_loop sa fs (wrap64 (alignTo offset (snd r) + fst r)) (max_int maxAlign (snd r)) }"

fun union_loop :: "(ty \<Rightarrow> size_align run) \<Rightarrow> field list \<Rightarrow> int \<Rightarrow> int \<Rightarrow> size_align run" where
  "union_loop sa [] maxSize maxAlign = Some (maxSize, maxAlign)"
| "union_loop sa (f # fs) maxSize maxAlign = do {
     r \<leftarrow> sa (snd f);
     union_loop sa fs (max_int maxSize (fst r)) (max_int maxAlign (snd r)) }"

fun typeSizeAlign_step :: "emitter \<Rightarrow> (ty \<Rightarrow> size_align run) \<Rightarrow> ty \<Rightarrow> size_align run" where
  "typeSizeAlign_step e sa (PrimitiveTy p) = prim_size_align e p"
| "typeSizeAlign_step e sa (PointerType b mu) = map_option (\<lambda>b. (b, b)) (pointerBytes e)"
| "typeSizeAlign_step e sa (TraitPointerType tr mu) = map_option (\<lambda>b. (b * 2, b)) (pointerBytes e)"
| "typeSizeAlign_step e sa (SliceType b mu) = map_option (\<lambda>b. (b * 2, b)) (pointerBytes e)"
| "typeSizeAlign_step e sa (ArrayType b l) = do {
     r \<leftarrow> sa b;
     Some (wrap64 (fst r * l), snd r) }"
| "typeSizeAlign_step e sa (EnumType m n i vs ws) = Some (4, 4)"
| "typeSizeAlign_step e sa (FlagsType p vs ws) = sa (PrimitiveTy p)"
| "typeSizeAlign_step e sa (StructType fs p tu) =
     (if p then map_option (\<lambda>bytes. (bytes, 1)) (packed_loop sa fs 0)
      else map_option (\<lambda>r. (alignTo (fst r) (snd r), snd r)) (struct_loop sa fs 0 1))"
| "typeSizeAlign_step e sa (UnionType m n fs) =
     map_option (\<lambda>r. (alignTo (fst r) (snd r), snd r)) (union_loop sa fs 0 1)"
| "typeSizeAlign_step e sa _ = None"

lemma map_option_mono [run_mono]: "mono_option A \<Longrightarrow> mono_option (\<lambda>f. map_option g (A f))"
  unfolding map_conv_bind_option by (intro bind_mono option.const_mono)

lemma packed_loop_mono [run_mono]:
  "(\<And>t. mono_option (\<lambda>f. F f t)) \<Longrightarrow> mono_option (\<lambda>f. packed_loop (F f) fs bytes)"
  by (induction fs arbitrary: bytes) (simp_all add: option.const_mono bind_mono)

lemma struct_loop_mono [run_mono]:
  "(\<And>t. mono_option (\<lambda>f. F f t)) \<Longrightarrow> mono_option (\<lambda>f. struct_loop (F f) fs offset maxAlign)"
  by (induction fs arbitrary: offset maxAlign) (simp_all add: option.const_mono bind_mono)

lemma union_loop_mono [run_mono]:
  "(\<And>t. mono_option (\<lambda>f. F f t)) \<Longrightarrow> mono_option (\<lambda>f. union_loop (F f) fs maxSize maxAlign)"
  by (induction fs arbitrary: maxSize maxAlign) (simp_all add: option.const_mono bind_mono)

lemma typeSizeAlign_step_mono [partial_function_mono]:
  assumes "\<And>t. mono_option (\<lambda>f. F f t)"
  shows "mono_option (\<lambda>f. typeSizeAlign_step e (F f) t)"
  by (cases t) (simp_all add: run_mono option.const_mono bind_mono assms)

partial_function (option) typeSizeAlign :: "emitter \<Rightarrow> alias_store \<Rightarrow> ty \<Rightarrow> size_align run" where
  "typeSizeAlign e \<sigma> t =
     Option.bind (Underlying \<sigma> t) (\<lambda>u. typeSizeAlign_step e (typeSizeAlign e \<sigma>) u)"

declare typeSizeAlign.simps [code]

section \<open>LLVM types\<close>

definition prim_emit :: "emitter \<Rightarrow> PrimitiveType \<Rightarrow> string run" where
  "prim_emit e p =
    (case p of
       PrimitiveBool \<Rightarrow> Some ''i1''
     | PrimitiveVoid \<Rightarrow> Some ''void''
     | PrimitiveIsz \<Rightarrow> pointerIntType e
     | PrimitiveUsz \<Rightarrow> pointerIntType e
     | PrimitiveF32 \<Rightarrow> Some ''float''
     | PrimitiveF64 \<Rightarrow> Some ''double''
     | PrimitiveI8 \<Rightarrow> Some ''i8''
     | PrimitiveI16 \<Rightarrow> Some ''i16''
     | PrimitiveI32 \<Rightarrow> Some ''i32''
     | PrimitiveI64 \<Rightarrow> Some ''i64''
     | PrimitiveU8 \<Rightarrow> Some ''i8''
     | PrimitiveU16 \<Rightarrow> Some ''i16''
     | PrimitiveU32 \<Rightarrow> Some ''i32''
     | PrimitiveU64 \<Rightarrow> Some ''i64'')"

fun mapM :: "('a \<Rightarrow> 'b run) \<Rightarrow> 'a list \<Rightarrow> 'b list run" where
  "mapM f [] = Some []"
| "mapM f (x # xs) = do {
     y \<leftarrow> f x;
     ys \<leftarrow> mapM f xs;
     Some (y # ys) }"

text \<open>Go's division truncates towards zero.\<close>

definition go_div :: "int \<Rightarrow> int \<Rightarrow> int" where
  "go_div x y = (if (x < 0) = (y < 0) then \<bar>x\<bar> div \<bar>y\<bar> else - (\<bar>x\<bar> div \<bar>y\<bar>))"

definition array_text :: "int \<Rightarrow> string \<Rightarrow> string" where
  "array_text n element = ''['' @ decimal_int n @ '' x '' @ element @ '']''"

fun TypeEmit_step ::
  "emitter \<Rightarrow> (ty \<Rightarrow> size_align run) \<Rightarrow> (ty \<Rightarrow> string run) \<Rightarrow> ty \<Rightarrow> string run" where
  "TypeEmit_step e sa te (PrimitiveTy p) = prim_emit e p"
| "TypeEmit_step e sa te (PointerType b mu) = Some ''ptr''"
| "TypeEmit_step e sa te (TraitPointerType tr mu) = Some ''{ ptr, ptr }''"
| "TypeEmit_step e sa te (EnumType m n i vs ws) = Some ''i32''"
| "TypeEmit_step e sa te (FlagsType p vs ws) = te (PrimitiveTy p)"
| "TypeEmit_step e sa te (StructType fs p tu) =
     map_option (\<lambda>ss. (if p then ''<{ '' else ''{ '') @ join_strings '', '' ss @
         (if p then '' }>'' else '' }''))
       (mapM (\<lambda>f. te (snd f)) fs)"
| "TypeEmit_step e sa te (MultipleReturnType ts) =
     map_option (\<lambda>ss. ''{ '' @ join_strings '', '' ss @ '' }'') (mapM te ts)"
| "TypeEmit_step e sa te (UnionType m n fs) = do {
     r \<leftarrow> sa (UnionType m n fs);
     Some (array_text (go_div (fst r) (snd r)) (''i'' @ decimal_int (wrap64 (snd r * 8)))) }"
| "TypeEmit_step e sa te (SliceType b mu) =
     map_option (\<lambda>i. ''{ ptr, '' @ i @ '' }'') (pointerIntType e)"
| "TypeEmit_step e sa te (ArrayType b l) = map_option (array_text l) (te b)"
| "TypeEmit_step e sa te (FunctionType ps r v ve) = do {
     s \<leftarrow> te r;
     ss \<leftarrow> mapM te ps;
     Some (s @ '' ('' @ join_strings '', '' ss @ '')'') }"
| "TypeEmit_step e sa te _ = None"

lemma mapM_mono [run_mono]:
  "(\<And>x. mono_option (\<lambda>f. F f x)) \<Longrightarrow> mono_option (\<lambda>f. mapM (F f) xs)"
  by (induction xs) (simp_all add: option.const_mono bind_mono)

lemma TypeEmit_step_mono [partial_function_mono]:
  assumes "\<And>t. mono_option (\<lambda>f. F f t)"
  shows "mono_option (\<lambda>f. TypeEmit_step e sa (F f) t)"
  by (cases t) (simp_all add: run_mono option.const_mono bind_mono assms)

partial_function (option) TypeEmit :: "emitter \<Rightarrow> alias_store \<Rightarrow> ty \<Rightarrow> string run" where
  "TypeEmit e \<sigma> t =
     Option.bind (Underlying \<sigma> t) (\<lambda>u. TypeEmit_step e (typeSizeAlign e \<sigma>) (TypeEmit e \<sigma>) u)"

declare TypeEmit.simps [code]

end
