(* ===== verification/Foreign_ABI.thy ===== *)
theory Foreign_ABI
  imports Layout
begin

text \<open>
  How an aggregate crosses the boundary to C: the five lowering rules of
  \<^verbatim>\<open>src/codegen/llvm/abi_*.go\<close> and their selection and use in
  \<^verbatim>\<open>src/codegen/llvm/foreign_abi.go\<close>. The Go interface \<open>foreignABIGenerator\<close> and its five
  implementing types are the datatype \<open>abi_generator\<close>; its three methods dispatch on it. A panic
  and an index out of range are \<open>None\<close>.
\<close>

record abiChunk =
  typeName :: string
  attributes :: string
  offset :: int
  chunk_size :: int

definition chunk :: "string \<Rightarrow> int \<Rightarrow> int \<Rightarrow> abiChunk" where
  "chunk name off bytes = \<lparr>typeName = name, attributes = [], offset = off, chunk_size = bytes\<rparr>"

definition pointer_chunk :: "string \<Rightarrow> abiChunk" where
  "pointer_chunk attrs = \<lparr>typeName = ''ptr'', attributes = attrs, offset = -1, chunk_size = 0\<rparr>"

definition int_text :: "int \<Rightarrow> string" where
  "int_text bits = ''i'' @ decimal_int bits"

definition byval :: "string \<Rightarrow> int \<Rightarrow> string" where
  "byval ty align = '' byval('' @ ty @ '') align '' @ decimal_int align"

datatype abi_generator =
    Aarch64 bool
  | SysVAMD64
  | SysVI386
  | Win32
  | Win64

section \<open>AArch64\<close>

text \<open>The variables captured by \<open>visit\<close>: the primitive seen and the count.\<close>

type_synonym hfa_state = "PrimitiveType option \<times> int"

type_synonym hfa_visit = "ty \<Rightarrow> hfa_state \<Rightarrow> (bool \<times> hfa_state) run"

fun hfa_fields :: "hfa_visit \<Rightarrow> field list \<Rightarrow> hfa_state \<Rightarrow> (bool \<times> hfa_state) run" where
  "hfa_fields v [] st = Some (True, st)"
| "hfa_fields v (f # fs) st = do {
     r \<leftarrow> v (snd f) st;
     if fst r then hfa_fields v fs (snd r) else Some r }"

fun hfa_elements :: "hfa_visit \<Rightarrow> ty \<Rightarrow> nat \<Rightarrow> hfa_state \<Rightarrow> (bool \<times> hfa_state) run" where
  "hfa_elements v t 0 st = Some (True, st)"
| "hfa_elements v t (Suc n) st = do {
     r \<leftarrow> v t st;
     if fst r then hfa_elements v t n (snd r) else Some r }"

definition hfa_prim :: "PrimitiveType \<Rightarrow> hfa_state \<Rightarrow> bool \<times> hfa_state" where
  "hfa_prim p st =
    (if p \<noteq> PrimitiveF32 \<and> p \<noteq> PrimitiveF64 then (False, st)
     else if fst st \<noteq> None \<and> fst st \<noteq> Some p then (False, st)
     else (True, (Some p, wrap64 (snd st + 1))))"

fun hfa_visit_step :: "hfa_visit \<Rightarrow> ty \<Rightarrow> hfa_state \<Rightarrow> (bool \<times> hfa_state) run" where
  "hfa_visit_step v (PrimitiveTy p) st = Some (hfa_prim p st)"
| "hfa_visit_step v (StructType fs p tu) st = hfa_fields v fs st"
| "hfa_visit_step v (ArrayType b n) st = hfa_elements v b (nat n) st"
| "hfa_visit_step v _ st = Some (False, st)"

lemma hfa_fields_mono [run_mono]:
  "(\<And>t st. mono_option (\<lambda>f. F f t st)) \<Longrightarrow> mono_option (\<lambda>f. hfa_fields (F f) fs st)"
  by (induction fs arbitrary: st) (simp_all add: option.const_mono bind_mono if_mono)

lemma hfa_elements_mono [run_mono]:
  "(\<And>t st. mono_option (\<lambda>f. F f t st)) \<Longrightarrow> mono_option (\<lambda>f. hfa_elements (F f) t n st)"
  by (induction n arbitrary: st) (simp_all add: option.const_mono bind_mono if_mono)

lemma hfa_visit_step_mono [partial_function_mono]:
  assumes "\<And>t st. mono_option (\<lambda>f. F f t st)"
  shows "mono_option (\<lambda>f. hfa_visit_step (F f) t st)"
  by (cases t) (simp_all add: run_mono option.const_mono assms)

partial_function (option) hfa_visit :: "alias_store \<Rightarrow> ty \<Rightarrow> hfa_state \<Rightarrow> (bool \<times> hfa_state) run"
where
  "hfa_visit \<sigma> t st =
     Option.bind (Underlying \<sigma> t) (\<lambda>u. hfa_visit_step (hfa_visit \<sigma>) u st)"

declare hfa_visit.simps [code]

definition homogeneousFloatAggregate :: "alias_store \<Rightarrow> ty \<Rightarrow> (string \<times> int) option run" where
  "homogeneousFloatAggregate \<sigma> t =
    map_option (\<lambda>(ok, prim, count).
        if \<not> ok \<or> count = 0 then None
        else if prim = Some PrimitiveF32 then Some (''float'', count)
        else Some (''double'', count))
      (hfa_visit \<sigma> t (None, 0))"

text \<open>\<open>ok && count <= 4\<close>.\<close>

definition small_hfa :: "(string \<times> int) option \<Rightarrow> (string \<times> int) option" where
  "small_hfa h = (case h of Some r \<Rightarrow> if snd r \<le> 4 then Some r else None | None \<Rightarrow> None)"

definition aarch64_params :: "emitter \<Rightarrow> alias_store \<Rightarrow> bool \<Rightarrow> ty \<Rightarrow> abiChunk list run" where
  "aarch64_params e \<sigma> linux t = do {
     h \<leftarrow> homogeneousFloatAggregate \<sigma> t;
     r \<leftarrow> typeSizeAlign e \<sigma> t;
     (case small_hfa h of
        Some r' \<Rightarrow>
          Some [(chunk (array_text (snd r') (fst r')) 0 (fst r))
            \<lparr>attributes := if linux \<and> snd r' > 1 then '' alignstack(8)'' else []\<rparr>]
      | None \<Rightarrow>
          Some (if fst r \<le> 8 then [chunk ''i64'' 0 8]
                else if fst r \<le> 16 then [chunk ''[2 x i64]'' 0 16]
                else [pointer_chunk []])) }"

definition aarch64_returns :: "emitter \<Rightarrow> alias_store \<Rightarrow> ty \<Rightarrow> abiChunk list run" where
  "aarch64_returns e \<sigma> t = do {
     h \<leftarrow> homogeneousFloatAggregate \<sigma> t;
     r \<leftarrow> typeSizeAlign e \<sigma> t;
     (case small_hfa h of
        Some r' \<Rightarrow> Some [chunk (array_text (snd r') (fst r')) 0 (fst r)]
      | None \<Rightarrow>
          Some (if fst r \<le> 8 then [chunk (int_text (wrap64 (fst r * 8))) 0 (fst r)]
                else if fst r \<le> 16 then [chunk ''[2 x i64]'' 0 16]
                else [pointer_chunk []])) }"

definition aarch64_sret :: "emitter \<Rightarrow> alias_store \<Rightarrow> ty \<Rightarrow> bool run" where
  "aarch64_sret e \<sigma> t = map_option (\<lambda>r. 16 < fst r) (typeSizeAlign e \<sigma> t)"

section \<open>Windows and System V i386\<close>

definition win_register_size :: "int \<Rightarrow> bool" where
  "win_register_size n \<longleftrightarrow> n = 1 \<or> n = 2 \<or> n = 4 \<or> n = 8"

definition win64_params :: "emitter \<Rightarrow> alias_store \<Rightarrow> ty \<Rightarrow> abiChunk list run" where
  "win64_params e \<sigma> t = do {
     r \<leftarrow> typeSizeAlign e \<sigma> t;
     Some (if win_register_size (fst r) then [chunk (int_text (fst r * 8)) 0 (fst r)]
           else [pointer_chunk []]) }"

definition win_sret :: "emitter \<Rightarrow> alias_store \<Rightarrow> ty \<Rightarrow> bool run" where
  "win_sret e \<sigma> t = map_option (\<lambda>r. \<not> win_register_size (fst r)) (typeSizeAlign e \<sigma> t)"

definition win32_params :: "emitter \<Rightarrow> alias_store \<Rightarrow> ty \<Rightarrow> abiChunk list run" where
  "win32_params e \<sigma> t = do {
     r \<leftarrow> typeSizeAlign e \<sigma> t;
     (if fst r = 4 then Some [chunk ''i32'' 0 4]
      else if fst r = 8 then Some [chunk ''i32'' 0 4, chunk ''i32'' 4 4]
      else do {
        s \<leftarrow> TypeEmit e \<sigma> t;
        Some [pointer_chunk (byval s 4)] }) }"

definition win32_returns :: "emitter \<Rightarrow> alias_store \<Rightarrow> ty \<Rightarrow> abiChunk list run" where
  "win32_returns e \<sigma> t = do {
     r \<leftarrow> typeSizeAlign e \<sigma> t;
     Some (if win_register_size (fst r) then [chunk (int_text (fst r * 8)) 0 (fst r)] else []) }"

definition sysvi386_params :: "emitter \<Rightarrow> alias_store \<Rightarrow> ty \<Rightarrow> abiChunk list run" where
  "sysvi386_params e \<sigma> t = do {
     r \<leftarrow> typeSizeAlign e \<sigma> t;
     s \<leftarrow> TypeEmit e \<sigma> t;
     Some [pointer_chunk (byval s (max_int 4 (snd r)))] }"

section \<open>System V x86-64\<close>

datatype abiClass = abiClassNone | abiClassSSE | abiClassInteger

text \<open>\<open>classes\<close> and \<open>floats\<close>, which the functions below write in place.\<close>

type_synonym sysv_state = "abiClass list \<times> PrimitiveType list list"

definition go_rem :: "int \<Rightarrow> int \<Rightarrow> int" where
  "go_rem x y = x - go_div x y * y"

fun mark_from :: "nat \<Rightarrow> int \<Rightarrow> abiClass \<Rightarrow> abiClass list \<Rightarrow> abiClass list run" where
  "mark_from 0 i class classes = Some classes"
| "mark_from (Suc n) i class classes =
    (if i < 0 \<or> i \<ge> int (length classes) then None
     else mark_from n (i + 1) class
       (if class = abiClassInteger \<or> classes ! nat i = abiClassNone
        then classes[nat i := class] else classes))"

definition markSysVAggregateClass ::
  "int \<Rightarrow> int \<Rightarrow> abiClass \<Rightarrow> abiClass list \<Rightarrow> abiClass list run" where
  "markSysVAggregateClass off bytes class classes =
    (let first = go_div off 8; last = go_div (wrap64 (wrap64 (off + bytes) - 1)) 8
     in mark_from (nat (last - first + 1)) first class classes)"

definition mark_sysv :: "int \<Rightarrow> int \<Rightarrow> abiClass \<Rightarrow> sysv_state \<Rightarrow> sysv_state run" where
  "mark_sysv off bytes class st =
    map_option (\<lambda>cs. (cs, snd st)) (markSysVAggregateClass off bytes class (fst st))"

definition add_float :: "int \<Rightarrow> PrimitiveType \<Rightarrow> sysv_state \<Rightarrow> sysv_state run" where
  "add_float base p st =
    (let i = go_div base 8
     in if i < 0 \<or> i \<ge> int (length (snd st)) then None
        else Some (fst st, (snd st)[nat i := snd st ! nat i @ [p]]))"

type_synonym classify = "ty \<Rightarrow> int \<Rightarrow> sysv_state \<Rightarrow> sysv_state run"

fun classify_struct ::
  "(ty \<Rightarrow> size_align run) \<Rightarrow> classify \<Rightarrow> bool \<Rightarrow> int \<Rightarrow> field list \<Rightarrow> int \<Rightarrow> sysv_state \<Rightarrow> sysv_state run"
where
  "classify_struct sa c packed base [] off st = Some st"
| "classify_struct sa c packed base (f # fs) off st = do {
     r \<leftarrow> sa (snd f);
     let start = (if packed then off else alignTo off (snd r));
     st \<leftarrow> c (snd f) (wrap64 (base + start)) st;
     classify_struct sa c packed base fs (wrap64 (start + fst r)) st }"

fun classify_union :: "classify \<Rightarrow> int \<Rightarrow> field list \<Rightarrow> sysv_state \<Rightarrow> sysv_state run" where
  "classify_union c base [] st = Some st"
| "classify_union c base (f # fs) st = do {
     st \<leftarrow> c (snd f) base st;
     classify_union c base fs st }"

text \<open>The elements from number \<open>i\<close> on, \<open>n\<close> of them.\<close>

fun classify_elements ::
  "classify \<Rightarrow> ty \<Rightarrow> int \<Rightarrow> int \<Rightarrow> int \<Rightarrow> nat \<Rightarrow> sysv_state \<Rightarrow> sysv_state run"
where
  "classify_elements c b base bytes i 0 st = Some st"
| "classify_elements c b base bytes i (Suc n) st = do {
     st \<leftarrow> c b (wrap64 (base + wrap64 (i * bytes))) st;
     classify_elements c b base bytes (i + 1) n st }"

definition float_prim :: "PrimitiveType \<Rightarrow> bool" where
  "float_prim p \<longleftrightarrow> p = PrimitiveF32 \<or> p = PrimitiveF64"

fun classify_step ::
  "emitter \<Rightarrow> (ty \<Rightarrow> size_align run) \<Rightarrow> classify \<Rightarrow> ty \<Rightarrow> int \<Rightarrow> sysv_state \<Rightarrow> sysv_state run"
where
  "classify_step e sa c (StructType fs p tu) base st = classify_struct sa c p base fs 0 st"
| "classify_step e sa c (UnionType m n fs) base st = classify_union c base fs st"
| "classify_step e sa c (SliceType b mu) base st = do {
     w \<leftarrow> pointerBytes e;
     st \<leftarrow> mark_sysv base w abiClassInteger st;
     mark_sysv (wrap64 (base + w)) w abiClassInteger st }"
| "classify_step e sa c (ArrayType b n) base st = do {
     r \<leftarrow> sa b;
     classify_elements c b base (fst r) 0 (nat n) st }"
| "classify_step e sa c (PointerType b mu) base st = mark_sysv base 8 abiClassInteger st"
| "classify_step e sa c (EnumType m n i vs ws) base st = mark_sysv base 4 abiClassInteger st"
| "classify_step e sa c (FlagsType p vs ws) base st = do {
     r \<leftarrow> sa (PrimitiveTy p);
     mark_sysv base (fst r) abiClassInteger st }"
| "classify_step e sa c (PrimitiveTy p) base st = do {
     r \<leftarrow> sa (PrimitiveTy p);
     (if float_prim p then do {
        st \<leftarrow> mark_sysv base (fst r) abiClassSSE st;
        add_float base p st }
      else mark_sysv base (fst r) abiClassInteger st) }"
| "classify_step e sa c _ base st = None"

lemma classify_struct_mono [run_mono]:
  "(\<And>t b st. mono_option (\<lambda>f. F f t b st)) \<Longrightarrow>
   mono_option (\<lambda>f. classify_struct sa (F f) p base fs off st)"
  by (induction fs arbitrary: off st) (simp_all add: Let_def option.const_mono bind_mono)

lemma classify_union_mono [run_mono]:
  "(\<And>t b st. mono_option (\<lambda>f. F f t b st)) \<Longrightarrow>
   mono_option (\<lambda>f. classify_union (F f) base fs st)"
  by (induction fs arbitrary: st) (simp_all add: option.const_mono bind_mono)

lemma classify_elements_mono [run_mono]:
  "(\<And>t b st. mono_option (\<lambda>f. F f t b st)) \<Longrightarrow>
   mono_option (\<lambda>f. classify_elements (F f) t base bytes i n st)"
  by (induction n arbitrary: i st) (simp_all add: option.const_mono bind_mono)

lemma classify_step_mono [partial_function_mono]:
  assumes "\<And>t b st. mono_option (\<lambda>f. F f t b st)"
  shows "mono_option (\<lambda>f. classify_step e sa (F f) t base st)"
  by (cases t) (simp_all add: run_mono option.const_mono bind_mono assms)

partial_function (option) classifySysVAggregate ::
  "emitter \<Rightarrow> alias_store \<Rightarrow> ty \<Rightarrow> int \<Rightarrow> sysv_state \<Rightarrow> sysv_state run"
where
  "classifySysVAggregate e \<sigma> t base st =
     Option.bind (Underlying \<sigma> t)
       (\<lambda>u. classify_step e (typeSizeAlign e \<sigma>) (classifySysVAggregate e \<sigma>) u base st)"

declare classifySysVAggregate.simps [code]

text \<open>\<open>hasUnalignedAggregateField\<close>; the division by an alignment of zero panics.\<close>

definition misaligned :: "int \<Rightarrow> int \<Rightarrow> bool run" where
  "misaligned off align = (if align = 0 then None else Some (go_rem off align \<noteq> 0))"

fun unaligned_struct ::
  "(ty \<Rightarrow> size_align run) \<Rightarrow> (ty \<Rightarrow> int \<Rightarrow> bool run) \<Rightarrow> bool \<Rightarrow> int \<Rightarrow> field list \<Rightarrow> int \<Rightarrow> bool run"
where
  "unaligned_struct sa h packed base [] off = Some False"
| "unaligned_struct sa h packed base (f # fs) off = do {
     r \<leftarrow> sa (snd f);
     let start = (if packed then off else alignTo off (snd r));
     bad \<leftarrow> orM (misaligned (wrap64 (base + start)) (snd r)) (h (snd f) (wrap64 (base + start)));
     if bad then Some True else unaligned_struct sa h packed base fs (wrap64 (start + fst r)) }"

fun unaligned_union ::
  "(ty \<Rightarrow> size_align run) \<Rightarrow> (ty \<Rightarrow> int \<Rightarrow> bool run) \<Rightarrow> int \<Rightarrow> field list \<Rightarrow> bool run"
where
  "unaligned_union sa h base [] = Some False"
| "unaligned_union sa h base (f # fs) = do {
     r \<leftarrow> sa (snd f);
     bad \<leftarrow> orM (misaligned base (snd r)) (h (snd f) base);
     if bad then Some True else unaligned_union sa h base fs }"

fun unaligned_step ::
  "(ty \<Rightarrow> size_align run) \<Rightarrow> (ty \<Rightarrow> int \<Rightarrow> bool run) \<Rightarrow> ty \<Rightarrow> int \<Rightarrow> bool run"
where
  "unaligned_step sa h (StructType fs p tu) base = unaligned_struct sa h p base fs 0"
| "unaligned_step sa h (UnionType m n fs) base = unaligned_union sa h base fs"
| "unaligned_step sa h _ base = Some False"

lemma unaligned_struct_mono [run_mono]:
  "(\<And>t b. mono_option (\<lambda>f. F f t b)) \<Longrightarrow>
   mono_option (\<lambda>f. unaligned_struct sa (F f) p base fs off)"
  by (induction fs arbitrary: off)
    (simp_all add: Let_def run_mono option.const_mono bind_mono if_mono)

lemma unaligned_union_mono [run_mono]:
  "(\<And>t b. mono_option (\<lambda>f. F f t b)) \<Longrightarrow>
   mono_option (\<lambda>f. unaligned_union sa (F f) base fs)"
  by (induction fs) (simp_all add: run_mono option.const_mono bind_mono if_mono)

lemma unaligned_step_mono [partial_function_mono]:
  assumes "\<And>t b. mono_option (\<lambda>f. F f t b)"
  shows "mono_option (\<lambda>f. unaligned_step sa (F f) t base)"
  by (cases t) (simp_all add: run_mono option.const_mono assms)

partial_function (option) hasUnalignedAggregateField ::
  "emitter \<Rightarrow> alias_store \<Rightarrow> ty \<Rightarrow> int \<Rightarrow> bool run"
where
  "hasUnalignedAggregateField e \<sigma> t base =
     Option.bind (Underlying \<sigma> t)
       (\<lambda>u. unaligned_step (typeSizeAlign e \<sigma>) (hasUnalignedAggregateField e \<sigma>) u base)"

declare hasUnalignedAggregateField.simps [code]

text \<open>The memory class, then one chunk per eightbyte.\<close>

definition sysv_memory :: "emitter \<Rightarrow> alias_store \<Rightarrow> ty \<Rightarrow> bool run" where
  "sysv_memory e \<sigma> t = do {
     r \<leftarrow> typeSizeAlign e \<sigma> t;
     if fst r > 16 then Some True else hasUnalignedAggregateField e \<sigma> t 0 }"

definition sse_text :: "PrimitiveType list \<Rightarrow> string run" where
  "sse_text floatFields =
    (if floatFields = [PrimitiveF32] then Some ''float''
     else if floatFields = [PrimitiveF64] then Some ''double''
     else if floatFields = [PrimitiveF32, PrimitiveF32] then Some ''<2 x float>''
     else None)"

definition sysv_chunk :: "int \<Rightarrow> abiClass \<Rightarrow> PrimitiveType list \<Rightarrow> int \<Rightarrow> abiChunk run" where
  "sysv_chunk sz class floatFields i =
    (let bytes = min (sz - i * 8) 8
     in case class of
          abiClassInteger \<Rightarrow> Some (chunk (int_text (bytes * 8)) (i * 8) bytes)
        | abiClassSSE \<Rightarrow> map_option (\<lambda>s. chunk s (i * 8) bytes) (sse_text floatFields)
        | abiClassNone \<Rightarrow> None)"

fun sysv_chunks ::
  "int \<Rightarrow> int \<Rightarrow> abiClass list \<Rightarrow> PrimitiveType list list \<Rightarrow> abiChunk list run"
where
  "sysv_chunks sz i [] fl = Some []"
| "sysv_chunks sz i (c # cs) [] = None"
| "sysv_chunks sz i (c # cs) (f # fl) = do {
     x \<leftarrow> sysv_chunk sz c f i;
     xs \<leftarrow> sysv_chunks sz (i + 1) cs fl;
     Some (x # xs) }"

definition sysv_params :: "emitter \<Rightarrow> alias_store \<Rightarrow> ty \<Rightarrow> abiChunk list run" where
  "sysv_params e \<sigma> t = do {
     r \<leftarrow> typeSizeAlign e \<sigma> t;
     memory \<leftarrow> sysv_memory e \<sigma> t;
     if memory then do {
       s \<leftarrow> TypeEmit e \<sigma> t;
       Some [pointer_chunk (byval s (max_int 8 (snd r)))] }
     else do {
       let n = go_div (wrap64 (fst r + 7)) 8;
       if n < 0 then None
       else do {
         st \<leftarrow> classifySysVAggregate e \<sigma> t 0
           (replicate (nat n) abiClassNone, replicate (nat n) []);
         sysv_chunks (fst r) 0 (fst st) (snd st) } } }"

section \<open>The interface and its use\<close>

fun aggregateParamChunks ::
  "emitter \<Rightarrow> alias_store \<Rightarrow> abi_generator \<Rightarrow> ty \<Rightarrow> abiChunk list run" where
  "aggregateParamChunks e \<sigma> (Aarch64 linux) t = aarch64_params e \<sigma> linux t"
| "aggregateParamChunks e \<sigma> SysVAMD64 t = sysv_params e \<sigma> t"
| "aggregateParamChunks e \<sigma> SysVI386 t = sysvi386_params e \<sigma> t"
| "aggregateParamChunks e \<sigma> Win32 t = win32_params e \<sigma> t"
| "aggregateParamChunks e \<sigma> Win64 t = win64_params e \<sigma> t"

fun aggregateReturnChunks ::
  "emitter \<Rightarrow> alias_store \<Rightarrow> abi_generator \<Rightarrow> ty \<Rightarrow> abiChunk list run" where
  "aggregateReturnChunks e \<sigma> (Aarch64 linux) t = aarch64_returns e \<sigma> t"
| "aggregateReturnChunks e \<sigma> SysVAMD64 t = sysv_params e \<sigma> t"
| "aggregateReturnChunks e \<sigma> SysVI386 t = Some []"
| "aggregateReturnChunks e \<sigma> Win32 t = win32_returns e \<sigma> t"
| "aggregateReturnChunks e \<sigma> Win64 t = win64_params e \<sigma> t"

fun requiresSRet :: "emitter \<Rightarrow> alias_store \<Rightarrow> abi_generator \<Rightarrow> ty \<Rightarrow> bool run" where
  "requiresSRet e \<sigma> (Aarch64 linux) t = aarch64_sret e \<sigma> t"
| "requiresSRet e \<sigma> SysVAMD64 t = sysv_memory e \<sigma> t"
| "requiresSRet e \<sigma> SysVI386 t = Some True"
| "requiresSRet e \<sigma> Win32 t = win_sret e \<sigma> t"
| "requiresSRet e \<sigma> Win64 t = win_sret e \<sigma> t"

definition foreignABIGenerator :: "emitter \<Rightarrow> abi_generator option" where
  "foreignABIGenerator e =
    (let target = ToLower (targetTriple e)
     in if Contains target ''aarch64'' \<or> Contains target ''arm64'' then
          Some (Aarch64 (Contains target ''linux''))
        else if targetArch e \<in> set x86_32 then
          (if windows_target target then Some Win32 else Some SysVI386)
        else if targetArch e = ''x86_64'' \<or> targetArch e = ''amd64'' then
          (if Contains target ''windows'' \<or> Contains target ''win32'' then Some Win64
           else Some SysVAMD64)
        else None)"

fun abi_aggregate :: "ty \<Rightarrow> bool" where
  "abi_aggregate (StructType fs p tu) = True"
| "abi_aggregate (UnionType m n fs) = True"
| "abi_aggregate (SliceType b mu) = True"
| "abi_aggregate (ArrayType b n) = True"
| "abi_aggregate _ = False"

definition foreignABIAggregate ::
  "emitter \<Rightarrow> alias_store \<Rightarrow> ty \<Rightarrow> (ty \<times> abi_generator) option run" where
  "foreignABIAggregate e \<sigma> t = do {
     u \<leftarrow> Underlying \<sigma> t;
     if abi_aggregate u then
       (case foreignABIGenerator e of None \<Rightarrow> None | Some g \<Rightarrow> Some (Some (u, g)))
     else Some None }"

definition foreignABIChunks :: "emitter \<Rightarrow> alias_store \<Rightarrow> ty \<Rightarrow> abiChunk list run" where
  "foreignABIChunks e \<sigma> t = do {
     a \<leftarrow> foreignABIAggregate e \<sigma> t;
     (case a of None \<Rightarrow> Some [] | Some ug \<Rightarrow> aggregateParamChunks e \<sigma> (snd ug) (fst ug)) }"

definition foreignABIReturnChunks :: "emitter \<Rightarrow> alias_store \<Rightarrow> ty \<Rightarrow> abiChunk list run" where
  "foreignABIReturnChunks e \<sigma> t = do {
     a \<leftarrow> foreignABIAggregate e \<sigma> t;
     (case a of None \<Rightarrow> Some [] | Some ug \<Rightarrow> aggregateReturnChunks e \<sigma> (snd ug) (fst ug)) }"

definition foreignABIParamTypes :: "emitter \<Rightarrow> alias_store \<Rightarrow> ty \<Rightarrow> string list run" where
  "foreignABIParamTypes e \<sigma> t = do {
     chunks \<leftarrow> foreignABIChunks e \<sigma> t;
     if chunks = [] then map_option (\<lambda>s. [s]) (TypeEmit e \<sigma> t)
     else Some (map (\<lambda>c. typeName c @ attributes c) chunks) }"

definition foreignABIReturnUsesSRet :: "emitter \<Rightarrow> alias_store \<Rightarrow> ty \<Rightarrow> bool run" where
  "foreignABIReturnUsesSRet e \<sigma> t = do {
     u \<leftarrow> Underlying \<sigma> t;
     if abi_aggregate u then
       (case foreignABIGenerator e of None \<Rightarrow> Some False | Some g \<Rightarrow> requiresSRet e \<sigma> g u)
     else Some False }"

definition foreignABIReturnType :: "emitter \<Rightarrow> alias_store \<Rightarrow> ty \<Rightarrow> string run" where
  "foreignABIReturnType e \<sigma> t = do {
     sret \<leftarrow> foreignABIReturnUsesSRet e \<sigma> t;
     if sret then Some ''void''
     else do {
       chunks \<leftarrow> foreignABIReturnChunks e \<sigma> t;
       (case chunks of
          [] \<Rightarrow> TypeEmit e \<sigma> t
        | [c] \<Rightarrow> Some (typeName c)
        | c # d # _ \<Rightarrow> Some (''{ '' @ typeName c @ '', '' @ typeName d @ '' }'')) } }"

definition foreignABISRetArgument ::
  "emitter \<Rightarrow> alias_store \<Rightarrow> ty \<Rightarrow> string \<Rightarrow> string run" where
  "foreignABISRetArgument e \<sigma> t arg = do {
     r \<leftarrow> typeSizeAlign e \<sigma> t;
     s \<leftarrow> TypeEmit e \<sigma> t;
     Some (''ptr sret('' @ s @ '') align '' @ decimal_int (snd r) @
       (if arg \<noteq> [] then '' '' @ arg else [])) }"

text \<open>The memory an aggregate is spilled to, and whether that is more than the aggregate.\<close>

definition scratch_size :: "int \<Rightarrow> abiChunk list \<Rightarrow> int" where
  "scratch_size actual chunks =
    foldl (\<lambda>s c. if offset c \<ge> 0 then max_int s (wrap64 (offset c + chunk_size c)) else s)
      actual chunks"

definition abiScratchAllocation ::
  "emitter \<Rightarrow> alias_store \<Rightarrow> ty \<Rightarrow> abiChunk list \<Rightarrow> (string \<times> bool) run" where
  "abiScratchAllocation e \<sigma> t chunks = do {
     r \<leftarrow> typeSizeAlign e \<sigma> t;
     if scratch_size (fst r) chunks = fst r then map_option (\<lambda>s. (s, False)) (TypeEmit e \<sigma> t)
     else Some (''['' @ decimal_int (scratch_size (fst r) chunks) @ '' x i8]'', True) }"

end
