(* ===== verification/Layout_Facts.thy ===== *)
theory Layout_Facts
  imports Layout
begin

text \<open>
  The layout that C prescribes, in unbounded integers, and the refinement: where every part
  fits the address space, \<open>typeSizeAlign\<close> with its wrapping arithmetic and its bit mask
  computes exactly that layout.
\<close>

section \<open>Aligning\<close>

definition max_size :: int where
  "max_size = 2 ^ 62"

definition is_align :: "int \<Rightarrow> bool" where
  "is_align a \<longleftrightarrow> a = 1 \<or> a = 2 \<or> a = 4 \<or> a = 8"

definition align_up :: "int \<Rightarrow> int \<Rightarrow> int" where
  "align_up v a = (v + a - 1) div a * a"

lemma wrap64_id: "- (2 ^ 63) \<le> x \<Longrightarrow> x < 2 ^ 63 \<Longrightarrow> wrap64 x = x"
  by (simp add: wrap64_def)

lemma wrap64_fits [simp]: "0 \<le> x \<Longrightarrow> x < max_size * 2 \<Longrightarrow> wrap64 x = x"
  by (rule wrap64_id) (simp_all add: max_size_def)

lemma and_not_mask: "x AND NOT (mask n) = (x div 2 ^ n) * 2 ^ n" for x :: int
proof -
  have "x AND NOT (mask n) = push_bit n (drop_bit n x)"
    by (rule bit_eqI) (auto simp: bit_simps)
  then show ?thesis by (simp add: push_bit_eq_mult drop_bit_eq_div)
qed

lemma alignTo_align_up:
  assumes "is_align a" and "0 \<le> v" and "v < max_size"
  shows "alignTo v a = align_up v a"
proof -
  obtain n where n: "a = 2 ^ n" and "a \<le> 8"
    using assms(1) that [of 0] that [of 1] that [of 2] that [of 3] by (auto simp: is_align_def)
  moreover have "a - 1 = mask n" by (simp add: n mask_eq_exp_minus_1)
  moreover have "wrap64 (v + a - 1) = v + a - 1" and "wrap64 (a - 1) = a - 1"
    using assms \<open>a \<le> 8\<close> by (auto intro!: wrap64_id simp: max_size_def is_align_def)
  ultimately show ?thesis by (simp add: alignTo_def align_up_def and_not_mask)
qed

lemma align_up_bounds:
  assumes "is_align a"
  shows "v \<le> align_up v a" and "align_up v a < v + a" and "a dvd align_up v a"
proof -
  have a: "0 < a" using assms by (auto simp: is_align_def)
  have "align_up v a = v + a - 1 - (v + a - 1) mod a"
    by (simp add: align_up_def minus_mod_eq_div_mult)
  then show "v \<le> align_up v a" and "align_up v a < v + a"
    using pos_mod_bound [OF a, of "v + a - 1"] pos_mod_sign [OF a, of "v + a - 1"] by linarith+
qed (simp add: align_up_def)

lemma align_up_id: "is_align a \<Longrightarrow> a dvd v \<Longrightarrow> align_up v a = v"
  using align_up_bounds [of a v] by (auto simp: is_align_def elim!: dvdE)

lemma is_align_pos: "is_align a \<Longrightarrow> 1 \<le> a"
  by (auto simp: is_align_def)

lemma is_align_max: "is_align a \<Longrightarrow> is_align b \<Longrightarrow> is_align (max_int a b)"
  by (auto simp: is_align_def max_int_def)

lemma is_align_dvd: "is_align a \<Longrightarrow> is_align b \<Longrightarrow> a \<le> b \<Longrightarrow> a dvd b"
  by (auto simp: is_align_def)

section \<open>The specification\<close>

text \<open>
  Offsets of the fields of a struct from their sizes and alignments, and the first byte after
  the last one; a packed struct has no gaps.
\<close>

fun place :: "bool \<Rightarrow> int \<Rightarrow> size_align list \<Rightarrow> int list" where
  "place p off [] = []"
| "place p off (l # ls) =
    (let start = (if p then off else align_up off (snd l))
     in start # place p (start + fst l) ls)"

fun fields_end :: "bool \<Rightarrow> int \<Rightarrow> size_align list \<Rightarrow> int" where
  "fields_end p off [] = off"
| "fields_end p off (l # ls) =
    fields_end p ((if p then off else align_up off (snd l)) + fst l) ls"

text \<open>
  A scalar of \<open>b\<close> bits, the width of its LLVM type, takes \<open>b div 8\<close> bytes and is aligned to its size;
  only the 64-bit scalars that are not pointers have an alignment of the target's own.
\<close>

fun scalar_bits :: "emitter \<Rightarrow> PrimitiveType \<Rightarrow> int run" where
  "scalar_bits e PrimitiveBool = Some 8"
| "scalar_bits e PrimitiveF32 = Some 32"
| "scalar_bits e PrimitiveF64 = Some 64"
| "scalar_bits e p = integerBits e p"

definition scalar_layout :: "emitter \<Rightarrow> PrimitiveType \<Rightarrow> size_align run" where
  "scalar_layout e p =
    map_option (\<lambda>b. (b div 8,
        if b = 64 \<and> p \<notin> {PrimitiveIsz, PrimitiveUsz} then scalar64Align e else max 1 (b div 8)))
      (scalar_bits e p)"

lemma scalar_layout [simp]: "scalar_layout e p = prim_size_align e p"
  using pointerBits_cases [of e]
  by (cases p; cases "pointerBits e") (auto simp: scalar_layout_def prim_size_align_def pointerBytes_def)

definition max_align :: "size_align list \<Rightarrow> int" where
  "max_align ls = foldl (\<lambda>a l. max_int a (snd l)) 1 ls"

definition max_extent :: "size_align list \<Rightarrow> int" where
  "max_extent ls = foldl (\<lambda>s l. max_int s (fst l)) 0 ls"

definition struct_layout :: "bool \<Rightarrow> size_align list \<Rightarrow> size_align" where
  "struct_layout p ls =
    (if p then (fields_end True 0 ls, 1)
     else (align_up (fields_end False 0 ls) (max_align ls), max_align ls))"

definition union_layout :: "size_align list \<Rightarrow> size_align" where
  "union_layout ls = (align_up (max_extent ls) (max_align ls), max_align ls)"

text \<open>
  \<open>layout e \<sigma> t l\<close>: the type has the C layout \<open>l\<close>, and it and all its parts are smaller
  than \<open>max_size\<close> bytes.
\<close>

inductive layout :: "emitter \<Rightarrow> alias_store \<Rightarrow> ty \<Rightarrow> size_align \<Rightarrow> bool" for e \<sigma> where
  named: "is_named t \<Longrightarrow> Underlying \<sigma> t = Some u \<Longrightarrow> \<not> is_named u \<Longrightarrow> layout e \<sigma> u l \<Longrightarrow> layout e \<sigma> t l"
| primitive: "scalar_layout e p = Some l \<Longrightarrow> layout e \<sigma> (PrimitiveTy p) l"
| pointer: "pointerBytes e = Some w \<Longrightarrow> layout e \<sigma> (PointerType b mu) (w, w)"
| trait_pointer: "pointerBytes e = Some w \<Longrightarrow> layout e \<sigma> (TraitPointerType tr mu) (2 * w, w)"
| slice: "pointerBytes e = Some w \<Longrightarrow> layout e \<sigma> (SliceType b mu) (2 * w, w)"
| array: "layout e \<sigma> b (s, a) \<Longrightarrow> 0 \<le> n \<Longrightarrow> n * s < max_size \<Longrightarrow>
    layout e \<sigma> (ArrayType b n) (n * s, a)"
| enum: "layout e \<sigma> (EnumType m n i vs ws) (4, 4)"
| flags: "layout e \<sigma> (PrimitiveTy p) l \<Longrightarrow> layout e \<sigma> (FlagsType p vs ws) l"
| struct: "list_all2 (layout e \<sigma>) (map snd fs) ls \<Longrightarrow> struct_layout p ls = l \<Longrightarrow>
    fst l < max_size \<Longrightarrow> layout e \<sigma> (StructType fs p tu) l"
| union: "list_all2 (layout e \<sigma>) (map snd fs) ls \<Longrightarrow> union_layout ls = l \<Longrightarrow>
    fst l < max_size \<Longrightarrow> layout e \<sigma> (UnionType m n fs) l"

definition layout_ok :: "size_align \<Rightarrow> bool" where
  "layout_ok l \<longleftrightarrow> 0 \<le> fst l \<and> fst l < max_size \<and> is_align (snd l) \<and> snd l dvd fst l"

lemma max_align_Cons: "max_align (l # ls) = foldl (\<lambda>a l. max_int a (snd l)) (max_int 1 (snd l)) ls"
  by (simp add: max_align_def)

lemma max_int_bounds: "a \<le> max_int a b" "b \<le> max_int a b"
  by (simp_all add: max_int_def)

lemma foldl_max_align:
  assumes "is_align a" and "\<forall>l \<in> set ls. is_align (snd l)"
  shows "is_align (foldl (\<lambda>a l. max_int a (snd l)) a ls) \<and>
    a \<le> foldl (\<lambda>a l. max_int a (snd l)) a ls \<and>
    (\<forall>l \<in> set ls. snd l \<le> foldl (\<lambda>a l. max_int a (snd l)) a ls)"
  using assms
proof (induction ls arbitrary: a)
  case (Cons l ls)
  let ?m = "max_int a (snd l)"
  have "is_align ?m" using Cons.prems is_align_max by simp
  then have IH: "is_align (foldl (\<lambda>a l. max_int a (snd l)) ?m ls)"
    "?m \<le> foldl (\<lambda>a l. max_int a (snd l)) ?m ls"
    "\<forall>l \<in> set ls. snd l \<le> foldl (\<lambda>a l. max_int a (snd l)) ?m ls"
    using Cons by simp_all
  then show ?case
    using order_trans [OF max_int_bounds(1) [of a "snd l"] IH(2)]
      order_trans [OF max_int_bounds(2) [of "snd l" a] IH(2)] by simp
qed simp

lemma foldl_max_extent:
  "a \<le> foldl (\<lambda>s l. max_int s (fst l)) a ls \<and>
   (\<forall>l \<in> set ls. fst l \<le> foldl (\<lambda>s l. max_int s (fst l)) a ls)"
proof (induction ls arbitrary: a)
  case (Cons l ls)
  let ?m = "max_int a (fst l)"
  have IH: "?m \<le> foldl (\<lambda>s l. max_int s (fst l)) ?m ls"
    "\<forall>l \<in> set ls. fst l \<le> foldl (\<lambda>s l. max_int s (fst l)) ?m ls"
    using Cons by simp_all
  then show ?case
    using order_trans [OF max_int_bounds(1) [of a "fst l"] IH(1)]
      order_trans [OF max_int_bounds(2) [of "fst l" a] IH(1)] by simp
qed simp

lemma max_align_ok:
  assumes "\<forall>l \<in> set ls. is_align (snd l)"
  shows "is_align (max_align ls)" and "l \<in> set ls \<Longrightarrow> snd l \<le> max_align ls"
  using foldl_max_align [of 1 ls] assms by (auto simp: max_align_def is_align_def)

lemma fields_end_mono:
  assumes "\<forall>l \<in> set ls. 0 \<le> fst l \<and> is_align (snd l)"
  shows "off \<le> fields_end p off ls"
  using assms
proof (induction ls arbitrary: off)
  case (Cons l ls)
  have "off \<le> (if p then off else align_up off (snd l)) + fst l"
    using Cons.prems align_up_bounds(1) [of "snd l" off] by auto
  also have "\<dots> \<le> fields_end p \<dots> ls" using Cons by simp
  finally show ?case by simp
qed simp

section \<open>Refinement\<close>

lemma parts_ok: "list_all2 (\<lambda>t l. P t l \<and> layout_ok l) ts ls \<Longrightarrow> \<forall>l \<in> set ls. layout_ok l"
  by (induction rule: list_all2_induct) auto

lemma parts_fit: "\<forall>l \<in> set ls. layout_ok l \<Longrightarrow> \<forall>l \<in> set ls. 0 \<le> fst l \<and> is_align (snd l)"
  by (auto simp: layout_ok_def)

lemma prim_layout_ok:
  assumes "prim_size_align e p = Some l"
  shows "layout_ok l"
proof (cases p)
  case PrimitiveIsz
  with assms show ?thesis
    using pointerBytes_cases [of e]
    by (auto simp: prim_size_align_def layout_ok_def is_align_def max_size_def)
next
  case PrimitiveUsz
  with assms show ?thesis
    using pointerBytes_cases [of e]
    by (auto simp: prim_size_align_def layout_ok_def is_align_def max_size_def)
qed (use assms scalar64Align_cases [of e] in
    \<open>auto simp: prim_size_align_def layout_ok_def is_align_def max_size_def\<close>)

lemma packed_loop_layout:
  assumes "list_all2 (\<lambda>t l. sa t = Some l \<and> layout_ok l) (map snd fs) ls"
    and "0 \<le> off" and "fields_end True off ls < max_size"
  shows "packed_loop sa fs off = Some (fields_end True off ls)"
  using assms
proof (induction fs arbitrary: ls off)
  case (Cons f fs)
  then obtain l ls' where ls: "ls = l # ls'" and l: "sa (snd f) = Some l" "layout_ok l"
    and rest: "list_all2 (\<lambda>t l. sa t = Some l \<and> layout_ok l) (map snd fs) ls'"
    by (auto simp: list_all2_Cons1)
  have "off + fst l \<le> fields_end True (off + fst l) ls'"
    by (rule fields_end_mono [OF parts_fit [OF parts_ok [OF rest]]])
  then have "wrap64 (off + fst l) = off + fst l"
    using Cons.prems(2,3) l(2) ls by (intro wrap64_fits) (auto simp: layout_ok_def)
  then show ?case using Cons.IH [OF rest, of "off + fst l"] Cons.prems l ls by (auto simp: layout_ok_def)
qed simp

lemma struct_loop_layout:
  assumes "list_all2 (\<lambda>t l. sa t = Some l \<and> layout_ok l) (map snd fs) ls"
    and "0 \<le> off" and "fields_end False off ls < max_size"
  shows "struct_loop sa fs off m = Some (fields_end False off ls, foldl (\<lambda>a l. max_int a (snd l)) m ls)"
  using assms
proof (induction fs arbitrary: ls off m)
  case (Cons f fs)
  then obtain l ls' where ls: "ls = l # ls'" and l: "sa (snd f) = Some l" "layout_ok l"
    and rest: "list_all2 (\<lambda>t l. sa t = Some l \<and> layout_ok l) (map snd fs) ls'"
    by (auto simp: list_all2_Cons1)
  let ?off = "align_up off (snd l) + fst l"
  have a: "is_align (snd l)" "0 \<le> fst l" using l(2) by (auto simp: layout_ok_def)
  have "?off \<le> fields_end False ?off ls'"
    by (rule fields_end_mono [OF parts_fit [OF parts_ok [OF rest]]])
  then have bound: "?off < max_size" using Cons.prems(3) ls by simp
  then have "off < max_size" using align_up_bounds(1) [OF a(1), of off] a(2) by simp
  then have "alignTo off (snd l) = align_up off (snd l)"
    using alignTo_align_up [OF a(1)] Cons.prems(2) by simp
  moreover have nonneg: "0 \<le> ?off" using align_up_bounds(1) [OF a(1), of off] a(2) Cons.prems(2) by simp
  moreover have "wrap64 ?off = ?off" using bound nonneg by (intro wrap64_fits) (auto simp: max_size_def)
  ultimately show ?case
    using Cons.IH [OF rest nonneg, of "max_int m (snd l)"] Cons.prems(3) l ls by simp
qed simp

lemma union_loop_layout:
  assumes "list_all2 (\<lambda>t l. sa t = Some l \<and> layout_ok l) (map snd fs) ls"
  shows "union_loop sa fs s m = Some (foldl (\<lambda>s l. max_int s (fst l)) s ls, foldl (\<lambda>a l. max_int a (snd l)) m ls)"
  using assms
proof (induction fs arbitrary: ls s m)
  case (Cons f fs)
  then show ?case by (auto simp: list_all2_Cons1)
qed simp

lemma struct_layout_ok:
  assumes "\<forall>l \<in> set ls. layout_ok l" and "fst (struct_layout p ls) < max_size"
  shows "layout_ok (struct_layout p ls)" and "fields_end p 0 ls < max_size"
proof -
  have fields: "\<forall>l \<in> set ls. 0 \<le> fst l \<and> is_align (snd l)" using assms(1) by (auto simp: layout_ok_def)
  then have al: "is_align (max_align ls)" by (intro max_align_ok) auto
  have nonneg: "0 \<le> fields_end p 0 ls" using fields_end_mono [OF fields] by blast
  then show "layout_ok (struct_layout p ls)" "fields_end p 0 ls < max_size"
    using assms(2) al align_up_bounds [OF al, of "fields_end False 0 ls"]
    by (cases p; auto simp: layout_ok_def struct_layout_def is_align_def [of 1])+
qed

lemma union_layout_ok:
  assumes "\<forall>l \<in> set ls. layout_ok l" and "fst (union_layout ls) < max_size"
  shows "layout_ok (union_layout ls)" and "0 \<le> max_extent ls" and "max_extent ls < max_size"
proof -
  have al: "is_align (max_align ls)" using assms(1) by (intro max_align_ok) (auto simp: layout_ok_def)
  have nonneg: "0 \<le> max_extent ls" using foldl_max_extent [of 0 ls] by (simp add: max_extent_def)
  then show "layout_ok (union_layout ls)" "0 \<le> max_extent ls" "max_extent ls < max_size"
    using assms(2) al align_up_bounds [OF al, of "max_extent ls"]
    by (auto simp: layout_ok_def union_layout_def)
qed

lemma typeSizeAlign_simps [simp]:
  "\<not> is_named t \<Longrightarrow> typeSizeAlign e \<sigma> t = typeSizeAlign_step e (typeSizeAlign e \<sigma>) t"
  by (simp add: typeSizeAlign.simps [of e \<sigma> t])

lemma typeSizeAlign_named:
  assumes "Underlying \<sigma> t = Some u" and "\<not> is_named u"
  shows "typeSizeAlign e \<sigma> t = typeSizeAlign e \<sigma> u"
  using assms by (simp add: typeSizeAlign.simps [of e \<sigma> t] typeSizeAlign.simps [of e \<sigma> u])

lemma typeSizeAlign_layout: "layout e \<sigma> t l \<Longrightarrow> typeSizeAlign e \<sigma> t = Some l \<and> layout_ok l"
proof (induction rule: layout.induct)
  case (named t u l)
  then show ?case using typeSizeAlign_named [OF named.hyps(2,3)] by (simp only:)
next
  case (primitive p l)
  then show ?case using prim_layout_ok by simp
next
  case (pointer w b mu)
  then show ?case
    using pointerBytes_cases [of e w] by (auto simp: layout_ok_def is_align_def max_size_def)
next
  case (trait_pointer w tr mu)
  then show ?case
    using pointerBytes_cases [of e w] by (auto simp: layout_ok_def is_align_def max_size_def)
next
  case (slice w b mu)
  then show ?case
    using pointerBytes_cases [of e w] by (auto simp: layout_ok_def is_align_def max_size_def)
next
  case (array b s a n)
  then have "0 \<le> n * s" by (auto simp: layout_ok_def)
  then have "wrap64 (s * n) = n * s" using array by (auto simp: max_size_def mult.commute intro!: wrap64_fits)
  with array \<open>0 \<le> n * s\<close> show ?case by (auto simp: layout_ok_def)
next
  case (enum m n i vs ws)
  then show ?case by (simp add: layout_ok_def is_align_def max_size_def)
next
  case (flags p l vs ws)
  then show ?case by simp
next
  case (struct fs ls p l tu)
  then have parts: "list_all2 (\<lambda>t l. typeSizeAlign e \<sigma> t = Some l \<and> layout_ok l) (map snd fs) ls"
    by (auto elim: list_all2_mono)
  then have "\<forall>l \<in> set ls. layout_ok l" by (rule parts_ok)
  note ok = struct_layout_ok [OF this]
  have end_fits: "fields_end p 0 ls < max_size" using ok(2) struct.hyps by blast
  have nonneg: "0 \<le> fields_end p 0 ls"
    using \<open>\<forall>l \<in> set ls. layout_ok l\<close> by (intro fields_end_mono) (auto simp: layout_ok_def)
  show ?case
  proof (cases p)
    case True
    then show ?thesis
      using packed_loop_layout [OF parts] end_fits ok(1) [of p] struct.hyps
      by (auto simp: struct_layout_def)
  next
    case False
    have "is_align (max_align ls)"
      using \<open>\<forall>l \<in> set ls. layout_ok l\<close> by (intro max_align_ok) (auto simp: layout_ok_def)
    then show ?thesis
      using struct_loop_layout [OF parts, of 0 1] end_fits nonneg ok(1) [of p] struct.hyps False
      by (auto simp: struct_layout_def alignTo_align_up max_align_def [symmetric])
  qed
next
  case (union fs ls l m n)
  then have parts: "list_all2 (\<lambda>t l. typeSizeAlign e \<sigma> t = Some l \<and> layout_ok l) (map snd fs) ls"
    by (auto elim: list_all2_mono)
  then have "\<forall>l \<in> set ls. layout_ok l" by (rule parts_ok)
  note ok = union_layout_ok [OF this]
  have "is_align (max_align ls)"
    using \<open>\<forall>l \<in> set ls. layout_ok l\<close> by (intro max_align_ok) (auto simp: layout_ok_def)
  then show ?case
    using union_loop_layout [OF parts, of 0 1] ok union.hyps
    by (auto simp: union_layout_def alignTo_align_up max_align_def [symmetric] max_extent_def [symmetric])
qed

section \<open>Where the fields lie\<close>

text \<open>Fields are aligned, do not overlap, and lie inside the struct.\<close>

lemma place_length [simp]: "length (place p off ls) = length ls"
  by (induction ls arbitrary: off) (simp_all add: Let_def)

lemma place_bounds:
  assumes "\<forall>l \<in> set ls. layout_ok l" and "i < length ls"
  shows "off \<le> place p off ls ! i \<and> place p off ls ! i + fst (ls ! i) \<le> fields_end p off ls \<and>
    (\<not> p \<longrightarrow> snd (ls ! i) dvd place p off ls ! i) \<and>
    (\<forall>j < i. place p off ls ! j + fst (ls ! j) \<le> place p off ls ! i)"
  using assms
proof (induction ls arbitrary: off i)
  case (Cons l ls)
  let ?start = "if p then off else align_up off (snd l)"
  have ok: "is_align (snd l)" "0 \<le> fst l" and oks: "\<forall>l \<in> set ls. layout_ok l"
    using Cons.prems(1) by (auto simp: layout_ok_def)
  have start: "off \<le> ?start" using align_up_bounds(1) [OF ok(1), of off] by simp
  have tail: "?start + fst l \<le> fields_end p (?start + fst l) ls"
    using oks by (intro fields_end_mono) (auto simp: layout_ok_def)
  show ?case
  proof (cases i)
    case 0
    then show ?thesis
      using start tail align_up_bounds(3) [OF ok(1), of off] by (auto simp: Let_def split: if_splits)
  next
    case (Suc k)
    then have k: "k < length ls" using Cons.prems(2) by simp
    note IH = Cons.IH [OF oks k, of "?start + fst l"]
    have "place p off (l # ls) ! j + fst ((l # ls) ! j) \<le> place p off (l # ls) ! i" if "j < i" for j
      using that Suc IH by (cases j) (auto simp: Let_def)
    then show ?thesis using Suc IH start ok(2) by (auto simp: Let_def)
  qed
qed simp

end
