(* ===== verification/Foreign_ABI_Facts.thy ===== *)
theory Foreign_ABI_Facts
  imports Foreign_ABI Layout_Facts
begin

text \<open>
  The contract of \<open>foreignABIGenerator\<close> as a locale, interpreted for its five
  implementations: an aggregate is passed either by the address of a copy, or in chunks that
  tile it; and it is returned in at most two chunks that tile it unless a result pointer is used.
\<close>

section \<open>Tilings\<close>

definition by_address :: "abiChunk list \<Rightarrow> bool" where
  "by_address cs \<longleftrightarrow> (\<exists>attrs. cs = [pointer_chunk attrs])"

fun tiles :: "int \<Rightarrow> int \<Rightarrow> abiChunk list \<Rightarrow> bool" where
  "tiles n off [] \<longleftrightarrow> n \<le> off"
| "tiles n off (c # cs) \<longleftrightarrow>
     offset c = off \<and> 0 \<le> chunk_size c \<and> off + chunk_size c \<le> max_int n 16 \<and>
     tiles n (off + chunk_size c) cs"

definition covers :: "abiChunk \<Rightarrow> int \<Rightarrow> bool" where
  "covers c b \<longleftrightarrow> offset c \<le> b \<and> b < offset c + chunk_size c"

lemma tiles_from:
  assumes "tiles n off cs" and "c \<in> set cs"
  shows "off \<le> offset c \<and> 0 \<le> chunk_size c \<and> offset c + chunk_size c \<le> max_int n 16"
  using assms
proof (induction cs arbitrary: off)
  case (Cons d cs)
  show ?case
  proof (cases "c = d")
    case False
    then have "off + chunk_size d \<le> offset c \<and> 0 \<le> chunk_size c \<and>
        offset c + chunk_size c \<le> max_int n 16"
      using Cons.prems by (intro Cons.IH) auto
    then show ?thesis using Cons.prems by auto
  qed (use Cons.prems in auto)
qed simp

lemma tiles_cover:
  assumes "tiles n off cs" and "off \<le> b" and "b < n"
  shows "\<exists>!i. i < length cs \<and> covers (cs ! i) b"
  using assms
proof (induction cs arbitrary: off)
  case (Cons c cs)
  let ?in = "\<lambda>cs i. i < length cs \<and> covers (cs ! i) b"
  show ?case
  proof (cases "b < off + chunk_size c")
    case True
    have "\<not> covers (cs ! i) b" if "i < length cs" for i
      using Cons.prems(1) True tiles_from [of n "off + chunk_size c" cs "cs ! i"] that
      by (simp add: covers_def)
    then have "i = 0" if "?in (c # cs) i" for i using that by (cases i) auto
    moreover have "?in (c # cs) 0" using Cons.prems True by (simp add: covers_def)
    ultimately show ?thesis by blast
  next
    case False
    have "\<exists>!i. ?in cs i" using Cons.prems False by (intro Cons.IH [of "off + chunk_size c"]) auto
    then obtain i where i: "?in cs i" and uniq: "\<And>j. ?in cs j \<Longrightarrow> j = i" by blast
    have "\<not> covers c b" using False Cons.prems(1) by (simp add: covers_def)
    then have "j = Suc i" if "?in (c # cs) j" for j using that uniq by (cases j) auto
    moreover have "?in (c # cs) (Suc i)" using i by simp
    ultimately show ?thesis by blast
  qed
qed simp

lemma scratch_size_ge: "n \<le> scratch_size n cs"
proof -
  have "n \<le> foldl (\<lambda>s c. if offset c \<ge> 0 then max_int s (wrap64 (offset c + chunk_size c)) else s) n cs"
  proof (induction cs arbitrary: n)
    case (Cons c cs)
    then show ?case
      using order_trans [OF max_int_bounds(1) Cons.IH [of "max_int n (wrap64 (offset c + chunk_size c))"]]
      by simp
  qed simp
  then show ?thesis by (simp add: scratch_size_def)
qed

lemma scratch_size_Cons:
  "scratch_size n (c # cs) =
    scratch_size (if offset c \<ge> 0 then max_int n (wrap64 (offset c + chunk_size c)) else n) cs"
  by (simp add: scratch_size_def)

lemma in_scratch:
  assumes "c \<in> set cs" and "offset c \<ge> 0" and "wrap64 (offset c + chunk_size c) = offset c + chunk_size c"
  shows "offset c + chunk_size c \<le> scratch_size n cs"
  using assms(1)
proof (induction cs arbitrary: n)
  case (Cons d cs)
  show ?case
  proof (cases "c = d")
    case True
    then show ?thesis
      using assms(2,3) order_trans [OF max_int_bounds(2) [of "offset c + chunk_size c" n] scratch_size_ge]
      by (simp add: scratch_size_Cons)
  qed (use Cons in \<open>simp add: scratch_size_Cons\<close>)
qed simp

text \<open>Every byte of the value lies in exactly one chunk, and every chunk in the scratch memory.\<close>

definition spilled_safely :: "int \<Rightarrow> abiChunk list \<Rightarrow> bool" where
  "spilled_safely n cs \<longleftrightarrow>
     (\<forall>b. 0 \<le> b \<and> b < n \<longrightarrow> (\<exists>!i. i < length cs \<and> covers (cs ! i) b)) \<and>
     (\<forall>c \<in> set cs. 0 \<le> offset c \<and> offset c + chunk_size c \<le> scratch_size n cs)"

section \<open>The contract\<close>

locale abi_contract =
  fixes measured :: "ty \<Rightarrow> size_align run"
    and params returns :: "ty \<Rightarrow> abiChunk list run"
    and sret :: "ty \<Rightarrow> bool run"
  assumes params_law: "measured t = Some (n, a) \<Longrightarrow> 0 \<le> n \<Longrightarrow> n < max_size \<Longrightarrow>
      params t = Some cs \<Longrightarrow> by_address cs \<or> tiles n 0 cs"
    and returns_law: "measured t = Some (n, a) \<Longrightarrow> 0 \<le> n \<Longrightarrow> n < max_size \<Longrightarrow>
      sret t = Some False \<Longrightarrow> returns t = Some cs \<Longrightarrow> tiles n 0 cs \<and> length cs \<le> 2"
begin

lemma tiles_spilled_safely:
  assumes "tiles n 0 cs" and "n < max_size"
  shows "spilled_safely n cs"
proof -
  have "0 \<le> offset c \<and> offset c + chunk_size c \<le> scratch_size n cs" if "c \<in> set cs" for c
  proof -
    note c = tiles_from [OF assms(1) that]
    then have "wrap64 (offset c + chunk_size c) = offset c + chunk_size c"
      using assms(2) by (intro wrap64_fits) (auto simp: max_int_def max_size_def split: if_splits)
    then show ?thesis using in_scratch [OF that] c by auto
  qed
  then show ?thesis using tiles_cover [OF assms(1)] by (auto simp: spilled_safely_def)
qed

lemma params_spill:
  assumes "measured t = Some (n, a)" and "0 \<le> n" and "n < max_size" and "params t = Some cs"
  shows "by_address cs \<or> spilled_safely n cs"
  using params_law [OF assms] tiles_spilled_safely assms(3) by blast

lemma returns_spill:
  assumes "measured t = Some (n, a)" and "0 \<le> n" and "n < max_size"
    and "sret t = Some False" and "returns t = Some cs"
  shows "spilled_safely n cs \<and> length cs \<le> 2"
  using returns_law [OF assms] tiles_spilled_safely assms(3) by blast

end

section \<open>The five implementations\<close>

lemma chunk_simps [simp]:
  "offset (chunk s off n) = off" "chunk_size (chunk s off n) = n" "typeName (chunk s off n) = s"
  "attributes (chunk s off n) = []"
  by (simp_all add: chunk_def)

lemma by_address_pointer [simp]: "by_address [pointer_chunk attrs]"
  by (auto simp: by_address_def)

lemma max_int_16: "0 \<le> n \<Longrightarrow> n \<le> max_int n 16" "(8::int) \<le> max_int n 16" "(16::int) \<le> max_int n 16"
  by (auto simp: max_int_def)

interpretation aarch64: abi_contract "typeSizeAlign e \<sigma>" "aarch64_params e \<sigma> linux"
  "aarch64_returns e \<sigma>" "aarch64_sret e \<sigma>" for e \<sigma> linux
proof
  show "by_address cs \<or> tiles n 0 cs"
    if t: "typeSizeAlign e \<sigma> t = Some (n, a)" "0 \<le> n" "aarch64_params e \<sigma> linux t = Some cs" for t n a cs
  proof -
    obtain h where "homogeneousFloatAggregate \<sigma> t = Some h"
      using t by (auto simp: aarch64_params_def bind_eq_Some_conv)
    then show ?thesis
      using t max_int_16 [of n]
      by (cases "small_hfa h") (auto simp: aarch64_params_def split: if_splits)
  qed
  show "tiles n 0 cs \<and> length cs \<le> 2"
    if t: "typeSizeAlign e \<sigma> t = Some (n, a)" "0 \<le> n" "aarch64_sret e \<sigma> t = Some False"
      "aarch64_returns e \<sigma> t = Some cs" for t n a cs
  proof -
    obtain h where "homogeneousFloatAggregate \<sigma> t = Some h"
      using t by (auto simp: aarch64_returns_def bind_eq_Some_conv)
    then show ?thesis
      using t max_int_16 [of n]
      by (cases "small_hfa h") (auto simp: aarch64_returns_def aarch64_sret_def split: if_splits)
  qed
qed

interpretation win64: abi_contract "typeSizeAlign e \<sigma>" "win64_params e \<sigma>" "win64_params e \<sigma>"
  "win_sret e \<sigma>" for e \<sigma>
  by unfold_locales (auto simp: win64_params_def win_sret_def win_register_size_def max_int_def split: if_splits)

interpretation win32: abi_contract "typeSizeAlign e \<sigma>" "win32_params e \<sigma>" "win32_returns e \<sigma>"
  "win_sret e \<sigma>" for e \<sigma>
  by unfold_locales
    (auto simp: win32_params_def win32_returns_def win_sret_def max_int_def bind_eq_Some_conv
      split: if_splits)

interpretation sysvi386: abi_contract "typeSizeAlign e \<sigma>" "sysvi386_params e \<sigma>" "\<lambda>t. Some []"
  "\<lambda>t. Some True" for e \<sigma>
  by unfold_locales (auto simp: sysvi386_params_def bind_eq_Some_conv)

lemma sysv_chunks_tile:
  assumes "sysv_chunks n i cs fl = Some xs" and "0 \<le> i" and "i * 8 \<le> n"
    and "n \<le> (i + int (length cs)) * 8" and "(i + int (length cs)) * 8 < n + 8"
  shows "tiles n (i * 8) xs \<and> length xs = length cs"
  using assms
proof (induction n i cs fl arbitrary: xs rule: sysv_chunks.induct)
  case (3 n i c cs f fl)
  obtain x ys where x: "sysv_chunk n c f i = Some x" and ys: "sysv_chunks n (i + 1) cs fl = Some ys"
    and xs: "xs = x # ys"
    using "3.prems"(1) by (auto simp: bind_eq_Some_conv)
  have size_x: "offset x = i * 8" "chunk_size x = min (n - i * 8) 8"
    using x by (auto simp: sysv_chunk_def Let_def split: abiClass.splits)
  show ?case
  proof (cases "cs = []")
    case True
    then have "ys = []" using ys by (cases fl) auto
    then show ?thesis using True xs size_x "3.prems" by (auto simp: max_int_def)
  next
    case False
    then have "0 < int (length cs)" by simp
    then have "1 \<le> int (length cs)" by linarith
    then have "i * 8 + 8 \<le> n" using "3.prems"(5) by (simp add: algebra_simps)
    moreover have "tiles n ((i + 1) * 8) ys \<and> length ys = length cs"
      using "3.IH" [OF x ys] "3.prems" \<open>i * 8 + 8 \<le> n\<close> by (simp add: algebra_simps)
    ultimately show ?thesis using xs size_x "3.prems" by (auto simp: max_int_def algebra_simps)
  qed
qed (auto simp: max_int_def)

lemma go_div_nonneg: "0 \<le> x \<Longrightarrow> 0 < y \<Longrightarrow> go_div x y = x div y"
  by (auto simp: go_div_def)

text \<open>Classification writes its two slices in place.\<close>

definition same_shape :: "sysv_state \<Rightarrow> sysv_state \<Rightarrow> bool" where
  "same_shape st st' \<longleftrightarrow> length (fst st') = length (fst st) \<and> length (snd st') = length (snd st)"

lemma same_shape_refl [simp]: "same_shape st st"
  by (simp add: same_shape_def)

lemma same_shape_trans: "same_shape s t \<Longrightarrow> same_shape t u \<Longrightarrow> same_shape s u"
  by (simp add: same_shape_def)

lemma mark_from_length: "mark_from n i c cs = Some cs' \<Longrightarrow> length cs' = length cs"
  by (induction n i c cs rule: mark_from.induct) (auto split: if_splits)

lemma mark_sysv_shape: "mark_sysv off bytes c st = Some st' \<Longrightarrow> same_shape st st'"
  by (auto simp: mark_sysv_def markSysVAggregateClass_def Let_def same_shape_def dest: mark_from_length)

lemma add_float_shape: "add_float base p st = Some st' \<Longrightarrow> same_shape st st'"
  by (auto simp: add_float_def Let_def same_shape_def split: if_splits)

lemma classify_loops_shape:
  assumes c: "\<And>t base st st'. c t base st = Some st' \<Longrightarrow> same_shape st st'"
  shows "classify_struct sa c p base fs off st = Some st' \<Longrightarrow> same_shape st st'"
    and "classify_union c base fs st = Some st' \<Longrightarrow> same_shape st st'"
    and "classify_elements c t base bytes i n st = Some st' \<Longrightarrow> same_shape st st'"
proof -
  show "classify_struct sa c p base fs off st = Some st' \<Longrightarrow> same_shape st st'"
    by (induction fs arbitrary: off st)
      (auto simp: Let_def bind_eq_Some_conv dest!: c intro: same_shape_trans)
  show "classify_union c base fs st = Some st' \<Longrightarrow> same_shape st st'"
    by (induction fs arbitrary: st) (auto simp: bind_eq_Some_conv dest!: c intro: same_shape_trans)
  show "classify_elements c t base bytes i n st = Some st' \<Longrightarrow> same_shape st st'"
    by (induction n arbitrary: i st) (auto simp: bind_eq_Some_conv dest!: c intro: same_shape_trans)
qed

lemma classify_shape:
  assumes ret: "classifySysVAggregate e \<sigma> t base st = Some st'"
  shows "same_shape st st'"
proof (rule classifySysVAggregate.raw_induct
    [where P = "\<lambda>e \<sigma> t base st st'. same_shape st st'", OF _ ret])
  fix f :: "emitter \<Rightarrow> alias_store \<Rightarrow> ty \<Rightarrow> int \<Rightarrow> sysv_state \<Rightarrow> sysv_state run"
    and e \<sigma> t base st st'
  assume IH: "\<And>e \<sigma> t base st st'. f e \<sigma> t base st = Some st' \<Longrightarrow> same_shape st st'"
    and eq: "Option.bind (Underlying \<sigma> t)
      (\<lambda>u. classify_step e (typeSizeAlign e \<sigma>) (f e \<sigma>) u base st) = Some st'"
  obtain u where u: "classify_step e (typeSizeAlign e \<sigma>) (f e \<sigma>) u base st = Some st'"
    using eq by (auto simp: bind_eq_Some_conv)
  have c: "f e \<sigma> t base st = Some st' \<Longrightarrow> same_shape st st'" for t base st st' by (rule IH)
  show "same_shape st st'"
    using u by (cases u) (auto simp: bind_eq_Some_conv split: if_splits
        intro: same_shape_trans classify_loops_shape [of "f e \<sigma>"] c
        dest: mark_sysv_shape add_float_shape)
qed

lemma sysv_params_tile:
  assumes "typeSizeAlign e \<sigma> t = Some (n, a)" and "0 \<le> n" and "n < max_size"
    and "sysv_memory e \<sigma> t = Some False" and "sysv_params e \<sigma> t = Some cs"
  shows "tiles n 0 cs \<and> length cs \<le> 2"
proof -
  have n: "n \<le> 16"
    using assms(1,4) by (auto simp: sysv_memory_def split: if_splits)
  have wrap: "wrap64 (n + 7) = n + 7" using assms(2,3) by (intro wrap64_fits) (simp_all add: max_size_def)
  let ?k = "(n + 7) div 8"
  obtain st where st: "sysv_chunks n 0 (fst st) (snd st) = Some cs"
    and cl: "classifySysVAggregate e \<sigma> t 0 (replicate (nat ?k) abiClassNone, replicate (nat ?k) []) = Some st"
    using assms(1,2,4,5) by (auto simp: sysv_params_def wrap go_div_nonneg bind_eq_Some_conv Let_def split: if_splits)
  have "same_shape (replicate (nat ?k) abiClassNone, replicate (nat ?k) []) st"
    by (rule classify_shape [OF cl])
  then have "length (fst st) = nat ?k" by (simp add: same_shape_def)
  then have "int (length (fst st)) = ?k" using assms(2) by simp
  moreover have "n \<le> ?k * 8" and "?k * 8 < n + 8" by linarith+
  ultimately have "tiles n (0 * 8) cs \<and> length cs = length (fst st)"
    using assms(2) by (intro sysv_chunks_tile [OF st]) auto
  moreover have "?k \<le> 2" using n by linarith
  ultimately show ?thesis using \<open>int (length (fst st)) = ?k\<close> by auto
qed

interpretation sysvamd64: abi_contract "typeSizeAlign e \<sigma>" "sysv_params e \<sigma>" "sysv_params e \<sigma>"
  "sysv_memory e \<sigma>" for e \<sigma>
proof
  show "tiles n 0 cs \<and> length cs \<le> 2"
    if "typeSizeAlign e \<sigma> t = Some (n, a)" "0 \<le> n" "n < max_size" "sysv_memory e \<sigma> t = Some False"
      "sysv_params e \<sigma> t = Some cs" for t n a cs
    using that by (rule sysv_params_tile)
  then show "by_address cs \<or> tiles n 0 cs"
    if "typeSizeAlign e \<sigma> t = Some (n, a)" "0 \<le> n" "n < max_size" "sysv_params e \<sigma> t = Some cs"
    for t n a cs
    using that
    by (cases "sysv_memory e \<sigma> t = Some True") (auto simp: sysv_params_def bind_eq_Some_conv split: if_splits)
qed

end
