(* ===== verification/SysV_Facts.thy ===== *)
theory SysV_Facts
  imports Foreign_ABI_Facts
begin

text \<open>
  The System V x86-64 classification against its rule: every scalar of an aggregate
  classifies the eightbytes it touches, and integers win over floats. The scalars and their
  offsets are given by an inductive relation over the layout of the type.
\<close>

section \<open>Scalars\<close>

fun supported_scalar :: "ty \<Rightarrow> bool" where
  "supported_scalar (PrimitiveTy p) \<longleftrightarrow> p \<noteq> PrimitiveVoid"
| "supported_scalar (PointerType b mu) = True"
| "supported_scalar (EnumType m n i vs ws) = True"
| "supported_scalar (FlagsType p vs ws) \<longleftrightarrow> p \<noteq> PrimitiveVoid"
| "supported_scalar (SliceType b mu) = True"
| "supported_scalar _ = False"

fun float_scalar :: "ty \<Rightarrow> bool" where
  "float_scalar (PrimitiveTy p) = float_prim p"
| "float_scalar _ = False"

text \<open>\<open>scalar_at e \<sigma> t base off n f\<close>: placed at \<open>base\<close>, the type has a scalar of \<open>n\<close> bytes at
  \<open>off\<close>, a float if \<open>f\<close>.\<close>

inductive scalar_at :: "emitter \<Rightarrow> alias_store \<Rightarrow> ty \<Rightarrow> int \<Rightarrow> int \<Rightarrow> int \<Rightarrow> bool \<Rightarrow> bool" for e \<sigma> where
  named: "is_named t \<Longrightarrow> Underlying \<sigma> t = Some u \<Longrightarrow> \<not> is_named u \<Longrightarrow>
    scalar_at e \<sigma> u base off n f \<Longrightarrow> scalar_at e \<sigma> t base off n f"
| scalar: "supported_scalar t \<Longrightarrow> layout e \<sigma> t (n, a) \<Longrightarrow>
    scalar_at e \<sigma> t base base n (float_scalar t)"
| struct: "list_all2 (layout e \<sigma>) (map snd fs) ls \<Longrightarrow> i < length fs \<Longrightarrow>
    scalar_at e \<sigma> (snd (fs ! i)) (base + place p 0 ls ! i) off n f \<Longrightarrow>
    scalar_at e \<sigma> (StructType fs p tu) base off n f"
| union: "i < length fs \<Longrightarrow> scalar_at e \<sigma> (snd (fs ! i)) base off n f \<Longrightarrow>
    scalar_at e \<sigma> (UnionType m nm fs) base off n f"
| array: "layout e \<sigma> b (s, a) \<Longrightarrow> i < nat len \<Longrightarrow> scalar_at e \<sigma> b (base + int i * s) off n f \<Longrightarrow>
    scalar_at e \<sigma> (ArrayType b len) base off n f"

inductive_simps scalar_at_struct: "scalar_at e \<sigma> (StructType fs p tu) base off n f"
inductive_simps scalar_at_union: "scalar_at e \<sigma> (UnionType m nm fs) base off n f"
inductive_simps scalar_at_array: "scalar_at e \<sigma> (ArrayType b len) base off n f"

text \<open>Types all of whose scalars the classification supports.\<close>

inductive c_data :: "alias_store \<Rightarrow> ty \<Rightarrow> bool" for \<sigma> where
  named: "is_named t \<Longrightarrow> Underlying \<sigma> t = Some u \<Longrightarrow> \<not> is_named u \<Longrightarrow> c_data \<sigma> u \<Longrightarrow> c_data \<sigma> t"
| scalar: "supported_scalar t \<Longrightarrow> c_data \<sigma> t"
| struct: "\<forall>f \<in> set fs. c_data \<sigma> (snd f) \<Longrightarrow> c_data \<sigma> (StructType fs p tu)"
| union: "\<forall>f \<in> set fs. c_data \<sigma> (snd f) \<Longrightarrow> c_data \<sigma> (UnionType m n fs)"
| array: "c_data \<sigma> b \<Longrightarrow> c_data \<sigma> (ArrayType b len)"

inductive_simps c_data_simps:
  "c_data \<sigma> (StructType fs p tu)" "c_data \<sigma> (UnionType m n fs)" "c_data \<sigma> (ArrayType b len)"
  "c_data \<sigma> (TraitPointerType tr mu)" "c_data \<sigma> (PrimitiveTy q)" "c_data \<sigma> (FlagsType q vs ws)"

lemma supported_scalar_named [simp]: "supported_scalar t \<Longrightarrow> \<not> is_named t"
  by (cases t) auto

type_synonym scalars = "(int \<times> int \<times> bool) set"

definition scalars_of :: "emitter \<Rightarrow> alias_store \<Rightarrow> ty \<Rightarrow> int \<Rightarrow> scalars" where
  "scalars_of e \<sigma> t base = {(off, n, f). scalar_at e \<sigma> t base off n f}"

lemma layout_functional: "layout e \<sigma> t l \<Longrightarrow> layout e \<sigma> t l' \<Longrightarrow> l = l'"
  by (auto dest!: typeSizeAlign_layout)

lemma layouts_functional:
  assumes "list_all2 (layout e \<sigma>) ts ls" and "list_all2 (layout e \<sigma>) ts ls'"
  shows "ls = ls'"
  using assms layout_functional
proof (induction ts arbitrary: ls ls')
  case (Cons t ts)
  then show ?case by (auto simp: list_all2_Cons1 dest: layout_functional)
qed simp

lemma scalars_of_named:
  assumes "is_named t" and "Underlying \<sigma> t = Some u" and "\<not> is_named u"
  shows "scalars_of e \<sigma> t base = scalars_of e \<sigma> u base" and "c_data \<sigma> t \<Longrightarrow> c_data \<sigma> u"
proof -
  have "scalar_at e \<sigma> u base off n f" if "scalar_at e \<sigma> t base off n f" for off n f
    using that assms by cases auto
  then show "scalars_of e \<sigma> t base = scalars_of e \<sigma> u base"
    using scalar_at.named [OF assms] by (auto simp: scalars_of_def)
  show "c_data \<sigma> u" if "c_data \<sigma> t"
    using that assms by cases auto
qed

lemma scalars_of_scalar:
  assumes "supported_scalar u" and "layout e \<sigma> u (n, a)"
  shows "scalars_of e \<sigma> u base = {(base, n, float_scalar u)}"
proof -
  have "off = base \<and> m = n \<and> f = float_scalar u" if "scalar_at e \<sigma> u base off m f" for off m f
    using that
  proof cases
    case (scalar b)
    then show ?thesis using layout_functional [OF assms(2), of "(m, b)"] by auto
  qed (use assms(1) in auto)
  then show ?thesis using scalar_at.scalar [OF assms] by (auto simp: scalars_of_def)
qed

lemma scalars_of_struct:
  assumes "list_all2 (layout e \<sigma>) (map snd fs) ls"
  shows "scalars_of e \<sigma> (StructType fs p tu) base =
    (\<Union>i < length fs. scalars_of e \<sigma> (snd (fs ! i)) (base + place p 0 ls ! i))"
proof -
  have "list_all2 (layout e \<sigma>) (map snd fs) ls' \<longleftrightarrow> ls' = ls" for ls'
    using assms layouts_functional by blast
  then have "scalar_at e \<sigma> (StructType fs p tu) base off n f \<longleftrightarrow>
      (\<exists>i < length fs. scalar_at e \<sigma> (snd (fs ! i)) (base + place p 0 ls ! i) off n f)" for off n f
    by (simp add: scalar_at_struct)
  then show ?thesis by (auto simp: scalars_of_def)
qed

lemma scalars_of_union:
  "scalars_of e \<sigma> (UnionType m n fs) base = (\<Union>i < length fs. scalars_of e \<sigma> (snd (fs ! i)) base)"
  by (auto simp: scalars_of_def scalar_at_union)

lemma scalars_of_array:
  assumes "layout e \<sigma> b (s, a)"
  shows "scalars_of e \<sigma> (ArrayType b n) base =
    (\<Union>i < nat n. scalars_of e \<sigma> b (base + int i * s))"
proof -
  have "layout e \<sigma> b (s', a') \<longleftrightarrow> s' = s \<and> a' = a" for s' a'
    using assms layout_functional by blast
  then have "scalar_at e \<sigma> (ArrayType b n) base off m f \<longleftrightarrow>
      (\<exists>i < nat n. scalar_at e \<sigma> b (base + int i * s) off m f)" for off m f
    by (simp add: scalar_at_array)
  then show ?thesis by (auto simp: scalars_of_def)
qed

section \<open>Marking\<close>

definition touches :: "int \<Rightarrow> int \<times> int \<times> bool \<Rightarrow> bool" where
  "touches k s \<longleftrightarrow> fst s < 8 * (k + 1) \<and> 8 * k < fst s + fst (snd s)"

definition int_touches :: "scalars \<Rightarrow> int \<Rightarrow> bool" where
  "int_touches M k \<longleftrightarrow> (\<exists>s \<in> M. \<not> snd (snd s) \<and> touches k s)"

definition float_touches :: "scalars \<Rightarrow> int \<Rightarrow> bool" where
  "float_touches M k \<longleftrightarrow> (\<exists>s \<in> M. snd (snd s) \<and> touches k s)"

text \<open>The class of an eightbyte after the scalars are added.\<close>

definition class_after :: "scalars \<Rightarrow> int \<Rightarrow> abiClass \<Rightarrow> abiClass" where
  "class_after M k c =
    (if int_touches M k then abiClassInteger
     else if float_touches M k \<and> c = abiClassNone then abiClassSSE else c)"

lemma class_after_Un: "class_after (M \<union> N) k c = class_after N k (class_after M k c)"
  by (auto simp: class_after_def int_touches_def float_touches_def)

lemma class_after_empty [simp]: "class_after {} k c = c"
  by (simp add: class_after_def int_touches_def float_touches_def)

definition marked :: "scalars \<Rightarrow> sysv_state \<Rightarrow> sysv_state \<Rightarrow> bool" where
  "marked M st st' \<longleftrightarrow> same_shape st st' \<and>
     (\<forall>k < length (fst st). fst st' ! k = class_after M (int k) (fst st ! k))"

lemma marked_refl [simp]: "marked {} st st"
  by (simp add: marked_def)

lemma marked_trans: "marked M s t \<Longrightarrow> marked N t u \<Longrightarrow> marked (M \<union> N) s u"
  by (auto simp: marked_def same_shape_def class_after_Un)

definition room :: "int \<Rightarrow> int \<Rightarrow> sysv_state \<Rightarrow> bool" where
  "room base n st \<longleftrightarrow> 0 \<le> base \<and> 0 \<le> n \<and> base + n \<le> 8 * int (length (fst st)) \<and>
     8 * int (length (fst st)) < max_size \<and> length (snd st) = length (fst st)"

lemma room_same_shape: "same_shape st st' \<Longrightarrow> room base n st' \<longleftrightarrow> room base n st"
  by (auto simp: room_def same_shape_def)

lemma room_marked: "marked M st st' \<Longrightarrow> room base n st \<Longrightarrow> room base n st'"
  using room_same_shape [of st st'] by (simp add: marked_def)

lemma room_inside: "room base n st \<Longrightarrow> 0 \<le> d \<Longrightarrow> 0 \<le> m \<Longrightarrow> d + m \<le> n \<Longrightarrow> room (base + d) m st"
  by (auto simp: room_def)

lemma room_wrap: "room base n st \<Longrightarrow> 0 \<le> d \<Longrightarrow> d \<le> n \<Longrightarrow> wrap64 (base + d) = base + d"
  by (intro wrap64_fits) (auto simp: room_def max_size_def)

section \<open>The loops\<close>

lemma mark_from_class:
  assumes "0 \<le> i" and "i + int n \<le> int (length cs)"
  shows "\<exists>cs'. mark_from n i c cs = Some cs' \<and> length cs' = length cs \<and>
    (\<forall>k < length cs. cs' ! k =
       (if i \<le> int k \<and> int k < i + int n \<and> (c = abiClassInteger \<or> cs ! k = abiClassNone)
        then c else cs ! k))"
  using assms
proof (induction n arbitrary: i cs)
  case 0
  then show ?case by fastforce
next
  case (Suc n)
  define ds where "ds = (if c = abiClassInteger \<or> cs ! nat i = abiClassNone then cs[nat i := c] else cs)"
  have len: "length ds = length cs" by (simp add: ds_def)
  have "\<exists>cs'. mark_from n (i + 1) c ds = Some cs' \<and> length cs' = length ds \<and>
      (\<forall>k < length ds. cs' ! k =
       (if i + 1 \<le> int k \<and> int k < i + 1 + int n \<and> (c = abiClassInteger \<or> ds ! k = abiClassNone)
        then c else ds ! k))"
    using Suc.prems len by (intro Suc.IH) auto
  then obtain cs' where cs': "mark_from n (i + 1) c ds = Some cs'" "length cs' = length cs"
    and k: "\<And>k. k < length cs \<Longrightarrow> cs' ! k =
       (if i + 1 \<le> int k \<and> int k < i + 1 + int n \<and> (c = abiClassInteger \<or> ds ! k = abiClassNone)
        then c else ds ! k)"
    unfolding len by blast
  have "cs' ! k = (if i \<le> int k \<and> int k < i + int (Suc n) \<and> (c = abiClassInteger \<or> cs ! k = abiClassNone)
        then c else cs ! k)" if "k < length cs" for k
  proof (cases "int k = i")
    case True
    then show ?thesis using k [OF that] that by (auto simp: ds_def)
  next
    case False
    then have "k \<noteq> nat i" using Suc.prems by linarith
    then have "ds ! k = cs ! k" by (simp add: ds_def)
    then show ?thesis using k [OF that] False by auto
  qed
  then show ?case using Suc.prems cs' by (auto simp: ds_def [symmetric])
qed

lemma touches_div:
  assumes "0 \<le> off" and "0 < n"
  shows "touches k (off, n, f) \<longleftrightarrow> off div 8 \<le> k \<and> k \<le> (off + n - 1) div 8"
  using assms by (auto simp: touches_def)

lemma mark_sysv_marked:
  assumes "room off n st" and "0 < n" and "c = (if f then abiClassSSE else abiClassInteger)"
  shows "\<exists>st'. mark_sysv off n c st = Some st' \<and> marked {(off, n, f)} st st' \<and> snd st' = snd st"
proof -
  have r: "0 \<le> off" "off + n \<le> 8 * int (length (fst st))" "8 * int (length (fst st)) < max_size"
    using assms(1) by (auto simp: room_def)
  let ?lo = "off div 8" and ?hi = "(off + n - 1) div 8"
  have wrap: "wrap64 (off + n) = off + n" "wrap64 (off + n - 1) = off + n - 1"
    using r assms(2) by (auto intro!: wrap64_fits simp: max_size_def)
  have "?lo \<le> ?hi + 1" using assms(2) by linarith
  moreover have "?hi < int (length (fst st))" using r(2) by linarith
  ultimately have len: "?lo + int (nat (?hi - ?lo + 1)) = ?hi + 1"
    and fits: "?lo + int (nat (?hi - ?lo + 1)) \<le> int (length (fst st))" by auto
  have "\<exists>cs'. mark_from (nat (?hi - ?lo + 1)) ?lo c (fst st) = Some cs' \<and>
      length cs' = length (fst st) \<and>
      (\<forall>k < length (fst st). cs' ! k =
       (if ?lo \<le> int k \<and> int k < ?lo + int (nat (?hi - ?lo + 1)) \<and>
           (c = abiClassInteger \<or> fst st ! k = abiClassNone) then c else fst st ! k))"
    by (rule mark_from_class [OF _ fits]) (use r(1) in simp)
  then obtain cs' where cs': "mark_from (nat (?hi - ?lo + 1)) ?lo c (fst st) = Some cs'"
      "length cs' = length (fst st)"
    and k: "\<forall>k < length (fst st). cs' ! k =
       (if ?lo \<le> int k \<and> int k < ?hi + 1 \<and> (c = abiClassInteger \<or> fst st ! k = abiClassNone)
        then c else fst st ! k)"
    unfolding len by blast
  have "cs' ! k = class_after {(off, n, f)} (int k) (fst st ! k)" if "k < length (fst st)" for k
    using k that assms(3) touches_div [OF r(1) assms(2)]
    by (auto simp: class_after_def int_touches_def float_touches_def)
  then have "marked {(off, n, f)} st (cs', snd st)"
    using cs'(2) by (simp add: marked_def same_shape_def)
  moreover have "mark_sysv off n c st = Some (cs', snd st)"
    using cs'(1) r(1) assms(2)
    by (simp add: mark_sysv_def markSysVAggregateClass_def Let_def wrap go_div_nonneg)
  ultimately show ?thesis by auto
qed

lemma add_float_marked:
  assumes "room off n st" and "0 < n"
  shows "\<exists>st'. add_float off p st = Some st' \<and> marked {} st st'"
proof -
  have "0 \<le> off div 8" "off div 8 < int (length (snd st))"
    using assms by (auto simp: room_def)
  then show ?thesis
    using assms by (simp add: add_float_def Let_def go_div_nonneg room_def marked_def same_shape_def)
qed

text \<open>What the classification of one part does, and the loops over parts.\<close>

definition classifies :: "classify \<Rightarrow> (ty \<Rightarrow> int \<Rightarrow> scalars) \<Rightarrow> ty \<Rightarrow> size_align \<Rightarrow> bool" where
  "classifies c M t l \<longleftrightarrow> (\<forall>base st. room base (fst l) st \<longrightarrow>
     (\<exists>st'. c t base st = Some st' \<and> marked (M t base) st st'))"

lemma classifiesD:
  assumes "classifies c M t l" and "room base (fst l) st"
  shows "\<exists>st'. c t base st = Some st' \<and> marked (M t base) st st' \<and> same_shape st st'"
proof -
  obtain st' where "c t base st = Some st'" and m: "marked (M t base) st st'"
    using assms unfolding classifies_def by blast
  moreover have "same_shape st st'" using m by (simp add: marked_def)
  ultimately show ?thesis by blast
qed

lemma classify_union_marked:
  assumes "list_all2 (\<lambda>f l. classifies c M (snd f) l \<and> 0 \<le> fst l \<and> fst l \<le> n) fs ls"
    and "room base n st"
  shows "\<exists>st'. classify_union c base fs st = Some st' \<and>
    marked (\<Union>i < length fs. M (snd (fs ! i)) base) st st'"
  using assms
proof (induction arbitrary: st rule: list_all2_induct)
  case (Cons f fs l ls)
  have "room base (fst l) st" using Cons room_inside [of base n st 0 "fst l"] by simp
  then obtain s where s: "c (snd f) base st = Some s" "marked (M (snd f) base) st s" "same_shape st s"
    using Cons.hyps classifiesD by blast
  then have "room base n s" using Cons.prems room_same_shape by blast
  then obtain s' where s': "classify_union c base fs s = Some s'"
    "marked (\<Union>i < length fs. M (snd (fs ! i)) base) s s'" using Cons.IH by blast
  have "(\<Union>i < length (f # fs). M (snd ((f # fs) ! i)) base) =
      M (snd f) base \<union> (\<Union>i < length fs. M (snd (fs ! i)) base)"
    by (auto simp: less_Suc_eq_0_disj)
  then show ?case using s s' marked_trans by auto
qed simp

lemma UN_less_Suc: "(\<Union>i < Suc n. A i) = A 0 \<union> (\<Union>i < n. A (Suc i))"
  by (auto simp: less_Suc_eq_0_disj)

lemma classify_struct_marked:
  assumes "list_all2 (\<lambda>f l. sa (snd f) = Some l \<and> layout_ok l \<and> classifies c M (snd f) l) fs ls"
    and "0 \<le> off" and "fields_end p off ls \<le> n" and "room base n st"
  shows "\<exists>st'. classify_struct sa c p base fs off st = Some st' \<and>
    marked (\<Union>i < length fs. M (snd (fs ! i)) (base + place p off ls ! i)) st st'"
  using assms
proof (induction arbitrary: off st rule: list_all2_induct)
  case (Cons f fs l ls)
  let ?start = "if p then off else align_up off (snd l)"
  have al: "is_align (snd l)" and l: "0 \<le> fst l" and sa: "sa (snd f) = Some l"
    and cl: "classifies c M (snd f) l" using Cons.hyps by (auto simp: layout_ok_def)
  have oks: "\<forall>l \<in> set ls. layout_ok l"
    using Cons.hyps(2) by (induction rule: list_all2_induct) auto
  have start: "off \<le> ?start" using align_up_bounds(1) [OF al, of off] by simp
  have ends: "?start + fst l \<le> fields_end p (?start + fst l) ls"
    by (rule fields_end_mono [OF parts_fit [OF oks]])
  have "fields_end p (?start + fst l) ls \<le> n" using Cons.prems by simp
  with ends have fits: "?start + fst l \<le> n" by simp
  have "n < max_size" using Cons.prems(3) by (auto simp: room_def)
  then have "alignTo off (snd l) = align_up off (snd l)" if "\<not> p"
    using that start fits l Cons.prems(1) alignTo_align_up [OF al, of off] by simp
  then have go_start: "(if p then off else alignTo off (snd l)) = ?start" by simp
  have wrap_base: "wrap64 (base + ?start) = base + ?start"
    using start fits l Cons.prems(1,3) by (intro room_wrap [of base n st]) auto
  have wrap_next: "wrap64 (?start + fst l) = ?start + fst l"
    using start fits l Cons.prems(1) \<open>n < max_size\<close> by (intro wrap64_fits) (auto simp: max_size_def)
  have "room (base + ?start) (fst l) st"
    using start fits l Cons.prems(1) by (intro room_inside [OF Cons.prems(3)]) auto
  then obtain s where s: "c (snd f) (base + ?start) st = Some s"
      "marked (M (snd f) (base + ?start)) st s" "same_shape st s"
    using classifiesD [OF cl] by blast
  then have "room base n s" using Cons.prems(3) room_same_shape by blast
  moreover have "0 \<le> ?start + fst l" using start l Cons.prems(1) by simp
  ultimately obtain s' where s': "classify_struct sa c p base fs (?start + fst l) s = Some s'"
    "marked (\<Union>i < length fs. M (snd (fs ! i)) (base + place p (?start + fst l) ls ! i)) s s'"
    using Cons.IH [of "?start + fst l" s] Cons.prems(2) by auto
  have "classify_struct sa c p base (f # fs) off st = Some s'"
    using s'(1) s(1) sa by (simp add: go_start wrap_base wrap_next Let_def del: if_split)
  moreover have "marked (\<Union>i < length (f # fs). M (snd ((f # fs) ! i)) (base + place p off (l # ls) ! i)) st s'"
    using marked_trans [OF s(2) s'(2)] by (simp add: UN_less_Suc Let_def)
  ultimately show ?case by blast
qed simp

lemma classify_elements_marked:
  assumes "classifies c M t (s, a)" and "0 \<le> s" and "0 \<le> i" and "(i + int n) * s \<le> m" and "room base m st"
  shows "\<exists>st'. classify_elements c t base s i n st = Some st' \<and>
    marked (\<Union>j < n. M t (base + (i + int j) * s)) st st'"
  using assms(3-)
proof (induction n arbitrary: i st)
  case (Suc n)
  have is0: "0 \<le> i * s" using assms(2) Suc.prems(1) by simp
  have fit: "i * s + s \<le> m"
  proof -
    have "(i + 1) * s \<le> (i + int (Suc n)) * s" using assms(2) by (intro mult_right_mono) auto
    then show ?thesis using Suc.prems(2) by (simp add: algebra_simps)
  qed
  have "m < max_size" using Suc.prems(3) by (auto simp: room_def)
  then have "wrap64 (i * s) = i * s" using is0 fit assms(2) by (intro wrap64_fits) (auto simp: max_size_def)
  moreover have "wrap64 (base + i * s) = base + i * s"
    using is0 fit assms(2) by (intro room_wrap [OF Suc.prems(3)]) auto
  moreover have "room (base + i * s) (fst (s, a)) st"
    using is0 fit assms(2) by (intro room_inside [OF Suc.prems(3)]) auto
  then obtain u where u: "c t (base + i * s) st = Some u" "marked (M t (base + i * s)) st u" "same_shape st u"
    using classifiesD [OF assms(1)] by blast
  moreover have "room base m u" using Suc.prems(3) u(3) room_same_shape by blast
  moreover have "(i + 1 + int n) * s \<le> m" using Suc.prems(2) by (simp add: algebra_simps)
  ultimately obtain u' where u': "classify_elements c t base s (i + 1) n u = Some u'"
    "marked (\<Union>j < n. M t (base + (i + 1 + int j) * s)) u u'"
    using Suc.IH [of "i + 1" u] Suc.prems(1) by auto
  have "marked (\<Union>j < Suc n. M t (base + (i + int j) * s)) st u'"
    using marked_trans [OF u(2) u'(2)] by (simp add: UN_less_Suc algebra_simps)
  moreover have "classify_elements c t base s i (Suc n) st = Some u'"
    using u(1) u'(1) \<open>wrap64 (i * s) = i * s\<close> \<open>wrap64 (base + i * s) = base + i * s\<close> by simp
  ultimately show ?case by blast
qed simp

section \<open>The classification\<close>

lemma classify_simps:
  "\<not> is_named t \<Longrightarrow> classifySysVAggregate e \<sigma> t base st =
     classify_step e (typeSizeAlign e \<sigma>) (classifySysVAggregate e \<sigma>) t base st"
  by (simp add: classifySysVAggregate.simps [of e \<sigma> t])

lemma classify_named:
  assumes "Underlying \<sigma> t = Some u" and "\<not> is_named u"
  shows "classifySysVAggregate e \<sigma> t base st = classifySysVAggregate e \<sigma> u base st"
  using assms by (simp add: classifySysVAggregate.simps [of e \<sigma> t] classify_simps)

lemma classifiesI:
  assumes "\<And>base st. room base (fst l) st \<Longrightarrow> \<exists>st'. c t base st = Some st' \<and> marked (M t base) st st'"
  shows "classifies c M t l"
  using assms unfolding classifies_def by blast

lemma classifies_int:
  assumes "\<And>base st. classifySysVAggregate e \<sigma> t base st = mark_sysv base n abiClassInteger st"
    and "supported_scalar t" and "layout e \<sigma> t (n, a)" and "0 < n" and "\<not> float_scalar t"
  shows "classifies (classifySysVAggregate e \<sigma>) (scalars_of e \<sigma>) t (n, a)"
proof (rule classifiesI)
  fix base st assume "room base (fst (n, a)) st"
  then show "\<exists>st'. classifySysVAggregate e \<sigma> t base st = Some st' \<and> marked (scalars_of e \<sigma> t base) st st'"
    using mark_sysv_marked [of base n st abiClassInteger False] assms
    by (auto simp: scalars_of_scalar [OF assms(2,3)])
qed

lemma prim_size_pos: "prim_size_align e p = Some (n, a) \<Longrightarrow> p \<noteq> PrimitiveVoid \<Longrightarrow> 0 < n"
  using pointerBytes_cases [of e] by (auto simp: prim_size_align_def split: PrimitiveType.splits)

lemma classifies_prim:
  assumes "prim_size_align e p = Some (n, a)" and "p \<noteq> PrimitiveVoid"
  shows "classifies (classifySysVAggregate e \<sigma>) (scalars_of e \<sigma>) (PrimitiveTy p) (n, a)"
proof (cases "float_prim p")
  case False
  then show ?thesis
    using assms prim_size_pos [OF assms]
    by (intro classifies_int) (auto simp: classify_simps intro: layout.primitive)
next
  case True
  have scalars: "scalars_of e \<sigma> (PrimitiveTy p) base = {(base, n, True)}" for base
    using scalars_of_scalar [of "PrimitiveTy p" e \<sigma> n a] assms True
    by (simp add: layout.primitive)
  show ?thesis
  proof (rule classifiesI)
    fix base st assume r: "room base (fst (n, a)) st"
    obtain s where s: "mark_sysv base n abiClassSSE st = Some s" "marked {(base, n, True)} st s"
      using mark_sysv_marked [of base n st abiClassSSE True] r prim_size_pos [OF assms] by auto
    then have "room base n s" using r room_marked by simp
    then obtain s' where s': "add_float base p s = Some s'" "marked {} s s'"
      using add_float_marked prim_size_pos [OF assms] by blast
    have "classifySysVAggregate e \<sigma> (PrimitiveTy p) base st = Some s'"
      using s s' True assms by (simp add: classify_simps)
    then show "\<exists>st'. classifySysVAggregate e \<sigma> (PrimitiveTy p) base st = Some st' \<and>
        marked (scalars_of e \<sigma> (PrimitiveTy p) base) st st'"
      using marked_trans [OF s(2) s'(2)] scalars by auto
  qed
qed

lemma classifies_slice:
  assumes "pointerBytes e = Some w"
  shows "classifies (classifySysVAggregate e \<sigma>) (scalars_of e \<sigma>) (SliceType b mu) (2 * w, w)"
proof (rule classifiesI)
  fix base st assume r: "room base (fst (2 * w, w)) st"
  have w: "0 < w" using pointerBytes_cases [OF assms] by auto
  have scalars: "scalars_of e \<sigma> (SliceType b mu) base = {(base, 2 * w, False)}"
    using scalars_of_scalar [of "SliceType b mu" e \<sigma> "2 * w" w base] layout.slice [OF assms] by simp
  have "room base w st" using r w by (auto simp: room_def)
  then obtain s where s: "mark_sysv base w abiClassInteger st = Some s" "marked {(base, w, False)} st s"
    using mark_sysv_marked [of base w st abiClassInteger False] w by auto
  have "room (base + w) w st" using r w by (auto simp: room_def)
  then have "room (base + w) w s" using s(2) room_marked by blast
  then obtain s' where s': "mark_sysv (base + w) w abiClassInteger s = Some s'"
    "marked {(base + w, w, False)} s s'"
    using mark_sysv_marked [of "base + w" w s abiClassInteger False] w by auto
  have "wrap64 (base + w) = base + w" using r w by (intro room_wrap [of base "2 * w" st]) auto
  then have "classifySysVAggregate e \<sigma> (SliceType b mu) base st = Some s'"
    using s s' assms by (simp add: classify_simps)
  moreover have "class_after ({(base, w, False)} \<union> {(base + w, w, False)}) k c =
      class_after {(base, 2 * w, False)} k c" for k c
    using w by (auto simp: class_after_def int_touches_def float_touches_def touches_def)
  then have "marked {(base, 2 * w, False)} st s'"
    using marked_trans [OF s(2) s'(2)] by (simp add: marked_def)
  ultimately show "\<exists>st'. classifySysVAggregate e \<sigma> (SliceType b mu) base st = Some st' \<and>
      marked (scalars_of e \<sigma> (SliceType b mu) base) st st'"
    using scalars by auto
qed

lemma classifies_named:
  assumes "is_named t" and "Underlying \<sigma> t = Some u" and "\<not> is_named u"
    and "classifies (classifySysVAggregate e \<sigma>) (scalars_of e \<sigma>) u l"
  shows "classifies (classifySysVAggregate e \<sigma>) (scalars_of e \<sigma>) t l"
  using assms(4)
  by (simp add: classifies_def classify_named [OF assms(2,3)] scalars_of_named(1) [OF assms(1-3)])

text \<open>What the rule induction below knows of the parts.\<close>

definition part_ok :: "emitter \<Rightarrow> alias_store \<Rightarrow> ty \<Rightarrow> size_align \<Rightarrow> bool" where
  "part_ok e \<sigma> t l \<longleftrightarrow> layout e \<sigma> t l \<and>
     (c_data \<sigma> t \<longrightarrow> classifies (classifySysVAggregate e \<sigma>) (scalars_of e \<sigma>) t l)"

lemma parts_classify:
  assumes "list_all2 (part_ok e \<sigma>) (map snd fs) ls" and "\<forall>f \<in> set fs. c_data \<sigma> (snd f)"
  shows "list_all2 (\<lambda>f l. typeSizeAlign e \<sigma> (snd f) = Some l \<and> layout_ok l \<and>
     classifies (classifySysVAggregate e \<sigma>) (scalars_of e \<sigma>) (snd f) l) fs ls"
  using assms
  by (auto simp: list_all2_conv_all_nth part_ok_def dest: typeSizeAlign_layout)

lemma parts_layout: "list_all2 (part_ok e \<sigma>) ts ls \<Longrightarrow> list_all2 (layout e \<sigma>) ts ls"
  by (auto elim: list_all2_mono simp: part_ok_def)

lemma classifies_struct:
  assumes parts: "list_all2 (part_ok e \<sigma>) (map snd fs) ls" and data: "\<forall>f \<in> set fs. c_data \<sigma> (snd f)"
    and l: "struct_layout p ls = l" "fst l < max_size"
  shows "classifies (classifySysVAggregate e \<sigma>) (scalars_of e \<sigma>) (StructType fs p tu) l"
proof (rule classifiesI)
  fix base st assume r: "room base (fst l) st"
  note ps = parts_classify [OF parts data]
  have oks: "\<forall>l \<in> set ls. layout_ok l" using ps by (induction rule: list_all2_induct) auto
  have "fields_end p 0 ls \<le> fst l"
  proof (cases p)
    case False
    have "is_align (max_align ls)" using oks by (intro max_align_ok) (auto simp: layout_ok_def)
    then show ?thesis using False l(1) align_up_bounds(1) by (auto simp: struct_layout_def)
  qed (use l in \<open>auto simp: struct_layout_def\<close>)
  then obtain st' where "classify_struct (typeSizeAlign e \<sigma>) (classifySysVAggregate e \<sigma>) p base fs 0 st = Some st'"
    "marked (\<Union>i < length fs. scalars_of e \<sigma> (snd (fs ! i)) (base + place p 0 ls ! i)) st st'"
    using classify_struct_marked [OF ps _ _ r, of 0 p] by auto
  then show "\<exists>st'. classifySysVAggregate e \<sigma> (StructType fs p tu) base st = Some st' \<and>
      marked (scalars_of e \<sigma> (StructType fs p tu) base) st st'"
    using scalars_of_struct [OF parts_layout [OF parts]] by (simp add: classify_simps)
qed

lemma classifies_union:
  assumes parts: "list_all2 (part_ok e \<sigma>) (map snd fs) ls" and data: "\<forall>f \<in> set fs. c_data \<sigma> (snd f)"
    and l: "union_layout ls = l" "fst l < max_size"
  shows "classifies (classifySysVAggregate e \<sigma>) (scalars_of e \<sigma>) (UnionType m n fs) l"
proof (rule classifiesI)
  fix base st assume r: "room base (fst l) st"
  note ps = parts_classify [OF parts data]
  have oks: "\<forall>l \<in> set ls. layout_ok l" using ps by (induction rule: list_all2_induct) auto
  have "is_align (max_align ls)" using oks by (intro max_align_ok) (auto simp: layout_ok_def)
  then have "max_extent ls \<le> fst l" using l(1) align_up_bounds(1) by (auto simp: union_layout_def)
  then have "fst q \<le> fst l" if "q \<in> set ls" for q
    using foldl_max_extent [of 0 ls] that by (auto simp: max_extent_def)
  then have "list_all2 (\<lambda>f q. classifies (classifySysVAggregate e \<sigma>) (scalars_of e \<sigma>) (snd f) q \<and>
      0 \<le> fst q \<and> fst q \<le> fst l) fs ls"
    using ps oks by (auto simp: list_all2_conv_all_nth layout_ok_def)
  then obtain st' where "classify_union (classifySysVAggregate e \<sigma>) base fs st = Some st'"
    "marked (\<Union>i < length fs. scalars_of e \<sigma> (snd (fs ! i)) base) st st'"
    using classify_union_marked r by blast
  then show "\<exists>st'. classifySysVAggregate e \<sigma> (UnionType m n fs) base st = Some st' \<and>
      marked (scalars_of e \<sigma> (UnionType m n fs) base) st st'"
    by (simp add: classify_simps scalars_of_union)
qed

lemma classifies_array:
  assumes "layout e \<sigma> b (s, a)" and "0 \<le> n"
    and "classifies (classifySysVAggregate e \<sigma>) (scalars_of e \<sigma>) b (s, a)"
  shows "classifies (classifySysVAggregate e \<sigma>) (scalars_of e \<sigma>) (ArrayType b n) (n * s, a)"
proof (rule classifiesI)
  fix base st assume r: "room base (fst (n * s, a)) st"
  have size: "typeSizeAlign e \<sigma> b = Some (s, a)" "0 \<le> s"
    using typeSizeAlign_layout [OF assms(1)] by (auto simp: layout_ok_def)
  then obtain st' where "classify_elements (classifySysVAggregate e \<sigma>) b base s 0 (nat n) st = Some st'"
    "marked (\<Union>j < nat n. scalars_of e \<sigma> b (base + (0 + int j) * s)) st st'"
    using classify_elements_marked [OF assms(3), of 0 "nat n" "n * s" base st] r assms(2) by auto
  then show "\<exists>st'. classifySysVAggregate e \<sigma> (ArrayType b n) base st = Some st' \<and>
      marked (scalars_of e \<sigma> (ArrayType b n) base) st st'"
    using size scalars_of_array [OF assms(1)] by (simp add: classify_simps)
qed

lemma classification:
  assumes "pointerBytes e = Some 8" and "layout e \<sigma> t l"
  shows "part_ok e \<sigma> t l"
  using assms(2)
proof (induction rule: layout.induct)
  case (named t u l)
  then show ?case
    unfolding part_ok_def
    using layout.named [OF named.hyps(1-3)] classifies_named [OF named.hyps(1-3)] scalars_of_named(2) [OF named.hyps(1-3)]
    by blast
next
  case (primitive p l)
  then show ?case using classifies_prim [of e p "fst l" "snd l" \<sigma>]
    by (auto simp: part_ok_def c_data_simps intro: layout.primitive)
next
  case (pointer w b mu)
  then show ?case
    using assms(1) layout.pointer [of e w \<sigma> b mu]
      classifies_int [of e \<sigma> "PointerType b mu" 8 8] by (auto simp: part_ok_def classify_simps)
next
  case (trait_pointer w tr mu)
  then show ?case using layout.trait_pointer [of e w \<sigma> tr mu] by (simp add: part_ok_def c_data_simps)
next
  case (slice w b mu)
  then show ?case using layout.slice [of e w \<sigma> b mu] classifies_slice [of e w \<sigma> b mu] by (simp add: part_ok_def)
next
  case (array b s a n)
  then show ?case
    using layout.array [of e \<sigma> b s a n] classifies_array [of e \<sigma> b s a n] by (auto simp: part_ok_def c_data_simps)
next
  case (enum m n i vs ws)
  then show ?case
    using layout.enum [of e \<sigma> m n i vs ws] classifies_int [of e \<sigma> "EnumType m n i vs ws" 4 4]
    by (auto simp: part_ok_def classify_simps)
next
  case (flags p l vs ws)
  have "typeSizeAlign e \<sigma> (PrimitiveTy p) = Some l"
    using typeSizeAlign_layout [OF flags.hyps] by simp
  moreover have "prim_size_align e p = Some l" using calculation by simp
  ultimately show ?case
    using layout.flags [OF flags.hyps, of vs ws] prim_size_pos [of e p "fst l" "snd l"]
      classifies_int [of e \<sigma> "FlagsType p vs ws" "fst l" "snd l"]
    by (auto simp: part_ok_def classify_simps c_data_simps)
next
  case (struct fs ls p l tu)
  then have parts: "list_all2 (part_ok e \<sigma>) (map snd fs) ls" by (auto elim: list_all2_mono)
  then show ?case
    using layout.struct [OF parts_layout [OF parts] struct.hyps]
      classifies_struct [OF parts _ struct.hyps] by (simp add: part_ok_def c_data_simps)
next
  case (union fs ls l m n)
  then have parts: "list_all2 (part_ok e \<sigma>) (map snd fs) ls" by (auto elim: list_all2_mono)
  then show ?case
    using layout.union [OF parts_layout [OF parts] union.hyps]
      classifies_union [OF parts _ union.hyps] by (simp add: part_ok_def c_data_simps)
qed

end
