(* ===== verification/AArch64_Facts.thy ===== *)
theory AArch64_Facts
  imports Foreign_ABI_Facts
begin

text \<open>
  \<open>homogeneousFloatAggregate\<close> against its rule: the aggregate flattened into its scalars is a
  non-empty run of one float type.
\<close>

fun flattens :: "ty \<Rightarrow> bool" where
  "flattens (StructType fs p tu) = True"
| "flattens (ArrayType b n) = True"
| "flattens _ = False"

text \<open>The scalars of a type, unions and slices counted as scalars.\<close>

inductive flat :: "alias_store \<Rightarrow> ty \<Rightarrow> ty list \<Rightarrow> bool" for \<sigma> where
  leaf: "Underlying \<sigma> t = Some u \<Longrightarrow> \<not> flattens u \<Longrightarrow> flat \<sigma> t [u]"
| struct: "Underlying \<sigma> t = Some (StructType fs p tu) \<Longrightarrow> list_all2 (flat \<sigma>) (map snd fs) uss \<Longrightarrow>
    flat \<sigma> t (concat uss)"
| array: "Underlying \<sigma> t = Some (ArrayType b n) \<Longrightarrow> flat \<sigma> b us \<Longrightarrow>
    flat \<sigma> t (concat (replicate (nat n) us))"

fun visit_scalars :: "ty list \<Rightarrow> hfa_state \<Rightarrow> bool \<times> hfa_state" where
  "visit_scalars [] st = (True, st)"
| "visit_scalars (PrimitiveTy p # us) st =
    (if fst (hfa_prim p st) then visit_scalars us (snd (hfa_prim p st)) else hfa_prim p st)"
| "visit_scalars (u # us) st = (False, st)"

lemma visit_scalars_append:
  "visit_scalars (us @ vs) st =
    (if fst (visit_scalars us st) then visit_scalars vs (snd (visit_scalars us st))
     else visit_scalars us st)"
  by (induction us st rule: visit_scalars.induct) auto

lemma hfa_fields_scalars:
  assumes "list_all2 (\<lambda>t us. v t = (\<lambda>st. Some (visit_scalars us st))) (map snd fs) uss"
  shows "hfa_fields v fs st = Some (visit_scalars (concat uss) st)"
  using assms
proof (induction fs arbitrary: uss st)
  case (Cons f fs)
  then obtain us vss where uss: "uss = us # vss" and v: "v (snd f) = (\<lambda>st. Some (visit_scalars us st))"
    and rest: "list_all2 (\<lambda>t us. v t = (\<lambda>st. Some (visit_scalars us st))) (map snd fs) vss"
    by (auto simp: list_all2_Cons1)
  then show ?case using Cons.IH [OF rest, of "snd (visit_scalars us st)"] by (simp add: visit_scalars_append)
qed simp

lemma hfa_elements_scalars:
  assumes "\<And>st. v t st = Some (visit_scalars us st)"
  shows "hfa_elements v t n st = Some (visit_scalars (concat (replicate n us)) st)"
  by (induction n arbitrary: st) (auto simp: assms visit_scalars_append)

lemma hfa_visit_scalars: "flat \<sigma> t us \<Longrightarrow> hfa_visit \<sigma> t st = Some (visit_scalars us st)"
proof (induction arbitrary: st rule: flat.induct)
  case (leaf t u)
  then show ?case by (cases u) (auto simp: hfa_visit.simps [of \<sigma> t] prod_eq_iff)
next
  case (struct t fs p tu uss)
  have "list_all2 (\<lambda>t us. hfa_visit \<sigma> t = (\<lambda>st. Some (visit_scalars us st))) (map snd fs) uss"
    using struct.IH by (auto elim!: list_all2_mono)
  then show ?case using struct.hyps(1) hfa_fields_scalars by (simp add: hfa_visit.simps [of \<sigma> t])
next
  case (array t b n us)
  then show ?case using hfa_elements_scalars by (simp add: hfa_visit.simps [of \<sigma> t])
qed

definition float_run :: "PrimitiveType \<Rightarrow> ty list \<Rightarrow> bool" where
  "float_run p us \<longleftrightarrow> float_prim p \<and> us = replicate (length us) (PrimitiveTy p)"

lemma visit_scalars_run:
  assumes "fst st = None \<or> fst st = Some p" and "float_prim p"
    and "0 \<le> snd st" and "snd st + int (length us) < max_size"
  shows "us = replicate (length us) (PrimitiveTy p) \<Longrightarrow>
    visit_scalars us st = (True, if us = [] then st else (Some p, snd st + int (length us)))"
  using assms
proof (induction us arbitrary: st)
  case (Cons u us)
  then have "hfa_prim p st = (True, Some p, snd st + 1)"
    by (auto simp: hfa_prim_def float_prim_def max_size_def intro!: wrap64_fits)
  then show ?case using Cons.IH [of "(Some p, snd st + 1)"] Cons.prems by auto
qed simp

lemma visit_scalars_ok:
  assumes "visit_scalars us st = (True, st')"
  shows "us = [] \<and> st' = st \<or>
    (\<exists>p. float_run p us \<and> us \<noteq> [] \<and> (fst st = None \<or> fst st = Some p))"
  using assms
proof (induction us st rule: visit_scalars.induct)
  case (2 p us st)
  then have ok: "fst (hfa_prim p st)" and rest: "visit_scalars us (snd (hfa_prim p st)) = (True, st')"
    by (auto split: if_splits)
  have p: "float_prim p" "fst st = None \<or> fst st = Some p" and some: "fst (snd (hfa_prim p st)) = Some p"
    using ok by (auto simp: hfa_prim_def float_prim_def split: if_splits)
  have "us = replicate (length us) (PrimitiveTy p)"
    using "2.IH" [OF ok rest] some by (auto simp: float_run_def)
  then show ?case using p by (auto simp: float_run_def)
qed auto

definition float_text :: "PrimitiveType \<Rightarrow> string" where
  "float_text p = (if p = PrimitiveF32 then ''float'' else ''double'')"

lemma homogeneous:
  assumes "flat \<sigma> t us" and "int (length us) < max_size"
  shows "homogeneousFloatAggregate \<sigma> t = Some (Some (s, c)) \<longleftrightarrow>
    (\<exists>p. float_run p us \<and> us \<noteq> [] \<and> s = float_text p \<and> c = int (length us))"
    and "homogeneousFloatAggregate \<sigma> t \<noteq> None"
proof -
  have v: "hfa_visit \<sigma> t (None, 0) = Some (visit_scalars us (None, 0))"
    using hfa_visit_scalars [OF assms(1)] .
  show "homogeneousFloatAggregate \<sigma> t \<noteq> None" by (simp add: homogeneousFloatAggregate_def v)
  have run: "visit_scalars us (None, 0) = (True, Some p, int (length us))"
    if "float_run p us" "us \<noteq> []" for p
    using visit_scalars_run [of "(None, 0)" p us] that assms(2) by (simp add: float_run_def)
  show "homogeneousFloatAggregate \<sigma> t = Some (Some (s, c)) \<longleftrightarrow>
    (\<exists>p. float_run p us \<and> us \<noteq> [] \<and> s = float_text p \<and> c = int (length us))" (is "?l \<longleftrightarrow> ?r")
  proof
    assume ?r
    then show ?l using run by (auto simp: homogeneousFloatAggregate_def v float_text_def)
  next
    assume l: ?l
    then obtain st' where st': "visit_scalars us (None, 0) = (True, st')" "snd st' \<noteq> 0"
      by (cases "visit_scalars us (None, 0)")
        (auto simp: homogeneousFloatAggregate_def v split: if_splits prod.splits)
    then obtain p where p: "float_run p us" "us \<noteq> []" using visit_scalars_ok [OF st'(1)] by auto
    then have "s = float_text p \<and> c = int (length us)"
      using l run [OF p] by (auto simp: homogeneousFloatAggregate_def v float_text_def split: if_splits)
    then show ?r using p by blast
  qed
qed

end
