(* ===== verification/Layout_Properties.thy ===== *)
theory Layout_Properties
  imports Layout_Facts
begin

text \<open>
  Properties of sizes and type texts. The witnesses run on a 64-bit Linux target.
\<close>

definition linux64 :: emitter where
  "linux64 = \<lparr>em_TargetTriple = ''x86_64-pc-linux-gnu'', em_GOARCH = ''arm64'', em_GOOS = ''darwin''\<rparr>"

lemma linux64_target [simp]:
  "pointerBytes linux64 = Some 8" "pointerBits linux64 = Some 64" "scalar64Align linux64 = 8"
  by code_simp+

text \<open>\<open>struct { u8; i64; [3]u16 }\<close> and \<open>union { u8; f64 }\<close>.\<close>

definition mixed_struct :: ty where
  "mixed_struct = StructType
     [(''a'', PrimitiveTy PrimitiveU8), (''b'', PrimitiveTy PrimitiveI64),
      (''c'', ArrayType (PrimitiveTy PrimitiveU16) 3)] False None"

definition small_union :: ty where
  "small_union = UnionType [] []
     [(''a'', PrimitiveTy PrimitiveU8), (''b'', PrimitiveTy PrimitiveF64)]"

lemma layout_array_u16: "layout e \<sigma> (ArrayType (PrimitiveTy PrimitiveU16) 3) (6, 2)"
  using layout.array [OF layout.primitive, of e PrimitiveU16 2 2 3 \<sigma>]
  by (simp add: prim_size_align_def max_size_def)

lemma layout_mixed_struct: "layout linux64 \<sigma> mixed_struct (24, 8)"
  unfolding mixed_struct_def
proof (rule layout.struct)
  show "list_all2 (layout linux64 \<sigma>)
      (map snd [(''a'', PrimitiveTy PrimitiveU8), (''b'', PrimitiveTy PrimitiveI64),
         (''c'', ArrayType (PrimitiveTy PrimitiveU16) 3)]) [(1, 1), (8, 8), (6, 2)]"
    by (simp add: layout_array_u16 layout.primitive prim_size_align_def)
qed (simp_all add: struct_layout_def max_align_def max_int_def align_up_def max_size_def)

lemma layout_small_union: "layout linux64 \<sigma> small_union (8, 8)"
  unfolding small_union_def
proof (rule layout.union)
  show "list_all2 (layout linux64 \<sigma>)
      (map snd [(''a'', PrimitiveTy PrimitiveU8), (''b'', PrimitiveTy PrimitiveF64)])
      [(1, 1), (8, 8)]"
    by (simp add: layout.primitive prim_size_align_def)
qed (simp_all add: union_layout_def max_align_def max_extent_def max_int_def align_up_def max_size_def)

text \<open>
  C8: Sizes follow C. Where the C layout of a type, stated in unbounded integers with the usual
  rounding up to alignments, has every part smaller than half the address space, the
  compiler's \<open>typeSizeAlign\<close>, which rounds by masking bits of a wrapping 64-bit integer, returns
  exactly that size and alignment; the alignment is 1, 2, 4 or 8 and divides the size, so
  elements of an array stay aligned.
\<close>

theorem sizes_follow_c:
  assumes "layout e \<sigma> t l"
  shows "typeSizeAlign e \<sigma> t = Some l \<and> is_align (snd l) \<and> snd l dvd fst l \<and> 0 \<le> fst l"
  using typeSizeAlign_layout [OF assms] by (auto simp: layout_ok_def)

theorem sizes_follow_c_witness:
  "typeSizeAlign linux64 Map.empty mixed_struct = Some (24, 8) \<and> is_align 8 \<and> (8::int) dvd 24"
  using sizes_follow_c [OF layout_mixed_struct] by simp

text \<open>
  C20: A union is stored as integers. The LLVM text of a union is an array of integers as
  wide as the union's alignment, and the array has exactly the union's size.
\<close>

theorem union_storage_is_exact:
  assumes "layout e \<sigma> (UnionType m n fs) (s, a)"
  shows "\<exists>k \<ge> 0. TypeEmit e \<sigma> (UnionType m n fs) =
      Some (array_text k (''i'' @ decimal_int (8 * a))) \<and> k * a = s"
proof -
  have t: "typeSizeAlign e \<sigma> (UnionType m n fs) = Some (s, a)" and ok: "layout_ok (s, a)"
    using typeSizeAlign_layout [OF assms] by auto
  then have a: "is_align a" "a dvd s" "0 \<le> s" by (auto simp: layout_ok_def)
  then have "wrap64 (a * 8) = 8 * a" and "go_div s a * a = s" and "0 \<le> go_div s a"
    by (auto simp: is_align_def go_div_def wrap64_def)
  then show ?thesis using t by (intro exI [of _ "go_div s a"]) (simp add: TypeEmit.simps del: typeSizeAlign_simps)
qed

theorem union_storage_is_exact_witness:
  "\<exists>k \<ge> 0. TypeEmit linux64 Map.empty small_union =
      Some (array_text k (''i'' @ decimal_int (8 * 8))) \<and> k * 8 = 8"
  using union_storage_is_exact [of linux64 Map.empty "[]" "[]" _ 8 8]
    layout_small_union [of Map.empty] by (simp only: small_union_def)

definition huge_array :: ty where
  "huge_array = ArrayType (PrimitiveTy PrimitiveI64) (2 ^ 61)"

lemma huge_array_size: "typeSizeAlign linux64 \<sigma> huge_array = Some (0, 8)"
  by (simp add: huge_array_def prim_size_align_def wrap64_def)

lemma huge_union_text:
  "TypeEmit linux64 \<sigma> (UnionType [] [] [(''a'', huge_array), (''b'', PrimitiveTy PrimitiveU8)]) =
     Some ''[1 x i64]''"
proof -
  have "alignTo 1 8 = 8" by (simp add: alignTo_align_up is_align_def align_up_def max_size_def)
  then have "typeSizeAlign linux64 \<sigma>
      (UnionType [] [] [(''a'', huge_array), (''b'', PrimitiveTy PrimitiveU8)]) = Some (8, 8)"
    using huge_array_size [of \<sigma>]
    by (simp add: typeSizeAlign.simps [of _ _ "UnionType _ _ _"]
        typeSizeAlign.simps [of _ _ "PrimitiveTy _"] prim_size_align_def wrap64_def max_int_def
        del: typeSizeAlign_simps)
  moreover have "array_text (go_div 8 8) (''i'' @ decimal_int (wrap64 (8 * 8))) = ''[1 x i64]''"
    by code_simp
  ultimately show ?thesis by (simp add: TypeEmit.simps del: typeSizeAlign_simps)
qed

text \<open>
  Sizes of huge types wrap. The size of an array is a product of 64-bit integers that is
  not checked: an array of \<open>2 ^ 61\<close> 64-bit elements has size zero, so a union of it with a byte
  is laid out in a single element, and the array is emitted beside it with its full length.
\<close>

theorem huge_sizes_wrap:
  "typeSizeAlign linux64 \<sigma> huge_array = Some (0, 8) \<and>
   TypeEmit linux64 \<sigma> (UnionType [] [] [(''a'', huge_array), (''b'', PrimitiveTy PrimitiveU8)]) =
     Some ''[1 x i64]''"
  using huge_array_size huge_union_text by simp

end
