(* ===== verification/Foreign_ABI_Properties.thy ===== *)
theory Foreign_ABI_Properties
  imports SysV_Facts AArch64_Facts Layout_Properties
begin

text \<open>
  Properties of the C lowering. The witnesses use 64-bit Linux on x86 and on ARM.
\<close>

definition linux_arm64 :: emitter where
  "linux_arm64 = \<lparr>em_TargetTriple = ''aarch64-unknown-linux-gnu'', em_GOARCH = ''amd64'', em_GOOS = ''linux''\<rparr>"

lemma generators [simp]:
  "foreignABIGenerator linux64 = Some SysVAMD64" "foreignABIGenerator linux_arm64 = Some (Aarch64 True)"
  by code_simp+

lemma linux_arm64_target [simp]:
  "pointerBytes linux_arm64 = Some 8" "pointerBits linux_arm64 = Some 64" "scalar64Align linux_arm64 = 8"
  by code_simp+

lemma typeSizeAlign_Underlying: "Underlying \<sigma> t = Some u \<Longrightarrow> \<not> is_named u \<Longrightarrow> typeSizeAlign e \<sigma> u = typeSizeAlign e \<sigma> t"
  by (rule typeSizeAlign_named [symmetric])

lemma abi_aggregate_named [simp]: "abi_aggregate u \<Longrightarrow> \<not> is_named u"
  by (cases u) auto

text \<open>
  The lowering fits the pointer width. Whatever the triple says, a target that is given the
  x86-64 rules has 64-bit pointers and one that is given the i386 rules has 32-bit pointers.
\<close>

theorem generator_fits_pointer_width:
  assumes "foreignABIGenerator e = Some g"
  shows "(g = SysVAMD64 \<or> g = Win64 \<longrightarrow> pointerBits e = Some 64) \<and>
    (g = SysVI386 \<or> g = Win32 \<longrightarrow> pointerBits e = Some 32)"
proof -
  have "Arch e (targetTriple e) = targetArch e" by (simp add: targetArch_def)
  moreover have "targetArch e \<in> set x86_32" if "g = SysVI386 \<or> g = Win32"
    using assms that by (auto simp: foreignABIGenerator_def Let_def split: if_splits)
  moreover have "targetArch e = ''x86_64'' \<or> targetArch e = ''amd64''" if "g = SysVAMD64 \<or> g = Win64"
    using assms that by (auto simp: foreignABIGenerator_def Let_def split: if_splits)
  ultimately show ?thesis
    by (auto simp: pointerBits_def PointerBits_def x86_32_def arch32_def arch64_def)
qed

theorem generator_fits_pointer_width_witness: "pointerBits linux64 = Some 64"
  using generator_fits_pointer_width [of linux64 SysVAMD64] by simp

definition passes :: "emitter \<Rightarrow> alias_store \<Rightarrow> ty \<Rightarrow> int \<Rightarrow> bool" where
  "passes e \<sigma> t n \<longleftrightarrow> (\<exists>u a. Underlying \<sigma> t = Some u \<and> abi_aggregate u \<and>
     typeSizeAlign e \<sigma> t = Some (n, a) \<and> 0 \<le> n \<and> n < max_size)"

lemma param_chunks_contract:
  assumes "typeSizeAlign e \<sigma> u = Some (n, a)" and "0 \<le> n" and "n < max_size"
    and "aggregateParamChunks e \<sigma> g u = Some cs"
  shows "by_address cs \<or> spilled_safely n cs"
  using assms
  by (cases g) (auto dest: aarch64.params_spill sysvamd64.params_spill sysvi386.params_spill
      win32.params_spill win64.params_spill)

lemma return_chunks_contract:
  assumes "typeSizeAlign e \<sigma> u = Some (n, a)" and "0 \<le> n" and "n < max_size"
    and "requiresSRet e \<sigma> g u = Some False" and "aggregateReturnChunks e \<sigma> g u = Some cs"
  shows "spilled_safely n cs \<and> length cs \<le> 2"
  using assms
  by (cases g) (auto dest: aarch64.returns_spill sysvamd64.returns_spill win32.returns_spill
      win64.returns_spill)

text \<open>\<open>struct { f32; f32; i32 }\<close>, twelve bytes.\<close>

definition float_struct :: ty where
  "float_struct = StructType
     [(''x'', PrimitiveTy PrimitiveF32), (''y'', PrimitiveTy PrimitiveF32),
      (''n'', PrimitiveTy PrimitiveI32)] False None"

lemma layout_float_struct: "layout linux64 \<sigma> float_struct (12, 4)"
  unfolding float_struct_def
proof (rule layout.struct)
  show "list_all2 (layout linux64 \<sigma>)
      (map snd [(''x'', PrimitiveTy PrimitiveF32), (''y'', PrimitiveTy PrimitiveF32),
         (''n'', PrimitiveTy PrimitiveI32)]) [(4, 4), (4, 4), (4, 4)]"
    by (simp add: layout.primitive prim_size_align_def)
qed (simp_all add: struct_layout_def max_align_def max_int_def align_up_def max_size_def)

lemma float_struct_passes: "passes linux64 Map.empty float_struct 12"
  using typeSizeAlign_layout [OF layout_float_struct [of Map.empty]]
  by (auto simp: passes_def float_struct_def max_size_def)

lemma float_struct_chunks:
  "foreignABIChunks linux64 Map.empty float_struct =
     Some [chunk ''<2 x float>'' 0 8, chunk ''i32'' 8 4]"
  "foreignABIReturnUsesSRet linux64 Map.empty float_struct = Some False"
  by code_simp+

text \<open>
  C11: Arguments arrive whole. Under every one of the five rules, an aggregate argument is passed by
  the address of a copy, or in chunks such that every byte of the value is in exactly one chunk
  and every chunk lies inside the scratch memory it is loaded from.
\<close>

theorem arguments_arrive_whole:
  assumes "passes e \<sigma> t n" and "foreignABIChunks e \<sigma> t = Some cs"
  shows "by_address cs \<or> spilled_safely n cs"
proof -
  obtain u a where u: "Underlying \<sigma> t = Some u" "abi_aggregate u" "typeSizeAlign e \<sigma> t = Some (n, a)"
    "0 \<le> n" "n < max_size" using assms(1) by (auto simp: passes_def)
  obtain g where "aggregateParamChunks e \<sigma> g u = Some cs"
    using assms(2) u by (auto simp: foreignABIChunks_def foreignABIAggregate_def split: option.splits)
  moreover have "typeSizeAlign e \<sigma> u = Some (n, a)"
    using u(3) typeSizeAlign_Underlying [OF u(1)] u(2) by simp
  ultimately show ?thesis using param_chunks_contract u(4,5) by blast
qed

theorem arguments_arrive_whole_witness:
  "spilled_safely 12 [chunk ''<2 x float>'' 0 8, chunk ''i32'' 8 4]"
  using arguments_arrive_whole [OF float_struct_passes float_struct_chunks(1)]
  by (auto simp: by_address_def pointer_chunk_def chunk_def)

text \<open>
  C29: Results arrive whole. An aggregate result that is not written through a result pointer is
  returned in at most two chunks that cover it in the same way, and the LLVM return type names
  all of them; so no part of it is lost when it is put together after the call.
\<close>

theorem results_arrive_whole:
  assumes "passes e \<sigma> t n" and "foreignABIReturnUsesSRet e \<sigma> t = Some False"
    and "foreignABIReturnChunks e \<sigma> t = Some cs"
  shows "spilled_safely n cs \<and> length cs \<le> 2 \<and>
    (cs \<noteq> [] \<longrightarrow> foreignABIReturnType e \<sigma> t =
       Some (if length cs = 1 then typeName (cs ! 0)
             else ''{ '' @ typeName (cs ! 0) @ '', '' @ typeName (cs ! 1) @ '' }''))"
proof -
  obtain u a where u: "Underlying \<sigma> t = Some u" "abi_aggregate u" "typeSizeAlign e \<sigma> t = Some (n, a)"
    "0 \<le> n" "n < max_size" using assms(1) by (auto simp: passes_def)
  obtain g where g: "foreignABIGenerator e = Some g" and cs: "aggregateReturnChunks e \<sigma> g u = Some cs"
    using assms(3) u by (auto simp: foreignABIReturnChunks_def foreignABIAggregate_def split: option.splits)
  have "requiresSRet e \<sigma> g u = Some False"
    using assms(2) u g by (simp add: foreignABIReturnUsesSRet_def)
  moreover have "typeSizeAlign e \<sigma> u = Some (n, a)"
    using u(3) typeSizeAlign_Underlying [OF u(1)] u(2) by simp
  ultimately have "spilled_safely n cs \<and> length cs \<le> 2" using return_chunks_contract u(4,5) cs by blast
  then show ?thesis
    using assms(2,3)
    by (auto simp: foreignABIReturnType_def length_Suc_conv le_Suc_eq numeral_2_eq_2)
qed

theorem results_arrive_whole_witness:
  "foreignABIReturnType linux64 Map.empty float_struct = Some ''{ <2 x float>, i32 }''"
proof -
  have "foreignABIReturnChunks linux64 Map.empty float_struct =
      Some [chunk ''<2 x float>'' 0 8, chunk ''i32'' 8 4]" by code_simp
  from results_arrive_whole [OF float_struct_passes float_struct_chunks(2) this]
  show ?thesis by simp
qed

text \<open>
  C12: Eightbytes are classified by what lies in them. On x86-64 outside Windows, classifying an
  aggregate of at most two eightbytes without trait pointers and \<open>void\<close> parts never fails, and an
  eightbyte is INTEGER exactly when some integer, pointer, enum, flags or slice scalar
  overlaps it, SSE exactly when only floats do, and unclassified when it is padding only.
  The scalars and their offsets are those of the C layout.
\<close>

theorem eightbytes_follow_their_scalars:
  assumes "foreignABIGenerator e = Some SysVAMD64" and "layout e \<sigma> t (n, a)" and "n \<le> 16"
    and "c_data \<sigma> t" and "k = nat ((n + 7) div 8)"
  shows "\<exists>st. classifySysVAggregate e \<sigma> t 0 (replicate k abiClassNone, replicate k []) = Some st \<and>
    length (fst st) = k \<and>
    (\<forall>i < k. fst st ! i =
       (if int_touches (scalars_of e \<sigma> t 0) (int i) then abiClassInteger
        else if float_touches (scalars_of e \<sigma> t 0) (int i) then abiClassSSE else abiClassNone))"
proof -
  let ?st = "(replicate k abiClassNone, replicate k [] :: PrimitiveType list list)"
  have "pointerBits e = Some 64" using generator_fits_pointer_width [OF assms(1)] by simp
  then have "part_ok e \<sigma> t (n, a)" using assms(2) by (intro classification) (simp add: pointerBytes_def)
  moreover have "0 \<le> n" using typeSizeAlign_layout [OF assms(2)] by (simp add: layout_ok_def)
  then have "room 0 (fst (n, a)) ?st" using assms(3,5) by (auto simp: room_def max_size_def)
  ultimately obtain st where "classifySysVAggregate e \<sigma> t 0 ?st = Some st"
    and m: "marked (scalars_of e \<sigma> t 0) ?st st"
    using assms(4) classifiesD unfolding part_ok_def by blast
  moreover have "length (fst st) = k" using m by (simp add: marked_def same_shape_def)
  moreover have "\<forall>i < k. fst st ! i = class_after (scalars_of e \<sigma> t 0) (int i) abiClassNone"
    using m by (simp add: marked_def)
  ultimately show ?thesis by (auto simp: class_after_def)
qed

theorem eightbytes_follow_their_scalars_witness:
  "\<exists>st. classifySysVAggregate linux64 Map.empty float_struct 0
      ([abiClassNone, abiClassNone], [[], []]) = Some st \<and> length (fst st) = 2"
  using eightbytes_follow_their_scalars [of linux64 Map.empty float_struct 12 4 2,
      OF _ layout_float_struct]
  by (force simp: float_struct_def c_data_simps numeral_2_eq_2)

text \<open>
  C30: Homogeneous float aggregates. On ARM64 \<open>homogeneousFloatAggregate\<close> answers a float type and
  a count exactly when the aggregate, flattened into its scalars, is a non-empty run of that many
  scalars of that one float type; a union or a slice anywhere makes the answer no.
\<close>

theorem homogeneous_aggregates:
  assumes "flat \<sigma> t us" and "int (length us) < max_size"
  shows "homogeneousFloatAggregate \<sigma> t = Some
    (if us \<noteq> [] \<and> float_run PrimitiveF32 us then Some (''float'', int (length us))
     else if us \<noteq> [] \<and> float_run PrimitiveF64 us then Some (''double'', int (length us))
     else None)"
proof -
  obtain r where r: "homogeneousFloatAggregate \<sigma> t = Some r" using homogeneous(2) [OF assms] by blast
  note iff = homogeneous(1) [OF assms]
  have only: "float_run p us \<Longrightarrow> p = PrimitiveF32 \<or> p = PrimitiveF64" for p
    by (simp add: float_run_def float_prim_def)
  show ?thesis
  proof (cases r)
    case None
    then have "\<not> (float_run p us \<and> us \<noteq> [])" for p using iff r by auto
    then show ?thesis using r None by auto
  next
    case (Some sc)
    then obtain p where p: "float_run p us" "us \<noteq> []" "sc = (float_text p, int (length us))"
      using iff [of "fst sc" "snd sc"] r by (auto simp: prod_eq_iff)
    moreover have "\<not> (float_run PrimitiveF32 us \<and> float_run PrimitiveF64 us)"
      using p(2) by (cases us) (auto simp: float_run_def)
    ultimately show ?thesis using r Some only [OF p(1)] by (auto simp: float_text_def)
  qed
qed

definition three_doubles :: ty where
  "three_doubles = StructType [(''a'', ArrayType (PrimitiveTy PrimitiveF64) 2), (''b'', PrimitiveTy PrimitiveF64)] False None"

lemma flat_three_doubles: "flat \<sigma> three_doubles (replicate 3 (PrimitiveTy PrimitiveF64))"
proof -
  have f64: "flat \<sigma> (PrimitiveTy PrimitiveF64) [PrimitiveTy PrimitiveF64]"
    by (rule flat.leaf) simp_all
  have "flat \<sigma> (ArrayType (PrimitiveTy PrimitiveF64) 2) (concat (replicate (nat 2) [PrimitiveTy PrimitiveF64]))"
    by (rule flat.array [OF _ f64]) simp
  then have "flat \<sigma> three_doubles (concat [replicate 2 (PrimitiveTy PrimitiveF64), [PrimitiveTy PrimitiveF64]])"
    using flat.struct [of \<sigma> three_doubles
        "[(''a'', ArrayType (PrimitiveTy PrimitiveF64) 2), (''b'', PrimitiveTy PrimitiveF64)]"
        False None "[replicate 2 (PrimitiveTy PrimitiveF64), [PrimitiveTy PrimitiveF64]]"]
    by (simp add: three_doubles_def f64 numeral_2_eq_2)
  then show ?thesis by (simp add: numeral_2_eq_2 numeral_3_eq_3)
qed

theorem homogeneous_aggregates_witness:
  "homogeneousFloatAggregate Map.empty three_doubles = Some (Some (''double'', 3))"
  using homogeneous_aggregates [OF flat_three_doubles [of Map.empty]]
  by (simp add: float_run_def float_prim_def max_size_def)

end
