(* ===== verification/Attributes.thy ===== *)
theory Attributes
  imports Prelude
begin

text \<open>
  Attributes of declarations, \<^verbatim>\<open>src/attributes/attributes.go\<close>. The Go interface \<open>Attribute\<close> is the
  datatype of its implementations; \<open>ParsedLinkAttribute\<close> is the one the parser declares
  (\<^verbatim>\<open>src/parser/node.go\<close>), whose items are syntax that is resolved before it is used.
\<close>

datatype AttributeType =
    AttributeTypeNoReturn
  | AttributeTypeInline
  | AttributeTypeNoInline
  | AttributeTypeForeign
  | AttributeTypeLink
  | AttributeTypeExport
  | AttributeTypePacked

datatype ForeignABI = ForeignABIC | ForeignABIQK

datatype LinkKind = LinkSystem | LinkPath | LinkSearchPath | LinkFramework

record Link =
  Kind :: LinkKind
  Value :: string

datatype Attribute =
    AttributeNoReturn
  | AttributeInline
  | AttributeNoInline
  | AttributePacked
  | FunctionAttributeForeign string ForeignABI
  | ModuleAttributeLink "Link list"
  | FunctionAttributeExport string ForeignABI
  | ParsedLinkAttribute

type_synonym Attributes = "Attribute list"

fun GetType :: "Attribute \<Rightarrow> AttributeType" where
  "GetType AttributeNoReturn = AttributeTypeNoReturn"
| "GetType AttributeInline = AttributeTypeInline"
| "GetType AttributeNoInline = AttributeTypeNoInline"
| "GetType AttributePacked = AttributeTypePacked"
| "GetType (FunctionAttributeForeign from abi) = AttributeTypeForeign"
| "GetType (ModuleAttributeLink ls) = AttributeTypeLink"
| "GetType (FunctionAttributeExport as abi) = AttributeTypeExport"
| "GetType ParsedLinkAttribute = AttributeTypeLink"

fun Get :: "Attributes \<Rightarrow> AttributeType \<Rightarrow> Attribute option" where
  "Get [] ty = None"
| "Get (a # as) ty = (if GetType a = ty then Some a else Get as ty)"

definition UsesCABI :: "Attributes \<Rightarrow> bool" where
  "UsesCABI attrs =
    (case Get attrs AttributeTypeForeign of
       Some (FunctionAttributeForeign from abi) \<Rightarrow> abi = ForeignABIC
     | _ \<Rightarrow>
       (case Get attrs AttributeTypeExport of
          Some (FunctionAttributeExport as abi) \<Rightarrow> abi = ForeignABIC
        | _ \<Rightarrow> False))"

lemma Get_Some: "Get as ty = Some a \<Longrightarrow> a \<in> set as \<and> GetType a = ty"
  by (induction as) (auto split: if_splits)

lemma Get_None_iff: "Get as ty = None \<longleftrightarrow> (\<forall>a \<in> set as. GetType a \<noteq> ty)"
  by (induction as) auto

end
