(* ===== verification/Modules.thy ===== *)
theory Modules
  imports Attributes
begin

text \<open>
  Source files grouped into modules, and the order in which modules are compiled:
  \<^verbatim>\<open>src/loader/moduleinfo.go\<close> and \<^verbatim>\<open>src/loader/dependency.go\<close>. Go maps are maps with finite
  domain; a loop over a map takes the order of the keys as an argument. Errors are values.
  The path functions are those of Go's \<open>path/filepath\<close> on Unix.
\<close>

section \<open>Paths\<close>

fun split_slash :: "string \<Rightarrow> string list" where
  "split_slash [] = [[]]"
| "split_slash (c # cs) =
    (if c = CHR ''/'' then [] # split_slash cs
     else (c # hd (split_slash cs)) # tl (split_slash cs))"

definition IsAbs :: "string \<Rightarrow> bool" where
  "IsAbs p \<longleftrightarrow> (case p of [] \<Rightarrow> False | c # _ \<Rightarrow> c = CHR ''/'')"

definition clean_part :: "bool \<Rightarrow> string list \<Rightarrow> string \<Rightarrow> string list" where
  "clean_part rooted stack part =
    (if part = [] \<or> part = ''.'' then stack
     else if part = ''..'' then
       (case stack of
          [] \<Rightarrow> if rooted then [] else [''..'']
        | x # xs \<Rightarrow> if x = ''..'' then ''..'' # stack else xs)
     else part # stack)"

definition clean_parts :: "bool \<Rightarrow> string list \<Rightarrow> string list" where
  "clean_parts rooted parts = rev (foldl (clean_part rooted) [] parts)"

definition Clean :: "string \<Rightarrow> string" where
  "Clean p =
    (let parts = clean_parts (IsAbs p) (split_slash p)
     in if IsAbs p then CHR ''/'' # join_strings ''/'' parts
        else if parts = [] then ''.'' else join_strings ''/'' parts)"

definition Dir :: "string \<Rightarrow> string" where
  "Dir p = Clean (rev (dropWhile (\<lambda>c. c \<noteq> CHR ''/'') (rev p)))"

definition Join :: "string \<Rightarrow> string \<Rightarrow> string" where
  "Join a b =
    (if a \<noteq> [] then Clean (a @ ''/'' @ b) else if b \<noteq> [] then Clean b else [])"

fun HasPrefix :: "string \<Rightarrow> string \<Rightarrow> bool" where
  "HasPrefix s [] = True"
| "HasPrefix [] (p # ps) = False"
| "HasPrefix (c # s) (p # ps) \<longleftrightarrow> c = p \<and> HasPrefix s ps"

section \<open>Top-level syntax\<close>

text \<open>The nodes the loader looks at; \<open>'n\<close> are all others.\<close>

datatype 'n top_node =
    ModuleNode (mod_Name: string) (mod_Attributes: Attributes) (mod_FilePath: string)
  | ImportNode (imp_Modules: "string list") (imp_ResolvedModules: "string list")
  | OtherNode 'n

type_synonym 'n root = "'n top_node list"

record 'n PartialModuleInfo =
  p_Path :: string
  p_Name :: string
  p_Imports :: "string list"
  p_Root :: "'n root"
  p_Links :: "Link list"
  p_Trusted :: bool

record 'n ModuleInfo =
  Path :: string
  Name :: string
  Imports :: "string list"
  Root :: "'n root"
  Links :: "Link list"
  Trusted :: bool

datatype loader_error =
    ModuleNotFirst
  | MultipleModules
  | ModuleMissing
  | ReservedName string
  | OutsideReserved string
  | TwoModules string string string
  | MixedTrust string
  | PrimaryNotFound string
  | CircularImport string
  | UnknownPackage string
  | UnknownImport string string

section \<open>Collecting\<close>

definition resolve_link :: "string \<Rightarrow> Link \<Rightarrow> Link" where
  "resolve_link file link =
    (let is_path = Kind link = LinkPath \<or> Kind link = LinkSearchPath;
         link = (if is_path \<and> \<not> IsAbs (Value link)
                 then link\<lparr>Value := Join (Dir file) (Value link)\<rparr> else link)
     in if is_path then link\<lparr>Value := Clean (Value link)\<rparr> else link)"

fun module_links :: "string \<Rightarrow> Attributes \<Rightarrow> Link list" where
  "module_links file [] = []"
| "module_links file (a # as) =
    (case a of
       ModuleAttributeLink ls \<Rightarrow> map (resolve_link file) ls @ module_links file as
     | _ \<Rightarrow> module_links file as)"

fun resolved_imports :: "string list \<Rightarrow> string list \<Rightarrow> string list" where
  "resolved_imports [] rs = []"
| "resolved_imports (m # ms) [] = m # resolved_imports ms []"
| "resolved_imports (m # ms) (r # rs) = (if r \<noteq> [] then r else m) # resolved_imports ms rs"

record collect_state =
  cs_name :: string
  cs_imports :: "string list"
  cs_seenModule :: bool
  cs_links :: "Link list"

fun collect_loop ::
  "nat \<Rightarrow> 'n top_node list \<Rightarrow> collect_state \<Rightarrow> loader_error + collect_state" where
  "collect_loop i [] st = Inr st"
| "collect_loop i (ModuleNode n as file # body) st =
    (if i \<noteq> 0 then Inl ModuleNotFirst
     else if cs_seenModule st then Inl MultipleModules
     else collect_loop (i + 1) body
       (st\<lparr>cs_seenModule := True, cs_name := n, cs_links := cs_links st @ module_links file as\<rparr>))"
| "collect_loop i (ImportNode ms rs # body) st =
    collect_loop (i + 1) body (st\<lparr>cs_imports := cs_imports st @ resolved_imports ms rs\<rparr>)"
| "collect_loop i (OtherNode n # body) st = collect_loop (i + 1) body st"

definition reserved :: "string \<Rightarrow> bool" where
  "reserved name \<longleftrightarrow> name = ''std'' \<or> HasPrefix name ''std.''"

definition CollectModuleInfo ::
  "'n root \<Rightarrow> bool \<Rightarrow> loader_error + 'n PartialModuleInfo" where
  "CollectModuleInfo root trusted =
    (case collect_loop 0 root \<lparr>cs_name = [], cs_imports = [], cs_seenModule = False, cs_links = []\<rparr> of
       Inl err \<Rightarrow> Inl err
     | Inr st \<Rightarrow>
         if \<not> cs_seenModule st \<or> cs_name st = [] then Inl ModuleMissing
         else if reserved (cs_name st) \<and> \<not> trusted then Inl (ReservedName (cs_name st))
         else if trusted \<and> cs_name st \<noteq> ''std'' \<and> \<not> HasPrefix (cs_name st) ''std.''
         then Inl (OutsideReserved (cs_name st))
         else Inr \<lparr>p_Path = [], p_Name = cs_name st, p_Imports = cs_imports st, p_Root = root,
                p_Links = cs_links st, p_Trusted = trusted\<rparr>)"

section \<open>Merging\<close>

fun unique_loop :: "string list \<Rightarrow> string list \<Rightarrow> string list \<Rightarrow> string list" where
  "unique_loop seen out [] = out"
| "unique_loop seen out (v # vs) =
    (if v \<notin> set seen then unique_loop (v # seen) (out @ [v]) vs else unique_loop seen out vs)"

definition unique :: "string list \<Rightarrow> string list" where
  "unique xs = unique_loop [] [] xs"

definition mergeImports :: "string list \<Rightarrow> string list \<Rightarrow> string list" where
  "mergeImports a b = unique (a @ b)"

definition mergeModuleRoot :: "'n root \<Rightarrow> 'n root \<Rightarrow> 'n root" where
  "mergeModuleRoot destination source = destination @ filter (\<lambda>n. \<not> is_ModuleNode n) source"

type_synonym 'n modules = "string \<rightharpoonup> 'n ModuleInfo"

definition add_partial :: "'n modules \<Rightarrow> 'n PartialModuleInfo \<Rightarrow> loader_error + 'n modules" where
  "add_partial modules p =
    (let path = (if p_Path p = [] then p_Name p else p_Path p)
     in case modules path of
          Some existing \<Rightarrow>
            if Name existing \<noteq> p_Name p then Inl (TwoModules path (Name existing) (p_Name p))
            else if Trusted existing \<noteq> p_Trusted p then Inl (MixedTrust path)
            else Inr (modules(path \<mapsto> existing
              \<lparr>Root := mergeModuleRoot (Root existing) (p_Root p),
               Imports := mergeImports (Imports existing) (p_Imports p),
               Links := Links existing @ p_Links p\<rparr>))
        | None \<Rightarrow>
            Inr (modules(path \<mapsto>
              \<lparr>Path = path, Name = p_Name p, Imports = unique (p_Imports p), Root = p_Root p,
               Links = p_Links p, Trusted = p_Trusted p\<rparr>)))"

fun build_loop :: "'n modules \<Rightarrow> 'n PartialModuleInfo list \<Rightarrow> loader_error + 'n modules" where
  "build_loop modules [] = Inr modules"
| "build_loop modules (p # ps) =
    (case add_partial modules p of Inl err \<Rightarrow> Inl err | Inr modules' \<Rightarrow> build_loop modules' ps)"

definition BuildModules :: "'n PartialModuleInfo list \<Rightarrow> loader_error + 'n modules" where
  "BuildModules partials = build_loop Map.empty partials"

section \<open>Ordering\<close>

datatype VisitedStatusKind = VisitedStatusUnseen | VisitedStatusVisiting | VisitedStatusDone

type_synonym visit_state = "(string \<Rightarrow> VisitedStatusKind) \<times> string list"

type_synonym visitor = "string \<Rightarrow> visit_state \<Rightarrow> (loader_error + visit_state) run"

text \<open>
  The body of the two depth-first searches. \<open>imports\<close> looks up a package;
  \<open>TopoSort\<close>, which has no unknown packages, passes a total one.
\<close>

fun visit_deps ::
  "(string \<Rightarrow> string list option) \<Rightarrow> visitor \<Rightarrow> string \<Rightarrow> string list \<Rightarrow> visit_state \<Rightarrow>
   (loader_error + visit_state) run" where
  "visit_deps imports visit name [] st = Some (Inr st)"
| "visit_deps imports visit name (d # ds) st =
    (if imports d = None then Some (Inl (UnknownImport name d))
     else do {
       r \<leftarrow> visit d st;
       case r of Inl err \<Rightarrow> Some (Inl err) | Inr st' \<Rightarrow> visit_deps imports visit name ds st' })"

definition visit_step ::
  "(string \<Rightarrow> string list option) \<Rightarrow> visitor \<Rightarrow> string \<Rightarrow> visit_state \<Rightarrow>
   (loader_error + visit_state) run" where
  "visit_step imports visit name st =
    (case fst st name of
       VisitedStatusVisiting \<Rightarrow> Some (Inl (CircularImport name))
     | VisitedStatusDone \<Rightarrow> Some (Inr st)
     | VisitedStatusUnseen \<Rightarrow>
         (case imports name of
            None \<Rightarrow> Some (Inl (UnknownPackage name))
          | Some deps \<Rightarrow> do {
              r \<leftarrow> visit_deps imports visit name deps ((fst st)(name := VisitedStatusVisiting), snd st);
              case r of
                Inl err \<Rightarrow> Some (Inl err)
              | Inr st' \<Rightarrow> Some (Inr ((fst st')(name := VisitedStatusDone), snd st' @ [name])) }))"

lemma visit_deps_mono [run_mono]:
  assumes "\<And>n s. mono_option (\<lambda>f. F f n s)"
  shows "mono_option (\<lambda>f. visit_deps imports (F f) name ds st)"
proof (induction ds arbitrary: st)
  case (Cons d ds)
  have "mono_option (\<lambda>f. case_sum (\<lambda>err. Some (Inl err)) (visit_deps imports (F f) name ds) r)"
    for r by (cases r) (simp_all add: option.const_mono Cons.IH)
  then have "mono_option (\<lambda>f. Option.bind (F f d st)
      (case_sum (\<lambda>err. Some (Inl err)) (visit_deps imports (F f) name ds)))"
    by (intro bind_mono assms)
  then show ?case by (cases "imports d") (simp_all add: option.const_mono)
qed (simp add: option.const_mono)

lemma visit_step_mono [partial_function_mono]:
  assumes "\<And>n s. mono_option (\<lambda>f. F f n s)"
  shows "mono_option (\<lambda>f. visit_step imports (F f) name st)"
  unfolding visit_step_def
  by (cases "fst st name"; cases "imports name")
    (simp_all add: bind_mono option.const_mono visit_deps_mono assms)

partial_function (option) visit :: "(string \<Rightarrow> string list option) \<Rightarrow> visitor" where
  "visit imports name st = visit_step imports (visit imports) name st"

declare visit.simps [code]

abbreviation unseen_state :: visit_state where
  "unseen_state \<equiv> (\<lambda>_. VisitedStatusUnseen, [])"

definition ModuleDependencyOrder ::
  "'n modules \<Rightarrow> string \<Rightarrow> (loader_error + string list) run" where
  "ModuleDependencyOrder mods primary =
    (if mods primary = None then Some (Inl (PrimaryNotFound primary))
     else map_option (map_sum id snd)
       (visit (\<lambda>name. map_option Imports (mods name)) primary unseen_state))"

text \<open>\<open>BuildDependencyGraph\<close> and \<open>TopoSort\<close> loop over a map, in the order \<open>names\<close>.\<close>

fun first_unknown :: "'n modules \<Rightarrow> string \<Rightarrow> string list \<Rightarrow> loader_error option" where
  "first_unknown mods name [] = None"
| "first_unknown mods name (d # ds) =
    (if mods d = None then Some (UnknownImport name d) else first_unknown mods name ds)"

fun graph_loop ::
  "'n modules \<Rightarrow> (string \<rightharpoonup> string list) \<Rightarrow> string list \<Rightarrow>
   loader_error + (string \<rightharpoonup> string list)" where
  "graph_loop mods graph [] = Inr graph"
| "graph_loop mods graph (name # names) =
    (case mods name of
       None \<Rightarrow> graph_loop mods graph names
     | Some info \<Rightarrow>
         (case first_unknown mods name (Imports info) of
            Some err \<Rightarrow> Inl err
          | None \<Rightarrow> graph_loop mods (graph(name \<mapsto> Imports info)) names))"

definition BuildDependencyGraph ::
  "'n modules \<Rightarrow> string list \<Rightarrow> loader_error + (string \<rightharpoonup> string list)" where
  "BuildDependencyGraph mods names = graph_loop mods Map.empty names"

definition graph_deps :: "(string \<rightharpoonup> string list) \<Rightarrow> string \<Rightarrow> string list option" where
  "graph_deps graph n = Some (case graph n of None \<Rightarrow> [] | Some ds \<Rightarrow> ds)"

fun topo_loop ::
  "(string \<rightharpoonup> string list) \<Rightarrow> string list \<Rightarrow> visit_state \<Rightarrow> (loader_error + visit_state) run" where
  "topo_loop graph [] st = Some (Inr st)"
| "topo_loop graph (n # ns) st =
    (if fst st n = VisitedStatusUnseen then do {
       r \<leftarrow> visit (graph_deps graph) n st;
       case r of Inl err \<Rightarrow> Some (Inl err) | Inr st' \<Rightarrow> topo_loop graph ns st' }
     else topo_loop graph ns st)"

definition TopoSort ::
  "(string \<rightharpoonup> string list) \<Rightarrow> string list \<Rightarrow> (loader_error + string list) run" where
  "TopoSort graph names = map_option (map_sum id snd) (topo_loop graph names unseen_state)"

end
