(* ===== verification/Modules_Facts.thy ===== *)
theory Modules_Facts
  imports Modules
begin

text \<open>
  The depth-first search of the module order: it returns, and it succeeds exactly when no
  package reachable from the start is unknown or imports itself around a cycle; the order it
  then gives lists every reachable package once, after all of its imports.
\<close>

definition import_edges :: "(string \<Rightarrow> string list option) \<Rightarrow> (string \<times> string) set" where
  "import_edges imports = {(m, d). \<exists>ds. imports m = Some ds \<and> d \<in> set ds}"

definition bad_from :: "(string \<Rightarrow> string list option) \<Rightarrow> string \<Rightarrow> bool" where
  "bad_from imports p \<longleftrightarrow>
     (\<exists>m. (p, m) \<in> (import_edges imports)\<^sup>* \<and> (imports m = None \<or> (m, m) \<in> (import_edges imports)\<^sup>+))"

definition done_set :: "visit_state \<Rightarrow> string set" where
  "done_set st = {n. fst st n = VisitedStatusDone}"

definition open_set :: "visit_state \<Rightarrow> string set" where
  "open_set st = {n. fst st n = VisitedStatusVisiting}"

definition unseen :: "string set \<Rightarrow> visit_state \<Rightarrow> string set" where
  "unseen V st = {n \<in> V. fst st n = VisitedStatusUnseen}"

fun imports_first :: "(string \<Rightarrow> string list option) \<Rightarrow> string list \<Rightarrow> bool" where
  "imports_first imports [] = True"
| "imports_first imports (n # before) \<longleftrightarrow>
     (\<exists>ds. imports n = Some ds \<and> set ds \<subseteq> set before) \<and> n \<notin> set before \<and>
     imports_first imports before"

text \<open>The invariant of the search; the order is read backwards.\<close>

definition search_inv :: "(string \<Rightarrow> string list option) \<Rightarrow> visit_state \<Rightarrow> bool" where
  "search_inv imports st \<longleftrightarrow> imports_first imports (rev (snd st)) \<and> done_set st = set (snd st)"

definition extends :: "visit_state \<Rightarrow> visit_state \<Rightarrow> bool" where
  "extends st st' \<longleftrightarrow> open_set st' = open_set st \<and> done_set st \<subseteq> done_set st'"

lemma extends_refl [simp]: "extends st st"
  by (simp add: extends_def)

lemma extends_trans: "extends s t \<Longrightarrow> extends t u \<Longrightarrow> extends s u"
  by (auto simp: extends_def)

lemma extends_unseen: "extends st st' \<Longrightarrow> unseen V st' \<subseteq> unseen V st"
proof
  fix n assume e: "extends st st'" and "n \<in> unseen V st'"
  then have "n \<notin> open_set st'" "n \<notin> done_set st'" "n \<in> V"
    by (auto simp: unseen_def open_set_def done_set_def)
  then have "n \<notin> open_set st" "n \<notin> done_set st" using e by (auto simp: extends_def)
  then show "n \<in> unseen V st"
    using \<open>n \<in> V\<close> by (cases "fst st n") (auto simp: unseen_def open_set_def done_set_def)
qed

text \<open>What a visit of \<open>name\<close> promises, from a state whose open packages all lead to \<open>name\<close>.\<close>

definition visit_result ::
  "(string \<Rightarrow> string list option) \<Rightarrow> string \<Rightarrow> string set \<Rightarrow> visit_state \<Rightarrow>
   (loader_error + visit_state) run \<Rightarrow> bool" where
  "visit_result imports p N st r \<longleftrightarrow>
     (case r of
        None \<Rightarrow> False
      | Some (Inl err) \<Rightarrow> bad_from imports p
      | Some (Inr st') \<Rightarrow> search_inv imports st' \<and> extends st st' \<and> N \<subseteq> done_set st' \<and>
          done_set st' \<subseteq> done_set st \<union> {m. \<exists>n \<in> N. (n, m) \<in> (import_edges imports)\<^sup>*})"

lemma visit_result_Cons:
  assumes "extends st s" and "d \<in> done_set s"
    and "done_set s \<subseteq> done_set st \<union> {m. (d, m) \<in> (import_edges imports)\<^sup>*}"
    and "visit_result imports p (set ds) s r"
  shows "visit_result imports p (set (d # ds)) st r"
proof (cases r)
  case None
  then show ?thesis using assms(4) by (simp add: visit_result_def)
next
  case (Some q)
  show ?thesis
  proof (cases q)
    case (Inl err)
    then show ?thesis using assms(4) Some by (simp add: visit_result_def)
  next
    case (Inr s')
    then have s': "search_inv imports s'" "extends s s'" "set ds \<subseteq> done_set s'"
      "done_set s' \<subseteq> done_set s \<union> {m. \<exists>n \<in> set ds. (n, m) \<in> (import_edges imports)\<^sup>*}"
      using assms(4) Some by (simp_all add: visit_result_def)
    have "d \<in> done_set s'" using assms(2) s'(2) by (auto simp: extends_def)
    moreover have "done_set s' \<subseteq> done_set st \<union>
        {m. \<exists>n \<in> set (d # ds). (n, m) \<in> (import_edges imports)\<^sup>*}"
      using assms(3) s'(4) by auto
    ultimately show ?thesis
      using Some Inr s'(1,3) extends_trans [OF assms(1) s'(2)] by (simp add: visit_result_def)
  qed
qed

lemma visit_deps_result:
  assumes v: "\<And>d st. d \<in> set ds \<Longrightarrow> search_inv imports st \<Longrightarrow> extends s0 st \<Longrightarrow> imports d \<noteq> None \<Longrightarrow>
      visit_result imports p {d} st (v d st)"
    and "set ds \<subseteq> set all" and "imports name = Some all" and "(p, name) \<in> (import_edges imports)\<^sup>*"
    and "search_inv imports st" and "extends s0 st"
  shows "visit_result imports p (set ds) st (visit_deps imports v name ds st)"
  using assms
proof (induction ds arbitrary: st)
  case Nil
  then show ?case by (simp add: visit_result_def)
next
  case (Cons d ds)
  have edge: "(name, d) \<in> import_edges imports" using Cons.prems by (auto simp: import_edges_def)
  then have reach: "(p, d) \<in> (import_edges imports)\<^sup>*" using Cons.prems(4) by simp
  show ?case
  proof (cases "imports d")
    case None
    then show ?thesis using reach by (auto simp: visit_result_def bad_from_def)
  next
    case (Some dd)
    have d: "visit_result imports p {d} st (v d st)" using Cons.prems Some by simp
    show ?thesis
    proof (cases "v d st")
      case None
      then show ?thesis using d by (simp add: visit_result_def)
    next
      case r: (Some r)
      show ?thesis
      proof (cases r)
        case (Inl err)
        then show ?thesis using d r Some by (simp add: visit_result_def)
      next
        case (Inr s)
        then have s: "search_inv imports s" "extends st s" "d \<in> done_set s"
          "done_set s \<subseteq> done_set st \<union> {m. (d, m) \<in> (import_edges imports)\<^sup>*}"
          using d r by (auto simp: visit_result_def)
        have rest: "visit_result imports p (set ds) s (visit_deps imports v name ds s)"
          using Cons.prems s(1) extends_trans [OF Cons.prems(6) s(2)] by (intro Cons.IH) auto
        have "visit_deps imports v name (d # ds) st = visit_deps imports v name ds s"
          using r Inr Some by simp
        then show ?thesis using visit_result_Cons [OF s(2-4) rest] by simp
      qed
    qed
  qed
qed

lemma open_step:
  assumes "fst st name = VisitedStatusUnseen"
  defines "s0 \<equiv> ((fst st)(name := VisitedStatusVisiting), snd st)"
  shows "open_set s0 = insert name (open_set st)" and "done_set s0 = done_set st"
    and "search_inv imports st \<Longrightarrow> search_inv imports s0"
proof -
  show "open_set s0 = insert name (open_set st)" using assms(1) by (auto simp: s0_def open_set_def)
  show eq: "done_set s0 = done_set st" using assms(1) by (auto simp: s0_def done_set_def)
  show "search_inv imports s0" if "search_inv imports st"
    using that eq by (simp add: search_inv_def) (simp add: s0_def)
qed

lemma finish_visit:
  assumes unseen: "fst st name = VisitedStatusUnseen" and deps: "imports name = Some deps"
    and r: "visit_result imports p (set deps) ((fst st)(name := VisitedStatusVisiting), snd st) r"
  shows "visit_result imports p {name} st (do {
      r \<leftarrow> r;
      case r of
        Inl err \<Rightarrow> Some (Inl err)
      | Inr st' \<Rightarrow> Some (Inr ((fst st')(name := VisitedStatusDone), snd st' @ [name])) })"
proof (cases r)
  case None
  then show ?thesis using r by (simp add: visit_result_def)
next
  case (Some q)
  show ?thesis
  proof (cases q)
    case (Inl err)
    then show ?thesis using r Some by (simp add: visit_result_def)
  next
    case (Inr s)
    note s0 = open_step [of st name, OF unseen]
    have s: "search_inv imports s" "open_set s = insert name (open_set st)" "done_set st \<subseteq> done_set s"
      "set deps \<subseteq> done_set s"
      "done_set s \<subseteq> done_set st \<union> {m. \<exists>n \<in> set deps. (n, m) \<in> (import_edges imports)\<^sup>*}"
      using r Some Inr s0 by (auto simp: visit_result_def extends_def)
    let ?s = "((fst s)(name := VisitedStatusDone), snd s @ [name])"
    have "fst s name = VisitedStatusVisiting" using s(2) by (auto simp: open_set_def)
    then have name: "name \<notin> done_set s" by (simp add: done_set_def)
    have finished: "done_set ?s = insert name (done_set s)" by (auto simp: done_set_def)
    have "name \<notin> open_set st" using unseen by (simp add: open_set_def)
    moreover have "open_set ?s = open_set s - {name}" by (auto simp: open_set_def)
    ultimately have "open_set ?s = open_set st" using s(2) by auto
    moreover have "search_inv imports ?s"
      using s(1,4) name deps finished by (auto simp: search_inv_def)
    moreover have "(name, m) \<in> (import_edges imports)\<^sup>*"
      if "n \<in> set deps" "(n, m) \<in> (import_edges imports)\<^sup>*" for n m
    proof -
      have "(name, n) \<in> import_edges imports" using deps that(1) by (auto simp: import_edges_def)
      then show ?thesis using that(2) by (rule converse_rtrancl_into_rtrancl)
    qed
    ultimately show ?thesis
      using Some Inr s(3,5) finished by (auto simp: visit_result_def extends_def)
  qed
qed

lemma visit_spec:
  assumes "finite V" and closed: "\<And>m ds d. m \<in> V \<Longrightarrow> imports m = Some ds \<Longrightarrow> d \<in> set ds \<Longrightarrow>
      imports d \<noteq> None \<Longrightarrow> d \<in> V"
    and "name \<in> V" and "search_inv imports st" and "(p, name) \<in> (import_edges imports)\<^sup>*"
    and "\<forall>g \<in> open_set st. (g, name) \<in> (import_edges imports)\<^sup>+"
  shows "visit_result imports p {name} st (visit imports name st)"
  using assms(3-)
proof (induction "card (unseen V st)" arbitrary: name st rule: less_induct)
  case less
  note unfold = visit.simps [of "imports" name st] visit_step_def
  show ?case
  proof (cases "fst st name")
    case VisitedStatusVisiting
    then have "(name, name) \<in> (import_edges imports)\<^sup>+" using less.prems(4) by (auto simp: open_set_def)
    then show ?thesis
      using VisitedStatusVisiting less.prems(3) by (auto simp: unfold visit_result_def bad_from_def)
  next
    case VisitedStatusDone
    then show ?thesis using less.prems(2) by (auto simp: unfold visit_result_def done_set_def)
  next
    case VisitedStatusUnseen
    let ?s0 = "((fst st)(name := VisitedStatusVisiting), snd st)"
    note s0 = open_step [OF VisitedStatusUnseen]
    show ?thesis
    proof (cases "imports name")
      case None
      then show ?thesis
        using VisitedStatusUnseen less.prems(3) by (auto simp: unfold visit_result_def bad_from_def)
    next
      case (Some deps)
      have smaller: "card (unseen V s) < card (unseen V st)" if "extends ?s0 s" for s
      proof (rule psubset_card_mono)
        show "finite (unseen V st)" using assms(1) by (simp add: unseen_def)
        have "unseen V s \<subseteq> unseen V ?s0" using extends_unseen [OF that] .
        moreover have "unseen V ?s0 \<subset> unseen V st"
          using VisitedStatusUnseen less.prems(1) by (auto simp: unseen_def)
        ultimately show "unseen V s \<subset> unseen V st" by blast
      qed
      have part: "visit_result imports p {d} s (visit imports d s)"
        if d: "d \<in> set deps" and "search_inv imports s" "extends ?s0 s" and "imports d \<noteq> None" for d s
      proof (rule less.hyps [OF smaller [OF that(3)] _ that(2)])
        show "d \<in> V" using closed [OF less.prems(1) Some d] that(4) by simp
        have edge: "(name, d) \<in> import_edges imports" using Some d by (auto simp: import_edges_def)
        then show "(p, d) \<in> (import_edges imports)\<^sup>*" using less.prems(3) by simp
        have "open_set s = insert name (open_set st)" using that(3) s0(1) by (simp add: extends_def)
        then show "\<forall>g \<in> open_set s. (g, d) \<in> (import_edges imports)\<^sup>+"
          using less.prems(4) edge by (auto intro: trancl_into_trancl)
      qed
      have "visit_result imports p (set deps) ?s0 (visit_deps imports (visit imports) name deps ?s0)"
      proof (rule visit_deps_result [of deps "imports" ?s0 p "visit imports" deps name])
        show "visit_result imports p {d} s (visit imports d s)"
          if "d \<in> set deps" "search_inv imports s" "extends ?s0 s" "imports d \<noteq> None" for d s
          using part that by blast
      qed (use Some less.prems s0(3) in auto)
      then show ?thesis
        using finish_visit [of st name "imports" deps p] by (simp add: unfold VisitedStatusUnseen Some)
    qed
  qed
qed

section \<open>The module order\<close>

lemma start_inv: "search_inv imports unseen_state" "open_set unseen_state = {}" "done_set unseen_state = {}"
  by (simp_all add: search_inv_def open_set_def done_set_def)

lemma imports_first_reaches:
  assumes "imports_first imports ns" and "n \<in> set ns" and "(n, m) \<in> (import_edges imports)\<^sup>*"
  shows "m \<in> set ns"
  using assms(3,2)
proof (induction rule: rtrancl_induct)
  case (step m d)
  have "set ds \<subseteq> set ns" if "imports_first imports ns" "k \<in> set ns" "imports k = Some ds" for k ds ns
    using that by (induction ns) auto
  then show ?case using step assms(1) by (auto simp: import_edges_def)
qed

lemma imports_first_acyclic:
  assumes "imports_first imports ns" and "n \<in> set ns"
  shows "imports n \<noteq> None" and "(n, n) \<notin> (import_edges imports)\<^sup>+"
proof -
  show "imports n \<noteq> None" using assms by (induction ns) auto
  show "(n, n) \<notin> (import_edges imports)\<^sup>+"
    using assms
  proof (induction ns)
    case (Cons k ns)
    have below: "m \<in> set ns" if km: "(k, m) \<in> (import_edges imports)\<^sup>+" for m
    proof -
      obtain d where d: "(k, d) \<in> import_edges imports" "(d, m) \<in> (import_edges imports)\<^sup>*"
        using tranclD [OF km] by blast
      then have "d \<in> set ns" using Cons.prems(1) by (auto simp: import_edges_def)
      then show ?thesis using imports_first_reaches [of "imports" ns d m] Cons.prems(1) d(2) by simp
    qed
    show ?case
    proof (cases "n = k")
      case True
      then show ?thesis using below Cons.prems(1) by auto
    next
      case False
      then show ?thesis using Cons by simp
    qed
  qed simp
qed

definition module_imports :: "'n modules \<Rightarrow> string \<Rightarrow> string list option" where
  "module_imports mods name = map_option Imports (mods name)"

lemma order_cases:
  assumes "finite (dom mods)" and "mods p \<noteq> None"
  shows "(\<exists>err. ModuleDependencyOrder mods p = Some (Inl err) \<and> bad_from (module_imports mods) p) \<or>
    (\<exists>order. ModuleDependencyOrder mods p = Some (Inr order) \<and>
       imports_first (module_imports mods) (rev order) \<and>
       set order = {m. (p, m) \<in> (import_edges (module_imports mods))\<^sup>*})"
proof -
  let ?i = "module_imports mods"
  have v: "visit_result ?i p {p} unseen_state (visit ?i p unseen_state)"
    by (rule visit_spec [of "dom mods"])
      (use assms in \<open>auto simp: module_imports_def start_inv\<close>)
  have order: "ModuleDependencyOrder mods p = map_option (map_sum id snd) (visit ?i p unseen_state)"
    using assms(2) by (auto simp: ModuleDependencyOrder_def module_imports_def [abs_def])
  show ?thesis
  proof (cases "visit ?i p unseen_state")
    case None
    then show ?thesis using v by (simp add: visit_result_def)
  next
    case (Some r)
    show ?thesis
    proof (cases r)
      case (Inl err)
      then show ?thesis using v Some order by (auto simp: visit_result_def)
    next
      case (Inr st)
      then have st: "search_inv ?i st" "p \<in> done_set st" "done_set st \<subseteq> {m. (p, m) \<in> (import_edges ?i)\<^sup>*}"
        using v Some by (auto simp: visit_result_def start_inv)
      then have "m \<in> set (snd st)" if "(p, m) \<in> (import_edges ?i)\<^sup>*" for m
        using imports_first_reaches [of ?i "rev (snd st)" p m] that by (auto simp: search_inv_def)
      then have "set (snd st) = {m. (p, m) \<in> (import_edges ?i)\<^sup>*}"
        using st by (auto simp: search_inv_def)
      then show ?thesis using Some Inr order st(1) by (auto simp: search_inv_def)
    qed
  qed
qed

lemma bad_not_ordered:
  assumes "imports_first imports ns" and "p \<in> set ns"
  shows "\<not> bad_from imports p"
proof
  assume "bad_from imports p"
  then obtain m where m: "(p, m) \<in> (import_edges imports)\<^sup>*"
    "imports m = None \<or> (m, m) \<in> (import_edges imports)\<^sup>+" by (auto simp: bad_from_def)
  have "m \<in> set ns" using imports_first_reaches [OF assms m(1)] .
  from m(2) show False
  proof
    show False if "imports m = None" using that imports_first_acyclic(1) [OF assms(1) \<open>m \<in> set ns\<close>] by simp
    show False if "(m, m) \<in> (import_edges imports)\<^sup>+"
      using that imports_first_acyclic(2) [OF assms(1) \<open>m \<in> set ns\<close>] by simp
  qed
qed

lemma imports_first_distinct: "imports_first imports (rev ns) \<Longrightarrow> distinct ns"
  by (induction ns rule: rev_induct) auto

lemma imports_first_nth:
  assumes "imports_first imports (rev ns)" and "i < length ns"
  shows "\<exists>ds. imports (ns ! i) = Some ds \<and> set ds \<subseteq> set (take i ns)"
  using assms
proof (induction ns rule: rev_induct)
  case (snoc n ns)
  then show ?case by (cases "i = length ns") (auto simp: nth_append)
qed simp

section \<open>Collecting and merging\<close>

lemma unique_loop_spec:
  assumes "set seen = set out" and "distinct out"
  shows "distinct (unique_loop seen out vs) \<and> set (unique_loop seen out vs) = set out \<union> set vs"
  using assms
proof (induction vs arbitrary: seen out)
  case (Cons v vs)
  then show ?case using Cons.IH [of "v # seen" "out @ [v]"] Cons.IH [of seen out] by auto
qed simp

lemma unique_spec [simp]: "distinct (unique vs)" "set (unique vs) = set vs"
  using unique_loop_spec [of "[]" "[]" vs] by (simp_all add: unique_def)

definition partial_path :: "'n PartialModuleInfo \<Rightarrow> string" where
  "partial_path p = (if p_Path p = [] then p_Name p else p_Path p)"

definition files_of :: "string \<Rightarrow> 'n PartialModuleInfo list \<Rightarrow> 'n PartialModuleInfo list" where
  "files_of path ps = filter (\<lambda>p. partial_path p = path) ps"

definition agree :: "'n PartialModuleInfo \<Rightarrow> 'n PartialModuleInfo \<Rightarrow> bool" where
  "agree p q \<longleftrightarrow> p_Name p = p_Name q \<and> p_Trusted p = p_Trusted q"

text \<open>The module that the files of one package make up.\<close>

fun merged :: "string \<Rightarrow> 'n PartialModuleInfo list \<Rightarrow> 'n ModuleInfo option \<Rightarrow> bool" where
  "merged path [] m \<longleftrightarrow> m = None"
| "merged path (p # ps) m \<longleftrightarrow>
     (\<exists>mi. m = Some mi \<and> Path mi = path \<and> Name mi = p_Name p \<and> Trusted mi = p_Trusted p \<and>
        (\<forall>q \<in> set ps. agree p q) \<and>
        distinct (Imports mi) \<and> set (Imports mi) = (\<Union>q \<in> set (p # ps). set (p_Imports q)) \<and>
        Root mi = p_Root p @ concat (map (\<lambda>q. filter (\<lambda>n. \<not> is_ModuleNode n) (p_Root q)) ps) \<and>
        Links mi = concat (map p_Links (p # ps)))"

lemma add_partial_merged:
  assumes "\<forall>path. merged path (files_of path qs) (modules path)"
  shows "case add_partial modules p of
      Inr modules' \<Rightarrow> \<forall>path. merged path (files_of path (qs @ [p])) (modules' path)
    | Inl err \<Rightarrow> \<exists>q \<in> set qs. partial_path q = partial_path p \<and> \<not> agree q p"
proof -
  let ?path = "partial_path p"
  have at: "merged ?path (files_of ?path qs) (modules ?path)" using assms by blast
  have other: "files_of path (qs @ [p]) = files_of path qs" if "path \<noteq> ?path" for path
    using that by (simp add: files_of_def)
  have here: "files_of ?path (qs @ [p]) = files_of ?path qs @ [p]" by (simp add: files_of_def)
  have key: "(if p_Path p = [] then p_Name p else p_Path p) = ?path" by (simp add: partial_path_def)
  show ?thesis
  proof (cases "modules ?path")
    case None
    then have "files_of ?path qs = []" using at by (cases "files_of ?path qs") auto
    then show ?thesis
      using None assms other here by (auto simp: add_partial_def key Let_def)
  next
    case (Some mi)
    then obtain q rest where q: "files_of ?path qs = q # rest" using at by (cases "files_of ?path qs") auto
    then have "q \<in> set (files_of ?path qs)" by simp
    then have in_qs: "q \<in> set qs" "partial_path q = ?path" by (auto simp: files_of_def)
    have mi: "Name mi = p_Name q" "Trusted mi = p_Trusted q" using at Some q by auto
    show ?thesis
    proof (cases "agree q p")
      case True
      then have "merged ?path (files_of ?path (qs @ [p])) (Some (mi
          \<lparr>Root := mergeModuleRoot (Root mi) (p_Root p),
           Imports := mergeImports (Imports mi) (p_Imports p),
           Links := Links mi @ p_Links p\<rparr>))"
        using at Some q here by (auto simp: mergeImports_def mergeModuleRoot_def)
      then show ?thesis
        using True Some mi assms other by (auto simp: add_partial_def key agree_def Let_def)
    next
      case False
      then show ?thesis using Some mi in_qs by (auto simp: add_partial_def key agree_def Let_def)
    qed
  qed
qed

lemma build_loop_merged:
  assumes "\<forall>path. merged path (files_of path qs) (modules path)"
  shows "case build_loop modules ps of
      Inr modules' \<Rightarrow> \<forall>path. merged path (files_of path (qs @ ps)) (modules' path)
    | Inl err \<Rightarrow> \<exists>p \<in> set (qs @ ps). \<exists>q \<in> set (qs @ ps). partial_path q = partial_path p \<and> \<not> agree q p"
  using assms
proof (induction ps arbitrary: qs modules)
  case (Cons p ps)
  note add = add_partial_merged [OF Cons.prems, of p]
  show ?case
  proof (cases "add_partial modules p")
    case (Inl err)
    then show ?thesis using add by auto
  next
    case (Inr modules')
    then show ?thesis using add Cons.IH [of "qs @ [p]" modules'] by (simp split: sum.splits)
  qed
qed simp

lemma merged_agree:
  assumes "merged path (files_of path ps) m" and "p \<in> set ps" "q \<in> set ps"
    and "partial_path p = path" "partial_path q = path"
  shows "agree p q"
proof -
  have "p \<in> set (files_of path ps)" "q \<in> set (files_of path ps)"
    using assms by (simp_all add: files_of_def)
  then show ?thesis using assms(1) by (cases "files_of path ps") (simp_all add: agree_def, metis)
qed

text \<open>Collecting one file.\<close>

definition std_name :: "string \<Rightarrow> bool" where
  "std_name name \<longleftrightarrow> name = ''std'' \<or> (\<exists>rest. name = ''std.'' @ rest)"

lemma HasPrefix_iff: "HasPrefix s p \<longleftrightarrow> (\<exists>rest. s = p @ rest)"
  by (induction s p rule: HasPrefix.induct) auto

lemma reserved_iff: "reserved name \<longleftrightarrow> std_name name"
  by (simp add: reserved_def std_name_def HasPrefix_iff)

lemma collect_loop_rest:
  assumes "i \<noteq> 0"
  shows "collect_loop i body st =
    (if \<exists>n \<in> set body. is_ModuleNode n then Inl ModuleNotFirst
     else Inr (st\<lparr>cs_imports := cs_imports st @
       concat (map (\<lambda>n. case n of ImportNode ms rs \<Rightarrow> resolved_imports ms rs | _ \<Rightarrow> []) body)\<rparr>))"
  using assms
proof (induction body arbitrary: i st)
  case (Cons n body)
  then show ?case by (cases n) (simp_all split: if_splits)
qed simp

section \<open>TopoSort\<close>

definition graph_nodes :: "(string \<rightharpoonup> string list) \<Rightarrow> string set" where
  "graph_nodes graph = dom graph \<union> (\<Union>ds \<in> ran graph. set ds)"

lemma finite_graph_nodes: "finite (dom graph) \<Longrightarrow> finite (graph_nodes graph)"
  by (auto simp: graph_nodes_def finite_ran)

lemma topo_loop_result:
  assumes "finite (dom graph)" and "set names \<subseteq> graph_nodes graph"
    and "search_inv (graph_deps graph) st" and "open_set st = {}"
  shows "case topo_loop graph names st of
      None \<Rightarrow> False
    | Some (Inl err) \<Rightarrow> \<exists>n \<in> set names. bad_from (graph_deps graph) n
    | Some (Inr st') \<Rightarrow> search_inv (graph_deps graph) st' \<and> set names \<subseteq> done_set st' \<and> done_set st \<subseteq> done_set st'"
  using assms
proof (induction names arbitrary: st)
  case (Cons n ns)
  show ?case
  proof (cases "fst st n = VisitedStatusUnseen")
    case False
    then have "n \<in> done_set st" using Cons.prems(4) by (cases "fst st n") (auto simp: open_set_def done_set_def)
    then show ?thesis
      using False Cons.IH [of st] Cons.prems by (auto split: option.splits sum.splits)
  next
    case True
    have v: "visit_result (graph_deps graph) n {n} st (visit (graph_deps graph) n st)"
    proof (rule visit_spec [OF finite_graph_nodes [OF Cons.prems(1)]])
      show "d \<in> graph_nodes graph" if "graph_deps graph m = Some ds" "d \<in> set ds" for m ds d
        using that by (auto simp: graph_deps_def graph_nodes_def ran_def split: option.splits)
    qed (use Cons.prems in auto)
    show ?thesis
    proof (cases "visit (graph_deps graph) n st")
      case None
      then show ?thesis using v by (simp add: visit_result_def)
    next
      case (Some r)
      show ?thesis
      proof (cases r)
        case (Inl err)
        then show ?thesis using v True Some by (simp add: visit_result_def)
      next
        case (Inr s)
        then have s: "search_inv (graph_deps graph) s" "open_set s = {}" "n \<in> done_set s"
          "done_set st \<subseteq> done_set s"
          using v Some Cons.prems(4) by (auto simp: visit_result_def extends_def)
        have "topo_loop graph (n # ns) st = topo_loop graph ns s" using True Some Inr by simp
        then show ?thesis
          using Cons.IH [OF Cons.prems(1) _ s(1,2)] Cons.prems(2) s(3,4)
          by (cases "topo_loop graph ns s") (auto split: sum.splits)
      qed
    qed
  qed
qed simp

end
