(* ===== verification/Modules_Properties.thy ===== *)
theory Modules_Properties
  imports Modules_Facts
begin

text \<open>
  Properties of the loader's modules and of the order they are compiled in.
\<close>

text \<open>
  C13: The module order. On finitely many packages the order is always computed. It is an error
  exactly when, following imports from the primary package, one meets an unknown package or a
  package that imports itself around a cycle. Otherwise the order lists every reachable package
  exactly once, each after everything it imports, and so the primary package last.
\<close>

theorem module_order_decided:
  assumes "finite (dom mods)" and "mods p \<noteq> None"
  shows "(if bad_from (module_imports mods) p
     then \<exists>err. ModuleDependencyOrder mods p = Some (Inl err)
     else \<exists>order. ModuleDependencyOrder mods p = Some (Inr order) \<and> distinct order \<and>
       set order = {m. (p, m) \<in> (import_edges (module_imports mods))\<^sup>*} \<and> last order = p \<and>
       (\<forall>i < length order. \<exists>ds. module_imports mods (order ! i) = Some ds \<and> set ds \<subseteq> set (take i order)))"
proof -
  let ?i = "module_imports mods"
  have inr: "distinct order \<and> last order = p \<and> \<not> bad_from ?i p \<and>
      (\<forall>i < length order. \<exists>ds. ?i (order ! i) = Some ds \<and> set ds \<subseteq> set (take i order))"
    if first: "imports_first ?i (rev order)"
      and set: "set order = {m. (p, m) \<in> (import_edges ?i)\<^sup>*}" for order
  proof -
    have p: "p \<in> set order" using set by simp
    then obtain ns n where order: "order = ns @ [n]" by (cases order rule: rev_cases) auto
    have "n = p"
    proof (rule ccontr)
      assume "n \<noteq> p"
      then have "p \<in> set ns" using p order by auto
      moreover have "imports_first ?i (rev ns)" using first order by simp
      moreover have "(p, n) \<in> (import_edges ?i)\<^sup>*" using set order by auto
      ultimately have "n \<in> set ns" using imports_first_reaches [of ?i "rev ns" p n] by simp
      then show False using imports_first_distinct [OF first] order by simp
    qed
    then show ?thesis
      using imports_first_distinct [OF first] imports_first_nth [OF first] order p
        bad_not_ordered [OF first, of p] by simp
  qed
  from order_cases [OF assms] show ?thesis
  proof
    assume "\<exists>err. ModuleDependencyOrder mods p = Some (Inl err) \<and> bad_from ?i p"
    then show ?thesis by auto
  next
    assume "\<exists>order. ModuleDependencyOrder mods p = Some (Inr order) \<and>
       imports_first ?i (rev order) \<and> set order = {m. (p, m) \<in> (import_edges ?i)\<^sup>*}"
    then obtain order where "ModuleDependencyOrder mods p = Some (Inr order)"
      "imports_first ?i (rev order)" "set order = {m. (p, m) \<in> (import_edges ?i)\<^sup>*}" by blast
    then show ?thesis using inr by simp
  qed
qed

definition module_of :: "string \<Rightarrow> string list \<Rightarrow> unit ModuleInfo" where
  "module_of n is = \<lparr>Path = n, Name = n, Imports = is, Root = [], Links = [], Trusted = False\<rparr>"

definition diamond :: "unit modules" where
  "diamond = [''a'' \<mapsto> module_of ''a'' [''b'', ''c''], ''b'' \<mapsto> module_of ''b'' [''d''],
     ''c'' \<mapsto> module_of ''c'' [''d''], ''d'' \<mapsto> module_of ''d'' []]"

lemma diamond_order: "ModuleDependencyOrder diamond ''a'' = Some (Inr [''d'', ''b'', ''c'', ''a''])"
  by code_simp

theorem module_order_decided_witness:
  "distinct [''d'', ''b'', ''c'', ''a''] \<and> \<not> bad_from (module_imports diamond) ''a''"
proof -
  have "finite (dom diamond)" "diamond ''a'' \<noteq> None" by (simp_all add: diamond_def)
  from module_order_decided [OF this] show ?thesis
    by (auto simp: diamond_order split: if_splits)
qed

text \<open>
  C40: \<open>TopoSort\<close>. For a finite graph and any order in which the runtime happens to visit the map, the
  sort returns; it fails only when some node reaches a cycle, and otherwise lists
  every node exactly once, after its dependencies.
\<close>

theorem topo_sort_orders:
  assumes "finite (dom graph)" and "set names = dom graph"
  shows "(\<exists>err n. TopoSort graph names = Some (Inl err) \<and> n \<in> dom graph \<and> bad_from (graph_deps graph) n) \<or>
    (\<exists>order. TopoSort graph names = Some (Inr order) \<and> distinct order \<and> dom graph \<subseteq> set order \<and>
       (\<forall>i < length order. \<exists>ds. graph_deps graph (order ! i) = Some ds \<and> set ds \<subseteq> set (take i order)))"
proof -
  have r: "case topo_loop graph names unseen_state of
      None \<Rightarrow> False
    | Some (Inl err) \<Rightarrow> \<exists>n \<in> set names. bad_from (graph_deps graph) n
    | Some (Inr st') \<Rightarrow> search_inv (graph_deps graph) st' \<and> set names \<subseteq> done_set st' \<and>
        done_set unseen_state \<subseteq> done_set st'"
    using assms by (intro topo_loop_result) (auto simp: start_inv graph_nodes_def)
  show ?thesis
  proof (cases "topo_loop graph names unseen_state")
    case None
    then show ?thesis using r by simp
  next
    case (Some q)
    show ?thesis
    proof (cases q)
      case (Inl err)
      then show ?thesis using r Some assms(2) by (auto simp: TopoSort_def)
    next
      case (Inr st)
      then have st: "imports_first (graph_deps graph) (rev (snd st))" "set names \<subseteq> set (snd st)"
        using r Some by (auto simp: search_inv_def)
      then show ?thesis
        using Some Inr assms(2) imports_first_distinct [OF st(1)] imports_first_nth [OF st(1)]
        by (auto simp: TopoSort_def)
    qed
  qed
qed

theorem topo_sort_orders_witness:
  "\<exists>order. TopoSort [''x'' \<mapsto> [''y'']] [''x''] = Some (Inr order) \<and> distinct order \<and> ''x'' \<in> set order"
proof -
  have "TopoSort [''x'' \<mapsto> [''y'']] [''x''] = Some (Inr [''y'', ''x''])" by code_simp
  then show ?thesis using topo_sort_orders [of "[''x'' \<mapsto> [''y'']]" "[''x'']"] by auto
qed

text \<open>
  C24: Merging files. Merging succeeds exactly when the files of each package agree on the module name
  and on being trusted; then every package has the imports of all its files, without duplicates,
  their link requirements in order, and the declarations of all of them with a single
  module header, and there is no other package.
\<close>

theorem modules_are_merged:
  "case BuildModules ps of
     Inr mods \<Rightarrow> (\<forall>path. merged path (files_of path ps) (mods path)) \<and>
       (\<forall>p \<in> set ps. \<forall>q \<in> set ps. partial_path p = partial_path q \<longrightarrow> agree p q)
   | Inl err \<Rightarrow> \<exists>p \<in> set ps. \<exists>q \<in> set ps. partial_path q = partial_path p \<and> \<not> agree q p"
proof -
  have "\<forall>path. merged path (files_of path []) (Map.empty path)" by (simp add: files_of_def)
  note build = build_loop_merged [OF this, of ps]
  show ?thesis
  proof (cases "BuildModules ps")
    case (Inl err)
    then show ?thesis using build by (simp add: BuildModules_def)
  next
    case (Inr mods)
    then have m: "\<forall>path. merged path (files_of path ps) (mods path)"
      using build by (simp add: BuildModules_def)
    moreover have "agree p q" if "p \<in> set ps" "q \<in> set ps" "partial_path p = partial_path q" for p q
      by (rule merged_agree [OF spec [OF m] that(1,2) refl that(3) [symmetric]])
    ultimately show ?thesis using Inr by simp
  qed
qed

definition file_of :: "string \<Rightarrow> string list \<Rightarrow> unit PartialModuleInfo" where
  "file_of n is = \<lparr>p_Path = [], p_Name = n, p_Imports = is, p_Root = [ModuleNode n [] [], OtherNode ()],
     p_Links = [], p_Trusted = False\<rparr>"

theorem modules_are_merged_witness:
  "\<exists>mods. BuildModules [file_of ''m'' [''a'', ''b''], file_of ''m'' [''b'', ''c'']] = Inr mods \<and>
    merged ''m'' [file_of ''m'' [''a'', ''b''], file_of ''m'' [''b'', ''c'']] (mods ''m'')"
proof -
  let ?ps = "[file_of ''m'' [''a'', ''b''], file_of ''m'' [''b'', ''c'']]"
  have "\<not> isl (BuildModules ?ps)"
    by (simp add: BuildModules_def add_partial_def file_of_def Let_def)
  then obtain mods where m: "BuildModules ?ps = Inr mods" by (cases "BuildModules ?ps") auto
  have "merged ''m'' (files_of ''m'' ?ps) (mods ''m'')"
    using modules_are_merged [of ?ps] by (simp add: m)
  moreover have "files_of ''m'' ?ps = ?ps"
    by (simp add: files_of_def partial_path_def file_of_def)
  ultimately show ?thesis using m by auto
qed

text \<open>
  C28: The standard library's names are reserved. A file is accepted exactly when it starts with its
  only module declaration, whose name is not empty, and the name lies in the \<open>std\<close> namespace
  exactly when the file comes from the trusted library; so no other source can
  contribute to a \<open>std\<close> module.
\<close>

theorem std_modules_are_trusted:
  "(\<exists>p. CollectModuleInfo root trusted = Inr p) \<longleftrightarrow>
     (\<exists>n as file rest. root = ModuleNode n as file # rest \<and> n \<noteq> [] \<and>
        (\<forall>d \<in> set rest. \<not> is_ModuleNode d) \<and> (std_name n \<longleftrightarrow> trusted))"
proof (cases root)
  case (Cons d rest)
  have "collect_loop 1 rest st \<noteq> Inl e \<or> e = ModuleNotFirst" for st e
    using collect_loop_rest [of 1 rest st] by auto
  show ?thesis
  proof (cases d)
    case (ModuleNode n attrs path)
    then show ?thesis
      using Cons collect_loop_rest [of "Suc 0" rest]
      by (auto simp: CollectModuleInfo_def reserved_iff [symmetric] reserved_def)
  qed (use Cons collect_loop_rest [of "Suc 0" rest] in \<open>auto simp: CollectModuleInfo_def\<close>)
qed (simp add: CollectModuleInfo_def)

theorem std_modules_are_trusted_witness:
  "\<not> (\<exists>p. CollectModuleInfo [ModuleNode ''std.io'' [] [], OtherNode ()] False = Inr p)"
  using std_modules_are_trusted [of "[ModuleNode ''std.io'' [] [], OtherNode ()]" False]
  by (simp add: std_name_def)

end
