(* ===== verification/Scopes.thy ===== *)
theory Scopes
  imports Prelude
begin

text \<open>
  Lexical scopes, \<^verbatim>\<open>src/symbols/scope.go\<close>. Scopes are shared by pointer, so they live in a store:
  a list that \<open>NewScope\<close> extends, indexed by address. A symbol is its name and its address.
\<close>

datatype sym = Sym (sym_Name: string) (sym_address: nat)

record Scope =
  Parent :: "nat option"
  Symbols :: "string \<rightharpoonup> sym"

type_synonym scopes = "Scope list"

datatype scope_error = AlreadyDefined string

definition NewScope :: "scopes \<Rightarrow> nat option \<Rightarrow> scopes \<times> nat" where
  "NewScope \<sigma> p = (\<sigma> @ [\<lparr>Parent = p, Symbols = Map.empty\<rparr>], length \<sigma>)"

definition NewChild :: "scopes \<Rightarrow> nat \<Rightarrow> scopes \<times> nat" where
  "NewChild \<sigma> s = NewScope \<sigma> (Some s)"

text \<open>An address outside the store is a nil dereference.\<close>

definition Define :: "scopes \<Rightarrow> nat \<Rightarrow> sym \<Rightarrow> (scope_error + scopes) run" where
  "Define \<sigma> s y =
    (if s \<ge> length \<sigma> then None
     else if Symbols (\<sigma> ! s) (sym_Name y) \<noteq> None then Some (Inl (AlreadyDefined (sym_Name y)))
     else Some (Inr (\<sigma>[s := (\<sigma> ! s)\<lparr>Symbols := (Symbols (\<sigma> ! s))(sym_Name y \<mapsto> y)\<rparr>])))"

partial_function (option) Resolve_from :: "scopes \<Rightarrow> nat option \<Rightarrow> string \<Rightarrow> sym option run" where
  "Resolve_from \<sigma> sc n =
    (case sc of
       None \<Rightarrow> Some None
     | Some s \<Rightarrow>
         if s \<ge> length \<sigma> then None
         else (case Symbols (\<sigma> ! s) n of
                 Some y \<Rightarrow> Some (Some y)
               | None \<Rightarrow> Resolve_from \<sigma> (Parent (\<sigma> ! s)) n))"

declare Resolve_from.simps [code]

definition Resolve :: "scopes \<Rightarrow> nat \<Rightarrow> string \<Rightarrow> sym option run" where
  "Resolve \<sigma> s n = Resolve_from \<sigma> (Some s) n"

text \<open>Defining several names one after the other, as a block does.\<close>

fun define_all ::
  "('st \<Rightarrow> 'p \<Rightarrow> sym \<Rightarrow> (scope_error + 'st) run) \<Rightarrow> 'st \<Rightarrow> 'p \<Rightarrow> sym list \<Rightarrow> (scope_error + 'st) run"
where
  "define_all def st p [] = Some (Inr st)"
| "define_all def st p (y # ys) =
    Option.bind (def st p y)
      (\<lambda>r. case r of Inl err \<Rightarrow> Some (Inl err) | Inr st' \<Rightarrow> define_all def st' p ys)"

section \<open>The interface\<close>

text \<open>
  What the analyser relies on when it enters a block with \<open>NewScope(prev)\<close>, defines names in it
  and goes back to \<open>prev\<close>.
\<close>

locale name_table =
  fixes ok :: "'st \<Rightarrow> 'p \<Rightarrow> bool"
    and child :: "'st \<Rightarrow> 'p \<Rightarrow> 'st \<times> 'p"
    and define_name :: "'st \<Rightarrow> 'p \<Rightarrow> sym \<Rightarrow> (scope_error + 'st) run"
    and resolve :: "'st \<Rightarrow> 'p \<Rightarrow> string \<Rightarrow> sym option run"
    and own :: "'st \<Rightarrow> 'p \<Rightarrow> string \<Rightarrow> bool"
    and sees :: "'st \<Rightarrow> 'p \<Rightarrow> 'p \<Rightarrow> bool"
  assumes resolves: "ok st p \<Longrightarrow> resolve st p n \<noteq> None"
    and child_law: "ok st p \<Longrightarrow> child st p = (st', q) \<Longrightarrow>
      ok st' q \<and> resolve st' q n = resolve st p n \<and> \<not> own st' q n \<and>
      (ok st r \<longrightarrow> ok st' r \<and> resolve st' r n = resolve st r n \<and> \<not> sees st' r q)"
    and define_law: "ok st p \<Longrightarrow>
      (if own st p (sym_Name y) then define_name st p y = Some (Inl (AlreadyDefined (sym_Name y)))
       else \<exists>st'. define_name st p y = Some (Inr st') \<and> resolve st' p (sym_Name y) = Some (Some y) \<and>
         (\<forall>n. own st' p n \<longleftrightarrow> own st p n \<or> n = sym_Name y) \<and>
         (\<forall>n. n \<noteq> sym_Name y \<longrightarrow> resolve st' p n = resolve st p n) \<and>
         (\<forall>r. ok st r \<longrightarrow> ok st' r) \<and> (\<forall>r s. ok st r \<longrightarrow> sees st' r s = sees st r s) \<and>
         (\<forall>r n. ok st r \<longrightarrow> \<not> sees st r p \<longrightarrow> resolve st' r n = resolve st r n))"
begin

lemma define_all_fresh:
  assumes "ok st p" and "distinct (map sym_Name ys)" and "\<forall>y \<in> set ys. \<not> own st p (sym_Name y)"
  shows "\<exists>st'. define_all define_name st p ys = Some (Inr st') \<and> ok st' p \<and>
    (\<forall>n. resolve st' p n =
       (case map_of (map (\<lambda>y. (sym_Name y, y)) ys) n of Some y \<Rightarrow> Some (Some y) | None \<Rightarrow> resolve st p n)) \<and>
    (\<forall>r. ok st r \<longrightarrow> \<not> sees st r p \<longrightarrow> ok st' r \<and> (\<forall>n. resolve st' r n = resolve st r n))"
  using assms
proof (induction ys arbitrary: st)
  case (Cons y ys)
  obtain s where s: "define_name st p y = Some (Inr s)" "resolve s p (sym_Name y) = Some (Some y)"
      "\<forall>n. own s p n \<longleftrightarrow> own st p n \<or> n = sym_Name y"
      "\<forall>n. n \<noteq> sym_Name y \<longrightarrow> resolve s p n = resolve st p n" "\<forall>r. ok st r \<longrightarrow> ok s r"
      "\<forall>r q. ok st r \<longrightarrow> sees s r q = sees st r q"
      "\<forall>r n. ok st r \<longrightarrow> \<not> sees st r p \<longrightarrow> resolve s r n = resolve st r n"
    using define_law [OF Cons.prems(1), of y] Cons.prems(3) by auto
  have "ok s p" using s(5) Cons.prems(1) by blast
  moreover have "\<forall>z \<in> set ys. \<not> own s p (sym_Name z)" using s(3) Cons.prems(2,3) by (auto simp: image_iff)
  ultimately obtain s' where s': "define_all define_name s p ys = Some (Inr s')" "ok s' p"
      "\<forall>n. resolve s' p n =
       (case map_of (map (\<lambda>y. (sym_Name y, y)) ys) n of Some y \<Rightarrow> Some (Some y) | None \<Rightarrow> resolve s p n)"
      "\<forall>r. ok s r \<longrightarrow> \<not> sees s r p \<longrightarrow> ok s' r \<and> (\<forall>n. resolve s' r n = resolve s r n)"
    using Cons.IH [of s] Cons.prems(2) by auto
  have "map_of (map (\<lambda>y. (sym_Name y, y)) ys) (sym_Name y) = None"
    using Cons.prems(2) by (auto simp: map_of_eq_None_iff)
  then have "resolve s' p n =
      (case map_of (map (\<lambda>y. (sym_Name y, y)) (y # ys)) n of Some y \<Rightarrow> Some (Some y) | None \<Rightarrow> resolve st p n)" for n
    using s'(3) s(2,4) by (cases "n = sym_Name y") (auto split: option.split)
  moreover have "ok s' r \<and> (\<forall>n. resolve s' r n = resolve st r n)" if "ok st r" "\<not> sees st r p" for r
    using that s(5-7) s'(4) by auto
  ultimately show ?case using s(1) s'(1,2) by auto
qed simp

lemma block:
  assumes "ok st p" and "child st p = (st1, q)" and "distinct (map sym_Name ys)"
  shows "\<exists>st2. define_all define_name st1 q ys = Some (Inr st2) \<and>
    (\<forall>n. resolve st2 q n =
       (case map_of (map (\<lambda>y. (sym_Name y, y)) ys) n of Some y \<Rightarrow> Some (Some y) | None \<Rightarrow> resolve st p n)) \<and>
    (\<forall>n. resolve st2 p n = resolve st p n)"
proof -
  note c = child_law [OF assms(1,2)]
  then have "ok st1 q" and fresh: "\<forall>y \<in> set ys. \<not> own st1 q (sym_Name y)" by blast+
  from define_all_fresh [OF this(1) assms(3) fresh] obtain st2 where
    st2: "define_all define_name st1 q ys = Some (Inr st2)"
      "\<forall>n. resolve st2 q n =
       (case map_of (map (\<lambda>y. (sym_Name y, y)) ys) n of Some y \<Rightarrow> Some (Some y) | None \<Rightarrow> resolve st1 q n)"
      "\<forall>r. ok st1 r \<longrightarrow> \<not> sees st1 r q \<longrightarrow> ok st2 r \<and> (\<forall>n. resolve st2 r n = resolve st1 r n)"
    by blast
  have "resolve st1 q n = resolve st p n" for n using c by blast
  moreover have "resolve st2 p n = resolve st p n" for n using c assms(1) st2(3) by metis
  ultimately show ?thesis using st2(1,2) by (simp cong: option.case_cong)
qed

end

section \<open>The implementation\<close>

text \<open>In a well-formed store every parent is older than its children.\<close>

definition scopes_ok :: "scopes \<Rightarrow> bool" where
  "scopes_ok \<sigma> \<longleftrightarrow> (\<forall>s < length \<sigma>. \<forall>p. Parent (\<sigma> ! s) = Some p \<longrightarrow> p < s)"

definition scope_ok :: "scopes \<Rightarrow> nat \<Rightarrow> bool" where
  "scope_ok \<sigma> s \<longleftrightarrow> scopes_ok \<sigma> \<and> s < length \<sigma>"

definition owns :: "scopes \<Rightarrow> nat \<Rightarrow> string \<Rightarrow> bool" where
  "owns \<sigma> s n \<longleftrightarrow> Symbols (\<sigma> ! s) n \<noteq> None"

text \<open>The scopes on the way to the universe scope.\<close>

inductive chain :: "scopes \<Rightarrow> nat \<Rightarrow> nat \<Rightarrow> bool" for \<sigma> where
  here: "chain \<sigma> s s"
| parent: "Parent (\<sigma> ! s) = Some p \<Longrightarrow> chain \<sigma> p t \<Longrightarrow> chain \<sigma> s t"

lemma Resolve_simp:
  "s < length \<sigma> \<Longrightarrow> Resolve \<sigma> s n =
     (case Symbols (\<sigma> ! s) n of
        Some y \<Rightarrow> Some (Some y)
      | None \<Rightarrow> (case Parent (\<sigma> ! s) of None \<Rightarrow> Some None | Some p \<Rightarrow> Resolve \<sigma> p n))"
  by (auto simp: Resolve_def Resolve_from.simps [of \<sigma> "Some s"] Resolve_from.simps [of \<sigma> None] split: option.split)

lemma chain_le:
  assumes "chain \<sigma> s t" and "scopes_ok \<sigma>" and "s < length \<sigma>"
  shows "t \<le> s"
  using assms by (induction rule: chain.induct) (fastforce simp: scopes_ok_def)+

lemma Resolve_returns: "scopes_ok \<sigma> \<Longrightarrow> s < length \<sigma> \<Longrightarrow> Resolve \<sigma> s n \<noteq> None"
proof (induction s rule: less_induct)
  case (less s)
  then show ?case by (auto simp: Resolve_simp scopes_ok_def split: option.split)
qed

text \<open>Resolving looks at the scopes of the chain only.\<close>

lemma Resolve_cong:
  assumes "scopes_ok \<sigma>" and "s < length \<sigma>" and "length \<sigma> \<le> length \<sigma>'"
    and "\<And>t. chain \<sigma> s t \<Longrightarrow> Parent (\<sigma>' ! t) = Parent (\<sigma> ! t) \<and> Symbols (\<sigma>' ! t) n = Symbols (\<sigma> ! t) n"
  shows "Resolve \<sigma>' s n = Resolve \<sigma> s n"
  using assms(2,4)
proof (induction s rule: less_induct)
  case (less s)
  have here: "Parent (\<sigma>' ! s) = Parent (\<sigma> ! s)" "Symbols (\<sigma>' ! s) n = Symbols (\<sigma> ! s) n"
    using less.prems(2) chain.here by blast+
  have "Resolve \<sigma>' p n = Resolve \<sigma> p n" if p: "Parent (\<sigma> ! s) = Some p" for p
  proof (rule less.IH)
    show "p < s" "p < length \<sigma>" using assms(1) less.prems(1) p by (auto simp: scopes_ok_def)
    show "Parent (\<sigma>' ! t) = Parent (\<sigma> ! t) \<and> Symbols (\<sigma>' ! t) n = Symbols (\<sigma> ! t) n" if "chain \<sigma> p t" for t
      using less.prems(2) chain.parent [OF p that] by blast
  qed
  then show ?case
    using here less.prems(1) assms(3) by (auto simp: Resolve_simp split: option.split)
qed

lemma scopes_ok_snoc: "scopes_ok \<sigma> \<Longrightarrow> p < length \<sigma> \<Longrightarrow> scopes_ok (\<sigma> @ [\<lparr>Parent = Some p, Symbols = m\<rparr>])"
  by (auto simp: scopes_ok_def nth_append)

lemma child_scope:
  assumes "scope_ok \<sigma> p" and "NewChild \<sigma> p = (\<sigma>', q)"
  shows "scope_ok \<sigma>' q \<and> Resolve \<sigma>' q n = Resolve \<sigma> p n \<and> \<not> owns \<sigma>' q n \<and>
    (scope_ok \<sigma> r \<longrightarrow> scope_ok \<sigma>' r \<and> Resolve \<sigma>' r n = Resolve \<sigma> r n \<and> \<not> chain \<sigma>' r q)"
proof -
  have ok: "scopes_ok \<sigma>" "p < length \<sigma>" using assms(1) by (auto simp: scope_ok_def)
  have \<sigma>': "\<sigma>' = \<sigma> @ [\<lparr>Parent = Some p, Symbols = Map.empty\<rparr>]" and q: "q = length \<sigma>"
    using assms(2) by (auto simp: NewChild_def NewScope_def)
  have ok': "scopes_ok \<sigma>'" using scopes_ok_snoc [OF ok] by (simp add: \<sigma>')
  have old: "Resolve \<sigma>' r n = Resolve \<sigma> r n" if "r < length \<sigma>" for r
    using that chain_le [OF _ ok(1) that]
    by (intro Resolve_cong [OF ok(1)]) (auto simp: \<sigma>' nth_append dest: le_less_trans)
  have "\<not> chain \<sigma>' r q" if "r < length \<sigma>" for r
    using chain_le [OF _ ok', of r q] that by (auto simp: \<sigma>' q)
  then show ?thesis
    using old ok ok' by (auto simp: scope_ok_def owns_def \<sigma>' q Resolve_simp)
qed

lemma define_scope:
  assumes "scope_ok \<sigma> p"
  shows "if owns \<sigma> p (sym_Name y) then Define \<sigma> p y = Some (Inl (AlreadyDefined (sym_Name y)))
    else \<exists>\<sigma>'. Define \<sigma> p y = Some (Inr \<sigma>') \<and> Resolve \<sigma>' p (sym_Name y) = Some (Some y) \<and>
      (\<forall>n. owns \<sigma>' p n \<longleftrightarrow> owns \<sigma> p n \<or> n = sym_Name y) \<and>
      (\<forall>n. n \<noteq> sym_Name y \<longrightarrow> Resolve \<sigma>' p n = Resolve \<sigma> p n) \<and>
      (\<forall>r. scope_ok \<sigma> r \<longrightarrow> scope_ok \<sigma>' r) \<and>
      (\<forall>r s. scope_ok \<sigma> r \<longrightarrow> chain \<sigma>' r s = chain \<sigma> r s) \<and>
      (\<forall>r n. scope_ok \<sigma> r \<longrightarrow> \<not> chain \<sigma> r p \<longrightarrow> Resolve \<sigma>' r n = Resolve \<sigma> r n)"
proof (cases "owns \<sigma> p (sym_Name y)")
  case True
  then show ?thesis using assms by (simp add: Define_def owns_def scope_ok_def)
next
  case False
  have ok: "scopes_ok \<sigma>" "p < length \<sigma>" using assms by (auto simp: scope_ok_def)
  define \<sigma>' where "\<sigma>' = \<sigma>[p := (\<sigma> ! p)\<lparr>Symbols := (Symbols (\<sigma> ! p))(sym_Name y \<mapsto> y)\<rparr>]"
  have parents: "Parent (\<sigma>' ! t) = Parent (\<sigma> ! t)" for t
    using ok(2) by (cases "t = p") (simp_all add: \<sigma>'_def)
  have ok': "scopes_ok \<sigma>'" using ok(1) by (simp add: scopes_ok_def parents) (simp add: \<sigma>'_def)
  have "chain \<sigma>' r s" if "chain \<sigma> r s" for r s
    using that by induction (auto simp: parents intro: chain.intros)
  moreover have "chain \<sigma> r s" if "chain \<sigma>' r s" for r s
    using that by induction (auto simp: parents intro: chain.intros)
  ultimately have chains: "chain \<sigma>' r s = chain \<sigma> r s" for r s by blast
  have others: "Resolve \<sigma>' r n = Resolve \<sigma> r n"
    if "r < length \<sigma>" "n \<noteq> sym_Name y \<or> \<not> chain \<sigma> r p" for r n
    using that(2) ok(2)
    by (intro Resolve_cong [OF ok(1) that(1)])
      (auto simp: parents, auto simp: \<sigma>'_def nth_list_update)
  have "Define \<sigma> p y = Some (Inr \<sigma>')" using False ok by (simp add: Define_def owns_def \<sigma>'_def)
  moreover have "Resolve \<sigma>' p (sym_Name y) = Some (Some y)" using ok(2) by (simp add: Resolve_simp \<sigma>'_def)
  moreover have "owns \<sigma>' p n \<longleftrightarrow> owns \<sigma> p n \<or> n = sym_Name y" for n
    using ok(2) by (simp add: owns_def \<sigma>'_def)
  moreover have "scope_ok \<sigma> r \<Longrightarrow> scope_ok \<sigma>' r" for r using ok' by (simp add: scope_ok_def \<sigma>'_def)
  ultimately show ?thesis
    using False chains others ok(2) by (simp add: scope_ok_def)
qed

interpretation scope_table: name_table scope_ok NewChild Define Resolve owns chain
proof
  show "Resolve \<sigma> s n \<noteq> None" if "scope_ok \<sigma> s" for \<sigma> s n
    using that Resolve_returns by (simp add: scope_ok_def)
qed (rule child_scope define_scope; assumption)+

text \<open>
  C16: Blocks. Entering a block with a new child scope, defining any distinct names in it and going
  back is invisible outside; inside, the new names hide outer ones and every other name means
  what it meant before. Defining never fails for names that the block does not have yet,
  and looking a name up always returns.
\<close>

theorem blocks_are_scoped:
  assumes "scope_ok \<sigma> p" and "NewChild \<sigma> p = (\<sigma>1, q)" and "distinct (map sym_Name ys)"
  shows "\<exists>\<sigma>2. define_all Define \<sigma>1 q ys = Some (Inr \<sigma>2) \<and>
    (\<forall>n. Resolve \<sigma>2 q n =
       (case map_of (map (\<lambda>y. (sym_Name y, y)) ys) n of Some y \<Rightarrow> Some (Some y) | None \<Rightarrow> Resolve \<sigma> p n)) \<and>
    (\<forall>n. Resolve \<sigma>2 p n = Resolve \<sigma> p n)"
  using assms by (rule scope_table.block)

theorem blocks_are_scoped_witness:
  "\<exists>\<sigma>2. define_all Define
      [\<lparr>Parent = None, Symbols = [''x'' \<mapsto> Sym ''x'' 1, ''y'' \<mapsto> Sym ''y'' 2]\<rparr>,
       \<lparr>Parent = Some 0, Symbols = Map.empty\<rparr>] 1 [Sym ''x'' 3] = Some (Inr \<sigma>2) \<and>
    Resolve \<sigma>2 1 ''x'' = Some (Some (Sym ''x'' 3)) \<and> Resolve \<sigma>2 1 ''y'' = Some (Some (Sym ''y'' 2)) \<and>
    Resolve \<sigma>2 0 ''x'' = Some (Some (Sym ''x'' 1))"
proof -
  let ?\<sigma> = "[\<lparr>Parent = None, Symbols = [''x'' \<mapsto> Sym ''x'' 1, ''y'' \<mapsto> Sym ''y'' 2]\<rparr>]"
  have "scope_ok ?\<sigma> 0" by (simp add: scope_ok_def scopes_ok_def)
  moreover have "NewChild ?\<sigma> 0 = (?\<sigma> @ [\<lparr>Parent = Some 0, Symbols = Map.empty\<rparr>], 1)"
    by (simp add: NewChild_def NewScope_def)
  moreover have "distinct (map sym_Name [Sym ''x'' 3])" by simp
  ultimately have "\<exists>\<sigma>2. define_all Define (?\<sigma> @ [\<lparr>Parent = Some 0, Symbols = Map.empty\<rparr>]) 1 [Sym ''x'' 3] = Some (Inr \<sigma>2) \<and>
    (\<forall>n. Resolve \<sigma>2 1 n =
       (case map_of (map (\<lambda>y. (sym_Name y, y)) [Sym ''x'' 3]) n of Some y \<Rightarrow> Some (Some y) | None \<Rightarrow> Resolve ?\<sigma> 0 n)) \<and>
    (\<forall>n. Resolve \<sigma>2 0 n = Resolve ?\<sigma> 0 n)"
    by (rule blocks_are_scoped)
  moreover have "Resolve ?\<sigma> 0 ''y'' = Some (Some (Sym ''y'' 2))" "Resolve ?\<sigma> 0 ''x'' = Some (Some (Sym ''x'' 1))"
    by (simp_all add: Resolve_simp)
  ultimately show ?thesis by auto
qed

end
