(* ===== verification/IR.thy ===== *)
theory IR
  imports Attributes Source_Text Types_Subst "HOL-Library.Word"
begin

text \<open>
  The intermediate representation, \<^verbatim>\<open>src/ir/ir.go\<close>: operands, instructions, functions and modules,
  the operations that build them, and the instantiation of generic templates. Value, slot and
  block numbers are 32-bit words. A nil type is \<open>NilType\<close>. Go finds the fields to copy by
  reflection; here \<open>cloneIRWithTypes\<close> is written out on the structures it meets, and leaves the
  unexported counters of a function at zero as the reflective copy does.
\<close>

type_synonym ValueID = "32 word"
type_synonym SlotID = "32 word"
type_synonym BlockID = "32 word"

section \<open>Operands\<close>

datatype OperandKind =
    OperandValue
  | OperandIntConst
  | OperandFloatConst
  | OperandBoolConst
  | OperandNullConst
  | OperandStructConst
  | OperandCStringConst
  | OperandFunctionConst
  | OperandZeroConst
  | OperandSizeofConst
  | OperandBinaryConst

datatype GenericReference =
  GenericReference (gr_Module: string) (gr_Name: string) (gr_TypeArguments: "ty list")

datatype Operand =
  Operand (op_Kind: OperandKind) (op_Type: ty) (op_Generic: "GenericReference option")
    (op_Value: ValueID) (op_IntValue: string) (op_FloatValue: string) (op_BoolValue: bool)
    (op_Fields: "Operand list") (op_StringValue: string) (op_FunctionName: string)
    (op_SubjectType: ty) (op_Operator: string)
    (op_Left: "Operand option") (op_Right: "Operand option")

definition ValueOperand :: "ValueID \<Rightarrow> ty \<Rightarrow> Operand" where
  "ValueOperand i t = Operand OperandValue t None i [] [] False [] [] [] NilType [] None None"

definition IntConstOperand :: "string \<Rightarrow> ty \<Rightarrow> Operand" where
  "IntConstOperand v t = Operand OperandIntConst t None 0 v [] False [] [] [] NilType [] None None"

definition FloatConstOperand :: "string \<Rightarrow> ty \<Rightarrow> Operand" where
  "FloatConstOperand v t = Operand OperandFloatConst t None 0 [] v False [] [] [] NilType [] None None"

definition BoolConstOperand :: "bool \<Rightarrow> Operand" where
  "BoolConstOperand v =
    Operand OperandBoolConst (PrimitiveTy PrimitiveBool) None 0 [] [] v [] [] [] NilType [] None None"

definition NullConstOperand :: "ty \<Rightarrow> Operand" where
  "NullConstOperand t = Operand OperandNullConst t None 0 [] [] False [] [] [] NilType [] None None"

definition StructConstOperand :: "ty \<Rightarrow> Operand list \<Rightarrow> Operand" where
  "StructConstOperand t fs = Operand OperandStructConst t None 0 [] [] False fs [] [] NilType [] None None"

definition CStringConstOperand :: "string \<Rightarrow> Operand" where
  "CStringConstOperand v =
    Operand OperandCStringConst (PointerType (PrimitiveTy PrimitiveU8) False) None 0 [] [] False [] v []
      NilType [] None None"

definition FunctionConstOperand :: "string \<Rightarrow> ty \<Rightarrow> Operand" where
  "FunctionConstOperand n t =
    Operand OperandFunctionConst t None 0 [] [] False [] [] n NilType [] None None"

definition ZeroConstOperand :: "ty \<Rightarrow> Operand" where
  "ZeroConstOperand t = Operand OperandZeroConst t None 0 [] [] False [] [] [] NilType [] None None"

definition SizeofConstOperand :: "ty \<Rightarrow> Operand" where
  "SizeofConstOperand subject =
    Operand OperandSizeofConst (PrimitiveTy PrimitiveUsz) None 0 [] [] False [] [] [] subject [] None None"

definition BinaryConstOperand :: "string \<Rightarrow> Operand \<Rightarrow> Operand \<Rightarrow> ty \<Rightarrow> Operand" where
  "BinaryConstOperand oper l r t =
    Operand OperandBinaryConst t None 0 [] [] False [] [] [] NilType oper (Some l) (Some r)"

section \<open>Instructions\<close>

record FunctionSignature =
  sig_ParamTypes :: "ty list"
  sig_ReturnType :: ty
  sig_Variadic :: bool
  sig_Attributes :: Attributes

datatype TraitRequirementReference =
  TraitRequirementReference (trr_Name: string) (trr_ReceiverType: ty)

text \<open>The instructions with two operands and a result.\<close>

datatype binary =
    Add | Sub | Mul | Div
  | CmpEq | CmpNe | CmpLt | CmpLe | CmpGt | CmpGe
  | LogicalAnd | LogicalOr | Mod
  | BitwiseAnd | BitwiseOr | BitwiseXor | ShiftLeft | ShiftRight

datatype unary = Negate | LogicalNot | BitwiseNot

record CallInstr =
  call_Dest :: ValueID
  call_Name :: string
  call_Callee :: "Operand option"
  call_Args :: "Operand list"
  call_Signature :: FunctionSignature
  call_Generic :: "GenericReference option"
  call_Requirement :: "TraitRequirementReference option"
  call_SourceName :: string
  call_SourceLoc :: Location

record InlineAsmInstr =
  asm_Dest :: ValueID
  asm_Template :: string
  asm_Constraints :: "string list"
  asm_Clobbers :: "string list"
  asm_Args :: "Operand list"
  asm_ResultType :: ty
  asm_SideEffect :: bool

datatype Instr =
    Binary binary ValueID Operand Operand
  | Unary unary ValueID Operand
  | Alloca SlotID
  | AllocaArray ValueID ty Operand
  | Load ValueID SlotID
  | LoadGlobal ValueID string ty
  | Store SlotID Operand
  | StoreGlobal string Operand
  | LoadPtr ValueID Operand
  | StorePtr Operand Operand
  | InsertValue ValueID Operand Operand int
  | ExtractValue ValueID Operand int
  | AddressOf ValueID SlotID
  | AddressOfGlobal ValueID string ty
  | FieldAddress ValueID Operand string
  | ElementAddress ValueID Operand Operand ty bool
  | Call CallInstr
  | InlineAsm InlineAsmInstr
  | Jump BlockID
  | Branch Operand BlockID BlockID
  | Return "Operand option"
  | Unreachable
  | Cast ValueID Operand ty
  | Sizeof ValueID ty
  | Alignof ValueID ty
  | Offsetof ValueID ty string
  | StringConst ValueID string bool

section \<open>Functions and modules\<close>

record Slot =
  slot_ID :: SlotID
  slot_Type :: ty
  slot_Name :: string

record Block =
  block_ID :: BlockID
  block_Name :: string
  block_Instr :: "Instr list"

record SourceOrigin =
  so_Name :: string
  so_Loc :: Location

record Parameter =
  par_Index :: nat
  par_Name :: string
  par_Type :: ty
  par_Slot :: SlotID

datatype Linkage = LinkageInternal | LinkageExternal

datatype Visibility = VisibilityDefault | VisibilityHidden

text \<open>An instruction location is the pair of a block and an index.\<close>

record Function =
  fn_Name :: string
  fn_Linkage :: Linkage
  fn_Visibility :: Visibility
  fn_Signature :: FunctionSignature
  fn_Parameters :: "Parameter list"
  fn_Slots :: "Slot list"
  fn_Attributes :: Attributes
  fn_Values :: "ValueID \<rightharpoonup> ty"
  fn_Origins :: "BlockID \<times> nat \<rightharpoonup> SourceOrigin"
  fn_Blocks :: "Block list"
  fn_Entry :: BlockID
  fn_nextValue :: ValueID
  fn_nextSlot :: SlotID
  fn_nextBlock :: BlockID

definition empty_signature :: FunctionSignature where
  "empty_signature =
    \<lparr>sig_ParamTypes = [], sig_ReturnType = NilType, sig_Variadic = False, sig_Attributes = []\<rparr>"

definition NewFunction :: "string \<Rightarrow> Linkage \<Rightarrow> Attributes \<Rightarrow> Function" where
  "NewFunction n l as =
    \<lparr>fn_Name = n, fn_Linkage = l, fn_Visibility = VisibilityDefault, fn_Signature = empty_signature,
     fn_Parameters = [], fn_Slots = [], fn_Attributes = as, fn_Values = Map.empty,
     fn_Origins = Map.empty, fn_Blocks = [], fn_Entry = 0, fn_nextValue = 0, fn_nextSlot = 0,
     fn_nextBlock = 0\<rparr>"

definition NewValueOfType :: "Function \<Rightarrow> ty \<Rightarrow> Function \<times> ValueID" where
  "NewValueOfType f t =
    (let i = fn_nextValue f + 1
     in (f\<lparr>fn_nextValue := i, fn_Values := (fn_Values f)(i \<mapsto> t)\<rparr>, i))"

definition NewValue :: "Function \<Rightarrow> Function \<times> ValueID" where
  "NewValue f = NewValueOfType f NilType"

text \<open>A missing value has the nil type.\<close>

definition ValueType :: "Function \<Rightarrow> ValueID \<Rightarrow> ty" where
  "ValueType f i = (case fn_Values f i of Some t \<Rightarrow> t | None \<Rightarrow> NilType)"

definition NewSlot :: "Function \<Rightarrow> ty \<Rightarrow> string \<Rightarrow> Function \<times> SlotID" where
  "NewSlot f t n =
    (let i = fn_nextSlot f + 1
     in (f\<lparr>fn_nextSlot := i,
           fn_Slots := fn_Slots f @ [\<lparr>slot_ID = i, slot_Type = t, slot_Name = n\<rparr>]\<rparr>, i))"

text \<open>The new block is returned by its position in \<open>fn_Blocks\<close>.\<close>

definition NewBlock :: "Function \<Rightarrow> string \<Rightarrow> Function \<times> nat" where
  "NewBlock f n =
    (let i = fn_nextBlock f + 1
     in (f\<lparr>fn_nextBlock := i,
           fn_Blocks := fn_Blocks f @ [\<lparr>block_ID = i, block_Name = n, block_Instr = []\<rparr>]\<rparr>,
         length (fn_Blocks f)))"

definition AddParameter :: "Function \<Rightarrow> string \<Rightarrow> ty \<Rightarrow> SlotID \<Rightarrow> Function" where
  "AddParameter f n t s =
    f\<lparr>fn_Parameters := fn_Parameters f @
       [\<lparr>par_Index = length (fn_Parameters f), par_Name = n, par_Type = t, par_Slot = s\<rparr>]\<rparr>"

record ExternDecl =
  ed_Name :: string
  ed_Signature :: FunctionSignature
  ed_From :: string
  ed_Visibility :: Visibility

record Global =
  gl_Name :: string
  gl_Type :: ty
  gl_Mutable :: bool
  gl_Linkage :: Linkage
  gl_Visibility :: Visibility
  gl_Value :: Operand

record ExternGlobal =
  eg_Name :: string
  eg_Type :: ty
  eg_Mutable :: bool
  eg_Visibility :: Visibility

record Module =
  m_Functions :: "Function list"
  m_Externs :: "ExternDecl list"
  m_Globals :: "Global list"
  m_ExternGlobals :: "ExternGlobal list"
  m_Initializer :: string
  m_Entry :: string

definition AddFunction :: "Module \<Rightarrow> Function \<Rightarrow> Module" where
  "AddFunction m f = m\<lparr>m_Functions := m_Functions m @ [f]\<rparr>"

definition AddExtern :: "Module \<Rightarrow> ExternDecl \<Rightarrow> Module" where
  "AddExtern m e = m\<lparr>m_Externs := m_Externs m @ [e]\<rparr>"

definition AddGlobal :: "Module \<Rightarrow> Global \<Rightarrow> Module" where
  "AddGlobal m g = m\<lparr>m_Globals := m_Globals m @ [g]\<rparr>"

definition AddExternGlobal :: "Module \<Rightarrow> ExternGlobal \<Rightarrow> Module" where
  "AddExternGlobal m g =
    (if \<exists>x \<in> set (m_ExternGlobals m). eg_Name x = eg_Name g then m
     else m\<lparr>m_ExternGlobals := m_ExternGlobals m @ [g]\<rparr>)"

section \<open>Generic templates\<close>

record GenericTemplate =
  gt_Module :: string
  gt_Name :: string
  gt_Parameters :: "ty type_parameter list"
  gt_Functions :: "Function list"

type_synonym bindings = "string \<rightharpoonup> ty"

definition clone_generic :: "bindings \<Rightarrow> GenericReference \<Rightarrow> GenericReference" where
  "clone_generic b g =
    GenericReference (gr_Module g) (gr_Name g) (map (SubstituteParameters b) (gr_TypeArguments g))"

primrec clone_operand :: "bindings \<Rightarrow> Operand \<Rightarrow> Operand" where
  "clone_operand b (Operand k t g v iv fv bv fs sv fn st oper l r) =
    Operand k (SubstituteParameters b t) (map_option (clone_generic b) g) v iv fv bv
      (map (clone_operand b) fs) sv fn (SubstituteParameters b st) oper
      (map_option (clone_operand b) l) (map_option (clone_operand b) r)"

definition clone_signature :: "bindings \<Rightarrow> FunctionSignature \<Rightarrow> FunctionSignature" where
  "clone_signature b s =
    s\<lparr>sig_ParamTypes := map (SubstituteParameters b) (sig_ParamTypes s),
      sig_ReturnType := SubstituteParameters b (sig_ReturnType s)\<rparr>"

definition clone_requirement ::
  "bindings \<Rightarrow> TraitRequirementReference \<Rightarrow> TraitRequirementReference" where
  "clone_requirement b r =
    TraitRequirementReference (trr_Name r) (SubstituteParameters b (trr_ReceiverType r))"

definition clone_call :: "bindings \<Rightarrow> CallInstr \<Rightarrow> CallInstr" where
  "clone_call b c =
    c\<lparr>call_Callee := map_option (clone_operand b) (call_Callee c),
      call_Args := map (clone_operand b) (call_Args c),
      call_Signature := clone_signature b (call_Signature c),
      call_Generic := map_option (clone_generic b) (call_Generic c),
      call_Requirement := map_option (clone_requirement b) (call_Requirement c)\<rparr>"

definition clone_asm :: "bindings \<Rightarrow> InlineAsmInstr \<Rightarrow> InlineAsmInstr" where
  "clone_asm b a =
    a\<lparr>asm_Args := map (clone_operand b) (asm_Args a),
      asm_ResultType := SubstituteParameters b (asm_ResultType a)\<rparr>"

fun clone_instr :: "bindings \<Rightarrow> Instr \<Rightarrow> Instr" where
  "clone_instr b (Binary k d l r) = Binary k d (clone_operand b l) (clone_operand b r)"
| "clone_instr b (Unary k d x) = Unary k d (clone_operand b x)"
| "clone_instr b (Alloca s) = Alloca s"
| "clone_instr b (AllocaArray d t n) = AllocaArray d (SubstituteParameters b t) (clone_operand b n)"
| "clone_instr b (Load d s) = Load d s"
| "clone_instr b (LoadGlobal d n t) = LoadGlobal d n (SubstituteParameters b t)"
| "clone_instr b (Store s x) = Store s (clone_operand b x)"
| "clone_instr b (StoreGlobal n x) = StoreGlobal n (clone_operand b x)"
| "clone_instr b (LoadPtr d p) = LoadPtr d (clone_operand b p)"
| "clone_instr b (StorePtr p x) = StorePtr (clone_operand b p) (clone_operand b x)"
| "clone_instr b (InsertValue d a x i) = InsertValue d (clone_operand b a) (clone_operand b x) i"
| "clone_instr b (ExtractValue d a i) = ExtractValue d (clone_operand b a) i"
| "clone_instr b (AddressOf d s) = AddressOf d s"
| "clone_instr b (AddressOfGlobal d n t) = AddressOfGlobal d n (SubstituteParameters b t)"
| "clone_instr b (FieldAddress d x f) = FieldAddress d (clone_operand b x) f"
| "clone_instr b (ElementAddress d x i t ao) =
     ElementAddress d (clone_operand b x) (clone_operand b i) (SubstituteParameters b t) ao"
| "clone_instr b (Call c) = Call (clone_call b c)"
| "clone_instr b (InlineAsm a) = InlineAsm (clone_asm b a)"
| "clone_instr b (Jump t) = Jump t"
| "clone_instr b (Branch c t e) = Branch (clone_operand b c) t e"
| "clone_instr b (Return v) = Return (map_option (clone_operand b) v)"
| "clone_instr b Unreachable = Unreachable"
| "clone_instr b (Cast d x t) = Cast d (clone_operand b x) (SubstituteParameters b t)"
| "clone_instr b (Sizeof d t) = Sizeof d (SubstituteParameters b t)"
| "clone_instr b (Alignof d t) = Alignof d (SubstituteParameters b t)"
| "clone_instr b (Offsetof d t f) = Offsetof d (SubstituteParameters b t) f"
| "clone_instr b (StringConst d v z) = StringConst d v z"

definition clone_block :: "bindings \<Rightarrow> Block \<Rightarrow> Block" where
  "clone_block b x = x\<lparr>block_Instr := map (clone_instr b) (block_Instr x)\<rparr>"

definition clone_function :: "bindings \<Rightarrow> Function \<Rightarrow> Function" where
  "clone_function b f =
    f\<lparr>fn_Signature := clone_signature b (fn_Signature f),
      fn_Parameters := map (\<lambda>p. p\<lparr>par_Type := SubstituteParameters b (par_Type p)\<rparr>) (fn_Parameters f),
      fn_Slots := map (\<lambda>s. s\<lparr>slot_Type := SubstituteParameters b (slot_Type s)\<rparr>) (fn_Slots f),
      fn_Values := (\<lambda>i. map_option (SubstituteParameters b) (fn_Values f i)),
      fn_Blocks := map (clone_block b) (fn_Blocks f),
      fn_nextValue := 0, fn_nextSlot := 0, fn_nextBlock := 0\<rparr>"

datatype template_error =
    TypeArgumentCount string string nat nat
  | NoBody string string

definition template_bindings :: "ty type_parameter list \<Rightarrow> ty list \<Rightarrow> bindings" where
  "template_bindings ps ts = map_of (rev (zip (map TypeParameter_Key ps) ts))"

text \<open>\<open>Functions\<close> of a template is nil when it has no body.\<close>

definition InstantiateGenericTemplate ::
  "GenericTemplate \<Rightarrow> ty list \<Rightarrow> template_error + Function list" where
  "InstantiateGenericTemplate t ts =
    (if length ts \<noteq> length (gt_Parameters t)
     then Inl (TypeArgumentCount (gt_Module t) (gt_Name t) (length (gt_Parameters t)) (length ts))
     else if gt_Functions t = [] then Inl (NoBody (gt_Module t) (gt_Name t))
     else Inr (map (clone_function (template_bindings (gt_Parameters t) ts)) (gt_Functions t)))"

end
