(* ===== verification/Float64.thy ===== *)
theory Float64
  imports Prelude "HOL-Library.Word" "HOL-Library.Char_ord"
begin

text \<open>
  Go's \<open>float64\<close> and \<open>float32\<close> as the compile-time evaluator uses them: IEEE 754 binary formats with
  rounding to nearest, ties to even, the bit patterns of \<open>math.Float64bits\<close> and its relatives, and
  \<open>strconv.ParseFloat\<close>. A finite value is a sign, a mantissa and an exponent; all
  NaNs are one value, whose bit pattern is an argument where it can be observed.
\<close>

section \<open>Values\<close>

datatype fp = NaN | Inf bool | Fin bool int int

record float_format =
  prec :: nat
  e_min :: int
  e_bits :: nat

definition binary64 :: float_format where
  "binary64 = \<lparr>prec = 53, e_min = - 1074, e_bits = 11\<rparr>"

definition binary32 :: float_format where
  "binary32 = \<lparr>prec = 24, e_min = - 149, e_bits = 8\<rparr>"

definition e_max :: "float_format \<Rightarrow> int" where
  "e_max F = e_min F + 2 ^ e_bits F - 3"

text \<open>Mantissas are normalised: only the smallest exponent has mantissas without leading bit.\<close>

fun canonical :: "float_format \<Rightarrow> fp \<Rightarrow> bool" where
  "canonical F (Fin s m e) \<longleftrightarrow>
     0 \<le> m \<and> m < 2 ^ prec F \<and> e_min F \<le> e \<and> e \<le> e_max F \<and> (2 ^ (prec F - 1) \<le> m \<or> e = e_min F)"
| "canonical F x \<longleftrightarrow> True"

section \<open>Rounding\<close>

fun bitlen :: "int \<Rightarrow> int" where
  "bitlen n = (if n \<le> 0 then 0 else 1 + bitlen (n div 2))"

declare bitlen.simps [simp del]

text \<open>The even-tie rounding of the quotient of a natural number by a positive one.\<close>

definition round_div :: "int \<Rightarrow> int \<Rightarrow> int" where
  "round_div n d =
    (let q = n div d; r = n mod d
     in if 2 * r > d \<or> 2 * r = d \<and> odd q then q + 1 else q)"

text \<open>Numerator and denominator of \<open>n / d / 2\<^sup>e\<close>.\<close>

definition scaled :: "int \<Rightarrow> int \<Rightarrow> int \<Rightarrow> int \<times> int" where
  "scaled n d e = (if e \<ge> 0 then (n, d * 2 ^ nat e) else (n * 2 ^ nat (- e), d))"

definition fit_exponent :: "float_format \<Rightarrow> int \<Rightarrow> int \<Rightarrow> int" where
  "fit_exponent F n d =
    (let e = bitlen n - bitlen d - int (prec F); (a, b) = scaled n d e
     in max (e_min F) (if a < 2 ^ prec F * b then e else e + 1))"

definition round_fp :: "float_format \<Rightarrow> bool \<Rightarrow> int \<Rightarrow> int \<Rightarrow> fp" where
  "round_fp F s n d =
    (if n = 0 then Fin s 0 (e_min F)
     else
       (let e = fit_exponent F n d; (a, b) = scaled n d e; q = round_div a b;
            (q, e) = (if q = 2 ^ prec F then (2 ^ (prec F - 1), e + 1) else (q, e))
        in if e > e_max F then Inf s else Fin s q e))"

text \<open>The rounding of \<open>n \<cdot> 2\<^sup>e / d\<close>.\<close>

definition round_scaled :: "float_format \<Rightarrow> bool \<Rightarrow> int \<Rightarrow> int \<Rightarrow> int \<Rightarrow> fp" where
  "round_scaled F s n d e = (case scaled n d (- e) of (a, b) \<Rightarrow> round_fp F s a b)"

section \<open>Arithmetic\<close>

fun fp_neg :: "fp \<Rightarrow> fp" where
  "fp_neg NaN = NaN"
| "fp_neg (Inf s) = Inf (\<not> s)"
| "fp_neg (Fin s m e) = Fin (\<not> s) m e"

definition signed :: "bool \<Rightarrow> int \<Rightarrow> int" where
  "signed s m = (if s then - m else m)"

text \<open>The mantissa at a smaller exponent.\<close>

definition aligned :: "bool \<Rightarrow> int \<Rightarrow> int \<Rightarrow> int \<Rightarrow> int" where
  "aligned s m e g = signed s m * 2 ^ nat (e - g)"

fun fp_add :: "fp \<Rightarrow> fp \<Rightarrow> fp" where
  "fp_add (Fin s m e) (Fin t n f) =
    (let g = min e f; a = aligned s m e g + aligned t n f g
     in if a = 0 then Fin (s \<and> t) 0 (e_min binary64)
        else round_scaled binary64 (a < 0) \<bar>a\<bar> 1 g)"
| "fp_add (Inf s) (Inf t) = (if s = t then Inf s else NaN)"
| "fp_add (Inf s) (Fin t n f) = Inf s"
| "fp_add (Fin s m e) (Inf t) = Inf t"
| "fp_add NaN y = NaN"
| "fp_add x NaN = NaN"

definition fp_sub :: "fp \<Rightarrow> fp \<Rightarrow> fp" where
  "fp_sub x y = fp_add x (fp_neg y)"

fun fp_mul :: "fp \<Rightarrow> fp \<Rightarrow> fp" where
  "fp_mul (Fin s m e) (Fin t n f) = round_scaled binary64 (s \<noteq> t) (m * n) 1 (e + f)"
| "fp_mul (Inf s) (Inf t) = Inf (s \<noteq> t)"
| "fp_mul (Inf s) (Fin t n f) = (if n = 0 then NaN else Inf (s \<noteq> t))"
| "fp_mul (Fin s m e) (Inf t) = (if m = 0 then NaN else Inf (s \<noteq> t))"
| "fp_mul NaN y = NaN"
| "fp_mul x NaN = NaN"

fun fp_div :: "fp \<Rightarrow> fp \<Rightarrow> fp" where
  "fp_div (Fin s m e) (Fin t n f) =
    (if n = 0 then (if m = 0 then NaN else Inf (s \<noteq> t))
     else round_scaled binary64 (s \<noteq> t) m n (e - f))"
| "fp_div (Inf s) (Inf t) = NaN"
| "fp_div (Inf s) (Fin t n f) = Inf (s \<noteq> t)"
| "fp_div (Fin s m e) (Inf t) = Fin (s \<noteq> t) 0 (e_min binary64)"
| "fp_div NaN y = NaN"
| "fp_div x NaN = NaN"

fun fp_less :: "fp \<Rightarrow> fp \<Rightarrow> bool" where
  "fp_less (Fin s m e) (Fin t n f) \<longleftrightarrow> aligned s m e (min e f) < aligned t n f (min e f)"
| "fp_less (Inf s) (Inf t) \<longleftrightarrow> s \<and> \<not> t"
| "fp_less (Inf s) (Fin t n f) \<longleftrightarrow> s"
| "fp_less (Fin s m e) (Inf t) \<longleftrightarrow> \<not> t"
| "fp_less NaN y \<longleftrightarrow> False"
| "fp_less x NaN \<longleftrightarrow> False"

fun to_format :: "float_format \<Rightarrow> fp \<Rightarrow> fp" where
  "to_format F (Fin s m e) = round_scaled F s m 1 e"
| "to_format F x = x"

text \<open>\<open>float64(float32(x))\<close>.\<close>

definition round32 :: "fp \<Rightarrow> fp" where
  "round32 x = to_format binary64 (to_format binary32 x)"

definition fp_zero :: fp where
  "fp_zero = Fin False 0 (e_min binary64)"

section \<open>Bit patterns\<close>

fun fp_bits :: "float_format \<Rightarrow> int \<Rightarrow> fp \<Rightarrow> int" where
  "fp_bits F nan NaN = nan"
| "fp_bits F nan (Inf s) =
    ((if s then 1 else 0) * 2 ^ e_bits F + 2 ^ e_bits F - 1) * 2 ^ (prec F - 1)"
| "fp_bits F nan (Fin s m e) =
    ((if s then 1 else 0) * 2 ^ e_bits F + (e - e_min F)) * 2 ^ (prec F - 1) + m"

definition fp_frombits :: "float_format \<Rightarrow> int \<Rightarrow> fp" where
  "fp_frombits F b =
    (let frac = b mod 2 ^ (prec F - 1); high = b div 2 ^ (prec F - 1);
         biased = high mod 2 ^ e_bits F; s = odd (high div 2 ^ e_bits F)
     in if biased = 2 ^ e_bits F - 1 then (if frac = 0 then Inf s else NaN)
        else if biased = 0 then Fin s frac (e_min F)
        else Fin s (frac + 2 ^ (prec F - 1)) (e_min F + biased - 1))"

definition Float64bits :: "64 word \<Rightarrow> fp \<Rightarrow> 64 word" where
  "Float64bits nan x = word_of_int (fp_bits binary64 (uint nan) x)"

definition Float64frombits :: "64 word \<Rightarrow> fp" where
  "Float64frombits b = fp_frombits binary64 (uint b)"

text \<open>\<open>Float32bits(float32(x))\<close> and \<open>float64(Float32frombits(b))\<close>.\<close>

definition Float32bits :: "32 word \<Rightarrow> fp \<Rightarrow> 32 word" where
  "Float32bits nan x = word_of_int (fp_bits binary32 (uint nan) (to_format binary32 x))"

definition Float32frombits :: "32 word \<Rightarrow> fp" where
  "Float32frombits b = to_format binary64 (fp_frombits binary32 (uint b))"

section \<open>Parsing\<close>

definition is_dec_digit :: "char \<Rightarrow> bool" where
  "is_dec_digit c \<longleftrightarrow> CHR ''0'' \<le> c \<and> c \<le> CHR ''9''"

text \<open>Go's \<open>lower\<close> sets one bit; it is only compared with letters.\<close>

definition lower :: "char \<Rightarrow> char" where
  "lower c = (if CHR ''A'' \<le> c \<and> c \<le> CHR ''Z'' then char_of (of_char c + 32 :: nat) else c)"

definition is_hex_letter :: "char \<Rightarrow> bool" where
  "is_hex_letter c \<longleftrightarrow> CHR ''a'' \<le> lower c \<and> lower c \<le> CHR ''f''"

definition char_digit :: "char \<Rightarrow> int" where
  "char_digit c = (if is_dec_digit c then of_char c - 48 else of_char (lower c) - 87)"

datatype mantissa = Mantissa (sawdot: bool) (sawdigits: bool) (mant: int) (fraction: int)

fun mantissa_loop :: "bool \<Rightarrow> string \<Rightarrow> mantissa \<Rightarrow> mantissa \<times> string" where
  "mantissa_loop hex [] a = (a, [])"
| "mantissa_loop hex (c # cs) a =
    (if c = CHR ''_'' then mantissa_loop hex cs a
     else if c = CHR ''.'' then
       (if sawdot a then (a, c # cs)
        else mantissa_loop hex cs (Mantissa True (sawdigits a) (mant a) (fraction a)))
     else if is_dec_digit c \<or> hex \<and> is_hex_letter c then
       mantissa_loop hex cs
         (Mantissa (sawdot a) True (mant a * (if hex then 16 else 10) + char_digit c)
           (if sawdot a then fraction a + 1 else fraction a))
     else (a, c # cs))"

fun exponent_loop :: "string \<Rightarrow> int \<Rightarrow> int \<times> string" where
  "exponent_loop [] e = (e, [])"
| "exponent_loop (c # cs) e =
    (if c = CHR ''_'' then exponent_loop cs e
     else if is_dec_digit c then exponent_loop cs (if e < 10000 then e * 10 + char_digit c else e)
     else (e, c # cs))"

definition read_sign :: "string \<Rightarrow> bool \<times> string" where
  "read_sign s =
    (case s of
       [] \<Rightarrow> (False, s)
     | c # cs \<Rightarrow> if c = CHR ''+'' then (False, cs) else if c = CHR ''-'' then (True, cs) else (False, s))"

text \<open>The exponent part and what follows it.\<close>

definition read_exponent :: "bool \<Rightarrow> string \<Rightarrow> (int \<times> string) option" where
  "read_exponent hex s =
    (case s of
       [] \<Rightarrow> if hex then None else Some (0, [])
     | c # cs \<Rightarrow>
         if lower c = (if hex then CHR ''p'' else CHR ''e'') then
           (case read_sign cs of (neg, ds) \<Rightarrow>
              if ds = [] \<or> \<not> is_dec_digit (hd ds) then None
              else (case exponent_loop ds 0 of (e, rest) \<Rightarrow> Some (if neg then - e else e, rest)))
         else if hex then None else Some (0, s))"

fun underscore_loop :: "bool \<Rightarrow> char \<Rightarrow> string \<Rightarrow> bool" where
  "underscore_loop hex saw [] \<longleftrightarrow> saw \<noteq> CHR ''_''"
| "underscore_loop hex saw (c # cs) \<longleftrightarrow>
    (if is_dec_digit c \<or> hex \<and> is_hex_letter c then underscore_loop hex CHR ''0'' cs
     else if c = CHR ''_'' then saw = CHR ''0'' \<and> underscore_loop hex CHR ''_'' cs
     else saw \<noteq> CHR ''_'' \<and> underscore_loop hex CHR ''!'' cs)"

definition underscoreOK :: "string \<Rightarrow> bool" where
  "underscoreOK s =
    (let s = snd (read_sign s)
     in if length s \<ge> 2 \<and> hd s = CHR ''0'' \<and> lower (s ! 1) \<in> {CHR ''b'', CHR ''o'', CHR ''x''}
        then underscore_loop (lower (s ! 1) = CHR ''x'') CHR ''0'' (drop 2 s)
        else underscore_loop False CHR ''^'' s)"

definition special :: "string \<Rightarrow> fp option" where
  "special s =
    (case read_sign s of (neg, t) \<Rightarrow>
       if map lower t \<in> {''inf'', ''infinity''} then Some (Inf neg)
       else if map lower s = ''nan'' then Some NaN else None)"

text \<open>\<open>None\<close> is an error: bad syntax, or a value out of range.\<close>

definition ParseFloat :: "string \<Rightarrow> fp option" where
  "ParseFloat s =
    (case special s of
       Some x \<Rightarrow> Some x
     | None \<Rightarrow>
         (case read_sign s of (neg, t) \<Rightarrow>
            let hex = (length t > 2 \<and> hd t = CHR ''0'' \<and> lower (t ! 1) = CHR ''x'')
            in (case mantissa_loop hex (if hex then drop 2 t else t) (Mantissa False False 0 0) of
                  (a, rest) \<Rightarrow>
                    if \<not> sawdigits a then None
                    else (case read_exponent hex rest of
                            Some (e, []) \<Rightarrow>
                              if CHR ''_'' \<in> set s \<and> \<not> underscoreOK s then None
                              else
                                (let x = (if hex then round_scaled binary64 neg (mant a) 1 (e - 4 * fraction a)
                                   else if e - fraction a \<ge> 0
                                   then round_fp binary64 neg (mant a * 10 ^ nat (e - fraction a)) 1
                                   else round_fp binary64 neg (mant a) (10 ^ nat (fraction a - e)))
                                 in case x of Inf s \<Rightarrow> None | _ \<Rightarrow> Some x)
                          | _ \<Rightarrow> None))))"

end
