(* ===== verification/Eval_Values.thy ===== *)
theory Eval_Values
  imports IR Types_Compat Float64 "HOL-Library.Signed_Division"
begin

text \<open>
  Values of the compile-time evaluator, \<^verbatim>\<open>src/ir/eval.go\<close>: their representation with shared
  storage, operands, pointers into slots, and the arithmetic on them.

  Go shares two kinds of storage: the slot variables \<open>*EvalValue\<close> (cells) and the
  backing arrays of the \<open>Aggregate\<close> slices, which are never appended to or cut. Both are lists in the
  evaluator's state, indexed by address, so a copied value keeps referring to the same array. A
  computation \<open>'a ev\<close> takes the evaluator and does not return, or returns an error or a
  value, with the evaluator as it then is.
\<close>

section \<open>Values and errors\<close>

datatype evalPath = EvalPath (ep_index: int) (ep_typ: ty) (ep_union: bool)

record EvalValue =
  ev_Type :: ty
  ev_Integer :: "int option"
  ev_Float :: "fp option"
  ev_Boolean :: bool
  ev_Aggregate :: "nat option"
  ev_pointer :: "(nat \<times> evalPath list) option"

datatype detail =
    UnavailableFunction string
  | IndirectCall
  | UnavailableInstr Instr
  | UnavailableOperand OperandKind

record unavailable =
  un_SourceName :: string
  un_SourceLoc :: Location
  un_Detail :: detail
  un_CallStack :: "SourceOrigin list"

datatype eval_error =
    Unavailable unavailable
  | InCall string eval_error
  | DepthExceeded string
  | ArgumentCount string nat nat
  | MissingBlock BlockID string
  | FellOff string string
  | UnreachableCode string
  | UninitializedSlot SlotID string
  | UnavailableSlot SlotID string
  | UnavailableGlobal string
  | ValueOutsideFrame
  | UndefinedValue ValueID
  | InvalidInteger string
  | InvalidFloat string
  | FieldBase
  | FieldOfNonPointer
  | FieldUnavailable string
  | InvalidLoad
  | InvalidStore
  | EmptyUnion
  | FieldRange
  | InsertRange int
  | ExtractRange int
  | DivisionByZero
  | InvalidShift
  | IntegerOperands
  | NumericOperands
  | ComplementOperand
  | NegationOperand

definition no_location :: Location where
  "no_location =
    \<lparr>LC = \<lparr>Line = 0, Col = 0\<rparr>, EndLC = \<lparr>Line = 0, Col = 0\<rparr>, Offset = 0, EndOffset = 0,
     FilePath = [], SourceText = []\<rparr>"

definition unavailable_error :: "detail \<Rightarrow> eval_error" where
  "unavailable_error d =
    Unavailable \<lparr>un_SourceName = [], un_SourceLoc = no_location, un_Detail = d, un_CallStack = []\<rparr>"

definition no_value :: EvalValue where
  "no_value =
    \<lparr>ev_Type = NilType, ev_Integer = None, ev_Float = None, ev_Boolean = False,
     ev_Aggregate = None, ev_pointer = None\<rparr>"

definition EvalInteger :: "int \<Rightarrow> ty \<Rightarrow> EvalValue" where
  "EvalInteger i t = no_value\<lparr>ev_Type := t, ev_Integer := Some i\<rparr>"

definition EvalFloat :: "fp \<Rightarrow> ty \<Rightarrow> EvalValue" where
  "EvalFloat x t = no_value\<lparr>ev_Type := t, ev_Float := Some x\<rparr>"

definition EvalBool :: "bool \<Rightarrow> EvalValue" where
  "EvalBool b = no_value\<lparr>ev_Type := PrimitiveTy PrimitiveBool, ev_Boolean := b\<rparr>"

definition EvalAggregate :: "ty \<Rightarrow> nat \<Rightarrow> EvalValue" where
  "EvalAggregate t a = no_value\<lparr>ev_Type := t, ev_Aggregate := Some a\<rparr>"

definition EvalPointer :: "ty \<Rightarrow> nat \<Rightarrow> evalPath list \<Rightarrow> EvalValue" where
  "EvalPointer t c path = no_value\<lparr>ev_Type := t, ev_pointer := Some (c, path)\<rparr>"

section \<open>The evaluator and its computations\<close>

record Evaluator =
  ee_Functions :: "string \<rightharpoonup> Function"
  ee_Globals :: "string \<rightharpoonup> EvalValue"
  ee_MaxDepth :: int
  ee_cells :: "EvalValue list"
  ee_arrays :: "EvalValue list list"

record evalFrame =
  fr_function :: Function
  fr_values :: "ValueID \<rightharpoonup> EvalValue"
  fr_slots :: "SlotID \<rightharpoonup> nat"

text \<open>The types the program's named references stand for, and the bit patterns of a NaN.\<close>

record machine =
  mc_aliases :: alias_store
  mc_nan64 :: "64 word"
  mc_nan32 :: "32 word"

type_synonym 'a ev = "Evaluator \<Rightarrow> ((eval_error + 'a) \<times> Evaluator) run"

definition retE :: "'a \<Rightarrow> 'a ev" where
  "retE x = (\<lambda>e. Some (Inr x, e))"

definition failE :: "eval_error \<Rightarrow> 'a ev" where
  "failE err = (\<lambda>e. Some (Inl err, e))"

text \<open>A call that cannot fail but may not return.\<close>

definition callE :: "'a run \<Rightarrow> 'a ev" where
  "callE m = (\<lambda>e. case m of None \<Rightarrow> None | Some x \<Rightarrow> Some (Inr x, e))"

text \<open>A call whose error is examined, and one whose error is returned to the caller.\<close>

definition tryE :: "'a ev \<Rightarrow> (eval_error + 'a \<Rightarrow> 'b ev) \<Rightarrow> 'b ev" where
  "tryE m f = (\<lambda>e. case m e of None \<Rightarrow> None | Some (r, e') \<Rightarrow> f r e')"

definition bindE :: "'a ev \<Rightarrow> ('a \<Rightarrow> 'b ev) \<Rightarrow> 'b ev" where
  "bindE m f = tryE m (\<lambda>r. case r of Inl err \<Rightarrow> failE err | Inr x \<Rightarrow> f x)"

definition readE :: "(Evaluator \<Rightarrow> 'a run) \<Rightarrow> 'a ev" where
  "readE g = (\<lambda>e. case g e of None \<Rightarrow> None | Some x \<Rightarrow> Some (Inr x, e))"

definition writeE :: "(Evaluator \<Rightarrow> Evaluator run) \<Rightarrow> unit ev" where
  "writeE g = (\<lambda>e. case g e of None \<Rightarrow> None | Some e' \<Rightarrow> Some (Inr (), e'))"

lemma ev_simps:
  "retE x e = Some (Inr x, e)" "failE err e = Some (Inl err, e)"
  by (simp_all add: retE_def failE_def)

lemma tryE_bind: "tryE m k e = Option.bind (m e) (\<lambda>(r, e'). k r e')"
  by (simp add: tryE_def split: option.splits)

lemma tryE_mono [partial_function_mono, run_mono]:
  assumes "\<And>e. mono_option (\<lambda>f. M f e)" and "\<And>r e. mono_option (\<lambda>f. K f r e)"
  shows "mono_option (\<lambda>f. tryE (M f) (K f) e)"
  unfolding tryE_bind using assms by (intro bind_mono) (auto simp: split_beta)

lemma bindE_mono [partial_function_mono, run_mono]:
  assumes "\<And>e. mono_option (\<lambda>f. M f e)" and "\<And>x e. mono_option (\<lambda>f. K f x e)"
  shows "mono_option (\<lambda>f. bindE (M f) (K f) e)"
  unfolding bindE_def
proof (rule tryE_mono)
  show "mono_option (\<lambda>f. (case r of Inl err \<Rightarrow> failE err | Inr x \<Rightarrow> K f x) e)" for r e
    by (cases r) (simp_all add: option.const_mono assms)
qed (rule assms)

section \<open>Shared storage\<close>

datatype loc = Cell nat | Elem nat nat

definition new_cell :: "EvalValue \<Rightarrow> nat ev" where
  "new_cell v = (\<lambda>e. Some (Inr (length (ee_cells e)), e\<lparr>ee_cells := ee_cells e @ [v]\<rparr>))"

definition new_array :: "EvalValue list \<Rightarrow> nat ev" where
  "new_array vs = (\<lambda>e. Some (Inr (length (ee_arrays e)), e\<lparr>ee_arrays := ee_arrays e @ [vs]\<rparr>))"

definition array_at :: "nat \<Rightarrow> Evaluator \<Rightarrow> EvalValue list run" where
  "array_at a e = (if a < length (ee_arrays e) then Some (ee_arrays e ! a) else None)"

text \<open>The elements of a slice; nil has none.\<close>

definition elements :: "EvalValue \<Rightarrow> EvalValue list ev" where
  "elements v = readE (\<lambda>e. case ev_Aggregate v of None \<Rightarrow> Some [] | Some a \<Rightarrow> array_at a e)"

fun loc_value :: "loc \<Rightarrow> Evaluator \<Rightarrow> EvalValue run" where
  "loc_value (Cell c) e = (if c < length (ee_cells e) then Some (ee_cells e ! c) else None)"
| "loc_value (Elem a i) e =
    do { vs \<leftarrow> array_at a e; if i < length vs then Some (vs ! i) else None }"

fun set_loc :: "loc \<Rightarrow> EvalValue \<Rightarrow> Evaluator \<Rightarrow> Evaluator run" where
  "set_loc (Cell c) v e =
    (if c < length (ee_cells e) then Some (e\<lparr>ee_cells := (ee_cells e)[c := v]\<rparr>) else None)"
| "set_loc (Elem a i) v e =
    do { vs \<leftarrow> array_at a e;
         if i < length vs then Some (e\<lparr>ee_arrays := (ee_arrays e)[a := vs[i := v]]\<rparr>) else None }"

definition read_loc :: "loc \<Rightarrow> EvalValue ev" where
  "read_loc l = readE (loc_value l)"

definition write_loc :: "loc \<Rightarrow> EvalValue \<Rightarrow> unit ev" where
  "write_loc l v = writeE (set_loc l v)"

section \<open>Constants\<close>

text \<open>\<open>new(big.Int).SetString(s, 0)\<close>: a sign, a base prefix, digits and underscores between them.\<close>

fun base0_digits :: "int \<Rightarrow> char \<Rightarrow> bool \<Rightarrow> int \<Rightarrow> int \<Rightarrow> string \<Rightarrow> (char \<times> bool \<times> int \<times> int) option" where
  "base0_digits base prev bad count v [] = Some (prev, bad, count, v)"
| "base0_digits base prev bad count v (c # cs) =
    (if c = CHR ''_'' then base0_digits base CHR ''_'' (bad \<or> prev \<noteq> CHR ''0'') count v cs
     else if (is_dec_digit c \<or> CHR ''a'' \<le> lower c \<and> lower c \<le> CHR ''z'') \<and> char_digit c < base
     then base0_digits base CHR ''0'' bad (count + 1) (v * base + char_digit c) cs
     else None)"

definition base0_natural :: "string \<Rightarrow> int option" where
  "base0_natural s =
    (let (base, octal, prev, ds) =
       (case s of
          c # d # cs \<Rightarrow>
            if c \<noteq> CHR ''0'' then (10, False, CHR ''.'', s)
            else if lower d = CHR ''b'' then (2, False, CHR ''0'', cs)
            else if lower d = CHR ''o'' then (8, False, CHR ''0'', cs)
            else if lower d = CHR ''x'' then (16, False, CHR ''0'', cs)
            else (8, True, CHR ''0'', d # cs)
        | _ \<Rightarrow> (10, False, CHR ''.'', s))
     in case base0_digits base prev False 0 0 ds of
          None \<Rightarrow> None
        | Some (prev, bad, count, v) \<Rightarrow>
            if bad \<or> prev = CHR ''_'' then None
            else if count = 0 \<and> \<not> octal then None
            else Some v)"

definition SetString0 :: "string \<Rightarrow> int option" where
  "SetString0 s =
    (case read_sign s of (neg, t) \<Rightarrow> map_option (\<lambda>n. if neg then - n else n) (base0_natural t))"

fun zero_all :: "(ty \<Rightarrow> EvalValue ev) \<Rightarrow> ty list \<Rightarrow> EvalValue list ev" where
  "zero_all zero [] = retE []"
| "zero_all zero (t # ts) = bindE (zero t) (\<lambda>v. bindE (zero_all zero ts) (\<lambda>vs. retE (v # vs)))"

definition zero_aggregate :: "ty \<Rightarrow> EvalValue list ev \<Rightarrow> EvalValue ev" where
  "zero_aggregate t parts = bindE parts (\<lambda>vs. bindE (new_array vs) (\<lambda>a. retE (EvalAggregate t a)))"

definition is_prim :: "alias_store \<Rightarrow> ty \<Rightarrow> PrimitiveType \<Rightarrow> bool run" where
  "is_prim \<sigma> t p = do { u \<leftarrow> Underlying \<sigma> t; Equals \<sigma> u (PrimitiveTy p) }"

text \<open>The switch on the underlying type, for a type that is neither boolean nor a float.\<close>

definition zero_switch :: "(ty \<Rightarrow> EvalValue ev) \<Rightarrow> ty \<Rightarrow> ty \<Rightarrow> EvalValue ev" where
  "zero_switch zero t u =
    (case u of
       StructType fs pk tu \<Rightarrow> zero_aggregate t (zero_all zero (map snd fs))
     | UnionType m n fs \<Rightarrow> zero_aggregate t (retE [EvalInteger 0 (PrimitiveTy PrimitiveU64)])
     | MultipleReturnType ts \<Rightarrow> zero_aggregate t (zero_all zero ts)
     | _ \<Rightarrow> retE (EvalInteger 0 t))"

definition zero_step :: "alias_store \<Rightarrow> (ty \<Rightarrow> EvalValue ev) \<Rightarrow> ty \<Rightarrow> EvalValue ev" where
  "zero_step \<sigma> zero t =
    (if t = NilType then retE (EvalInteger 0 t)
     else
       bindE (callE (is_prim \<sigma> t PrimitiveBool)) (\<lambda>b.
         if b then retE (EvalBool False)
         else bindE (callE (Underlying \<sigma> t)) (\<lambda>u. bindE (callE (IsFloat \<sigma> u)) (\<lambda>f.
           if f then retE (EvalFloat fp_zero t) else zero_switch zero t u))))"

lemma zero_all_mono [partial_function_mono, run_mono]:
  assumes "\<And>t e. mono_option (\<lambda>f. F f t e)"
  shows "mono_option (\<lambda>f. zero_all (F f) ts e)"
  by (induction ts arbitrary: e) (simp_all add: option.const_mono bindE_mono assms)

lemma zero_step_mono [partial_function_mono]:
  assumes "\<And>t e. mono_option (\<lambda>f. F f t e)"
  shows "mono_option (\<lambda>f. zero_step \<sigma> (F f) t e)"
proof -
  have "mono_option (\<lambda>f. zero_switch (F f) t u e)" for u e
    by (cases u)
      (simp_all add: zero_switch_def zero_aggregate_def option.const_mono bindE_mono zero_all_mono assms)
  then have "mono_option (\<lambda>f. (if b then retE (EvalFloat fp_zero t) else zero_switch (F f) t u) e)" for b u e
    by (cases b) (simp_all add: option.const_mono)
  then have "mono_option (\<lambda>f. (if b then retE (EvalBool False)
         else bindE (callE (Underlying \<sigma> t)) (\<lambda>u. bindE (callE (IsFloat \<sigma> u)) (\<lambda>fl.
           if fl then retE (EvalFloat fp_zero t) else zero_switch (F f) t u))) e)" for b e
    by (cases b) (simp_all add: option.const_mono bindE_mono)
  then show ?thesis
    by (cases "t = NilType") (simp_all add: zero_step_def option.const_mono bindE_mono)
qed

partial_function (option) zeroEvalValue :: "alias_store \<Rightarrow> ty \<Rightarrow> EvalValue ev" where
  "zeroEvalValue \<sigma> t e = zero_step \<sigma> (zeroEvalValue \<sigma>) t e"

declare zeroEvalValue.simps [code]

section \<open>Operands\<close>

definition int_const :: "string \<Rightarrow> ty \<Rightarrow> EvalValue ev" where
  "int_const s t =
    (case SetString0 s of None \<Rightarrow> failE (InvalidInteger s) | Some i \<Rightarrow> retE (EvalInteger i t))"

definition float_const :: "alias_store \<Rightarrow> string \<Rightarrow> ty \<Rightarrow> EvalValue ev" where
  "float_const \<sigma> s t =
    (case ParseFloat s of
       None \<Rightarrow> failE (InvalidFloat s)
     | Some x \<Rightarrow> bindE (callE (is_prim \<sigma> t PrimitiveF32)) (\<lambda>b. retE (EvalFloat (if b then round32 x else x) t)))"

definition value_operand :: "ValueID \<Rightarrow> evalFrame option \<Rightarrow> EvalValue ev" where
  "value_operand i frame =
    (case frame of
       None \<Rightarrow> failE ValueOutsideFrame
     | Some fr \<Rightarrow> (case fr_values fr i of None \<Rightarrow> failE (UndefinedValue i) | Some v \<Rightarrow> retE v))"

fun operand :: "alias_store \<Rightarrow> Operand \<Rightarrow> evalFrame option \<Rightarrow> EvalValue ev"
and operand_list :: "alias_store \<Rightarrow> Operand list \<Rightarrow> evalFrame option \<Rightarrow> EvalValue list ev" where
  "operand \<sigma> (Operand k t g i iv fv bv fs sv fn st oper l r) frame =
    (case k of
       OperandValue \<Rightarrow> value_operand i frame
     | OperandIntConst \<Rightarrow> int_const iv t
     | OperandFloatConst \<Rightarrow> float_const \<sigma> fv t
     | OperandBoolConst \<Rightarrow> retE (EvalBool bv)
     | OperandZeroConst \<Rightarrow> zeroEvalValue \<sigma> t
     | OperandNullConst \<Rightarrow> zeroEvalValue \<sigma> t
     | OperandStructConst \<Rightarrow>
         bindE (operand_list \<sigma> fs frame) (\<lambda>vs.
           bindE (new_array vs) (\<lambda>a. retE (EvalAggregate t a)))
     | _ \<Rightarrow> failE (unavailable_error (UnavailableOperand k)))"
| "operand_list \<sigma> [] frame = retE []"
| "operand_list \<sigma> (x # xs) frame =
    bindE (operand \<sigma> x frame) (\<lambda>v. bindE (operand_list \<sigma> xs frame) (\<lambda>vs. retE (v # vs)))"

section \<open>Pointers\<close>

fun find_field :: "string \<Rightarrow> field list \<Rightarrow> (nat \<times> ty) option" where
  "find_field n [] = None"
| "find_field n (f # fs) =
    (if fst f = n then Some (0, snd f) else map_option (\<lambda>(i, t). (i + 1, t)) (find_field n fs))"

definition field_path :: "string \<Rightarrow> ty \<Rightarrow> eval_error + evalPath" where
  "field_path n u =
    (case u of
       StructType fs pk tu \<Rightarrow>
         (case find_field n fs of
            Some (i, t) \<Rightarrow> Inr (EvalPath (int i) t False)
          | None \<Rightarrow> Inl (FieldUnavailable n))
     | UnionType m un fs \<Rightarrow>
         (case find_field n fs of
            Some (i, t) \<Rightarrow> Inr (EvalPath 0 t True)
          | None \<Rightarrow> Inl (FieldUnavailable n))
     | _ \<Rightarrow> Inl (FieldUnavailable n))"

definition evalFieldPath :: "alias_store \<Rightarrow> ty \<Rightarrow> string \<Rightarrow> evalPath ev" where
  "evalFieldPath \<sigma> t n =
    bindE (callE (Underlying \<sigma> t)) (\<lambda>p.
      case p of
        PointerType b mu \<Rightarrow>
          bindE (callE (Underlying \<sigma> b)) (\<lambda>u.
            case field_path n u of Inl err \<Rightarrow> failE err | Inr step \<Rightarrow> retE step)
      | _ \<Rightarrow> failE FieldOfNonPointer)"

text \<open>
  \<open>big.Int.Uint64\<close> is specified for values that fit; its implementation returns the low
  bits of the absolute value.
\<close>

definition big_Uint64 :: "int \<Rightarrow> 64 word" where
  "big_Uint64 i = word_of_int \<bar>i\<bar>"

definition reinterpretEvalValue :: "machine \<Rightarrow> EvalValue \<Rightarrow> ty \<Rightarrow> EvalValue ev" where
  "reinterpretEvalValue M v target =
    bindE (callE (Underlying (mc_aliases M) target)) (\<lambda>u.
    bindE (callE (andM (Some (ev_Float v \<noteq> None)) (IsInteger (mc_aliases M) u))) (\<lambda>float_to_int.
      if float_to_int then
        bindE (callE (orM (Equals (mc_aliases M) u (PrimitiveTy PrimitiveU32))
            (Equals (mc_aliases M) u (PrimitiveTy PrimitiveI32)))) (\<lambda>narrow.
          retE (EvalInteger
            (if narrow then uint (Float32bits (mc_nan32 M) (the (ev_Float v)))
             else uint (Float64bits (mc_nan64 M) (the (ev_Float v)))) target))
      else
        bindE (callE (andM (Some (ev_Integer v \<noteq> None)) (IsFloat (mc_aliases M) u))) (\<lambda>int_to_float.
          if int_to_float then
            bindE (callE (Equals (mc_aliases M) u (PrimitiveTy PrimitiveF32))) (\<lambda>narrow.
              retE (EvalFloat
                (if narrow then Float32frombits (ucast (big_Uint64 (the (ev_Integer v))))
                 else Float64frombits (big_Uint64 (the (ev_Integer v)))) target))
          else retE (v\<lparr>ev_Type := target\<rparr>))))"

text \<open>The load loop returns at a union step, whatever follows it.\<close>

fun load_path :: "machine \<Rightarrow> EvalValue \<Rightarrow> evalPath list \<Rightarrow> EvalValue ev" where
  "load_path M v [] = retE v"
| "load_path M v (step # path) =
    bindE (elements v) (\<lambda>vs.
      if ep_union step then
        (if vs = [] then failE EmptyUnion else reinterpretEvalValue M (vs ! 0) (ep_typ step))
      else if ep_index step < 0 \<or> ep_index step \<ge> int (length vs) then failE FieldRange
      else load_path M (vs ! nat (ep_index step)) path)"

definition pointer_load :: "machine \<Rightarrow> nat \<times> evalPath list \<Rightarrow> EvalValue ev" where
  "pointer_load M p = bindE (read_loc (Cell (fst p))) (\<lambda>v. load_path M v (snd p))"

fun storeEvalPath :: "loc \<Rightarrow> evalPath list \<Rightarrow> EvalValue \<Rightarrow> unit ev" where
  "storeEvalPath target [] v = write_loc target v"
| "storeEvalPath target (step # path) v =
    bindE (read_loc target) (\<lambda>t. bindE (elements t) (\<lambda>vs.
      if ep_union step then
        (if vs = [] then
           bindE (new_array [v]) (\<lambda>a. write_loc target (t\<lparr>ev_Aggregate := Some a\<rparr>))
         else write_loc (Elem (the (ev_Aggregate t)) 0) v)
      else if ep_index step < 0 \<or> ep_index step \<ge> int (length vs) then failE FieldRange
      else storeEvalPath (Elem (the (ev_Aggregate t)) (nat (ep_index step))) path v))"

definition pointer_store :: "nat \<times> evalPath list \<Rightarrow> EvalValue \<Rightarrow> unit ev" where
  "pointer_store p v = storeEvalPath (Cell (fst p)) (snd p) v"

section \<open>Arithmetic\<close>

definition integerOperands ::
  "alias_store \<Rightarrow> Operand \<Rightarrow> Operand \<Rightarrow> evalFrame \<Rightarrow> (int \<times> int) ev" where
  "integerOperands \<sigma> l r fr =
    bindE (operand \<sigma> l (Some fr)) (\<lambda>x. bindE (operand \<sigma> r (Some fr)) (\<lambda>y.
      case (ev_Integer x, ev_Integer y) of
        (Some i, Some j) \<Rightarrow> retE (i, j)
      | _ \<Rightarrow> failE IntegerOperands))"

definition set_value :: "ValueID \<Rightarrow> EvalValue \<Rightarrow> evalFrame \<Rightarrow> evalFrame" where
  "set_value d v fr = fr\<lparr>fr_values := (fr_values fr)(d \<mapsto> v)\<rparr>"

definition set_integer :: "ValueID \<Rightarrow> int \<Rightarrow> evalFrame \<Rightarrow> evalFrame" where
  "set_integer d i fr = set_value d (EvalInteger i (ValueType (fr_function fr) d)) fr"

definition set_float :: "ValueID \<Rightarrow> fp \<Rightarrow> evalFrame \<Rightarrow> evalFrame" where
  "set_float d x fr = set_value d (EvalFloat x (ValueType (fr_function fr) d)) fr"

definition binaryInteger ::
  "alias_store \<Rightarrow> evalFrame \<Rightarrow> ValueID \<Rightarrow> Operand \<Rightarrow> Operand \<Rightarrow> (int \<Rightarrow> int \<Rightarrow> int) \<Rightarrow> evalFrame ev" where
  "binaryInteger \<sigma> fr d l r oper =
    bindE (integerOperands \<sigma> l r fr) (\<lambda>(i, j). retE (set_integer d (oper i j) fr))"

definition binaryNumber ::
  "alias_store \<Rightarrow> evalFrame \<Rightarrow> ValueID \<Rightarrow> Operand \<Rightarrow> Operand \<Rightarrow>
   (int \<Rightarrow> int \<Rightarrow> int) \<Rightarrow> (fp \<Rightarrow> fp \<Rightarrow> fp) \<Rightarrow> evalFrame ev" where
  "binaryNumber \<sigma> fr d l r int_op float_op =
    bindE (operand \<sigma> l (Some fr)) (\<lambda>x. bindE (operand \<sigma> r (Some fr)) (\<lambda>y.
      case (ev_Float x, ev_Float y) of
        (Some a, Some b) \<Rightarrow>
          bindE (callE (is_prim \<sigma> (ValueType (fr_function fr) d) PrimitiveF32)) (\<lambda>narrow.
            retE (set_float d (if narrow then round32 (float_op a b) else float_op a b) fr))
      | _ \<Rightarrow>
          (case (ev_Integer x, ev_Integer y) of
             (Some i, Some j) \<Rightarrow> retE (set_integer d (int_op i j) fr)
           | _ \<Rightarrow> failE NumericOperands)))"

definition three_way :: "int \<Rightarrow> int \<Rightarrow> int" where
  "three_way i j = (if i < j then - 1 else if i > j then 1 else 0)"

definition compare_values :: "EvalValue \<Rightarrow> EvalValue \<Rightarrow> int option" where
  "compare_values x y =
    (case (ev_Integer x, ev_Integer y) of
       (Some i, Some j) \<Rightarrow> Some (three_way i j)
     | _ \<Rightarrow>
         (case (ev_Float x, ev_Float y) of
            (Some a, Some b) \<Rightarrow>
              if a = NaN \<or> b = NaN then None
              else Some (if fp_less a b then - 1 else if fp_less b a then 1 else 0)
          | _ \<Rightarrow> Some (if ev_Boolean x \<noteq> ev_Boolean y then (if ev_Boolean x then 1 else - 1) else 0)))"

text \<open>\<open>None\<close> above is an unordered pair.\<close>

definition compare ::
  "alias_store \<Rightarrow> evalFrame \<Rightarrow> ValueID \<Rightarrow> Operand \<Rightarrow> Operand \<Rightarrow> bool \<Rightarrow> (int \<Rightarrow> bool) \<Rightarrow> evalFrame ev" where
  "compare \<sigma> fr d l r unordered predicate =
    bindE (operand \<sigma> l (Some fr)) (\<lambda>x. bindE (operand \<sigma> r (Some fr)) (\<lambda>y.
      retE (set_value d
        (EvalBool (case compare_values x y of None \<Rightarrow> unordered | Some c \<Rightarrow> predicate c)) fr)))"

end
