(* ===== verification/Eval.thy ===== *)
theory Eval
  imports Eval_Values
begin

text \<open>
  The compile-time evaluator's run loop, \<^verbatim>\<open>src/ir/eval.go\<close>: instructions, blocks, calls, and
  the construction of an evaluator from modules. The Go method \<open>run\<close> calls itself for calls
  and loops over blocks; \<open>enter\<close> is its part before the loop, and \<open>exec_loop\<close> the loop with
  the calls inside it. It need not return.
\<close>

section \<open>Errors of calls\<close>

definition sameEvalLocation :: "Location \<Rightarrow> Location \<Rightarrow> bool" where
  "sameEvalLocation l r \<longleftrightarrow>
    FilePath l = FilePath r \<and> Offset l = Offset r \<and> EndOffset l = EndOffset r"

definition annotateUnavailable :: "unavailable \<Rightarrow> CallInstr \<Rightarrow> unavailable" where
  "annotateUnavailable err c =
    (if FilePath (call_SourceLoc c) = [] then err
     else if FilePath (un_SourceLoc err) = []
     then err\<lparr>un_SourceName := call_SourceName c, un_SourceLoc := call_SourceLoc c\<rparr>
     else if \<not> sameEvalLocation (un_SourceLoc err) (call_SourceLoc c)
     then err\<lparr>un_CallStack := un_CallStack err @ [\<lparr>so_Name = call_SourceName c, so_Loc = call_SourceLoc c\<rparr>]\<rparr>
     else err)"

text \<open>\<open>errors.As\<close>: the unavailable-error an error wraps.\<close>

fun as_unavailable :: "eval_error \<Rightarrow> unavailable option" where
  "as_unavailable (Unavailable u) = Some u"
| "as_unavailable (InCall n err) = as_unavailable err"
| "as_unavailable err = None"

definition call_error :: "CallInstr \<Rightarrow> eval_error \<Rightarrow> eval_error" where
  "call_error c err =
    (case as_unavailable err of
       Some u \<Rightarrow> Unavailable (annotateUnavailable u c)
     | None \<Rightarrow> InCall (call_Name c) err)"

section \<open>Frames\<close>

definition frame_block :: "Function \<Rightarrow> BlockID \<Rightarrow> Block option" where
  "frame_block f i = find (\<lambda>b. block_ID b = i) (fn_Blocks f)"

definition slotType :: "Function \<Rightarrow> SlotID \<Rightarrow> ty" where
  "slotType f i = (case find (\<lambda>s. slot_ID s = i) (fn_Slots f) of Some s \<Rightarrow> slot_Type s | None \<Rightarrow> NilType)"

fun parameter_value :: "SlotID \<Rightarrow> Instr list \<Rightarrow> ValueID option" where
  "parameter_value s [] = None"
| "parameter_value s (Store s' x # is) =
    (if s' = s \<and> op_Kind x = OperandValue then Some (op_Value x) else parameter_value s is)"
| "parameter_value s (i # is) = parameter_value s is"

definition bind_in_block ::
  "BlockID \<Rightarrow> SlotID \<Rightarrow> EvalValue \<Rightarrow> Block \<Rightarrow> evalFrame \<Rightarrow> evalFrame" where
  "bind_in_block entry s v b fr =
    (if block_ID b \<noteq> entry then fr
     else case parameter_value s (block_Instr b) of None \<Rightarrow> fr | Some d \<Rightarrow> set_value d v fr)"

fun bind_parameters :: "Function \<Rightarrow> (Parameter \<times> EvalValue) list \<Rightarrow> evalFrame \<Rightarrow> evalFrame ev" where
  "bind_parameters f [] fr = retE fr"
| "bind_parameters f ((p, v) # ps) fr =
    bindE (new_cell v) (\<lambda>c.
      bind_parameters f ps
        (fold (bind_in_block (fn_Entry f) (par_Slot p) v) (fn_Blocks f)
          (fr\<lparr>fr_slots := (fr_slots fr)(par_Slot p \<mapsto> c)\<rparr>)))"

definition enter :: "string \<Rightarrow> EvalValue list \<Rightarrow> int \<Rightarrow> evalFrame ev" where
  "enter name args depth =
    bindE (readE (\<lambda>e. Some (ee_Functions e name, ee_MaxDepth e))) (\<lambda>(fn, max_depth).
      case fn of
        None \<Rightarrow> failE (unavailable_error (UnavailableFunction name))
      | Some f \<Rightarrow>
          if depth \<ge> max_depth then failE (DepthExceeded name)
          else if length args \<noteq> length (fn_Parameters f)
          then failE (ArgumentCount name (length (fn_Parameters f)) (length args))
          else bind_parameters f (zip (fn_Parameters f) args)
            \<lparr>fr_function = f, fr_values = Map.empty, fr_slots = Map.empty\<rparr>)"

section \<open>Instructions\<close>

text \<open>What an instruction leads to: the next one, a block, or the end of the call.\<close>

datatype outcome = Next evalFrame | Goto BlockID evalFrame | Returned EvalValue

definition next_frame :: "evalFrame ev \<Rightarrow> outcome ev" where
  "next_frame m = bindE m (\<lambda>fr. retE (Next fr))"

definition exec_load :: "string \<Rightarrow> evalFrame \<Rightarrow> ValueID \<Rightarrow> SlotID \<Rightarrow> evalFrame ev" where
  "exec_load name fr d s =
    (case fr_slots fr s of
       None \<Rightarrow> failE (UninitializedSlot s name)
     | Some c \<Rightarrow> bindE (read_loc (Cell c)) (\<lambda>v. retE (set_value d v fr)))"

definition exec_store :: "alias_store \<Rightarrow> evalFrame \<Rightarrow> SlotID \<Rightarrow> Operand \<Rightarrow> evalFrame ev" where
  "exec_store \<sigma> fr s x =
    bindE (operand \<sigma> x (Some fr)) (\<lambda>v.
      case fr_slots fr s of
        Some c \<Rightarrow> bindE (write_loc (Cell c) v) (\<lambda>_. retE fr)
      | None \<Rightarrow> bindE (new_cell v) (\<lambda>c. retE (fr\<lparr>fr_slots := (fr_slots fr)(s \<mapsto> c)\<rparr>)))"

text \<open>The three instructions that need a pointer replace whatever error its operand gives.\<close>

definition pointer_operand ::
  "alias_store \<Rightarrow> evalFrame \<Rightarrow> Operand \<Rightarrow> eval_error \<Rightarrow> (nat \<times> evalPath list) ev" where
  "pointer_operand \<sigma> fr x err =
    tryE (operand \<sigma> x (Some fr)) (\<lambda>r.
      case r of
        Inl _ \<Rightarrow> failE err
      | Inr v \<Rightarrow> (case ev_pointer v of None \<Rightarrow> failE err | Some p \<Rightarrow> retE p))"

definition exec_field_address ::
  "alias_store \<Rightarrow> evalFrame \<Rightarrow> ValueID \<Rightarrow> Operand \<Rightarrow> string \<Rightarrow> evalFrame ev" where
  "exec_field_address \<sigma> fr d x n =
    bindE (pointer_operand \<sigma> fr x FieldBase) (\<lambda>(c, path).
      bindE (evalFieldPath \<sigma> (op_Type x) n) (\<lambda>step.
        retE (set_value d (EvalPointer (ValueType (fr_function fr) d) c (path @ [step])) fr)))"

definition exec_load_ptr :: "machine \<Rightarrow> evalFrame \<Rightarrow> ValueID \<Rightarrow> Operand \<Rightarrow> evalFrame ev" where
  "exec_load_ptr M fr d x =
    bindE (pointer_operand (mc_aliases M) fr x InvalidLoad) (\<lambda>p.
      bindE (pointer_load M p) (\<lambda>v. retE (set_value d v fr)))"

definition exec_store_ptr :: "alias_store \<Rightarrow> evalFrame \<Rightarrow> Operand \<Rightarrow> Operand \<Rightarrow> evalFrame ev" where
  "exec_store_ptr \<sigma> fr p x =
    bindE (pointer_operand \<sigma> fr p InvalidStore) (\<lambda>q.
      bindE (operand \<sigma> x (Some fr)) (\<lambda>v.
        bindE (pointer_store q v) (\<lambda>_. retE fr)))"

definition exec_insert ::
  "alias_store \<Rightarrow> evalFrame \<Rightarrow> ValueID \<Rightarrow> Operand \<Rightarrow> Operand \<Rightarrow> int \<Rightarrow> evalFrame ev" where
  "exec_insert \<sigma> fr d x y i =
    bindE (operand \<sigma> x (Some fr)) (\<lambda>a. bindE (operand \<sigma> y (Some fr)) (\<lambda>v.
      bindE (elements a) (\<lambda>vs.
        if i < 0 \<or> i \<ge> int (length vs) then failE (InsertRange i)
        else bindE (write_loc (Elem (the (ev_Aggregate a)) (nat i)) v) (\<lambda>_.
          retE (set_value d (a\<lparr>ev_Type := ValueType (fr_function fr) d\<rparr>) fr)))))"

definition exec_extract :: "alias_store \<Rightarrow> evalFrame \<Rightarrow> ValueID \<Rightarrow> Operand \<Rightarrow> int \<Rightarrow> evalFrame ev" where
  "exec_extract \<sigma> fr d x i =
    bindE (operand \<sigma> x (Some fr)) (\<lambda>a. bindE (elements a) (\<lambda>vs.
      if i < 0 \<or> i \<ge> int (length vs) then failE (ExtractRange i)
      else retE (set_value d (vs ! nat i) fr)))"

definition exec_div :: "alias_store \<Rightarrow> evalFrame \<Rightarrow> ValueID \<Rightarrow> Operand \<Rightarrow> Operand \<Rightarrow> evalFrame ev" where
  "exec_div \<sigma> fr d l r =
    tryE (operand \<sigma> l (Some fr)) (\<lambda>x. tryE (operand \<sigma> r (Some fr)) (\<lambda>y.
      case (x, y) of
        (Inl err, _) \<Rightarrow> failE err
      | (Inr _, Inl err) \<Rightarrow> failE err
      | (Inr x, Inr y) \<Rightarrow>
          (case (ev_Float x, ev_Float y) of
             (Some a, Some b) \<Rightarrow> retE (set_float d (fp_div a b) fr)
           | _ \<Rightarrow>
               bindE (integerOperands \<sigma> l r fr) (\<lambda>(i, j).
                 if j = 0 then failE DivisionByZero else retE (set_integer d (i sdiv j) fr)))))"

definition exec_mod :: "alias_store \<Rightarrow> evalFrame \<Rightarrow> ValueID \<Rightarrow> Operand \<Rightarrow> Operand \<Rightarrow> evalFrame ev" where
  "exec_mod \<sigma> fr d l r =
    bindE (integerOperands \<sigma> l r fr) (\<lambda>(i, j).
      if j = 0 then failE DivisionByZero else retE (set_integer d (i smod j) fr))"

text \<open>
  An amount that \<^verbatim>\<open>IsUint64\<close> accepts is handed to \<^verbatim>\<open>Lsh\<close>, whose result has that many more bits. Memory is
  unbounded here, as for every \<^verbatim>\<open>big.Int\<close>; a run of the compiler ends when such a result does not fit
  (from about \<open>2\<^sup>51\<close> bits on \<^verbatim>\<open>Lsh\<close> panics on any machine), which no statement of this development excludes.
\<close>

definition exec_shift ::
  "alias_store \<Rightarrow> evalFrame \<Rightarrow> ValueID \<Rightarrow> Operand \<Rightarrow> Operand \<Rightarrow> (nat \<Rightarrow> int \<Rightarrow> int) \<Rightarrow> evalFrame ev" where
  "exec_shift \<sigma> fr d l r shift =
    bindE (integerOperands \<sigma> l r fr) (\<lambda>(i, j).
      if j < 0 \<or> j \<ge> 2 ^ 64 then failE InvalidShift else retE (set_integer d (shift (nat j) i) fr))"

text \<open>The binary operations of the switch; the last two are left to its default.\<close>

fun exec_binary ::
  "alias_store \<Rightarrow> evalFrame \<Rightarrow> binary \<Rightarrow> ValueID \<Rightarrow> Operand \<Rightarrow> Operand \<Rightarrow> evalFrame ev option" where
  "exec_binary \<sigma> fr Add d l r = Some (binaryNumber \<sigma> fr d l r (+) fp_add)"
| "exec_binary \<sigma> fr Sub d l r = Some (binaryNumber \<sigma> fr d l r (-) fp_sub)"
| "exec_binary \<sigma> fr Mul d l r = Some (binaryNumber \<sigma> fr d l r (*) fp_mul)"
| "exec_binary \<sigma> fr Div d l r = Some (exec_div \<sigma> fr d l r)"
| "exec_binary \<sigma> fr Mod d l r = Some (exec_mod \<sigma> fr d l r)"
| "exec_binary \<sigma> fr BitwiseAnd d l r = Some (binaryInteger \<sigma> fr d l r Bit_Operations.and)"
| "exec_binary \<sigma> fr BitwiseOr d l r = Some (binaryInteger \<sigma> fr d l r Bit_Operations.or)"
| "exec_binary \<sigma> fr BitwiseXor d l r = Some (binaryInteger \<sigma> fr d l r Bit_Operations.xor)"
| "exec_binary \<sigma> fr ShiftLeft d l r = Some (exec_shift \<sigma> fr d l r push_bit)"
| "exec_binary \<sigma> fr ShiftRight d l r = Some (exec_shift \<sigma> fr d l r drop_bit)"
| "exec_binary \<sigma> fr CmpEq d l r = Some (compare \<sigma> fr d l r False (\<lambda>c. c = 0))"
| "exec_binary \<sigma> fr CmpNe d l r = Some (compare \<sigma> fr d l r True (\<lambda>c. c \<noteq> 0))"
| "exec_binary \<sigma> fr CmpLt d l r = Some (compare \<sigma> fr d l r False (\<lambda>c. c < 0))"
| "exec_binary \<sigma> fr CmpLe d l r = Some (compare \<sigma> fr d l r False (\<lambda>c. c \<le> 0))"
| "exec_binary \<sigma> fr CmpGt d l r = Some (compare \<sigma> fr d l r False (\<lambda>c. c > 0))"
| "exec_binary \<sigma> fr CmpGe d l r = Some (compare \<sigma> fr d l r False (\<lambda>c. c \<ge> 0))"
| "exec_binary \<sigma> fr LogicalAnd d l r = None"
| "exec_binary \<sigma> fr LogicalOr d l r = None"

fun exec_unary :: "alias_store \<Rightarrow> evalFrame \<Rightarrow> unary \<Rightarrow> ValueID \<Rightarrow> Operand \<Rightarrow> evalFrame ev" where
  "exec_unary \<sigma> fr BitwiseNot d x =
    tryE (operand \<sigma> x (Some fr)) (\<lambda>r.
      case r of
        Inl _ \<Rightarrow> failE ComplementOperand
      | Inr v \<Rightarrow>
          (case ev_Integer v of
             None \<Rightarrow> failE ComplementOperand
           | Some i \<Rightarrow> retE (set_integer d (Bit_Operations.not i) fr)))"
| "exec_unary \<sigma> fr LogicalNot d x =
    bindE (operand \<sigma> x (Some fr)) (\<lambda>v. retE (set_value d (EvalBool (\<not> ev_Boolean v)) fr))"
| "exec_unary \<sigma> fr Negate d x =
    bindE (operand \<sigma> x (Some fr)) (\<lambda>v.
      case ev_Float v of
        Some a \<Rightarrow> retE (set_float d (fp_neg a) fr)
      | None \<Rightarrow>
          (case ev_Integer v of
             None \<Rightarrow> failE NegationOperand
           | Some i \<Rightarrow> retE (set_integer d (- i) fr)))"

definition default_error :: "Function \<Rightarrow> BlockID \<Rightarrow> nat \<Rightarrow> Instr \<Rightarrow> eval_error" where
  "default_error f b i instr =
    (case fn_Origins f (b, i) of
       None \<Rightarrow> unavailable_error (UnavailableInstr instr)
     | Some origin \<Rightarrow>
         Unavailable \<lparr>un_SourceName = so_Name origin, un_SourceLoc = so_Loc origin,
           un_Detail = UnavailableInstr instr, un_CallStack = []\<rparr>)"

definition exec_call ::
  "alias_store \<Rightarrow> (string \<Rightarrow> EvalValue list \<Rightarrow> EvalValue ev) \<Rightarrow> evalFrame \<Rightarrow> CallInstr \<Rightarrow> evalFrame ev" where
  "exec_call \<sigma> callee fr c =
    (if call_Callee c \<noteq> None \<or> call_Generic c \<noteq> None \<or> call_Requirement c \<noteq> None
     then failE (Unavailable (annotateUnavailable
       \<lparr>un_SourceName = [], un_SourceLoc = no_location, un_Detail = IndirectCall, un_CallStack = []\<rparr> c))
     else
       bindE (operand_list \<sigma> (call_Args c) (Some fr)) (\<lambda>args.
         tryE (callee (call_Name c) args) (\<lambda>r.
           case r of
             Inl err \<Rightarrow> failE (call_error c err)
           | Inr v \<Rightarrow> retE (if call_Dest c \<noteq> 0 then set_value (call_Dest c) v fr else fr))))"

fun exec_instr ::
  "machine \<Rightarrow> (string \<Rightarrow> EvalValue list \<Rightarrow> EvalValue ev) \<Rightarrow> string \<Rightarrow> BlockID \<Rightarrow> nat \<Rightarrow>
   evalFrame \<Rightarrow> Instr \<Rightarrow> outcome ev" where
  "exec_instr M callee name b i fr (Alloca s) =
    bindE (zeroEvalValue (mc_aliases M) (slotType (fr_function fr) s)) (\<lambda>v.
      bindE (new_cell v) (\<lambda>c. retE (Next (fr\<lparr>fr_slots := (fr_slots fr)(s \<mapsto> c)\<rparr>))))"
| "exec_instr M callee name b i fr (Load d s) = next_frame (exec_load name fr d s)"
| "exec_instr M callee name b i fr (Store s x) = next_frame (exec_store (mc_aliases M) fr s x)"
| "exec_instr M callee name b i fr (AddressOf d s) =
    (case fr_slots fr s of
       None \<Rightarrow> failE (UnavailableSlot s name)
     | Some c \<Rightarrow> retE (Next (set_value d (EvalPointer (ValueType (fr_function fr) d) c []) fr)))"
| "exec_instr M callee name b i fr (FieldAddress d x n) =
    next_frame (exec_field_address (mc_aliases M) fr d x n)"
| "exec_instr M callee name b i fr (LoadPtr d x) = next_frame (exec_load_ptr M fr d x)"
| "exec_instr M callee name b i fr (StorePtr p x) = next_frame (exec_store_ptr (mc_aliases M) fr p x)"
| "exec_instr M callee name b i fr (InsertValue d x y k) =
    next_frame (exec_insert (mc_aliases M) fr d x y k)"
| "exec_instr M callee name b i fr (ExtractValue d x k) =
    next_frame (exec_extract (mc_aliases M) fr d x k)"
| "exec_instr M callee name b i fr (LoadGlobal d n t) =
    bindE (readE (\<lambda>e. Some (ee_Globals e n))) (\<lambda>g.
      case g of
        None \<Rightarrow> failE (UnavailableGlobal n)
      | Some v \<Rightarrow> retE (Next (set_value d v fr)))"
| "exec_instr M callee name b i fr (StoreGlobal n x) =
    bindE (operand (mc_aliases M) x (Some fr)) (\<lambda>v.
      bindE (writeE (\<lambda>e. Some (e\<lparr>ee_Globals := (ee_Globals e)(n \<mapsto> v)\<rparr>))) (\<lambda>_. retE (Next fr)))"
| "exec_instr M callee name b i fr (Binary k d l r) =
    (case exec_binary (mc_aliases M) fr k d l r of
       Some m \<Rightarrow> next_frame m
     | None \<Rightarrow> failE (default_error (fr_function fr) b i (Binary k d l r)))"
| "exec_instr M callee name b i fr (Unary k d x) = next_frame (exec_unary (mc_aliases M) fr k d x)"
| "exec_instr M callee name b i fr (Cast d x t) =
    bindE (operand (mc_aliases M) x (Some fr)) (\<lambda>v. retE (Next (set_value d (v\<lparr>ev_Type := t\<rparr>) fr)))"
| "exec_instr M callee name b i fr (Call c) = next_frame (exec_call (mc_aliases M) callee fr c)"
| "exec_instr M callee name b i fr (Jump t) = retE (Goto t fr)"
| "exec_instr M callee name b i fr (Branch c t f) =
    bindE (operand (mc_aliases M) c (Some fr)) (\<lambda>v. retE (Goto (if ev_Boolean v then t else f) fr))"
| "exec_instr M callee name b i fr (Return v) =
    (case v of
       None \<Rightarrow> retE (Returned (no_value\<lparr>ev_Type := PrimitiveTy PrimitiveVoid\<rparr>))
     | Some x \<Rightarrow> bindE (operand (mc_aliases M) x (Some fr)) (\<lambda>v. retE (Returned v)))"
| "exec_instr M callee name b i fr Unreachable = failE (UnreachableCode name)"
| "exec_instr M callee name b i fr instr = failE (default_error (fr_function fr) b i instr)"

fun exec_instrs ::
  "machine \<Rightarrow> (string \<Rightarrow> EvalValue list \<Rightarrow> EvalValue ev) \<Rightarrow> string \<Rightarrow> BlockID \<Rightarrow> nat \<Rightarrow>
   evalFrame \<Rightarrow> Instr list \<Rightarrow> outcome ev" where
  "exec_instrs M callee name b i fr [] = retE (Next fr)"
| "exec_instrs M callee name b i fr (instr # is) =
    bindE (exec_instr M callee name b i fr instr) (\<lambda>r.
      case r of Next fr' \<Rightarrow> exec_instrs M callee name b (i + 1) fr' is | _ \<Rightarrow> retE r)"

section \<open>The run loop\<close>

text \<open>One round of the loop; \<open>run\<close> and \<open>loop\<close> are the calls it makes.\<close>

definition exec_round ::
  "machine \<Rightarrow> (int \<Rightarrow> string \<Rightarrow> evalFrame \<Rightarrow> BlockID \<Rightarrow> EvalValue ev) \<Rightarrow>
   int \<Rightarrow> string \<Rightarrow> evalFrame \<Rightarrow> BlockID \<Rightarrow> EvalValue ev" where
  "exec_round M loop depth name fr b =
    (case frame_block (fr_function fr) b of
       None \<Rightarrow> failE (MissingBlock b name)
     | Some current \<Rightarrow>
         bindE (exec_instrs M
             (\<lambda>n args. bindE (enter n args (depth + 1)) (\<lambda>fr'. loop (depth + 1) n fr' (fn_Entry (fr_function fr'))))
             name (block_ID current) 0 fr (block_Instr current)) (\<lambda>r.
           case r of
             Returned v \<Rightarrow> retE v
           | Goto b' fr' \<Rightarrow> loop depth name fr' b'
           | Next fr' \<Rightarrow> failE (FellOff (block_Name current) name)))"

lemma exec_call_mono:
  assumes "\<And>n args e. mono_option (\<lambda>f. F f n args e)"
  shows "mono_option (\<lambda>f. exec_call \<sigma> (F f) fr c e)"
proof -
  have "mono_option (\<lambda>f. tryE (F f n args) k e')" for n args k e'
    by (intro tryE_mono assms option.const_mono)
  then show ?thesis
    by (cases "call_Callee c \<noteq> None \<or> call_Generic c \<noteq> None \<or> call_Requirement c \<noteq> None")
      (auto simp: exec_call_def intro!: bindE_mono option.const_mono)
qed

lemma exec_instr_mono:
  assumes "\<And>n args e. mono_option (\<lambda>f. F f n args e)"
  shows "mono_option (\<lambda>f. exec_instr M (F f) name b i fr instr e)"
proof (cases "\<exists>c. instr = Call c")
  case True
  then show ?thesis
    by (auto simp: next_frame_def intro!: bindE_mono exec_call_mono assms option.const_mono)
next
  case False
  then have "exec_instr M g name b i fr instr = exec_instr M h name b i fr instr" for g h
    by (cases instr) auto
  then have "(\<lambda>f. exec_instr M (F f) name b i fr instr e) = (\<lambda>f. exec_instr M undefined name b i fr instr e)"
    by (rule_tac ext) metis
  then show ?thesis by (simp only: option.const_mono)
qed

lemma exec_instrs_mono:
  assumes "\<And>n args e. mono_option (\<lambda>f. F f n args e)"
  shows "mono_option (\<lambda>f. exec_instrs M (F f) name b i fr is e)"
proof (induction "is" arbitrary: i fr e)
  case (Cons instr rest)
  have "mono_option (\<lambda>f. (case r of Next fr' \<Rightarrow> exec_instrs M (F f) name b (i + 1) fr' rest | _ \<Rightarrow> retE r) e')"
    for r e'
    by (cases r) (simp_all add: Cons.IH [unfolded Suc_eq_plus1] option.const_mono)
  then show ?case by (auto intro!: bindE_mono exec_instr_mono assms)
qed (simp add: option.const_mono)

lemma exec_round_mono [partial_function_mono]:
  assumes "\<And>d n fr b e. mono_option (\<lambda>f. F f d n fr b e)"
  shows "mono_option (\<lambda>f. exec_round M (F f) depth name fr b e)"
proof (cases "frame_block (fr_function fr) b")
  case (Some current)
  have "mono_option (\<lambda>f. (case r of Returned v \<Rightarrow> retE v | Goto b' fr' \<Rightarrow> F f depth name fr' b'
      | Next fr' \<Rightarrow> failE (FellOff (block_Name current) name)) e')" for r e'
    by (cases r) (simp_all add: assms option.const_mono)
  moreover have "mono_option (\<lambda>f. exec_instrs M
      (\<lambda>n args. bindE (enter n args (depth + 1)) (\<lambda>fr'. F f (depth + 1) n fr' (fn_Entry (fr_function fr'))))
      name (block_ID current) 0 fr (block_Instr current) e')" for e'
    by (intro exec_instrs_mono bindE_mono option.const_mono assms)
  ultimately show ?thesis using Some by (auto simp: exec_round_def intro!: bindE_mono)
qed (simp add: exec_round_def option.const_mono)

partial_function (option) exec_loop ::
  "machine \<Rightarrow> int \<Rightarrow> string \<Rightarrow> evalFrame \<Rightarrow> BlockID \<Rightarrow> EvalValue ev" where
  "exec_loop M depth name fr b e = exec_round M (exec_loop M) depth name fr b e"

declare exec_loop.simps [code]

definition run_at :: "machine \<Rightarrow> string \<Rightarrow> EvalValue list \<Rightarrow> int \<Rightarrow> EvalValue ev" where
  "run_at M name args depth =
    bindE (enter name args depth) (\<lambda>fr. exec_loop M depth name fr (fn_Entry (fr_function fr)))"

definition Run :: "machine \<Rightarrow> string \<Rightarrow> EvalValue list \<Rightarrow> EvalValue ev" where
  "Run M name args = run_at M name args 0"

text \<open>The equation of the Go method: the callee of the loop's calls is the method itself, one deeper.\<close>

lemma exec_loop_unfold:
  "exec_loop M depth name fr b =
    (case frame_block (fr_function fr) b of
       None \<Rightarrow> failE (MissingBlock b name)
     | Some current \<Rightarrow>
         bindE (exec_instrs M (\<lambda>n args. run_at M n args (depth + 1))
             name (block_ID current) 0 fr (block_Instr current)) (\<lambda>r.
           case r of
             Returned v \<Rightarrow> retE v
           | Goto b' fr' \<Rightarrow> exec_loop M depth name fr' b'
           | Next fr' \<Rightarrow> failE (FellOff (block_Name current) name)))"
  by (rule ext, subst exec_loop.simps, simp only: exec_round_def run_at_def)

section \<open>Construction\<close>

definition add_functions :: "Function list \<Rightarrow> Evaluator \<Rightarrow> Evaluator" where
  "add_functions fs e =
    fold (\<lambda>f e. if fn_Blocks f \<noteq> [] then e\<lparr>ee_Functions := (ee_Functions e)(fn_Name f \<mapsto> f)\<rparr> else e) fs e"

fun add_globals :: "alias_store \<Rightarrow> Global list \<Rightarrow> unit ev" where
  "add_globals \<sigma> [] = retE ()"
| "add_globals \<sigma> (g # gs) =
    tryE (operand \<sigma> (gl_Value g) None) (\<lambda>r.
      case r of
        Inl _ \<Rightarrow> add_globals \<sigma> gs
      | Inr v \<Rightarrow>
          bindE (writeE (\<lambda>e. Some (e\<lparr>ee_Globals := (ee_Globals e)(gl_Name g \<mapsto> v)\<rparr>)))
            (\<lambda>_. add_globals \<sigma> gs))"

fun add_modules :: "alias_store \<Rightarrow> Module list \<Rightarrow> unit ev" where
  "add_modules \<sigma> [] = retE ()"
| "add_modules \<sigma> (m # ms) =
    bindE (writeE (\<lambda>e. Some (add_functions (m_Functions m) e))) (\<lambda>_.
      bindE (add_globals \<sigma> (m_Globals m)) (\<lambda>_. add_modules \<sigma> ms))"

definition NewEvaluator :: "alias_store \<Rightarrow> Module list \<Rightarrow> Evaluator run" where
  "NewEvaluator \<sigma> ms =
    map_option snd (add_modules \<sigma> ms
      \<lparr>ee_Functions = Map.empty, ee_Globals = Map.empty, ee_MaxDepth = 1024, ee_cells = [], ee_arrays = []\<rparr>)"

end
