(* ===== verification/Eval_Storage.thy ===== *)
theory Eval_Storage
  imports Eval Types_Compat_Facts
begin

text \<open>
  Facts about the compile-time evaluator: what a well-formed program is, the invariant of the
  evaluator's storage, and that every operation keeps it and returns. \<open>ev_ok\<close> is the Hoare-style
  predicate the proofs use.
\<close>

section \<open>Types the evaluator can inspect\<close>

definition typed :: "alias_store \<Rightarrow> ty \<Rightarrow> bool" where
  "typed \<sigma> t \<longleftrightarrow> (\<exists>u. Underlying \<sigma> t = Some u \<and> u \<noteq> NilType)"

lemma Equals_plain_returns:
  assumes "is_underlying \<sigma> u" "u \<noteq> NilType" "p = UntypedInt \<or> p = UntypedFloat \<or> (\<exists>q. p = PrimitiveTy q)"
  shows "Equals \<sigma> u p \<noteq> None"
proof -
  have "Underlying \<sigma> p = Some p" using assms(3) by auto
  moreover have "alias_target \<sigma> r = None" if "u = AliasRef r m n" for r m n
    using assms(1) that by (simp add: is_underlying_def)
  ultimately show ?thesis
    using assms by (subst Equals.simps) (cases u; auto simp: Equals_methods is_underlying_def)
qed

lemma typedE:
  assumes "typed \<sigma> t"
  obtains u where "Underlying \<sigma> t = Some u" "u \<noteq> NilType" "is_underlying \<sigma> u"
  using assms Underlying_result by (auto simp: typed_def)

lemma is_prim_returns: "typed \<sigma> t \<Longrightarrow> is_prim \<sigma> t p \<noteq> None"
  by (elim typedE) (simp add: is_prim_def Equals_plain_returns del: not_None_eq)

lemma classify_returns:
  assumes "Underlying \<sigma> t = Some u" "u \<noteq> NilType"
  shows "IsFloat \<sigma> u \<noteq> None" "IsInteger \<sigma> u \<noteq> None"
proof -
  have u: "is_underlying \<sigma> u" using assms Underlying_result by blast
  then have "Equals \<sigma> u UntypedFloat \<noteq> None" "Equals \<sigma> u UntypedInt \<noteq> None"
    using assms(2) by (auto simp: Equals_plain_returns simp del: not_None_eq)
  then show "IsFloat \<sigma> u \<noteq> None" "IsInteger \<sigma> u \<noteq> None"
    using Underlying_idem [OF u]
    by (auto simp: IsFloat_def IsInteger_def IsSigned_def IsUnsigned_def orM_def split: option.splits)
qed

text \<open>The types whose zero value is finite.\<close>

inductive zeroable :: "alias_store \<Rightarrow> ty \<Rightarrow> bool" for \<sigma> where
  "zeroable \<sigma> NilType"
| "Underlying \<sigma> t = Some u \<Longrightarrow> u \<noteq> NilType \<Longrightarrow>
     (\<And>fs pk tu f. u = StructType fs pk tu \<Longrightarrow> f \<in> set fs \<Longrightarrow> zeroable \<sigma> (snd f)) \<Longrightarrow>
     (\<And>ts s. u = MultipleReturnType ts \<Longrightarrow> s \<in> set ts \<Longrightarrow> zeroable \<sigma> s) \<Longrightarrow> zeroable \<sigma> t"

section \<open>Storage\<close>

definition step_ok :: "alias_store \<Rightarrow> evalPath \<Rightarrow> bool" where
  "step_ok \<sigma> s \<longleftrightarrow> (ep_union s \<longrightarrow> typed \<sigma> (ep_typ s))"

definition value_ok :: "alias_store \<Rightarrow> Evaluator \<Rightarrow> EvalValue \<Rightarrow> bool" where
  "value_ok \<sigma> e v \<longleftrightarrow>
    (\<forall>a. ev_Aggregate v = Some a \<longrightarrow> a < length (ee_arrays e)) \<and>
    (\<forall>c path. ev_pointer v = Some (c, path) \<longrightarrow> c < length (ee_cells e) \<and> (\<forall>s \<in> set path. step_ok \<sigma> s))"

definition storage_ok :: "alias_store \<Rightarrow> Evaluator \<Rightarrow> bool" where
  "storage_ok \<sigma> e \<longleftrightarrow>
    (\<forall>v \<in> set (ee_cells e). value_ok \<sigma> e v) \<and>
    (\<forall>vs \<in> set (ee_arrays e). \<forall>v \<in> set vs. value_ok \<sigma> e v) \<and>
    (\<forall>v \<in> ran (ee_Globals e). value_ok \<sigma> e v)"

definition grows :: "Evaluator \<Rightarrow> Evaluator \<Rightarrow> bool" where
  "grows e e' \<longleftrightarrow>
    ee_Functions e' = ee_Functions e \<and> ee_MaxDepth e' = ee_MaxDepth e \<and>
    length (ee_cells e) \<le> length (ee_cells e') \<and> length (ee_arrays e) \<le> length (ee_arrays e') \<and>
    (\<forall>a < length (ee_arrays e). length (ee_arrays e' ! a) = length (ee_arrays e ! a))"

lemma grows_refl [simp]: "grows e e"
  by (simp add: grows_def)

lemma grows_trans: "grows e e' \<Longrightarrow> grows e' e'' \<Longrightarrow> grows e e''"
  by (auto simp: grows_def)

lemma value_ok_grows: "value_ok \<sigma> e v \<Longrightarrow> grows e e' \<Longrightarrow> value_ok \<sigma> e' v"
  by (fastforce simp: value_ok_def grows_def)

lemma storage_okD:
  assumes "storage_ok \<sigma> e"
  shows "c < length (ee_cells e) \<Longrightarrow> value_ok \<sigma> e (ee_cells e ! c)"
    and "a < length (ee_arrays e) \<Longrightarrow> v \<in> set (ee_arrays e ! a) \<Longrightarrow> value_ok \<sigma> e v"
    and "ee_Globals e n = Some v \<Longrightarrow> value_ok \<sigma> e v"
  using assms by (auto simp: storage_ok_def ran_def)

lemma value_ok_address: "value_ok \<sigma> e v \<Longrightarrow> ev_Aggregate v = Some a \<Longrightarrow> a < length (ee_arrays e)"
  by (simp add: value_ok_def)

text \<open>A computation on \<open>e\<close> that may diverge only where \<open>d\<close> holds, and keeps the storage well formed.\<close>

definition ev_ok ::
  "bool \<Rightarrow> alias_store \<Rightarrow> Evaluator \<Rightarrow> 'a ev \<Rightarrow> (Evaluator \<Rightarrow> 'a \<Rightarrow> bool) \<Rightarrow> bool" where
  "ev_ok d \<sigma> e m Q \<longleftrightarrow>
    (case m e of
       None \<Rightarrow> d
     | Some (r, e') \<Rightarrow> grows e e' \<and> storage_ok \<sigma> e' \<and> (\<forall>x. r = Inr x \<longrightarrow> Q e' x))"

lemma ev_ok_ret: "storage_ok \<sigma> e \<Longrightarrow> Q e x \<Longrightarrow> ev_ok d \<sigma> e (retE x) Q"
  by (simp add: ev_ok_def ev_simps)

lemma ev_ok_fail: "storage_ok \<sigma> e \<Longrightarrow> ev_ok d \<sigma> e (failE err) Q"
  by (simp add: ev_ok_def ev_simps)

lemma ev_ok_call: "storage_ok \<sigma> e \<Longrightarrow> m \<noteq> None \<Longrightarrow> (\<And>x. m = Some x \<Longrightarrow> Q e x) \<Longrightarrow> ev_ok d \<sigma> e (callE m) Q"
  by (auto simp: ev_ok_def callE_def)

lemma ev_ok_read: "storage_ok \<sigma> e \<Longrightarrow> g e \<noteq> None \<Longrightarrow> (\<And>x. g e = Some x \<Longrightarrow> Q e x) \<Longrightarrow> ev_ok d \<sigma> e (readE g) Q"
  by (auto simp: ev_ok_def readE_def)

lemma ev_ok_try:
  assumes "ev_ok d \<sigma> e m Q"
    and "\<And>e' err. grows e e' \<Longrightarrow> storage_ok \<sigma> e' \<Longrightarrow> ev_ok d \<sigma> e' (k (Inl err)) R"
    and "\<And>e' x. grows e e' \<Longrightarrow> storage_ok \<sigma> e' \<Longrightarrow> Q e' x \<Longrightarrow> ev_ok d \<sigma> e' (k (Inr x)) R"
  shows "ev_ok d \<sigma> e (tryE m k) R"
proof (cases "m e")
  case None
  then show ?thesis using assms(1) by (simp add: ev_ok_def tryE_def)
next
  case (Some p)
  obtain r e' where p: "p = (r, e')" by (cases p)
  have g: "grows e e'" "storage_ok \<sigma> e'" using assms(1) Some p by (auto simp: ev_ok_def)
  have "ev_ok d \<sigma> e' (k r) R"
  proof (cases r)
    case (Inr x)
    then have "Q e' x" using assms(1) Some p by (simp add: ev_ok_def)
    then show ?thesis using Inr assms(3) g by simp
  qed (use assms(2) g in simp)
  then show ?thesis using Some p g by (auto simp: ev_ok_def tryE_def dest: grows_trans split: option.splits)
qed

lemma ev_ok_bind:
  assumes "ev_ok d \<sigma> e m Q"
    and "\<And>e' x. grows e e' \<Longrightarrow> storage_ok \<sigma> e' \<Longrightarrow> Q e' x \<Longrightarrow> ev_ok d \<sigma> e' (k x) R"
  shows "ev_ok d \<sigma> e (bindE m k) R"
  unfolding bindE_def using assms(1) by (rule ev_ok_try) (auto intro: ev_ok_fail assms(2))

lemma ev_ok_weaken: "ev_ok d \<sigma> e m Q \<Longrightarrow> (\<And>e' x. grows e e' \<Longrightarrow> Q e' x \<Longrightarrow> R e' x) \<Longrightarrow> ev_ok d \<sigma> e m R"
  by (auto simp: ev_ok_def split: option.splits)

lemma ev_ok_may_diverge: "ev_ok False \<sigma> e m Q \<Longrightarrow> ev_ok d \<sigma> e m Q"
  by (auto simp: ev_ok_def split: option.splits)

lemma plain_values_ok [simp]:
  "value_ok \<sigma> e (EvalInteger i t)" "value_ok \<sigma> e (EvalFloat x t)" "value_ok \<sigma> e (EvalBool b)"
  "value_ok \<sigma> e (no_value\<lparr>ev_Type := t\<rparr>)"
  by (simp_all add: value_ok_def EvalInteger_def EvalFloat_def EvalBool_def no_value_def)

lemma value_ok_type [simp]: "value_ok \<sigma> e (v\<lparr>ev_Type := t\<rparr>) \<longleftrightarrow> value_ok \<sigma> e v"
  by (simp add: value_ok_def)

lemma value_ok_aggregate [simp]: "value_ok \<sigma> e (EvalAggregate t a) \<longleftrightarrow> a < length (ee_arrays e)"
  by (simp add: value_ok_def EvalAggregate_def no_value_def)

lemma value_ok_pointer [simp]:
  "value_ok \<sigma> e (EvalPointer t c path) \<longleftrightarrow> c < length (ee_cells e) \<and> (\<forall>s \<in> set path. step_ok \<sigma> s)"
  by (simp add: value_ok_def EvalPointer_def no_value_def)

lemma storage_ok_grown:
  assumes "grows e e'"
    and "\<And>v. v \<in> set (ee_cells e') \<Longrightarrow> value_ok \<sigma> e v"
    and "\<And>vs v. vs \<in> set (ee_arrays e') \<Longrightarrow> v \<in> set vs \<Longrightarrow> value_ok \<sigma> e v"
    and "\<And>v. v \<in> ran (ee_Globals e') \<Longrightarrow> value_ok \<sigma> e v"
  shows "storage_ok \<sigma> e'"
  using assms value_ok_grows unfolding storage_ok_def by meson

lemma new_cell_ok:
  assumes "storage_ok \<sigma> e" "value_ok \<sigma> e v"
  shows "ev_ok d \<sigma> e (new_cell v) (\<lambda>e' c. c < length (ee_cells e'))"
proof -
  let ?e = "e\<lparr>ee_cells := ee_cells e @ [v]\<rparr>"
  have "grows e ?e" by (simp add: grows_def)
  moreover from this have "storage_ok \<sigma> ?e"
    by (rule storage_ok_grown) (use assms in \<open>auto simp: storage_ok_def\<close>)
  ultimately show ?thesis by (simp add: ev_ok_def new_cell_def)
qed

lemma new_array_ok:
  assumes "storage_ok \<sigma> e" "\<forall>v \<in> set vs. value_ok \<sigma> e v"
  shows "ev_ok d \<sigma> e (new_array vs) (\<lambda>e' a. a < length (ee_arrays e'))"
proof -
  let ?e = "e\<lparr>ee_arrays := ee_arrays e @ [vs]\<rparr>"
  have "grows e ?e" by (simp add: grows_def nth_append)
  moreover from this have "storage_ok \<sigma> ?e"
    by (rule storage_ok_grown) (use assms in \<open>auto simp: storage_ok_def\<close>)
  ultimately show ?thesis by (simp add: ev_ok_def new_array_def)
qed

definition set_global :: "string \<Rightarrow> EvalValue \<Rightarrow> unit ev" where
  "set_global n v = writeE (\<lambda>e. Some (e\<lparr>ee_Globals := (ee_Globals e)(n \<mapsto> v)\<rparr>))"

lemma set_global_ok:
  assumes "storage_ok \<sigma> e" "value_ok \<sigma> e v"
  shows "ev_ok d \<sigma> e (writeE (\<lambda>e. Some (e\<lparr>ee_Globals := (ee_Globals e)(n \<mapsto> v)\<rparr>))) (\<lambda>e' x. True)"
proof -
  let ?e = "e\<lparr>ee_Globals := (ee_Globals e)(n \<mapsto> v)\<rparr>"
  have "grows e ?e" by (simp add: grows_def)
  moreover from this have "storage_ok \<sigma> ?e"
    by (rule storage_ok_grown) (use assms in \<open>auto simp: storage_ok_def ran_def split: if_splits\<close>)
  ultimately show ?thesis by (simp add: ev_ok_def writeE_def)
qed

lemma elements_ok:
  assumes "storage_ok \<sigma> e" "value_ok \<sigma> e v"
  shows "ev_ok d \<sigma> e (elements v) (\<lambda>e' vs. e' = e \<and> (\<forall>x \<in> set vs. value_ok \<sigma> e x) \<and>
    (vs \<noteq> [] \<longrightarrow> (\<exists>a. ev_Aggregate v = Some a \<and> a < length (ee_arrays e) \<and> vs = ee_arrays e ! a)))"
  unfolding elements_def
  by (rule ev_ok_read)
    (use assms in \<open>auto simp: array_at_def dest: value_ok_address storage_okD split: option.splits if_splits\<close>)

fun loc_ok :: "Evaluator \<Rightarrow> loc \<Rightarrow> bool" where
  "loc_ok e (Cell c) \<longleftrightarrow> c < length (ee_cells e)"
| "loc_ok e (Elem a i) \<longleftrightarrow> a < length (ee_arrays e) \<and> i < length (ee_arrays e ! a)"

lemma loc_ok_grows: "loc_ok e l \<Longrightarrow> grows e e' \<Longrightarrow> loc_ok e' l"
  by (cases l) (auto simp: grows_def)

lemma read_loc_ok:
  assumes "storage_ok \<sigma> e" "loc_ok e l"
  shows "ev_ok d \<sigma> e (read_loc l) (\<lambda>e' v. e' = e \<and> value_ok \<sigma> e v)"
  unfolding read_loc_def
proof (rule ev_ok_read)
  show "loc_value l e \<noteq> None" using assms(2) by (cases l) (auto simp: array_at_def)
  show "e = e \<and> value_ok \<sigma> e v" if "loc_value l e = Some v" for v
    using that assms by (cases l) (auto simp: array_at_def intro: storage_okD)
qed (rule assms)

lemma write_loc_ok:
  assumes "storage_ok \<sigma> e" "loc_ok e l" "value_ok \<sigma> e v"
  shows "ev_ok d \<sigma> e (write_loc l v) (\<lambda>e' x. True)"
proof -
  obtain e' where e': "set_loc l v e = Some e'" using assms(2) by (cases l) (auto simp: array_at_def)
  have g: "grows e e'"
    using e' assms(2) by (cases l) (auto simp: array_at_def grows_def nth_list_update split: if_splits)
  have "storage_ok \<sigma> e'"
  proof (rule storage_ok_grown [OF g])
    show "value_ok \<sigma> e w" if "w \<in> set (ee_cells e')" for w
      using that e' assms
      by (cases l) (auto simp: array_at_def storage_ok_def split: if_splits dest!: subsetD [OF set_update_subset_insert])
    show "value_ok \<sigma> e w" if "ws \<in> set (ee_arrays e')" "w \<in> set ws" for ws w
      using that e' assms
      by (cases l) (fastforce simp: array_at_def storage_ok_def split: if_splits dest!: subsetD [OF set_update_subset_insert])+
    show "value_ok \<sigma> e w" if "w \<in> ran (ee_Globals e')" for w
      using that e' assms by (cases l) (auto simp: array_at_def storage_ok_def split: if_splits)
  qed
  then show ?thesis using g e' by (simp add: ev_ok_def write_loc_def writeE_def)
qed

end
