(* ===== verification/Eval_Facts.thy ===== *)
theory Eval_Facts
  imports Eval_Storage
begin

text \<open>
  Every operation of the compile-time evaluator keeps the storage well formed, and returns, on a
  well-formed program; the loop over blocks is the only part that can diverge.
\<close>

lemma no_value_ok [simp]: "value_ok \<sigma> e no_value"
  by (simp add: value_ok_def no_value_def)

section \<open>Constants and operands\<close>

lemma zero_all_ok:
  assumes "\<And>t e. t \<in> set ts \<Longrightarrow> storage_ok \<sigma> e \<Longrightarrow> ev_ok d \<sigma> e (zero t) (value_ok \<sigma>)"
    and "storage_ok \<sigma> e"
  shows "ev_ok d \<sigma> e (zero_all zero ts) (\<lambda>e' vs. \<forall>v \<in> set vs. value_ok \<sigma> e' v)"
  using assms
proof (induction ts arbitrary: e)
  case (Cons t ts)
  show ?case
    unfolding zero_all.simps
  proof (rule ev_ok_bind)
    show "ev_ok d \<sigma> e (zero t) (value_ok \<sigma>)" using Cons.prems by simp
    show "ev_ok d \<sigma> e' (bindE (zero_all zero ts) (\<lambda>vs. retE (v # vs))) (\<lambda>e' vs. \<forall>v \<in> set vs. value_ok \<sigma> e' v)"
      if "storage_ok \<sigma> e'" "value_ok \<sigma> e' v" for e' v
      by (rule ev_ok_bind [OF Cons.IH]) (use Cons.prems that in \<open>auto intro!: ev_ok_ret elim: value_ok_grows\<close>)
  qed
qed (simp add: ev_ok_ret)

lemma new_aggregate_ok:
  assumes "storage_ok \<sigma> e" "\<forall>v \<in> set vs. value_ok \<sigma> e v"
  shows "ev_ok d \<sigma> e (bindE (new_array vs) (\<lambda>a. retE (EvalAggregate t a))) (value_ok \<sigma>)"
  by (rule ev_ok_bind [OF new_array_ok [OF assms]]) (simp add: ev_ok_ret)

lemma zero_aggregate_ok:
  assumes "ev_ok d \<sigma> e m (\<lambda>e' vs. \<forall>v \<in> set vs. value_ok \<sigma> e' v)"
  shows "ev_ok d \<sigma> e (zero_aggregate t m) (value_ok \<sigma>)"
  unfolding zero_aggregate_def
  by (rule ev_ok_bind [OF assms]) (simp add: new_aggregate_ok)

lemma zeroEvalValue_ok:
  assumes "zeroable \<sigma> t" "storage_ok \<sigma> e"
  shows "ev_ok d \<sigma> e (zeroEvalValue \<sigma> t) (value_ok \<sigma>)"
  using assms
proof (induction arbitrary: e)
  case 1
  have "zeroEvalValue \<sigma> NilType = retE (EvalInteger 0 NilType)"
    by (rule ext) (subst zeroEvalValue.simps, simp add: zero_step_def)
  then show ?case using 1 by (simp add: ev_ok_ret)
next
  case (2 t u)
  have step: "zeroEvalValue \<sigma> t = zero_step \<sigma> (zeroEvalValue \<sigma>) t"
    by (rule ext) (rule zeroEvalValue.simps)
  have t: "typed \<sigma> t" using 2 by (auto simp: typed_def)
  show ?case
  proof (cases "t = NilType")
    case True
    then show ?thesis using 2 by (simp add: step zero_step_def ev_ok_ret)
  next
    case False
    have agg: "ev_ok d \<sigma> e' (zero_switch (zeroEvalValue \<sigma>) t u) (value_ok \<sigma>)" if "storage_ok \<sigma> e'" for e'
      using that 2 unfolding zero_switch_def
      by (cases u) (auto intro!: zero_aggregate_ok zero_all_ok ev_ok_ret)
    have rest: "ev_ok d \<sigma> e' (bindE (callE (Underlying \<sigma> t)) (\<lambda>u. bindE (callE (IsFloat \<sigma> u)) (\<lambda>f.
           if f then retE (EvalFloat fp_zero t) else zero_switch (zeroEvalValue \<sigma>) t u))) (value_ok \<sigma>)"
      if "storage_ok \<sigma> e'" for e'
    proof (rule ev_ok_bind [OF ev_ok_call [where Q = "\<lambda>e'' x. x = u"]])
      show "ev_ok d \<sigma> e'' (bindE (callE (IsFloat \<sigma> x)) (\<lambda>f.
           if f then retE (EvalFloat fp_zero t) else zero_switch (zeroEvalValue \<sigma>) t x)) (value_ok \<sigma>)"
        if "storage_ok \<sigma> e''" "x = u" for e'' x
        by (rule ev_ok_bind [OF ev_ok_call [where Q = "\<lambda>e'' x. True"]])
          (use that classify_returns [OF 2(1,2)] agg in \<open>auto intro: ev_ok_ret simp del: not_None_eq\<close>)
    qed (use that 2 in auto)
    show ?thesis
      unfolding step zero_step_def if_not_P [OF False]
      by (rule ev_ok_bind [OF ev_ok_call [where Q = "\<lambda>e'' x. True"]])
        (use is_prim_returns [OF t] 2 rest in \<open>auto intro: ev_ok_ret simp del: not_None_eq\<close>)
  qed
qed

fun operand_ok :: "alias_store \<Rightarrow> Operand \<Rightarrow> bool" where
  "operand_ok \<sigma> (Operand k t g i iv fv bv fs sv fn st oper l r) \<longleftrightarrow>
    (k = OperandFloatConst \<longrightarrow> typed \<sigma> t) \<and>
    (k = OperandZeroConst \<or> k = OperandNullConst \<longrightarrow> zeroable \<sigma> t) \<and>
    (k = OperandStructConst \<longrightarrow> (\<forall>x \<in> set fs. operand_ok \<sigma> x))"

definition frame_ok :: "alias_store \<Rightarrow> Evaluator \<Rightarrow> evalFrame \<Rightarrow> bool" where
  "frame_ok \<sigma> e fr \<longleftrightarrow>
    fr_function fr \<in> ran (ee_Functions e) \<and>
    (\<forall>v \<in> ran (fr_values fr). value_ok \<sigma> e v) \<and>
    (\<forall>c \<in> ran (fr_slots fr). c < length (ee_cells e))"

lemma grows_cells: "grows e e' \<Longrightarrow> c < length (ee_cells e) \<Longrightarrow> c < length (ee_cells e')"
  by (simp add: grows_def)

lemma frame_ok_grows: "frame_ok \<sigma> e fr \<Longrightarrow> grows e e' \<Longrightarrow> frame_ok \<sigma> e' fr"
  using value_ok_grows by (fastforce simp: frame_ok_def grows_def)

lemma frame_okD:
  assumes "frame_ok \<sigma> e fr"
  shows "fr_values fr d = Some v \<Longrightarrow> value_ok \<sigma> e v" "fr_slots fr s = Some c \<Longrightarrow> c < length (ee_cells e)"
  using assms by (auto simp: frame_ok_def ran_def)

lemma set_value_ok: "frame_ok \<sigma> e fr \<Longrightarrow> value_ok \<sigma> e v \<Longrightarrow> frame_ok \<sigma> e (set_value d v fr)"
  by (auto simp: frame_ok_def set_value_def ran_def split: if_splits)

lemma set_number_ok:
  "frame_ok \<sigma> e fr \<Longrightarrow> frame_ok \<sigma> e (set_integer d i fr)"
  "frame_ok \<sigma> e fr \<Longrightarrow> frame_ok \<sigma> e (set_float d x fr)"
  by (simp_all add: set_integer_def set_float_def set_value_ok)

lemma set_slot_ok:
  "frame_ok \<sigma> e fr \<Longrightarrow> c < length (ee_cells e) \<Longrightarrow> frame_ok \<sigma> e (fr\<lparr>fr_slots := (fr_slots fr)(s \<mapsto> c)\<rparr>)"
  by (auto simp: frame_ok_def ran_def split: if_splits)

lemmas frame_intros = set_value_ok set_number_ok set_slot_ok ev_ok_ret ev_ok_fail

lemma value_operand_ok:
  assumes "storage_ok \<sigma> e" "\<forall>fr. frame = Some fr \<longrightarrow> frame_ok \<sigma> e fr"
  shows "ev_ok d \<sigma> e (value_operand i frame) (value_ok \<sigma>)"
  using assms by (auto simp: value_operand_def dest: frame_okD intro: ev_ok_ret ev_ok_fail split: option.splits)

lemma const_ok:
  assumes "storage_ok \<sigma> e"
  shows "ev_ok d \<sigma> e (int_const s t) (value_ok \<sigma>)"
    and "typed \<sigma> t \<Longrightarrow> ev_ok d \<sigma> e (float_const \<sigma> s t) (value_ok \<sigma>)"
proof -
  show "ev_ok d \<sigma> e (int_const s t) (value_ok \<sigma>)"
    using assms by (auto simp: int_const_def intro: ev_ok_ret ev_ok_fail split: option.splits)
  show "ev_ok d \<sigma> e (float_const \<sigma> s t) (value_ok \<sigma>)" if "typed \<sigma> t"
  proof (cases "ParseFloat s")
    case (Some x)
    show ?thesis
      unfolding float_const_def Some option.case
      by (rule ev_ok_bind [OF ev_ok_call [where Q = "\<lambda>e x. True"]])
        (use assms is_prim_returns [OF that] in \<open>auto intro: ev_ok_ret simp del: not_None_eq\<close>)
  qed (use assms in \<open>simp add: float_const_def ev_ok_fail\<close>)
qed

lemma operand_ok_run:
  shows "operand_ok \<sigma> x \<Longrightarrow> storage_ok \<sigma> e \<Longrightarrow> (\<forall>fr. frame = Some fr \<longrightarrow> frame_ok \<sigma> e fr) \<Longrightarrow>
      ev_ok d \<sigma> e (operand \<sigma> x frame) (value_ok \<sigma>)"
    and "(\<forall>x \<in> set xs. operand_ok \<sigma> x) \<Longrightarrow> storage_ok \<sigma> e \<Longrightarrow> (\<forall>fr. frame = Some fr \<longrightarrow> frame_ok \<sigma> e fr) \<Longrightarrow>
      ev_ok d \<sigma> e (operand_list \<sigma> xs frame) (\<lambda>e' vs. \<forall>v \<in> set vs. value_ok \<sigma> e' v)"
proof (induction \<sigma> x frame and \<sigma> xs frame arbitrary: e and e rule: operand_operand_list.induct)
  case (1 \<sigma> k t g i iv fv bv fs sv fn st oper l r frame)
  show ?case
  proof (cases k)
    case OperandStructConst
    have "ev_ok d \<sigma> e (operand_list \<sigma> fs frame) (\<lambda>e' vs. \<forall>v \<in> set vs. value_ok \<sigma> e' v)"
      using 1 OperandStructConst by simp
    then show ?thesis
      unfolding operand.simps OperandStructConst OperandKind.case
      by (rule ev_ok_bind) (simp add: new_aggregate_ok)
  qed (use 1 in \<open>auto intro: value_operand_ok const_ok zeroEvalValue_ok ev_ok_ret ev_ok_fail\<close>)
next
  case (2 \<sigma> frame)
  then show ?case by (simp add: ev_ok_ret)
next
  case (3 \<sigma> x xs frame)
  have first: "ev_ok d \<sigma> e (operand \<sigma> x frame) (value_ok \<sigma>)" using 3 by simp
  show ?case
    unfolding operand_list.simps
  proof (rule ev_ok_bind [OF first])
    fix e' v assume e': "grows e e'" "storage_ok \<sigma> e'" "value_ok \<sigma> e' v"
    then have "\<forall>fr. frame = Some fr \<longrightarrow> frame_ok \<sigma> e' fr" using 3 frame_ok_grows by blast
    then have "ev_ok d \<sigma> e' (operand_list \<sigma> xs frame) (\<lambda>e' vs. \<forall>v \<in> set vs. value_ok \<sigma> e' v)"
      using 3 e' by simp
    then show "ev_ok d \<sigma> e' (bindE (operand_list \<sigma> xs frame) (\<lambda>vs. retE (v # vs)))
        (\<lambda>e' vs. \<forall>v \<in> set vs. value_ok \<sigma> e' v)"
      by (rule ev_ok_bind) (use e' in \<open>auto intro!: ev_ok_ret elim: value_ok_grows\<close>)
  qed
qed

text \<open>In a frame: the operand's value, and the frame is still well formed.\<close>

lemma frame_operand:
  assumes "operand_ok \<sigma> x" "storage_ok \<sigma> e" "frame_ok \<sigma> e fr"
  shows "ev_ok d \<sigma> e (operand \<sigma> x (Some fr)) (\<lambda>e' v. value_ok \<sigma> e' v \<and> frame_ok \<sigma> e' fr)"
  by (rule ev_ok_weaken [OF operand_ok_run(1)]) (use assms frame_ok_grows in auto)

section \<open>Instructions\<close>

definition field_ok :: "alias_store \<Rightarrow> ty \<Rightarrow> bool" where
  "field_ok \<sigma> t \<longleftrightarrow>
    (\<exists>p. Underlying \<sigma> t = Some p \<and>
      (\<forall>b mu. p = PointerType b mu \<longrightarrow>
        (\<exists>u. Underlying \<sigma> b = Some u \<and> (\<forall>m n fs f. u = UnionType m n fs \<longrightarrow> f \<in> set fs \<longrightarrow> typed \<sigma> (snd f)))))"

lemma find_field_in: "find_field n fs = Some (i, t) \<Longrightarrow> \<exists>f \<in> set fs. snd f = t"
  by (induction fs arbitrary: i) (auto split: if_splits)

lemma evalFieldPath_ok:
  assumes "field_ok \<sigma> t" "storage_ok \<sigma> e"
  shows "ev_ok d \<sigma> e (evalFieldPath \<sigma> t n) (\<lambda>e' s. step_ok \<sigma> s)"
proof -
  obtain p where p: "Underlying \<sigma> t = Some p" using assms(1) by (auto simp: field_ok_def)
  have base: "ev_ok d \<sigma> e' (bindE (callE (Underlying \<sigma> b)) (\<lambda>u.
            case field_path n u of Inl err \<Rightarrow> failE err | Inr step \<Rightarrow> retE step)) (\<lambda>e' s. step_ok \<sigma> s)"
    if ptr: "p = PointerType b mu" "storage_ok \<sigma> e'" for b mu e'
  proof -
    obtain u where u: "Underlying \<sigma> b = Some u"
        "\<And>m n fs f. u = UnionType m n fs \<Longrightarrow> f \<in> set fs \<Longrightarrow> typed \<sigma> (snd f)"
      using assms(1) p ptr(1) by (force simp: field_ok_def)
    have "step_ok \<sigma> s" if "field_path n u = Inr s" for s
      using that u(2) by (cases u) (auto simp: field_path_def step_ok_def dest: find_field_in split: option.splits)
    then show ?thesis
      by (intro ev_ok_bind [OF ev_ok_call [where Q = "\<lambda>e x. x = u"]])
        (use u(1) ptr(2) in \<open>auto intro: ev_ok_ret ev_ok_fail split: sum.splits\<close>)
  qed
  show ?thesis
    unfolding evalFieldPath_def
  proof (rule ev_ok_bind [OF ev_ok_call [where Q = "\<lambda>e x. x = p"]])
    show "ev_ok d \<sigma> e' (case x of PointerType b mu \<Rightarrow> bindE (callE (Underlying \<sigma> b)) (\<lambda>u.
            case field_path n u of Inl err \<Rightarrow> failE err | Inr step \<Rightarrow> retE step)
        | _ \<Rightarrow> failE FieldOfNonPointer) (\<lambda>e' s. step_ok \<sigma> s)" if "storage_ok \<sigma> e'" "x = p" for e' x
      using base that by (cases p) (auto intro: ev_ok_fail)
  qed (use assms p in auto)
qed

lemma reinterpret_ok:
  assumes "typed (mc_aliases M) t" "storage_ok (mc_aliases M) e" "value_ok (mc_aliases M) e v"
  shows "ev_ok d (mc_aliases M) e (reinterpretEvalValue M v t) (value_ok (mc_aliases M))"
proof -
  obtain u where u: "Underlying (mc_aliases M) t = Some u" "u \<noteq> NilType" "is_underlying (mc_aliases M) u"
    using assms(1) by (elim typedE)
  note returns = classify_returns [OF u(1,2)] Equals_plain_returns [OF u(3,2)]
  have calls: "andM (Some c) (IsInteger (mc_aliases M) u) \<noteq> None" "andM (Some c) (IsFloat (mc_aliases M) u) \<noteq> None"
    "orM (Equals (mc_aliases M) u (PrimitiveTy p)) (Equals (mc_aliases M) u (PrimitiveTy q)) \<noteq> None"
    "Equals (mc_aliases M) u (PrimitiveTy p) \<noteq> None" for c p q
    using returns by (cases c; auto simp: orM_def split: option.splits)+
  show ?thesis
    unfolding reinterpretEvalValue_def
    by (rule ev_ok_bind [OF ev_ok_call [where Q = "\<lambda>e x. x = u \<and> value_ok (mc_aliases M) e v"]],
        (use assms u(1) in \<open>auto\<close>)[3],
        (elim conjE)?, hypsubst,
        (rule ev_ok_bind [OF ev_ok_call [where Q = "\<lambda>e x. value_ok (mc_aliases M) e v"]] ev_ok_ret
          | assumption | rule calls | rule plain_values_ok
          | simp only: value_ok_type split: if_split | rule conjI impI)+)
qed

lemma load_path_ok:
  assumes "\<forall>s \<in> set path. step_ok (mc_aliases M) s" "storage_ok (mc_aliases M) e" "value_ok (mc_aliases M) e v"
  shows "ev_ok d (mc_aliases M) e (load_path M v path) (value_ok (mc_aliases M))"
  using assms
proof (induction path arbitrary: e v)
  case (Cons s path)
  show ?case
    unfolding load_path.simps
    by (rule ev_ok_bind [OF elements_ok])
      (use Cons in \<open>auto simp: step_ok_def nth_mem intro!: ev_ok_fail reinterpret_ok Cons.IH\<close>)
qed (simp add: ev_ok_ret)

lemma pointer_load_ok:
  assumes "storage_ok (mc_aliases M) e" "fst p < length (ee_cells e)" "\<forall>s \<in> set (snd p). step_ok (mc_aliases M) s"
  shows "ev_ok d (mc_aliases M) e (pointer_load M p) (value_ok (mc_aliases M))"
  unfolding pointer_load_def
  by (rule ev_ok_bind [OF read_loc_ok]) (use assms in \<open>auto intro: load_path_ok\<close>)

lemma storeEvalPath_ok:
  assumes "storage_ok \<sigma> e" "loc_ok e l" "value_ok \<sigma> e v"
  shows "ev_ok d \<sigma> e (storeEvalPath l path v) (\<lambda>e' x. True)"
  using assms
proof (induction path arbitrary: e l)
  case (Cons s path)
  have target: "ev_ok d \<sigma> e' (if ep_union s then
        (if vs = [] then bindE (new_array [v]) (\<lambda>a. write_loc l (t\<lparr>ev_Aggregate := Some a\<rparr>))
         else write_loc (Elem (the (ev_Aggregate t)) 0) v)
      else if ep_index s < 0 \<or> ep_index s \<ge> int (length vs) then failE FieldRange
      else storeEvalPath (Elem (the (ev_Aggregate t)) (nat (ep_index s))) path v) (\<lambda>e' x. True)"
    if e': "e' = e" and t: "value_ok \<sigma> e t"
      and vs: "vs \<noteq> [] \<longrightarrow> (\<exists>a. ev_Aggregate t = Some a \<and> a < length (ee_arrays e) \<and> vs = ee_arrays e ! a)"
    for e' t vs
  proof (cases "ep_union s")
    case union: True
    show ?thesis
    proof (cases "vs = []")
      case True
      have "ev_ok d \<sigma> e (bindE (new_array [v]) (\<lambda>a. write_loc l (t\<lparr>ev_Aggregate := Some a\<rparr>))) (\<lambda>e' x. True)"
      proof (rule ev_ok_bind [OF new_array_ok])
        fix e2 a assume e2: "grows e e2" "storage_ok \<sigma> e2" "a < length (ee_arrays e2)"
        then have "value_ok \<sigma> e2 (t\<lparr>ev_Aggregate := Some a\<rparr>)"
          using value_ok_grows [OF t e2(1)] by (simp add: value_ok_def)
        then show "ev_ok d \<sigma> e2 (write_loc l (t\<lparr>ev_Aggregate := Some a\<rparr>)) (\<lambda>e' x. True)"
          using e2 Cons.prems by (intro write_loc_ok) (auto elim: loc_ok_grows)
      qed (use Cons.prems in auto)
      then show ?thesis using True union e' by simp
    next
      case False
      then show ?thesis using vs union e' Cons.prems by (auto intro!: write_loc_ok)
    qed
  next
    case False
    then show ?thesis
      using vs e' Cons.prems
      by (cases "vs = []") (auto intro!: ev_ok_fail Cons.IH)
  qed
  show ?case
    unfolding storeEvalPath.simps
  proof (rule ev_ok_bind [OF read_loc_ok])
    fix e1 t assume e1: "e1 = e \<and> value_ok \<sigma> e t"
    show "ev_ok d \<sigma> e1 (bindE (elements t) (\<lambda>vs. if ep_union s then
        (if vs = [] then bindE (new_array [v]) (\<lambda>a. write_loc l (t\<lparr>ev_Aggregate := Some a\<rparr>))
         else write_loc (Elem (the (ev_Aggregate t)) 0) v)
      else if ep_index s < 0 \<or> ep_index s \<ge> int (length vs) then failE FieldRange
      else storeEvalPath (Elem (the (ev_Aggregate t)) (nat (ep_index s))) path v)) (\<lambda>e' x. True)"
      by (rule ev_ok_bind [OF elements_ok]) (use e1 Cons.prems target in auto)
  qed (use Cons.prems in auto)
qed (simp add: write_loc_ok)

text \<open>What an instruction of a well-formed program satisfies.\<close>

fun instr_ok :: "alias_store \<Rightarrow> Function \<Rightarrow> Instr \<Rightarrow> bool" where
  "instr_ok \<sigma> f (Alloca s) \<longleftrightarrow> zeroable \<sigma> (slotType f s)"
| "instr_ok \<sigma> f (Store s x) \<longleftrightarrow> operand_ok \<sigma> x"
| "instr_ok \<sigma> f (FieldAddress d x n) \<longleftrightarrow> operand_ok \<sigma> x \<and> field_ok \<sigma> (op_Type x)"
| "instr_ok \<sigma> f (LoadPtr d x) \<longleftrightarrow> operand_ok \<sigma> x"
| "instr_ok \<sigma> f (StorePtr p x) \<longleftrightarrow> operand_ok \<sigma> p \<and> operand_ok \<sigma> x"
| "instr_ok \<sigma> f (InsertValue d x y i) \<longleftrightarrow> operand_ok \<sigma> x \<and> operand_ok \<sigma> y"
| "instr_ok \<sigma> f (ExtractValue d x i) \<longleftrightarrow> operand_ok \<sigma> x"
| "instr_ok \<sigma> f (StoreGlobal n x) \<longleftrightarrow> operand_ok \<sigma> x"
| "instr_ok \<sigma> f (Binary k d l r) \<longleftrightarrow>
     operand_ok \<sigma> l \<and> operand_ok \<sigma> r \<and> (k \<in> {Add, Sub, Mul} \<longrightarrow> typed \<sigma> (ValueType f d))"
| "instr_ok \<sigma> f (Unary k d x) \<longleftrightarrow> operand_ok \<sigma> x"
| "instr_ok \<sigma> f (Cast d x t) \<longleftrightarrow> operand_ok \<sigma> x"
| "instr_ok \<sigma> f (Call c) \<longleftrightarrow> (\<forall>x \<in> set (call_Args c). operand_ok \<sigma> x)"
| "instr_ok \<sigma> f (Branch c t e) \<longleftrightarrow> operand_ok \<sigma> c"
| "instr_ok \<sigma> f (Return v) \<longleftrightarrow> (\<forall>x. v = Some x \<longrightarrow> operand_ok \<sigma> x)"
| "instr_ok \<sigma> f i \<longleftrightarrow> True"

definition frame_post :: "alias_store \<Rightarrow> Function \<Rightarrow> Evaluator \<Rightarrow> evalFrame \<Rightarrow> bool" where
  "frame_post \<sigma> f e fr \<longleftrightarrow> frame_ok \<sigma> e fr \<and> fr_function fr = f"

lemma frame_post_simps [simp]:
  "frame_ok \<sigma> e fr \<Longrightarrow> value_ok \<sigma> e v \<Longrightarrow> frame_post \<sigma> (fr_function fr) e (set_value d v fr)"
  "frame_ok \<sigma> e fr \<Longrightarrow> frame_post \<sigma> (fr_function fr) e (set_integer d i fr)"
  "frame_ok \<sigma> e fr \<Longrightarrow> frame_post \<sigma> (fr_function fr) e (set_float d x fr)"
  "frame_ok \<sigma> e fr \<Longrightarrow> c < length (ee_cells e) \<Longrightarrow>
     frame_post \<sigma> (fr_function fr) e (fr\<lparr>fr_slots := (fr_slots fr)(s \<mapsto> c)\<rparr>)"
  "frame_ok \<sigma> e fr \<Longrightarrow> frame_post \<sigma> (fr_function fr) e fr"
  by (simp_all add: frame_post_def set_value_ok set_number_ok set_slot_ok)
    (simp_all add: set_integer_def set_float_def set_value_def)

lemma frame_post_grown:
  assumes "frame_ok \<sigma> e fr" "grows e e'"
  shows "frame_post \<sigma> (fr_function fr) e' fr"
    and "value_ok \<sigma> e' v \<Longrightarrow> frame_post \<sigma> (fr_function fr) e' (set_value d v fr)"
    and "c < length (ee_cells e') \<Longrightarrow> frame_post \<sigma> (fr_function fr) e' (fr\<lparr>fr_slots := (fr_slots fr)(s \<mapsto> c)\<rparr>)"
  using frame_ok_grows [OF assms] by simp_all

lemma bind_operand:
  assumes "operand_ok \<sigma> x" "storage_ok \<sigma> e" "frame_ok \<sigma> e fr"
    and "\<And>e' v. storage_ok \<sigma> e' \<Longrightarrow> frame_ok \<sigma> e' fr \<Longrightarrow> value_ok \<sigma> e' v \<Longrightarrow> grows e e' \<Longrightarrow>
      ev_ok d \<sigma> e' (k v) R"
  shows "ev_ok d \<sigma> e (bindE (operand \<sigma> x (Some fr)) k) R"
  by (rule ev_ok_bind [OF frame_operand]) (use assms in auto)

lemma try_operand:
  assumes "operand_ok \<sigma> x" "storage_ok \<sigma> e" "frame_ok \<sigma> e fr"
    and "\<And>e' err. storage_ok \<sigma> e' \<Longrightarrow> frame_ok \<sigma> e' fr \<Longrightarrow> ev_ok d \<sigma> e' (k (Inl err)) R"
    and "\<And>e' v. storage_ok \<sigma> e' \<Longrightarrow> frame_ok \<sigma> e' fr \<Longrightarrow> value_ok \<sigma> e' v \<Longrightarrow> ev_ok d \<sigma> e' (k (Inr v)) R"
  shows "ev_ok d \<sigma> e (tryE (operand \<sigma> x (Some fr)) k) R"
  by (rule ev_ok_try [OF frame_operand]) (use assms frame_ok_grows in auto)

lemma bind_integers:
  assumes "operand_ok \<sigma> l" "operand_ok \<sigma> r" "storage_ok \<sigma> e" "frame_ok \<sigma> e fr"
    and "\<And>e' i j. storage_ok \<sigma> e' \<Longrightarrow> frame_ok \<sigma> e' fr \<Longrightarrow> ev_ok d \<sigma> e' (k (i, j)) R"
  shows "ev_ok d \<sigma> e (bindE (integerOperands \<sigma> l r fr) k) R"
proof (rule ev_ok_bind)
  show "ev_ok d \<sigma> e (integerOperands \<sigma> l r fr) (\<lambda>e' p. frame_ok \<sigma> e' fr)"
    unfolding integerOperands_def
    by (intro bind_operand assms) (auto intro: ev_ok_ret ev_ok_fail split: option.splits)
qed (use assms in auto)

lemma pointer_operand_ok:
  assumes "operand_ok \<sigma> x" "storage_ok \<sigma> e" "frame_ok \<sigma> e fr"
  shows "ev_ok d \<sigma> e (pointer_operand \<sigma> fr x err)
    (\<lambda>e' p. fst p < length (ee_cells e') \<and> (\<forall>s \<in> set (snd p). step_ok \<sigma> s) \<and> frame_ok \<sigma> e' fr)"
  unfolding pointer_operand_def
  by (intro try_operand assms)
    (auto simp: value_ok_def intro!: ev_ok_ret ev_ok_fail split: option.splits)

lemma exec_load_ok:
  "storage_ok \<sigma> e \<Longrightarrow> frame_ok \<sigma> e fr \<Longrightarrow>
    ev_ok d \<sigma> e (exec_load name fr i s) (frame_post \<sigma> (fr_function fr))"
  unfolding exec_load_def
  by (auto intro!: ev_ok_fail ev_ok_ret ev_ok_bind [OF read_loc_ok] dest: frame_okD split: option.splits)

lemma exec_store_ok:
  assumes "operand_ok \<sigma> x" "storage_ok \<sigma> e" "frame_ok \<sigma> e fr"
  shows "ev_ok d \<sigma> e (exec_store \<sigma> fr s x) (frame_post \<sigma> (fr_function fr))"
  unfolding exec_store_def
proof (rule bind_operand)
  fix e' v assume e': "storage_ok \<sigma> e'" "frame_ok \<sigma> e' fr" "value_ok \<sigma> e' v"
  show "ev_ok d \<sigma> e' (case fr_slots fr s of None \<Rightarrow> bindE (new_cell v) (\<lambda>c. retE (fr\<lparr>fr_slots := (fr_slots fr)(s \<mapsto> c)\<rparr>))
      | Some c \<Rightarrow> bindE (write_loc (Cell c) v) (\<lambda>_. retE fr)) (frame_post \<sigma> (fr_function fr))"
  proof (cases "fr_slots fr s")
    case None
    show ?thesis
      unfolding None option.case
      by (rule ev_ok_bind [OF new_cell_ok]) (use e' in \<open>auto intro!: ev_ok_ret frame_post_grown\<close>)
  next
    case (Some c)
    show ?thesis
      unfolding Some option.case
      by (rule ev_ok_bind [OF write_loc_ok])
        (use e' Some in \<open>auto intro!: ev_ok_ret intro: frame_post_grown dest: frame_okD\<close>)
  qed
qed (use assms in auto)

lemma exec_field_address_ok:
  assumes "operand_ok \<sigma> x" "field_ok \<sigma> (op_Type x)" "storage_ok \<sigma> e" "frame_ok \<sigma> e fr"
  shows "ev_ok d \<sigma> e (exec_field_address \<sigma> fr i x n) (frame_post \<sigma> (fr_function fr))"
  unfolding exec_field_address_def
proof (rule ev_ok_bind [OF pointer_operand_ok])
  fix e' p assume e': "storage_ok \<sigma> e'"
    and p: "fst p < length (ee_cells e') \<and> (\<forall>s \<in> set (snd p). step_ok \<sigma> s) \<and> frame_ok \<sigma> e' fr"
  obtain c path where cp: "p = (c, path)" by (cases p)
  show "ev_ok d \<sigma> e' (case p of (c, path) \<Rightarrow> bindE (evalFieldPath \<sigma> (op_Type x) n) (\<lambda>step.
        retE (set_value i (EvalPointer (ValueType (fr_function fr) i) c (path @ [step])) fr)))
      (frame_post \<sigma> (fr_function fr))"
    unfolding cp prod.case
    by (rule ev_ok_bind [OF evalFieldPath_ok])
      (use assms e' p cp in \<open>auto intro!: ev_ok_ret frame_post_simps elim: frame_ok_grows simp: grows_def\<close>)
qed (use assms in auto)

lemma exec_load_ptr_ok:
  assumes "operand_ok (mc_aliases M) x" "storage_ok (mc_aliases M) e" "frame_ok (mc_aliases M) e fr"
  shows "ev_ok d (mc_aliases M) e (exec_load_ptr M fr i x) (frame_post (mc_aliases M) (fr_function fr))"
  unfolding exec_load_ptr_def
  by (intro ev_ok_bind [OF pointer_operand_ok] ev_ok_bind [OF pointer_load_ok] ev_ok_ret)
    (use assms in \<open>auto intro: frame_post_grown\<close>)

lemma exec_store_ptr_ok:
  assumes "operand_ok \<sigma> p" "operand_ok \<sigma> x" "storage_ok \<sigma> e" "frame_ok \<sigma> e fr"
  shows "ev_ok d \<sigma> e (exec_store_ptr \<sigma> fr p x) (frame_post \<sigma> (fr_function fr))"
  unfolding exec_store_ptr_def pointer_store_def
  by (intro ev_ok_bind [OF pointer_operand_ok] bind_operand ev_ok_bind [OF storeEvalPath_ok] ev_ok_ret)
    (use assms in \<open>auto intro: frame_post_grown dest: grows_cells\<close>)

lemma exec_insert_ok:
  assumes "operand_ok \<sigma> x" "operand_ok \<sigma> y" "storage_ok \<sigma> e" "frame_ok \<sigma> e fr"
  shows "ev_ok d \<sigma> e (exec_insert \<sigma> fr i x y k) (frame_post \<sigma> (fr_function fr))"
  unfolding exec_insert_def
proof (intro bind_operand)
  fix e1 a e2 v
  assume e1: "storage_ok \<sigma> e1" "frame_ok \<sigma> e1 fr" "value_ok \<sigma> e1 a"
    and e2: "storage_ok \<sigma> e2" "frame_ok \<sigma> e2 fr" "value_ok \<sigma> e2 v" "grows e1 e2"
  have a: "value_ok \<sigma> e2 a" using e1(3) e2(4) by (rule value_ok_grows)
  show "ev_ok d \<sigma> e2 (bindE (elements a) (\<lambda>vs.
        if k < 0 \<or> k \<ge> int (length vs) then failE (InsertRange k)
        else bindE (write_loc (Elem (the (ev_Aggregate a)) (nat k)) v) (\<lambda>_.
          retE (set_value i (a\<lparr>ev_Type := ValueType (fr_function fr) i\<rparr>) fr)))) (frame_post \<sigma> (fr_function fr))"
  proof (rule ev_ok_bind [OF elements_ok [OF e2(1) a]])
    fix e3 vs
    assume e3: "e3 = e2 \<and> (\<forall>x \<in> set vs. value_ok \<sigma> e2 x) \<and>
      (vs \<noteq> [] \<longrightarrow> (\<exists>b. ev_Aggregate a = Some b \<and> b < length (ee_arrays e2) \<and> vs = ee_arrays e2 ! b))"
    show "ev_ok d \<sigma> e3 (if k < 0 \<or> k \<ge> int (length vs) then failE (InsertRange k)
        else bindE (write_loc (Elem (the (ev_Aggregate a)) (nat k)) v) (\<lambda>_.
          retE (set_value i (a\<lparr>ev_Type := ValueType (fr_function fr) i\<rparr>) fr))) (frame_post \<sigma> (fr_function fr))"
    proof (cases "k < 0 \<or> k \<ge> int (length vs)")
      case False
      show ?thesis
        unfolding if_not_P [OF False]
        by (rule ev_ok_bind [OF write_loc_ok])
          (use e2 e3 a False in \<open>auto intro!: ev_ok_ret frame_post_simps elim: frame_ok_grows value_ok_grows\<close>)
    qed (use e2 e3 in \<open>simp add: ev_ok_fail\<close>)
  qed
qed (use assms in auto)

lemma exec_extract_ok:
  assumes "operand_ok \<sigma> x" "storage_ok \<sigma> e" "frame_ok \<sigma> e fr"
  shows "ev_ok d \<sigma> e (exec_extract \<sigma> fr i x k) (frame_post \<sigma> (fr_function fr))"
  unfolding exec_extract_def
  by (intro bind_operand ev_ok_bind [OF elements_ok])
    (use assms in \<open>auto intro!: ev_ok_ret ev_ok_fail frame_post_simps nth_mem\<close>)

lemma binaryNumber_ok:
  assumes "operand_ok \<sigma> l" "operand_ok \<sigma> r" "typed \<sigma> (ValueType (fr_function fr) i)"
    "storage_ok \<sigma> e" "frame_ok \<sigma> e fr"
  shows "ev_ok d \<sigma> e (binaryNumber \<sigma> fr i l r int_op float_op) (frame_post \<sigma> (fr_function fr))"
  unfolding binaryNumber_def
proof (intro bind_operand)
  fix e1 x e2 y
  assume e2: "storage_ok \<sigma> e2" "frame_ok \<sigma> e2 fr"
  show "ev_ok d \<sigma> e2 (case (ev_Float x, ev_Float y) of
        (Some a, Some b) \<Rightarrow>
          bindE (callE (is_prim \<sigma> (ValueType (fr_function fr) i) PrimitiveF32)) (\<lambda>narrow.
            retE (set_float i (if narrow then round32 (float_op a b) else float_op a b) fr))
      | _ \<Rightarrow>
          (case (ev_Integer x, ev_Integer y) of
             (Some m, Some n) \<Rightarrow> retE (set_integer i (int_op m n) fr)
           | _ \<Rightarrow> failE NumericOperands)) (frame_post \<sigma> (fr_function fr))"
  proof (cases "ev_Float x \<noteq> None \<and> ev_Float y \<noteq> None")
    case True
    then obtain a b where ab: "ev_Float x = Some a" "ev_Float y = Some b" by auto
    show ?thesis
      unfolding ab prod.case option.case
      by (rule ev_ok_bind [OF ev_ok_call [where Q = "\<lambda>e x. frame_ok \<sigma> e fr"]])
        (use e2 is_prim_returns [OF assms(3)] in \<open>auto intro: ev_ok_ret simp del: not_None_eq\<close>)
  next
    case False
    then show ?thesis using e2 by (auto intro: ev_ok_ret ev_ok_fail split: option.splits)
  qed
qed (use assms in auto)

lemma exec_binary_ok:
  assumes "exec_binary \<sigma> fr k i l r = Some m" "operand_ok \<sigma> l" "operand_ok \<sigma> r"
    "k \<in> {Add, Sub, Mul} \<longrightarrow> typed \<sigma> (ValueType (fr_function fr) i)" "storage_ok \<sigma> e" "frame_ok \<sigma> e fr"
  shows "ev_ok d \<sigma> e m (frame_post \<sigma> (fr_function fr))"
proof -
  have div: "ev_ok d \<sigma> e (exec_div \<sigma> fr i l r) (frame_post \<sigma> (fr_function fr))"
    unfolding exec_div_def
    by (intro try_operand assms)
      (auto intro!: ev_ok_ret ev_ok_fail bind_integers assms split: option.splits)
  have ints: "ev_ok d \<sigma> e (binaryInteger \<sigma> fr i l r oper) (frame_post \<sigma> (fr_function fr))"
    "ev_ok d \<sigma> e (exec_mod \<sigma> fr i l r) (frame_post \<sigma> (fr_function fr))"
    "ev_ok d \<sigma> e (exec_shift \<sigma> fr i l r shift) (frame_post \<sigma> (fr_function fr))" for oper shift
    unfolding binaryInteger_def exec_mod_def exec_shift_def
    by (auto intro!: ev_ok_ret ev_ok_fail bind_integers assms)
  have cmp: "ev_ok d \<sigma> e (compare \<sigma> fr i l r u P) (frame_post \<sigma> (fr_function fr))" for u P
    unfolding compare_def by (intro bind_operand assms) (auto intro: ev_ok_ret)
  show ?thesis
    using assms binaryNumber_ok [OF assms(2,3) _ assms(5,6)] div ints cmp by (cases k) auto
qed

lemma exec_unary_ok:
  assumes "operand_ok \<sigma> x" "storage_ok \<sigma> e" "frame_ok \<sigma> e fr"
  shows "ev_ok d \<sigma> e (exec_unary \<sigma> fr k i x) (frame_post \<sigma> (fr_function fr))"
proof (cases k)
  case Negate
  show ?thesis
    unfolding Negate exec_unary.simps
    by (intro bind_operand assms) (auto intro!: ev_ok_ret ev_ok_fail split: option.splits)
next
  case LogicalNot
  show ?thesis
    unfolding LogicalNot exec_unary.simps by (intro bind_operand assms) (auto intro: ev_ok_ret)
next
  case BitwiseNot
  show ?thesis
    unfolding BitwiseNot exec_unary.simps
    by (intro try_operand assms) (auto intro!: ev_ok_ret ev_ok_fail split: option.splits)
qed

lemma exec_call_ok:
  assumes "\<forall>x \<in> set (call_Args c). operand_ok \<sigma> x" "storage_ok \<sigma> e" "frame_ok \<sigma> e fr"
    and callee: "\<And>e' args. grows e e' \<Longrightarrow> storage_ok \<sigma> e' \<Longrightarrow> \<forall>v \<in> set args. value_ok \<sigma> e' v \<Longrightarrow>
      ev_ok d \<sigma> e' (callee (call_Name c) args) (value_ok \<sigma>)"
  shows "ev_ok d \<sigma> e (exec_call \<sigma> callee fr c) (frame_post \<sigma> (fr_function fr))"
proof -
  have args: "ev_ok d \<sigma> e (operand_list \<sigma> (call_Args c) (Some fr)) (\<lambda>e' vs. \<forall>v \<in> set vs. value_ok \<sigma> e' v)"
    by (rule operand_ok_run(2)) (use assms in auto)
  have "ev_ok d \<sigma> e (bindE (operand_list \<sigma> (call_Args c) (Some fr)) (\<lambda>args.
         tryE (callee (call_Name c) args) (\<lambda>r.
           case r of
             Inl err \<Rightarrow> failE (call_error c err)
           | Inr v \<Rightarrow> retE (if call_Dest c \<noteq> 0 then set_value (call_Dest c) v fr else fr)))) (frame_post \<sigma> (fr_function fr))"
    by (rule ev_ok_bind [OF args], rule ev_ok_try [OF callee])
      (use assms in \<open>auto intro!: ev_ok_fail ev_ok_ret intro: frame_post_grown grows_trans\<close>)
  then show ?thesis using assms by (simp add: exec_call_def ev_ok_fail)
qed

text \<open>The blocks an instruction can continue with.\<close>

fun jump_targets :: "Instr \<Rightarrow> BlockID set" where
  "jump_targets (Jump t) = {t}"
| "jump_targets (Branch c t f) = {t, f}"
| "jump_targets i = {}"

definition outcome_ok :: "alias_store \<Rightarrow> Function \<Rightarrow> BlockID set \<Rightarrow> Evaluator \<Rightarrow> outcome \<Rightarrow> bool" where
  "outcome_ok \<sigma> f ts e r =
    (case r of
       Next fr \<Rightarrow> frame_post \<sigma> f e fr
     | Goto t fr \<Rightarrow> frame_post \<sigma> f e fr \<and> t \<in> ts
     | Returned v \<Rightarrow> value_ok \<sigma> e v)"

lemma outcome_ok_simps [simp]:
  "outcome_ok \<sigma> f ts e (Next fr) = frame_post \<sigma> f e fr"
  "outcome_ok \<sigma> f ts e (Goto t fr) \<longleftrightarrow> frame_post \<sigma> f e fr \<and> t \<in> ts"
  "outcome_ok \<sigma> f ts e (Returned v) = value_ok \<sigma> e v"
  by (simp_all add: outcome_ok_def)

lemma next_frame_ok:
  assumes "ev_ok d \<sigma> e m (frame_post \<sigma> f)"
  shows "ev_ok d \<sigma> e (next_frame m) (outcome_ok \<sigma> f ts)"
  unfolding next_frame_def by (rule ev_ok_bind [OF assms]) (simp add: ev_ok_ret)

lemmas instruction_ok =
  exec_load_ok exec_store_ok exec_field_address_ok exec_load_ptr_ok exec_store_ptr_ok exec_insert_ok
  exec_extract_ok exec_unary_ok

lemma exec_instr_ok:
  assumes "instr_ok (mc_aliases M) (fr_function fr) instr"
    and st: "storage_ok (mc_aliases M) e" and fr: "frame_ok (mc_aliases M) e fr"
    and callee: "\<And>e' n args. grows e e' \<Longrightarrow> storage_ok (mc_aliases M) e' \<Longrightarrow>
      \<forall>v \<in> set args. value_ok (mc_aliases M) e' v \<Longrightarrow>
      ev_ok d (mc_aliases M) e' (callee n args) (value_ok (mc_aliases M))"
  shows "ev_ok d (mc_aliases M) e (exec_instr M callee name b i fr instr)
    (outcome_ok (mc_aliases M) (fr_function fr) (jump_targets instr))"
proof (cases instr)
  case (Binary k dst l r)
  then show ?thesis
    using assms exec_binary_ok [of "mc_aliases M" fr k dst l r]
    by (cases "exec_binary (mc_aliases M) fr k dst l r") (simp_all add: next_frame_ok ev_ok_fail)
next
  case (Alloca s)
  show ?thesis
    unfolding Alloca exec_instr.simps
  proof (rule ev_ok_bind [OF zeroEvalValue_ok])
    fix e1 v assume e1: "grows e e1" "storage_ok (mc_aliases M) e1" "value_ok (mc_aliases M) e1 v"
    show "ev_ok d (mc_aliases M) e1 (bindE (new_cell v) (\<lambda>c. retE (Next (fr\<lparr>fr_slots := (fr_slots fr)(s \<mapsto> c)\<rparr>))))
        (outcome_ok (mc_aliases M) (fr_function fr) (jump_targets (Alloca s)))"
      by (rule ev_ok_bind [OF new_cell_ok [OF e1(2,3)]])
        (use frame_post_grown(3) [OF fr] grows_trans [OF e1(1)] in \<open>auto intro!: ev_ok_ret\<close>)
  qed (use assms Alloca in auto)
next
  case (LoadGlobal dst n t)
  show ?thesis
    unfolding LoadGlobal exec_instr.simps
    by (rule ev_ok_bind [OF ev_ok_read [where
          Q = "\<lambda>e' g. frame_ok (mc_aliases M) e' fr \<and> (\<forall>v. g = Some v \<longrightarrow> value_ok (mc_aliases M) e' v)"]])
      (use st fr in \<open>auto intro: ev_ok_ret ev_ok_fail dest: storage_okD split: option.splits\<close>)
next
  case (StoreGlobal n x)
  show ?thesis
    unfolding StoreGlobal exec_instr.simps
    by (intro bind_operand ev_ok_bind [OF set_global_ok])
      (use assms StoreGlobal in \<open>auto intro!: ev_ok_ret intro: frame_post_grown\<close>)
next
  case (Return v)
  then show ?thesis
    using assms by (cases v) (auto intro!: ev_ok_ret bind_operand)
next
  case (Cast dst x t)
  show ?thesis
    unfolding Cast exec_instr.simps by (intro bind_operand) (use assms Cast in \<open>auto intro!: ev_ok_ret\<close>)
next
  case (Branch c t f)
  show ?thesis
    unfolding Branch exec_instr.simps by (intro bind_operand) (use assms Branch in \<open>auto intro!: ev_ok_ret\<close>)
next
  case (AddressOf dst s)
  then show ?thesis
    using st fr frame_okD(2) [OF fr, of s]
    by (cases "fr_slots fr s") (simp_all add: ev_ok_ret ev_ok_fail)
next
  case (Call c)
  then show ?thesis
    using assms by (auto intro!: next_frame_ok exec_call_ok)
qed (use assms in \<open>simp_all add: next_frame_ok instruction_ok ev_ok_fail ev_ok_ret\<close>)

lemma exec_instrs_ok:
  assumes "\<forall>instr \<in> set is. instr_ok (mc_aliases M) (fr_function fr) instr"
    and "storage_ok (mc_aliases M) e" "frame_ok (mc_aliases M) e fr"
    and callee: "\<And>e' n args. grows e e' \<Longrightarrow> storage_ok (mc_aliases M) e' \<Longrightarrow>
      \<forall>v \<in> set args. value_ok (mc_aliases M) e' v \<Longrightarrow>
      ev_ok d (mc_aliases M) e' (callee n args) (value_ok (mc_aliases M))"
  shows "ev_ok d (mc_aliases M) e (exec_instrs M callee name b i fr is)
    (outcome_ok (mc_aliases M) (fr_function fr) (\<Union>instr \<in> set is. jump_targets instr))"
  using assms
proof (induction "is" arbitrary: i fr e)
  case Nil
  then show ?case by (simp add: ev_ok_ret)
next
  case (Cons instr rest)
  let ?ts = "\<Union>i \<in> set (instr # rest). jump_targets i"
  show ?case
    unfolding exec_instrs.simps
  proof (rule ev_ok_bind [OF exec_instr_ok])
    fix e1 r
    assume e1: "grows e e1" "storage_ok (mc_aliases M) e1"
      and r: "outcome_ok (mc_aliases M) (fr_function fr) (jump_targets instr) e1 r"
    have callee1: "ev_ok d (mc_aliases M) e' (callee n args) (value_ok (mc_aliases M))"
      if "grows e1 e'" "storage_ok (mc_aliases M) e'" "\<forall>v \<in> set args. value_ok (mc_aliases M) e' v" for e' n args
      using Cons.prems(4) grows_trans [OF e1(1) that(1)] that by blast
    show "ev_ok d (mc_aliases M) e1 (case r of Next fr' \<Rightarrow> exec_instrs M callee name b (i + 1) fr' rest | _ \<Rightarrow> retE r)
        (outcome_ok (mc_aliases M) (fr_function fr) ?ts)"
    proof (cases r)
      case (Next fr')
      then have fr': "frame_ok (mc_aliases M) e1 fr'" "fr_function fr' = fr_function fr"
        using r by (auto simp: frame_post_def)
      then have "ev_ok d (mc_aliases M) e1 (exec_instrs M callee name b (i + 1) fr' rest)
          (outcome_ok (mc_aliases M) (fr_function fr') (\<Union>i \<in> set rest. jump_targets i))"
        using Cons.prems e1 callee1 by (intro Cons.IH) auto
      then show ?thesis
        unfolding Next outcome.case fr'(2)
        by (rule ev_ok_weaken) (auto simp: outcome_ok_def split: outcome.splits)
    qed (use r e1 in \<open>auto intro!: ev_ok_ret\<close>)
  qed (use Cons.prems in auto)
qed

section \<open>Calls and blocks\<close>

definition program_ok :: "alias_store \<Rightarrow> Evaluator \<Rightarrow> bool" where
  "program_ok \<sigma> e \<longleftrightarrow>
    (\<forall>f \<in> ran (ee_Functions e). \<forall>b \<in> set (fn_Blocks f). \<forall>i \<in> set (block_Instr b). instr_ok \<sigma> f i)"

lemma program_ok_grows: "program_ok \<sigma> e \<Longrightarrow> grows e e' \<Longrightarrow> program_ok \<sigma> e'"
  by (simp add: program_ok_def grows_def)

lemma fold_bind_in_block:
  assumes "frame_ok \<sigma> e fr" "value_ok \<sigma> e v"
  shows "frame_ok \<sigma> e (fold (bind_in_block entry s v) bs fr)"
  using assms(1)
proof (induction bs arbitrary: fr)
  case (Cons b bs)
  have "frame_ok \<sigma> e (bind_in_block entry s v b fr)"
    using Cons.prems assms(2) by (auto simp: bind_in_block_def set_value_ok split: option.splits)
  then show ?case by (simp add: Cons.IH)
qed simp

lemma bind_parameters_ok:
  assumes "storage_ok \<sigma> e" "frame_ok \<sigma> e fr" "\<forall>p \<in> set ps. value_ok \<sigma> e (snd p)"
  shows "ev_ok d \<sigma> e (bind_parameters f ps fr) (\<lambda>e' fr'. frame_ok \<sigma> e' fr')"
  using assms
proof (induction f ps fr arbitrary: e rule: bind_parameters.induct)
  case (2 f p v ps fr)
  show ?case
    unfolding bind_parameters.simps
  proof (rule ev_ok_bind [OF new_cell_ok])
    fix e1 c assume e1: "grows e e1" "storage_ok \<sigma> e1" "c < length (ee_cells e1)"
    have "frame_ok \<sigma> e1 (fr\<lparr>fr_slots := (fr_slots fr)(par_Slot p \<mapsto> c)\<rparr>)" "value_ok \<sigma> e1 v"
      using set_slot_ok [OF frame_ok_grows [OF "2.prems"(2) e1(1)] e1(3)] "2.prems"(3) e1(1)
      by (auto elim: value_ok_grows)
    then show "ev_ok d \<sigma> e1 (bind_parameters f ps (fold (bind_in_block (fn_Entry f) (par_Slot p) v) (fn_Blocks f)
          (fr\<lparr>fr_slots := (fr_slots fr)(par_Slot p \<mapsto> c)\<rparr>))) (\<lambda>e' fr'. frame_ok \<sigma> e' fr')"
      using "2.prems" e1 by (intro "2.IH") (auto intro: fold_bind_in_block elim: value_ok_grows)
  qed (use "2.prems" in auto)
qed (simp add: ev_ok_ret)

lemma enter_ok:
  assumes "storage_ok \<sigma> e" "\<forall>v \<in> set args. value_ok \<sigma> e v"
  shows "ev_ok d \<sigma> e (enter name args depth) (\<lambda>e' fr. frame_ok \<sigma> e' fr \<and> depth < ee_MaxDepth e')"
  unfolding enter_def
proof (rule ev_ok_bind [OF ev_ok_read [where Q = "\<lambda>e' x. e' = e \<and> x = (ee_Functions e name, ee_MaxDepth e)"]])
  fix e1 x assume x: "e1 = e \<and> x = (ee_Functions e name, ee_MaxDepth e)"
  show "ev_ok d \<sigma> e1 (case x of (fn, max_depth) \<Rightarrow> case fn of
        None \<Rightarrow> failE (unavailable_error (UnavailableFunction name))
      | Some f \<Rightarrow>
          if depth \<ge> max_depth then failE (DepthExceeded name)
          else if length args \<noteq> length (fn_Parameters f)
          then failE (ArgumentCount name (length (fn_Parameters f)) (length args))
          else bind_parameters f (zip (fn_Parameters f) args)
            \<lparr>fr_function = f, fr_values = Map.empty, fr_slots = Map.empty\<rparr>)
      (\<lambda>e' fr. frame_ok \<sigma> e' fr \<and> depth < ee_MaxDepth e')"
  proof (cases "ee_Functions e name")
    case (Some f)
    let ?fr = "\<lparr>fr_function = f, fr_values = Map.empty, fr_slots = Map.empty\<rparr>"
    have "frame_ok \<sigma> e ?fr" using Some by (auto simp: frame_ok_def intro: ranI)
    then have bind: "ev_ok d \<sigma> e (bind_parameters f (zip (fn_Parameters f) args) ?fr) (\<lambda>e' fr'. frame_ok \<sigma> e' fr')"
      using assms by (intro bind_parameters_ok) (auto dest: set_zip_rightD)
    have "ev_ok d \<sigma> e (bind_parameters f (zip (fn_Parameters f) args) ?fr)
        (\<lambda>e' fr. frame_ok \<sigma> e' fr \<and> depth < ee_MaxDepth e')" if "depth < ee_MaxDepth e"
      using bind by (rule ev_ok_weaken) (use that in \<open>auto simp: grows_def\<close>)
    then show ?thesis using x Some assms by (auto intro: ev_ok_fail)
  qed (use x assms in \<open>auto intro: ev_ok_fail\<close>)
qed (use assms in auto)

lemma frame_block_in: "frame_block f b = Some current \<Longrightarrow> current \<in> set (fn_Blocks f) \<and> block_ID current = b"
  by (auto simp: frame_block_def find_Some_iff)

definition block_targets :: "Function \<Rightarrow> BlockID \<Rightarrow> BlockID set" where
  "block_targets f b =
    (case frame_block f b of
       None \<Rightarrow> {}
     | Some current \<Rightarrow> (\<Union>i \<in> set (block_Instr current). jump_targets i))"

lemma exec_round_ok:
  fixes M
  assumes prog: "program_ok (mc_aliases M) e" and st: "storage_ok (mc_aliases M) e"
    and fr: "frame_ok (mc_aliases M) e fr"
    and deeper: "\<And>e' n fr'. grows e e' \<Longrightarrow> storage_ok (mc_aliases M) e' \<Longrightarrow> frame_ok (mc_aliases M) e' fr' \<Longrightarrow>
      depth + 1 < ee_MaxDepth e \<Longrightarrow>
      ev_ok d (mc_aliases M) e' (loop (depth + 1) n fr' (fn_Entry (fr_function fr'))) (value_ok (mc_aliases M))"
    and further: "\<And>e' fr' t. grows e e' \<Longrightarrow> storage_ok (mc_aliases M) e' \<Longrightarrow> frame_ok (mc_aliases M) e' fr' \<Longrightarrow>
      fr_function fr' = fr_function fr \<Longrightarrow> t \<in> block_targets (fr_function fr) b \<Longrightarrow>
      ev_ok d (mc_aliases M) e' (loop depth name fr' t) (value_ok (mc_aliases M))"
  shows "ev_ok d (mc_aliases M) e (exec_round M loop depth name fr b) (value_ok (mc_aliases M))"
proof (cases "frame_block (fr_function fr) b")
  case None
  then show ?thesis using st by (simp add: exec_round_def ev_ok_fail)
next
  case (Some current)
  let ?callee = "\<lambda>n args. bindE (enter n args (depth + 1))
      (\<lambda>fr'. loop (depth + 1) n fr' (fn_Entry (fr_function fr')))"
  have callee: "ev_ok d (mc_aliases M) e' (?callee n args) (value_ok (mc_aliases M))"
    if "grows e e'" "storage_ok (mc_aliases M) e'" "\<forall>v \<in> set args. value_ok (mc_aliases M) e' v" for e' n args
  proof (rule ev_ok_bind [OF enter_ok])
    fix e2 fr' assume e2: "grows e' e2" "storage_ok (mc_aliases M) e2"
      "frame_ok (mc_aliases M) e2 fr' \<and> depth + 1 < ee_MaxDepth e2"
    have g: "grows e e2" using that(1) e2(1) by (rule grows_trans)
    moreover have "depth + 1 < ee_MaxDepth e" using g e2(3) by (simp add: grows_def)
    ultimately show "ev_ok d (mc_aliases M) e2 (loop (depth + 1) n fr' (fn_Entry (fr_function fr')))
        (value_ok (mc_aliases M))"
      using e2 by (intro deeper) auto
  qed (use that in auto)
  have targets: "(\<Union>i \<in> set (block_Instr current). jump_targets i) = block_targets (fr_function fr) b"
    using Some by (simp add: block_targets_def)
  have "ev_ok d (mc_aliases M) e (exec_instrs M ?callee name (block_ID current) 0 fr (block_Instr current))
      (outcome_ok (mc_aliases M) (fr_function fr) (block_targets (fr_function fr) b))"
    unfolding targets [symmetric]
    using prog fr st frame_block_in [OF Some] callee
    by (intro exec_instrs_ok) (auto simp: program_ok_def frame_ok_def)
  then have "ev_ok d (mc_aliases M) e (bindE (exec_instrs M ?callee name (block_ID current) 0 fr (block_Instr current)) (\<lambda>r.
           case r of
             Returned v \<Rightarrow> retE v
           | Goto b' fr' \<Rightarrow> loop depth name fr' b'
           | Next fr' \<Rightarrow> failE (FellOff (block_Name current) name))) (value_ok (mc_aliases M))"
    by (rule ev_ok_bind)
      (use further in \<open>auto simp: outcome_ok_def frame_post_def intro: ev_ok_ret ev_ok_fail split: outcome.splits\<close>)
  then show ?thesis using Some by (simp add: exec_round_def)
qed

text \<open>Blocks numbered so that every jump goes down: no loops.\<close>

definition loop_free :: "(BlockID \<Rightarrow> nat) \<Rightarrow> Function \<Rightarrow> bool" where
  "loop_free rank f \<longleftrightarrow> (\<forall>b. \<forall>t \<in> block_targets f b. rank t < rank b)"

lemma exec_loop_returns:
  assumes "program_ok (mc_aliases M) e" "storage_ok (mc_aliases M) e" "frame_ok (mc_aliases M) e fr"
    and "\<forall>f \<in> ran (ee_Functions e). loop_free (rank f) f"
  shows "ev_ok False (mc_aliases M) e (exec_loop M depth name fr b) (value_ok (mc_aliases M))"
  using assms
proof (induction "(nat (ee_MaxDepth e - depth), rank (fr_function fr) b)" arbitrary: e depth name fr b
    rule: wf_induct_rule [OF wf_lex_prod [OF wf_less wf_less], case_names less])
  case less
  have eq: "exec_loop M depth name fr b = exec_round M (exec_loop M) depth name fr b"
    by (rule ext) (rule exec_loop.simps)
  have IH: "ev_ok False (mc_aliases M) e' (exec_loop M depth' n fr' b') (value_ok (mc_aliases M))"
    if "grows e e'" "storage_ok (mc_aliases M) e'" "frame_ok (mc_aliases M) e' fr'"
      "nat (ee_MaxDepth e - depth') < nat (ee_MaxDepth e - depth) \<or>
       depth' = depth \<and> rank (fr_function fr') b' < rank (fr_function fr) b" for e' depth' n fr' b'
    using less.prems that program_ok_grows [OF less.prems(1) that(1)]
    by (intro less.hyps) (auto simp: grows_def)
  show ?case
    unfolding eq
    by (rule exec_round_ok) (use less.prems IH in \<open>auto simp: loop_free_def frame_ok_def\<close>)
qed

section \<open>The beginnings of a run\<close>

text \<open>
  The evaluator stopped with the error \<open>err\<close> when it enters a block for the \<open>n\<close>-th time in
  a row of jumps and nested calls. As every error ends all calls, this is the beginning of the
  run; unlike the run itself it always comes to an end, so that it does not return only if an
  operation of the evaluator is stuck.
\<close>

fun exec_limited ::
  "eval_error \<Rightarrow> nat \<Rightarrow> machine \<Rightarrow> int \<Rightarrow> string \<Rightarrow> evalFrame \<Rightarrow> BlockID \<Rightarrow> EvalValue ev" where
  "exec_limited err 0 M depth name fr b = failE err"
| "exec_limited err (Suc n) M depth name fr b = exec_round M (exec_limited err n M) depth name fr b"

definition run_limited :: "eval_error \<Rightarrow> nat \<Rightarrow> machine \<Rightarrow> string \<Rightarrow> EvalValue list \<Rightarrow> EvalValue ev" where
  "run_limited err n M name args =
    bindE (enter name args 0) (\<lambda>fr. exec_limited err n M 0 name fr (fn_Entry (fr_function fr)))"

lemma exec_limited_ok:
  "program_ok (mc_aliases M) e \<Longrightarrow> storage_ok (mc_aliases M) e \<Longrightarrow> frame_ok (mc_aliases M) e fr \<Longrightarrow>
   ev_ok False (mc_aliases M) e (exec_limited err n M depth name fr b) (value_ok (mc_aliases M))"
proof (induction n arbitrary: depth name fr b e)
  case 0
  then show ?case by (simp add: ev_ok_fail)
next
  case (Suc n)
  show ?case
    unfolding exec_limited.simps
    by (rule exec_round_ok) (use Suc program_ok_grows in blast)+
qed

lemma run_limited_ok:
  assumes "program_ok (mc_aliases M) e" and "storage_ok (mc_aliases M) e"
    and "\<forall>v \<in> set args. value_ok (mc_aliases M) e v"
  shows "ev_ok False (mc_aliases M) e (run_limited err n M name args) (value_ok (mc_aliases M))"
  unfolding run_limited_def
  by (rule ev_ok_bind [OF enter_ok]) (use assms program_ok_grows exec_limited_ok in blast)+

text \<open>\<open>succeeds_as m m'\<close>: every result of \<open>m\<close> that is no error is the result of \<open>m'\<close>.\<close>

definition succeeds_as :: "'a ev \<Rightarrow> 'a ev \<Rightarrow> bool" where
  "succeeds_as m m' \<longleftrightarrow> (\<forall>e x e'. m e = Some (Inr x, e') \<longrightarrow> m' e = Some (Inr x, e'))"

lemma succeeds_refl [simp]: "succeeds_as m m"
  by (simp add: succeeds_as_def)

lemma fails_succeed [simp]: "succeeds_as (failE err) m"
  by (simp add: succeeds_as_def ev_simps)

lemma bind_outcome:
  "bindE m k e = Some (Inr x, e'') \<longleftrightarrow>
   (\<exists>y e'. m e = Some (Inr y, e') \<and> k y e' = Some (Inr x, e''))"
  by (auto simp: bindE_def tryE_def ev_simps split: option.splits sum.splits)

lemma succeeds_bind:
  assumes "succeeds_as m m'" and "\<And>x. succeeds_as (k x) (k' x)"
  shows "succeeds_as (bindE m k) (bindE m' k')"
  using assms by (fastforce simp: succeeds_as_def bind_outcome)

lemma succeeds_try:
  assumes "succeeds_as m m'" and "\<And>x. succeeds_as (k (Inr x)) (k' (Inr x))"
    and "\<And>err e. \<exists>err'. k (Inl err) e = Some (Inl err', e)"
  shows "succeeds_as (tryE m k) (tryE m' k')"
  unfolding succeeds_as_def
proof (intro allI impI)
  fix e x e'
  assume h: "tryE m k e = Some (Inr x, e')"
  then obtain r e1 where m: "m e = Some (r, e1)" "k r e1 = Some (Inr x, e')"
    by (auto simp: tryE_def split: option.splits)
  with assms(3) obtain y where r: "r = Inr y"
    by (cases r) (metis Inl_Inr_False option.inject prod.inject, blast)
  then have "m' e = Some (Inr y, e1)" "k' (Inr y) e1 = Some (Inr x, e')"
    using m assms(1,2) by (auto simp: succeeds_as_def)
  then show "tryE m' k' e = Some (Inr x, e')" by (simp add: tryE_def)
qed

lemma exec_call_succeeds:
  assumes "\<And>n args. succeeds_as (callee n args) (callee' n args)"
  shows "succeeds_as (exec_call \<sigma> callee fr c) (exec_call \<sigma> callee' fr c)"
proof -
  have "succeeds_as (tryE (callee n args) (\<lambda>r. case r of Inl err \<Rightarrow> failE (call_error c err) | Inr v \<Rightarrow> k v))
      (tryE (callee' n args) (\<lambda>r. case r of Inl err \<Rightarrow> failE (call_error c err) | Inr v \<Rightarrow> k v))"
    for n args and k :: "EvalValue \<Rightarrow> evalFrame ev"
    by (rule succeeds_try [OF assms]) (simp_all add: ev_simps)
  then show ?thesis by (auto simp: exec_call_def intro!: succeeds_bind)
qed

lemma exec_instr_succeeds:
  assumes "\<And>n args. succeeds_as (callee n args) (callee' n args)"
  shows "succeeds_as (exec_instr M callee name b i fr instr) (exec_instr M callee' name b i fr instr)"
proof (cases "\<exists>c. instr = Call c")
  case True
  then show ?thesis by (auto simp: next_frame_def intro!: succeeds_bind exec_call_succeeds assms)
next
  case False
  then have "exec_instr M callee name b i fr instr = exec_instr M callee' name b i fr instr"
    by (cases instr) auto
  then show ?thesis by simp
qed

lemma exec_instrs_succeeds:
  assumes "\<And>n args. succeeds_as (callee n args) (callee' n args)"
  shows "succeeds_as (exec_instrs M callee name b i fr is) (exec_instrs M callee' name b i fr is)"
proof (induction "is" arbitrary: i fr)
  case (Cons instr rest)
  have "succeeds_as (case r of Next fr' \<Rightarrow> exec_instrs M callee name b (i + 1) fr' rest | _ \<Rightarrow> retE r)
      (case r of Next fr' \<Rightarrow> exec_instrs M callee' name b (i + 1) fr' rest | _ \<Rightarrow> retE r)" for r
    by (cases r) (simp_all add: Cons.IH [unfolded Suc_eq_plus1])
  then show ?case by (simp add: succeeds_bind exec_instr_succeeds assms)
qed simp

lemma exec_limited_succeeds: "succeeds_as (exec_limited err n M depth name fr b) (exec_loop M depth name fr b)"
proof (induction n arbitrary: depth name fr b)
  case (Suc n)
  have loop: "exec_loop M depth name fr b = exec_round M (exec_loop M) depth name fr b"
    by (rule ext) (rule exec_loop.simps)
  have next_round: "succeeds_as
      (case r of Returned v \<Rightarrow> retE v | Goto b' fr' \<Rightarrow> exec_limited err n M depth name fr' b'
        | Next fr' \<Rightarrow> failE (FellOff s name))
      (case r of Returned v \<Rightarrow> retE v | Goto b' fr' \<Rightarrow> exec_loop M depth name fr' b'
        | Next fr' \<Rightarrow> failE (FellOff s name))" for r s
    by (cases r) (simp_all add: Suc.IH)
  show ?case
    unfolding loop exec_limited.simps exec_round_def
    by (auto intro!: succeeds_bind exec_instrs_succeeds next_round Suc.IH split: option.split)
qed simp

lemma run_limited_succeeds: "succeeds_as (run_limited err n M name args) (Run M name args)"
  unfolding run_limited_def Run_def run_at_def by (rule succeeds_bind) (simp_all add: exec_limited_succeeds)

end
