(* ===== verification/Float64_Facts.thy ===== *)
theory Float64_Facts
  imports Float64
begin

text \<open>
  Bit patterns determine floats.
\<close>

lemma split_field:
  fixes P :: int
  assumes "0 \<le> x" "x < P"
  shows "(h * P + x) mod P = x" "(h * P + x) div P = h"
  using assms by (auto simp: div_add1_eq)

definition format_ok :: "float_format \<Rightarrow> bool" where
  "format_ok F \<longleftrightarrow> prec F > 0 \<and> e_bits F > 1"

lemma formats_ok: "format_ok binary64" "format_ok binary32"
  by (simp_all add: format_ok_def binary64_def binary32_def)

lemma fp_frombits_bits:
  assumes F: "format_ok F" and x: "canonical F x" "x \<noteq> NaN"
  shows "fp_frombits F (fp_bits F nan x) = x"
proof -
  define P K :: int where "P = 2 ^ (prec F - 1)" and "K = 2 ^ e_bits F"
  have pow: "2 ^ prec F = 2 * P" using F by (cases "prec F") (simp_all add: format_ok_def P_def)
  have "(2::int) ^ 2 \<le> 2 ^ e_bits F" using F by (intro power_increasing) (auto simp: format_ok_def)
  then have K: "K \<ge> 4" and P: "P > 0" by (simp_all add: K_def P_def)
  have sign: "odd ((if s then 1 else 0) :: int) = s" for s by simp
  have decode: "fp_frombits F b =
      (if b div P mod K = K - 1 then (if b mod P = 0 then Inf (odd (b div P div K)) else NaN)
       else if b div P mod K = 0 then Fin (odd (b div P div K)) (b mod P) (e_min F)
       else Fin (odd (b div P div K)) (b mod P + P) (e_min F + b div P mod K - 1))" for b
    by (simp only: fp_frombits_def Let_def P_def K_def)
  show ?thesis
  proof (cases x)
    case (Inf s)
    have bits: "fp_bits F nan x = ((if s then 1 else 0) * K + (K - 1)) * P + 0"
      using Inf by (simp only: fp_bits.simps P_def K_def add_0_right add_diff_eq)
    show ?thesis
      unfolding decode bits
      using Inf split_field [of 0 P] split_field [of "K - 1" K] K P by (simp only: sign) simp
  next
    case (Fin s m e)
    define E where "E = e - e_min F"
    have m: "0 \<le> m" "m < 2 * P" "0 \<le> E" "E \<le> K - 3" "P \<le> m \<or> E = 0"
      using x Fin by (simp_all only: canonical.simps pow e_max_def P_def K_def E_def) auto
    have bits: "fp_bits F nan x = ((if s then 1 else 0) * K + E) * P + m"
      using Fin by (simp only: fp_bits.simps P_def K_def E_def)
    show ?thesis
    proof (cases "m < P")
      case True
      then have "E = 0" using m by simp
      then show ?thesis
        unfolding decode bits
        using Fin True m split_field [of m P] split_field [of 0 K] K by (simp add: E_def)
    next
      case False
      have high: "fp_bits F nan x = ((if s then 1 else 0) * K + (E + 1)) * P + (m - P)"
        unfolding bits by (simp add: algebra_simps)
      show ?thesis
        unfolding decode high
        using Fin False m split_field [of "m - P" P] split_field [of "E + 1" K] K
        by (simp add: E_def)
    qed
  qed (use x in simp_all)
qed

text \<open>The same patterns as machine words.\<close>

lemma fp_bits_range:
  assumes F: "format_ok F" and x: "canonical F x" "x \<noteq> NaN"
  shows "0 \<le> fp_bits F nan x \<and> fp_bits F nan x < 2 ^ (e_bits F + prec F)"
proof -
  define P K :: int where "P = 2 ^ (prec F - 1)" and "K = 2 ^ e_bits F"
  have pow: "2 ^ prec F = 2 * P" using F by (cases "prec F") (simp_all add: format_ok_def P_def)
  have PK: "P > 0" "K > 0" by (simp_all add: P_def K_def)
  have top: "(2::int) ^ (e_bits F + prec F) = 2 * K * P" by (simp add: power_add pow K_def)
  have bound: "0 \<le> h * P + m \<and> h * P + m < 2 * K * P" if "0 \<le> h" "0 \<le> m" "h * P + m < 2 * K * P" for h m
    using that PK by simp
  show ?thesis
  proof (cases x)
    case (Inf s)
    have "((if s then 1 else 0) * K + K - 1) * P \<le> (2 * K - 1) * P"
      using PK by (intro mult_right_mono) auto
    also have "\<dots> < 2 * K * P" using PK by (intro mult_strict_right_mono) auto
    finally have "((if s then 1 else 0) * K + K - 1) * P < 2 * K * P" .
    moreover have "0 \<le> ((if s then 1 else 0) * K + K - 1) * P" using PK by auto
    ultimately show ?thesis unfolding top using Inf by (simp only: fp_bits.simps P_def K_def simp_thms)
  next
    case (Fin s m e)
    have m: "0 \<le> m" "m < 2 * P" "0 \<le> e - e_min F" "e - e_min F \<le> K - 3"
      using x Fin by (simp_all only: canonical.simps pow e_max_def P_def K_def) auto
    have "((if s then 1 else 0) * K + (e - e_min F)) * P \<le> (2 * K - 3) * P"
      using PK m by (intro mult_right_mono) auto
    then have "((if s then 1 else 0) * K + (e - e_min F)) * P + m < (2 * K - 3) * P + 2 * P"
      using m(2) by (rule add_le_less_mono)
    also have "\<dots> < 2 * K * P" using PK by (simp add: algebra_simps)
    finally have "((if s then 1 else 0) * K + (e - e_min F)) * P + m < 2 * K * P" .
    moreover have "0 \<le> ((if s then 1 else 0) * K + (e - e_min F)) * P" using PK m by auto
    ultimately show ?thesis
      unfolding top using Fin m(1) by (simp only: fp_bits.simps P_def K_def) (simp only: add_nonneg_nonneg simp_thms)
  qed (use x in simp_all)
qed

lemma Float64frombits_bits:
  assumes "canonical binary64 x" "x \<noteq> NaN"
  shows "Float64frombits (Float64bits nan x) = x"
proof -
  have "fp_bits binary64 (uint nan) x mod 2 ^ 64 = fp_bits binary64 (uint nan) x"
    using fp_bits_range [OF formats_ok(1) assms, of "uint nan"] by (simp add: binary64_def)
  then show ?thesis
    using fp_frombits_bits [OF formats_ok(1) assms, of "uint nan"]
    by (simp add: Float64frombits_def Float64bits_def uint_word_of_int)
qed

end
