(* ===== verification/Eval_Properties.thy ===== *)
theory Eval_Properties
  imports Eval_Facts Float64_Facts
begin

text \<open>
  Properties of the compile-time evaluator.
\<close>

section \<open>Small programs\<close>

definition one_block :: "string \<Rightarrow> Slot list \<Rightarrow> (ValueID \<rightharpoonup> ty) \<Rightarrow> Instr list \<Rightarrow> Function" where
  "one_block n slots values is =
    (NewFunction n LinkageInternal [])
      \<lparr>fn_Slots := slots, fn_Values := values, fn_Entry := 1,
       fn_Blocks := [\<lparr>block_ID = 1, block_Name = ''entry'', block_Instr = is\<rparr>]\<rparr>"

definition evaluator_for :: "int \<Rightarrow> Function \<Rightarrow> Evaluator" where
  "evaluator_for limit f =
    \<lparr>ee_Functions = [fn_Name f \<mapsto> f], ee_Globals = Map.empty, ee_MaxDepth = limit, ee_cells = [], ee_arrays = []\<rparr>"

definition plain_machine :: machine where
  "plain_machine = \<lparr>mc_aliases = Map.empty, mc_nan64 = 0x7FF8000000000001, mc_nan32 = 0x7FC00000\<rparr>"

definition overflowing :: Function where
  "overflowing = one_block ''f'' [] [1 \<mapsto> i32, 2 \<mapsto> i32]
    [Binary Add 1 (IntConstOperand ''2147483647'' i32) (IntConstOperand ''1'' i32),
     Binary Div 2 (ValueOperand 1 i32) (IntConstOperand ''2'' i32),
     Return (Some (ValueOperand 2 i32))]"

definition calling :: Function where
  "calling = one_block ''f'' [] Map.empty
    [Call \<lparr>call_Dest = 0, call_Name = ''f'', call_Callee = None, call_Args = [], call_Signature = empty_signature,
       call_Generic = None, call_Requirement = None, call_SourceName = [], call_SourceLoc = no_location\<rparr>,
     Return None]"

definition looping :: Function where
  "looping = one_block ''f'' [] Map.empty [Jump 1]"

section \<open>Safety and termination\<close>

lemma exec_loop_safe:
  assumes ret: "exec_loop M depth name fr b e = Some q"
    and ok: "program_ok (mc_aliases M) e" "storage_ok (mc_aliases M) e" "frame_ok (mc_aliases M) e fr"
  shows "ev_ok True (mc_aliases M) e (\<lambda>_. Some q) (value_ok (mc_aliases M))"
proof -
  let ?P = "\<lambda>M (depth :: int) (name :: string) fr (b :: BlockID) e q.
      program_ok (mc_aliases M) e \<longrightarrow> storage_ok (mc_aliases M) e \<longrightarrow> frame_ok (mc_aliases M) e fr \<longrightarrow>
      ev_ok True (mc_aliases M) e (\<lambda>_. Some q) (value_ok (mc_aliases M))"
  have "?P M depth name fr b e q"
  proof (rule exec_loop.raw_induct [where P = ?P, OF _ ret])
    fix exec :: "machine \<Rightarrow> int \<Rightarrow> string \<Rightarrow> evalFrame \<Rightarrow> BlockID \<Rightarrow> EvalValue ev" and M depth name fr b e q
    assume IH: "\<And>M depth name fr b e q. exec M depth name fr b e = Some q \<Longrightarrow> ?P M depth name fr b e q"
      and round: "exec_round M (exec M) depth name fr b e = Some q"
    have inner: "ev_ok True (mc_aliases M) e' (exec M d n fr' b') (value_ok (mc_aliases M))"
      if "program_ok (mc_aliases M) e'" "storage_ok (mc_aliases M) e'" "frame_ok (mc_aliases M) e' fr'"
      for e' d n fr' b'
      using IH [of M d n fr' b' e'] that by (cases "exec M d n fr' b' e'") (auto simp: ev_ok_def)
    show "?P M depth name fr b e q"
    proof (intro impI)
      assume h: "program_ok (mc_aliases M) e" "storage_ok (mc_aliases M) e" "frame_ok (mc_aliases M) e fr"
      have "ev_ok True (mc_aliases M) e (exec_round M (exec M) depth name fr b) (value_ok (mc_aliases M))"
        by (rule exec_round_ok) (use h inner program_ok_grows in blast)+
      then show "ev_ok True (mc_aliases M) e (\<lambda>_. Some q) (value_ok (mc_aliases M))"
        using round by (simp add: ev_ok_def)
    qed
  qed
  then show ?thesis using ok by blast
qed

text \<open>
  C6: The evaluator's storage. Running any well-formed program on well-formed storage never
  reads or writes outside the shared slots and arrays. An access outside them has no result in
  the model; but every beginning of a run, however long, has a result (\<open>run_limited\<close>: the
  run, stopped after \<open>n\<close> blocks), errors, loops and endless recursion included, and with it
  the storage is well formed again and has only grown. What such a beginning returns is what the
  run returns. So a run of a well-formed program can fail to return only by going on for ever; if
  it returns, the storage and the value are well formed.
\<close>

theorem evaluation_keeps_storage:
  assumes "program_ok (mc_aliases M) e" and "storage_ok (mc_aliases M) e"
    and "\<forall>v \<in> set args. value_ok (mc_aliases M) e v"
  shows "(\<exists>r e'. run_limited err n M name args e = Some (r, e') \<and>
      storage_ok (mc_aliases M) e' \<and> grows e e' \<and>
      (case r of Inl err' \<Rightarrow> True
       | Inr v \<Rightarrow> value_ok (mc_aliases M) e' v \<and> Run M name args e = Some (Inr v, e'))) \<and>
    (case Run M name args e of
      None \<Rightarrow> True
    | Some (r, e') \<Rightarrow> storage_ok (mc_aliases M) e' \<and> grows e e' \<and>
        (case r of Inl err \<Rightarrow> True | Inr v \<Rightarrow> value_ok (mc_aliases M) e' v))"
proof
  have "ev_ok True (mc_aliases M) e' (exec_loop M 0 name fr (fn_Entry (fr_function fr))) (value_ok (mc_aliases M))"
    if "program_ok (mc_aliases M) e'" "storage_ok (mc_aliases M) e'" "frame_ok (mc_aliases M) e' fr" for e' fr
    using exec_loop_safe [OF _ that] by (fastforce simp: ev_ok_def split: option.splits)
  then have "ev_ok True (mc_aliases M) e (Run M name args) (value_ok (mc_aliases M))"
    unfolding Run_def run_at_def
    by (intro ev_ok_bind [OF enter_ok]) (use assms program_ok_grows in blast)+
  then show "case Run M name args e of
      None \<Rightarrow> True
    | Some (r, e') \<Rightarrow> storage_ok (mc_aliases M) e' \<and> grows e e' \<and>
        (case r of Inl err \<Rightarrow> True | Inr v \<Rightarrow> value_ok (mc_aliases M) e' v)"
    by (auto simp: ev_ok_def split: option.splits sum.splits)
  show "\<exists>r e'. run_limited err n M name args e = Some (r, e') \<and>
      storage_ok (mc_aliases M) e' \<and> grows e e' \<and>
      (case r of Inl err' \<Rightarrow> True
       | Inr v \<Rightarrow> value_ok (mc_aliases M) e' v \<and> Run M name args e = Some (Inr v, e'))"
  proof -
    obtain r e' where "run_limited err n M name args e = Some (r, e')" "storage_ok (mc_aliases M) e'"
      "grows e e'" "\<forall>v. r = Inr v \<longrightarrow> value_ok (mc_aliases M) e' v"
      using run_limited_ok [OF assms, of err n name] by (auto simp: ev_ok_def split: option.splits)
    then show ?thesis
      using run_limited_succeeds [of err n M name args] by (cases r) (auto simp: succeeds_as_def)
  qed
qed

lemma one_block_ok:
  assumes "\<forall>i \<in> set is. instr_ok \<sigma> (one_block n slots values is) i"
  shows "program_ok \<sigma> (evaluator_for k (one_block n slots values is))"
  using assms by (simp add: program_ok_def evaluator_for_def one_block_def)

lemma empty_storage_ok: "storage_ok \<sigma> (evaluator_for k f)"
  by (simp add: storage_ok_def evaluator_for_def)

lemma typed_i32: "typed \<sigma> i32"
  by (simp add: typed_def)

lemma overflowing_ok: "program_ok (mc_aliases plain_machine) (evaluator_for 16 overflowing)"
  unfolding overflowing_def
  by (rule one_block_ok)
    (simp add: IntConstOperand_def ValueOperand_def ValueType_def one_block_def NewFunction_def typed_i32)

theorem evaluation_keeps_storage_witness:
  "\<exists>r e'. run_limited (DepthExceeded ''f'') 3 plain_machine ''f'' [] (evaluator_for 16 overflowing) = Some (r, e') \<and>
     storage_ok (mc_aliases plain_machine) e'"
  using evaluation_keeps_storage [OF overflowing_ok empty_storage_ok, of "[]" "DepthExceeded ''f''" 3 "''f''"]
  by auto

text \<open>
  C7: Termination without loops. On a well-formed program in which no function jumps backwards,
  evaluation always returns a value or an error, also when functions call each other recursively: the depth
  limit ends the recursion.
\<close>

theorem loop_free_evaluation_returns:
  assumes "program_ok (mc_aliases M) e" and "storage_ok (mc_aliases M) e"
    and "\<forall>v \<in> set args. value_ok (mc_aliases M) e v"
    and "\<forall>f \<in> ran (ee_Functions e). loop_free (rank f) f"
  shows "Run M name args e \<noteq> None"
proof -
  have "ev_ok False (mc_aliases M) e (Run M name args) (value_ok (mc_aliases M))"
    unfolding Run_def run_at_def
  proof (rule ev_ok_bind [OF enter_ok])
    fix e' fr
    assume "grows e e'" "storage_ok (mc_aliases M) e'" "frame_ok (mc_aliases M) e' fr \<and> 0 < ee_MaxDepth e'"
    then show "ev_ok False (mc_aliases M) e' (exec_loop M 0 name fr (fn_Entry (fr_function fr))) (value_ok (mc_aliases M))"
      using assms program_ok_grows by (intro exec_loop_returns [where rank = rank]) (auto simp: grows_def)
  qed (use assms in auto)
  then show ?thesis by (cases "Run M name args e") (simp_all add: ev_ok_def)
qed

lemma calling_loop_free: "\<forall>f \<in> ran (ee_Functions (evaluator_for k calling)). loop_free rank f"
  by (auto simp: evaluator_for_def calling_def one_block_def loop_free_def block_targets_def frame_block_def
      split: option.splits if_splits)

theorem loop_free_evaluation_returns_witness: "Run plain_machine ''f'' [] (evaluator_for 1024 calling) \<noteq> None"
proof (rule loop_free_evaluation_returns [where rank = "\<lambda>_ _. 0"])
  show "program_ok (mc_aliases plain_machine) (evaluator_for 1024 calling)"
    unfolding calling_def by (rule one_block_ok) simp
qed (use empty_storage_ok calling_loop_free in auto)

section \<open>Bounds on recursion, none on loops\<close>

lemma enter_calling:
  "enter ''f'' [] depth (evaluator_for k calling) =
    Some (if depth \<ge> k then Inl (DepthExceeded ''f'')
      else Inr \<lparr>fr_function = calling, fr_values = Map.empty, fr_slots = Map.empty\<rparr>, evaluator_for k calling)"
  by (simp add: enter_def bindE_def tryE_def readE_def ev_simps evaluator_for_def)
    (simp add: calling_def one_block_def NewFunction_def ev_simps)

lemma calling_block:
  "frame_block calling 1 = Some \<lparr>block_ID = 1, block_Name = ''entry'', block_Instr =
    [Call \<lparr>call_Dest = 0, call_Name = ''f'', call_Callee = None, call_Args = [], call_Signature = empty_signature,
       call_Generic = None, call_Requirement = None, call_SourceName = [], call_SourceLoc = no_location\<rparr>,
     Return None]\<rparr>" "fn_Entry calling = 1"
  by (simp_all add: calling_def one_block_def frame_block_def)

lemma calling_recurses:
  assumes "depth = int k - int n"
  shows "run_at M ''f'' [] depth (evaluator_for (int k) calling) =
    Some (Inl ((InCall ''f'' ^^ n) (DepthExceeded ''f'')), evaluator_for (int k) calling)"
  using assms
proof (induction n arbitrary: depth)
  case 0
  then show ?case by (simp add: run_at_def bindE_def tryE_def enter_calling ev_simps)
next
  case (Suc n)
  have unavailable: "as_unavailable ((InCall ''f'' ^^ n) (DepthExceeded ''f'')) = None" for n
    by (induction n) simp_all
  have IH: "run_at M ''f'' [] (depth + 1) (evaluator_for (int k) calling) =
    Some (Inl ((InCall ''f'' ^^ n) (DepthExceeded ''f'')), evaluator_for (int k) calling)"
    using Suc by simp
  have below: "\<not> int k \<le> depth" using Suc.prems by simp
  show ?case
    using unavailable [of n] below
    by (simp add: run_at_def [of M "''f''" "[]" depth] bindE_def tryE_def enter_calling calling_block
        exec_loop_unfold next_frame_def exec_call_def ev_simps call_error_def IH)
qed

lemma looping_diverges:
  assumes "exec_loop M depth name fr b e = Some q"
  shows "\<not> (fr_function fr = looping \<and> b = 1)"
proof (rule exec_loop.raw_induct [where P = "\<lambda>M depth name fr b e q. \<not> (fr_function fr = looping \<and> b = 1)",
      OF _ assms])
  fix exec :: "machine \<Rightarrow> int \<Rightarrow> string \<Rightarrow> evalFrame \<Rightarrow> BlockID \<Rightarrow> EvalValue ev" and M depth name fr b e q
  assume IH: "\<And>M depth name fr b e q. exec M depth name fr b e = Some q \<Longrightarrow> \<not> (fr_function fr = looping \<and> b = 1)"
    and round: "exec_round M (exec M) depth name fr b e = Some q"
  show "\<not> (fr_function fr = looping \<and> b = 1)"
  proof
    assume h: "fr_function fr = looping \<and> b = 1"
    then have "exec M depth name fr 1 e = Some q"
      using round
      by (simp add: exec_round_def frame_block_def looping_def one_block_def bindE_def tryE_def ev_simps)
    then show False using IH h by blast
  qed
qed

text \<open>
  C21: What bounds an evaluation. A function that only calls itself is stopped at the depth
  limit, with an error that records every call; a block that jumps to itself is never stopped,
  whatever the limit: a compile-time loop without exit makes the compiler run for ever.
\<close>

theorem recursion_is_bounded_loops_are_not:
  "Run M ''f'' [] (evaluator_for (int n) calling) =
     Some (Inl ((InCall ''f'' ^^ n) (DepthExceeded ''f'')), evaluator_for (int n) calling) \<and>
   Run M ''f'' [] (evaluator_for (int n + 1) looping) = None"
proof
  show "Run M ''f'' [] (evaluator_for (int n) calling) =
     Some (Inl ((InCall ''f'' ^^ n) (DepthExceeded ''f'')), evaluator_for (int n) calling)"
    using calling_recurses [of 0 n n M] by (simp add: Run_def)
  have "enter ''f'' [] 0 (evaluator_for (int n + 1) looping) =
      Some (Inr \<lparr>fr_function = looping, fr_values = Map.empty, fr_slots = Map.empty\<rparr>, evaluator_for (int n + 1) looping)"
    by (simp add: enter_def bindE_def tryE_def readE_def ev_simps evaluator_for_def)
      (simp add: looping_def one_block_def NewFunction_def ev_simps)
  moreover have "exec_loop M 0 ''f'' \<lparr>fr_function = looping, fr_values = Map.empty, fr_slots = Map.empty\<rparr> 1 e = None" for e
    using looping_diverges by (cases "exec_loop M 0 ''f'' \<lparr>fr_function = looping, fr_values = Map.empty, fr_slots = Map.empty\<rparr> 1 e") fastforce+
  moreover have "fn_Entry looping = 1" by (simp add: looping_def one_block_def)
  ultimately show "Run M ''f'' [] (evaluator_for (int n + 1) looping) = None"
    by (simp add: Run_def run_at_def bindE_def tryE_def)
qed

section \<open>Arithmetic\<close>







text \<open>
  C39: Punning. Reading a float that was stored in a union as a 64-bit unsigned integer, and that integer as a
  float again, gives the float back, for every float but a NaN.
\<close>

theorem union_bits_roundtrip:
  assumes "canonical binary64 x" and "x \<noteq> NaN"
  shows "bindE (reinterpretEvalValue M (EvalFloat x f64) (PrimitiveTy PrimitiveU64))
      (\<lambda>v. reinterpretEvalValue M v f64) e = Some (Inr (EvalFloat x f64), e)"
proof -
  have "big_Uint64 (uint w) = w" for w :: "64 word" by (simp add: big_Uint64_def)
  then show ?thesis
    using Float64frombits_bits [OF assms]
    by (simp add: reinterpretEvalValue_def bindE_def tryE_def callE_def ev_simps IsInteger_def IsSigned_def
        IsUnsigned_def IsFloat_def EvalFloat_def EvalInteger_def no_value_def prim_classes)
qed

theorem union_bits_roundtrip_witness:
  "bindE (reinterpretEvalValue plain_machine (EvalFloat (Fin True 0x14000000000000 (- 52)) f64) (PrimitiveTy PrimitiveU64))
      (\<lambda>v. reinterpretEvalValue plain_machine v f64) (evaluator_for 1 looping) =
    Some (Inr (EvalFloat (Fin True 0x14000000000000 (- 52)) f64), evaluator_for 1 looping)"
  by (rule union_bits_roundtrip) (simp_all add: binary64_def e_max_def)

end
