(* ===== verification/Syntax.thy ===== *)
theory Syntax
  imports Tokens Attributes
begin

text \<open>
  The syntax tree, \<^verbatim>\<open>src/parser/node.go\<close>. A node is built by the parser and later annotated by
  semantic analysis; the constructors carry the fields the parser sets, in the order of the Go
  structs, and leave out the ones analysis fills in (\<open>Type\<close>, \<open>Symbol\<close> and the like, nil
  after parsing). The structs are grouped by the interface they implement, \<open>TypeNode\<close>,
  \<open>ExpressionNode\<close> or only \<open>Node\<close>, and \<open>node\<close> is their union; \<open>WhenNode\<close>
  implements both \<open>TypeNode\<close> and \<open>ExpressionNode\<close>. A nil interface is \<open>None\<close>.
\<close>

section \<open>Enumerations\<close>

datatype WhenContext = WhenDeclarations | WhenStatements | WhenExpression | WhenType

datatype UnaryOpKind =
    UnaryOpLogicalNot | UnaryOpNegate | UnaryOpReference | UnaryOpMutableReference
  | UnaryOpDereference | UnaryOpSliceLen | UnaryOpBitwiseNot

datatype BinaryOpKind =
    BinaryOpLogicalOr | BinaryOpLogicalAnd
  | BinaryOpEqual | BinaryOpNotEqual | BinaryOpLess | BinaryOpLessEqual | BinaryOpGreater
  | BinaryOpGreaterEqual
  | BinaryOpAdd | BinaryOpSubtract | BinaryOpMultiply | BinaryOpDivide | BinaryOpModulo
  | BinaryOpBitwiseAnd | BinaryOpBitwiseXor | BinaryOpBitwiseOr
  | BinaryOpShiftLeft | BinaryOpShiftRight

fun BinaryOpKind_String :: "BinaryOpKind \<Rightarrow> string" where
  "BinaryOpKind_String BinaryOpLogicalOr = ''||''"
| "BinaryOpKind_String BinaryOpLogicalAnd = ''&&''"
| "BinaryOpKind_String BinaryOpEqual = ''==''"
| "BinaryOpKind_String BinaryOpNotEqual = ''!=''"
| "BinaryOpKind_String BinaryOpLess = ''<''"
| "BinaryOpKind_String BinaryOpLessEqual = ''<=''"
| "BinaryOpKind_String BinaryOpGreater = ''>''"
| "BinaryOpKind_String BinaryOpGreaterEqual = ''>=''"
| "BinaryOpKind_String BinaryOpAdd = ''+''"
| "BinaryOpKind_String BinaryOpSubtract = ''-''"
| "BinaryOpKind_String BinaryOpMultiply = ''*''"
| "BinaryOpKind_String BinaryOpDivide = ''/''"
| "BinaryOpKind_String BinaryOpModulo = ''%''"
| "BinaryOpKind_String BinaryOpBitwiseAnd = ''&''"
| "BinaryOpKind_String BinaryOpBitwiseXor = ''^''"
| "BinaryOpKind_String BinaryOpBitwiseOr = ''|''"
| "BinaryOpKind_String BinaryOpShiftLeft = ''<<''"
| "BinaryOpKind_String BinaryOpShiftRight = ''>>''"

fun UnaryOpKind_String :: "UnaryOpKind \<Rightarrow> string" where
  "UnaryOpKind_String UnaryOpLogicalNot = ''!''"
| "UnaryOpKind_String UnaryOpNegate = ''-''"
| "UnaryOpKind_String UnaryOpReference = ''&''"
| "UnaryOpKind_String UnaryOpDereference = ''*''"
| "UnaryOpKind_String UnaryOpSliceLen = ''[]''"
| "UnaryOpKind_String UnaryOpBitwiseNot = ''~''"
| "UnaryOpKind_String UnaryOpMutableReference = ''unknown''"

datatype MethodReceiverKind =
    MethodReceiverNone | MethodReceiverValue | MethodReceiverPointer
  | MethodReceiverMutablePointer

datatype MatchPatternKind =
    MatchPatternWildcard | MatchPatternLiteral | MatchPatternVariant | MatchPatternRange
  | MatchPatternAlternative

datatype ForEachElementKind =
    ForEachElementValue | ForEachElementPointer | ForEachElementMutablePointer

section \<open>Parts of nodes\<close>

text \<open>
  The structs that occur inside nodes, over the type \<open>'n\<close> of nodes. A \<open>StructField\<close> is a
  pair of name and type; an \<open>IfBranch\<close> is a pair of condition and block.
\<close>

datatype 'n WhenBranchNode =
  WhenBranchNode (when_Condition: 'n) (when_Body: "'n list") (when_Value: "'n option")
    (when_Loc: Location)

datatype 'n GenericParameterNode =
  GenericParameterNode (gen_Name: string) (gen_Constraint: "'n option") (gen_Loc: Location)

datatype 'n FunctionNodeArg =
  FunctionNodeArg (arg_Name: string) (arg_Type: "'n option") (arg_Default: "'n option")
    (arg_Mutable: bool) (arg_Loc: Location)

datatype 'n TaggedUnionVariantNode =
  TaggedUnionVariantNode (variant_Name: string) (variant_Fields: "(string \<times> 'n) list")
    (variant_Loc: Location)

datatype 'n TraitMethodNode =
  TraitMethodNode (tm_Name: string) (tm_GenericParameters: "'n GenericParameterNode list")
    (tm_Receiver: MethodReceiverKind) (tm_Args: "'n FunctionNodeArg list") (tm_ReturnType: 'n)
    (tm_Body: "'n option") (tm_ExpressionBody: bool) (tm_Loc: Location)

datatype 'n InlineAsmOutput = InlineAsmOutput 'n string Location

datatype 'n InlineAsmInput = InlineAsmInput 'n string Location

datatype MatchBinding = MatchBinding (mb_Name: string) (mb_Field: string) (mb_Loc: Location)

datatype 'n MatchPatternNode =
  MatchPatternNode (pat_Kind: MatchPatternKind) (pat_Literal: "'n option")
    (pat_Start: "'n option") (pat_End: "'n option") (pat_Variant: string)
    (pat_Bindings: "MatchBinding list") (pat_Payload: bool)
    (pat_Alternatives: "'n MatchPatternNode list") (pat_Loc: Location)

datatype 'n MatchArmNode =
  MatchArmNode (arm_Patterns: "'n MatchPatternNode list") (arm_Guard: "'n option")
    (arm_Body: 'n) (arm_Loc: Location)

text \<open>
  \<open>LinkItemNode\<close> has three pointers of which exactly one is set: a link, a conditional
  (\<open>LinkWhenNode\<close>: branches, items of the else branch, location) or a directive.
\<close>

datatype 'n LinkItemNode =
    LinkItem Link
  | LinkWhen "('n \<times> 'n LinkItemNode list) list" "'n LinkItemNode list" Location
  | LinkDirective 'n

text \<open>
  An attribute as the parser returns it. \<open>ParsedLinkAttribute\<close> keeps the items of a link
  attribute whose conditions are not yet resolved; \<open>attribute_of\<close> is the attribute of
  \<^verbatim>\<open>src/attributes\<close> it stands for.
\<close>

datatype 'n parsed_attribute = Resolved Attribute | Parsed_Link "'n LinkItemNode list"

fun attribute_of :: "'n parsed_attribute \<Rightarrow> Attribute" where
  "attribute_of (Resolved a) = a"
| "attribute_of (Parsed_Link items) = ParsedLinkAttribute"

definition has_attribute :: "'n parsed_attribute list \<Rightarrow> AttributeType \<Rightarrow> bool" where
  "has_attribute attrs ty \<longleftrightarrow> Get (map attribute_of attrs) ty \<noteq> None"

datatype 'n FunctionDef =
  FunctionDef (fd_Name: string) (fd_MethodOwner: string) (fd_MethodOwnerType: "'n option")
    (fd_MethodOwnerGenericParameters: "'n GenericParameterNode list")
    (fd_Receiver: MethodReceiverKind) (fd_GenericParameters: "'n GenericParameterNode list")
    (fd_Args: "'n FunctionNodeArg list") (fd_RetTypeNode: "'n option") (fd_Body: "'n option")
    (fd_ExpressionBody: bool) (fd_HasVariadic: bool) (fd_TypedVariadic: bool) (fd_Pub: bool)
    (fd_Attributes: "'n parsed_attribute list") (fd_Loc: Location)

section \<open>Nodes\<close>

datatype 'n type_node =
    NamedTypeNode string string "'n list" bool "'n option" Location
  | StructTypeNode "(string \<times> 'n) list" Location "'n parsed_attribute list"
  | ReprTypeNode 'n Location
  | EnumTypeNode "string list" "string list" Location
  | FlagsTypeNode 'n "string list" "string list" Location
  | UnionTypeNode "'n option" bool "(string \<times> 'n) list" "'n TaggedUnionVariantNode list" Location
  | OpaqueTypeNode Location
  | TraitTypeNode "'n TraitMethodNode list" Location
  | SliceTypeNode 'n bool Location
  | ArrayTypeNode 'n 'n Location
  | PointerTypeNode 'n bool Location
  | DynTypeNode 'n bool Location
  | FunctionTypeNode "'n list" 'n bool Location
  | MultipleReturnTypeNode "'n list" Location

datatype 'n expression_node =
    IdentifierNode string string "'n list" Location
  | FieldAccessNode 'n 'n Location
  | EnumLiteralNode string Location
  | BoolLiteralNode string Location
  | IntegerLiteralNode string Location
  | ReprNode 'n Location
  | FloatLiteralNode string Location
  | StringLiteralNode string Location
  | EmbedNode string Location
  | CStringLiteralNode string Location
  | CharLiteralNode char Location
  | NilLiteralNode Location
  | NoInitializerNode Location
  | StructLiteralNode "'n option" "(string \<times> 'n) list" "string list" bool Location
  | SliceLiteralNode "'n list" "'n option" "'n option" Location
  | FunctionCallNode 'n "'n option" "'n list" bool Location
  | LambdaNode "'n FunctionNodeArg list" 'n bool Location
  | InlineAsmNode string "'n InlineAsmOutput list" "'n InlineAsmInput list" "string list" bool
      Location
  | UnaryOpNode UnaryOpKind 'n Location
  | IndexExprNode 'n 'n Location
  | SliceExprNode 'n "'n option" "'n option" Location
  | BinaryOpNode BinaryOpKind 'n 'n Location
  | CastNode 'n 'n Location
  | SizeOfNode 'n "'n option" Location
  | SizeOfExprNode 'n Location
  | AlignOfNode "'n option" "'n option" Location
  | OffsetOfNode 'n string Location
  | IfNode "'n \<times> 'n" "('n \<times> 'n) list" "'n option" bool Location
  | MatchNode "'n list" string Location "'n MatchArmNode list" bool Location
  | BlockNode "'n list" bool Location

datatype 'n plain_node =
    RootNode "'n list" Location
  | CompilerDirectiveNode string "'n option" string Location Location
  | ImportNode "string list" "string list" Location
  | ModuleNode string "'n parsed_attribute list" Location
  | FunctionDefNode "'n FunctionDef"
  | TypeAliasNode string "'n GenericParameterNode list" 'n bool bool Location
  | ForNode "'n list" 'n Location
  | RangeForNode string Location 'n 'n bool bool 'n Location
  | ForEachNode string Location "(string \<times> Location) list" ForEachElementKind string Location
      'n bool 'n Location
  | ControlKeywordNode string "'n option" "'n list" Location
  | DeferNode 'n Location
  | DeclarationNode string Location bool bool "'n option" "'n option" bool
      "'n parsed_attribute list" Location
  | MultiDeclarationNode "string list" "Location list" bool 'n Location
  | AssignmentNode "'n option" "'n list" 'n bool Location

datatype node =
    Type "node type_node"
  | Expr "node expression_node"
  | Stmt "node plain_node"
  | WhenNode "node WhenBranchNode list" "node list" "node option" WhenContext Location

section \<open>Interfaces\<close>

fun is_type :: "node \<Rightarrow> bool" where
  "is_type (Type t) = True"
| "is_type (WhenNode bs eb ev c l) = True"
| "is_type _ = False"

fun is_expression :: "node \<Rightarrow> bool" where
  "is_expression (Expr e) = True"
| "is_expression (WhenNode bs eb ev c l) = True"
| "is_expression _ = False"

fun type_loc :: "'n type_node \<Rightarrow> Location" where
  "type_loc (NamedTypeNode m n as c k l) = l"
| "type_loc (StructTypeNode fs l as) = l"
| "type_loc (ReprTypeNode n l) = l"
| "type_loc (EnumTypeNode vs xs l) = l"
| "type_loc (FlagsTypeNode u vs xs l) = l"
| "type_loc (UnionTypeNode t a fs vs l) = l"
| "type_loc (OpaqueTypeNode l) = l"
| "type_loc (TraitTypeNode ms l) = l"
| "type_loc (SliceTypeNode t m l) = l"
| "type_loc (ArrayTypeNode t n l) = l"
| "type_loc (PointerTypeNode t m l) = l"
| "type_loc (DynTypeNode t m l) = l"
| "type_loc (FunctionTypeNode ps r v l) = l"
| "type_loc (MultipleReturnTypeNode ts l) = l"

fun expression_loc :: "'n expression_node \<Rightarrow> Location" where
  "expression_loc (IdentifierNode n m as l) = l"
| "expression_loc (FieldAccessNode s f l) = l"
| "expression_loc (EnumLiteralNode v l) = l"
| "expression_loc (BoolLiteralNode v l) = l"
| "expression_loc (IntegerLiteralNode v l) = l"
| "expression_loc (ReprNode n l) = l"
| "expression_loc (FloatLiteralNode v l) = l"
| "expression_loc (StringLiteralNode v l) = l"
| "expression_loc (EmbedNode p l) = l"
| "expression_loc (CStringLiteralNode v l) = l"
| "expression_loc (CharLiteralNode c l) = l"
| "expression_loc (NilLiteralNode l) = l"
| "expression_loc (NoInitializerNode l) = l"
| "expression_loc (StructLiteralNode n fs ms r l) = l"
| "expression_loc (SliceLiteralNode es v a l) = l"
| "expression_loc (FunctionCallNode c n as v l) = l"
| "expression_loc (LambdaNode as b v l) = l"
| "expression_loc (InlineAsmNode t os is cs v l) = l"
| "expression_loc (UnaryOpNode u e l) = l"
| "expression_loc (IndexExprNode s i l) = l"
| "expression_loc (SliceExprNode s b e l) = l"
| "expression_loc (BinaryOpNode b x y l) = l"
| "expression_loc (CastNode t e l) = l"
| "expression_loc (SizeOfNode t e l) = l"
| "expression_loc (SizeOfExprNode e l) = l"
| "expression_loc (AlignOfNode t e l) = l"
| "expression_loc (OffsetOfNode t f l) = l"
| "expression_loc (IfNode b bs e x l) = l"
| "expression_loc (MatchNode ss b bl as x l) = l"
| "expression_loc (BlockNode ns x l) = l"

fun plain_loc :: "'n plain_node \<Rightarrow> Location" where
  "plain_loc (RootNode ns l) = l"
| "plain_loc (CompilerDirectiveNode n c m nl l) = l"
| "plain_loc (ImportNode ms as l) = l"
| "plain_loc (ModuleNode n as l) = l"
| "plain_loc (FunctionDefNode f) = fd_Loc f"
| "plain_loc (TypeAliasNode n gs t tr p l) = l"
| "plain_loc (ForNode ns b l) = l"
| "plain_loc (RangeForNode n nl s e i r b l) = l"
| "plain_loc (ForEachNode n nl ds k i il e r b l) = l"
| "plain_loc (ControlKeywordNode k v vs l) = l"
| "plain_loc (DeferNode n l) = l"
| "plain_loc (DeclarationNode n nl m p t v c as l) = l"
| "plain_loc (MultiDeclarationNode ns nls m v l) = l"
| "plain_loc (AssignmentNode a as v c l) = l"

fun GetLoc :: "node \<Rightarrow> Location" where
  "GetLoc (Type t) = type_loc t"
| "GetLoc (Expr e) = expression_loc e"
| "GetLoc (Stmt s) = plain_loc s"
| "GetLoc (WhenNode bs eb ev c l) = l"

text \<open>The type switches of the parser that look for one constructor.\<close>

definition is_identifier :: "node \<Rightarrow> bool" where
  "is_identifier n = (case n of Expr (IdentifierNode _ _ _ _) \<Rightarrow> True | _ \<Rightarrow> False)"

definition is_block :: "node \<Rightarrow> bool" where
  "is_block n = (case n of Expr (BlockNode _ _ _) \<Rightarrow> True | _ \<Rightarrow> False)"

definition is_function_type :: "node \<Rightarrow> bool" where
  "is_function_type n = (case n of Type (FunctionTypeNode _ _ _ _) \<Rightarrow> True | _ \<Rightarrow> False)"

end
