(* ===== verification/Parser_State.thy ===== *)
theory Parser_State
  imports Syntax
begin

text \<open>
  The parser's state and its primitives, \<^verbatim>\<open>src/parser/parser.go\<close>, and the control structure its
  methods share. A method is a function from the state of the parser to its result and the new
  state. The result is a value, an error or a panic (an index out of range); \<open>None\<close> is not
  returning, as everywhere in this development.
\<close>

section \<open>State and results\<close>

record Parser =
  p_pos :: nat
  p_tokens :: "Token list"
  p_posStack :: "nat list"
  p_allowTypeCapture :: bool

text \<open>\<open>shared.NewError\<close> with its format string and arguments; \<open>errors.Join\<close>.\<close>

datatype parse_error = ParseError Location string "string list" | JoinedErrors "parse_error list"

datatype 'a parsed = Parsed 'a | Failed parse_error | Panicked

type_synonym 'a parser = "Parser \<Rightarrow> ('a parsed \<times> Parser) run"

definition NewParser :: "Token list \<Rightarrow> Parser" where
  "NewParser ts = \<lparr>p_pos = 0, p_tokens = ts, p_posStack = [], p_allowTypeCapture = False\<rparr>"

definition zero_Location :: Location where
  "zero_Location =
    \<lparr>LC = \<lparr>Line = 0, Col = 0\<rparr>, EndLC = \<lparr>Line = 0, Col = 0\<rparr>, Offset = 0, EndOffset = 0,
     FilePath = [], SourceText = []\<rparr>"

definition eof_token :: Token where
  "eof_token = \<lparr>tok_Type = TokenEof, tok_Value = [], tok_Loc = zero_Location, NumberBase = 0\<rparr>"

section \<open>Primitives\<close>

definition PushPos :: "Parser \<Rightarrow> Parser" where
  "PushPos p = p\<lparr>p_posStack := p_posStack p @ [p_pos p]\<rparr>"

definition PopPos :: "Parser \<Rightarrow> Parser" where
  "PopPos p =
    (if p_posStack p = [] then p
     else p\<lparr>p_pos := last (p_posStack p), p_posStack := butlast (p_posStack p)\<rparr>)"

definition CommitPos :: "Parser \<Rightarrow> Parser" where
  "CommitPos p = (if p_posStack p = [] then p else p\<lparr>p_posStack := butlast (p_posStack p)\<rparr>)"

definition Parser_Peek :: "Parser \<Rightarrow> Token" where
  "Parser_Peek p =
    (if length (p_tokens p) \<le> p_pos p then eof_token else p_tokens p ! p_pos p)"

definition Parser_Next :: "Parser \<Rightarrow> Token" where
  "Parser_Next p =
    (let pos = p_pos p + 1
     in if length (p_tokens p) \<le> pos then eof_token else p_tokens p ! pos)"

definition Parser_Inc :: "Parser \<Rightarrow> Parser" where
  "Parser_Inc p = p\<lparr>p_pos := p_pos p + 1\<rparr>"

text \<open>At position 0 \<open>Dec\<close> makes the position negative, where \<open>Peek\<close> returns the zero token.\<close>

definition PrevLoc :: "Parser \<Rightarrow> Location" where
  "PrevLoc p =
    (if p_pos p = 0 then zero_Location else tok_Loc (Parser_Peek (p\<lparr>p_pos := p_pos p - 1\<rparr>)))"

definition CurrLoc :: "Parser \<Rightarrow> Location" where
  "CurrLoc p = tok_Loc (Parser_Peek p)"

text \<open>\<open>p.tokens[p.pos-1]\<close> is out of range once the position is past the end of the tokens.\<close>

definition SpanFrom :: "Location \<Rightarrow> Location parser" where
  "SpanFrom start p =
    (if p_pos p = 0 then Some (Parsed start, p)
     else if length (p_tokens p) \<le> p_pos p - 1 then Some (Panicked, p)
     else Some (Parsed (Location_WithEnd start (tok_Loc (p_tokens p ! (p_pos p - 1)))), p))"

definition Parser_Consume :: "Parser \<Rightarrow> Token \<times> Parser" where
  "Parser_Consume p = (Parser_Peek p, Parser_Inc p)"

definition Parser_Expect :: "TokenKind \<Rightarrow> Parser \<Rightarrow> bool \<times> Parser" where
  "Parser_Expect k p = (case Parser_Consume p of (tok, q) \<Rightarrow> (tok_Type tok = k, q))"

definition Parser_ExpectGet :: "TokenKind \<Rightarrow> Parser \<Rightarrow> Token option \<times> Parser" where
  "Parser_ExpectGet k p =
    (case Parser_Consume p of (tok, q) \<Rightarrow> (if tok_Type tok \<noteq> k then None else Some tok, q))"

definition Parser_Match :: "TokenKind list \<Rightarrow> Parser \<Rightarrow> bool" where
  "Parser_Match ks p \<longleftrightarrow> tok_Type (Parser_Peek p) \<in> set ks"

definition MatchAdjacentPair :: "TokenKind \<Rightarrow> Parser \<Rightarrow> bool" where
  "MatchAdjacentPair k p \<longleftrightarrow>
    tok_Type (Parser_Peek p) = k \<and> tok_Type (Parser_Next p) = k \<and>
    EndOffset (tok_Loc (Parser_Peek p)) = Offset (tok_Loc (Parser_Next p))"

definition MatchBuiltin :: "string \<Rightarrow> Parser \<Rightarrow> bool" where
  "MatchBuiltin name p \<longleftrightarrow>
    Parser_Match [TokenAt] p \<and> tok_Type (Parser_Next p) = TokenIdentifier \<and>
    tok_Value (Parser_Next p) = name"

definition ConsumeBuiltin :: "string \<Rightarrow> Parser \<Rightarrow> bool \<times> Parser" where
  "ConsumeBuiltin name p =
    (if \<not> MatchBuiltin name p then (False, p) else (True, Parser_Inc (Parser_Inc p)))"

text \<open>
  The test \<open>p.Match(k) && p.Peek().Value == w\<close>, for keywords and for identifiers that act as
  keywords.
\<close>

definition at_word :: "TokenKind \<Rightarrow> string \<Rightarrow> Parser \<Rightarrow> bool" where
  "at_word k w p \<longleftrightarrow> Parser_Match [k] p \<and> tok_Value (Parser_Peek p) = w"

abbreviation at_keyword :: "string \<Rightarrow> Parser \<Rightarrow> bool" where
  "at_keyword \<equiv> at_word TokenKeyword"

text \<open>The loop \<open>for p.Match(ks...) { p.Inc() }\<close>; no kind in \<open>ks\<close> is the end of the file.\<close>

function skip_kinds :: "TokenKind list \<Rightarrow> Parser \<Rightarrow> Parser" where
  "skip_kinds ks p =
    (if p_pos p < length (p_tokens p) \<and> Parser_Match ks p then skip_kinds ks (Parser_Inc p)
     else p)"
  by pat_completeness auto
termination
  by (relation "measure (\<lambda>(ks, p). length (p_tokens p) - p_pos p)") (auto simp: Parser_Inc_def)

declare skip_kinds.simps [simp del]

section \<open>Control structure\<close>

definition retP :: "'a \<Rightarrow> 'a parser" where
  "retP a p = Some (Parsed a, p)"

definition failP :: "parse_error \<Rightarrow> 'a parser" where
  "failP e p = Some (Failed e, p)"

definition bindP :: "'a parser \<Rightarrow> ('a \<Rightarrow> 'b parser) \<Rightarrow> 'b parser" where
  "bindP m k p =
    (case m p of
       None \<Rightarrow> None
     | Some (r, q) \<Rightarrow>
         (case r of
            Parsed a \<Rightarrow> k a q
          | Failed e \<Rightarrow> Some (Failed e, q)
          | Panicked \<Rightarrow> Some (Panicked, q)))"

definition thenP :: "unit parser \<Rightarrow> 'b parser \<Rightarrow> 'b parser" where
  "thenP m k = bindP m (\<lambda>_. k)"

text \<open>A result whose error is inspected rather than returned.\<close>

definition attemptP :: "'a parser \<Rightarrow> (parse_error + 'a) parser" where
  "attemptP m p =
    (case m p of
       None \<Rightarrow> None
     | Some (r, q) \<Rightarrow>
         Some (case r of Parsed a \<Rightarrow> Parsed (Inr a) | Failed e \<Rightarrow> Parsed (Inl e) | Panicked \<Rightarrow> Panicked, q))"

definition ifP :: "(Parser \<Rightarrow> bool) \<Rightarrow> 'a parser \<Rightarrow> 'a parser \<Rightarrow> 'a parser" where
  "ifP c m1 m2 p = (if c p then m1 p else m2 p)"

text \<open>A pure observation or update of the state.\<close>

definition readP :: "(Parser \<Rightarrow> 'a) \<Rightarrow> 'a parser" where
  "readP f p = Some (Parsed (f p), p)"

definition incP :: "unit parser" where
  "incP p = Some (Parsed (), Parser_Inc p)"

definition newlines :: "unit parser" where
  "newlines p = Some (Parsed (), skip_kinds [TokenNewline] p)"

definition separators :: "unit parser" where
  "separators p = Some (Parsed (), skip_kinds [TokenNewline, TokenSemicolon] p)"

text \<open>\<open>if p.Match(ks...) { tok := p.Consume(); ... } else { ... }\<close>\<close>

definition acceptP :: "TokenKind list \<Rightarrow> (Token \<Rightarrow> 'a parser) \<Rightarrow> 'a parser \<Rightarrow> 'a parser" where
  "acceptP ks m1 m2 p = (if Parser_Match ks p then m1 (Parser_Peek p) (Parser_Inc p) else m2 p)"

definition accept_word :: "TokenKind \<Rightarrow> string \<Rightarrow> 'a parser \<Rightarrow> 'a parser \<Rightarrow> 'a parser" where
  "accept_word k w m1 m2 p = (if at_word k w p then m1 (Parser_Inc p) else m2 p)"

abbreviation accept_keyword :: "string \<Rightarrow> 'a parser \<Rightarrow> 'a parser \<Rightarrow> 'a parser" where
  "accept_keyword \<equiv> accept_word TokenKeyword"

text \<open>The flag set by \<open>if p.Match(k) { p.Inc(); flag = true }\<close>.\<close>

definition optionalP :: "TokenKind \<Rightarrow> bool parser" where
  "optionalP k = acceptP [k] (\<lambda>_. retP True) (retP False)"

definition optional_keyword :: "string \<Rightarrow> bool parser" where
  "optional_keyword w = accept_keyword w (retP True) (retP False)"

text \<open>Errors at the current and at the previous token.\<close>

definition fail_here :: "string \<Rightarrow> string list \<Rightarrow> 'a parser" where
  "fail_here msg args p = Some (Failed (ParseError (CurrLoc p) msg args), p)"

definition fail_prev :: "string \<Rightarrow> string list \<Rightarrow> 'a parser" where
  "fail_prev msg args p = Some (Failed (ParseError (PrevLoc p) msg args), p)"

abbreviation fail_at :: "Location \<Rightarrow> string \<Rightarrow> string list \<Rightarrow> 'a parser" where
  "fail_at l msg args \<equiv> failP (ParseError l msg args)"

text \<open>
  \<open>if !p.Expect(k) { return nil, shared.NewError(p.PrevLoc(), msg, args...) }\<close>, the same with
  \<open>ExpectGet\<close>, and with a test of the value of the token.
\<close>

definition expect_fmt :: "TokenKind \<Rightarrow> string \<Rightarrow> string list \<Rightarrow> unit parser" where
  "expect_fmt k msg args p =
    (case Parser_Expect k p of (ok, q) \<Rightarrow> if ok then Some (Parsed (), q) else fail_prev msg args q)"

abbreviation expectP :: "TokenKind \<Rightarrow> string \<Rightarrow> unit parser" where
  "expectP k msg \<equiv> expect_fmt k msg []"

definition expect_get_fmt :: "TokenKind \<Rightarrow> string \<Rightarrow> string list \<Rightarrow> Token parser" where
  "expect_get_fmt k msg args p =
    (case Parser_ExpectGet k p of
       (Some tok, q) \<Rightarrow> Some (Parsed tok, q)
     | (None, q) \<Rightarrow> fail_prev msg args q)"

abbreviation expect_get :: "TokenKind \<Rightarrow> string \<Rightarrow> Token parser" where
  "expect_get k msg \<equiv> expect_get_fmt k msg []"

definition expect_word :: "TokenKind \<Rightarrow> string \<Rightarrow> string \<Rightarrow> Token parser" where
  "expect_word k w msg p =
    (case Parser_ExpectGet k p of
       (Some tok, q) \<Rightarrow> if tok_Value tok = w then Some (Parsed tok, q) else fail_prev msg [] q
     | (None, q) \<Rightarrow> fail_prev msg [] q)"

text \<open>\<open>ConsumeBuiltin\<close> where its result is known to be true.\<close>

definition builtinP :: "string \<Rightarrow> unit parser" where
  "builtinP name p = Some (Parsed (), snd (ConsumeBuiltin name p))"

text \<open>\<open>Loc: p.SpanFrom(begin)\<close> of a finished node.\<close>

definition finish :: "Location \<Rightarrow> (Location \<Rightarrow> 'a) \<Rightarrow> 'a parser" where
  "finish begin node = bindP (SpanFrom begin) (\<lambda>l. retP (node l))"

text \<open>A loop: \<open>Inl s\<close> goes round again with \<open>s\<close>, \<open>Inr a\<close> leaves it.\<close>

partial_function (option) loopP :: "('s \<Rightarrow> ('s + 'a) parser) \<Rightarrow> 's \<Rightarrow> 'a parser" where
  "loopP body s p =
    (case body s p of
       None \<Rightarrow> None
     | Some (r, q) \<Rightarrow>
         (case r of
            Parsed t \<Rightarrow> (case t of Inl s' \<Rightarrow> loopP body s' q | Inr a \<Rightarrow> Some (Parsed a, q))
          | Failed e \<Rightarrow> Some (Failed e, q)
          | Panicked \<Rightarrow> Some (Panicked, q)))"

declare loopP.simps [code]

abbreviation againP :: "'s \<Rightarrow> ('s + 'a) parser" where
  "againP s \<equiv> retP (Inl s)"

abbreviation breakP :: "'a \<Rightarrow> ('s + 'a) parser" where
  "breakP a \<equiv> retP (Inr a)"

text \<open>
  Speculation with the position stack. \<open>then_commit\<close> commits the pushed position when the call is
  over. \<open>speculate\<close> pushes the position, runs \<open>m\<close>, and either commits (when \<open>m\<close> succeeds and
  \<open>keep\<close> accepts its result) or pops it and returns \<open>None\<close>.
\<close>

definition then_commit :: "'a parser \<Rightarrow> 'a parser" where
  "then_commit m p = (case m p of None \<Rightarrow> None | Some (r, q) \<Rightarrow> Some (r, CommitPos q))"

definition speculate :: "'a parser \<Rightarrow> ('a \<Rightarrow> Parser \<Rightarrow> bool) \<Rightarrow> 'a option parser" where
  "speculate m keep p =
    (case m (PushPos p) of
       None \<Rightarrow> None
     | Some (r, q) \<Rightarrow>
         (case r of
            Parsed a \<Rightarrow>
              (if keep a q then Some (Parsed (Some a), CommitPos q) else Some (Parsed None, PopPos q))
          | Failed e \<Rightarrow> Some (Parsed None, PopPos q)
          | Panicked \<Rightarrow> Some (Panicked, q)))"

text \<open>
  Going back by assigning to \<open>p.pos\<close>. \<open>or_else m1 m2\<close> runs \<open>m2\<close> from the position where \<open>m1\<close>
  failed to parse; \<open>unless_from\<close> keeps the result of \<open>m1\<close> unless it succeeds in a state where
  \<open>redo\<close> holds, and then runs \<open>m2\<close> from the start.
\<close>

definition or_else :: "'a parser \<Rightarrow> 'a parser \<Rightarrow> 'a parser" where
  "or_else m1 m2 p =
    (case m1 p of
       None \<Rightarrow> None
     | Some (r, q) \<Rightarrow>
         (case r of Failed e \<Rightarrow> m2 (q\<lparr>p_pos := p_pos p\<rparr>) | _ \<Rightarrow> Some (r, q)))"

definition unless_from :: "'a parser \<Rightarrow> (Parser \<Rightarrow> bool) \<Rightarrow> 'a parser \<Rightarrow> 'a parser" where
  "unless_from m1 redo m2 p =
    (case m1 p of
       None \<Rightarrow> None
     | Some (r, q) \<Rightarrow>
         (case r of
            Parsed a \<Rightarrow> (if redo q then m2 (q\<lparr>p_pos := p_pos p\<rparr>) else Some (r, q))
          | _ \<Rightarrow> Some (r, q)))"

text \<open>
  Going back to a saved position and a saved stack: \<open>keep_if\<close> keeps the result of \<open>m\<close> if it
  succeeds in a state where \<open>keep\<close> holds, and otherwise restores both and returns \<open>None\<close>.
\<close>

definition keep_if :: "'a parser \<Rightarrow> (Parser \<Rightarrow> bool) \<Rightarrow> 'a option parser" where
  "keep_if m keep p =
    (case m p of
       None \<Rightarrow> None
     | Some (r, q) \<Rightarrow>
         (let back = q\<lparr>p_pos := p_pos p, p_posStack := p_posStack p\<rparr>
          in case r of
               Parsed a \<Rightarrow> (if keep q then Some (Parsed (Some a), q) else Some (Parsed None, back))
             | Failed e \<Rightarrow> Some (Parsed None, back)
             | Panicked \<Rightarrow> Some (Panicked, q)))"

text \<open>A look past newlines for the keyword \<open>w\<close>; the position stays before them if it is absent.\<close>

definition after_newlines :: "(Parser \<Rightarrow> bool) \<Rightarrow> 'a parser \<Rightarrow> 'a parser \<Rightarrow> 'a parser" where
  "after_newlines c m1 m2 p =
    (let q = skip_kinds [TokenNewline] p in if c q then m1 q else m2 (q\<lparr>p_pos := p_pos p\<rparr>))"

text \<open>A separate parser run on other tokens.\<close>

definition subparse :: "Token list \<Rightarrow> 'a parser \<Rightarrow> 'a parser" where
  "subparse ts m p =
    (case m (NewParser ts) of None \<Rightarrow> None | Some (r, q) \<Rightarrow> Some (r, p))"

end
