(* ===== verification/Parser_When.thy ===== *)
theory Parser_When
  imports Parser_State
begin

text \<open>
  Compile-time conditionals and directives (\<^verbatim>\<open>src/parser/when.go\<close>) and recovery between
  declarations (\<^verbatim>\<open>synchroniseTopLevel\<close> in \<^verbatim>\<open>src/parser/parser.go\<close>).

  The methods of the parser call each other recursively. A method here takes the recursive calls
  as its argument \<open>R\<close>; a \<open>call\<close> names the method that is called and \<open>reply\<close> is what it returns.
  The recursion is tied in theory \<open>Parser\<close>. In the texts of errors a backquote stands for the
  quote character of the source.
\<close>

datatype call =
    CallExpression | CallUnary | CallType | CallBlock bool | CallStatement | CallTopLevel
  | CallLinkItems TokenKind

datatype reply = Node node bool | LinkItems "node LinkItemNode list" bool

type_synonym calls = "call \<Rightarrow> reply parser"

definition callP :: "calls \<Rightarrow> call \<Rightarrow> node parser" where
  "callP R c =
    bindP (R c) (\<lambda>r. case r of Node n b \<Rightarrow> retP n | LinkItems is b \<Rightarrow> (\<lambda>p. Some (Panicked, p)))"

definition call_statement :: "calls \<Rightarrow> (node \<times> bool) parser" where
  "call_statement R =
    bindP (R CallStatement)
      (\<lambda>r. case r of Node n b \<Rightarrow> retP (n, b) | LinkItems is b \<Rightarrow> (\<lambda>p. Some (Panicked, p)))"

definition call_link_items :: "calls \<Rightarrow> TokenKind \<Rightarrow> (node LinkItemNode list \<times> bool) parser" where
  "call_link_items R k =
    bindP (R (CallLinkItems k))
      (\<lambda>r. case r of LinkItems is b \<Rightarrow> retP (is, b) | Node n b \<Rightarrow> (\<lambda>p. Some (Panicked, p)))"

text \<open>\<open>errors.Join\<close> of the errors collected by a loop, which is nil when there is none.\<close>

definition join_errors :: "'a \<Rightarrow> parse_error list \<Rightarrow> 'a parser" where
  "join_errors a es = (if es = [] then retP a else failP (JoinedErrors es))"

section \<open>Recovery at the top level\<close>

definition isTopLevelStart :: "Token \<Rightarrow> bool" where
  "isTopLevelStart tok \<longleftrightarrow>
    tok_Type tok = TokenKeyword \<and>
    tok_Value tok \<in> {''pub'', ''let'', ''import'', ''module''}"

definition is_separator :: "TokenKind \<Rightarrow> bool" where
  "is_separator k \<longleftrightarrow> k = TokenNewline \<or> k = TokenSemicolon"

function sync_top_loop :: "nat \<Rightarrow> bool \<Rightarrow> Parser \<Rightarrow> Parser" where
  "sync_top_loop depth atBoundary p =
    (if length (p_tokens p) \<le> p_pos p \<or> Parser_Match [TokenEof] p then p
     else if depth = 0 \<and> atBoundary \<and> isTopLevelStart (Parser_Peek p) then p
     else
       (case Parser_Consume p of (tok, q) \<Rightarrow>
          sync_top_loop
            (case tok_Type tok of
               TokenOpenCurly \<Rightarrow> depth + 1
             | TokenCloseCurly \<Rightarrow> (if depth > 0 then depth - 1 else depth)
             | _ \<Rightarrow> depth)
            (is_separator (tok_Type tok)) q))"
  by pat_completeness auto
termination
  by (relation "measure (\<lambda>(d, b, p). length (p_tokens p) - p_pos p)")
    (auto simp: Parser_Consume_def Parser_Inc_def)

declare sync_top_loop.simps [simp del]

text \<open>The test of the previous token, \<open>p.tokens[p.pos-1]\<close>.\<close>

definition at_boundary :: "bool parser" where
  "at_boundary p =
    (if p_pos p = 0 then Some (Parsed True, p)
     else if length (p_tokens p) \<le> p_pos p - 1 then Some (Panicked, p)
     else Some (Parsed (is_separator (tok_Type (p_tokens p ! (p_pos p - 1)))), p))"

definition clear_stack :: "unit parser" where
  "clear_stack p = Some (Parsed (), p\<lparr>p_posStack := []\<rparr>)"

definition synchroniseTopLevel :: "unit parser" where
  "synchroniseTopLevel =
    thenP clear_stack
      (bindP at_boundary (\<lambda>b p. Some (Parsed (), sync_top_loop 0 b p)))"

section \<open>Conditions\<close>

definition ParseWholeExpression :: "calls \<Rightarrow> node parser" where
  "ParseWholeExpression R =
    thenP newlines (
    bindP (callP R CallExpression) (\<lambda>expr.
    thenP newlines (
    ifP (\<lambda>p. \<not> Parser_Match [TokenEof] p)
      (bindP (readP Parser_Peek) (\<lambda>tok.
         fail_here ''unexpected token %s after expression'' [Token_String tok]))
      (retP expr))))"

text \<open>The scan for the opening brace outside parentheses and square brackets.\<close>

function condition_end :: "int \<Rightarrow> int \<Rightarrow> Parser \<Rightarrow> bool \<times> Parser" where
  "condition_end parenDepth squareDepth p =
    (if length (p_tokens p) \<le> p_pos p \<or> Parser_Match [TokenEof] p then (False, p)
     else
       (case tok_Type (Parser_Peek p) of
          TokenOpenParen \<Rightarrow> condition_end (parenDepth + 1) squareDepth (Parser_Inc p)
        | TokenCloseParen \<Rightarrow> condition_end (parenDepth - 1) squareDepth (Parser_Inc p)
        | TokenOpenSquare \<Rightarrow> condition_end parenDepth (squareDepth + 1) (Parser_Inc p)
        | TokenCloseSquare \<Rightarrow> condition_end parenDepth (squareDepth - 1) (Parser_Inc p)
        | TokenOpenCurly \<Rightarrow>
            (if parenDepth = 0 \<and> squareDepth = 0 then (True, p)
             else condition_end parenDepth squareDepth (Parser_Inc p))
        | _ \<Rightarrow> condition_end parenDepth squareDepth (Parser_Inc p)))"
  by pat_completeness auto
termination
  by (relation "measure (\<lambda>(d, b, p). length (p_tokens p) - p_pos p)") (auto simp: Parser_Inc_def)

declare condition_end.simps [simp del]

definition parseWhenCondition :: "calls \<Rightarrow> node parser" where
  "parseWhenCondition R p =
    (case condition_end 0 0 p of
       (True, q) \<Rightarrow>
         (let ts = filter (\<lambda>t. tok_Type t \<noteq> TokenNewline) (slice (p_pos p) (p_pos q) (p_tokens p))
          in if ts = [] then fail_here ''expected condition after `when`'' [] q
             else subparse (ts @ [eof_token\<lparr>tok_Loc := tok_Loc (last ts)\<rparr>])
                    (ParseWholeExpression R) q)
     | (False, q) \<Rightarrow> fail_here ''expected `{` after compile-time condition'' [] q)"

section \<open>Directives\<close>

definition require_builtin :: "string \<Rightarrow> string \<Rightarrow> string list \<Rightarrow> unit parser" where
  "require_builtin name msg args p =
    (case ConsumeBuiltin name p of
       (True, q) \<Rightarrow>
         (case Parser_Expect TokenOpenParen q of
            (True, r) \<Rightarrow> Some (Parsed (), r)
          | (False, r) \<Rightarrow> fail_prev msg args r)
     | (False, q) \<Rightarrow> fail_prev msg args q)"

text \<open>\<open>p.tokens[p.pos-2].Loc\<close>\<close>

definition before_last_loc :: "Location parser" where
  "before_last_loc p =
    (if p_pos p < 2 \<or> length (p_tokens p) \<le> p_pos p - 2 then Some (Panicked, p)
     else Some (Parsed (tok_Loc (p_tokens p ! (p_pos p - 2))), p))"

definition parseCompilerDirective :: "calls \<Rightarrow> node parser" where
  "parseCompilerDirective R =
    bindP (readP CurrLoc) (\<lambda>begin.
    bindP (readP (\<lambda>p. if MatchBuiltin ''compiler_assert'' p then ''compiler_assert''
                      else ''compiler_error'')) (\<lambda>name.
    thenP (require_builtin name ''expected `(` after @%s'' [name]) (
    bindP before_last_loc (\<lambda>nameEnd.
    bindP
      (if name = ''compiler_assert'' then
         bindP (callP R CallExpression) (\<lambda>condition.
         thenP (expectP TokenComma ''expected `,` after @compiler_assert condition'')
           (retP (Some condition)))
       else retP None) (\<lambda>condition.
    bindP (expect_get_fmt TokenString ''expected string message in @%s'' [name]) (\<lambda>message.
    thenP (expect_fmt TokenCloseParen ''expected `)` after @%s'' [name])
      (finish begin (\<lambda>l.
         Stmt (CompilerDirectiveNode name condition (tok_Value message)
           (Location_WithEnd begin nameEnd) l)))))))))"

definition at_directive :: "Parser \<Rightarrow> bool" where
  "at_directive p \<longleftrightarrow> MatchBuiltin ''compiler_error'' p \<or> MatchBuiltin ''compiler_assert'' p"

section \<open>Link items\<close>

definition link_kind :: "string \<Rightarrow> LinkKind option" where
  "link_kind w =
    (if w = ''system'' then Some LinkSystem
     else if w = ''path'' then Some LinkPath
     else if w = ''search'' then Some LinkSearchPath
     else if w = ''framework'' then Some LinkFramework
     else None)"

definition parseLinkWhen :: "calls \<Rightarrow> node LinkItemNode parser" where
  "parseLinkWhen R =
    bindP (readP CurrLoc) (\<lambda>begin.
    bindP
      (loopP (\<lambda>branches.
         accept_keyword ''when''
           (bindP (parseWhenCondition R) (\<lambda>condition.
            thenP (expectP TokenOpenCurly ''expected `{` after @link condition'') (
            bindP (call_link_items R TokenCloseCurly) (\<lambda>(items, _).
            thenP incP (
            let branches' = branches @ [(condition, items)] in
            after_newlines (at_keyword ''else'')
              (thenP incP (
               thenP newlines (
               ifP (at_keyword ''when'') (againP branches')
                 (thenP (expectP TokenOpenCurly ''expected `{` after else in @link'') (
                  bindP (call_link_items R TokenCloseCurly) (\<lambda>(else_items, _).
                  thenP incP (breakP (branches', else_items))))))))
              (breakP (branches', [])))))))
           (fail_here ''expected `when` in @link'' [])) []) (\<lambda>(branches, else_items).
    finish begin (LinkWhen branches else_items)))"

definition parseLinkItems :: "calls \<Rightarrow> TokenKind \<Rightarrow> (node LinkItemNode list \<times> bool) parser" where
  "parseLinkItems R close =
    loopP (\<lambda>(items, conditional).
      thenP (\<lambda>p. Some (Parsed (), skip_kinds [TokenNewline, TokenComma] p)) (
      ifP (Parser_Match [close]) (breakP (items, conditional)) (
      ifP (Parser_Match [TokenEof]) (fail_here ''expected closing delimiter in @link'' []) (
      ifP (at_keyword ''when'')
        (bindP (parseLinkWhen R) (\<lambda>item. againP (items @ [item], True))) (
      ifP (MatchBuiltin ''compiler_error'')
        (bindP (parseCompilerDirective R) (\<lambda>d. againP (items @ [LinkDirective d], True))) (
      bindP (expect_get TokenIdentifier ''expected complete link entry or `when` in @link'')
        (\<lambda>kindToken.
      case link_kind (tok_Value kindToken) of
        None \<Rightarrow>
          fail_at (tok_Loc kindToken) ''unknown @link entry kind %q'' [tok_Value kindToken]
      | Some kind \<Rightarrow>
          bindP (expect_get_fmt TokenString ''expected string after %s in @link'' [tok_Value kindToken]) (\<lambda>value.
          if tok_Value value = [] then fail_at (tok_Loc value) ''@link values cannot be empty'' []
          else againP (items @ [LinkItem \<lparr>Kind = kind, Value = tok_Value value\<rparr>], conditional)))))))))
      ([], False)"

section \<open>Conditionals\<close>

fun block_body :: "node \<Rightarrow> node list" where
  "block_body (Expr (BlockNode ns x l)) = ns"
| "block_body _ = []"

definition parseWhenDeclarationBody :: "calls \<Rightarrow> node list parser" where
  "parseWhenDeclarationBody R =
    thenP (expectP TokenOpenCurly ''expected `{` after compile-time condition'') (
    bindP
      (loopP (\<lambda>(body, errs).
         ifP (Parser_Match [TokenCloseCurly, TokenEof]) (breakP (body, errs)) (
         thenP separators (
         ifP (Parser_Match [TokenCloseCurly]) (breakP (body, errs)) (
         bindP (attemptP (callP R CallTopLevel)) (\<lambda>r.
         case r of
           Inl e \<Rightarrow> thenP synchroniseTopLevel (againP (body, errs @ [e]))
         | Inr node \<Rightarrow>
             ifP (Parser_Match [TokenCloseCurly, TokenNewline, TokenSemicolon])
               (againP (body @ [node], errs))
               (bindP (readP CurrLoc) (\<lambda>l.
                thenP synchroniseTopLevel
                  (againP (body @ [node],
                     errs @ [ParseError l ''expected declaration separator in when block'' []])))))))))
         ([], [])) (\<lambda>(body, errs).
    bindP (attemptP (expectP TokenCloseCurly ''expected `}` after when declarations'')) (\<lambda>r.
    join_errors body (case r of Inl e \<Rightarrow> errs @ [e] | Inr _ \<Rightarrow> errs))))"

definition parseWhenBody :: "calls \<Rightarrow> WhenContext \<Rightarrow> (node list \<times> node option) parser" where
  "parseWhenBody R context =
    (case context of
       WhenDeclarations \<Rightarrow> bindP (parseWhenDeclarationBody R) (\<lambda>body. retP (body, None))
     | WhenStatements \<Rightarrow> bindP (callP R (CallBlock False)) (\<lambda>block. retP (block_body block, None))
     | WhenExpression \<Rightarrow> bindP (callP R (CallBlock True)) (\<lambda>block. retP ([], Some block))
     | WhenType \<Rightarrow>
         thenP (expectP TokenOpenCurly ''expected `{` after compile-time condition'') (
         thenP newlines (
         ifP at_directive
           (bindP (parseCompilerDirective R) (\<lambda>directive.
            thenP separators (
            thenP (expectP TokenCloseCurly ''expected `}` after compiler directive'')
              (retP ([], Some directive)))))
           (bindP (callP R CallType) (\<lambda>typeNode.
            thenP newlines (
            thenP (expectP TokenCloseCurly ''expected `}` after selected type'')
              (retP ([], Some typeNode))))))))"

definition parseWhen :: "calls \<Rightarrow> WhenContext \<Rightarrow> node parser" where
  "parseWhen R context =
    bindP (readP CurrLoc) (\<lambda>begin.
    bindP
      (loopP (\<lambda>branches.
         bindP (readP CurrLoc) (\<lambda>branchBegin.
         accept_keyword ''when''
           (thenP newlines (
            bindP (parseWhenCondition R) (\<lambda>condition.
            bindP (parseWhenBody R context) (\<lambda>(body, value).
            bindP (readP PrevLoc) (\<lambda>prev.
            let branches' = branches @
                  [WhenBranchNode condition body value (Location_WithEnd branchBegin prev)] in
            after_newlines (at_keyword ''else'')
              (thenP incP (
               thenP newlines (
               ifP (at_keyword ''when'') (againP branches')
                 (bindP (parseWhenBody R context) (\<lambda>(else_body, else_value).
                  breakP (branches', else_body, else_value))))))
              (breakP (branches', [], None)))))))
           (fail_here ''expected `when`'' []))) []) (\<lambda>(branches, else_body, else_value).
    finish begin (\<lambda>l. WhenNode branches else_body else_value context l)))"

end
