(* ===== verification/Parser_Types.thy ===== *)
theory Parser_Types
  imports Parser_When
begin

text \<open>
  Identifiers, attributes and types: the attribute methods of \<^verbatim>\<open>src/parser/statements.go\<close> and the
  type methods of \<^verbatim>\<open>src/parser/expressions.go\<close>.
\<close>

section \<open>Identifiers\<close>

definition ParseIdent :: "node parser" where
  "ParseIdent =
    bindP (readP CurrLoc) (\<lambda>beginLoc.
    bindP (expect_get TokenIdentifier ''expected identifier'') (\<lambda>firstIdent.
    finish beginLoc (\<lambda>l. Expr (IdentifierNode (tok_Value firstIdent) [] [] l))))"

definition ident_Name :: "node \<Rightarrow> string" where
  "ident_Name n = (case n of Expr (IdentifierNode nm m as l) \<Rightarrow> nm | _ \<Rightarrow> [])"

section \<open>Attributes\<close>

definition attribute_names :: "(string \<times> AttributeType) list" where
  "attribute_names =
    [(''noreturn'', AttributeTypeNoReturn), (''inline'', AttributeTypeInline),
     (''noinline'', AttributeTypeNoInline), (''foreign'', AttributeTypeForeign),
     (''link'', AttributeTypeLink), (''export'', AttributeTypeExport),
     (''packed'', AttributeTypePacked)]"

definition link_of :: "node LinkItemNode \<Rightarrow> Link option" where
  "link_of i = (case i of LinkItem l \<Rightarrow> Some l | _ \<Rightarrow> None)"

definition parseLinkAttribute :: "calls \<Rightarrow> node parsed_attribute parser" where
  "parseLinkAttribute R =
    thenP (expectP TokenOpenParen ''expected `(` after @link'') (
    bindP (call_link_items R TokenCloseParen) (\<lambda>(items, conditional).
    thenP incP (
    if \<not> conditional then
      (case those (map link_of items) of
         Some links \<Rightarrow> retP (Resolved (ModuleAttributeLink links))
       | None \<Rightarrow> (\<lambda>p. Some (Panicked, p)))
    else retP (Parsed_Link items))))"

text \<open>The optional empty parentheses of an attribute without arguments.\<close>

definition no_arguments :: "string \<Rightarrow> Attribute \<Rightarrow> node parsed_attribute parser" where
  "no_arguments msg a =
    acceptP [TokenOpenParen]
      (\<lambda>_. thenP newlines (thenP (expectP TokenCloseParen msg) (retP (Resolved a))))
      (retP (Resolved a))"

definition parseInlineAttribute :: "node parsed_attribute parser" where
  "parseInlineAttribute =
    no_arguments ''inline attribute does not take any arguments'' AttributeInline"

definition parseNoInlineAttribute :: "node parsed_attribute parser" where
  "parseNoInlineAttribute =
    no_arguments ''noinline attribute does not take any arguments'' AttributeNoInline"

definition parseNoReturnAttribute :: "node parsed_attribute parser" where
  "parseNoReturnAttribute =
    no_arguments ''noreturn attribute does not take any arguments'' AttributeNoReturn"

definition parsePackedAttribute :: "node parsed_attribute parser" where
  "parsePackedAttribute =
    no_arguments ''packed attribute does not take any arguments'' AttributePacked"

definition foreign_abi :: "string \<Rightarrow> ForeignABI option" where
  "foreign_abi v = (if v = ''c'' then Some ForeignABIC else if v = ''qk'' then Some ForeignABIQK else None)"

text \<open>
  The options of \<open>@foreign\<close> and \<open>@export\<close>: the name, the ABI and which of the two were seen.
\<close>

type_synonym abi_options = "string \<times> ForeignABI \<times> bool \<times> bool"

definition foreign_option :: "Token \<Rightarrow> Token \<Rightarrow> abi_options \<Rightarrow> abi_options parser" where
  "foreign_option option value = (\<lambda>(from, abi, seenABI, seenSymbol).
    if tok_Value option = ''abi'' then
      if seenABI then fail_at (tok_Loc option) ''duplicate abi option in @foreign'' []
      else
        (case foreign_abi (tok_Value value) of
           Some a \<Rightarrow> retP (from, a, True, seenSymbol)
         | None \<Rightarrow> fail_at (tok_Loc value) ''unknown foreign ABI %q; expected `c` or `qk`''
                    [tok_Value value])
    else if tok_Value option = ''symbol'' then
      if seenSymbol then fail_at (tok_Loc option) ''duplicate symbol option in @foreign'' []
      else if tok_Value value = [] then
        fail_at (tok_Loc value) ''foreign symbol cannot be empty'' []
      else retP (tok_Value value, abi, seenABI, True)
    else fail_at (tok_Loc option) ''unknown @foreign option %q; expected `abi` or `symbol`''
           [tok_Value option])"

definition parseForeignAttribute :: "string \<Rightarrow> node parsed_attribute parser" where
  "parseForeignAttribute defaultName =
    (let result = (\<lambda>(from, abi, _, _). Resolved (FunctionAttributeForeign from abi));
         start = (defaultName, ForeignABIC, False, False)
     in acceptP [TokenOpenParen]
          (\<lambda>_. thenP newlines (
            acceptP [TokenCloseParen] (\<lambda>_. retP (result start)) (
            loopP (\<lambda>opts.
              thenP newlines (
              bindP (expect_get TokenIdentifier ''expected `abi` or `symbol` in @foreign'') (\<lambda>option.
              thenP newlines (
              bindP (expect_get_fmt TokenString ''expected string after %s in @foreign''
                       [tok_Value option]) (\<lambda>value.
              bindP (foreign_option option value opts) (\<lambda>opts'.
              thenP newlines (
              acceptP [TokenCloseParen] (\<lambda>_. breakP (result opts')) (
              thenP (expectP TokenComma ''expected `,` or `)` in @foreign'') (
              thenP newlines (
              acceptP [TokenCloseParen] (\<lambda>_. breakP (result opts')) (againP opts')))))))))))
              start)))
          (retP (result start)))"

definition export_option :: "Token \<Rightarrow> Token \<Rightarrow> abi_options \<Rightarrow> abi_options parser" where
  "export_option option value = (\<lambda>(as, abi, seenABI, seenSymbol).
    if tok_Value option = ''abi'' then
      if seenABI then fail_at (tok_Loc option) ''duplicate abi option in @export'' []
      else
        (case foreign_abi (tok_Value value) of
           Some a \<Rightarrow> retP (as, a, True, seenSymbol)
         | None \<Rightarrow> fail_at (tok_Loc value) ''unknown export ABI %q; expected `c` or `qk`''
                    [tok_Value value])
    else if tok_Value option = ''symbol'' then
      if seenSymbol then fail_at (tok_Loc option) ''duplicate symbol option in @export'' []
      else if tok_Value value = [] then
        fail_at (tok_Loc value) ''export symbol must be non-empty'' []
      else retP (tok_Value value, abi, seenABI, True)
    else fail_at (tok_Loc option) ''unknown @export option %q; expected `abi` or `symbol`''
           [tok_Value option])"

definition parseExportAttribute :: "string \<Rightarrow> node parsed_attribute parser" where
  "parseExportAttribute defaultName =
    (let result = (\<lambda>(as, abi, _, _). Resolved (FunctionAttributeExport as abi));
         start = (defaultName, ForeignABIC, False, False)
     in acceptP [TokenOpenParen]
          (\<lambda>_. thenP newlines (
            acceptP [TokenCloseParen] (\<lambda>_. retP (result start)) (
            acceptP [TokenString]
              (\<lambda>name.
                if tok_Value name = [] then
                  fail_at (tok_Loc name)
                    ''export attribute argument must be a non-empty string'' []
                else
                  thenP newlines (
                  thenP (expectP TokenCloseParen
                    ''export attribute takes either one string argument or named options'')
                  (retP (result (tok_Value name, ForeignABIC, False, False))))) (
            loopP (\<lambda>opts.
              bindP (expect_get TokenIdentifier ''expected `abi` or `symbol` in @export'') (\<lambda>option.
              bindP (expect_get_fmt TokenString ''expected string after %s in @export''
                       [tok_Value option]) (\<lambda>value.
              bindP (export_option option value opts) (\<lambda>opts'.
              thenP newlines (
              acceptP [TokenCloseParen] (\<lambda>_. breakP (result opts')) (
              thenP (expectP TokenComma ''expected `,` or `)` in @export'') (againP opts')))))))
              start))))
          (retP (result start)))"

definition parseAttribute :: "calls \<Rightarrow> string \<Rightarrow> node parsed_attribute parser" where
  "parseAttribute R defaultName =
    thenP (expectP TokenAt ''expected `@` for attribute'') (
    bindP ParseIdent (\<lambda>nameIdent.
    case map_of attribute_names (ident_Name nameIdent) of
      None \<Rightarrow> fail_at (GetLoc nameIdent) ''unknown attribute: %s'' [ident_Name nameIdent]
    | Some ty \<Rightarrow>
        (case ty of
           AttributeTypeLink \<Rightarrow> parseLinkAttribute R
         | AttributeTypeInline \<Rightarrow> parseInlineAttribute
         | AttributeTypeNoInline \<Rightarrow> parseNoInlineAttribute
         | AttributeTypeNoReturn \<Rightarrow> parseNoReturnAttribute
         | AttributeTypeForeign \<Rightarrow> parseForeignAttribute defaultName
         | AttributeTypeExport \<Rightarrow> parseExportAttribute defaultName
         | AttributeTypePacked \<Rightarrow> parsePackedAttribute)))"

definition parseAttributes :: "calls \<Rightarrow> string \<Rightarrow> node parsed_attribute list parser" where
  "parseAttributes R defaultName =
    loopP (\<lambda>attrs.
      after_newlines (\<lambda>p. \<not> at_directive p \<and> Parser_Match [TokenAt] p)
        (bindP (parseAttribute R defaultName) (\<lambda>attr. againP (attrs @ [attr])))
        (breakP attrs)) []"

section \<open>Named types\<close>

definition parseCallTypeArguments :: "calls \<Rightarrow> node list parser" where
  "parseCallTypeArguments R =
    thenP (expectP TokenOpenParen ''expected `(`'') (
    loopP (\<lambda>arguments.
      thenP newlines (
      acceptP [TokenCloseParen] (\<lambda>_. breakP arguments) (
      bindP (callP R CallType) (\<lambda>argument.
      let arguments' = arguments @ [argument] in
      thenP newlines (
      acceptP [TokenCloseParen] (\<lambda>_. breakP arguments') (
      thenP (expectP TokenComma ''expected `,` or `)` in type argument list'')
        (againP arguments'))))))) [])"

text \<open>The type arguments of a name, if there are any, and the location of the node so far.\<close>

definition named_arguments :: "calls \<Rightarrow> Location \<Rightarrow> (node list \<times> Location) parser" where
  "named_arguments R begin =
    bindP (SpanFrom begin) (\<lambda>l.
    ifP (Parser_Match [TokenOpenParen])
      (bindP (parseCallTypeArguments R) (\<lambda>arguments. finish begin (\<lambda>l'. (arguments, l'))))
      (retP ([], l)))"

text \<open>The name after the optional \<open>$\<close>: a name, or a path of names.\<close>

definition named_rest :: "calls \<Rightarrow> Location \<Rightarrow> bool \<Rightarrow> node parser" where
  "named_rest R begin capture =
    bindP ParseIdent (\<lambda>ident.
    let name = ident_Name ident in
    ifP (\<lambda>p. \<not> Parser_Match [TokenDot] p)
      (bindP (SpanFrom begin) (\<lambda>l0.
       bindP
         (ifP (Parser_Match [TokenOpenParen])
           (if capture then
              fail_at l0 ''captured type parameter %q cannot accept type arguments'' [name]
            else named_arguments R begin)
           (retP ([], l0))) (\<lambda>(arguments, l1).
       bindP
         (if capture then
            acceptP [TokenColon]
              (\<lambda>_. bindP (callP R CallType) (\<lambda>k. finish begin (\<lambda>l. (Some k, l))))
              (retP (None, l1))
          else retP (None, l1)) (\<lambda>(constraint, l2).
       retP (Type (NamedTypeNode [] name arguments capture constraint l2))))))
      (if capture then
         fail_at begin ''captured type parameter cannot be module-qualified'' []
       else
         bindP
           (loopP (\<lambda>parts.
              acceptP [TokenDot]
                (\<lambda>_. bindP ParseIdent (\<lambda>realIdent. againP (parts @ [ident_Name realIdent])))
                (breakP parts)) [name]) (\<lambda>parts.
         bindP (named_arguments R begin) (\<lambda>(arguments, l).
         retP (Type (NamedTypeNode (join_strings ''.'' (butlast parts)) (last parts) arguments
                 False None l))))))"

definition ParseNamedType :: "calls \<Rightarrow> node parser" where
  "ParseNamedType R =
    bindP (readP CurrLoc) (\<lambda>beginLoc.
    ifP (\<lambda>p. Parser_Match [TokenDollar] p \<and> \<not> p_allowTypeCapture p)
      (fail_here ''type captures are only valid in method owner patterns'' []) (
    acceptP [TokenDollar]
      (\<lambda>_. ifP (Parser_Match [TokenCloseParen])
        (finish beginLoc (\<lambda>l. Type (NamedTypeNode [] [] [] True None l)))
        (named_rest R beginLoc True))
      (named_rest R beginLoc False)))"

section \<open>Pointers, arrays and functions\<close>

definition ParseDynType :: "calls \<Rightarrow> Location \<Rightarrow> bool \<Rightarrow> node parser" where
  "ParseDynType R begin mutable =
    thenP (expectP TokenKeyword ''expected `dyn` to start dynamic trait type'') (
    bindP (ParseNamedType R) (\<lambda>trait.
    finish begin (\<lambda>l. Type (DynTypeNode trait mutable l))))"

definition ParseArrayOrSliceType :: "calls \<Rightarrow> node parser" where
  "ParseArrayOrSliceType R =
    bindP (readP CurrLoc) (\<lambda>beginLoc.
    thenP (expectP TokenOpenSquare ''expected `[` to start slice type'') (
    thenP newlines (
    acceptP [TokenCloseSquare]
      (\<lambda>_. bindP (optional_keyword ''mut'') (\<lambda>mutable.
        bindP (callP R CallType) (\<lambda>elementType.
        finish beginLoc (\<lambda>l. Type (SliceTypeNode elementType mutable l)))))
      (bindP (callP R CallExpression) (\<lambda>len.
       thenP newlines (
       thenP (expectP TokenCloseSquare ''expected `]` after array length'') (
       bindP (callP R CallType) (\<lambda>elementType.
       finish beginLoc (\<lambda>l. Type (ArrayTypeNode elementType len l))))))))))"

definition ParseFunctionType :: "calls \<Rightarrow> node parser" where
  "ParseFunctionType R =
    bindP (readP CurrLoc) (\<lambda>beginLoc.
    thenP incP (
    bindP
      (loopP (\<lambda>params.
         thenP newlines (
         ifP (Parser_Match [TokenCloseParen]) (breakP (params, False)) (
         bindP (optionalP Token3Dots) (\<lambda>isTypedVariadic.
         bindP (callP R CallType) (\<lambda>param.
         if isTypedVariadic then
           ifP (Parser_Match [TokenComma])
             (fail_here ''typed variadic parameter must be last'' [])
             (breakP (params @ [Type (SliceTypeNode param False (GetLoc param))], True))
         else
           acceptP [TokenComma] (\<lambda>_. againP (params @ [param]))
             (breakP (params @ [param], False))))))) []) (\<lambda>(params, typedVariadic).
    thenP (expectP TokenCloseParen ''expected `)` in function pointer type'') (
    thenP (expectP TokenColon ''expected `:` and return type in function pointer type'') (
    bindP (callP R CallType) (\<lambda>ret.
    finish beginLoc (\<lambda>l. Type (FunctionTypeNode params ret typedVariadic l))))))))"

definition ParsePointerType :: "calls \<Rightarrow> node parser" where
  "ParsePointerType R =
    bindP (readP CurrLoc) (\<lambda>beginLoc.
    thenP (expectP TokenAsterisk ''expected `*` to start pointer type'') (
    bindP (optional_keyword ''mut'') (\<lambda>mutable.
    ifP (at_keyword ''dyn'') (ParseDynType R beginLoc mutable) (
    bindP (ifP (Parser_Match [TokenOpenParen]) (ParseFunctionType R) (callP R CallType)) (\<lambda>tpe.
    if mutable \<and> is_function_type tpe then
      fail_at beginLoc ''function pointers cannot be mutable pointers'' []
    else finish beginLoc (\<lambda>l. Type (PointerTypeNode tpe mutable l)))))))"

section \<open>Enumerations and flags\<close>

text \<open>\<open>new(big.Int).SetString(s, 10)\<close>: an optional sign and digits.\<close>

definition is_digit_char :: "char \<Rightarrow> bool" where
  "is_digit_char c \<longleftrightarrow> 48 \<le> (of_char c :: nat) \<and> (of_char c :: nat) < 58"

definition SetString10 :: "string \<Rightarrow> int option" where
  "SetString10 s =
    (let (neg, ds) = (case s of
           [] \<Rightarrow> (False, [])
         | c # cs \<Rightarrow>
             (if c = CHR ''-'' then (True, cs) else if c = CHR ''+'' then (False, cs) else (False, s)))
     in if ds = [] \<or> \<not> list_all is_digit_char ds then None
        else Some (if neg then - int (decimal_value ds) else int (decimal_value ds)))"

definition enumValueFits32Bits :: "string \<Rightarrow> bool" where
  "enumValueFits32Bits v =
    (case SetString10 v of
       None \<Rightarrow> False
     | Some n \<Rightarrow> - (2 ^ 31) \<le> n \<and> n \<le> 2 ^ 32 - 1)"

text \<open>
  The state of the loop: the variants, their values and the mode, \<open>Some True\<close> for explicit
  values and \<open>Some False\<close> for implicit ones.
\<close>

definition enum_variant ::
  "string list \<times> string list \<times> bool option \<Rightarrow> (string list \<times> string list \<times> bool option) parser" where
  "enum_variant = (\<lambda>(variants, values, mode).
    bindP (expect_get TokenIdentifier ''expected enum variant'') (\<lambda>variant.
    if tok_Value variant \<in> set variants then
      fail_at (tok_Loc variant) ''duplicate enum variant %q'' [tok_Value variant]
    else
      let variants' = variants @ [tok_Value variant] in
      bindP (readP (Parser_Match [TokenEquals])) (\<lambda>hasExplicitValue.
      if mode \<noteq> None \<and> mode \<noteq> Some hasExplicitValue then
        fail_at (tok_Loc variant) ''cannot mix implicit and explicit enum values'' []
      else if hasExplicitValue then
        thenP incP (
        bindP (expect_get TokenNumber ''expected integer literal after `=` in enum variant'')
          (\<lambda>value.
        if \<not> enumValueFits32Bits (tok_Value value) then
          fail_at (tok_Loc value) ''enum value %s does not fit in 32 bits'' [tok_Value value]
        else retP (variants', values @ [tok_Value value], Some True)))
      else
        retP (variants', values @ [decimal (length variants' - 1)], Some False))))"

definition ParseEnumType :: "node parser" where
  "ParseEnumType =
    bindP (readP CurrLoc) (\<lambda>beginLoc.
    accept_keyword ''enum''
      (thenP (expectP TokenOpenCurly ''expected `{` after enum'') (
       bindP
         (loopP (\<lambda>(variants, values, mode).
            thenP newlines (
            acceptP [TokenCloseCurly] (\<lambda>_. breakP (variants, values)) (
            bindP (enum_variant (variants, values, mode)) (\<lambda>st.
            thenP newlines (
            acceptP [TokenComma] (\<lambda>_. againP st) (
            ifP (\<lambda>p. \<not> Parser_Match [TokenCloseCurly] p)
              (fail_here ''expected `,` or `}` after enum variant'' []) (againP st)))))))
            ([], [], None)) (\<lambda>(variants, values).
       if variants = [] then fail_at beginLoc ''enum must declare at least one variant'' []
       else finish beginLoc (\<lambda>l. Type (EnumTypeNode variants values l)))))
      (fail_here ''expected `enum`'' []))"

text \<open>
  The value of a flag is a bitwise union of terms. \<open>1 << bit\<close> is computed on unbounded integers;
  that Go runs out of memory for a huge bit position is not modelled.
\<close>

definition parseFlagValue :: "(string \<times> int) list \<Rightarrow> int parser" where
  "parseFlagValue known =
    loopP (\<lambda>result.
      bindP
        (acceptP [TokenIdentifier]
          (\<lambda>tok.
            case map_of known (tok_Value tok) of
              None \<Rightarrow> fail_at (tok_Loc tok) ''unknown earlier flag %q'' [tok_Value tok]
            | Some value \<Rightarrow> retP value) (
         acceptP [TokenNumber]
           (\<lambda>tok.
             if NumberBase tok = 16 then
               (case SetString10 (tok_Value tok) of
                  Some n \<Rightarrow> retP n
                | None \<Rightarrow> (\<lambda>p. Some (Panicked, p)))
             else if tok_Value tok = ''1'' then
               acceptP [TokenShiftLeft]
                 (\<lambda>_ p.
                   case Parser_ExpectGet TokenNumber p of
                     (Some shift, q) \<Rightarrow>
                       (if NumberBase shift \<noteq> 10 then
                          fail_prev ''expected decimal bit position after `1 <<`'' [] q
                        else
                          (case SetString10 (tok_Value shift) of
                             Some position \<Rightarrow>
                               (if 0 \<le> position \<and> position < 2 ^ 64 then retP (2 ^ nat position) q
                                else fail_at (tok_Loc shift) ''invalid flag bit position'' [] q)
                           | None \<Rightarrow> fail_at (tok_Loc shift) ''invalid flag bit position'' [] q))
                   | (None, q) \<Rightarrow> fail_prev ''expected decimal bit position after `1 <<`'' [] q)
                 (fail_at (tok_Loc tok)
                   ''flag values must use hexadecimal, `1 << bit`, or earlier flag names'' [])
             else
               fail_at (tok_Loc tok)
                 ''flag values must use hexadecimal, `1 << bit`, or earlier flag names'' [])
           (fail_here ''expected hexadecimal value, `1 << bit`, or earlier flag name'' []))) (\<lambda>term.
      let result' = or result term in
      acceptP [TokenPipe] (\<lambda>_. againP result') (breakP result'))) 0"

definition flag_member ::
  "(string \<times> int) list \<times> bool option \<Rightarrow> ((string \<times> int) list \<times> bool option) parser" where
  "flag_member = (\<lambda>(known, mode).
    bindP (expect_get TokenIdentifier ''expected flag name'') (\<lambda>name.
    if tok_Value name \<in> fst ` set known then
      fail_at (tok_Loc name) ''duplicate flag %q'' [tok_Value name]
    else
      bindP (readP (Parser_Match [TokenEquals])) (\<lambda>hasExplicitValue.
      if mode \<noteq> None \<and> mode \<noteq> Some hasExplicitValue then
        fail_at (tok_Loc name) ''cannot mix implicit and explicit flag values'' []
      else
        bindP (if hasExplicitValue then thenP incP (parseFlagValue known)
               else retP (2 ^ length known)) (\<lambda>value.
        retP (known @ [(tok_Value name, value)], Some hasExplicitValue)))))"

definition ParseFlagsType :: "calls \<Rightarrow> node parser" where
  "ParseFlagsType R =
    bindP (readP CurrLoc) (\<lambda>beginLoc.
    thenP incP (
    thenP (expectP TokenOpenParen ''expected `(` after flags'') (
    bindP (ParseNamedType R) (\<lambda>underlying.
    thenP (expectP TokenCloseParen ''expected `{` after flags underlying type'') (
    thenP (expectP TokenOpenCurly ''expected `{` after flags underlying type'') (
    bindP
      (loopP (\<lambda>(known, mode).
         thenP newlines (
         acceptP [TokenCloseCurly] (\<lambda>_. breakP known) (
         bindP (flag_member (known, mode)) (\<lambda>st.
         thenP newlines (
         acceptP [TokenComma] (\<lambda>_. againP st) (
         ifP (\<lambda>p. \<not> Parser_Match [TokenCloseCurly] p)
           (fail_here ''expected `,` or `}` after flag'' []) (againP st)))))))
         ([], None)) (\<lambda>known.
    if known = [] then fail_at beginLoc ''flags must declare at least one member'' []
    else finish beginLoc (\<lambda>l.
      Type (FlagsTypeNode underlying (map fst known) (map (decimal_int \<circ> snd) known) l)))))))))"

section \<open>Type parameters and return types\<close>

definition type_parameter_rest :: "calls \<Rightarrow> Location \<Rightarrow> Token \<Rightarrow> node GenericParameterNode parser" where
  "type_parameter_rest R begin name =
    bindP (SpanFrom begin) (\<lambda>l.
    acceptP [TokenOpenParen]
      (\<lambda>_.
        bindP (callP R CallType) (\<lambda>constraint.
        thenP (expectP TokenCloseParen ''expected `)` after type parameter constraint'') (
        finish begin (\<lambda>l'. GenericParameterNode (tok_Value name) (Some constraint) l'))))
      (retP (GenericParameterNode (tok_Value name) None l)))"

text \<open>\<open>None\<close> is the result \<open>matched = false\<close>; an error is returned with \<open>matched = true\<close>.\<close>

definition parseTypeParameter :: "calls \<Rightarrow> node GenericParameterNode option parser" where
  "parseTypeParameter R p =
    (let p1 = PushPos p; begin = CurrLoc p1
     in if \<not> Parser_Match [TokenDollar] p1 then Some (Parsed None, PopPos p1)
        else
          (case Parser_ExpectGet TokenIdentifier (Parser_Inc p1) of
             (None, q) \<Rightarrow> fail_at begin ''expected type parameter name after `$`'' [] (PopPos q)
           | (Some name, q) \<Rightarrow>
               (case Parser_Expect TokenColon q of (ok, r) \<Rightarrow>
                  if \<not> ok \<or> \<not> at_keyword ''type'' r then
                    fail_at (tok_Loc name) ''compile-time parameter %q must have type `type`''
                      [tok_Value name] (PopPos r)
                  else
                    then_commit (bindP (type_parameter_rest R begin name) (\<lambda>g. retP (Some g)))
                      (Parser_Inc r))))"

definition parseFunctionReturnType :: "calls \<Rightarrow> node parser" where
  "parseFunctionReturnType R =
    ifP (\<lambda>p. \<not> Parser_Match [TokenOpenParen] p) (callP R CallType) (
    bindP (readP CurrLoc) (\<lambda>loc.
    thenP incP (
    bindP
      (loopP (\<lambda>items.
         bindP (callP R CallType) (\<lambda>t.
         acceptP [TokenComma] (\<lambda>_. againP (items @ [t])) (breakP (items @ [t])))) []) (\<lambda>items.
    if length items < 2 then
      fail_at loc ''multiple return type requires at least two types'' []
    else
      thenP (expectP TokenCloseParen ''expected `)` after return types'')
        (finish loc (\<lambda>l. Type (MultipleReturnTypeNode items l)))))))"

text \<open>The body of a function after \<open>=\<close> or of a lambda: a block or an expression.\<close>

definition expression_body :: "calls \<Rightarrow> node parser" where
  "expression_body R =
    ifP (Parser_Match [TokenOpenCurly]) (callP R (CallBlock True)) (callP R CallExpression)"

section \<open>Traits\<close>

definition trait_receiver :: "MethodReceiverKind parser" where
  "trait_receiver =
    accept_word TokenIdentifier ''self'' (retP MethodReceiverValue) (
    acceptP [TokenAsterisk]
      (\<lambda>_. bindP (optional_keyword ''mut'') (\<lambda>mutable.
        bindP (expect_word TokenIdentifier ''self''
                 ''trait method receiver must be self, *self, or *mut self'') (\<lambda>_.
        retP (if mutable then MethodReceiverMutablePointer else MethodReceiverPointer))))
      (fail_here ''trait method must have a self, *self, or *mut self receiver'' []))"

definition trait_parameters ::
  "calls \<Rightarrow> (node GenericParameterNode list \<times> node FunctionNodeArg list) parser" where
  "trait_parameters R =
    loopP (\<lambda>(generics, args).
      thenP newlines (
      ifP (Parser_Match [TokenCloseParen]) (breakP (generics, args)) (
      bindP (parseTypeParameter R) (\<lambda>matched.
      case matched of
        Some parameter \<Rightarrow>
          bindP (optionalP TokenComma) (\<lambda>_. againP (generics @ [parameter], args))
      | None \<Rightarrow>
          bindP ParseIdent (\<lambda>arg.
          thenP newlines (
          thenP (expectP TokenColon ''expected `:` after trait method parameter'') (
          thenP newlines (
          bindP (callP R CallType) (\<lambda>t.
          let args' = args @ [FunctionNodeArg (ident_Name arg) (Some t) None False (GetLoc arg)] in
          thenP newlines (
          acceptP [TokenComma] (\<lambda>_. againP (generics, args')) (breakP (generics, args'))))))))))))
      ([], [])"

definition trait_method :: "calls \<Rightarrow> string list \<Rightarrow> node TraitMethodNode parser" where
  "trait_method R seen =
    bindP (readP CurrLoc) (\<lambda>loc.
    bindP (expect_word TokenKeyword ''let'' ''expected trait method declaration'') (\<lambda>_.
    bindP (expect_get TokenIdentifier ''expected trait method name'') (\<lambda>name.
    if tok_Value name \<in> set seen then
      fail_at (tok_Loc name) ''duplicate trait method %q'' [tok_Value name]
    else
      thenP (expectP TokenOpenParen ''expected `(`'') (
      thenP newlines (
      bindP trait_receiver (\<lambda>receiver.
      bindP (optionalP TokenComma) (\<lambda>_.
      bindP (trait_parameters R) (\<lambda>(generics, args).
      thenP newlines (
      thenP (expectP TokenCloseParen ''expected `)`'') (
      bindP
        (acceptP [TokenColon] (\<lambda>_. parseFunctionReturnType R)
          (retP (Type (NamedTypeNode [] ''void'' [] False None loc)))) (\<lambda>ret.
      bindP
        (ifP (Parser_Match [TokenOpenCurly])
          (bindP (callP R (CallBlock False)) (\<lambda>b. retP (Some b, False)))
          (acceptP [TokenEquals]
            (\<lambda>_. thenP newlines (bindP (expression_body R) (\<lambda>b. retP (Some b, True))))
            (retP (None, False)))) (\<lambda>(body, expressionBody).
      finish loc (TraitMethodNode (tok_Value name) generics receiver args ret body expressionBody)
      )))))))))))) "

definition ParseTraitType :: "calls \<Rightarrow> node parser" where
  "ParseTraitType R =
    bindP (readP CurrLoc) (\<lambda>begin.
    thenP incP (
    thenP (expectP TokenOpenCurly ''expected `{` after trait'') (
    bindP
      (loopP (\<lambda>methods.
         thenP newlines (
         acceptP [TokenCloseCurly] (\<lambda>_. breakP methods) (
         bindP (trait_method R (map tm_Name methods)) (\<lambda>m.
         acceptP [TokenComma, TokenSemicolon] (\<lambda>_. againP (methods @ [m]))
           (againP (methods @ [m])))))) []) (\<lambda>methods.
    finish begin (\<lambda>l. Type (TraitTypeNode methods l))))))"

section \<open>Unions and structs\<close>

definition union_tag :: "calls \<Rightarrow> (node option \<times> bool) parser" where
  "union_tag R =
    acceptP [TokenOpenParen]
      (\<lambda>_.
        thenP newlines (
        bindP
          (acceptP [TokenAt]
            (\<lambda>_. bindP ParseIdent (\<lambda>attribute.
              if ident_Name attribute \<noteq> ''auto'' then
                fail_at (GetLoc attribute)
                  ''unknown tagged union attribute @%s; expected @auto'' [ident_Name attribute]
              else retP (None, True)))
            (bindP (callP R CallType) (\<lambda>t. retP (Some t, False)))) (\<lambda>tag.
        thenP newlines (
        thenP (expectP TokenCloseParen ''expected `)` after tagged union tag type'')
          (retP tag)))))
      (retP (None, False))"

text \<open>
  The name of a payload field, which is empty when the field is not named. The source keeps the names seen
  in a set, here they are the nonempty names of the fields read so far: an identifier of the
  tokeniser is never empty.
\<close>

definition payload_name :: "(string \<times> 'n) list \<Rightarrow> string parser" where
  "payload_name members =
    bindP (readP CurrLoc) (\<lambda>fieldLoc.
    ifP (\<lambda>p. Parser_Match [TokenIdentifier] p \<and> tok_Type (Parser_Next p) = TokenColon)
      (acceptP [TokenIdentifier]
        (\<lambda>tok.
          if tok_Value tok \<in> fst ` set (filter (\<lambda>(n, _). n \<noteq> []) members) then
            fail_at fieldLoc ''duplicate tagged union payload field %q'' [tok_Value tok]
          else thenP incP (retP (tok_Value tok)))
        (retP []))
      (retP []))"

definition union_payload :: "calls \<Rightarrow> (string \<times> node) list parser" where
  "union_payload R =
    loopP (\<lambda>members.
      ifP (Parser_Match [TokenCloseParen]) (breakP members) (
      bindP (payload_name members) (\<lambda>fieldName.
      bindP (callP R CallType) (\<lambda>fieldType.
      let members' = members @ [(fieldName, fieldType)] in
      ifP (Parser_Match [TokenCloseParen]) (breakP members') (
      thenP (expectP TokenComma ''expected `,` after tagged union payload field'') (
      thenP newlines (againP members'))))))) []"

definition union_variant :: "calls \<Rightarrow> node \<Rightarrow> node TaggedUnionVariantNode parser" where
  "union_variant R name =
    acceptP [TokenOpenParen]
      (\<lambda>_.
        thenP newlines (
        bindP (union_payload R) (\<lambda>members.
        thenP (expectP TokenCloseParen ''expected `)` after tagged union payload'') (
        bindP (readP PrevLoc) (\<lambda>prev.
        retP (TaggedUnionVariantNode (ident_Name name) members
                (Location_WithEnd (GetLoc name) prev)))))))
      (retP (TaggedUnionVariantNode (ident_Name name) [] (GetLoc name)))"

text \<open>\<open>seen\<close> is the set of the names of the fields and variants so far.\<close>

definition ParseUnionType :: "calls \<Rightarrow> node parser" where
  "ParseUnionType R =
    bindP (readP CurrLoc) (\<lambda>beginLoc.
    accept_keyword ''union''
      (bindP (union_tag R) (\<lambda>(tagType, autoTag).
       thenP (expectP TokenOpenCurly ''expected `{` after union'') (
       thenP newlines (
       bindP
         (loopP (\<lambda>(members, variants).
            ifP (Parser_Match [TokenCloseCurly]) (breakP (members, variants)) (
            bindP ParseIdent (\<lambda>name.
            if ident_Name name \<in> set (map fst members) \<union> set (map variant_Name variants) then
              fail_at (GetLoc name) ''duplicate union field %q'' [ident_Name name]
            else if tagType \<noteq> None \<or> autoTag then
              bindP (union_variant R name) (\<lambda>v.
              let variants' = variants @ [v] in
              ifP (Parser_Match [TokenCloseCurly]) (breakP (members, variants')) (
              thenP (expectP TokenComma ''expected `,` after tagged union variant'') (
              thenP newlines (againP (members, variants')))))
            else
              thenP (expectP TokenColon ''expected `:` after union field'') (
              bindP (callP R CallType) (\<lambda>fieldType.
              let members' = members @ [(ident_Name name, fieldType)] in
              ifP (Parser_Match [TokenCloseCurly]) (breakP (members', variants)) (
              thenP (expectP TokenComma ''expected `,` after union field'') (
              thenP newlines (againP (members', variants)))))))))
            ([], [])) (\<lambda>(members, variants).
       thenP (expectP TokenCloseCurly ''expected `}` after union'') (
       if tagType = None \<and> \<not> autoTag \<and> members = [] then
         fail_at beginLoc ''union must declare at least one field'' []
       else if autoTag \<and> variants = [] then
         fail_at beginLoc ''auto-tagged union must declare at least one variant'' []
       else finish beginLoc (\<lambda>l. Type (UnionTypeNode tagType autoTag members variants l))))))))
      (fail_here ''expected `union`'' []))"

text \<open>One field of a struct: an anonymous union, or a name and a type.\<close>

definition struct_field :: "calls \<Rightarrow> (string \<times> node) parser" where
  "struct_field R =
    ifP (at_keyword ''union'') (bindP (ParseUnionType R) (\<lambda>t. retP ([], t))) (
    bindP ParseIdent (\<lambda>fieldName.
    thenP (expectP TokenColon ''expected `:`'') (
    bindP (callP R CallType) (\<lambda>fieldType. retP (ident_Name fieldName, fieldType)))))"

definition ParseStructType :: "calls \<Rightarrow> node parser" where
  "ParseStructType R =
    bindP (readP CurrLoc) (\<lambda>beginLoc.
    accept_keyword ''struct''
      (bindP (parseAttributes R []) (\<lambda>attrs.
       thenP (expectP TokenOpenCurly ''expected `{`'') (
       thenP newlines (
       bindP
         (loopP (\<lambda>members.
            ifP (Parser_Match [TokenCloseCurly]) (breakP members) (
            bindP (struct_field R) (\<lambda>field.
            let members' = members @ [field] in
            ifP (Parser_Match [TokenCloseCurly]) (breakP members') (
            thenP (expectP TokenComma ''expected `,` after struct field'') (
            thenP newlines (againP members')))))) []) (\<lambda>members.
       thenP (expectP TokenCloseCurly ''expected `}`'') (
       finish beginLoc (\<lambda>l. Type (StructTypeNode members l attrs))))))))
      (fail_prev ''expected `struct` keyword'' []))"

section \<open>Types\<close>

definition ParseType :: "calls \<Rightarrow> node parser" where
  "ParseType R =
    thenP newlines (
    ifP (at_keyword ''when'') (parseWhen R WhenType) (
    ifP (MatchBuiltin ''reprof'')
      (bindP (readP CurrLoc) (\<lambda>begin.
       thenP (builtinP ''reprof'') (
       thenP (expectP TokenOpenParen ''expected `(` after `@reprof`'') (
       bindP (callP R CallType) (\<lambda>operand.
       thenP (expectP TokenCloseParen ''expected `)` after `@reprof` operand'') (
       finish begin (\<lambda>l. Type (ReprTypeNode operand l)))))))) (
    ifP (at_keyword ''dyn'')
      (fail_here ''dynamic trait pointer type must start with `*`'' []) (
    ifP (\<lambda>p. at_keyword ''mut'' p \<and> tok_Type (Parser_Next p) = TokenKeyword \<and>
             tok_Value (Parser_Next p) = ''dyn'')
      (fail_here ''mutable dynamic trait pointer type must start with `*mut`'' []) (
    ifP (Parser_Match [TokenAsterisk]) (ParsePointerType R) (
    ifP (Parser_Match [TokenOpenSquare]) (ParseArrayOrSliceType R) (
    ifP (at_keyword ''struct'') (ParseStructType R) (
    ifP (at_keyword ''enum'') ParseEnumType (
    ifP (\<lambda>p. at_word TokenIdentifier ''flags'' p \<and> tok_Type (Parser_Next p) = TokenOpenParen)
      (ParseFlagsType R) (
    ifP (\<lambda>p. at_word TokenIdentifier ''flags'' p \<and> tok_Type (Parser_Next p) = TokenOpenCurly)
      (bindP (readP (\<lambda>p. tok_Loc (Parser_Next p))) (\<lambda>l.
       fail_at l ''expected backing type in parentheses after `flags`'' [])) (
    ifP (at_keyword ''union'') (ParseUnionType R) (
    ifP (at_keyword ''opaque'')
      (bindP (readP CurrLoc) (\<lambda>loc. thenP incP (retP (Type (OpaqueTypeNode loc))))) (
    ifP (at_keyword ''trait'') (ParseTraitType R) (
    ParseNamedType R))))))))))))))"

section \<open>Captured type parameters\<close>

text \<open>
  The type parameters a method owner pattern captures, in order of their first occurrence. The
  map \<open>seen\<close> of the code holds the names of the result so far. The result is an error or the
  list of parameters.
\<close>

type_synonym captures = "parse_error + node GenericParameterNode list"

definition capture_name ::
  "string \<Rightarrow> node option \<Rightarrow> Location \<Rightarrow> node GenericParameterNode list \<Rightarrow> captures" where
  "capture_name n constraint l result =
    (if n \<notin> set (map gen_Name result) then Inr (result @ [GenericParameterNode n constraint l])
     else if constraint \<noteq> None then
       Inl (ParseError l
         ''constraint for repeated type capture %q must be declared on its first occurrence'' [n])
     else Inr result)"

fun capture_visit :: "node \<Rightarrow> node GenericParameterNode list \<Rightarrow> captures"
  and capture_all :: "node list \<Rightarrow> node GenericParameterNode list \<Rightarrow> captures" where
  "capture_visit (Type (NamedTypeNode m n as c k l)) result =
     (if c \<and> n = [] then Inr result
      else
        (case (if c then capture_name n k l result else Inr result) of
           Inl e \<Rightarrow> Inl e
         | Inr result' \<Rightarrow> capture_all as result'))"
| "capture_visit (Type (PointerTypeNode t m l)) result = capture_visit t result"
| "capture_visit (Type (SliceTypeNode t m l)) result = capture_visit t result"
| "capture_visit (Type (ArrayTypeNode t n l)) result = capture_visit t result"
| "capture_visit (Type (DynTypeNode t m l)) result = capture_visit t result"
| "capture_visit (Type (ReprTypeNode t l)) result = capture_visit t result"
| "capture_visit (Type (FunctionTypeNode ps r v l)) result =
     (case capture_all ps result of Inl e \<Rightarrow> Inl e | Inr result' \<Rightarrow> capture_visit r result')"
| "capture_visit (Type (MultipleReturnTypeNode ts l)) result = capture_all ts result"
| "capture_visit _ result = Inr result"
| "capture_all [] result = Inr result"
| "capture_all (t # ts) result =
     (case capture_visit t result of Inl e \<Rightarrow> Inl e | Inr result' \<Rightarrow> capture_all ts result')"

definition capturedTypeParameters :: "node \<Rightarrow> captures" where
  "capturedTypeParameters owner = capture_visit owner []"

end
