(* ===== verification/Parser_Expressions.thy ===== *)
theory Parser_Expressions
  imports Parser_Types
begin

text \<open>
  Expressions, \<^verbatim>\<open>src/parser/expressions.go\<close>, and \<open>if\<close> and \<open>match\<close>, which are expressions and
  statements.
\<close>

section \<open>Builtins\<close>

text \<open>
  The operand of \<open>@sizeof\<close> and \<open>@alignof\<close>: a type if one can be parsed up to the closing
  parenthesis, otherwise an expression.
\<close>

definition type_or_expression :: "calls \<Rightarrow> string \<Rightarrow> node parser" where
  "type_or_expression R msg =
    bindP
      (speculate (bindP (callP R CallType) (\<lambda>t. thenP newlines (retP t)))
        (\<lambda>_. Parser_Match [TokenCloseParen])) (\<lambda>t.
    case t of
      Some node \<Rightarrow> retP node
    | None \<Rightarrow>
        bindP (attemptP (callP R CallExpression)) (\<lambda>r.
        case r of Inl e \<Rightarrow> fail_prev msg [] | Inr node \<Rightarrow> retP node))"

text \<open>
  The operand as a type and as an expression: a bare name can denote either, so both are kept.
  The cases are tried in the order of the type switch, in which \<open>WhenNode\<close> counts as a type.
\<close>

definition operand_forms :: "node \<Rightarrow> node option \<times> node option" where
  "operand_forms n =
    (case n of
       Type (NamedTypeNode m nm as c k l) \<Rightarrow> (Some n, Some (Expr (IdentifierNode nm m [] l)))
     | _ \<Rightarrow> if is_type n then (Some n, None) else (None, Some n))"

definition ParseSizeOfExpression :: "calls \<Rightarrow> node parser" where
  "ParseSizeOfExpression R =
    bindP (readP CurrLoc) (\<lambda>beginLoc.
    ifP (\<lambda>p. \<not> MatchBuiltin ''sizeof'' p) (fail_here ''expected `@sizeof` builtin'' []) (
    thenP (builtinP ''sizeof'') (
    thenP (expectP TokenOpenParen ''expected `(` after `@sizeof`'') (
    thenP newlines (
    bindP (type_or_expression R ''expected type or expression after `@sizeof`'') (\<lambda>node.
    thenP newlines (
    thenP (expectP TokenCloseParen ''expected `)` after `@sizeof` operand'') (
    finish beginLoc (\<lambda>l.
      case operand_forms node of
        (Some t, e) \<Rightarrow> Expr (SizeOfNode t e l)
      | (None, _) \<Rightarrow> Expr (SizeOfExprNode node l))))))))))"

definition ParseAlignOfExpression :: "calls \<Rightarrow> node parser" where
  "ParseAlignOfExpression R =
    bindP (readP CurrLoc) (\<lambda>beginLoc.
    thenP (builtinP ''alignof'') (
    thenP (expectP TokenOpenParen ''expected `(` after `@alignof`'') (
    thenP newlines (
    bindP (type_or_expression R ''expected type or expression after `@alignof(`'') (\<lambda>node.
    thenP newlines (
    thenP (expectP TokenCloseParen ''expected `)` after `@alignof` operand'') (
    finish beginLoc (\<lambda>l.
      case operand_forms node of (t, e) \<Rightarrow> Expr (AlignOfNode t e l)))))))))"

definition ParseOffsetOfExpression :: "calls \<Rightarrow> node parser" where
  "ParseOffsetOfExpression R =
    bindP (readP CurrLoc) (\<lambda>beginLoc.
    thenP (builtinP ''offsetof'') (
    thenP (expectP TokenOpenParen ''expected `(` after `@offsetof`'') (
    thenP newlines (
    bindP (attemptP (callP R CallType)) (\<lambda>r.
    case r of
      Inl e \<Rightarrow> fail_prev ''expected type after `@offsetof(`'' []
    | Inr operand \<Rightarrow>
        thenP (expectP TokenComma ''expected `,` after type in `@offsetof`'') (
        thenP newlines (
        bindP (expect_get TokenIdentifier ''expected field name in `@offsetof`'') (\<lambda>field.
        thenP newlines (
        thenP (expectP TokenCloseParen ''expected `)` after `@offsetof` field'') (
        finish beginLoc (\<lambda>l. Expr (OffsetOfNode operand (tok_Value field) l))))))))))))"

definition ParseEmbedExpression :: "node parser" where
  "ParseEmbedExpression =
    bindP (readP CurrLoc) (\<lambda>begin.
    thenP (builtinP ''embed'') (
    thenP (expectP TokenOpenParen ''expected `(` after `@embed`'') (
    thenP newlines (
    acceptP [TokenString]
      (\<lambda>path.
        thenP newlines (
        thenP (expectP TokenCloseParen ''expected `)` after `@embed` path'') (
        finish begin (\<lambda>l. Expr (EmbedNode (tok_Value path) l)))))
      (fail_here ''expected file path string in `@embed`'' [])))))"

text \<open>
  The entries of \<open>@asm\<close>: outputs, inputs, clobbers and the flag \<open>volatile\<close>, with the flags
  \<open>seenInput\<close> and \<open>seenClobber\<close> that keep them in this order.
\<close>

type_synonym asm_entries =
  "node InlineAsmOutput list \<times> node InlineAsmInput list \<times> string list \<times> bool \<times> bool \<times> bool"

definition asm_entry :: "calls \<Rightarrow> asm_entries \<Rightarrow> asm_entries parser" where
  "asm_entry R = (\<lambda>(outputs, inputs, clobbers, volatile, seenInput, seenClobber).
    bindP (readP CurrLoc) (\<lambda>entryLoc.
    ifP (\<lambda>p. at_word TokenIdentifier ''out'' p \<and> (seenInput \<or> seenClobber))
      (fail_at entryLoc ''@asm outputs must precede inputs and clobbers'' []) (
    accept_word TokenIdentifier ''out''
      (thenP newlines (
       bindP (callP R CallType) (\<lambda>typeNode.
       thenP newlines (
       bindP (expect_get TokenString
                ''expected output constraint string after @asm output type'') (\<lambda>constraint.
       finish entryLoc (\<lambda>l.
         (outputs @ [InlineAsmOutput typeNode (tok_Value constraint) l], inputs, clobbers,
          volatile, seenInput, seenClobber))))))) (
    ifP (\<lambda>p. at_keyword ''in'' p \<and> seenClobber)
      (fail_at entryLoc ''@asm inputs must precede clobbers'' []) (
    accept_keyword ''in''
      (thenP newlines (
       bindP (callP R CallExpression) (\<lambda>value.
       thenP newlines (
       bindP (expect_get TokenString
                ''expected input constraint string after @asm input value'') (\<lambda>constraint.
       finish entryLoc (\<lambda>l.
         (outputs, inputs @ [InlineAsmInput value (tok_Value constraint) l], clobbers,
          volatile, True, seenClobber))))))) (
    accept_word TokenIdentifier ''clobber''
      (thenP newlines (
       bindP (expect_get TokenString ''expected clobber name string'') (\<lambda>name.
       retP (outputs, inputs, clobbers @ [tok_Value name], volatile, seenInput, True)))) (
    accept_word TokenIdentifier ''volatile''
      (retP (outputs, inputs, clobbers, True, seenInput, seenClobber))
      (fail_at entryLoc ''expected `out`, `in`, `clobber`, or `volatile` in @asm'' []))))))))"

definition ParseInlineAsmExpression :: "calls \<Rightarrow> node parser" where
  "ParseInlineAsmExpression R =
    bindP (readP CurrLoc) (\<lambda>begin.
    thenP (builtinP ''asm'') (
    thenP (expectP TokenOpenParen ''expected `(` after `@asm`'') (
    thenP newlines (
    bindP (expect_get TokenString ''@asm requires a string literal template'') (\<lambda>template.
    bindP
      (loopP (\<lambda>entries.
         thenP newlines (
         acceptP [TokenCloseParen] (\<lambda>_. breakP entries) (
         thenP (expectP TokenComma ''expected `,` or `)` in @asm'') (
         thenP newlines (
         acceptP [TokenCloseParen] (\<lambda>_. breakP entries) (
         bindP (asm_entry R entries) againP))))))
         ([], [], [], False, False, False)) (\<lambda>(outputs, inputs, clobbers, volatile, _, _).
    finish begin (\<lambda>l.
      Expr (InlineAsmNode (tok_Value template) outputs inputs clobbers volatile l))))))))"

section \<open>Calls and literals\<close>

definition ParseCall :: "calls \<Rightarrow> node \<Rightarrow> (node list \<times> bool \<times> Location) parser" where
  "ParseCall R callee =
    thenP (expectP TokenOpenParen ''expected `(`'') (
    thenP newlines (
    bindP
      (ifP (Parser_Match [TokenCloseParen]) (retP ([], False)) (
       loopP (\<lambda>args.
         thenP newlines (
         ifP (Parser_Match [TokenCloseParen]) (breakP (args, False)) (
         bindP (callP R CallExpression) (\<lambda>arg.
         let args' = args @ [arg] in
         acceptP [Token3Dots]
           (\<lambda>_.
             thenP newlines (
             ifP (\<lambda>p. \<not> Parser_Match [TokenCloseParen] p)
               (fail_here ''expanded slice must be the final call argument'' [])
               (breakP (args', True)))) (
         acceptP [TokenComma] (\<lambda>_. thenP newlines (againP args'))
           (breakP (args', False))))))) [])) (\<lambda>(args, expanded).
    thenP newlines (
    thenP (expectP TokenCloseParen ''expected `)`'') (
    bindP (readP PrevLoc) (\<lambda>prev.
    retP (args, expanded, Location_WithEnd (GetLoc callee) prev)))))))"

text \<open>\<open>FunctionCallNode\<close> with the field \<open>Name\<close>, which is set for direct calls.\<close>

definition call_node :: "node \<Rightarrow> node option \<Rightarrow> node list \<times> bool \<times> Location \<Rightarrow> node" where
  "call_node callee name = (\<lambda>(args, expanded, l). Expr (FunctionCallNode callee name args expanded l))"

definition ParseFunctionCall :: "calls \<Rightarrow> node \<Rightarrow> node parser" where
  "ParseFunctionCall R name =
    bindP (ParseCall R name) (\<lambda>c. retP (call_node name (Some name) c))"

definition flag_names :: "string list parser" where
  "flag_names =
    loopP (\<lambda>members.
      thenP (expectP TokenDot ''expected `.` before flag name'') (
      bindP (expect_get TokenIdentifier ''expected flag name'') (\<lambda>member.
      let members' = members @ [tok_Value member] in
      acceptP [TokenComma, TokenNewline]
        (\<lambda>_. thenP newlines (
          ifP (Parser_Match [TokenCloseCurly]) (breakP members') (againP members')))
        (breakP members')))) []"

definition literal_fields :: "calls \<Rightarrow> ((string \<times> node) list \<times> bool) parser" where
  "literal_fields R =
    loopP (\<lambda>members.
      ifP (Parser_Match [TokenCloseCurly]) (breakP (members, False)) (
      acceptP [TokenNoInitializer]
        (\<lambda>_.
          thenP newlines (
          thenP (acceptP [TokenComma] (\<lambda>_. newlines) (retP ())) (
          ifP (\<lambda>p. \<not> Parser_Match [TokenCloseCurly] p)
            (fail_here ''`---` must be the final struct initializer entry'' [])
            (breakP (members, True))))) (
      bindP (expect_get TokenIdentifier ''expected field name'') (\<lambda>fieldName.
      thenP (expectP TokenEquals ''expected `=`'') (
      thenP newlines (
      bindP (callP R CallExpression) (\<lambda>fieldValue.
      let members' = members @ [(tok_Value fieldName, fieldValue)] in
      acceptP [TokenComma, TokenNewline] (\<lambda>_. thenP newlines (againP members'))
        (breakP (members', False))))))))) []"

definition ParseStructLiteral :: "calls \<Rightarrow> node option \<Rightarrow> node parser" where
  "ParseStructLiteral R name =
    bindP (readP CurrLoc) (\<lambda>currLoc.
    let beginLoc = (case name of None \<Rightarrow> currLoc | Some n \<Rightarrow> GetLoc n) in
    thenP (expectP TokenOpenCurly ''expected `{` to start struct literal'') (
    thenP newlines (
    bindP (SpanFrom beginLoc) (\<lambda>_.
    ifP (Parser_Match [TokenDot])
      (bindP flag_names (\<lambda>members.
       thenP (expectP TokenCloseCurly ''expected `}` to end flags literal'') (
       finish beginLoc (\<lambda>l. Expr (StructLiteralNode name [] members False l)))))
      (bindP (literal_fields R) (\<lambda>(members, noInit).
       thenP (expectP TokenCloseCurly ''expected `}` to end struct literal'') (
       finish beginLoc (\<lambda>l. Expr (StructLiteralNode name members [] noInit l))))))))) "

definition ParseSliceLiteral :: "calls \<Rightarrow> node parser" where
  "ParseSliceLiteral R =
    bindP (readP CurrLoc) (\<lambda>beginLoc.
    thenP (expectP TokenOpenSquare ''expected `[` to start slice literal'') (
    thenP newlines (
    bindP
      (loopP (\<lambda>elements.
         ifP (Parser_Match [TokenCloseSquare]) (breakP (elements, None)) (
         bindP (callP R CallExpression) (\<lambda>elem.
         ifP (\<lambda>p. elements = [] \<and> Parser_Match [TokenSemicolon] p)
           (thenP incP (
            thenP newlines (
            bindP (callP R CallExpression) (\<lambda>amount.
            thenP newlines (breakP ([], Some (elem, amount))))))) (
         let elements' = elements @ [elem] in
         acceptP [TokenComma, TokenNewline] (\<lambda>_. thenP newlines (againP elements'))
           (breakP (elements', None)))))) []) (\<lambda>(elements, repeated).
    case repeated of
      Some (elem, amount) \<Rightarrow>
        thenP (expectP TokenCloseSquare ''expected `]` to end repeated slice literal'') (
        finish beginLoc (\<lambda>l. Expr (SliceLiteralNode [] (Some elem) (Some amount) l)))
    | None \<Rightarrow>
        thenP (expectP TokenCloseSquare ''expected `]` to end slice literal'') (
        finish beginLoc (\<lambda>l. Expr (SliceLiteralNode elements None None l)))))))"

section \<open>Lambdas\<close>

text \<open>
  The names of one group of parameters: after a comma either another name or the closing bar.
\<close>

definition no_lambda_default :: "'a parser \<Rightarrow> 'a parser" where
  "no_lambda_default m =
    ifP (Parser_Match [TokenEquals])
      (fail_here ''lambda parameters cannot have default values'' []) m"

definition lambda_group :: "node FunctionNodeArg list parser" where
  "lambda_group =
    bindP (expect_get TokenIdentifier ''expected lambda parameter name or `|`'') (\<lambda>name.
    no_lambda_default (
    loopP (\<lambda>group.
      ifP (Parser_Match [TokenColon, TokenPipe]) (breakP group) (
      thenP (expectP TokenComma ''expected `:`, `,` or `|` after lambda parameter'') (
      thenP newlines (
      ifP (Parser_Match [TokenPipe]) (breakP group) (
      bindP (expect_get TokenIdentifier ''expected lambda parameter name'') (\<lambda>name.
      no_lambda_default (
      againP (group @
        [FunctionNodeArg (tok_Value name) None None False (tok_Loc name)]))))))))
      [FunctionNodeArg (tok_Value name) None None False (tok_Loc name)]))"

definition set_arg_type :: "node \<Rightarrow> node FunctionNodeArg \<Rightarrow> node FunctionNodeArg" where
  "set_arg_type t a = FunctionNodeArg (arg_Name a) (Some t) (arg_Default a) (arg_Mutable a) (arg_Loc a)"

definition lambda_type ::
  "calls \<Rightarrow> node FunctionNodeArg list \<Rightarrow> (node FunctionNodeArg list \<times> bool) parser" where
  "lambda_type R grp =
    acceptP [TokenColon]
      (\<lambda>_.
        ifP (\<lambda>p. Parser_Match [Token3Dots] p \<and> length grp \<noteq> 1)
          (fail_here ''typed variadic parameter cannot use a grouped declaration'' []) (
        bindP (optionalP Token3Dots) (\<lambda>isTypedVariadic.
        bindP (callP R CallType) (\<lambda>typeNode.
        let t = (if isTypedVariadic then Type (SliceTypeNode typeNode False (GetLoc typeNode))
                 else typeNode) in
        retP (map (set_arg_type t) grp, isTypedVariadic)))))
      (retP (grp, False))"

definition lambda_parameters :: "calls \<Rightarrow> (node FunctionNodeArg list \<times> bool) parser" where
  "lambda_parameters R =
    loopP (\<lambda>args.
      thenP newlines (
      acceptP [TokenPipe] (\<lambda>_. breakP (args, False)) (
      bindP lambda_group (\<lambda>group.
      bindP (lambda_type R group) (\<lambda>(group, typedVariadic).
      no_lambda_default (
      let args' = args @ group in
      if typedVariadic then
        ifP (Parser_Match [TokenComma])
          (fail_here ''typed variadic parameter must be last'' [])
          (thenP (expectP TokenPipe ''expected `|` after lambda parameters'')
            (breakP (args', True)))
      else
        acceptP [TokenComma] (\<lambda>_. againP args')
          (thenP (expectP TokenPipe ''expected `,` or `|` after lambda parameter'')
            (breakP (args', False))))))))) []"

definition ParseLambdaExpression :: "calls \<Rightarrow> node parser" where
  "ParseLambdaExpression R =
    bindP (readP CurrLoc) (\<lambda>beginLoc.
    bindP
      (acceptP [TokenLogicalOr] (\<lambda>_. retP ([], False)) (thenP incP (lambda_parameters R)))
      (\<lambda>(args, typedVariadic).
    thenP newlines (
    thenP (expectP TokenFatArrow ''expected `=>` after lambda parameters'') (
    thenP newlines (
    bindP (expression_body R) (\<lambda>body.
    finish beginLoc (\<lambda>l. Expr (LambdaNode args body typedVariadic l))))))))"

section \<open>Conditionals\<close>

definition parseIf :: "calls \<Rightarrow> bool \<Rightarrow> node parser" where
  "parseIf R expression =
    bindP (readP CurrLoc) (\<lambda>beginLoc.
    thenP (expectP TokenKeyword ''expected `if`'') (
    thenP newlines (
    bindP (callP R CallExpression) (\<lambda>condition.
    thenP newlines (
    bindP (callP R (CallBlock expression)) (\<lambda>thenBlock.
    thenP newlines (
    bindP (SpanFrom beginLoc) (\<lambda>_.
    bindP
      (loopP (\<lambda>elseIfs.
         accept_keyword ''else''
           (thenP newlines (
            accept_keyword ''if''
              (thenP newlines (
               bindP (callP R CallExpression) (\<lambda>c.
               thenP newlines (
               bindP (callP R (CallBlock expression)) (\<lambda>b.
               thenP newlines (againP (elseIfs @ [(c, b)])))))))
              (bindP (callP R (CallBlock expression)) (\<lambda>b. breakP (elseIfs, Some b)))))
           (breakP (elseIfs, None))) []) (\<lambda>(elseIfs, elseBranch).
    if expression \<and> elseBranch = None then
      fail_at beginLoc ''if expression requires an else branch'' []
    else
      let endLoc =
        (case elseBranch of
           Some b \<Rightarrow> GetLoc b
         | None \<Rightarrow> if elseIfs \<noteq> [] then GetLoc (snd (last elseIfs)) else GetLoc thenBlock) in
      retP (Expr (IfNode (condition, thenBlock) elseIfs elseBranch expression
        (Location_WithEnd beginLoc endLoc))))))))))))"

section \<open>Match\<close>

definition parseMatchPatternLiteral :: "node parser" where
  "parseMatchPatternLiteral =
    bindP (readP CurrLoc) (\<lambda>begin.
    acceptP [TokenNumber]
      (\<lambda>tok. finish begin (\<lambda>l.
        Expr (if CHR ''.'' \<in> set (tok_Value tok) then FloatLiteralNode (tok_Value tok) l
              else IntegerLiteralNode (tok_Value tok) l))) (
    acceptP [TokenChar]
      (\<lambda>tok.
        if tok_Value tok = [] then (\<lambda>p. Some (Panicked, p))
        else finish begin (\<lambda>l. Expr (CharLiteralNode (hd (tok_Value tok)) l))) (
    acceptP [TokenString]
      (\<lambda>tok. finish begin (\<lambda>l. Expr (StringLiteralNode (tok_Value tok) l))) (
    acceptP [TokenCString]
      (\<lambda>tok. finish begin (\<lambda>l. Expr (CStringLiteralNode (tok_Value tok) l))) (
    accept_keyword ''true'' (finish begin (\<lambda>l. Expr (BoolLiteralNode ''true'' l))) (
    accept_keyword ''false'' (finish begin (\<lambda>l. Expr (BoolLiteralNode ''false'' l))) (
    fail_at begin ''expected match pattern'' [])))))))"

definition empty_pattern :: "MatchPatternKind \<Rightarrow> Location \<Rightarrow> node MatchPatternNode" where
  "empty_pattern k l = MatchPatternNode k None None None [] [] False [] l"

definition pattern_bindings :: "MatchBinding list parser" where
  "pattern_bindings =
    loopP (\<lambda>bindings.
      ifP (Parser_Match [TokenCloseParen]) (breakP bindings) (
      bindP (expect_get TokenIdentifier ''expected payload binding in variant pattern'')
        (\<lambda>binding.
      bindP
        (acceptP [TokenEquals]
          (\<lambda>_.
            bindP (expect_get TokenIdentifier
                     ''expected binding name after `=` in variant pattern'') (\<lambda>bound.
            retP (MatchBinding (tok_Value bound) (tok_Value binding) (tok_Loc bound))))
          (retP (MatchBinding (tok_Value binding) [] (tok_Loc binding)))) (\<lambda>entry.
      let bindings' = bindings @ [entry] in
      ifP (Parser_Match [TokenCloseParen]) (breakP bindings') (
      thenP (expectP TokenComma ''expected `,` after variant pattern binding'') (
      thenP newlines (againP bindings'))))))) []"

definition parseMatchPatternAtom :: "node MatchPatternNode parser" where
  "parseMatchPatternAtom =
    bindP (readP CurrLoc) (\<lambda>begin.
    accept_word TokenIdentifier ''_'' (finish begin (empty_pattern MatchPatternWildcard)) (
    acceptP [TokenDot]
      (\<lambda>_.
        bindP (expect_get TokenIdentifier ''expected variant name after `.`'') (\<lambda>variant.
        bindP (SpanFrom begin) (\<lambda>l.
        acceptP [TokenOpenParen]
          (\<lambda>_.
            thenP newlines (
            bindP pattern_bindings (\<lambda>bindings.
            thenP (expectP TokenCloseParen ''expected `)` after variant pattern'') (
            finish begin (\<lambda>l'.
              MatchPatternNode MatchPatternVariant None None None (tok_Value variant) bindings
                True [] l')))))
          (retP (MatchPatternNode MatchPatternVariant None None None (tok_Value variant) [] False
             [] l))))) (
    bindP parseMatchPatternLiteral (\<lambda>literal.
    retP (MatchPatternNode MatchPatternLiteral (Some literal) None None [] [] False []
      (GetLoc literal))))))"

definition parseMatchPatternTerm :: "node MatchPatternNode parser" where
  "parseMatchPatternTerm =
    bindP (readP CurrLoc) (\<lambda>begin.
    bindP parseMatchPatternAtom (\<lambda>pattern.
    ifP (\<lambda>p. \<not> Parser_Match [Token2Dots] p) (retP pattern) (
    if pat_Kind pattern \<noteq> MatchPatternLiteral then
      fail_at (pat_Loc pattern) ''range pattern must start with a literal'' []
    else
      thenP incP (
      bindP (attemptP parseMatchPatternLiteral) (\<lambda>r.
      case r of
        Inl e \<Rightarrow> fail_here ''expected literal after `..` in match range'' []
      | Inr stop \<Rightarrow>
          retP (MatchPatternNode MatchPatternRange None (pat_Literal pattern) (Some stop) [] []
            False [] (Location_WithEnd begin (GetLoc stop))))))))"

definition parseMatchPattern :: "node MatchPatternNode parser" where
  "parseMatchPattern =
    bindP (readP CurrLoc) (\<lambda>begin.
    bindP parseMatchPatternTerm (\<lambda>first.
    bindP
      (loopP (\<lambda>alternatives.
         acceptP [TokenPipe]
           (\<lambda>_. bindP parseMatchPatternTerm (\<lambda>a. againP (alternatives @ [a])))
           (breakP alternatives)) [first]) (\<lambda>alternatives.
    if length alternatives = 1 then retP first
    else
      retP (MatchPatternNode MatchPatternAlternative None None None [] [] False alternatives
        (Location_WithEnd begin (pat_Loc (last alternatives)))))))"

definition match_patterns :: "node MatchPatternNode list parser" where
  "match_patterns =
    loopP (\<lambda>patterns.
      bindP parseMatchPattern (\<lambda>pattern.
      acceptP [TokenComma] (\<lambda>_. thenP newlines (againP (patterns @ [pattern])))
        (breakP (patterns @ [pattern])))) []"

definition match_subjects :: "calls \<Rightarrow> node list parser" where
  "match_subjects R =
    loopP (\<lambda>subjects.
      bindP (callP R CallExpression) (\<lambda>subject.
      acceptP [TokenComma] (\<lambda>_. thenP newlines (againP (subjects @ [subject])))
        (breakP (subjects @ [subject])))) []"

text \<open>One arm, with the flag \<open>blockBody\<close>: a body that is a block and started with a brace.\<close>

definition match_arm :: "calls \<Rightarrow> bool \<Rightarrow> nat \<Rightarrow> (node MatchArmNode \<times> bool) parser" where
  "match_arm R expression subjects =
    bindP (readP CurrLoc) (\<lambda>armBegin.
    bindP match_patterns (\<lambda>patterns.
    bindP
      (accept_keyword ''if'' (bindP (callP R CallExpression) (\<lambda>g. retP (Some g)))
        (retP None)) (\<lambda>guard.
    thenP (expectP TokenFatArrow ''expected `=>` after match pattern'') (
    if length patterns \<noteq> subjects \<and>
       \<not> (length patterns = 1 \<and> pat_Kind (hd patterns) = MatchPatternWildcard) then
      fail_at armBegin ''match arm has %d patterns for %d subjects''
        [decimal (length patterns), decimal subjects]
    else
      thenP newlines (
      bindP (readP (Parser_Match [TokenOpenCurly])) (\<lambda>bodyStartsWithBlock.
      bindP
        (if \<not> expression \<and> bodyStartsWithBlock then callP R (CallBlock False)
         else callP R CallExpression) (\<lambda>body.
      retP (MatchArmNode patterns guard body (Location_WithEnd armBegin (GetLoc body)),
        is_block body \<and> bodyStartsWithBlock))))))))"

definition match_arms :: "calls \<Rightarrow> bool \<Rightarrow> nat \<Rightarrow> node MatchArmNode list parser" where
  "match_arms R expression subjects =
    loopP (\<lambda>arms.
      ifP (Parser_Match [TokenCloseCurly]) (breakP arms) (
      bindP (match_arm R expression subjects) (\<lambda>(arm, blockBody).
      let arms' = arms @ [arm] in
      ifP (Parser_Match [TokenCloseCurly]) (breakP arms') (
      acceptP [TokenComma] (\<lambda>_. thenP newlines (againP arms')) (
      if \<not> blockBody then fail_prev ''expected `,` after match arm'' []
      else thenP newlines (againP arms')))))) []"

definition ParseMatch :: "calls \<Rightarrow> bool \<Rightarrow> node parser" where
  "ParseMatch R expression =
    bindP (readP CurrLoc) (\<lambda>begin.
    bindP (expect_word TokenKeyword ''match'' ''expected `match`'') (\<lambda>_.
    thenP newlines (
    bindP (match_subjects R) (\<lambda>subjects.
    bindP
      (ifP (\<lambda>p. at_keyword ''as'' p \<and> length subjects \<noteq> 1)
        (fail_here ''a multi-subject match cannot use an `as` binding'' []) (
       accept_keyword ''as''
         (bindP (expect_get TokenIdentifier ''expected binding name after `as`'') (\<lambda>binding.
          retP (tok_Value binding, tok_Loc binding)))
         (retP ([], zero_Location)))) (\<lambda>(bindingName, bindingLoc).
    thenP newlines (
    thenP (expectP TokenOpenCurly ''expected `{` after match subject'') (
    thenP newlines (
    bindP (match_arms R expression (length subjects)) (\<lambda>arms.
    if arms = [] then fail_at begin ''match must declare at least one arm'' []
    else
      thenP (expectP TokenCloseCurly ''expected `}` after match arms'') (
      finish begin (\<lambda>l.
        Expr (MatchNode subjects bindingName bindingLoc arms expression l))))))))))))"

section \<open>Terms\<close>

definition ParseTerm :: "calls \<Rightarrow> node parser" where
  "ParseTerm R =
    bindP (readP CurrLoc) (\<lambda>beginLoc.
    ifP (Parser_Match [TokenPipe, TokenLogicalOr]) (ParseLambdaExpression R) (
    ifP (\<lambda>p. Parser_Match [TokenDot] p \<and> tok_Type (Parser_Next p) = TokenOpenCurly)
      (thenP incP (ParseStructLiteral R None)) (
    ifP (\<lambda>p. Parser_Match [TokenDot] p \<and> tok_Type (Parser_Next p) = TokenIdentifier)
      (thenP incP (
       bindP (readP Parser_Peek) (\<lambda>variant.
       thenP incP (finish beginLoc (\<lambda>l. Expr (EnumLiteralNode (tok_Value variant) l)))))) (
    ifP (at_keyword ''if'') (parseIf R True) (
    ifP (at_keyword ''when'') (parseWhen R WhenExpression) (
    ifP (at_keyword ''match'') (ParseMatch R True) (
    ifP (Parser_Match [TokenOpenCurly]) (callP R (CallBlock True)) (
    ifP (MatchBuiltin ''sizeof'') (ParseSizeOfExpression R) (
    ifP (MatchBuiltin ''alignof'') (ParseAlignOfExpression R) (
    ifP (MatchBuiltin ''offsetof'') (ParseOffsetOfExpression R) (
    ifP (MatchBuiltin ''embed'') ParseEmbedExpression (
    ifP (MatchBuiltin ''asm'') (ParseInlineAsmExpression R) (
    ifP (MatchBuiltin ''repr'')
      (thenP (builtinP ''repr'') (
       thenP (expectP TokenOpenParen ''expected `(` after `@repr`'') (
       bindP (callP R CallExpression) (\<lambda>operand.
       thenP (expectP TokenCloseParen ''expected `)` after `@repr` operand'') (
       finish beginLoc (\<lambda>l. Expr (ReprNode operand l))))))) (
    acceptP [TokenOpenParen]
      (\<lambda>_.
        thenP newlines (
        bindP (callP R CallExpression) (\<lambda>expr.
        thenP newlines (
        thenP (expectP TokenCloseParen ''expected `)`'') (retP expr))))) (
    acceptP [TokenNoInitializer] (\<lambda>_. finish beginLoc (\<lambda>l. Expr (NoInitializerNode l))) (
    ifP (Parser_Match [TokenIdentifier]) ParseIdent (
    ifP (MatchBuiltin ''len'')
      (thenP (builtinP ''len'') (
       thenP newlines (
       thenP (expectP TokenOpenParen ''expected `(` after `@len`'') (
       thenP newlines (
       bindP (callP R CallExpression) (\<lambda>expr.
       thenP newlines (
       thenP (expectP TokenCloseParen ''expected `)` after `@len` expression'') (
       finish beginLoc (\<lambda>l. Expr (UnaryOpNode UnaryOpSliceLen expr l)))))))))) (
    ifP (Parser_Match [TokenOpenSquare]) (ParseSliceLiteral R) (
    accept_keyword ''true'' (finish beginLoc (\<lambda>l. Expr (BoolLiteralNode ''true'' l))) (
    accept_keyword ''false'' (finish beginLoc (\<lambda>l. Expr (BoolLiteralNode ''false'' l))) (
    accept_keyword ''nil'' (finish beginLoc (\<lambda>l. Expr (NilLiteralNode l))) (
    acceptP [TokenNumber]
      (\<lambda>tok. finish beginLoc (\<lambda>l. Expr (IntegerLiteralNode (tok_Value tok) l))) (
    acceptP [TokenFloat]
      (\<lambda>tok. finish beginLoc (\<lambda>l. Expr (FloatLiteralNode (tok_Value tok) l))) (
    acceptP [TokenChar]
      (\<lambda>tok.
        if tok_Value tok = [] then (\<lambda>p. Some (Panicked, p))
        else finish beginLoc (\<lambda>l. Expr (CharLiteralNode (hd (tok_Value tok)) l))) (
    acceptP [TokenString]
      (\<lambda>tok. finish beginLoc (\<lambda>l. Expr (StringLiteralNode (tok_Value tok) l))) (
    acceptP [TokenCString]
      (\<lambda>tok. finish beginLoc (\<lambda>l. Expr (CStringLiteralNode (tok_Value tok) l))) (
    bindP (readP Parser_Peek) (\<lambda>tok.
    fail_here ''unexpected token %s'' [Token_String tok]))))))))))))))))))))))))))))"

section \<open>Postfix operators\<close>

text \<open>
  The name \<open>a.b.c\<close> of a chain of field accesses that starts at an identifier: its module path,
  its last part, and the type arguments of the last field. \<open>parts\<close> holds the names found so far.
\<close>

fun field_chain :: "node \<Rightarrow> (string list \<times> node list \<times> Location) option" where
  "field_chain (Expr (FieldAccessNode s f l)) =
     (case field_chain s of
        None \<Rightarrow> None
      | Some (parts, tas, loc) \<Rightarrow>
          Some (parts @ [ident_Name f],
            (case f of Expr (IdentifierNode n m as l') \<Rightarrow> as | _ \<Rightarrow> []), loc))"
| "field_chain (Expr (IdentifierNode n m as l)) = Some ([n], [], l)"
| "field_chain _ = None"

definition dottedIdentifier :: "node \<Rightarrow> node option" where
  "dottedIdentifier expr =
    (case field_chain expr of
       None \<Rightarrow> None
     | Some (parts, tas, loc) \<Rightarrow>
         if length parts < 2 then None
         else Some (Expr (IdentifierNode (last parts) (join_strings ''.'' (butlast parts)) tas loc)))"

definition qualified_identifier :: "node \<Rightarrow> node option" where
  "qualified_identifier expr = (if is_identifier expr then Some expr else dottedIdentifier expr)"

text \<open>\<open>qualified.TypeArguments = typeArguments; qualified.Loc = p.SpanFrom(qualified.Loc)\<close>\<close>

definition with_type_arguments :: "node \<Rightarrow> node list \<Rightarrow> Location \<Rightarrow> node" where
  "with_type_arguments n tas l =
    (case n of Expr (IdentifierNode nm m as l0) \<Rightarrow> Expr (IdentifierNode nm m tas l) | _ \<Rightarrow> n)"

definition at_struct_literal :: "Parser \<Rightarrow> bool" where
  "at_struct_literal p \<longleftrightarrow> Parser_Match [TokenDot] p \<and> tok_Type (Parser_Next p) = TokenOpenCurly"

definition postfix_call :: "calls \<Rightarrow> node \<Rightarrow> (node + node) parser" where
  "postfix_call R expr =
    bindP
      (speculate (parseCallTypeArguments R)
        (\<lambda>_ p. at_struct_literal p \<and> qualified_identifier expr \<noteq> None)) (\<lambda>typeArguments.
    case typeArguments of
      Some tas \<Rightarrow>
        (case qualified_identifier expr of
           Some qualified \<Rightarrow>
             bindP (SpanFrom (GetLoc qualified)) (\<lambda>l.
             againP (with_type_arguments qualified tas l))
         | None \<Rightarrow> (\<lambda>p. Some (Panicked, p)))
    | None \<Rightarrow>
        bindP (ParseCall R expr) (\<lambda>c.
        againP (call_node expr (if is_identifier expr then Some expr else None) c)))"

definition postfix_index :: "calls \<Rightarrow> Location \<Rightarrow> node \<Rightarrow> (node + node) parser" where
  "postfix_index R beginLoc expr =
    thenP newlines (
    bindP
      (ifP (\<lambda>p. \<not> Parser_Match [TokenColon] p)
        (bindP (callP R CallExpression) (\<lambda>e. retP (Some e))) (retP None)) (\<lambda>first.
    thenP newlines (
    acceptP [TokenColon]
      (\<lambda>_.
        thenP newlines (
        bindP
          (ifP (\<lambda>p. \<not> Parser_Match [TokenCloseSquare] p)
            (bindP (callP R CallExpression) (\<lambda>e. retP (Some e))) (retP None)) (\<lambda>stop.
        thenP newlines (
        thenP (expectP TokenCloseSquare ''expected `]`'') (
        finish beginLoc (\<lambda>l. Inl (Expr (SliceExprNode expr first stop l)))))))) (
    case first of
      None \<Rightarrow> fail_here ''expected index or `:`'' []
    | Some index \<Rightarrow>
        thenP (expectP TokenCloseSquare ''expected `]`'') (
        finish beginLoc (\<lambda>l. Inl (Expr (IndexExprNode expr index l))))))))"

definition postfix_dot :: "calls \<Rightarrow> Location \<Rightarrow> node \<Rightarrow> (node + node) parser" where
  "postfix_dot R beginLoc expr =
    acceptP [TokenAsterisk]
      (\<lambda>_. finish beginLoc (\<lambda>l. Inl (Expr (UnaryOpNode UnaryOpDereference expr l)))) (
    acceptP [TokenAmpersand]
      (\<lambda>_. bindP (optional_keyword ''mut'') (\<lambda>mutable.
        finish beginLoc (\<lambda>l.
          Inl (Expr (UnaryOpNode (if mutable then UnaryOpMutableReference else UnaryOpReference)
            expr l))))) (
    acceptP [TokenOpenParen]
      (\<lambda>_.
        thenP newlines (
        bindP (callP R CallType) (\<lambda>typ.
        thenP newlines (
        thenP (expectP TokenCloseParen ''expected `)`'') (
        finish beginLoc (\<lambda>l. Inl (Expr (CastNode typ expr l)))))))) (
    thenP newlines (
    bindP ParseIdent (\<lambda>field.
    finish beginLoc (\<lambda>l. Inl (Expr (FieldAccessNode expr field l))))))))"

definition ParsePostfix :: "calls \<Rightarrow> node parser" where
  "ParsePostfix R =
    bindP (readP CurrLoc) (\<lambda>beginLoc.
    bindP (ParseTerm R) (
    loopP (\<lambda>expr.
      ifP at_struct_literal
        (case qualified_identifier expr of
           None \<Rightarrow> breakP expr
         | Some qualified \<Rightarrow>
             thenP incP (
             bindP (ParseStructLiteral R (Some qualified)) breakP)) (
      ifP (Parser_Match [TokenOpenParen]) (postfix_call R expr) (
      ifP (MatchAdjacentPair TokenPlus) (fail_here ''use ... += 1 instead'' []) (
      ifP (MatchAdjacentPair TokenMinus) (fail_here ''use ... -= 1 instead'' []) (
      acceptP [TokenOpenSquare] (\<lambda>_. postfix_index R beginLoc expr) (
      acceptP [TokenDot] (\<lambda>_. postfix_dot R beginLoc expr) (
      breakP expr)))))))))"

section \<open>Operators\<close>

definition unary_operators :: "(TokenKind \<times> UnaryOpKind) list" where
  "unary_operators =
    [(TokenExclam, UnaryOpLogicalNot), (TokenMinus, UnaryOpNegate), (TokenTilde, UnaryOpBitwiseNot)]"

definition ParseUnary :: "calls \<Rightarrow> node parser" where
  "ParseUnary R =
    bindP (readP CurrLoc) (\<lambda>beginLoc.
    ifP (MatchAdjacentPair TokenPlus) (fail_at beginLoc ''use ... += 1 instead'' []) (
    ifP (MatchAdjacentPair TokenMinus) (fail_at beginLoc ''use ... -= 1 instead'' []) (
    acceptP (map fst unary_operators)
      (\<lambda>op.
        thenP newlines (
        bindP (callP R CallUnary) (\<lambda>expr.
        finish beginLoc (\<lambda>l.
          Expr (UnaryOpNode (the (map_of unary_operators (tok_Type op))) expr l)))))
      (ParsePostfix R))))"

text \<open>
  One level of left-associative binary operators, given by its table. The methods
  \<open>ParseLogicalOr\<close>, \<open>ParseLogicalAnd\<close>, \<open>ParseComparison\<close>, \<open>ParseAddSub\<close> and \<open>ParseMulDiv\<close> write
  the loop of \<open>parseLeftAssociative\<close> out.
\<close>

definition parseLeftAssociative :: "node parser \<Rightarrow> (TokenKind \<times> BinaryOpKind) list \<Rightarrow> node parser" where
  "parseLeftAssociative parseOperand operators =
    bindP (readP CurrLoc) (\<lambda>beginLoc.
    bindP parseOperand (
    loopP (\<lambda>left.
      acceptP (map fst operators)
        (\<lambda>op.
          thenP newlines (
          bindP parseOperand (\<lambda>right.
          finish beginLoc (\<lambda>l.
            Inl (Expr (BinaryOpNode (the (map_of operators (tok_Type op))) left right l))))))
        (breakP left))))"

definition ParseMulDiv :: "calls \<Rightarrow> node parser" where
  "ParseMulDiv R = parseLeftAssociative (ParseUnary R)
    [(TokenAsterisk, BinaryOpMultiply), (TokenSlash, BinaryOpDivide),
     (TokenPercent, BinaryOpModulo)]"

definition ParseAddSub :: "calls \<Rightarrow> node parser" where
  "ParseAddSub R = parseLeftAssociative (ParseMulDiv R)
    [(TokenPlus, BinaryOpAdd), (TokenMinus, BinaryOpSubtract)]"

definition ParseShift :: "calls \<Rightarrow> node parser" where
  "ParseShift R = parseLeftAssociative (ParseAddSub R)
    [(TokenShiftLeft, BinaryOpShiftLeft), (TokenShiftRight, BinaryOpShiftRight)]"

definition ParseComparison :: "calls \<Rightarrow> node parser" where
  "ParseComparison R = parseLeftAssociative (ParseShift R)
    [(TokenEqualsEquals, BinaryOpEqual), (TokenNotEquals, BinaryOpNotEqual),
     (TokenLess, BinaryOpLess), (TokenGreater, BinaryOpGreater),
     (TokenLessEquals, BinaryOpLessEqual), (TokenGreaterEquals, BinaryOpGreaterEqual)]"

definition ParseBitwiseAnd :: "calls \<Rightarrow> node parser" where
  "ParseBitwiseAnd R = parseLeftAssociative (ParseComparison R)
    [(TokenAmpersand, BinaryOpBitwiseAnd)]"

definition ParseBitwiseXor :: "calls \<Rightarrow> node parser" where
  "ParseBitwiseXor R = parseLeftAssociative (ParseBitwiseAnd R) [(TokenCaret, BinaryOpBitwiseXor)]"

definition ParseBitwiseOr :: "calls \<Rightarrow> node parser" where
  "ParseBitwiseOr R = parseLeftAssociative (ParseBitwiseXor R) [(TokenPipe, BinaryOpBitwiseOr)]"

definition ParseLogicalAnd :: "calls \<Rightarrow> node parser" where
  "ParseLogicalAnd R = parseLeftAssociative (ParseBitwiseOr R)
    [(TokenLogicalAnd, BinaryOpLogicalAnd)]"

definition ParseLogicalOr :: "calls \<Rightarrow> node parser" where
  "ParseLogicalOr R = parseLeftAssociative (ParseLogicalAnd R) [(TokenLogicalOr, BinaryOpLogicalOr)]"

definition ParseExpression :: "calls \<Rightarrow> node parser" where
  "ParseExpression R = ParseLogicalOr R"

end
