(* ===== verification/Parser_Statements.thy ===== *)
theory Parser_Statements
  imports Parser_Expressions
begin

text \<open>
  Blocks, statements and declarations, \<^verbatim>\<open>src/parser/statements.go\<close>.
\<close>

section \<open>Recovery between statements\<close>

definition isStatementStart :: "Token \<Rightarrow> bool" where
  "isStatementStart tok \<longleftrightarrow>
    tok_Type tok = TokenIdentifier \<or> tok_Type tok = TokenOpenCurly \<or>
    tok_Type tok = TokenKeyword \<and>
    tok_Value tok \<in>
      {''let'', ''return'', ''break'', ''continue'', ''defer'', ''if'', ''match'', ''for''}"

function sync_statement_loop :: "nat \<Rightarrow> Parser \<Rightarrow> Parser" where
  "sync_statement_loop depth p =
    (if length (p_tokens p) \<le> p_pos p \<or> Parser_Match [TokenEof] p then p
     else if depth = 0 \<and> Parser_Match [TokenCloseCurly] p then p
     else
       (case Parser_Consume p of (tok, q) \<Rightarrow>
          if tok_Type tok \<in> {TokenOpenParen, TokenOpenSquare, TokenOpenCurly} then
            sync_statement_loop (depth + 1) q
          else if tok_Type tok \<in> {TokenCloseParen, TokenCloseSquare, TokenCloseCurly} then
            sync_statement_loop (if depth > 0 then depth - 1 else depth) q
          else if is_separator (tok_Type tok) \<and> depth = 0 then q
          else sync_statement_loop depth q))"
  by pat_completeness auto
termination
  by (relation "measure (\<lambda>(d, p). length (p_tokens p) - p_pos p)")
    (auto simp: Parser_Consume_def Parser_Inc_def)

declare sync_statement_loop.simps [simp del]

text \<open>\<open>at_boundary\<close> is \<open>atStatementBoundary\<close>, the same test as in \<open>synchroniseTopLevel\<close>.\<close>

definition synchroniseStatement :: "unit parser" where
  "synchroniseStatement =
    thenP clear_stack (
    bindP at_boundary (\<lambda>b.
    ifP (\<lambda>p. b \<and> isStatementStart (Parser_Peek p)) (retP ())
      (\<lambda>p. Some (Parsed (), sync_statement_loop 0 p))))"

section \<open>Blocks\<close>

text \<open>
  In a block that is an expression, the attempt to read the last expression: it has to be
  followed by separators and the closing brace, else the position and the stack are restored.
\<close>

definition tail_expression :: "calls \<Rightarrow> node option parser" where
  "tail_expression R =
    keep_if (bindP (callP R CallExpression) (\<lambda>e. thenP separators (retP e)))
      (Parser_Match [TokenCloseCurly])"

definition block_statements :: "calls \<Rightarrow> bool \<Rightarrow> (node list \<times> parse_error list) parser" where
  "block_statements R expression =
    loopP (\<lambda>(children, errs).
      ifP (Parser_Match [TokenCloseCurly, TokenEof]) (breakP (children, errs)) (
      bindP (if expression then tail_expression R else retP None) (\<lambda>value.
      case value of
        Some expr \<Rightarrow> breakP (children @ [expr], errs)
      | None \<Rightarrow>
          bindP (attemptP (call_statement R)) (\<lambda>r.
          case r of
            Inl e \<Rightarrow> thenP synchroniseStatement (againP (children, errs @ [e]))
          | Inr (stmt, semiNeeded) \<Rightarrow>
              let children' = children @ [stmt] in
              ifP (Parser_Match [TokenCloseCurly]) (breakP (children', errs)) (
              ifP (\<lambda>p. semiNeeded \<and> \<not> Parser_Match [TokenSemicolon, TokenNewline] p)
                (bindP (readP CurrLoc) (\<lambda>l.
                 thenP synchroniseStatement
                   (againP (children',
                      errs @ [ParseError l ''expected `;` or newline to end statement'' []]))))
                (thenP separators (againP (children', errs))))))))
      ([], [])"

definition parseBlock :: "calls \<Rightarrow> bool \<Rightarrow> node parser" where
  "parseBlock R expression =
    bindP (readP CurrLoc) (\<lambda>beginLoc.
    thenP (expectP TokenOpenCurly ''expected `{` to start block'') (
    thenP newlines (
    bindP (block_statements R expression) (\<lambda>(children, errs).
    thenP (expectP TokenCloseCurly ''expected `}` to close block'') (
    bindP (finish beginLoc (\<lambda>l. Expr (BlockNode children expression l))) (\<lambda>block.
    join_errors block errs))))))"

section \<open>Function definitions\<close>

text \<open>\<open>p.allowTypeCapture\<close> is true during \<open>m\<close> and set back afterwards.\<close>

definition with_captures :: "'a parser \<Rightarrow> 'a parser" where
  "with_captures m p =
    (case m (p\<lparr>p_allowTypeCapture := True\<rparr>) of
       None \<Rightarrow> None
     | Some (r, q) \<Rightarrow> Some (r, q\<lparr>p_allowTypeCapture := p_allowTypeCapture p\<rparr>))"

fun is_capture :: "node \<Rightarrow> bool" where
  "is_capture (Type (NamedTypeNode m n as c k l)) = c"
| "is_capture _ = False"

text \<open>A parameterised named type with a captured argument, in outer parentheses.\<close>

definition captured_nominal :: "node \<Rightarrow> bool" where
  "captured_nominal t =
    (case t of Type (NamedTypeNode m n as c k l) \<Rightarrow> list_ex is_capture as | _ \<Rightarrow> False)"

text \<open>
  The scan for the parenthesis that closes the one at the head of the list; the result is
  whether a dot follows it.
\<close>

fun closing_dot :: "nat \<Rightarrow> Token list \<Rightarrow> bool" where
  "closing_dot depth [] = False"
| "closing_dot depth (t # ts) =
    (if tok_Type t = TokenOpenParen then closing_dot (depth + 1) ts
     else if tok_Type t = TokenCloseParen then
       (if depth - 1 = 0 then (case ts of [] \<Rightarrow> False | u # us \<Rightarrow> tok_Type u = TokenDot)
        else closing_dot (depth - 1) ts)
     else closing_dot depth ts)"

definition owner_application :: "Parser \<Rightarrow> bool" where
  "owner_application p \<longleftrightarrow>
    Parser_Match [TokenOpenParen] p \<and> closing_dot 0 (drop (p_pos p) (p_tokens p))"

text \<open>The name, the owner as a name, the owner as a type and the captured type parameters.\<close>

type_synonym owner = "Token \<times> string \<times> node option \<times> node GenericParameterNode list"

definition lift_captures :: "captures \<Rightarrow> node GenericParameterNode list parser" where
  "lift_captures c = (case c of Inl e \<Rightarrow> failP e | Inr gs \<Rightarrow> retP gs)"

definition owner_method :: "node \<Rightarrow> owner parser" where
  "owner_method ownerType =
    bindP (lift_captures (capturedTypeParameters ownerType)) (\<lambda>generics.
    thenP (expectP TokenDot ''expected `.` after method owner type'') (
    bindP (expect_get TokenIdentifier ''expected method name after `.`'') (\<lambda>name.
    retP (name, [], Some ownerType, generics))))"

text \<open>
  Without outer parentheses the name is read first; when it turns out to be applied to types
  (\<open>Name(...).method\<close>), the position goes back to it, which is where it is tested here.
\<close>

definition function_name :: "calls \<Rightarrow> owner parser" where
  "function_name R =
    acceptP [TokenOpenParen]
      (\<lambda>_.
        bindP (with_captures (callP R CallType)) (\<lambda>ownerType.
        thenP (expectP TokenCloseParen ''expected `)` after method owner type'') (
        if captured_nominal ownerType then
          fail_at (GetLoc ownerType)
            ''parameterized nominal method owner uses Type($).method(...) without outer parentheses'' []
        else owner_method ownerType))) (
    ifP (\<lambda>p. Parser_Match [TokenIdentifier] p \<and> owner_application (Parser_Inc p))
      (bindP (with_captures (callP R CallType)) owner_method) (
    bindP (expect_get TokenIdentifier ''expected function name'') (\<lambda>name.
    acceptP [TokenDot]
      (\<lambda>_. bindP (expect_get TokenIdentifier ''expected method name after `.`'') (\<lambda>methodName.
        retP (methodName, tok_Value name, None, [])))
      (retP (name, [], None, [])))))"

definition method_receiver ::
  "string \<Rightarrow> node option \<Rightarrow> (MethodReceiverKind \<times> node FunctionNodeArg list) parser" where
  "method_receiver methodOwner methodOwnerType =
    ifP (\<lambda>p. (methodOwner \<noteq> [] \<or> methodOwnerType \<noteq> None) \<and>
             (Parser_Match [TokenAsterisk] p \<or> at_word TokenIdentifier ''self'' p))
      (bindP (optionalP TokenAsterisk) (\<lambda>pointer.
       bindP (if pointer then optional_keyword ''mut'' else retP False) (\<lambda>mutablePointer.
       bindP (expect_word TokenIdentifier ''self''
                ''method`s first parameter must be self, *self, or *mut self'') (\<lambda>self.
       let ownerType =
             (case methodOwnerType of
                Some t \<Rightarrow> t
              | None \<Rightarrow> Type (NamedTypeNode [] methodOwner [] False None (tok_Loc self)));
           selfType =
             (if pointer then Type (PointerTypeNode ownerType mutablePointer (tok_Loc self))
              else ownerType);
           receiver =
             (if mutablePointer then MethodReceiverMutablePointer
              else if pointer then MethodReceiverPointer else MethodReceiverValue);
           result =
             (receiver,
              [FunctionNodeArg ''self'' (Some selfType) None mutablePointer (tok_Loc self)]) in
       acceptP [TokenComma] (\<lambda>_. retP result) (
       ifP (\<lambda>p. \<not> Parser_Match [TokenCloseParen] p)
         (fail_here ''expected `,` after method receiver'' []) (retP result))))))
      (retP (MethodReceiverNone, []))"

text \<open>One name of a group of parameters, with \<open>mut\<close> and a default.\<close>

definition parameter_name :: "calls \<Rightarrow> node FunctionNodeArg parser" where
  "parameter_name R =
    bindP
      (acceptP [TokenKeyword]
        (\<lambda>kw. if tok_Value kw = ''mut'' then retP True
              else fail_here ''expected either `mut` or argument name'' [])
        (retP False)) (\<lambda>mutable.
    bindP ParseIdent (\<lambda>arg.
    bindP
      (acceptP [TokenEquals]
        (\<lambda>_. bindP (callP R CallExpression) (\<lambda>e. retP (Some e))) (retP None)) (\<lambda>default.
    retP (FunctionNodeArg (ident_Name arg) None default mutable (GetLoc arg)))))"

definition parameter_group :: "calls \<Rightarrow> node FunctionNodeArg list parser" where
  "parameter_group R =
    bindP (parameter_name R) (\<lambda>arg.
    loopP (\<lambda>grp.
      acceptP [TokenColon] (\<lambda>_. breakP grp) (
      thenP (expectP TokenComma ''expected `:` or `,`'') (
      thenP newlines (
      bindP (parameter_name R) (\<lambda>arg. againP (grp @ [arg])))))) [arg])"

definition set_default :: "node FunctionNodeArg \<Rightarrow> node \<Rightarrow> node FunctionNodeArg" where
  "set_default a e = FunctionNodeArg (arg_Name a) (arg_Type a) (Some e) (arg_Mutable a) (arg_Loc a)"

text \<open>The type of a group and the default after it; the flag is \<open>isTypedVariadic\<close>.\<close>

definition group_type ::
  "calls \<Rightarrow> Location \<Rightarrow> node FunctionNodeArg list \<Rightarrow> (node FunctionNodeArg list \<times> bool) parser" where
  "group_type R beginLoc grp =
    ifP (\<lambda>p. Parser_Match [Token3Dots] p \<and> length grp \<noteq> 1)
      (fail_here ''typed variadic parameter cannot use a grouped declaration'' []) (
    bindP (optionalP Token3Dots) (\<lambda>isTypedVariadic.
    bindP (callP R CallType) (\<lambda>argType.
    if isTypedVariadic \<and> arg_Default (hd grp) \<noteq> None then
      fail_at beginLoc ''typed variadic parameter cannot have a default'' []
    else
      let t = (if isTypedVariadic then Type (SliceTypeNode argType False (GetLoc argType))
               else argType) in
      bindP
        (ifP (\<lambda>p. Parser_Match [TokenEquals] p \<and> arg_Default (last grp) \<noteq> None)
          (fail_here ''parameter default cannot be specified both before and after its type'' []) (
         acceptP [TokenEquals]
           (\<lambda>_. bindP (callP R CallExpression) (\<lambda>e.
             retP (butlast grp @ [set_default (last grp) e])))
           (retP grp))) (\<lambda>grp'.
      retP (map (set_arg_type t) grp', isTypedVariadic)))))"

type_synonym parameters =
  "node FunctionNodeArg list \<times> node GenericParameterNode list \<times> bool \<times> bool"

text \<open>The parameters, the type parameters, and the flags \<open>variadic\<close> and \<open>typedVariadic\<close>.\<close>

definition function_parameters ::
  "calls \<Rightarrow> Location \<Rightarrow> node FunctionNodeArg list \<Rightarrow> node GenericParameterNode list
    \<Rightarrow> parameters parser" where
  "function_parameters R beginLoc args0 generics0 =
    loopP (\<lambda>(args, generics).
      ifP (Parser_Match [TokenCloseParen]) (breakP (args, generics, False, False)) (
      thenP newlines (
      ifP (Parser_Match [TokenCloseParen]) (breakP (args, generics, False, False)) (
      acceptP [Token3Dots]
        (\<lambda>_. bindP (optionalP TokenComma) (\<lambda>_. breakP (args, generics, True, False))) (
      bindP (parseTypeParameter R) (\<lambda>matched.
      case matched of
        Some parameter \<Rightarrow>
          if gen_Name parameter \<in> set (map gen_Name generics) then
            fail_at (gen_Loc parameter) ''duplicate type parameter %q'' [gen_Name parameter]
          else
            let generics' = generics @ [parameter] in
            acceptP [TokenComma] (\<lambda>_. againP (args, generics')) (
            ifP (\<lambda>p. \<not> Parser_Match [TokenCloseParen] p)
              (fail_here ''expected `,` or `)` after type parameter'' [])
              (againP (args, generics')))
      | None \<Rightarrow>
          bindP (parameter_group R) (\<lambda>grp.
          bindP (group_type R beginLoc grp) (\<lambda>(grp', isTypedVariadic).
          let args' = args @ grp' in
          if isTypedVariadic then
            ifP (Parser_Match [TokenComma])
              (fail_here ''typed variadic parameter must be last'' [])
              (breakP (args', generics, False, True))
          else
            acceptP [TokenComma] (\<lambda>_. againP (args', generics))
              (breakP (args', generics, False, False)))))))))) (args0, generics0)"

definition function_body :: "calls \<Rightarrow> (node option \<times> bool) parser" where
  "function_body R =
    thenP newlines (
    ifP (Parser_Match [TokenOpenCurly])
      (bindP (callP R (CallBlock False)) (\<lambda>b. retP (Some b, False))) (
    acceptP [TokenEquals]
      (\<lambda>_. thenP newlines (bindP (expression_body R) (\<lambda>b. retP (Some b, True))))
      (fail_prev
        ''expected function body as either block or expression after `=`'' [])))"

definition ParseFunctionDefinition :: "calls \<Rightarrow> node parser" where
  "ParseFunctionDefinition R =
    bindP (readP CurrLoc) (\<lambda>beginLoc.
    accept_keyword ''let''
      (bindP (function_name R) (\<lambda>(name, methodOwner, methodOwnerType, captured).
       thenP (expectP TokenOpenParen ''expected `(`'') (
       thenP newlines (
       bindP (method_receiver methodOwner methodOwnerType) (\<lambda>(receiver, args0).
       bindP (function_parameters R beginLoc args0 captured)
         (\<lambda>(args, generics, variadic, typedVariadic).
       thenP newlines (
       thenP (expectP TokenCloseParen ''expected `)`'') (
       bindP
         (acceptP [TokenColon]
           (\<lambda>_. bindP (parseFunctionReturnType R) (\<lambda>t. retP (Some t))) (retP None)) (\<lambda>retType.
       thenP newlines (
       bindP (parseAttributes R (tok_Value name)) (\<lambda>attrs.
       bindP
         (if has_attribute attrs AttributeTypeForeign then retP (None, False)
          else function_body R) (\<lambda>(body, expressionBody).
       finish beginLoc (\<lambda>l.
         Stmt (FunctionDefNode
           (FunctionDef (tok_Value name) methodOwner methodOwnerType [] receiver generics args
              retType body expressionBody variadic typedVariadic False attrs l)))))))))))))))
      (fail_prev ''expected `let` keyword'' []))"

end
