(* ===== verification/Parser.thy ===== *)
theory Parser
  imports Parser_Statements
begin

text \<open>
  Statements and declarations that contain statements (\<^verbatim>\<open>src/parser/statements.go\<close>), the recursion of
  all methods, and the loop over the declarations of a file (\<^verbatim>\<open>src/parser/parser.go\<close>).
\<close>

section \<open>Declarations\<close>

definition ParseTypeAlias :: "calls \<Rightarrow> node parser" where
  "ParseTypeAlias R =
    bindP (readP CurrLoc) (\<lambda>beginLoc.
    accept_keyword ''let''
      (bindP (expect_get TokenIdentifier ''expected type alias name'') (\<lambda>name.
       bindP
         (acceptP [TokenOpenParen]
           (\<lambda>_.
             bindP
               (loopP (\<lambda>generics.
                  ifP (Parser_Match [TokenCloseParen]) (breakP generics) (
                  bindP (parseTypeParameter R) (\<lambda>matched.
                  case matched of
                    None \<Rightarrow>
                      fail_here
                        ''type-producing bindings only accept parameters of type `type`'' []
                  | Some parameter \<Rightarrow>
                      acceptP [TokenComma] (\<lambda>_. againP (generics @ [parameter]))
                        (breakP (generics @ [parameter]))))) []) (\<lambda>generics.
             thenP (expectP TokenCloseParen ''expected `)` after type parameters'')
               (retP generics)))
           (retP [])) (\<lambda>generics.
       thenP (expectP TokenEquals ''expected `=`'') (
       accept_keyword ''type''
         (bindP (optional_keyword ''alias'') (\<lambda>transparent.
          bindP (callP R CallType) (\<lambda>tpe.
          finish beginLoc (\<lambda>l.
            Stmt (TypeAliasNode (tok_Value name) generics tpe transparent False l)))))
         (fail_prev ''expected `type` keyword'' [])))))
      (fail_prev ''expected `let` keyword'' []))"

text \<open>The path and its last part.\<close>

definition parseModulePath :: "(string \<times> string) parser" where
  "parseModulePath =
    bindP (expect_get TokenIdentifier ''expected module name'') (\<lambda>first.
    loopP (\<lambda>parts.
      acceptP [TokenDot]
        (\<lambda>_. bindP (expect_get TokenIdentifier ''expected module name after `.`'') (\<lambda>part.
          againP (parts @ [tok_Value part])))
        (breakP (join_strings ''.'' parts, last parts))) [tok_Value first])"

definition import_entry :: "(string \<times> string) parser" where
  "import_entry =
    bindP parseModulePath (\<lambda>(name, _).
    acceptP [TokenIdentifier] (\<lambda>tok. retP (name, tok_Value tok)) (retP (name, [])))"

definition ParseImport :: "node parser" where
  "ParseImport =
    bindP (readP CurrLoc) (\<lambda>beginLoc.
    bindP (expect_word TokenKeyword ''import'' ''expected `import` keyword'') (\<lambda>_.
    bindP
      (acceptP [TokenOpenParen]
        (\<lambda>_.
          loopP (\<lambda>(modules, aliases).
            thenP newlines (
            acceptP [TokenCloseParen] (\<lambda>_. breakP (modules, aliases)) (
            bindP import_entry (\<lambda>(name, alias).
            let s = (modules @ [name], aliases @ [alias]) in
            acceptP [TokenComma] (\<lambda>_. thenP newlines (againP s)) (
            acceptP [TokenNewline] (\<lambda>_. againP s) (
            acceptP [TokenCloseParen] (\<lambda>_. breakP s) (
            fail_prev ''expected `,`, newline, or `)`'' []))))))) ([], []))
        (bindP import_entry (\<lambda>(name, alias). retP ([name], [alias])))) (\<lambda>(modules, aliases).
    finish beginLoc (\<lambda>l. Stmt (ImportNode modules aliases l)))))"

definition ParseModule :: "calls \<Rightarrow> node parser" where
  "ParseModule R =
    bindP (readP CurrLoc) (\<lambda>beginLoc.
    bindP (expect_word TokenKeyword ''module'' ''expected `module` keyword'') (\<lambda>_.
    bindP parseModulePath (\<lambda>(name, _).
    bindP (parseAttributes R name) (\<lambda>attrs.
    finish beginLoc (\<lambda>l. Stmt (ModuleNode name attrs l))))))"

definition ParseDeclaration :: "calls \<Rightarrow> node parser" where
  "ParseDeclaration R =
    bindP (readP CurrLoc) (\<lambda>beginLoc.
    bindP (expect_word TokenKeyword ''let'' ''expected let keyword'') (\<lambda>_.
    bindP (optional_keyword ''mut'') (\<lambda>mutable.
    bindP (optionalP TokenDollar) (\<lambda>compileTime.
    if mutable \<and> compileTime then
      fail_prev ''compile-time bindings cannot be mutable'' []
    else
      bindP (expect_get TokenIdentifier ''expected name'') (\<lambda>ident.
      bindP
        (acceptP [TokenColon] (\<lambda>_. bindP (callP R CallType) (\<lambda>t. retP (Some t)))
          (retP None)) (\<lambda>tpe.
      bindP
        (acceptP [TokenEquals]
          (\<lambda>_. thenP newlines (bindP (callP R CallExpression) (\<lambda>e. retP (Some e))))
          (retP None)) (\<lambda>value.
      bindP (parseAttributes R (tok_Value ident)) (\<lambda>attrs.
      if value = None \<and> attrs = [] then
        fail_prev ''expected `=` or declaration attribute'' []
      else if value = None \<and> has_attribute attrs AttributeTypeForeign \<and> tpe = None then
        fail_at (tok_Loc ident) ''external declaration requires a type annotation'' []
      else
        finish beginLoc (\<lambda>l.
          Stmt (DeclarationNode (tok_Value ident) (tok_Loc ident) mutable False tpe value
            compileTime attrs l))))))))))"

definition isMultiResultSource :: "node \<Rightarrow> bool" where
  "isMultiResultSource v =
    (case v of
       Expr (FunctionCallNode c n as x l) \<Rightarrow> True
     | Expr (CastNode t e l) \<Rightarrow> True
     | Expr (InlineAsmNode t os is cs x l) \<Rightarrow> True
     | _ \<Rightarrow> False)"

definition parseMultiDeclaration :: "calls \<Rightarrow> node parser" where
  "parseMultiDeclaration R =
    bindP (readP CurrLoc) (\<lambda>loc.
    thenP incP (
    bindP (optional_keyword ''mut'') (\<lambda>mutable.
    bindP
      (loopP (\<lambda>(names, nameLocs).
         bindP (expect_get TokenIdentifier ''expected declaration name'') (\<lambda>ident.
         let s = (names @ [tok_Value ident], nameLocs @ [tok_Loc ident]) in
         acceptP [TokenComma] (\<lambda>_. againP s) (breakP s))) ([], [])) (\<lambda>(names, nameLocs).
    thenP (expectP TokenEquals ''expected `=` after declaration names'') (
    thenP newlines (
    bindP (callP R CallExpression) (\<lambda>value.
    if \<not> isMultiResultSource value then
      fail_at (GetLoc value)
        ''multiple declaration requires a function call, checked cast, or inline assembly expression'' []
    else finish loc (\<lambda>l. Stmt (MultiDeclarationNode names nameLocs mutable value l)))))))))"

section \<open>Assignments and control\<close>

definition ParseAssignment :: "calls \<Rightarrow> node \<Rightarrow> node parser" where
  "ParseAssignment R subj =
    thenP newlines (
    bindP (callP R CallExpression) (\<lambda>expr.
    retP (Stmt (AssignmentNode (Some subj) [] expr False
      (Location_WithEnd (GetLoc subj) (GetLoc expr))))))"

definition compound_operators :: "(TokenKind \<times> BinaryOpKind) list" where
  "compound_operators =
    [(TokenIncBy, BinaryOpAdd), (TokenDecBy, BinaryOpSubtract), (TokenMulBy, BinaryOpMultiply),
     (TokenDivBy, BinaryOpDivide), (TokenModBy, BinaryOpModulo),
     (TokenBitwiseAndBy, BinaryOpBitwiseAnd), (TokenBitwiseOrBy, BinaryOpBitwiseOr),
     (TokenBitwiseXorBy, BinaryOpBitwiseXor), (TokenShiftLeftBy, BinaryOpShiftLeft),
     (TokenShiftRightBy, BinaryOpShiftRight)]"

definition ParseCompoundAssignment :: "calls \<Rightarrow> Token \<Rightarrow> node \<Rightarrow> node parser" where
  "ParseCompoundAssignment R opTok subj =
    (case map_of compound_operators (tok_Type opTok) of
       None \<Rightarrow>
         fail_at (tok_Loc opTok) ''unexpected compound assignment operator %s'' [Token_String opTok]
     | Some op \<Rightarrow>
         thenP newlines (
         bindP (callP R CallExpression) (\<lambda>expr.
         let l = Location_WithEnd (GetLoc subj) (GetLoc expr) in
         retP (Stmt (AssignmentNode (Some subj) [] (Expr (BinaryOpNode op subj expr l)) True l)))))"

definition ParseDefer :: "calls \<Rightarrow> node parser" where
  "ParseDefer R =
    bindP (readP CurrLoc) (\<lambda>loc.
    bindP (expect_word TokenKeyword ''defer'' ''expected `defer`'') (\<lambda>_.
    thenP newlines (
    bindP (ifP (Parser_Match [TokenOpenCurly]) (callP R (CallBlock False))
             (callP R CallExpression)) (\<lambda>action.
    finish loc (\<lambda>l. Stmt (DeferNode action l))))))"

definition ParseControlKeyword :: "calls \<Rightarrow> node parser" where
  "ParseControlKeyword R =
    bindP (readP CurrLoc) (\<lambda>loc.
    bindP (expect_get TokenKeyword ''expected `return`, `break` or `continue`'') (\<lambda>kw.
    if tok_Value kw \<notin> {''return'', ''break'', ''continue''} then
      fail_prev ''expected `return`, `break` or `continue`'' []
    else
      bindP
        (ifP (\<lambda>p. tok_Value kw = ''return'' \<and> \<not> Parser_Match [TokenNewline, TokenSemicolon] p)
          (bindP (callP R CallExpression) (\<lambda>first.
           loopP (\<lambda>exprs.
             acceptP [TokenComma]
               (\<lambda>_. bindP (callP R CallExpression) (\<lambda>e. againP (exprs @ [e])))
               (breakP exprs)) [first]))
          (retP [])) (\<lambda>exprs.
      finish loc (\<lambda>l.
        Stmt (ControlKeywordNode (tok_Value kw) (case exprs of [] \<Rightarrow> None | e # es \<Rightarrow> Some e)
          exprs l)))))"

section \<open>Loops\<close>

text \<open>The destructured names after the opening parenthesis, up to the closing one.\<close>

fun binding_list :: "Token list \<Rightarrow> Token list option" where
  "binding_list (t # u # ts) =
    (if tok_Type t \<noteq> TokenIdentifier then None
     else if tok_Type u = TokenCloseParen then Some ts
     else if tok_Type u = TokenComma then binding_list ts
     else None)"
| "binding_list _ = None"

definition header_reference :: "Token list \<Rightarrow> Token list" where
  "header_reference ts =
    (case ts of
       t # u # us \<Rightarrow>
         if tok_Type t = TokenDot \<and> tok_Type u = TokenAmpersand then
           (case us of
              v # vs \<Rightarrow> if tok_Type v = TokenKeyword \<and> tok_Value v = ''mut'' then vs else us
            | [] \<Rightarrow> us)
         else ts
     | _ \<Rightarrow> ts)"

definition header_index :: "Token list \<Rightarrow> Token list option" where
  "header_index ts =
    (case ts of
       t # us \<Rightarrow>
         if tok_Type t = TokenComma then
           (case us of
              u # vs \<Rightarrow> if tok_Type u = TokenIdentifier then Some vs else None
            | [] \<Rightarrow> None)
         else Some ts
     | [] \<Rightarrow> Some ts)"

definition matchesRangeOrForEachHeader :: "Parser \<Rightarrow> bool" where
  "matchesRangeOrForEachHeader p =
    (case (case drop (p_pos p) (p_tokens p) of
             [] \<Rightarrow> None
           | t # ts \<Rightarrow>
               if tok_Type t = TokenOpenParen then binding_list ts
               else if tok_Type t = TokenIdentifier then Some ts
               else None) of
       None \<Rightarrow> False
     | Some ts \<Rightarrow>
         (case header_index (header_reference ts) of
            Some (u # us) \<Rightarrow> tok_Type u = TokenKeyword \<and> tok_Value u = ''in''
          | _ \<Rightarrow> False))"

definition parseIterationAttributes :: "bool parser" where
  "parseIterationAttributes =
    loopP (\<lambda>reversed.
      acceptP [TokenAt]
        (\<lambda>_. bindP ParseIdent (\<lambda>name.
          if ident_Name name \<noteq> ''reversed'' then
            fail_at (GetLoc name) ''unknown iteration attribute @%s'' [ident_Name name]
          else if reversed then
            fail_at (GetLoc name) ''duplicate iteration attribute @reversed'' []
          else againP True))
        (breakP reversed)) False"

definition destructure_names :: "(string \<times> Location) list parser" where
  "destructure_names =
    loopP (\<lambda>bs.
      bindP (expect_get TokenIdentifier ''expected destructuring binding name'') (\<lambda>binding.
      let bs' = bs @ [(tok_Value binding, tok_Loc binding)] in
      acceptP [TokenCloseParen] (\<lambda>_. breakP bs') (
      thenP (expectP TokenComma ''expected `,` or `)` in destructuring pattern'')
        (againP bs')))) []"

definition element_kind :: "Token option \<Rightarrow> ForEachElementKind parser" where
  "element_kind name =
    ifP (\<lambda>p. name \<noteq> None \<and> Parser_Match [TokenDot] p \<and> tok_Type (Parser_Next p) = TokenAmpersand)
      (thenP incP (thenP incP (
       bindP (optional_keyword ''mut'') (\<lambda>mutable.
       retP (if mutable then ForEachElementMutablePointer else ForEachElementPointer)))))
      (retP ForEachElementValue)"

definition token_or_empty :: "Token option \<Rightarrow> string \<times> Location" where
  "token_or_empty t =
    (case t of None \<Rightarrow> ([], zero_Location) | Some t \<Rightarrow> (tok_Value t, tok_Loc t))"

definition parseRangeOrForEach :: "calls \<Rightarrow> Location \<Rightarrow> node parser" where
  "parseRangeOrForEach R beginLoc =
    bindP
      (acceptP [TokenOpenParen] (\<lambda>_. bindP destructure_names (\<lambda>bs. retP (None, bs)))
        (bindP (expect_get TokenIdentifier ''expected loop variable name'') (\<lambda>t.
         retP (Some t, [])))) (\<lambda>(name, destructure).
    bindP (element_kind name) (\<lambda>elementKind.
    bindP
      (acceptP [TokenComma]
        (\<lambda>_. bindP (expect_get TokenIdentifier ''expected index variable name after `,`'') (\<lambda>t.
          retP (Some t)))
        (retP None)) (\<lambda>indexName.
    bindP (expect_word TokenKeyword ''in'' ''expected `in` in for loop'') (\<lambda>_.
    bindP (callP R CallExpression) (\<lambda>iterable.
    acceptP [Token2Dots]
      (\<lambda>_.
        bindP (optionalP TokenEquals) (\<lambda>inclusive.
        bindP (callP R CallExpression) (\<lambda>stop.
        if indexName \<noteq> None then
          fail_at (snd (token_or_empty indexName)) ''range iteration accepts exactly one variable'' []
        else if destructure \<noteq> [] then
          fail_at (snd (hd destructure)) ''range iteration does not support destructuring'' []
        else if elementKind \<noteq> ForEachElementValue then
          fail_at (snd (token_or_empty name))
            ''range iteration does not support element pointer bindings'' []
        else
          bindP parseIterationAttributes (\<lambda>reversed.
          bindP (callP R (CallBlock False)) (\<lambda>body.
          finish beginLoc (\<lambda>l.
            case token_or_empty name of (n, nl) \<Rightarrow>
              Stmt (RangeForNode n nl iterable stop inclusive reversed body l)))))))
      (bindP parseIterationAttributes (\<lambda>reversed.
       bindP (callP R (CallBlock False)) (\<lambda>body.
       finish beginLoc (\<lambda>l.
         case token_or_empty name of (n, nl) \<Rightarrow>
         case token_or_empty indexName of (i, il) \<Rightarrow>
           Stmt (ForEachNode n nl destructure elementKind i il iterable reversed body l))))))))))"

definition ParseForLoop :: "calls \<Rightarrow> node parser" where
  "ParseForLoop R =
    bindP (readP CurrLoc) (\<lambda>beginLoc.
    thenP (expectP TokenKeyword ''expected `for`'') (
    thenP newlines (
    ifP matchesRangeOrForEachHeader (parseRangeOrForEach R beginLoc) (
    bindP
      (loopP (\<lambda>exprsOrStmts.
         ifP (Parser_Match [TokenOpenCurly]) (breakP exprsOrStmts) (
         bindP
           (or_else (bindP (call_statement R) (\<lambda>(n, _). retP n)) (callP R CallExpression)) (\<lambda>n.
         let exprsOrStmts' = exprsOrStmts @ [n] in
         ifP (Parser_Match [TokenOpenCurly]) (breakP exprsOrStmts') (
         thenP (expectP TokenSemicolon ''expected `;` to end statement or expression'') (
         thenP newlines (againP exprsOrStmts')))))) []) (\<lambda>exprsOrStmts.
    thenP newlines (
    bindP (callP R (CallBlock False)) (\<lambda>body.
    finish beginLoc (\<lambda>l. Stmt (ForNode exprsOrStmts body l)))))))))"

section \<open>Statements\<close>

definition tokenContinuesExpression :: "Parser \<Rightarrow> bool" where
  "tokenContinuesExpression =
    Parser_Match
      [TokenOpenParen, TokenOpenSquare, TokenDot, TokenAsterisk, TokenSlash, TokenPercent,
       TokenPlus, TokenMinus, TokenShiftLeft, TokenShiftRight, TokenLess, TokenLessEquals,
       TokenGreater, TokenGreaterEquals, TokenEqualsEquals, TokenNotEquals, TokenAmpersand,
       TokenLogicalAnd, TokenPipe, TokenLogicalOr, TokenCaret]"

text \<open>
  The scan of \<open>bindingParametersIntroduce\<close> over the parameters of a binding. Its position is
  pushed first and popped on every path, so only its result matters.
\<close>

function binding_scan :: "string \<Rightarrow> int \<Rightarrow> Parser \<Rightarrow> bool" where
  "binding_scan initializer depth p =
    (if length (p_tokens p) \<le> p_pos p \<or> Parser_Match [TokenEof] p then False
     else if Parser_Match [TokenOpenParen] p then
       binding_scan initializer (depth + 1) (Parser_Inc p)
     else if Parser_Match [TokenCloseParen] p then
       if depth - 1 = 0 then
         (let q = skip_kinds [TokenNewline] (Parser_Inc p)
          in Parser_Match [TokenEquals] q \<and>
             tok_Value (Parser_Peek (skip_kinds [TokenNewline] (Parser_Inc q))) = initializer)
       else binding_scan initializer (depth - 1) (Parser_Inc p)
     else binding_scan initializer depth (Parser_Inc p))"
  by pat_completeness auto
termination
  by (relation "measure (\<lambda>(i, d, p). length (p_tokens p) - p_pos p)") (auto simp: Parser_Inc_def)

declare binding_scan.simps [simp del]

definition bindingParametersIntroduce :: "string \<Rightarrow> Parser \<Rightarrow> bool" where
  "bindingParametersIntroduce initializer p =
    (if \<not> at_keyword ''let'' p then False
     else
       (let p1 = Parser_Inc p;
            p2 = (if at_keyword ''mut'' p1 then Parser_Inc p1 else p1)
        in case Parser_Expect TokenIdentifier p2 of (ok, q) \<Rightarrow>
             if \<not> ok \<or> \<not> Parser_Match [TokenOpenParen] q then False
             else binding_scan initializer 0 q))"

datatype let_form = LetDeclaration | LetFunction | LetTypeAlias | LetMultiple

text \<open>
  The look ahead after \<open>let\<close>, which decides the form of the binding. The position is popped when
  the form is known; the errors leave it pushed.
\<close>

definition let_lookahead :: "let_form parser" where
  "let_lookahead p =
    (let p1 = Parser_Inc (PushPos p);
         mutable = at_keyword ''mut'' p1;
         p2 = (if mutable then Parser_Inc p1 else p1);
         unless_mutable = (if mutable then LetDeclaration else LetFunction)
     in if Parser_Match [TokenDollar] p2 then Some (Parsed LetDeclaration, PopPos p2)
        else if Parser_Match [TokenOpenParen] p2 then Some (Parsed unless_mutable, PopPos p2)
        else
          (case Parser_Expect TokenIdentifier p2 of (ok, q) \<Rightarrow>
             if \<not> ok then fail_prev ''expected name'' [] q
             else if Parser_Match [TokenOpenParen] q then
               (let r = PopPos q
                in if bindingParametersIntroduce ''type'' r then Some (Parsed LetTypeAlias, r)
                   else Some (Parsed unless_mutable, r))
             else if Parser_Match [TokenDot] q then Some (Parsed unless_mutable, PopPos q)
             else if Parser_Match [TokenColon] q then Some (Parsed LetDeclaration, PopPos q)
             else if Parser_Match [TokenEquals] q then
               (let r = Parser_Inc q
                in if at_keyword ''type'' r then Some (Parsed LetTypeAlias, PopPos r)
                   else Some (Parsed LetDeclaration, PopPos r))
             else if Parser_Match [TokenComma] q then Some (Parsed LetMultiple, PopPos q)
             else fail_prev ''invalid let statement'' [] q))"

definition let_statement :: "calls \<Rightarrow> node parser" where
  "let_statement R =
    bindP let_lookahead (\<lambda>form.
    case form of
      LetDeclaration \<Rightarrow> ParseDeclaration R
    | LetFunction \<Rightarrow> ParseFunctionDefinition R
    | LetTypeAlias \<Rightarrow> ParseTypeAlias R
    | LetMultiple \<Rightarrow> parseMultiDeclaration R)"

definition multiple_assignment :: "calls \<Rightarrow> node \<Rightarrow> node parser" where
  "multiple_assignment R expr =
    bindP
      (loopP (\<lambda>assignees.
         acceptP [TokenComma] (\<lambda>_. bindP ParseIdent (\<lambda>ident. againP (assignees @ [ident])))
           (breakP assignees)) [expr]) (\<lambda>assignees.
    thenP (expectP TokenEquals ''expected `=` after assignment targets'') (
    bindP (callP R CallExpression) (\<lambda>value.
    if \<not> isMultiResultSource value then
      fail_at (GetLoc value) ''multiple assignment requires a function call or checked cast'' []
    else
      retP (Stmt (AssignmentNode None assignees value False
        (Location_WithEnd (GetLoc expr) (GetLoc value)))))))"

definition expression_statement :: "calls \<Rightarrow> (node \<times> bool) parser" where
  "expression_statement R =
    bindP (callP R CallExpression) (\<lambda>expr.
    bindP
      (ifP (Parser_Match [TokenComma]) (multiple_assignment R expr) (
       acceptP [TokenEquals] (\<lambda>_. ParseAssignment R expr) (
       acceptP (map fst compound_operators) (\<lambda>op. ParseCompoundAssignment R op expr) (
       retP expr)))) (\<lambda>n. retP (n, True)))"

definition with_semicolon :: "bool \<Rightarrow> node parser \<Rightarrow> (node \<times> bool) parser" where
  "with_semicolon b m = bindP m (\<lambda>n. retP (n, b))"

definition ParseStatement :: "calls \<Rightarrow> (node \<times> bool) parser" where
  "ParseStatement R =
    ifP at_directive (with_semicolon True (parseCompilerDirective R)) (
    ifP (at_keyword ''let'') (with_semicolon True (let_statement R)) (
    ifP (\<lambda>p. at_keyword ''return'' p \<or> at_keyword ''break'' p \<or> at_keyword ''continue'' p)
      (with_semicolon True (ParseControlKeyword R)) (
    ifP (at_keyword ''defer'') (with_semicolon True (ParseDefer R)) (
    ifP (at_keyword ''if'') (with_semicolon False (parseIf R False)) (
    ifP (at_keyword ''match'')
      (unless_from (with_semicolon False (ParseMatch R False)) tokenContinuesExpression
        (expression_statement R)) (
    ifP (at_keyword ''for'') (with_semicolon False (ParseForLoop R)) (
    ifP (at_keyword ''when'') (with_semicolon False (parseWhen R WhenStatements)) (
    ifP (Parser_Match [TokenKeyword])
      (bindP (readP Parser_Peek) (\<lambda>t. fail_here ''unexpected keyword: %s'' [tok_Value t])) (
    ifP (Parser_Match [TokenOpenCurly])
      (with_semicolon True (callP R (CallBlock False)))
      (expression_statement R))))))))))"

section \<open>The top level\<close>

text \<open>
  The flag \<open>Pub\<close> and the location of a public declaration; \<open>None\<close> for a node that cannot be
  public.
\<close>

definition set_public :: "bool \<Rightarrow> Location \<Rightarrow> node \<Rightarrow> node option" where
  "set_public public startLoc n =
    (let at = (\<lambda>l. if public then Location_WithEnd startLoc l else l)
     in case n of
          Stmt (FunctionDefNode (FunctionDef nm ow owt ogs rc gs as rt b eb hv tv p attrs l)) \<Rightarrow>
            Some (Stmt (FunctionDefNode
              (FunctionDef nm ow owt ogs rc gs as rt b eb hv tv public attrs (at l))))
        | Stmt (DeclarationNode nm nl m p t v c attrs l) \<Rightarrow>
            Some (Stmt (DeclarationNode nm nl m public t v c attrs (at l)))
        | Stmt (TypeAliasNode nm gs t tr p l) \<Rightarrow>
            Some (Stmt (TypeAliasNode nm gs t tr public (at l)))
        | _ \<Rightarrow> if public then None else Some n)"

definition parseTopLevel :: "calls \<Rightarrow> node parser" where
  "parseTopLevel R =
    bindP (readP CurrLoc) (\<lambda>startLoc.
    let e = ParseError startLoc
      ''expected function definition, constant definition, type alias or import statement'' [] in
    ifP at_directive (parseCompilerDirective R) (
    ifP (\<lambda>p. \<not> Parser_Match [TokenKeyword] p) (failP e) (
    bindP (optional_keyword ''pub'') (\<lambda>isPublic.
    ifP (\<lambda>p. isPublic \<and> \<not> at_keyword ''let'' p) (failP e) (
    bindP
      (ifP (at_keyword ''let'') (bindP (call_statement R) (\<lambda>(n, _). retP n)) (
       ifP (at_keyword ''import'') ParseImport (
       ifP (at_keyword ''module'') (ParseModule R) (
       ifP (at_keyword ''when'') (parseWhen R WhenDeclarations) (
       failP e))))) (\<lambda>node.
    case set_public isPublic startLoc node of
      Some n \<Rightarrow> retP n
    | None \<Rightarrow> failP e))))))"

section \<open>The recursion\<close>

definition as_node :: "node parser \<Rightarrow> reply parser" where
  "as_node m = bindP m (\<lambda>n. retP (Node n True))"

definition parse_step :: "calls \<Rightarrow> calls" where
  "parse_step R c =
    (case c of
       CallExpression \<Rightarrow> as_node (ParseExpression R)
     | CallUnary \<Rightarrow> as_node (ParseUnary R)
     | CallType \<Rightarrow> as_node (ParseType R)
     | CallBlock expression \<Rightarrow> as_node (parseBlock R expression)
     | CallStatement \<Rightarrow> bindP (ParseStatement R) (\<lambda>(n, b). retP (Node n b))
     | CallTopLevel \<Rightarrow> as_node (parseTopLevel R)
     | CallLinkItems close \<Rightarrow>
         bindP (parseLinkItems R close) (\<lambda>(items, conditional). retP (LinkItems items conditional)))"

end
