(* ===== verification/Parser_Files.thy ===== *)
theory Parser_Files
  imports Parser
begin

named_theorems parser_mono \<open>monotonicity of parser methods in the recursive calls\<close>

lemma mono_optionI:
  fixes F :: "('a \<Rightarrow> 'b option) \<Rightarrow> ('c \<times> 'd) option"
  assumes "\<And>f g r q. fun_ord option_ord f g \<Longrightarrow> F f = Some (r, q) \<Longrightarrow> F g = Some (r, q)"
  shows "mono_option F"
proof (rule monotoneI)
  fix f g :: "'a \<Rightarrow> 'b option" assume "fun_ord option_ord f g"
  then show "option_ord (F f) (F g)"
    using assms [of f g] by (cases "F f") (auto simp: flat_ord_def)
qed

lemma mono_optionD:
  "mono_option F \<Longrightarrow> fun_ord option_ord f g \<Longrightarrow> F f = Some r \<Longrightarrow> F g = Some r"
  by (fastforce simp: monotone_def flat_ord_def)

lemma const_parser_mono [parser_mono]: "mono_option (\<lambda>f. c)"
  by (rule option.const_mono)

lemma bindP_mono [parser_mono]:
  assumes "\<And>p. mono_option (\<lambda>f. m f p)" "\<And>a p. mono_option (\<lambda>f. k f a p)"
  shows "mono_option (\<lambda>f. bindP (m f) (k f) p)"
proof (rule mono_optionI)
  fix f g r q assume le: "fun_ord option_ord f g" and "bindP (m f) (k f) p = Some (r, q)"
  then show "bindP (m g) (k g) p = Some (r, q)"
    using mono_optionD [OF assms(1) le] mono_optionD [OF assms(2) le]
    by (auto simp: bindP_def split: option.splits parsed.splits)
qed

lemma thenP_mono [parser_mono]:
  assumes "\<And>p. mono_option (\<lambda>f. m f p)" "\<And>p. mono_option (\<lambda>f. k f p)"
  shows "mono_option (\<lambda>f. thenP (m f) (k f) p)"
  unfolding thenP_def by (intro bindP_mono assms)

lemma attemptP_mono [parser_mono]:
  assumes "\<And>p. mono_option (\<lambda>f. m f p)"
  shows "mono_option (\<lambda>f. attemptP (m f) p)"
proof (rule mono_optionI)
  fix f g r q assume le: "fun_ord option_ord f g" and "attemptP (m f) p = Some (r, q)"
  then show "attemptP (m g) p = Some (r, q)"
    using mono_optionD [OF assms(1) le]
    by (auto simp: attemptP_def split: option.splits parsed.splits)
qed

lemma if_parser_mono [parser_mono]:
  "\<lbrakk>mono_option (\<lambda>f. a f p); mono_option (\<lambda>f. b f p)\<rbrakk> \<Longrightarrow> mono_option (\<lambda>f. (if c then a f else b f) p)"
  by (cases c) simp_all

lemma if_applied_mono [parser_mono]:
  "\<lbrakk>mono_option a; mono_option b\<rbrakk> \<Longrightarrow> mono_option (\<lambda>f. if c then a f else b f)"
  by (cases c) simp_all

lemma ifP_mono [parser_mono]:
  "\<lbrakk>mono_option (\<lambda>f. a f p); mono_option (\<lambda>f. b f p)\<rbrakk> \<Longrightarrow> mono_option (\<lambda>f. ifP c (a f) (b f) p)"
  by (cases "c p") (simp_all add: ifP_def)

lemma acceptP_mono [parser_mono]:
  "\<lbrakk>\<And>t p. mono_option (\<lambda>f. a f t p); \<And>p. mono_option (\<lambda>f. b f p)\<rbrakk>
    \<Longrightarrow> mono_option (\<lambda>f. acceptP ks (a f) (b f) p)"
  by (cases "Parser_Match ks p") (simp_all add: acceptP_def)

lemma accept_word_mono [parser_mono]:
  "\<lbrakk>\<And>p. mono_option (\<lambda>f. a f p); \<And>p. mono_option (\<lambda>f. b f p)\<rbrakk>
    \<Longrightarrow> mono_option (\<lambda>f. accept_word k w (a f) (b f) p)"
  by (cases "at_word k w p") (simp_all add: accept_word_def)

lemma after_newlines_mono [parser_mono]:
  "\<lbrakk>\<And>p. mono_option (\<lambda>f. a f p); \<And>p. mono_option (\<lambda>f. b f p)\<rbrakk>
    \<Longrightarrow> mono_option (\<lambda>f. after_newlines c (a f) (b f) p)"
  by (cases "c (skip_kinds [TokenNewline] p)") (simp_all add: after_newlines_def Let_def)

lemma case_prod_parser_mono [parser_mono]:
  "(\<And>a b. mono_option (\<lambda>f. k f a b p)) \<Longrightarrow> mono_option (\<lambda>f. (case x of (a, b) \<Rightarrow> k f a b) p)"
  by (cases x) simp

lemma case_option_parser_mono [parser_mono]:
  "\<lbrakk>mono_option (\<lambda>f. a f p); \<And>x. mono_option (\<lambda>f. b f x p)\<rbrakk>
    \<Longrightarrow> mono_option (\<lambda>f. (case x of None \<Rightarrow> a f | Some y \<Rightarrow> b f y) p)"
  by (cases x) simp_all

lemma case_prod_applied_mono [parser_mono]:
  "(\<And>a b. mono_option (\<lambda>f. k f a b)) \<Longrightarrow> mono_option (\<lambda>f. case x of (a, b) \<Rightarrow> k f a b)"
  by (cases x) simp

lemma case_option_applied_mono [parser_mono]:
  "\<lbrakk>mono_option a; \<And>x. mono_option (\<lambda>f. b f x)\<rbrakk>
    \<Longrightarrow> mono_option (\<lambda>f. case x of None \<Rightarrow> a f | Some y \<Rightarrow> b f y)"
  by (cases x) simp_all

lemma case_sum_parser_mono [parser_mono]:
  "\<lbrakk>\<And>x. mono_option (\<lambda>f. a f x p); \<And>x. mono_option (\<lambda>f. b f x p)\<rbrakk>
    \<Longrightarrow> mono_option (\<lambda>f. (case x of Inl y \<Rightarrow> a f y | Inr y \<Rightarrow> b f y) p)"
  by (cases x) simp_all

lemma Let_parser_mono [parser_mono]:
  "(\<And>x. mono_option (\<lambda>f. k f x p)) \<Longrightarrow> mono_option (\<lambda>f. (Let x (k f)) p)"
  by simp

lemma loopP_mono [parser_mono]:
  assumes "\<And>s p. mono_option (\<lambda>f. body f s p)"
  shows "mono_option (\<lambda>f. loopP (body f) s p)"
proof (rule mono_optionI)
  fix f g r q assume le: "fun_ord option_ord f g" and run: "loopP (body f) s p = Some (r, q)"
  have "body f = body f \<longrightarrow> loopP (body g) s p = Some (r, q)"
  proof (rule loopP.raw_induct
      [where P = "\<lambda>b s p r. b = body f \<longrightarrow> loopP (body g) s p = Some r", OF _ run], intro impI)
    fix loop b s p r
    assume IH: "\<And>b s p r. loop b s p = Some r \<Longrightarrow> b = body f \<longrightarrow> loopP (body g) s p = Some r"
      and step: "(case b s p of
         None \<Rightarrow> None
       | Some (r, q) \<Rightarrow>
           (case r of
              Parsed t \<Rightarrow> (case t of Inl s' \<Rightarrow> loop b s' q | Inr a \<Rightarrow> Some (Parsed a, q))
            | Failed e \<Rightarrow> Some (Failed e, q)
            | Panicked \<Rightarrow> Some (Panicked, q))) = Some r"
      and b: "b = body f"
    then show "loopP (body g) s p = Some r"
      using mono_optionD [OF assms le]
      by (cases r, subst loopP.simps) (auto split: option.splits parsed.splits sum.splits)
  qed
  then show "loopP (body g) s p = Some (r, q)" by simp
qed

lemma speculate_mono [parser_mono]:
  assumes "\<And>p. mono_option (\<lambda>f. m f p)"
  shows "mono_option (\<lambda>f. speculate (m f) keep p)"
proof (rule mono_optionI)
  fix f g r q assume le: "fun_ord option_ord f g" and "speculate (m f) keep p = Some (r, q)"
  then show "speculate (m g) keep p = Some (r, q)"
    using mono_optionD [OF assms le]
    by (auto simp: speculate_def split: option.splits parsed.splits)
qed

lemma then_commit_mono [parser_mono]:
  assumes "\<And>p. mono_option (\<lambda>f. m f p)"
  shows "mono_option (\<lambda>f. then_commit (m f) p)"
proof (rule mono_optionI)
  fix f g r q assume le: "fun_ord option_ord f g" and "then_commit (m f) p = Some (r, q)"
  then show "then_commit (m g) p = Some (r, q)"
    using mono_optionD [OF assms le] by (auto simp: then_commit_def split: option.splits)
qed

lemma or_else_mono [parser_mono]:
  assumes "\<And>p. mono_option (\<lambda>f. a f p)" "\<And>p. mono_option (\<lambda>f. b f p)"
  shows "mono_option (\<lambda>f. or_else (a f) (b f) p)"
proof (rule mono_optionI)
  fix f g r q assume le: "fun_ord option_ord f g" and "or_else (a f) (b f) p = Some (r, q)"
  then show "or_else (a g) (b g) p = Some (r, q)"
    using mono_optionD [OF assms(1) le] mono_optionD [OF assms(2) le]
    by (auto simp: or_else_def split: option.splits parsed.splits)
qed

lemma keep_if_mono [parser_mono]:
  assumes "\<And>p. mono_option (\<lambda>f. m f p)"
  shows "mono_option (\<lambda>f. keep_if (m f) keep p)"
proof (rule mono_optionI)
  fix f g r q assume le: "fun_ord option_ord f g" and "keep_if (m f) keep p = Some (r, q)"
  then show "keep_if (m g) keep p = Some (r, q)"
    using mono_optionD [OF assms le]
    by (auto simp: keep_if_def split: option.splits parsed.splits)
qed

lemma unless_from_mono [parser_mono]:
  assumes "\<And>p. mono_option (\<lambda>f. a f p)" "\<And>p. mono_option (\<lambda>f. b f p)"
  shows "mono_option (\<lambda>f. unless_from (a f) redo (b f) p)"
proof (rule mono_optionI)
  fix f g r q assume le: "fun_ord option_ord f g" and "unless_from (a f) redo (b f) p = Some (r, q)"
  then show "unless_from (a g) redo (b g) p = Some (r, q)"
    using mono_optionD [OF assms(1) le] mono_optionD [OF assms(2) le]
    by (auto simp: unless_from_def split: option.splits parsed.splits if_splits)
qed

lemma subparse_mono [parser_mono]:
  assumes "\<And>p. mono_option (\<lambda>f. m f p)"
  shows "mono_option (\<lambda>f. subparse ts (m f) p)"
proof (rule mono_optionI)
  fix f g r q assume le: "fun_ord option_ord f g" and "subparse ts (m f) p = Some (r, q)"
  then show "subparse ts (m g) p = Some (r, q)"
    using mono_optionD [OF assms le] by (auto simp: subparse_def split: option.splits)
qed

lemma with_captures_mono [parser_mono]:
  assumes "\<And>p. mono_option (\<lambda>f. m f p)"
  shows "mono_option (\<lambda>f. with_captures (m f) p)"
proof (rule mono_optionI)
  fix f g r q assume le: "fun_ord option_ord f g" and "with_captures (m f) p = Some (r, q)"
  then show "with_captures (m g) p = Some (r, q)"
    using mono_optionD [OF assms le] by (auto simp: with_captures_def split: option.splits)
qed

lemma case_reply_mono [parser_mono]:
  "\<lbrakk>\<And>x y. mono_option (\<lambda>f. a f x y p); \<And>x y. mono_option (\<lambda>f. b f x y p)\<rbrakk>
    \<Longrightarrow> mono_option (\<lambda>f. (case r of Node x y \<Rightarrow> a f x y | LinkItems x y \<Rightarrow> b f x y) p)"
  by (cases r) simp_all

lemma case_WhenContext_mono [parser_mono]:
  "\<lbrakk>mono_option (\<lambda>f. a f p); mono_option (\<lambda>f. b f p); mono_option (\<lambda>f. c f p);
    mono_option (\<lambda>f. d f p)\<rbrakk>
    \<Longrightarrow> mono_option (\<lambda>f. (case x of WhenDeclarations \<Rightarrow> a f | WhenStatements \<Rightarrow> b f
         | WhenExpression \<Rightarrow> c f | WhenType \<Rightarrow> d f) p)"
  by (cases x) simp_all

lemma case_attribute_mono:
  "\<lbrakk>mono_option (\<lambda>f. a f p); mono_option (\<lambda>f. b f p); mono_option (\<lambda>f. c f p);
    mono_option (\<lambda>f. d f p); mono_option (\<lambda>f. e f p); mono_option (\<lambda>f. h f p);
    mono_option (\<lambda>f. i f p)\<rbrakk>
    \<Longrightarrow> mono_option (\<lambda>f. (case x of AttributeTypeNoReturn \<Rightarrow> a f | AttributeTypeInline \<Rightarrow> b f
         | AttributeTypeNoInline \<Rightarrow> c f | AttributeTypeForeign \<Rightarrow> d f | AttributeTypeLink \<Rightarrow> e f
         | AttributeTypeExport \<Rightarrow> h f | AttributeTypePacked \<Rightarrow> i f) p)"
  by (cases x) simp_all

lemma parseLeftAssociative_mono [parser_mono]:
  "(\<And>p. mono_option (\<lambda>f. m f p)) \<Longrightarrow> mono_option (\<lambda>f. parseLeftAssociative (m f) ops p)"
  unfolding parseLeftAssociative_def by (intro parser_mono)

lemma case_let_form_mono [parser_mono]:
  "\<lbrakk>mono_option (\<lambda>f. a f p); mono_option (\<lambda>f. b f p); mono_option (\<lambda>f. c f p);
    mono_option (\<lambda>f. d f p)\<rbrakk>
    \<Longrightarrow> mono_option (\<lambda>f. (case x of LetDeclaration \<Rightarrow> a f | LetFunction \<Rightarrow> b f
         | LetTypeAlias \<Rightarrow> c f | LetMultiple \<Rightarrow> d f) p)"
  by (cases x) simp_all

section \<open>\<^verbatim>\<open>Parser_When\<close>\<close>

lemma callP_mono [parser_mono]:
  "(\<And>c p. mono_option (\<lambda>f. R f c p)) \<Longrightarrow> mono_option (\<lambda>f. callP (R f) c p)"
  unfolding callP_def by (intro parser_mono)

lemma call_statement_mono [parser_mono]:
  "(\<And>c p. mono_option (\<lambda>f. R f c p)) \<Longrightarrow> mono_option (\<lambda>f. call_statement (R f) p)"
  unfolding call_statement_def by (intro parser_mono)

lemma call_link_items_mono [parser_mono]:
  "(\<And>c p. mono_option (\<lambda>f. R f c p)) \<Longrightarrow> mono_option (\<lambda>f. call_link_items (R f) k p)"
  unfolding call_link_items_def by (intro parser_mono)

lemma ParseWholeExpression_mono [parser_mono]:
  "(\<And>c p. mono_option (\<lambda>f. R f c p)) \<Longrightarrow> mono_option (\<lambda>f. ParseWholeExpression (R f) p)"
  unfolding ParseWholeExpression_def by (intro parser_mono)

lemma parseWhenCondition_mono [parser_mono]:
  "(\<And>c p. mono_option (\<lambda>f. R f c p)) \<Longrightarrow> mono_option (\<lambda>f. parseWhenCondition (R f) p)"
  unfolding parseWhenCondition_def Let_def
  by (cases "condition_end 0 0 p"; cases "fst (condition_end 0 0 p)")
    (auto intro!: parser_mono)

lemma parseCompilerDirective_mono [parser_mono]:
  "(\<And>c p. mono_option (\<lambda>f. R f c p)) \<Longrightarrow> mono_option (\<lambda>f. parseCompilerDirective (R f) p)"
  unfolding parseCompilerDirective_def by (intro parser_mono)

lemma parseLinkWhen_mono [parser_mono]:
  "(\<And>c p. mono_option (\<lambda>f. R f c p)) \<Longrightarrow> mono_option (\<lambda>f. parseLinkWhen (R f) p)"
  unfolding parseLinkWhen_def by (intro parser_mono)

lemma parseLinkItems_mono [parser_mono]:
  "(\<And>c p. mono_option (\<lambda>f. R f c p)) \<Longrightarrow> mono_option (\<lambda>f. parseLinkItems (R f) close p)"
  unfolding parseLinkItems_def by (intro parser_mono)

lemma parseWhenDeclarationBody_mono [parser_mono]:
  "(\<And>c p. mono_option (\<lambda>f. R f c p)) \<Longrightarrow> mono_option (\<lambda>f. parseWhenDeclarationBody (R f) p)"
  unfolding parseWhenDeclarationBody_def by (intro parser_mono)

lemma parseWhenBody_mono [parser_mono]:
  "(\<And>c p. mono_option (\<lambda>f. R f c p)) \<Longrightarrow> mono_option (\<lambda>f. parseWhenBody (R f) context p)"
  unfolding parseWhenBody_def by (intro parser_mono)

lemma parseWhen_mono [parser_mono]:
  "(\<And>c p. mono_option (\<lambda>f. R f c p)) \<Longrightarrow> mono_option (\<lambda>f. parseWhen (R f) context p)"
  unfolding parseWhen_def by (intro parser_mono)

section \<open>\<^verbatim>\<open>Parser_Types\<close>\<close>

lemma parseLinkAttribute_mono [parser_mono]:
  "(\<And>c p. mono_option (\<lambda>f. R f c p)) \<Longrightarrow> mono_option (\<lambda>f. parseLinkAttribute (R f) p)"
  unfolding parseLinkAttribute_def by (intro parser_mono)

lemma parseAttribute_mono [parser_mono]:
  "(\<And>c p. mono_option (\<lambda>f. R f c p)) \<Longrightarrow> mono_option (\<lambda>f. parseAttribute (R f) defaultName p)"
  unfolding parseAttribute_def by (intro parser_mono case_attribute_mono)

lemma parseAttributes_mono [parser_mono]:
  "(\<And>c p. mono_option (\<lambda>f. R f c p)) \<Longrightarrow> mono_option (\<lambda>f. parseAttributes (R f) defaultName p)"
  unfolding parseAttributes_def by (intro parser_mono)

lemma parseCallTypeArguments_mono [parser_mono]:
  "(\<And>c p. mono_option (\<lambda>f. R f c p)) \<Longrightarrow> mono_option (\<lambda>f. parseCallTypeArguments (R f) p)"
  unfolding parseCallTypeArguments_def by (intro parser_mono)

lemma named_arguments_mono [parser_mono]:
  "(\<And>c p. mono_option (\<lambda>f. R f c p)) \<Longrightarrow> mono_option (\<lambda>f. named_arguments (R f) begin p)"
  unfolding named_arguments_def by (intro parser_mono)

lemma named_rest_mono [parser_mono]:
  "(\<And>c p. mono_option (\<lambda>f. R f c p)) \<Longrightarrow> mono_option (\<lambda>f. named_rest (R f) begin capture p)"
  unfolding named_rest_def by (intro parser_mono)

lemma ParseNamedType_mono [parser_mono]:
  "(\<And>c p. mono_option (\<lambda>f. R f c p)) \<Longrightarrow> mono_option (\<lambda>f. ParseNamedType (R f) p)"
  unfolding ParseNamedType_def by (intro parser_mono)

lemma ParseDynType_mono [parser_mono]:
  "(\<And>c p. mono_option (\<lambda>f. R f c p)) \<Longrightarrow> mono_option (\<lambda>f. ParseDynType (R f) begin mutable p)"
  unfolding ParseDynType_def by (intro parser_mono)

lemma ParseArrayOrSliceType_mono [parser_mono]:
  "(\<And>c p. mono_option (\<lambda>f. R f c p)) \<Longrightarrow> mono_option (\<lambda>f. ParseArrayOrSliceType (R f) p)"
  unfolding ParseArrayOrSliceType_def by (intro parser_mono)

lemma ParseFunctionType_mono [parser_mono]:
  "(\<And>c p. mono_option (\<lambda>f. R f c p)) \<Longrightarrow> mono_option (\<lambda>f. ParseFunctionType (R f) p)"
  unfolding ParseFunctionType_def by (intro parser_mono)

lemma ParsePointerType_mono [parser_mono]:
  "(\<And>c p. mono_option (\<lambda>f. R f c p)) \<Longrightarrow> mono_option (\<lambda>f. ParsePointerType (R f) p)"
  unfolding ParsePointerType_def by (intro parser_mono)

lemma ParseFlagsType_mono [parser_mono]:
  "(\<And>c p. mono_option (\<lambda>f. R f c p)) \<Longrightarrow> mono_option (\<lambda>f. ParseFlagsType (R f) p)"
  unfolding ParseFlagsType_def by (intro parser_mono)

lemma type_parameter_rest_mono [parser_mono]:
  "(\<And>c p. mono_option (\<lambda>f. R f c p)) \<Longrightarrow> mono_option (\<lambda>f. type_parameter_rest (R f) begin name p)"
  unfolding type_parameter_rest_def by (intro parser_mono)

lemma parseTypeParameter_mono [parser_mono]:
  "(\<And>c p. mono_option (\<lambda>f. R f c p)) \<Longrightarrow> mono_option (\<lambda>f. parseTypeParameter (R f) p)"
  unfolding parseTypeParameter_def Let_def by (intro parser_mono)

lemma parseFunctionReturnType_mono [parser_mono]:
  "(\<And>c p. mono_option (\<lambda>f. R f c p)) \<Longrightarrow> mono_option (\<lambda>f. parseFunctionReturnType (R f) p)"
  unfolding parseFunctionReturnType_def by (intro parser_mono)

lemma expression_body_mono [parser_mono]:
  "(\<And>c p. mono_option (\<lambda>f. R f c p)) \<Longrightarrow> mono_option (\<lambda>f. expression_body (R f) p)"
  unfolding expression_body_def by (intro parser_mono)

lemma trait_parameters_mono [parser_mono]:
  "(\<And>c p. mono_option (\<lambda>f. R f c p)) \<Longrightarrow> mono_option (\<lambda>f. trait_parameters (R f) p)"
  unfolding trait_parameters_def by (intro parser_mono)

lemma trait_method_mono [parser_mono]:
  "(\<And>c p. mono_option (\<lambda>f. R f c p)) \<Longrightarrow> mono_option (\<lambda>f. trait_method (R f) seen p)"
  unfolding trait_method_def by (intro parser_mono)

lemma ParseTraitType_mono [parser_mono]:
  "(\<And>c p. mono_option (\<lambda>f. R f c p)) \<Longrightarrow> mono_option (\<lambda>f. ParseTraitType (R f) p)"
  unfolding ParseTraitType_def by (intro parser_mono)

lemma union_tag_mono [parser_mono]:
  "(\<And>c p. mono_option (\<lambda>f. R f c p)) \<Longrightarrow> mono_option (\<lambda>f. union_tag (R f) p)"
  unfolding union_tag_def by (intro parser_mono)

lemma union_payload_mono [parser_mono]:
  "(\<And>c p. mono_option (\<lambda>f. R f c p)) \<Longrightarrow> mono_option (\<lambda>f. union_payload (R f) p)"
  unfolding union_payload_def by (intro parser_mono)

lemma union_variant_mono [parser_mono]:
  "(\<And>c p. mono_option (\<lambda>f. R f c p)) \<Longrightarrow> mono_option (\<lambda>f. union_variant (R f) name p)"
  unfolding union_variant_def by (intro parser_mono)

lemma ParseUnionType_mono [parser_mono]:
  "(\<And>c p. mono_option (\<lambda>f. R f c p)) \<Longrightarrow> mono_option (\<lambda>f. ParseUnionType (R f) p)"
  unfolding ParseUnionType_def by (intro parser_mono)

lemma struct_field_mono [parser_mono]:
  "(\<And>c p. mono_option (\<lambda>f. R f c p)) \<Longrightarrow> mono_option (\<lambda>f. struct_field (R f) p)"
  unfolding struct_field_def by (intro parser_mono)

lemma ParseStructType_mono [parser_mono]:
  "(\<And>c p. mono_option (\<lambda>f. R f c p)) \<Longrightarrow> mono_option (\<lambda>f. ParseStructType (R f) p)"
  unfolding ParseStructType_def by (intro parser_mono)

lemma ParseType_mono [parser_mono]:
  "(\<And>c p. mono_option (\<lambda>f. R f c p)) \<Longrightarrow> mono_option (\<lambda>f. ParseType (R f) p)"
  unfolding ParseType_def by (intro parser_mono)

section \<open>\<^verbatim>\<open>Parser_Expressions\<close>\<close>

lemma type_or_expression_mono [parser_mono]:
  "(\<And>c p. mono_option (\<lambda>f. R f c p)) \<Longrightarrow> mono_option (\<lambda>f. type_or_expression (R f) msg p)"
  unfolding type_or_expression_def by (intro parser_mono)

lemma ParseSizeOfExpression_mono [parser_mono]:
  "(\<And>c p. mono_option (\<lambda>f. R f c p)) \<Longrightarrow> mono_option (\<lambda>f. ParseSizeOfExpression (R f) p)"
  unfolding ParseSizeOfExpression_def by (intro parser_mono)

lemma ParseAlignOfExpression_mono [parser_mono]:
  "(\<And>c p. mono_option (\<lambda>f. R f c p)) \<Longrightarrow> mono_option (\<lambda>f. ParseAlignOfExpression (R f) p)"
  unfolding ParseAlignOfExpression_def by (intro parser_mono)

lemma ParseOffsetOfExpression_mono [parser_mono]:
  "(\<And>c p. mono_option (\<lambda>f. R f c p)) \<Longrightarrow> mono_option (\<lambda>f. ParseOffsetOfExpression (R f) p)"
  unfolding ParseOffsetOfExpression_def by (intro parser_mono)

lemma asm_entry_mono [parser_mono]:
  "(\<And>c p. mono_option (\<lambda>f. R f c p)) \<Longrightarrow> mono_option (\<lambda>f. asm_entry (R f) entries p)"
  unfolding asm_entry_def by (intro parser_mono)

lemma ParseInlineAsmExpression_mono [parser_mono]:
  "(\<And>c p. mono_option (\<lambda>f. R f c p)) \<Longrightarrow> mono_option (\<lambda>f. ParseInlineAsmExpression (R f) p)"
  unfolding ParseInlineAsmExpression_def by (intro parser_mono)

lemma ParseCall_mono [parser_mono]:
  "(\<And>c p. mono_option (\<lambda>f. R f c p)) \<Longrightarrow> mono_option (\<lambda>f. ParseCall (R f) callee p)"
  unfolding ParseCall_def by (intro parser_mono)

lemma ParseFunctionCall_mono [parser_mono]:
  "(\<And>c p. mono_option (\<lambda>f. R f c p)) \<Longrightarrow> mono_option (\<lambda>f. ParseFunctionCall (R f) name p)"
  unfolding ParseFunctionCall_def by (intro parser_mono)

lemma literal_fields_mono [parser_mono]:
  "(\<And>c p. mono_option (\<lambda>f. R f c p)) \<Longrightarrow> mono_option (\<lambda>f. literal_fields (R f) p)"
  unfolding literal_fields_def by (intro parser_mono)

lemma ParseStructLiteral_mono [parser_mono]:
  "(\<And>c p. mono_option (\<lambda>f. R f c p)) \<Longrightarrow> mono_option (\<lambda>f. ParseStructLiteral (R f) name p)"
  unfolding ParseStructLiteral_def by (intro parser_mono)

lemma ParseSliceLiteral_mono [parser_mono]:
  "(\<And>c p. mono_option (\<lambda>f. R f c p)) \<Longrightarrow> mono_option (\<lambda>f. ParseSliceLiteral (R f) p)"
  unfolding ParseSliceLiteral_def by (intro parser_mono)

lemma lambda_type_mono [parser_mono]:
  "(\<And>c p. mono_option (\<lambda>f. R f c p)) \<Longrightarrow> mono_option (\<lambda>f. lambda_type (R f) grp p)"
  unfolding lambda_type_def by (intro parser_mono)

lemma lambda_parameters_mono [parser_mono]:
  "(\<And>c p. mono_option (\<lambda>f. R f c p)) \<Longrightarrow> mono_option (\<lambda>f. lambda_parameters (R f) p)"
  unfolding lambda_parameters_def by (intro parser_mono)

lemma ParseLambdaExpression_mono [parser_mono]:
  "(\<And>c p. mono_option (\<lambda>f. R f c p)) \<Longrightarrow> mono_option (\<lambda>f. ParseLambdaExpression (R f) p)"
  unfolding ParseLambdaExpression_def by (intro parser_mono)

lemma parseIf_mono [parser_mono]:
  "(\<And>c p. mono_option (\<lambda>f. R f c p)) \<Longrightarrow> mono_option (\<lambda>f. parseIf (R f) expression p)"
  unfolding parseIf_def by (intro parser_mono)

lemma match_subjects_mono [parser_mono]:
  "(\<And>c p. mono_option (\<lambda>f. R f c p)) \<Longrightarrow> mono_option (\<lambda>f. match_subjects (R f) p)"
  unfolding match_subjects_def by (intro parser_mono)

lemma match_arm_mono [parser_mono]:
  "(\<And>c p. mono_option (\<lambda>f. R f c p)) \<Longrightarrow> mono_option (\<lambda>f. match_arm (R f) expression subjects p)"
  unfolding match_arm_def by (intro parser_mono)

lemma match_arms_mono [parser_mono]:
  "(\<And>c p. mono_option (\<lambda>f. R f c p)) \<Longrightarrow> mono_option (\<lambda>f. match_arms (R f) expression subjects p)"
  unfolding match_arms_def by (intro parser_mono)

lemma ParseMatch_mono [parser_mono]:
  "(\<And>c p. mono_option (\<lambda>f. R f c p)) \<Longrightarrow> mono_option (\<lambda>f. ParseMatch (R f) expression p)"
  unfolding ParseMatch_def by (intro parser_mono)

lemma ParseTerm_mono [parser_mono]:
  "(\<And>c p. mono_option (\<lambda>f. R f c p)) \<Longrightarrow> mono_option (\<lambda>f. ParseTerm (R f) p)"
  unfolding ParseTerm_def by (intro parser_mono)

lemma postfix_call_mono [parser_mono]:
  "(\<And>c p. mono_option (\<lambda>f. R f c p)) \<Longrightarrow> mono_option (\<lambda>f. postfix_call (R f) expr p)"
  unfolding postfix_call_def by (intro parser_mono)

lemma postfix_index_mono [parser_mono]:
  "(\<And>c p. mono_option (\<lambda>f. R f c p)) \<Longrightarrow> mono_option (\<lambda>f. postfix_index (R f) beginLoc expr p)"
  unfolding postfix_index_def by (intro parser_mono)

lemma postfix_dot_mono [parser_mono]:
  "(\<And>c p. mono_option (\<lambda>f. R f c p)) \<Longrightarrow> mono_option (\<lambda>f. postfix_dot (R f) beginLoc expr p)"
  unfolding postfix_dot_def by (intro parser_mono)

lemma ParsePostfix_mono [parser_mono]:
  "(\<And>c p. mono_option (\<lambda>f. R f c p)) \<Longrightarrow> mono_option (\<lambda>f. ParsePostfix (R f) p)"
  unfolding ParsePostfix_def by (intro parser_mono)

lemma ParseUnary_mono [parser_mono]:
  "(\<And>c p. mono_option (\<lambda>f. R f c p)) \<Longrightarrow> mono_option (\<lambda>f. ParseUnary (R f) p)"
  unfolding ParseUnary_def by (intro parser_mono)

lemma ParseMulDiv_mono [parser_mono]:
  "(\<And>c p. mono_option (\<lambda>f. R f c p)) \<Longrightarrow> mono_option (\<lambda>f. ParseMulDiv (R f) p)"
  unfolding ParseMulDiv_def by (intro parser_mono)

lemma ParseAddSub_mono [parser_mono]:
  "(\<And>c p. mono_option (\<lambda>f. R f c p)) \<Longrightarrow> mono_option (\<lambda>f. ParseAddSub (R f) p)"
  unfolding ParseAddSub_def by (intro parser_mono)

lemma ParseShift_mono [parser_mono]:
  "(\<And>c p. mono_option (\<lambda>f. R f c p)) \<Longrightarrow> mono_option (\<lambda>f. ParseShift (R f) p)"
  unfolding ParseShift_def by (intro parser_mono)

lemma ParseComparison_mono [parser_mono]:
  "(\<And>c p. mono_option (\<lambda>f. R f c p)) \<Longrightarrow> mono_option (\<lambda>f. ParseComparison (R f) p)"
  unfolding ParseComparison_def by (intro parser_mono)

lemma ParseBitwiseAnd_mono [parser_mono]:
  "(\<And>c p. mono_option (\<lambda>f. R f c p)) \<Longrightarrow> mono_option (\<lambda>f. ParseBitwiseAnd (R f) p)"
  unfolding ParseBitwiseAnd_def by (intro parser_mono)

lemma ParseBitwiseXor_mono [parser_mono]:
  "(\<And>c p. mono_option (\<lambda>f. R f c p)) \<Longrightarrow> mono_option (\<lambda>f. ParseBitwiseXor (R f) p)"
  unfolding ParseBitwiseXor_def by (intro parser_mono)

lemma ParseBitwiseOr_mono [parser_mono]:
  "(\<And>c p. mono_option (\<lambda>f. R f c p)) \<Longrightarrow> mono_option (\<lambda>f. ParseBitwiseOr (R f) p)"
  unfolding ParseBitwiseOr_def by (intro parser_mono)

lemma ParseLogicalAnd_mono [parser_mono]:
  "(\<And>c p. mono_option (\<lambda>f. R f c p)) \<Longrightarrow> mono_option (\<lambda>f. ParseLogicalAnd (R f) p)"
  unfolding ParseLogicalAnd_def by (intro parser_mono)

lemma ParseLogicalOr_mono [parser_mono]:
  "(\<And>c p. mono_option (\<lambda>f. R f c p)) \<Longrightarrow> mono_option (\<lambda>f. ParseLogicalOr (R f) p)"
  unfolding ParseLogicalOr_def by (intro parser_mono)

lemma ParseExpression_mono [parser_mono]:
  "(\<And>c p. mono_option (\<lambda>f. R f c p)) \<Longrightarrow> mono_option (\<lambda>f. ParseExpression (R f) p)"
  unfolding ParseExpression_def by (intro parser_mono)

section \<open>\<^verbatim>\<open>Parser_Statements\<close>\<close>

lemma tail_expression_mono [parser_mono]:
  "(\<And>c p. mono_option (\<lambda>f. R f c p)) \<Longrightarrow> mono_option (\<lambda>f. tail_expression (R f) p)"
  unfolding tail_expression_def by (intro parser_mono)

lemma block_statements_mono [parser_mono]:
  "(\<And>c p. mono_option (\<lambda>f. R f c p)) \<Longrightarrow> mono_option (\<lambda>f. block_statements (R f) expression p)"
  unfolding block_statements_def by (intro parser_mono)

lemma parseBlock_mono [parser_mono]:
  "(\<And>c p. mono_option (\<lambda>f. R f c p)) \<Longrightarrow> mono_option (\<lambda>f. parseBlock (R f) expression p)"
  unfolding parseBlock_def by (intro parser_mono)

lemma function_name_mono [parser_mono]:
  "(\<And>c p. mono_option (\<lambda>f. R f c p)) \<Longrightarrow> mono_option (\<lambda>f. function_name (R f) p)"
  unfolding function_name_def by (intro parser_mono)

lemma parameter_name_mono [parser_mono]:
  "(\<And>c p. mono_option (\<lambda>f. R f c p)) \<Longrightarrow> mono_option (\<lambda>f. parameter_name (R f) p)"
  unfolding parameter_name_def by (intro parser_mono)

lemma parameter_group_mono [parser_mono]:
  "(\<And>c p. mono_option (\<lambda>f. R f c p)) \<Longrightarrow> mono_option (\<lambda>f. parameter_group (R f) p)"
  unfolding parameter_group_def by (intro parser_mono)

lemma group_type_mono [parser_mono]:
  "(\<And>c p. mono_option (\<lambda>f. R f c p)) \<Longrightarrow> mono_option (\<lambda>f. group_type (R f) beginLoc grp p)"
  unfolding group_type_def by (intro parser_mono)

lemma function_parameters_mono [parser_mono]:
  "(\<And>c p. mono_option (\<lambda>f. R f c p)) \<Longrightarrow> mono_option (\<lambda>f. function_parameters (R f) beginLoc args0 generics0 p)"
  unfolding function_parameters_def by (intro parser_mono)

lemma function_body_mono [parser_mono]:
  "(\<And>c p. mono_option (\<lambda>f. R f c p)) \<Longrightarrow> mono_option (\<lambda>f. function_body (R f) p)"
  unfolding function_body_def by (intro parser_mono)

lemma ParseFunctionDefinition_mono [parser_mono]:
  "(\<And>c p. mono_option (\<lambda>f. R f c p)) \<Longrightarrow> mono_option (\<lambda>f. ParseFunctionDefinition (R f) p)"
  unfolding ParseFunctionDefinition_def by (intro parser_mono)

section \<open>\<^verbatim>\<open>Parser\<close>\<close>

lemma ParseTypeAlias_mono [parser_mono]:
  "(\<And>c p. mono_option (\<lambda>f. R f c p)) \<Longrightarrow> mono_option (\<lambda>f. ParseTypeAlias (R f) p)"
  unfolding ParseTypeAlias_def by (intro parser_mono)

lemma ParseModule_mono [parser_mono]:
  "(\<And>c p. mono_option (\<lambda>f. R f c p)) \<Longrightarrow> mono_option (\<lambda>f. ParseModule (R f) p)"
  unfolding ParseModule_def by (intro parser_mono)

lemma ParseDeclaration_mono [parser_mono]:
  "(\<And>c p. mono_option (\<lambda>f. R f c p)) \<Longrightarrow> mono_option (\<lambda>f. ParseDeclaration (R f) p)"
  unfolding ParseDeclaration_def by (intro parser_mono)

lemma parseMultiDeclaration_mono [parser_mono]:
  "(\<And>c p. mono_option (\<lambda>f. R f c p)) \<Longrightarrow> mono_option (\<lambda>f. parseMultiDeclaration (R f) p)"
  unfolding parseMultiDeclaration_def by (intro parser_mono)

lemma ParseAssignment_mono [parser_mono]:
  "(\<And>c p. mono_option (\<lambda>f. R f c p)) \<Longrightarrow> mono_option (\<lambda>f. ParseAssignment (R f) subj p)"
  unfolding ParseAssignment_def by (intro parser_mono)

lemma ParseCompoundAssignment_mono [parser_mono]:
  "(\<And>c p. mono_option (\<lambda>f. R f c p)) \<Longrightarrow> mono_option (\<lambda>f. ParseCompoundAssignment (R f) opTok subj p)"
  unfolding ParseCompoundAssignment_def by (intro parser_mono)

lemma ParseDefer_mono [parser_mono]:
  "(\<And>c p. mono_option (\<lambda>f. R f c p)) \<Longrightarrow> mono_option (\<lambda>f. ParseDefer (R f) p)"
  unfolding ParseDefer_def by (intro parser_mono)

lemma ParseControlKeyword_mono [parser_mono]:
  "(\<And>c p. mono_option (\<lambda>f. R f c p)) \<Longrightarrow> mono_option (\<lambda>f. ParseControlKeyword (R f) p)"
  unfolding ParseControlKeyword_def by (intro parser_mono)

lemma parseRangeOrForEach_mono [parser_mono]:
  "(\<And>c p. mono_option (\<lambda>f. R f c p)) \<Longrightarrow> mono_option (\<lambda>f. parseRangeOrForEach (R f) beginLoc p)"
  unfolding parseRangeOrForEach_def by (intro parser_mono)

lemma ParseForLoop_mono [parser_mono]:
  "(\<And>c p. mono_option (\<lambda>f. R f c p)) \<Longrightarrow> mono_option (\<lambda>f. ParseForLoop (R f) p)"
  unfolding ParseForLoop_def by (intro parser_mono)

lemma let_statement_mono [parser_mono]:
  "(\<And>c p. mono_option (\<lambda>f. R f c p)) \<Longrightarrow> mono_option (\<lambda>f. let_statement (R f) p)"
  unfolding let_statement_def by (intro parser_mono)

lemma multiple_assignment_mono [parser_mono]:
  "(\<And>c p. mono_option (\<lambda>f. R f c p)) \<Longrightarrow> mono_option (\<lambda>f. multiple_assignment (R f) expr p)"
  unfolding multiple_assignment_def by (intro parser_mono)

lemma expression_statement_mono [parser_mono]:
  "(\<And>c p. mono_option (\<lambda>f. R f c p)) \<Longrightarrow> mono_option (\<lambda>f. expression_statement (R f) p)"
  unfolding expression_statement_def by (intro parser_mono)

lemma with_semicolon_mono [parser_mono]:
  "(\<And>p. mono_option (\<lambda>f. m f p)) \<Longrightarrow> mono_option (\<lambda>f. with_semicolon b (m f) p)"
  unfolding with_semicolon_def by (intro parser_mono)

lemma as_node_mono [parser_mono]:
  "(\<And>p. mono_option (\<lambda>f. m f p)) \<Longrightarrow> mono_option (\<lambda>f. as_node (m f) p)"
  unfolding as_node_def by (intro parser_mono)

lemma ParseStatement_mono [parser_mono]:
  "(\<And>c p. mono_option (\<lambda>f. R f c p)) \<Longrightarrow> mono_option (\<lambda>f. ParseStatement (R f) p)"
  unfolding ParseStatement_def by (intro parser_mono)

lemma parseTopLevel_mono [parser_mono]:
  "(\<And>c p. mono_option (\<lambda>f. R f c p)) \<Longrightarrow> mono_option (\<lambda>f. parseTopLevel (R f) p)"
  unfolding parseTopLevel_def by (intro parser_mono)

lemma parse_step_mono [partial_function_mono]:
  assumes "\<And>c p. mono_option (\<lambda>f. R f c p)"
  shows "mono_option (\<lambda>f. parse_step (R f) c p)"
  unfolding parse_step_def by (cases c) (simp_all, (intro parser_mono assms)+)

section \<open>The recursion\<close>

partial_function (option) parse :: calls where
  "parse c p = parse_step parse c p"

declare parse.simps [code]

section \<open>Files\<close>

text \<open>
  \<open>Parse\<close> returns the tree and the errors, whose join is nil when there is none. The loop goes
  over the declarations; \<open>p.tokens[len(p.tokens)-1]\<close> is out of range when there is no token.
\<close>

definition parse_declarations :: "(node list \<times> parse_error list) parser" where
  "parse_declarations =
    loopP (\<lambda>(body, errs).
      ifP (Parser_Match [TokenEof]) (breakP (body, errs)) (
      thenP separators (
      ifP (Parser_Match [TokenEof]) (breakP (body, errs)) (
      bindP (attemptP (callP parse CallTopLevel)) (\<lambda>r.
      case r of
        Inl e \<Rightarrow> thenP synchroniseTopLevel (againP (body, errs @ [e]))
      | Inr stmt \<Rightarrow>
          let body' = body @ [stmt] in
          ifP (Parser_Match [TokenEof]) (breakP (body', errs)) (
          ifP (\<lambda>p. \<not> Parser_Match [TokenNewline, TokenSemicolon] p)
            (bindP (readP CurrLoc) (\<lambda>l.
             thenP synchroniseTopLevel
               (againP (body', errs @ [ParseError l ''expected `;` or newline'' []]))))
            (thenP separators (againP (body', errs)))))))))
      ([], [])"

definition root_loc :: "Token \<Rightarrow> Location" where
  "root_loc eofTok =
    zero_Location\<lparr>LC := \<lparr>Line = 1, Col = 1\<rparr>, FilePath := FilePath (tok_Loc eofTok),
      SourceText := SourceText (tok_Loc eofTok), EndLC := LC (tok_Loc eofTok),
      EndOffset := Offset (tok_Loc eofTok)\<rparr>"

definition Parse :: "(node \<times> parse_error list) parser" where
  "Parse p =
    (if p_tokens p = [] then Some (Panicked, p)
     else
       bindP parse_declarations (\<lambda>(body, errs).
         retP (Stmt (RootNode body (root_loc (last (p_tokens p)))), errs)) p)"

end
