(* ===== verification/Parser_Progress.thy ===== *)
theory Parser_Progress
  imports Parser_Files
begin

text \<open>
  Progress of the parser. \<open>advances p q\<close> is the relation between the states before and after a
  method: the tokens are the same, the position is not smaller, and the stack is the old one with
  later positions on it, or was cleared and then holds later positions only. \<open>eats n C m\<close> states
  that from every state with fewer than \<open>n\<close> tokens left \<open>m\<close> returns, advances, and has consumed a
  token when its result satisfies \<open>C\<close>; \<open>bites n S m\<close> that from a state in \<open>S\<close> it has consumed a
  token even if it fails, unless it panics.
\<close>

section \<open>States\<close>

definition advances :: "Parser \<Rightarrow> Parser \<Rightarrow> bool" where
  "advances p q \<longleftrightarrow>
    p_tokens q = p_tokens p \<and> p_pos p \<le> p_pos q \<and>
    (\<exists>ext. (p_posStack q = p_posStack p @ ext \<or> p_posStack q = ext) \<and>
       (\<forall>s \<in> set ext. p_pos p \<le> s))"

definition left :: "Parser \<Rightarrow> nat" where
  "left p = length (p_tokens p) - p_pos p"

lemma advancesI:
  "\<lbrakk>p_tokens q = p_tokens p; p_pos p \<le> p_pos q; p_posStack q = p_posStack p\<rbrakk> \<Longrightarrow> advances p q"
  unfolding advances_def by (metis append_Nil2 empty_iff list.set(1))

lemma advances_refl [simp, intro]: "advances p p"
  by (simp add: advancesI)

lemma advances_trans [trans]:
  assumes "advances p q" "advances q r"
  shows "advances p r"
proof -
  obtain e1 where e1: "p_posStack q = p_posStack p @ e1 \<or> p_posStack q = e1"
      "\<forall>s \<in> set e1. p_pos p \<le> s" using assms(1) by (auto simp: advances_def)
  obtain e2 where e2: "p_posStack r = p_posStack q @ e2 \<or> p_posStack r = e2"
      "\<forall>s \<in> set e2. p_pos q \<le> s" using assms(2) by (auto simp: advances_def)
  have pq: "p_pos p \<le> p_pos q" "p_tokens q = p_tokens p" using assms(1) by (auto simp: advances_def)
  have "p_pos p \<le> p_pos r" "p_tokens r = p_tokens p" using assms by (auto simp: advances_def)
  moreover have "\<forall>s \<in> set (e1 @ e2). p_pos p \<le> s" using e1(2) e2(2) pq(1) by auto
  moreover have "p_posStack r = p_posStack p @ (e1 @ e2) \<or> p_posStack r = e1 @ e2 \<or>
      p_posStack r = e2" using e1(1) e2(1) by auto
  moreover have "\<forall>s \<in> set e2. p_pos p \<le> s" using e2(2) pq(1) by auto
  ultimately show ?thesis unfolding advances_def by blast
qed

lemma advances_left: "advances p q \<Longrightarrow> left q \<le> left p"
  by (auto simp: advances_def left_def)

lemma advances_back: "advances p q \<Longrightarrow> p_pos p \<le> s \<Longrightarrow> advances p (q\<lparr>p_pos := s\<rparr>)"
  by (auto simp: advances_def)

lemma left_back [simp]: "advances p q \<Longrightarrow> left (q\<lparr>p_pos := p_pos p\<rparr>) = left p"
  by (simp add: left_def advances_def)

lemma advances_restore:
  "advances p q \<Longrightarrow> advances p (q\<lparr>p_pos := p_pos p, p_posStack := p_posStack p\<rparr>)"
  by (auto simp: advances_def intro!: exI [of _ "[]"])

lemma advances_capture: "advances p (q\<lparr>p_allowTypeCapture := b\<rparr>) \<longleftrightarrow> advances p q"
  "advances (p\<lparr>p_allowTypeCapture := b\<rparr>) q \<longleftrightarrow> advances p q"
  by (simp_all add: advances_def)

lemma left_capture [simp]: "left (p\<lparr>p_allowTypeCapture := b\<rparr>) = left p"
  by (simp add: left_def)

lemma advances_Inc [simp]: "advances p (Parser_Inc p)"
  by (auto simp: Parser_Inc_def intro!: advancesI)

lemma advances_Inc_right: "advances p q \<Longrightarrow> advances p (Parser_Inc q)"
  using advances_trans [OF _ advances_Inc] .

lemma left_Inc: "tok_Type (Parser_Peek p) \<noteq> TokenEof \<Longrightarrow> left (Parser_Inc p) < left p"
  by (auto simp: Parser_Peek_def left_def Parser_Inc_def eof_token_def split: if_splits)

lemma left_Inc_le: "left (Parser_Inc p) \<le> left p"
  by (auto simp: left_def Parser_Inc_def)

lemma advances_skip: "advances p (skip_kinds ks p)"
proof (induction ks p rule: skip_kinds.induct)
  case (1 ks p)
  then show ?case
    by (subst skip_kinds.simps) (auto intro: advances_trans [OF advances_Inc])
qed

lemma skip_kinds_pos: "p_posStack (skip_kinds ks p) = p_posStack p"
proof (induction ks p rule: skip_kinds.induct)
  case (1 ks p)
  then show ?case by (subst skip_kinds.simps) (auto simp: Parser_Inc_def)
qed

text \<open>Popping or committing the position that was pushed at \<open>p\<close> leads to a state after \<open>p\<close>.\<close>

lemma advances_PushPos: "advances p (PushPos p)"
  by (auto simp: advances_def PushPos_def)

lemma left_PushPos [simp]: "left (PushPos p) = left p"
  by (simp add: left_def PushPos_def)

lemma pushed_stack:
  assumes "advances (PushPos p) q"
  obtains ext where "p_posStack q = p_posStack p @ ext \<or> p_posStack q = ext"
    "\<forall>s \<in> set ext. p_pos p \<le> s" "p_posStack q = p_posStack p @ ext \<longrightarrow> ext \<noteq> [] \<or> p_posStack p = []"
proof -
  obtain e where e: "p_posStack q = (p_posStack p @ [p_pos p]) @ e \<or> p_posStack q = e"
      "\<forall>s \<in> set e. p_pos p \<le> s"
    using assms by (auto simp: advances_def PushPos_def)
  show thesis
  proof (cases "p_posStack q = (p_posStack p @ [p_pos p]) @ e")
    case True
    then show ?thesis using e(2) that [of "p_pos p # e"] by auto
  next
    case False
    then show ?thesis using e that [of e] by auto
  qed
qed

lemma butlast_stack:
  assumes "advances (PushPos p) q"
  shows "\<exists>ext. (butlast (p_posStack q) = p_posStack p @ ext \<or> butlast (p_posStack q) = ext) \<and>
    (\<forall>s \<in> set ext. p_pos p \<le> s)"
proof -
  obtain e where e: "p_posStack q = p_posStack p @ [p_pos p] @ e \<or> p_posStack q = e"
      "\<forall>s \<in> set e. p_pos p \<le> s"
    using assms by (auto simp: advances_def PushPos_def)
  have "butlast (p_posStack q) = p_posStack p @ butlast ([p_pos p] @ e) \<or>
      butlast (p_posStack q) = butlast e"
    using e(1) by (auto simp: butlast_append)
  moreover have "\<forall>s \<in> set (butlast ([p_pos p] @ e)). p_pos p \<le> s"
    "\<forall>s \<in> set (butlast e). p_pos p \<le> s"
    using e(2) by (auto dest!: in_set_butlastD split: if_splits)
  ultimately show ?thesis by blast
qed

lemma last_stack:
  assumes "advances (PushPos p) q" "p_posStack q \<noteq> []"
  shows "p_pos p \<le> last (p_posStack q)"
proof -
  obtain e where e: "p_posStack q = p_posStack p @ [p_pos p] @ e \<or> p_posStack q = e"
      "\<forall>s \<in> set e. p_pos p \<le> s"
    using assms by (auto simp: advances_def PushPos_def)
  show ?thesis using e assms(2) by (cases e rule: rev_cases) auto
qed

lemma advances_Commit: "advances (PushPos p) q \<Longrightarrow> advances p (CommitPos q)"
  using butlast_stack [of p q]
  by (auto simp: CommitPos_def advances_def PushPos_def intro!: exI [of _ "[]"])

lemma left_Commit [simp]: "left (CommitPos q) = left q"
  by (simp add: left_def CommitPos_def)

lemma advances_Pop: "advances (PushPos p) q \<Longrightarrow> advances p (PopPos q)"
  using butlast_stack [of p q] last_stack [of p q]
  by (auto simp: PopPos_def advances_def PushPos_def intro!: exI [of _ "[]"])

lemma Pop_Push [simp]: "PopPos (PushPos p) = p"
  by (simp add: PopPos_def PushPos_def)

section \<open>Judgements\<close>

definition eats :: "nat \<Rightarrow> ('a \<Rightarrow> bool) \<Rightarrow> 'a parser \<Rightarrow> bool" where
  "eats n C m \<longleftrightarrow>
    (\<forall>p. left p < n \<longrightarrow>
      (\<exists>r q. m p = Some (r, q) \<and> advances p q \<and> (\<forall>a. r = Parsed a \<longrightarrow> C a \<longrightarrow> left q < left p)))"

abbreviation returns :: "nat \<Rightarrow> 'a parser \<Rightarrow> bool" where
  "returns n m \<equiv> eats n (\<lambda>_. False) m"

definition bites :: "nat \<Rightarrow> (Parser \<Rightarrow> bool) \<Rightarrow> 'a parser \<Rightarrow> bool" where
  "bites n S m \<longleftrightarrow>
    (\<forall>p. left p < n \<longrightarrow> S p \<longrightarrow>
      (\<exists>r q. m p = Some (r, q) \<and> advances p q \<and> (r \<noteq> Panicked \<longrightarrow> left q < left p)))"

definition below :: "nat \<Rightarrow> nat" where
  "below n = n - 1"

lemma left_below: "left q < left p \<Longrightarrow> left p < n \<Longrightarrow> left q < below n"
  by (auto simp: below_def)

named_theorems eats \<open>progress of parser methods\<close>
named_theorems bites \<open>progress of parser methods that fail\<close>

lemma eatsD:
  assumes "eats n C m" "left p < n"
  obtains r q where "m p = Some (r, q)" "advances p q" "\<And>a. r = Parsed a \<Longrightarrow> C a \<Longrightarrow> left q < left p"
  using assms unfolding eats_def by blast

lemma eats_weaken: "eats n C m \<Longrightarrow> (\<And>a. D a \<Longrightarrow> C a) \<Longrightarrow> k \<le> n \<Longrightarrow> eats k D m"
  unfolding eats_def by (meson order.strict_trans2)

lemma bites_weaken: "bites n S m \<Longrightarrow> k \<le> n \<Longrightarrow> bites k S m"
  unfolding bites_def by (meson order.strict_trans2)

text \<open>The general rule for a sequence, and its instances for the simplifier.\<close>

lemma eats_bind:
  assumes m: "eats n C1 m"
    and k1: "\<And>a. C1 a \<Longrightarrow> returns (below n) (k a)"
    and k2: "\<And>a. \<not> C1 a \<Longrightarrow> eats n C (k a)"
  shows "eats n C (bindP m k)"
  unfolding eats_def
proof (intro allI impI)
  fix p assume p: "left p < n"
  obtain r q where r: "m p = Some (r, q)" "advances p q"
      "\<And>a. r = Parsed a \<Longrightarrow> C1 a \<Longrightarrow> left q < left p"
    using eatsD [OF m p] by metis
  show "\<exists>r q. bindP m k p = Some (r, q) \<and> advances p q \<and>
      (\<forall>a. r = Parsed a \<longrightarrow> C a \<longrightarrow> left q < left p)"
  proof (cases r)
    case (Parsed a)
    show ?thesis
    proof (cases "C1 a")
      case True
      then have l: "left q < left p" using r(3) Parsed by blast
      obtain s q' where "k a q = Some (s, q')" "advances q q'"
        using eatsD [OF k1 [OF True] left_below [OF l p]] by metis
      then show ?thesis
        using r Parsed l advances_left [of q q'] by (auto simp: bindP_def intro: advances_trans)
    next
      case False
      have "left q < n" using advances_left [OF r(2)] p by simp
      then obtain s q' where "k a q = Some (s, q')" "advances q q'"
          "\<And>a. s = Parsed a \<Longrightarrow> C a \<Longrightarrow> left q' < left q"
        using eatsD [OF k2 [OF False]] by metis
      then show ?thesis
        using r Parsed advances_left [OF r(2)]
        by (auto simp: bindP_def intro: advances_trans order.strict_trans2)
    qed
  qed (use r in \<open>auto simp: bindP_def\<close>)
qed

lemma eats_bind1 [eats]:
  "\<lbrakk>eats n (\<lambda>_. True) m; \<And>a. returns (below n) (k a)\<rbrakk> \<Longrightarrow> eats n C (bindP m k)"
  by (rule eats_bind [where ?C1.0 = "\<lambda>_. True"]) auto

lemma eats_bind2 [eats]:
  "\<lbrakk>returns n m; \<And>a. eats n C (k a)\<rbrakk> \<Longrightarrow> eats n C (bindP m k)"
  by (rule eats_bind [where ?C1.0 = "\<lambda>_. False"]) auto

lemma eats_then1 [eats]:
  "\<lbrakk>eats n (\<lambda>_. True) m; returns (below n) k\<rbrakk> \<Longrightarrow> eats n C (thenP m k)"
  unfolding thenP_def by (rule eats_bind1)

lemma eats_then2 [eats]: "\<lbrakk>returns n m; eats n C k\<rbrakk> \<Longrightarrow> eats n C (thenP m k)"
  unfolding thenP_def by (rule eats_bind2)

lemma eats_ret [eats]: "\<not> C a \<Longrightarrow> eats n C (retP a)"
  by (auto simp: eats_def retP_def)

lemma eats_fail [eats]:
  "eats n C (failP e)" "eats n C (fail_here msg args)" "eats n C (fail_prev msg args)"
  "eats n C (\<lambda>p. Some (Panicked, p))"
  by (auto simp: eats_def failP_def fail_here_def fail_prev_def)

lemma eats_read [eats]: "returns n (readP f)"
  by (auto simp: eats_def readP_def)

lemma eats_skip [eats]: "returns n (\<lambda>p. Some (Parsed (), skip_kinds ks p))"
  by (auto simp: eats_def advances_skip)

lemma eats_newlines [eats]: "returns n newlines" "returns n separators"
  by (auto simp: eats_def newlines_def separators_def advances_skip)

lemma eats_inc [eats]: "returns n incP"
  by (auto simp: eats_def incP_def)

lemma eats_span [eats]: "returns n (SpanFrom b)"
  by (auto simp: eats_def SpanFrom_def)

lemma eats_finish [eats]: "(\<And>l. \<not> C (f l)) \<Longrightarrow> eats n C (finish b f)"
  unfolding finish_def by (intro eats_bind2 eats_span eats_ret)

lemma eats_builtin [eats]: "returns n (builtinP name)"
  by (auto simp: eats_def builtinP_def ConsumeBuiltin_def intro: advances_trans [OF advances_Inc])

lemma eats_expect [eats]:
  assumes "k \<noteq> TokenEof"
  shows "eats n C (expect_fmt k msg args)" "eats n C' (expect_get_fmt k msg args)"
    "eats n C' (expect_word k w msg)"
  using assms left_Inc
  by (auto simp: eats_def expect_fmt_def expect_get_fmt_def expect_word_def Parser_Expect_def
      Parser_ExpectGet_def Parser_Consume_def fail_prev_def)

lemma eats_accept [eats]:
  assumes ks: "TokenEof \<notin> set ks" and m1: "\<And>t. returns (below n) (m1 t)" and m2: "eats n C m2"
  shows "eats n C (acceptP ks m1 m2)"
  unfolding eats_def
proof (intro allI impI)
  fix p assume p: "left p < n"
  show "\<exists>r q. acceptP ks m1 m2 p = Some (r, q) \<and> advances p q \<and>
      (\<forall>a. r = Parsed a \<longrightarrow> C a \<longrightarrow> left q < left p)"
  proof (cases "Parser_Match ks p")
    case True
    then have l: "left (Parser_Inc p) < left p"
      using ks by (intro left_Inc) (auto simp: Parser_Match_def)
    obtain r q where "m1 (Parser_Peek p) (Parser_Inc p) = Some (r, q)" "advances (Parser_Inc p) q"
      using eatsD [OF m1 left_below [OF l p]] by metis
    then show ?thesis
      using True l advances_left [of "Parser_Inc p" q]
      by (auto simp: acceptP_def intro: advances_trans [OF advances_Inc])
  next
    case False
    then show ?thesis using m2 p by (auto simp: acceptP_def eats_def)
  qed
qed

lemma accept_word_acceptP:
  "accept_word k w m1 m2 = ifP (at_word k w) (acceptP [k] (\<lambda>_. m1) m2) m2"
  by (rule ext) (auto simp: accept_word_def ifP_def acceptP_def at_word_def)

lemma eats_if [eats]: "\<lbrakk>eats n C m1; eats n C m2\<rbrakk> \<Longrightarrow> eats n C (ifP c m1 m2)"
  by (auto simp: eats_def ifP_def)

lemma eats_accept_word [eats]:
  "\<lbrakk>k \<noteq> TokenEof; returns (below n) m1; eats n C m2\<rbrakk> \<Longrightarrow> eats n C (accept_word k w m1 m2)"
  unfolding accept_word_acceptP by (intro eats_if eats_accept) auto

lemma eats_bind_optional [eats]:
  "\<lbrakk>k \<noteq> TokenEof; returns (below n) (m True); eats n C (m False)\<rbrakk>
    \<Longrightarrow> eats n C (bindP (optionalP k) m)"
  unfolding optionalP_def
  by (rule eats_bind [where ?C1.0 = "\<lambda>b. b"]; (intro eats_accept eats_ret)?) auto

lemma eats_bind_optional_keyword [eats]:
  "\<lbrakk>returns (below n) (m True); eats n C (m False)\<rbrakk> \<Longrightarrow> eats n C (bindP (optional_keyword w) m)"
  unfolding optional_keyword_def
  by (rule eats_bind [where ?C1.0 = "\<lambda>b. b"]; (intro eats_accept_word eats_ret)?) auto

text \<open>A test that ensures a token, before the token is consumed.\<close>

lemma eats_if_inc:
  assumes c: "\<And>p. c p \<Longrightarrow> tok_Type (Parser_Peek p) \<noteq> TokenEof"
    and m1: "returns (below n) m1" and m2: "eats n C m2"
  shows "eats n C (ifP c (thenP incP m1) m2)"
  unfolding eats_def
proof (intro allI impI)
  fix p assume p: "left p < n"
  show "\<exists>r q. ifP c (thenP incP m1) m2 p = Some (r, q) \<and> advances p q \<and>
      (\<forall>a. r = Parsed a \<longrightarrow> C a \<longrightarrow> left q < left p)"
  proof (cases "c p")
    case True
    have l: "left (Parser_Inc p) < left p" using c [OF True] by (rule left_Inc)
    obtain r q where "m1 (Parser_Inc p) = Some (r, q)" "advances (Parser_Inc p) q"
      using eatsD [OF m1 left_below [OF l p]] by metis
    then show ?thesis
      using True l advances_left [of "Parser_Inc p" q]
      by (auto simp: ifP_def thenP_def bindP_def incP_def intro: advances_trans [OF advances_Inc])
  next
    case False
    then show ?thesis using m2 p by (auto simp: ifP_def eats_def)
  qed
qed

lemma eats_if_read_inc:
  assumes c: "\<And>p. c p \<Longrightarrow> tok_Type (Parser_Peek p) \<noteq> TokenEof"
    and m1: "\<And>x. returns (below n) (m1 x)" and m2: "eats n C m2"
  shows "eats n C (ifP c (bindP (readP f) (\<lambda>x. thenP incP (m1 x))) m2)"
proof -
  have "eats n C (ifP c (thenP incP (m1 x)) m2)" for x
    using assms by (intro eats_if_inc)
  then show ?thesis by (simp add: eats_def ifP_def bindP_def readP_def split: if_splits) metis
qed

section \<open>Loops and speculation\<close>

lemma eats_loop [eats]:
  assumes body: "\<And>s. eats n (\<lambda>r. case r of Inl s' \<Rightarrow> True | Inr a \<Rightarrow> C a) (body s)"
  shows "eats n C (loopP body s)"
  unfolding eats_def
proof (intro allI impI)
  fix p assume "left p < n"
  then show "\<exists>r q. loopP body s p = Some (r, q) \<and> advances p q \<and>
      (\<forall>a. r = Parsed a \<longrightarrow> C a \<longrightarrow> left q < left p)"
  proof (induction "left p" arbitrary: p s rule: less_induct)
    case less
    obtain r q where r: "body s p = Some (r, q)" "advances p q"
        "\<And>a. r = Parsed a \<Longrightarrow> (case a of Inl s' \<Rightarrow> True | Inr a \<Rightarrow> C a) \<Longrightarrow> left q < left p"
      using eatsD [OF body less.prems] by metis
    show ?case
    proof (cases "\<exists>s'. r = Parsed (Inl s')")
      case True
      then obtain s' where s': "r = Parsed (Inl s')" by blast
      then have l: "left q < left p" using r(3) by simp
      then obtain u q' where "loopP body s' q = Some (u, q')" "advances q q'"
        using less.hyps [OF l, of s'] less.prems by fastforce
      then show ?thesis
        using r s' l advances_left [of q q']
        by (subst loopP.simps) (auto intro: advances_trans)
    next
      case False
      then show ?thesis
        using r by (subst loopP.simps) (auto split: parsed.splits sum.splits)
    qed
  qed
qed

lemma eats_attempt:
  assumes "eats n C m"
  shows "eats n (\<lambda>r. case r of Inl e \<Rightarrow> False | Inr a \<Rightarrow> C a) (attemptP m)"
  unfolding eats_def
proof (intro allI impI)
  fix p assume p: "left p < n"
  obtain r q where "m p = Some (r, q)" "advances p q"
      "\<And>a. r = Parsed a \<Longrightarrow> C a \<Longrightarrow> left q < left p"
    using eatsD [OF assms p] by metis
  then show "\<exists>r q. attemptP m p = Some (r, q) \<and> advances p q \<and>
      (\<forall>a. r = Parsed a \<longrightarrow> (case a of Inl e \<Rightarrow> False | Inr a \<Rightarrow> C a) \<longrightarrow> left q < left p)"
    by (cases r) (auto simp: attemptP_def)
qed

lemma eats_bind_attempt [eats]:
  assumes "eats n (\<lambda>_. True) m" "\<And>a. returns (below n) (k (Inr a))" "\<And>e. eats n C (k (Inl e))"
  shows "eats n C (bindP (attemptP m) k)"
  by (rule eats_bind [OF eats_attempt [OF assms(1)]]) (auto split: sum.splits intro: assms)

lemma eats_bind_attempt2 [eats]:
  assumes "returns n m" "\<And>a. eats n C (k a)"
  shows "eats n C (bindP (attemptP m) k)"
  by (rule eats_bind [OF eats_attempt [OF assms(1)]]) (auto split: sum.splits intro: assms)

lemma eats_speculate:
  assumes "eats n C m"
  shows "eats n (\<lambda>r. case r of None \<Rightarrow> False | Some a \<Rightarrow> C a) (speculate m keep)"
  unfolding eats_def
proof (intro allI impI)
  fix p assume "left p < n"
  then have "left (PushPos p) < n" by simp
  from eatsD [OF assms this] obtain r q where r: "m (PushPos p) = Some (r, q)"
      "advances (PushPos p) q" "\<And>a. r = Parsed a \<Longrightarrow> C a \<Longrightarrow> left q < left p" by auto
  then show "\<exists>r q. speculate m keep p = Some (r, q) \<and> advances p q \<and>
      (\<forall>a. r = Parsed a \<longrightarrow> (case a of None \<Rightarrow> False | Some a \<Rightarrow> C a) \<longrightarrow> left q < left p)"
    using advances_Commit [OF r(2)] advances_Pop [OF r(2)]
      advances_trans [OF advances_PushPos r(2)]
    by (auto simp: speculate_def split: parsed.splits)
qed

lemma eats_bind_speculate [eats]:
  assumes "eats n (\<lambda>_. True) m" "\<And>a. returns (below n) (k (Some a))" "eats n C (k None)"
  shows "eats n C (bindP (speculate m keep) k)"
  by (rule eats_bind [OF eats_speculate [OF assms(1)]]) (auto split: option.splits intro: assms)

lemma eats_keep_if:
  assumes "eats n C m"
  shows "eats n (\<lambda>r. case r of None \<Rightarrow> False | Some a \<Rightarrow> C a) (keep_if m keep)"
  unfolding eats_def
proof (intro allI impI)
  fix p assume "left p < n"
  from eatsD [OF assms this] obtain r q where r: "m p = Some (r, q)" "advances p q"
      "\<And>a. r = Parsed a \<Longrightarrow> C a \<Longrightarrow> left q < left p" by auto
  then show "\<exists>r q. keep_if m keep p = Some (r, q) \<and> advances p q \<and>
      (\<forall>a. r = Parsed a \<longrightarrow> (case a of None \<Rightarrow> False | Some a \<Rightarrow> C a) \<longrightarrow> left q < left p)"
    using advances_restore [OF r(2)]
    by (auto simp: keep_if_def Let_def split: parsed.splits)
qed

lemma eats_or_else [eats]:
  assumes m1: "eats n C m1" and m2: "eats n C m2"
  shows "eats n C (or_else m1 m2)"
  unfolding eats_def
proof (intro allI impI)
  fix p assume p: "left p < n"
  obtain r q where r: "m1 p = Some (r, q)" "advances p q"
      "\<And>a. r = Parsed a \<Longrightarrow> C a \<Longrightarrow> left q < left p"
    using eatsD [OF m1 p] by metis
  let ?b = "q\<lparr>p_pos := p_pos p\<rparr>"
  have restored: "advances p ?b" using r(2) by (rule advances_back) simp
  have "left ?b < n" using r(2) p by simp
  then obtain s q' where s: "m2 ?b = Some (s, q')" "advances ?b q'"
      "\<And>a. s = Parsed a \<Longrightarrow> C a \<Longrightarrow> left q' < left ?b"
    using eatsD [OF m2] by metis
  then show "\<exists>r q. or_else m1 m2 p = Some (r, q) \<and> advances p q \<and>
      (\<forall>a. r = Parsed a \<longrightarrow> C a \<longrightarrow> left q < left p)"
    using r advances_trans [OF restored] by (cases r) (auto simp: or_else_def)
qed

lemma eats_unless_from [eats]:
  assumes m1: "eats n C m1" and m2: "eats n C m2"
  shows "eats n C (unless_from m1 redo m2)"
  unfolding eats_def
proof (intro allI impI)
  fix p assume p: "left p < n"
  obtain r q where r: "m1 p = Some (r, q)" "advances p q"
      "\<And>a. r = Parsed a \<Longrightarrow> C a \<Longrightarrow> left q < left p"
    using eatsD [OF m1 p] by metis
  let ?b = "q\<lparr>p_pos := p_pos p\<rparr>"
  have restored: "advances p ?b" using r(2) by (rule advances_back) simp
  have "left ?b < n" using r(2) p by simp
  then obtain s q' where s: "m2 ?b = Some (s, q')" "advances ?b q'"
      "\<And>a. s = Parsed a \<Longrightarrow> C a \<Longrightarrow> left q' < left ?b"
    using eatsD [OF m2] by metis
  then show "\<exists>r q. unless_from m1 redo m2 p = Some (r, q) \<and> advances p q \<and>
      (\<forall>a. r = Parsed a \<longrightarrow> C a \<longrightarrow> left q < left p)"
    using r advances_trans [OF restored] by (cases r) (auto simp: unless_from_def)
qed

lemma skip_kinds_back: "(skip_kinds ks p)\<lparr>p_pos := i\<rparr> = p\<lparr>p_pos := i\<rparr>"
proof (induction ks p rule: skip_kinds.induct)
  case (1 ks p)
  then show ?case by (subst skip_kinds.simps) (simp add: Parser_Inc_def)
qed

lemma eats_after_newlines [eats]:
  assumes "eats n C m1" "eats n C m2"
  shows "eats n C (after_newlines c m1 m2)"
  unfolding eats_def
proof (intro allI impI)
  fix p assume p: "left p < n"
  let ?q = "skip_kinds [TokenNewline] p"
  have "left ?q \<le> left p" by (rule advances_left [OF advances_skip])
  then obtain r q where "m1 ?q = Some (r, q)" "advances ?q q"
      "\<And>a. r = Parsed a \<Longrightarrow> C a \<Longrightarrow> left q < left ?q"
    using eatsD [OF assms(1), of ?q] p by (metis order.strict_trans1)
  moreover obtain s q' where "m2 p = Some (s, q')" "advances p q'"
      "\<And>a. s = Parsed a \<Longrightarrow> C a \<Longrightarrow> left q' < left p"
    using eatsD [OF assms(2) p] by metis
  ultimately show "\<exists>r q. after_newlines c m1 m2 p = Some (r, q) \<and> advances p q \<and>
      (\<forall>a. r = Parsed a \<longrightarrow> C a \<longrightarrow> left q < left p)"
    using advances_skip [of p "[TokenNewline]"] \<open>left ?q \<le> left p\<close>
    by (auto simp: after_newlines_def Let_def skip_kinds_back
        intro: advances_trans order.strict_trans2)
qed

lemma eats_captures [eats]: "eats n C m \<Longrightarrow> eats n C (with_captures m)"
  unfolding eats_def
proof (intro allI impI)
  fix p assume h: "\<forall>p. left p < n \<longrightarrow> (\<exists>r q. m p = Some (r, q) \<and> advances p q \<and>
      (\<forall>a. r = Parsed a \<longrightarrow> C a \<longrightarrow> left q < left p))" and "left p < n"
  then have "left (p\<lparr>p_allowTypeCapture := True\<rparr>) < n" by simp
  with h obtain r q where "m (p\<lparr>p_allowTypeCapture := True\<rparr>) = Some (r, q)"
      "advances (p\<lparr>p_allowTypeCapture := True\<rparr>) q"
      "\<forall>a. r = Parsed a \<longrightarrow> C a \<longrightarrow> left q < left p" by (metis left_capture)
  then show "\<exists>r q. with_captures m p = Some (r, q) \<and> advances p q \<and>
      (\<forall>a. r = Parsed a \<longrightarrow> C a \<longrightarrow> left q < left p)"
    by (auto simp: with_captures_def advances_capture)
qed

lemma eats_with_semicolon [eats]: "eats n (\<lambda>_. True) m \<Longrightarrow> eats n C (with_semicolon b m)"
  unfolding with_semicolon_def by (intro eats_bind1 eats_ret) auto

text \<open>Case distinctions of the methods.\<close>

lemma eats_cond [eats]:
  "\<lbrakk>b \<Longrightarrow> eats n C m1; \<not> b \<Longrightarrow> eats n C m2\<rbrakk> \<Longrightarrow> eats n C (if b then m1 else m2)"
  by simp

lemma eats_case_prod [eats]:
  "(\<And>a b. x = (a, b) \<Longrightarrow> eats n C (k a b)) \<Longrightarrow> eats n C (case x of (a, b) \<Rightarrow> k a b)"
  by (cases x) simp

lemma eats_case_option [eats]:
  "\<lbrakk>x = None \<Longrightarrow> eats n C m; \<And>a. x = Some a \<Longrightarrow> eats n C (k a)\<rbrakk>
    \<Longrightarrow> eats n C (case x of None \<Rightarrow> m | Some a \<Rightarrow> k a)"
  by (cases x) simp_all

lemma eats_case_sum [eats]:
  "\<lbrakk>\<And>a. eats n C (h a); \<And>a. eats n C (k a)\<rbrakk> \<Longrightarrow> eats n C (case x of Inl a \<Rightarrow> h a | Inr a \<Rightarrow> k a)"
  by (cases x) simp_all

lemma eats_Let [eats]: "eats n C (k x) \<Longrightarrow> eats n C (Let x k)"
  by simp

section \<open>Recovery\<close>

text \<open>The recursive calls of these loops are at the next position, with any other arguments.\<close>

lemma scan_induct [case_names step]:
  assumes "\<And>p. (p_pos p < length (p_tokens p) \<Longrightarrow> Q (Parser_Inc p)) \<Longrightarrow> Q p"
  shows "Q p"
proof (induction "length (p_tokens p) - p_pos p" arbitrary: p rule: less_induct)
  case less
  show ?case by (rule assms, rule less) (simp_all add: Parser_Inc_def)
qed

lemma sync_top_loop_advances: "advances p (sync_top_loop d b p)"
proof (induction p arbitrary: d b rule: scan_induct)
  case (step p)
  then have "advances p (sync_top_loop d' b' (Parser_Inc p))"
    if "p_pos p < length (p_tokens p)" for d' b'
    using that advances_trans [OF advances_Inc] by blast
  then show ?case by (subst sync_top_loop.simps) (simp add: Parser_Consume_def)
qed

lemma sync_statement_loop_advances: "advances p (sync_statement_loop d p)"
proof (induction p arbitrary: d rule: scan_induct)
  case (step p)
  then have "advances p (sync_statement_loop d' (Parser_Inc p))"
    if "p_pos p < length (p_tokens p)" for d'
    using that advances_trans [OF advances_Inc] by blast
  then show ?case by (subst sync_statement_loop.simps) (simp add: Parser_Consume_def)
qed

lemma condition_end_step:
  "condition_end a b p = (False, p) \<or>
   p_pos p < length (p_tokens p) \<and>
     (condition_end a b p = (True, p) \<or>
      (\<exists>a' b'. condition_end a b p = condition_end a' b' (Parser_Inc p)))"
  by (cases "tok_Type (Parser_Peek p)") (auto simp: condition_end.simps [of a b p])

lemma condition_end_advances: "advances p (snd (condition_end a b p))"
proof (induction p arbitrary: a b rule: scan_induct)
  case (step p)
  then show ?case
    using condition_end_step [of a b p] by (auto intro: advances_trans [OF advances_Inc])
qed

lemma condition_end_before:
  "condition_end a b p = (True, q) \<Longrightarrow> p_pos q < length (p_tokens q)"
proof (induction p arbitrary: a b rule: scan_induct)
  case (step p)
  show ?case using condition_end_step [of a b p] step by auto
qed

lemma advances_clear [simp]: "advances p (p\<lparr>p_posStack := []\<rparr>)"
  by (auto simp: advances_def intro!: exI [of _ "[]"])

lemma Peek_in_range: "tok_Type (Parser_Peek p) \<noteq> TokenEof \<Longrightarrow> p_pos p < length (p_tokens p)"
  by (auto simp: Parser_Peek_def eof_token_def split: if_splits)

lemma Peek_clear [simp]: "Parser_Peek (p\<lparr>p_posStack := s\<rparr>) = Parser_Peek p"
  by (simp add: Parser_Peek_def)

lemma left_clear [simp]: "left (p\<lparr>p_posStack := s\<rparr>) = left p"
  by (simp add: left_def)

lemma sync_top_loop_eats:
  assumes "tok_Type (Parser_Peek p) \<noteq> TokenEof" "\<not> isTopLevelStart (Parser_Peek p)"
  shows "left (sync_top_loop d b p) < left p"
proof -
  have "left (sync_top_loop d b p) \<le> left (Parser_Inc p)"
    using assms Peek_in_range [OF assms(1)] advances_left [OF sync_top_loop_advances]
    by (subst sync_top_loop.simps) (auto simp: Parser_Match_def Parser_Consume_def)
  then show ?thesis using left_Inc [OF assms(1)] by simp
qed

lemma sync_statement_loop_eats:
  assumes "tok_Type (Parser_Peek p) \<notin> {TokenEof, TokenCloseCurly}"
  shows "left (sync_statement_loop d p) < left p"
proof -
  have p: "tok_Type (Parser_Peek p) \<noteq> TokenEof" using assms by simp
  have "left (sync_statement_loop d p) \<le> left (Parser_Inc p)"
    using assms Peek_in_range [OF p] advances_left [OF sync_statement_loop_advances]
    by (subst sync_statement_loop.simps) (auto simp: Parser_Match_def Parser_Consume_def)
  then show ?thesis using left_Inc [OF p] by simp
qed

lemma eats_synchroniseTopLevel [eats]: "returns n synchroniseTopLevel"
  using advances_trans [OF advances_clear sync_top_loop_advances]
  by (auto simp: eats_def synchroniseTopLevel_def thenP_def bindP_def clear_stack_def at_boundary_def)

lemma bites_synchroniseTopLevel:
  "bites n (\<lambda>p. \<not> isTopLevelStart (Parser_Peek p) \<and> tok_Type (Parser_Peek p) \<noteq> TokenEof)
    synchroniseTopLevel"
  using advances_trans [OF advances_clear sync_top_loop_advances]
    sync_top_loop_eats [of "p\<lparr>p_posStack := []\<rparr>" for p]
  by (auto simp: bites_def synchroniseTopLevel_def thenP_def bindP_def clear_stack_def
      at_boundary_def)

lemma eats_synchroniseStatement [eats]: "returns n synchroniseStatement"
  using advances_trans [OF advances_clear sync_statement_loop_advances]
  by (auto simp: eats_def synchroniseStatement_def thenP_def bindP_def clear_stack_def
      at_boundary_def ifP_def retP_def)

lemma bites_synchroniseStatement:
  "bites n (\<lambda>p. \<not> isStatementStart (Parser_Peek p) \<and>
      tok_Type (Parser_Peek p) \<notin> {TokenEof, TokenCloseCurly}) synchroniseStatement"
  using advances_trans [OF advances_clear sync_statement_loop_advances]
    sync_statement_loop_eats [of "p\<lparr>p_posStack := []\<rparr>" for p]
  by (auto simp: bites_def synchroniseStatement_def thenP_def bindP_def clear_stack_def
      at_boundary_def ifP_def retP_def)

text \<open>
  A judgement for the states whose next token satisfies \<open>P\<close>. Where the first parser of a sequence
  has not moved, the second one sees the same token.
\<close>

definition eats_at :: "nat \<Rightarrow> (Token \<Rightarrow> bool) \<Rightarrow> ('a \<Rightarrow> bool) \<Rightarrow> 'a parser \<Rightarrow> bool" where
  "eats_at n P C m \<longleftrightarrow>
    (\<forall>p. left p < n \<longrightarrow> P (Parser_Peek p) \<longrightarrow>
      (\<exists>r q. m p = Some (r, q) \<and> advances p q \<and> (\<forall>a. r = Parsed a \<longrightarrow> C a \<longrightarrow> left q < left p)))"

lemma eats_atD:
  assumes "eats_at n P C m" "left p < n" "P (Parser_Peek p)"
  obtains r q where "m p = Some (r, q)" "advances p q" "\<And>a. r = Parsed a \<Longrightarrow> C a \<Longrightarrow> left q < left p"
  using assms unfolding eats_at_def by blast

lemma bitesD:
  assumes "bites n S m" "left p < n" "S p"
  obtains r q where "m p = Some (r, q)" "advances p q" "r \<noteq> Panicked \<Longrightarrow> left q < left p"
  using assms unfolding bites_def by blast

lemma eats_eats_at: "eats n C m \<Longrightarrow> eats_at n P C m"
  by (simp add: eats_def eats_at_def)

lemma eats_if_at:
  "\<lbrakk>eats n C m1; eats_at n (\<lambda>t. tok_Type t \<notin> set ks) C m2\<rbrakk>
    \<Longrightarrow> eats n C (ifP (Parser_Match ks) m1 m2)"
  by (auto simp: eats_def eats_at_def ifP_def Parser_Match_def)

lemma eats_at_if: "\<lbrakk>eats_at n P C m1; eats_at n P C m2\<rbrakk> \<Longrightarrow> eats_at n P C (ifP c m1 m2)"
  by (auto simp: eats_at_def ifP_def)

lemma Peek_same: "advances p q \<Longrightarrow> p_pos q = p_pos p \<Longrightarrow> Parser_Peek q = Parser_Peek p"
  by (simp add: advances_def Parser_Peek_def)

lemma left_same:
  "\<lbrakk>advances p q; \<not> left q < left p; p_pos p < length (p_tokens p)\<rbrakk> \<Longrightarrow> p_pos q = p_pos p"
  by (auto simp: advances_def left_def)

lemma eats_at_separators:
  assumes P: "\<And>t. P t \<Longrightarrow> tok_Type t \<noteq> TokenEof"
    and m: "eats_at n P C m" "returns n m"
  shows "eats_at n P C (thenP separators m)"
  unfolding eats_at_def
proof (intro allI impI)
  fix p assume p: "left p < n" "P (Parser_Peek p)"
  let ?q = "skip_kinds [TokenNewline, TokenSemicolon] p"
  have q: "advances p ?q" by (rule advances_skip)
  have l: "left ?q \<le> left p" by (rule advances_left [OF q])
  show "\<exists>r q. thenP separators m p = Some (r, q) \<and> advances p q \<and>
      (\<forall>a. r = Parsed a \<longrightarrow> C a \<longrightarrow> left q < left p)"
  proof (cases "left ?q < left p")
    case True
    then obtain r u where "m ?q = Some (r, u)" "advances ?q u"
      using eatsD [OF m(2), of ?q] p(1) by (metis order.strict_trans)
    then show ?thesis
      using True q advances_left [of ?q u]
      by (auto simp: thenP_def bindP_def separators_def intro: advances_trans)
  next
    case False
    have "p_pos p < length (p_tokens p)" using P [OF p(2)] by (rule Peek_in_range)
    then have "Parser_Peek ?q = Parser_Peek p"
      using Peek_same [OF q left_same [OF q False]] by simp
    then obtain r u where "m ?q = Some (r, u)" "advances ?q u"
        "\<And>a. r = Parsed a \<Longrightarrow> C a \<Longrightarrow> left u < left ?q"
      using eats_atD [OF m(1), of ?q] p l by (metis order.strict_trans1)
    then show ?thesis
      using q l by (auto simp: thenP_def bindP_def separators_def intro: advances_trans)
  qed
qed

text \<open>
  Recovery makes progress: where \<open>m\<close> fails without consuming a token, the next token is not a
  start, and then \<open>sync\<close> consumes one.
\<close>

lemma eats_at_recover:
  assumes m: "eats n (\<lambda>_. True) m" "bites n (\<lambda>p. S (Parser_Peek p)) m"
    and sync: "returns n sync" "bites n (\<lambda>p. \<not> S (Parser_Peek p) \<and> P (Parser_Peek p)) sync"
    and P: "\<And>t. P t \<Longrightarrow> tok_Type t \<noteq> TokenEof"
    and k: "\<And>e. returns n (k1 e)" "\<And>a. returns n (k2 a)"
  shows "eats_at n P C
    (bindP (attemptP m) (\<lambda>r. case r of Inl e \<Rightarrow> thenP sync (k1 e) | Inr a \<Rightarrow> k2 a))"
  unfolding eats_at_def
proof (intro allI impI)
  fix p assume p: "left p < n" "P (Parser_Peek p)"
  let ?m = "bindP (attemptP m) (\<lambda>r. case r of Inl e \<Rightarrow> thenP sync (k1 e) | Inr a \<Rightarrow> k2 a)"
  have pos: "p_pos p < length (p_tokens p)" using P [OF p(2)] by (rule Peek_in_range)
  obtain r q where r: "m p = Some (r, q)" "advances p q" "\<And>a. r = Parsed a \<Longrightarrow> left q < left p"
    using eatsD [OF m(1) p(1)] by metis
  have ln: "left q < n" using advances_left [OF r(2)] p(1) by simp
  show "\<exists>r q. ?m p = Some (r, q) \<and> advances p q \<and>
      (\<forall>a. r = Parsed a \<longrightarrow> C a \<longrightarrow> left q < left p)"
  proof (cases r)
    case (Parsed a)
    obtain s u where "k2 a q = Some (s, u)" "advances q u" using eatsD [OF k(2) ln] by metis
    then show ?thesis
      using r Parsed advances_left [of q u]
      by (auto simp: bindP_def attemptP_def intro: advances_trans order.strict_trans1)
  next
    case (Failed e)
    obtain s u where s: "sync q = Some (s, u)" "advances q u"
        "left q < left p \<or> s = Panicked \<or> left u < left q"
    proof (cases "left q < left p")
      case True
      obtain s u where "sync q = Some (s, u)" "advances q u"
        using eatsD [OF sync(1) ln] by metis
      then show thesis using True that by blast
    next
      case False
      then have peek: "Parser_Peek q = Parser_Peek p"
        using Peek_same [OF r(2) left_same [OF r(2) _ pos]] by simp
      have "\<not> S (Parser_Peek p)"
        using bitesD [OF m(2) p(1)] r(1) Failed False by fastforce
      then obtain s u where "sync q = Some (s, u)" "advances q u"
          "s \<noteq> Panicked \<Longrightarrow> left u < left q"
        using bitesD [OF sync(2) ln] p(2) peek by metis
      then show thesis using that by blast
    qed
    have lu: "left u \<le> left q" "left q \<le> left p"
      using advances_left [OF s(2)] advances_left [OF r(2)] by simp_all
    then obtain v w where v: "k1 e u = Some (v, w)" "advances u w"
      using eatsD [OF k(1), of u e] ln by (metis order.strict_trans1)
    have "left w \<le> left u" by (rule advances_left [OF v(2)])
    then show ?thesis
      using r Failed s v lu advances_trans [OF r(2) advances_trans [OF s(2) v(2)]]
        advances_trans [OF r(2) s(2)]
      by (cases s) (auto simp: bindP_def attemptP_def thenP_def)
  qed (use r in \<open>auto simp: bindP_def attemptP_def\<close>)
qed

section \<open>Calls\<close>

text \<open>
  The states in which a call consumes a token even if it fails, \<open>start\<close>, and the calls that
  consume a token when they succeed, \<open>consumes\<close>. \<open>good n R c\<close> is the hypothesis on the recursive
  call \<open>c\<close>, for states with fewer than \<open>n\<close> tokens left, and \<open>okb n R\<close> the hypothesis on all calls
  once a token has been consumed.
\<close>

definition expression_start :: "Parser \<Rightarrow> bool" where
  "expression_start p \<longleftrightarrow>
    tok_Type (Parser_Peek p) = TokenIdentifier \<or> at_keyword ''match'' p"

fun start :: "call \<Rightarrow> Parser \<Rightarrow> bool" where
  "start CallExpression p = expression_start p"
| "start (CallBlock e) p = (tok_Type (Parser_Peek p) = TokenOpenCurly)"
| "start CallStatement p = isStatementStart (Parser_Peek p)"
| "start CallTopLevel p = isTopLevelStart (Parser_Peek p)"
| "start _ p = False"

lemma start_eq:
  "start CallExpression = expression_start"
  "start (CallBlock e) = (\<lambda>p. tok_Type (Parser_Peek p) = TokenOpenCurly)"
  "start CallStatement = (\<lambda>p. isStatementStart (Parser_Peek p))"
  "start CallTopLevel = (\<lambda>p. isTopLevelStart (Parser_Peek p))"
  by (rule ext, simp)+

fun consumes :: "call \<Rightarrow> bool" where
  "consumes (CallLinkItems k) = False"
| "consumes _ = True"

definition good :: "nat \<Rightarrow> calls \<Rightarrow> call \<Rightarrow> bool" where
  "good n R c \<longleftrightarrow> eats n (\<lambda>_. consumes c) (R c) \<and> bites n (start c) (R c)"

definition okb :: "nat \<Rightarrow> calls \<Rightarrow> bool" where
  "okb n R \<longleftrightarrow> (\<forall>c. good (below n) R c)"

lemma good_le: "good n R c \<Longrightarrow> k \<le> n \<Longrightarrow> good k R c"
  unfolding good_def by (blast intro: eats_weaken bites_weaken)

lemma below_le: "below n \<le> n"
  by (simp add: below_def)

text \<open>
  The hypotheses on the calls a method can make before it has consumed a token: none (\<open>okb\<close>),
  blocks (\<open>ok1\<close>, expressions), blocks and expressions (\<open>ok2\<close>, statements), any (\<open>okn\<close>, parts
  of methods that run after a token has been consumed).
\<close>

definition ok1 :: "nat \<Rightarrow> calls \<Rightarrow> bool" where
  "ok1 n R \<longleftrightarrow> okb n R \<and> (\<forall>e. good n R (CallBlock e))"

definition ok2 :: "nat \<Rightarrow> calls \<Rightarrow> bool" where
  "ok2 n R \<longleftrightarrow> ok1 n R \<and> good n R CallExpression"

definition okn :: "nat \<Rightarrow> calls \<Rightarrow> bool" where
  "okn n R \<longleftrightarrow> (\<forall>c. good n R c)"

lemma okb_ok1 [eats]: "ok1 n R \<Longrightarrow> okb n R"
  by (simp add: ok1_def)

lemma ok1_ok2 [eats]: "ok2 n R \<Longrightarrow> ok1 n R"
  by (simp add: ok2_def)

lemma ok2_okn [eats]: "okn n R \<Longrightarrow> ok2 n R"
  unfolding ok2_def ok1_def okb_def okn_def using good_le below_le by blast

lemma okn_below [eats]: "okb n R \<Longrightarrow> okn (below n) R"
  by (simp add: okb_def okn_def)

lemma good_okn [eats]: "okn n R \<Longrightarrow> good n R c"
  by (simp add: okn_def)

lemma good_block [eats]: "ok1 n R \<Longrightarrow> good n R (CallBlock e)"
  by (simp add: ok1_def)

lemma good_expression [eats]: "ok2 n R \<Longrightarrow> good n R CallExpression"
  by (simp add: ok2_def)

lemma eats_callP [eats]: "\<lbrakk>good n R c; consumes c\<rbrakk> \<Longrightarrow> eats n C (callP R c)"
  unfolding callP_def good_def
  by (rule eats_bind1) (auto split: reply.splits intro: eats_ret eats_fail)

lemma eats_call_statement [eats]: "good n R CallStatement \<Longrightarrow> eats n C (call_statement R)"
  unfolding call_statement_def good_def
  by (rule eats_bind1) (auto split: reply.splits intro: eats_ret eats_fail)

lemma eats_call_link_items [eats]:
  "good n R (CallLinkItems k) \<Longrightarrow> returns n (call_link_items R k)"
  unfolding call_link_items_def good_def
  by (rule eats_bind2) (auto split: reply.splits intro: eats_ret eats_fail)

lemma bites_bind:
  assumes m: "bites n S m" and k: "\<And>a. returns (below n) (k a)"
  shows "bites n S (bindP m k)"
  unfolding bites_def
proof (intro allI impI)
  fix p assume p: "left p < n" "S p"
  obtain r q where r: "m p = Some (r, q)" "advances p q" "r \<noteq> Panicked \<Longrightarrow> left q < left p"
    using bitesD [OF m p] by metis
  show "\<exists>r q. bindP m k p = Some (r, q) \<and> advances p q \<and> (r \<noteq> Panicked \<longrightarrow> left q < left p)"
  proof (cases r)
    case (Parsed a)
    then have l: "left q < left p" using r(3) by simp
    obtain s u where s: "k a q = Some (s, u)" "advances q u"
      using eatsD [OF k left_below [OF l p(1)]] by metis
    then show ?thesis
      using r(1) l Parsed advances_left [OF s(2)] advances_trans [OF r(2) s(2)]
      by (auto simp: bindP_def)
  qed (use r in \<open>auto simp: bindP_def\<close>)
qed

lemma bites_pre: "bites n S m \<Longrightarrow> (\<And>p. T p \<Longrightarrow> S p) \<Longrightarrow> bites n T m"
  by (simp add: bites_def)

lemma bites_callP: "good n R c \<Longrightarrow> bites n (start c) (callP R c)"
  unfolding callP_def good_def
  by (rule bites_bind) (auto split: reply.splits intro: eats_ret eats_fail)

lemma bites_call_statement:
  "good n R CallStatement \<Longrightarrow> bites n (start CallStatement) (call_statement R)"
  unfolding call_statement_def good_def
  by (rule bites_bind) (auto split: reply.splits intro: eats_ret eats_fail)

text \<open>The loops that recover.\<close>

abbreviation goes_on :: "('s + 'a) \<Rightarrow> bool" where
  "goes_on r \<equiv> case r of Inl s \<Rightarrow> True | Inr a \<Rightarrow> False"

lemma eats_when_declarations [eats]:
  assumes R: "okn n R"
  shows "returns n
      (loopP (\<lambda>(body, errs).
         ifP (Parser_Match [TokenCloseCurly, TokenEof]) (breakP (body, errs)) (
         thenP separators (
         ifP (Parser_Match [TokenCloseCurly]) (breakP (body, errs)) (
         bindP (attemptP (callP R CallTopLevel)) (\<lambda>r.
         case r of
           Inl e \<Rightarrow> thenP synchroniseTopLevel (againP (body, errs @ [e]))
         | Inr node \<Rightarrow>
             ifP (Parser_Match [TokenCloseCurly, TokenNewline, TokenSemicolon])
               (againP (body @ [node], errs))
               (bindP (readP CurrLoc) (\<lambda>l.
                thenP synchroniseTopLevel
                  (againP (body @ [node],
                     errs @ [ParseError l ''expected declaration separator in when block'' []])))))))))
         s)"
proof (rule eats_loop, unfold split_paired_all prod.case, rule eats_if_at)
  fix body errs
  let ?P = "\<lambda>t. tok_Type t \<notin> set [TokenCloseCurly, TokenEof]"
  let ?m = "bindP (attemptP (callP R CallTopLevel)) (\<lambda>r.
         case r of
           Inl e \<Rightarrow> thenP synchroniseTopLevel (againP (body, errs @ [e]))
         | Inr node \<Rightarrow>
             ifP (Parser_Match [TokenCloseCurly, TokenNewline, TokenSemicolon])
               (againP (body @ [node], errs))
               (bindP (readP CurrLoc) (\<lambda>l.
                thenP synchroniseTopLevel
                  (againP (body @ [node],
                     errs @ [ParseError l ''expected declaration separator in when block'' []])))))"
  have top: "eats n (\<lambda>_. True) (callP R CallTopLevel)"
    "bites n (\<lambda>p. isTopLevelStart (Parser_Peek p)) (callP R CallTopLevel)"
    using R bites_callP [of n R CallTopLevel] by (simp_all add: eats start_eq)
  have m: "eats_at n ?P goes_on ?m"
    by (rule eats_at_recover [OF top eats_synchroniseTopLevel
          bites_pre [OF bites_synchroniseTopLevel]]) (auto simp: eats)
  have "returns n ?m" using R by (simp add: eats)
  then show "eats_at n ?P goes_on (thenP separators
      (ifP (Parser_Match [TokenCloseCurly]) (breakP (body, errs)) ?m))"
    using m by (intro eats_at_separators eats_at_if eats_if) (auto intro: eats_eats_at simp: eats)
qed (simp add: eats)

lemma tail_expression_back:
  assumes R: "okn n R" and p: "left p < n"
  obtains r q where "tail_expression R p = Some (r, q)" "advances p q"
    "r = Parsed None \<Longrightarrow> p_pos q = p_pos p"
    "\<And>e. r = Parsed (Some e) \<Longrightarrow> left q < left p"
proof -
  let ?m = "bindP (callP R CallExpression) (\<lambda>e. thenP separators (retP e))"
  have "eats n (\<lambda>_. True) ?m" using R by (simp add: eats)
  then obtain r q where r: "?m p = Some (r, q)" "advances p q" "\<And>a. r = Parsed a \<Longrightarrow> left q < left p"
    using eatsD [of n "\<lambda>_. True" ?m p] p by metis
  show thesis
    using r advances_restore [OF r(2)] that
    by (cases r; cases "Parser_Match [TokenCloseCurly] q")
      (auto simp: tail_expression_def keep_if_def Let_def)
qed

lemma eats_at_bind_tail:
  assumes R: "okn n R" and k: "eats_at n P C (k None)" "\<And>e. returns n (k (Some e))"
  shows "eats_at n P C (bindP (tail_expression R) k)"
  unfolding eats_at_def
proof (intro allI impI)
  fix p assume p: "left p < n" "P (Parser_Peek p)"
  obtain r q where r: "tail_expression R p = Some (r, q)" "advances p q"
      "r = Parsed None \<Longrightarrow> p_pos q = p_pos p" "\<And>e. r = Parsed (Some e) \<Longrightarrow> left q < left p"
    using tail_expression_back [OF R p(1)] by metis
  have q: "left q < n" using advances_left [OF r(2)] p(1) by simp
  consider "r = Parsed None" | e where "r = Parsed (Some e)" | e where "r = Failed e" | "r = Panicked"
    by (metis option.exhaust parsed.exhaust)
  then show "\<exists>r q. bindP (tail_expression R) k p = Some (r, q) \<and> advances p q \<and>
      (\<forall>a. r = Parsed a \<longrightarrow> C a \<longrightarrow> left q < left p)"
  proof cases
    case 1
    then have "P (Parser_Peek q)" using Peek_same [OF r(2)] r(3) p(2) by simp
    then obtain s u where "k None q = Some (s, u)" "advances q u"
        "\<And>a. s = Parsed a \<Longrightarrow> C a \<Longrightarrow> left u < left q"
      using eats_atD [OF k(1) q] by metis
    then show ?thesis
      using 1 r(1,2) advances_left [OF r(2)]
      by (auto simp: bindP_def intro: advances_trans order.strict_trans2)
  next
    case 2
    obtain s u where "k (Some e) q = Some (s, u)" "advances q u"
      using eatsD [OF k(2) q] by metis
    then show ?thesis
      using 2 r advances_left [of q u]
      by (auto simp: bindP_def intro: advances_trans order.strict_trans1)
  qed (use r in \<open>auto simp: bindP_def\<close>)
qed

lemma eats_block_statements [eats]:
  assumes R: "okn n R"
  shows "returns n (block_statements R expression)"
  unfolding block_statements_def
proof (rule eats_loop, unfold split_paired_all prod.case, rule eats_if_at)
  fix children errs
  let ?P = "\<lambda>t. tok_Type t \<notin> set [TokenCloseCurly, TokenEof]"
  let ?k = "bindP (attemptP (call_statement R)) (\<lambda>r.
          case r of
            Inl e \<Rightarrow> thenP synchroniseStatement (againP (children, errs @ [e]))
          | Inr x \<Rightarrow>
              (case x of (stmt, semiNeeded) \<Rightarrow>
              let children' = children @ [stmt] in
              ifP (Parser_Match [TokenCloseCurly]) (breakP (children', errs)) (
              ifP (\<lambda>p. semiNeeded \<and> \<not> Parser_Match [TokenSemicolon, TokenNewline] p)
                (bindP (readP CurrLoc) (\<lambda>l.
                 thenP synchroniseStatement
                   (againP (children',
                      errs @ [ParseError l ''expected `;` or newline to end statement'' []]))))
                (thenP separators (againP (children', errs))))))"
  let ?f = "\<lambda>value. case value of None \<Rightarrow> ?k | Some expr \<Rightarrow> breakP (children @ [expr], errs)"
  have statement: "eats n (\<lambda>_. True) (call_statement R)"
    "bites n (\<lambda>p. isStatementStart (Parser_Peek p)) (call_statement R)"
    using R bites_call_statement [of n R] by (simp_all add: eats start_eq)
  have k: "eats_at n ?P goes_on ?k"
    by (rule eats_at_recover [OF statement eats_synchroniseStatement
          bites_pre [OF bites_synchroniseStatement]]) (auto simp: eats)
  show "eats_at n ?P goes_on
      (bindP (if expression then tail_expression R else retP None) ?f)"
  proof (cases expression)
    case True
    have "eats_at n ?P goes_on (bindP (tail_expression R) ?f)"
      by (rule eats_at_bind_tail [OF R]) (use k in \<open>simp_all add: eats\<close>)
    then show ?thesis using True by simp
  next
    case False
    have "bindP (retP None) ?f = ?k" by (rule ext) (simp add: bindP_def retP_def)
    then show ?thesis using k False by simp
  qed
qed (simp add: eats)

end
