(* ===== verification/Parser_Termination.thy ===== *)
theory Parser_Termination
  imports Parser_Progress
begin

text \<open>
  Every method of the parser returns: one lemma per method, each by the rules of
  theory \<open>Parser_Progress\<close> for the calls the method makes, then the states in which a method
  consumes a token even if it fails, and the induction over the tokens left and the rank of the
  call that ties them together.
\<close>

section \<open>Methods\<close>

text \<open>Theory \<^verbatim>\<open>Parser_When\<close>\<close>

lemma eats_join_errors [eats]: "returns n (join_errors x0 x1)"
  by (simp add: join_errors_def eats)

lemma eats_ParseWholeExpression [eats]: "okn n R \<Longrightarrow> eats n C (ParseWholeExpression R)"
  by (simp add: ParseWholeExpression_def eats)

lemma eats_parseWhenCondition [eats]:
  assumes "okn n R"
  shows "returns n (parseWhenCondition R)"
  unfolding eats_def
proof (intro allI impI)
  fix p assume p: "left p < n"
  obtain b q where e: "condition_end 0 0 p = (b, q)" by fastforce
  have q: "advances p q" using condition_end_advances [of p 0 0] e by simp
  show "\<exists>r q. parseWhenCondition R p = Some (r, q) \<and> advances p q \<and>
      (\<forall>a. r = Parsed a \<longrightarrow> False \<longrightarrow> left q < left p)"
  proof (cases b)
    case True
    let ?ts = "filter (\<lambda>t. tok_Type t \<noteq> TokenNewline) (slice (p_pos p) (p_pos q) (p_tokens p))"
    let ?s = "NewParser (?ts @ [eof_token\<lparr>tok_Loc := tok_Loc (last ?ts)\<rparr>])"
    have "length ?ts \<le> p_pos q - p_pos p"
      by (rule order.trans [OF length_filter_le]) (simp add: slice_def)
    moreover have "p_pos p \<le> p_pos q" "p_pos q < length (p_tokens p)"
      using condition_end_before [of 0 0 p q] e True q by (simp_all add: advances_def)
    ultimately have "left ?s \<le> left p" by (simp add: left_def NewParser_def)
    then have "left ?s < n" using p by simp
    then obtain r u where "ParseWholeExpression R ?s = Some (r, u)"
      using eatsD [OF eats_ParseWholeExpression [OF assms]] by metis
    then show ?thesis
      using e True q by (auto simp: parseWhenCondition_def subparse_def Let_def fail_here_def)
  qed (use e q in \<open>auto simp: parseWhenCondition_def fail_here_def\<close>)
qed

lemma eats_require_builtin [eats]: "eats n C (require_builtin name msg args)"
  unfolding eats_def
proof (intro allI impI)
  fix p assume "left p < n"
  let ?q = "Parser_Inc (Parser_Inc p)"
  have "advances p ?q" "advances p (Parser_Inc ?q)"
    by (blast intro: advances_trans advances_Inc)+
  moreover have "tok_Type (Parser_Peek ?q) \<noteq> TokenEof \<Longrightarrow> left (Parser_Inc ?q) < left p"
    using left_Inc [of ?q] left_Inc_le [of p] left_Inc_le [of "Parser_Inc p"] by linarith
  ultimately show "\<exists>r q. require_builtin name msg args p = Some (r, q) \<and> advances p q \<and>
      (\<forall>a. r = Parsed a \<longrightarrow> C a \<longrightarrow> left q < left p)"
    by (auto simp: require_builtin_def ConsumeBuiltin_def Parser_Expect_def Parser_Consume_def
        fail_prev_def split: bool.splits)
qed

lemma eats_before_last_loc [eats]: "returns n before_last_loc"
  by (auto simp: eats_def before_last_loc_def)

lemma eats_parseCompilerDirective [eats]: "okb n R \<Longrightarrow> eats n C (parseCompilerDirective R)"
  by (simp add: parseCompilerDirective_def eats)

lemma eats_parseLinkWhen [eats]: "okb n R \<Longrightarrow> eats n C (parseLinkWhen R)"
  by (simp add: parseLinkWhen_def eats)

lemma eats_parseLinkItems [eats]: "okb n R \<Longrightarrow> returns n (parseLinkItems R x1)"
  by (simp add: parseLinkItems_def eats)

lemma eats_parseWhenDeclarationBody [eats]:
  "okb n R \<Longrightarrow> eats n C (parseWhenDeclarationBody R)"
  unfolding parseWhenDeclarationBody_def
  by (rule eats_then1)
    (auto simp: join_errors_def intro!: eats eats_when_declarations split: sum.splits)

lemma eats_parseWhenBody [eats]: "okn n R \<Longrightarrow> eats n C (parseWhenBody R x1)"
  by (cases x1) (simp_all add: parseWhenBody_def eats)

lemma eats_parseWhen [eats]: "okb n R \<Longrightarrow> eats n C (parseWhen R x1)"
  by (simp add: parseWhen_def eats)

text \<open>Theory \<^verbatim>\<open>Parser_Types\<close>\<close>

lemma eats_ParseIdent [eats]: "eats n C ParseIdent"
  by (simp add: ParseIdent_def eats)

lemma eats_parseLinkAttribute [eats]: "okb n R \<Longrightarrow> eats n C (parseLinkAttribute R)"
  by (simp add: parseLinkAttribute_def eats)

lemma eats_no_arguments [eats]: "returns n (no_arguments x0 x1)"
  by (simp add: no_arguments_def eats)

lemma eats_parseInlineAttribute [eats]: "returns n parseInlineAttribute"
  by (simp add: parseInlineAttribute_def eats)

lemma eats_parseNoInlineAttribute [eats]: "returns n parseNoInlineAttribute"
  by (simp add: parseNoInlineAttribute_def eats)

lemma eats_parseNoReturnAttribute [eats]: "returns n parseNoReturnAttribute"
  by (simp add: parseNoReturnAttribute_def eats)

lemma eats_parsePackedAttribute [eats]: "returns n parsePackedAttribute"
  by (simp add: parsePackedAttribute_def eats)

lemma eats_foreign_option [eats]: "returns n (foreign_option x0 x1 x2)"
  by (simp add: foreign_option_def eats)

lemma eats_parseForeignAttribute [eats]: "returns n (parseForeignAttribute x0)"
  by (simp add: parseForeignAttribute_def eats)

lemma eats_export_option [eats]: "returns n (export_option x0 x1 x2)"
  by (simp add: export_option_def eats)

lemma eats_parseExportAttribute [eats]: "returns n (parseExportAttribute x0)"
  by (simp add: parseExportAttribute_def eats)

lemma eats_parseAttribute [eats]: "okb n R \<Longrightarrow> eats n C (parseAttribute R x1)"
  by (simp add: parseAttribute_def eats split: option.split AttributeType.split)

lemma eats_parseAttributes [eats]: "okb n R \<Longrightarrow> returns n (parseAttributes R x1)"
  by (simp add: parseAttributes_def eats)

lemma eats_parseCallTypeArguments [eats]: "okb n R \<Longrightarrow> eats n C (parseCallTypeArguments R)"
  by (simp add: parseCallTypeArguments_def eats)

lemma eats_named_arguments [eats]: "okb n R \<Longrightarrow> returns n (named_arguments R x1)"
  by (simp add: named_arguments_def eats)

lemma eats_named_rest [eats]: "okb n R \<Longrightarrow> eats n C (named_rest R x1 x2)"
  by (simp add: named_rest_def eats)

lemma eats_ParseNamedType [eats]: "okb n R \<Longrightarrow> eats n C (ParseNamedType R)"
  by (simp add: ParseNamedType_def eats)

lemma eats_ParseDynType [eats]: "okb n R \<Longrightarrow> eats n C (ParseDynType R x1 x2)"
  by (simp add: ParseDynType_def eats)

lemma eats_ParseArrayOrSliceType [eats]: "okb n R \<Longrightarrow> eats n C (ParseArrayOrSliceType R)"
  by (simp add: ParseArrayOrSliceType_def eats)

lemma eats_ParseFunctionType [eats]: "okn n R \<Longrightarrow> eats n C (ParseFunctionType R)"
  by (simp add: ParseFunctionType_def eats)

lemma eats_ParsePointerType [eats]: "okb n R \<Longrightarrow> eats n C (ParsePointerType R)"
  by (simp add: ParsePointerType_def eats)

lemma eats_enum_variant [eats]: "eats n C (enum_variant x0)"
  by (simp add: enum_variant_def eats)

lemma eats_ParseEnumType [eats]: "eats n C ParseEnumType"
  by (simp add: ParseEnumType_def eats)

lemma eats_bit_position [eats]:
  "returns n (\<lambda>p.
     case Parser_ExpectGet TokenNumber p of
       (None, q) \<Rightarrow> fail_prev m1 [] q
     | (Some shift, q) \<Rightarrow>
         (if NumberBase shift \<noteq> 10 then fail_prev m1 [] q
          else
            (case SetString10 (tok_Value shift) of
               None \<Rightarrow> fail_at (tok_Loc shift) m2 [] q
             | Some position \<Rightarrow>
                 (if 0 \<le> position \<and> position < 2 ^ 64 then retP (2 ^ nat position) q
                  else fail_at (tok_Loc shift) m2 [] q))))"
  by (auto simp: eats_def Parser_ExpectGet_def Parser_Consume_def fail_prev_def failP_def retP_def
      split: option.splits if_splits)

lemma eats_parseFlagValue [eats]: "eats n C (parseFlagValue x0)"
  by (simp add: parseFlagValue_def eats)

lemma eats_flag_member [eats]: "eats n C (flag_member x0)"
  by (simp add: flag_member_def eats)

lemma eats_ParseFlagsType [eats]: "okb n R \<Longrightarrow> eats n C (ParseFlagsType R)"
  by (simp add: ParseFlagsType_def eats)

lemma eats_type_parameter_rest [eats]: "okb n R \<Longrightarrow> returns n (type_parameter_rest R x1 x2)"
  by (simp add: type_parameter_rest_def eats)

lemma eats_parseTypeParameter:
  assumes "okb n R"
  shows "eats n (\<lambda>r. r \<noteq> None) (parseTypeParameter R)"
  unfolding eats_def
proof (intro allI impI)
  fix p assume p: "left p < n"
  let ?p1 = "PushPos p"
  obtain x q where x: "Parser_ExpectGet TokenIdentifier (Parser_Inc ?p1) = (x, q)" by fastforce
  have xq: "q = Parser_Inc (Parser_Inc ?p1)"
    using x by (auto simp: Parser_ExpectGet_def Parser_Consume_def)
  obtain ok r where r: "Parser_Expect TokenColon q = (ok, r)" by fastforce
  have rq: "r = Parser_Inc q" using r by (auto simp: Parser_Expect_def Parser_Consume_def)
  have adv: "advances ?p1 q" "advances ?p1 r" "advances ?p1 (Parser_Inc r)"
    unfolding rq xq by (blast intro: advances_trans advances_Inc)+
  show "\<exists>r q. parseTypeParameter R p = Some (r, q) \<and> advances p q \<and>
      (\<forall>a. r = Parsed a \<longrightarrow> a \<noteq> None \<longrightarrow> left q < left p)"
  proof (cases "Parser_Match [TokenDollar] ?p1")
    case True
    have "left (Parser_Inc ?p1) < left ?p1"
      by (rule left_Inc) (use True in \<open>simp add: Parser_Match_def\<close>)
    then have l: "left (Parser_Inc r) < left p"
      unfolding rq xq
      using left_Inc_le [of "Parser_Inc ?p1"] left_Inc_le [of "Parser_Inc (Parser_Inc ?p1)"]
        left_Inc_le [of "Parser_Inc (Parser_Inc (Parser_Inc ?p1))"] by simp
    show ?thesis
    proof (cases "x \<noteq> None \<and> ok \<and> at_keyword ''type'' r")
      case go: True
      then obtain nm where nm: "x = Some nm" by blast
      have "returns (below n) (bindP (type_parameter_rest R (CurrLoc ?p1) nm) (\<lambda>g. retP (Some g)))"
        using assms by (simp add: eats)
      then obtain s u where
        "bindP (type_parameter_rest R (CurrLoc ?p1) nm) (\<lambda>g. retP (Some g)) (Parser_Inc r) =
          Some (s, u)" "advances (Parser_Inc r) u"
        using eatsD left_below [OF l p] by metis
      then show ?thesis
        using True go x r nm l advances_left [of "Parser_Inc r" u]
          advances_Commit [OF advances_trans [OF adv(3)]]
        by (auto simp: parseTypeParameter_def Let_def then_commit_def)
    next
      case False
      then show ?thesis
        using True x r advances_Pop [OF adv(1)] advances_Pop [OF adv(2)]
        by (auto simp: parseTypeParameter_def Let_def failP_def split: option.splits)
    qed
  qed (auto simp: parseTypeParameter_def Let_def)
qed

lemma eats_bind_type_parameter [eats]:
  "\<lbrakk>okb n R; \<And>g. returns (below n) (k (Some g)); eats n C (k None)\<rbrakk>
    \<Longrightarrow> eats n C (bindP (parseTypeParameter R) k)"
  by (rule eats_bind [OF eats_parseTypeParameter]) auto

lemma eats_parseFunctionReturnType [eats]: "okn n R \<Longrightarrow> eats n C (parseFunctionReturnType R)"
  by (simp add: parseFunctionReturnType_def eats)

lemma eats_expression_body [eats]: "okn n R \<Longrightarrow> eats n C (expression_body R)"
  by (simp add: expression_body_def eats)

lemma eats_trait_receiver [eats]: "eats n C trait_receiver"
  by (simp add: trait_receiver_def eats)

lemma eats_trait_parameters [eats]: "okb n R \<Longrightarrow> returns n (trait_parameters R)"
  by (simp add: trait_parameters_def eats)

lemma eats_trait_method [eats]: "okb n R \<Longrightarrow> eats n C (trait_method R x1)"
  by (simp add: trait_method_def eats)

lemma eats_ParseTraitType [eats]: "okb n R \<Longrightarrow> eats n C (ParseTraitType R)"
  by (simp add: ParseTraitType_def eats)

lemma eats_union_tag [eats]: "okb n R \<Longrightarrow> returns n (union_tag R)"
  by (simp add: union_tag_def eats)

lemma eats_payload_name [eats]: "returns n (payload_name x0)"
  by (simp add: payload_name_def eats)

lemma eats_union_payload [eats]: "okn n R \<Longrightarrow> returns n (union_payload R)"
  by (simp add: union_payload_def eats)

lemma eats_union_variant [eats]: "okb n R \<Longrightarrow> returns n (union_variant R x1)"
  by (simp add: union_variant_def eats)

lemma eats_ParseUnionType [eats]: "okb n R \<Longrightarrow> eats n C (ParseUnionType R)"
  by (simp add: ParseUnionType_def eats)

lemma eats_struct_field [eats]: "okb n R \<Longrightarrow> eats n C (struct_field R)"
  by (simp add: struct_field_def eats)

lemma eats_ParseStructType [eats]: "okb n R \<Longrightarrow> eats n C (ParseStructType R)"
  by (simp add: ParseStructType_def eats)

lemma eats_ParseType [eats]: "okb n R \<Longrightarrow> eats n C (ParseType R)"
  unfolding ParseType_def
  by (intro eats_then2 eats_if_read_inc eats_if)
    (simp_all add: eats Parser_Match_def at_word_def)

text \<open>Theory \<^verbatim>\<open>Parser_Expressions\<close>\<close>

lemma eats_type_or_expression [eats]: "okn n R \<Longrightarrow> eats n C (type_or_expression R x1)"
  by (simp add: type_or_expression_def eats)

lemma eats_ParseSizeOfExpression [eats]: "okb n R \<Longrightarrow> eats n C (ParseSizeOfExpression R)"
  by (simp add: ParseSizeOfExpression_def eats)

lemma eats_ParseAlignOfExpression [eats]: "okb n R \<Longrightarrow> eats n C (ParseAlignOfExpression R)"
  by (simp add: ParseAlignOfExpression_def eats)

lemma eats_ParseOffsetOfExpression [eats]: "okb n R \<Longrightarrow> eats n C (ParseOffsetOfExpression R)"
  by (simp add: ParseOffsetOfExpression_def eats)

lemma eats_ParseEmbedExpression [eats]: "eats n C ParseEmbedExpression"
  by (simp add: ParseEmbedExpression_def eats)

lemma eats_asm_entry [eats]: "okb n R \<Longrightarrow> eats n C (asm_entry R x1)"
  by (simp add: asm_entry_def eats)

lemma eats_ParseInlineAsmExpression [eats]: "okb n R \<Longrightarrow> eats n C (ParseInlineAsmExpression R)"
  by (simp add: ParseInlineAsmExpression_def eats)

lemma eats_ParseCall [eats]: "okb n R \<Longrightarrow> eats n C (ParseCall R x1)"
  by (simp add: ParseCall_def eats)

lemma eats_ParseFunctionCall [eats]: "okb n R \<Longrightarrow> eats n C (ParseFunctionCall R x1)"
  by (simp add: ParseFunctionCall_def eats)

lemma eats_flag_names [eats]: "eats n C flag_names"
  by (simp add: flag_names_def eats)

lemma eats_literal_fields [eats]: "okb n R \<Longrightarrow> returns n (literal_fields R)"
  by (simp add: literal_fields_def eats)

lemma eats_ParseStructLiteral [eats]: "okb n R \<Longrightarrow> eats n C (ParseStructLiteral R x1)"
  by (simp add: ParseStructLiteral_def eats)

lemma eats_ParseSliceLiteral [eats]: "okb n R \<Longrightarrow> eats n C (ParseSliceLiteral R)"
  by (simp add: ParseSliceLiteral_def eats)

lemma eats_no_lambda_default [eats]: "eats n C m \<Longrightarrow> eats n C (no_lambda_default m)"
  by (simp add: no_lambda_default_def eats)

lemma eats_lambda_group [eats]: "eats n C lambda_group"
  by (simp add: lambda_group_def eats)

lemma eats_lambda_type [eats]: "okn n R \<Longrightarrow> returns n (lambda_type R x1)"
  by (simp add: lambda_type_def eats)

lemma eats_lambda_parameters [eats]: "okb n R \<Longrightarrow> eats n C (lambda_parameters R)"
  by (simp add: lambda_parameters_def eats)

lemma eats_ParseLambdaExpression [eats]: "okb n R \<Longrightarrow> eats n C (ParseLambdaExpression R)"
  by (simp add: ParseLambdaExpression_def eats)

lemma eats_parseIf [eats]: "okb n R \<Longrightarrow> eats n C (parseIf R x1)"
  by (simp add: parseIf_def eats)

lemma eats_parseMatchPatternLiteral [eats]: "eats n C parseMatchPatternLiteral"
  by (simp add: parseMatchPatternLiteral_def eats)

lemma eats_pattern_bindings [eats]: "returns n pattern_bindings"
  by (simp add: pattern_bindings_def eats)

lemma eats_parseMatchPatternAtom [eats]: "eats n C parseMatchPatternAtom"
  by (simp add: parseMatchPatternAtom_def eats)

lemma eats_parseMatchPatternTerm [eats]: "eats n C parseMatchPatternTerm"
  by (simp add: parseMatchPatternTerm_def eats)

lemma eats_parseMatchPattern [eats]: "eats n C parseMatchPattern"
  by (simp add: parseMatchPattern_def eats)

lemma eats_match_patterns [eats]: "eats n C match_patterns"
  by (simp add: match_patterns_def eats)

lemma eats_match_subjects [eats]: "okn n R \<Longrightarrow> eats n C (match_subjects R)"
  by (simp add: match_subjects_def eats)

lemma eats_match_arm [eats]: "okb n R \<Longrightarrow> eats n C (match_arm R x1 x2)"
  by (simp add: match_arm_def eats)

lemma eats_match_arms [eats]: "okb n R \<Longrightarrow> returns n (match_arms R x1 x2)"
  by (simp add: match_arms_def eats)

lemma eats_ParseMatch [eats]: "okb n R \<Longrightarrow> eats n C (ParseMatch R x1)"
  by (simp add: ParseMatch_def eats)

lemma eats_ParseTerm [eats]: "ok1 n R \<Longrightarrow> eats n C (ParseTerm R)"
  unfolding ParseTerm_def
  by (intro eats_bind2 eats_if_inc eats_if eats_accept_word eats_accept)
    (simp_all add: eats Parser_Match_def)

lemma eats_postfix_call [eats]: "okb n R \<Longrightarrow> eats n C (postfix_call R x1)"
  by (simp add: postfix_call_def eats)

lemma eats_postfix_index [eats]: "okn n R \<Longrightarrow> eats n C (postfix_index R x1 x2)"
  by (simp add: postfix_index_def eats)

lemma eats_postfix_dot [eats]: "okb n R \<Longrightarrow> eats n C (postfix_dot R x1 x2)"
  by (simp add: postfix_dot_def eats)

lemma eats_ParsePostfix [eats]: "ok1 n R \<Longrightarrow> eats n C (ParsePostfix R)"
  by (simp add: ParsePostfix_def eats)

lemma eats_ParseUnary [eats]: "ok1 n R \<Longrightarrow> eats n C (ParseUnary R)"
  by (simp add: ParseUnary_def eats unary_operators_def)

lemma eats_parseLeftAssociative [eats]:
  assumes m: "eats n (\<lambda>_. True) m" and ops: "TokenEof \<notin> set (map fst ops)"
  shows "eats n C (parseLeftAssociative m ops)"
proof -
  have "below (below n) \<le> n" by (simp add: below_def)
  then have "returns (below (below n)) m" by (intro eats_weaken [OF m]) simp_all
  then show ?thesis
    using m ops unfolding parseLeftAssociative_def by (simp add: eats)
qed

lemma eats_ParseMulDiv [eats]: "ok1 n R \<Longrightarrow> eats n C (ParseMulDiv R)"
  by (simp add: ParseMulDiv_def eats)

lemma eats_ParseAddSub [eats]: "ok1 n R \<Longrightarrow> eats n C (ParseAddSub R)"
  by (simp add: ParseAddSub_def eats)

lemma eats_ParseShift [eats]: "ok1 n R \<Longrightarrow> eats n C (ParseShift R)"
  by (simp add: ParseShift_def eats)

lemma eats_ParseComparison [eats]: "ok1 n R \<Longrightarrow> eats n C (ParseComparison R)"
  by (simp add: ParseComparison_def eats)

lemma eats_ParseBitwiseAnd [eats]: "ok1 n R \<Longrightarrow> eats n C (ParseBitwiseAnd R)"
  by (simp add: ParseBitwiseAnd_def eats)

lemma eats_ParseBitwiseXor [eats]: "ok1 n R \<Longrightarrow> eats n C (ParseBitwiseXor R)"
  by (simp add: ParseBitwiseXor_def eats)

lemma eats_ParseBitwiseOr [eats]: "ok1 n R \<Longrightarrow> eats n C (ParseBitwiseOr R)"
  by (simp add: ParseBitwiseOr_def eats)

lemma eats_ParseLogicalAnd [eats]: "ok1 n R \<Longrightarrow> eats n C (ParseLogicalAnd R)"
  by (simp add: ParseLogicalAnd_def eats)

lemma eats_ParseLogicalOr [eats]: "ok1 n R \<Longrightarrow> eats n C (ParseLogicalOr R)"
  by (simp add: ParseLogicalOr_def eats)

lemma eats_ParseExpression [eats]: "ok1 n R \<Longrightarrow> eats n C (ParseExpression R)"
  by (simp add: ParseExpression_def eats)

text \<open>Theory \<^verbatim>\<open>Parser_Statements\<close>\<close>

lemma eats_tail_expression [eats]:
  assumes "okn n R"
  shows "returns n (tail_expression R)"
proof -
  have "eats n (\<lambda>_. False) (bindP (callP R CallExpression) (\<lambda>e. thenP separators (retP e)))"
    using assms by (simp add: eats)
  from eats_keep_if [OF this] show ?thesis
    unfolding tail_expression_def by (rule eats_weaken) auto
qed

lemma eats_parseBlock [eats]: "okb n R \<Longrightarrow> eats n C (parseBlock R x1)"
  by (simp add: parseBlock_def join_errors_def eats)

lemma eats_lift_captures [eats]: "returns n (lift_captures x0)"
  by (simp add: lift_captures_def eats)

lemma eats_owner_method [eats]: "eats n C (owner_method x0)"
  by (simp add: owner_method_def eats)

lemma eats_function_name [eats]: "okn n R \<Longrightarrow> eats n C (function_name R)"
  by (simp add: function_name_def eats)

lemma eats_method_receiver [eats]: "returns n (method_receiver x0 x1)"
  by (simp add: method_receiver_def eats)

lemma eats_parameter_name [eats]: "okb n R \<Longrightarrow> eats n C (parameter_name R)"
  by (simp add: parameter_name_def eats)

lemma eats_parameter_group [eats]: "okb n R \<Longrightarrow> eats n C (parameter_group R)"
  by (simp add: parameter_group_def eats)

lemma eats_group_type [eats]: "okn n R \<Longrightarrow> returns n (group_type R x1 x2)"
  by (simp add: group_type_def eats)

lemma eats_function_parameters [eats]: "okb n R \<Longrightarrow> returns n (function_parameters R x1 x2 x3)"
  by (simp add: function_parameters_def eats)

lemma eats_function_body [eats]: "okn n R \<Longrightarrow> eats n C (function_body R)"
  by (simp add: function_body_def eats)

lemma eats_ParseFunctionDefinition [eats]: "okb n R \<Longrightarrow> eats n C (ParseFunctionDefinition R)"
  by (simp add: ParseFunctionDefinition_def eats)

text \<open>Theory \<^verbatim>\<open>Parser\<close>\<close>

lemma eats_ParseTypeAlias [eats]: "okb n R \<Longrightarrow> eats n C (ParseTypeAlias R)"
  by (simp add: ParseTypeAlias_def eats)

lemma eats_parseModulePath [eats]: "eats n C parseModulePath"
  by (simp add: parseModulePath_def eats)

lemma eats_import_entry [eats]: "eats n C import_entry"
  by (simp add: import_entry_def eats)

lemma eats_ParseImport [eats]: "eats n C ParseImport"
  by (simp add: ParseImport_def eats)

lemma eats_ParseModule [eats]: "okb n R \<Longrightarrow> eats n C (ParseModule R)"
  by (simp add: ParseModule_def eats)

lemma eats_ParseDeclaration [eats]: "okb n R \<Longrightarrow> eats n C (ParseDeclaration R)"
  by (simp add: ParseDeclaration_def eats)

lemma eats_parseMultiDeclaration [eats]: "okb n R \<Longrightarrow> eats n C (parseMultiDeclaration R)"
  by (simp add: parseMultiDeclaration_def eats)

lemma eats_ParseAssignment [eats]: "okn n R \<Longrightarrow> eats n C (ParseAssignment R x1)"
  by (simp add: ParseAssignment_def eats)

lemma eats_ParseCompoundAssignment [eats]: "okn n R \<Longrightarrow> eats n C (ParseCompoundAssignment R x1 x2)"
  by (simp add: ParseCompoundAssignment_def eats)

lemma eats_ParseDefer [eats]: "okb n R \<Longrightarrow> eats n C (ParseDefer R)"
  by (simp add: ParseDefer_def eats)

lemma eats_ParseControlKeyword [eats]: "okb n R \<Longrightarrow> eats n C (ParseControlKeyword R)"
  by (simp add: ParseControlKeyword_def eats)

lemma eats_parseIterationAttributes [eats]: "returns n parseIterationAttributes"
  by (simp add: parseIterationAttributes_def eats)

lemma eats_destructure_names [eats]: "eats n C destructure_names"
  by (simp add: destructure_names_def eats)

lemma eats_element_kind [eats]: "returns n (element_kind x0)"
  by (simp add: element_kind_def eats)

lemma eats_parseRangeOrForEach [eats]: "okb n R \<Longrightarrow> eats n C (parseRangeOrForEach R x1)"
  by (simp add: parseRangeOrForEach_def eats)

lemma eats_ParseForLoop [eats]: "okb n R \<Longrightarrow> eats n C (ParseForLoop R)"
  by (simp add: ParseForLoop_def eats)

text \<open>The look ahead returns to its state when it succeeds, and has moved on when it fails.\<close>

definition looked :: "Parser \<Rightarrow> ('a parsed \<times> Parser) option \<Rightarrow> bool" where
  "looked p x \<longleftrightarrow>
    (\<exists>f. x = Some (Parsed f, p)) \<or>
    (\<exists>e i. p_pos p < i \<and> x = Some (Failed e, (PushPos p)\<lparr>p_pos := i\<rparr>))"

lemma looked_let_lookahead: "looked p (let_lookahead p)"
proof -
  have pop: "PopPos ((PushPos p)\<lparr>p_pos := i\<rparr>) = p" for i
    by (simp add: PopPos_def PushPos_def)
  have inc: "Parser_Inc ((PushPos p)\<lparr>p_pos := i\<rparr>) = (PushPos p)\<lparr>p_pos := i + 1\<rparr>" for i
    by (simp add: Parser_Inc_def)
  have start: "Parser_Inc (PushPos p) = (PushPos p)\<lparr>p_pos := p_pos p + 1\<rparr>"
    by (simp add: Parser_Inc_def PushPos_def)
  have parsed: "looked p (Some (Parsed f, p))" for f by (simp add: looked_def)
  have failed: "p_pos p < i \<Longrightarrow> looked p (fail_prev msg args ((PushPos p)\<lparr>p_pos := i\<rparr>))"
    for i msg args unfolding looked_def fail_prev_def by blast
  have cond: "looked p a \<Longrightarrow> looked p b \<Longrightarrow> looked p (if c then a else b)" for a b c by simp
  show ?thesis
    unfolding let_lookahead_def Let_def Parser_Expect_def Parser_Consume_def prod.case start
    by (cases "at_keyword ''mut'' ((PushPos p)\<lparr>p_pos := p_pos p + 1\<rparr>)";
        simp only: if_True if_False inc pop; intro cond parsed failed; simp)
qed

lemma let_lookahead_state:
  obtains f where "let_lookahead p = Some (Parsed f, p)"
  | e q where "let_lookahead p = Some (Failed e, q)" "advances p q"
    "tok_Type (Parser_Peek p) \<noteq> TokenEof \<Longrightarrow> left q < left p"
proof -
  have "advances p ((PushPos p)\<lparr>p_pos := i\<rparr>)" if "p_pos p < i" for i
    using that by (auto simp: advances_def PushPos_def)
  moreover have "left ((PushPos p)\<lparr>p_pos := i\<rparr>) < left p"
    if "p_pos p < i" "tok_Type (Parser_Peek p) \<noteq> TokenEof" for i
    using that Peek_in_range [of p] by (simp add: left_def PushPos_def)
  ultimately show thesis
    using looked_let_lookahead [of p] that unfolding looked_def by blast
qed

lemma eats_let_lookahead [eats]: "returns n let_lookahead"
  unfolding eats_def by (metis advances_refl let_lookahead_state)

lemma eats_let_statement [eats]: "okb n R \<Longrightarrow> eats n C (let_statement R)"
  by (simp add: let_statement_def eats split: let_form.split)

lemma eats_multiple_assignment [eats]: "okn n R \<Longrightarrow> eats n C (multiple_assignment R x1)"
  by (simp add: multiple_assignment_def eats)

lemma eats_expression_statement [eats]: "ok2 n R \<Longrightarrow> eats n C (expression_statement R)"
  by (simp add: expression_statement_def eats compound_operators_def)

lemma eats_ParseStatement [eats]: "ok2 n R \<Longrightarrow> eats n C (ParseStatement R)"
  by (simp add: ParseStatement_def eats)

lemma eats_parseTopLevel [eats]:
  "\<lbrakk>okb n R; good n R CallStatement\<rbrakk> \<Longrightarrow> eats n C (parseTopLevel R)"
  by (simp add: parseTopLevel_def eats)


section \<open>Calls that fail at their start\<close>

lemma bites_cong: "bites n S m' \<Longrightarrow> (\<And>p. S p \<Longrightarrow> m p = m' p) \<Longrightarrow> bites n S m"
  by (simp add: bites_def)

lemma bites_none: "(\<And>p. \<not> S p) \<Longrightarrow> bites n S m"
  by (simp add: bites_def)

lemma bites_read: "(\<And>a. bites n S (k a)) \<Longrightarrow> bites n S (bindP (readP f) k)"
  by (simp add: bites_def bindP_def readP_def)

lemma bites_if:
  "\<lbrakk>bites n (\<lambda>p. S p \<and> c p) m1; bites n (\<lambda>p. S p \<and> \<not> c p) m2\<rbrakk> \<Longrightarrow> bites n S (ifP c m1 m2)"
  by (simp add: bites_def ifP_def)

lemma bites_expect:
  assumes "\<And>p. S p \<Longrightarrow> tok_Type (Parser_Peek p) \<noteq> TokenEof"
  shows "bites n S (expect_fmt k msg args)" "bites n S (expect_get_fmt k msg args)"
    "bites n S (expect_word k w msg)"
  using assms left_Inc
  by (auto simp: bites_def expect_fmt_def expect_get_fmt_def expect_word_def Parser_Expect_def
      Parser_ExpectGet_def Parser_Consume_def fail_prev_def)

lemma bites_then: "\<lbrakk>bites n S m; returns (below n) k\<rbrakk> \<Longrightarrow> bites n S (thenP m k)"
  unfolding thenP_def by (rule bites_bind)

lemma bites_inc:
  assumes "\<And>p. S p \<Longrightarrow> tok_Type (Parser_Peek p) \<noteq> TokenEof"
  shows "bites n S incP"
  using assms left_Inc by (simp add: bites_def incP_def)

lemma bites_accept:
  assumes m1: "\<And>t. returns (below n) (m1 t)" and ks: "TokenEof \<notin> set ks"
    and m2: "bites n (\<lambda>p. S p \<and> \<not> Parser_Match ks p) m2"
  shows "bites n S (acceptP ks m1 m2)"
proof -
  have "bites n (\<lambda>p. S p \<and> Parser_Match ks p)
      (bindP (readP Parser_Peek) (\<lambda>t. thenP incP (m1 t)))"
    by (intro bites_read bites_then bites_inc m1) (use ks in \<open>auto simp: Parser_Match_def\<close>)
  then have "bites n S (ifP (Parser_Match ks) (bindP (readP Parser_Peek) (\<lambda>t. thenP incP (m1 t))) m2)"
    using m2 by (intro bites_if)
  then show ?thesis
    by (rule bites_cong) (simp add: acceptP_def ifP_def bindP_def readP_def thenP_def incP_def)
qed

lemma bites_accept_word:
  "\<lbrakk>returns (below n) m1; k \<noteq> TokenEof; bites n (\<lambda>p. S p \<and> \<not> at_word k w p) m2\<rbrakk>
    \<Longrightarrow> bites n S (accept_word k w m1 m2)"
  unfolding accept_word_acceptP
  by (intro bites_if bites_accept) (auto simp: at_word_def elim: bites_pre intro: bites_none)

lemma bites_bind_optional_keyword:
  assumes "returns (below n) (m True)" "bites n (\<lambda>p. S p \<and> \<not> at_keyword w p) (m False)"
  shows "bites n S (bindP (optional_keyword w) m)"
proof -
  have "bites n S (accept_keyword w (m True) (m False))"
    using assms by (intro bites_accept_word) auto
  then show ?thesis
    by (rule bites_cong)
      (simp add: optional_keyword_def bindP_def accept_word_def retP_def)
qed

lemma bites_unless_from:
  assumes m1: "bites n (\<lambda>p. Q (Parser_Peek p)) m1" and m2: "bites n (\<lambda>p. Q (Parser_Peek p)) m2"
  shows "bites n (\<lambda>p. Q (Parser_Peek p)) (unless_from m1 redo m2)"
  unfolding bites_def
proof (intro allI impI)
  fix p assume p: "left p < n" "Q (Parser_Peek p)"
  obtain r q where r: "m1 p = Some (r, q)" "advances p q" "r \<noteq> Panicked \<Longrightarrow> left q < left p"
    using bitesD [OF m1 p] by metis
  let ?b = "q\<lparr>p_pos := p_pos p\<rparr>"
  have restored: "advances p ?b" using r(2) by (rule advances_back) simp
  have "left ?b < n" "Q (Parser_Peek ?b)" using r(2) p Peek_same [OF restored] by simp_all
  then obtain s q' where s: "m2 ?b = Some (s, q')" "advances ?b q'"
      "s \<noteq> Panicked \<Longrightarrow> left q' < left ?b"
    using bitesD [OF m2] by metis
  then show "\<exists>r q. unless_from m1 redo m2 p = Some (r, q) \<and> advances p q \<and>
      (r \<noteq> Panicked \<longrightarrow> left q < left p)"
    using r advances_trans [OF restored] by (cases r) (auto simp: unless_from_def)
qed

lemma bites_with_semicolon: "bites n S m \<Longrightarrow> bites n S (with_semicolon b m)"
  unfolding with_semicolon_def by (intro bites_bind eats_ret) auto

text \<open>Expressions\<close>

lemma bites_ParseMatch: "okb n R \<Longrightarrow> bites n (at_keyword ''match'') (ParseMatch R e)"
  unfolding ParseMatch_def
  by (intro bites_read bites_bind bites_expect)
    (simp_all add: eats at_word_def Parser_Match_def)

lemma bites_ParseTerm:
  assumes R: "okb n R"
  shows "bites n expression_start (ParseTerm R)"
proof -
  have ident: "bites n (\<lambda>p. tok_Type (Parser_Peek p) = TokenIdentifier) ParseIdent"
    unfolding ParseIdent_def
    by (intro bites_read bites_bind bites_expect) (simp_all add: eats)
  have hit: "bites n S m1 \<Longrightarrow> (\<And>p. S p \<Longrightarrow> c p) \<Longrightarrow> bites n S (ifP c m1 m2)" for S m1 c and m2 :: "node parser"
    by (simp add: bites_def ifP_def)
  have skip: "(\<And>p. S p \<Longrightarrow> \<not> c p) \<Longrightarrow> bites n S m2 \<Longrightarrow> bites n S (ifP c m1 m2)" for S m1 c and m2 :: "node parser"
    by (simp add: bites_def ifP_def)
  have accept: "(\<And>p. S p \<Longrightarrow> \<not> Parser_Match ks p) \<Longrightarrow> bites n S m2 \<Longrightarrow> bites n S (acceptP ks m1 m2)"
    for S m1 ks and m2 :: "node parser"
    by (simp add: bites_def acceptP_def)
  note defs = at_word_def Parser_Match_def MatchBuiltin_def
  have "bites n (\<lambda>p. tok_Type (Parser_Peek p) = TokenIdentifier) (ParseTerm R)"
    unfolding ParseTerm_def
    by (rule bites_read, (rule skip accept, force simp: defs)+, rule hit [OF ident], simp add: defs)
  moreover have "bites n (at_keyword ''match'') (ParseTerm R)"
    unfolding ParseTerm_def
    by (rule bites_read, (rule skip accept, force simp: defs)+,
        rule hit [OF bites_ParseMatch [OF R]], simp)
  ultimately show ?thesis by (auto simp: bites_def expression_start_def)
qed

lemma bites_ParsePostfix: "okb n R \<Longrightarrow> bites n expression_start (ParsePostfix R)"
  unfolding ParsePostfix_def
  by (intro bites_read bites_bind bites_ParseTerm) (simp_all add: eats at_struct_literal_def)

lemma bites_ParseUnary: "okb n R \<Longrightarrow> bites n expression_start (ParseUnary R)"
  unfolding ParseUnary_def
  by (intro bites_read bites_if bites_accept)
    (auto simp: eats unary_operators_def expression_start_def MatchAdjacentPair_def at_word_def
      Parser_Match_def intro: bites_none bites_pre [OF bites_ParsePostfix])

lemma bites_parseLeftAssociative:
  assumes m: "bites n S m" "eats n (\<lambda>_. True) m" and ops: "TokenEof \<notin> set (map fst ops)"
  shows "bites n S (parseLeftAssociative m ops)"
proof -
  have "below (below n) \<le> n" by (simp add: below_def)
  then have "returns (below (below n)) m" by (intro eats_weaken [OF m(2)]) simp_all
  then show ?thesis
    unfolding parseLeftAssociative_def using m(1) ops
    by (intro bites_read bites_bind) (simp_all add: eats)
qed

lemmas left_associative_defs =
  ParseMulDiv_def ParseAddSub_def ParseShift_def ParseComparison_def ParseBitwiseAnd_def
  ParseBitwiseXor_def ParseBitwiseOr_def ParseLogicalAnd_def ParseLogicalOr_def

lemma bites_ParseExpression:
  assumes "ok1 n R"
  shows "bites n expression_start (ParseExpression R)"
proof -
  have "bites n expression_start (ParseUnary R)" "eats n (\<lambda>_. True) (ParseUnary R)"
    using assms by (simp_all add: eats bites_ParseUnary)
  then show ?thesis
    unfolding ParseExpression_def left_associative_defs
    by (intro bites_parseLeftAssociative eats_parseLeftAssociative) simp_all
qed

text \<open>Statements\<close>

lemma bites_block: "okb n R \<Longrightarrow> bites n (\<lambda>p. tok_Type (Parser_Peek p) = TokenOpenCurly) (parseBlock R e)"
  unfolding parseBlock_def
  by (intro bites_read bites_then bites_expect) (simp_all add: eats join_errors_def)

lemma bites_let_statement:
  assumes R: "okb n R"
  shows "bites n (at_keyword ''let'') (let_statement R)"
proof -
  let ?m = "\<lambda>form. case form of
      LetDeclaration \<Rightarrow> ParseDeclaration R
    | LetFunction \<Rightarrow> ParseFunctionDefinition R
    | LetTypeAlias \<Rightarrow> ParseTypeAlias R
    | LetMultiple \<Rightarrow> parseMultiDeclaration R"
  have "bites n (at_keyword ''let'') (ParseDeclaration R)"
    unfolding ParseDeclaration_def
    by (intro bites_read bites_bind bites_expect)
      (use R in \<open>simp_all add: eats at_word_def Parser_Match_def\<close>)
  moreover have "bites n (at_keyword ''let'') (ParseFunctionDefinition R)"
    unfolding ParseFunctionDefinition_def
    by (intro bites_read bites_accept_word)
      (use R in \<open>auto simp: eats intro: bites_none\<close>)
  moreover have "bites n (at_keyword ''let'') (ParseTypeAlias R)"
    unfolding ParseTypeAlias_def
    by (intro bites_read bites_accept_word)
      (use R in \<open>auto simp: eats intro: bites_none\<close>)
  moreover have "bites n (at_keyword ''let'') (parseMultiDeclaration R)"
    unfolding parseMultiDeclaration_def
    by (intro bites_read bites_then bites_inc)
      (use R in \<open>simp_all add: eats at_word_def Parser_Match_def\<close>)
  ultimately have m: "bites n (at_keyword ''let'') (?m form)" for form
    by (cases form) simp_all
  show ?thesis
    unfolding bites_def let_statement_def
  proof (intro allI impI)
    fix p assume p: "left p < n" "at_keyword ''let'' p"
    then have "tok_Type (Parser_Peek p) \<noteq> TokenEof" by (simp add: at_word_def Parser_Match_def)
    then show "\<exists>r q. bindP let_lookahead ?m p = Some (r, q) \<and> advances p q \<and>
        (r \<noteq> Panicked \<longrightarrow> left q < left p)"
    proof (cases rule: let_lookahead_state [of p])
      case (1 f)
      then show ?thesis using m [of f] p by (simp add: bites_def bindP_def)
    qed (auto simp: bindP_def)
  qed
qed

lemma bites_expression_statement:
  "ok2 n R \<Longrightarrow> bites n expression_start (expression_statement R)"
  unfolding expression_statement_def
  using bites_callP [of n R CallExpression]
  by (intro bites_bind) (auto simp: eats start_eq compound_operators_def)

lemma bites_ParseStatement:
  assumes R: "ok2 n R"
  shows "bites n (\<lambda>p. isStatementStart (Parser_Peek p)) (ParseStatement R)"
proof -
  have okb: "okb n R" using R by (simp add: eats)
  note defs = isStatementStart_def at_word_def Parser_Match_def MatchBuiltin_def at_directive_def
  have expr: "bites n S (expression_statement R)" if "\<And>p. S p \<Longrightarrow> expression_start p" for S
    using bites_expression_statement [OF R] that by (rule bites_pre)
  have at: "at_keyword ''match'' =
      (\<lambda>p. (\<lambda>t. tok_Type t = TokenKeyword \<and> tok_Value t = ''match'') (Parser_Peek p))"
    by (rule ext) (simp add: defs)
  have "bites n (at_keyword ''match'') (unless_from (with_semicolon False (ParseMatch R False))
      tokenContinuesExpression (expression_statement R))"
    unfolding at
    by (rule bites_unless_from; unfold at [symmetric])
      (simp_all add: bites_with_semicolon bites_ParseMatch okb expr expression_start_def)
  moreover have "bites n (at_keyword ''let'') (with_semicolon True (let_statement R))"
    by (intro bites_with_semicolon bites_let_statement okb)
  moreover have "bites n (\<lambda>p. Parser_Match [TokenKeyword] p) (with_semicolon True (ParseControlKeyword R))"
    unfolding ParseControlKeyword_def
    by (intro bites_with_semicolon bites_read bites_bind bites_expect)
      (use okb in \<open>simp_all add: eats Parser_Match_def\<close>)
  moreover have "bites n (\<lambda>p. Parser_Match [TokenKeyword] p) (with_semicolon True (ParseDefer R))"
    unfolding ParseDefer_def
    by (intro bites_with_semicolon bites_read bites_bind bites_expect)
      (use okb in \<open>simp_all add: eats Parser_Match_def\<close>)
  moreover have "bites n (\<lambda>p. Parser_Match [TokenKeyword] p) (with_semicolon False (parseIf R False))"
    unfolding parseIf_def
    by (intro bites_with_semicolon bites_read bites_then bites_expect)
      (use okb in \<open>simp_all add: eats Parser_Match_def\<close>)
  moreover have "bites n (\<lambda>p. Parser_Match [TokenKeyword] p) (with_semicolon False (ParseForLoop R))"
    unfolding ParseForLoop_def
    by (intro bites_with_semicolon bites_read bites_then bites_expect)
      (use okb in \<open>simp_all add: eats Parser_Match_def\<close>)
  moreover have "bites n (\<lambda>p. Parser_Match [TokenOpenCurly] p)
      (with_semicolon True (callP R (CallBlock False)))"
    using bites_callP [of n R "CallBlock False"] R
    by (intro bites_with_semicolon) (simp add: eats Parser_Match_def [abs_def] start_eq)
  ultimately show ?thesis
    unfolding ParseStatement_def
    apply (intro bites_if expr)
    apply (auto elim!: bites_pre intro: bites_none simp: defs expression_start_def)
    done
qed

text \<open>Declarations\<close>

lemma bites_parseTopLevel:
  assumes R: "okb n R" "good n R CallStatement"
  shows "bites n (\<lambda>p. isTopLevelStart (Parser_Peek p)) (parseTopLevel R)"
proof -
  note defs = isTopLevelStart_def at_word_def Parser_Match_def MatchBuiltin_def at_directive_def
  have statement: "bites n (at_keyword ''let'') (bindP (call_statement R) (\<lambda>(n, _). retP n))"
    using bites_call_statement [OF R(2)]
    by (intro bites_bind) (auto simp: start_eq isStatementStart_def defs eats elim: bites_pre)
  have "bites n (at_keyword ''import'') ParseImport"
    unfolding ParseImport_def
    by (intro bites_read bites_bind bites_expect) (simp_all add: eats defs)
  moreover have "bites n (at_keyword ''module'') (ParseModule R)"
    unfolding ParseModule_def
    by (intro bites_read bites_bind bites_expect) (use R in \<open>simp_all add: eats defs\<close>)
  ultimately have inner: "bites n (\<lambda>p. isTopLevelStart (Parser_Peek p) \<and> \<not> at_keyword ''pub'' p)
      (ifP (at_keyword ''let'') (bindP (call_statement R) (\<lambda>(n, _). retP n)) (
       ifP (at_keyword ''import'') ParseImport (
       ifP (at_keyword ''module'') (ParseModule R) m)))" for m
    using statement
    by (intro bites_if) (auto elim!: bites_pre intro: bites_none simp: defs)
  show ?thesis
    unfolding parseTopLevel_def Let_def
  proof (rule bites_read, rule bites_if, goal_cases)
    case 1
    show ?case by (rule bites_none) (auto simp: defs)
  next
    case (2 l)
    show ?case
    proof (rule bites_if, goal_cases)
      case 1
      show ?case by (rule bites_none) (auto simp: defs)
    next
      case 2
      show ?case
        by (rule bites_bind_optional_keyword, use R in \<open>simp add: eats\<close>, rule bites_if,
            simp add: bites_none, rule bites_bind [OF bites_pre [OF inner]])
          (auto simp: eats)
    qed
  qed
qed

section \<open>The recursion\<close>

text \<open>
  Calls that can be made before a token is consumed have a smaller rank: types, link items and
  blocks, then expressions, then statements, then declarations.
\<close>

fun rank :: "call \<Rightarrow> nat" where
  "rank CallExpression = 1"
| "rank CallUnary = 1"
| "rank CallStatement = 2"
| "rank CallTopLevel = 3"
| "rank _ = 0"

lemma good_parse_step:
  assumes R: "okb n R" and lower: "\<And>c'. rank c' < rank c \<Longrightarrow> good n R c'"
  shows "good n (parse_step R) c"
proof (cases c)
  case CallExpression
  then have "ok1 n R" using R lower by (simp add: ok1_def)
  then show ?thesis
    unfolding good_def parse_step_def CallExpression as_node_def
    by (auto simp: eats start_eq intro!: bites_bind bites_ParseExpression)
next
  case CallUnary
  then have "ok1 n R" using R lower by (simp add: ok1_def)
  then show ?thesis
    unfolding good_def parse_step_def CallUnary as_node_def
    by (auto simp: eats intro: bites_none)
next
  case CallType
  then show ?thesis
    using R unfolding good_def parse_step_def CallType as_node_def
    by (auto simp: eats intro: bites_none)
next
  case (CallBlock e)
  then show ?thesis
    using R unfolding good_def parse_step_def CallBlock as_node_def
    by (auto simp: eats start_eq intro!: bites_bind bites_block)
next
  case CallStatement
  then have "ok2 n R" using R lower by (simp add: ok1_def ok2_def)
  then show ?thesis
    unfolding good_def parse_step_def CallStatement
    by (auto simp: eats start_eq intro!: bites_bind bites_ParseStatement)
next
  case CallTopLevel
  then have st: "good n R CallStatement" using lower by simp
  have "eats n (\<lambda>_. True) (as_node (parseTopLevel R))"
    "bites n (\<lambda>p. isTopLevelStart (Parser_Peek p)) (as_node (parseTopLevel R))"
    unfolding as_node_def using R st
    by (auto simp: eats intro!: bites_bind bites_parseTopLevel)
  then show ?thesis
    unfolding good_def [of n "parse_step R"] parse_step_def CallTopLevel by (simp add: start_eq)
next
  case (CallLinkItems k)
  then show ?thesis
    using R unfolding good_def parse_step_def CallLinkItems
    by (auto simp: eats intro: bites_none)
qed

lemma parse_unfold: "parse = parse_step parse"
  by (intro ext) (rule parse.simps)

lemma good_parse: "good n parse c"
proof (induction n arbitrary: c)
  case 0
  show ?case by (simp add: good_def eats_def bites_def)
next
  case (Suc n)
  then have R: "okb (Suc n) parse" by (simp add: okb_def below_def)
  show ?case
  proof (induction "rank c" arbitrary: c rule: less_induct)
    case less
    have "good (Suc n) (parse_step parse) c" by (rule good_parse_step [OF R less])
    then show ?case using parse_unfold by simp
  qed
qed

lemma okn_parse [eats]: "okn n parse"
  by (simp add: okn_def good_parse)

lemma eats_parse_declarations: "returns n parse_declarations"
  unfolding parse_declarations_def
proof (rule eats_loop, unfold split_paired_all prod.case, rule eats_if_at)
  fix body errs
  let ?P = "\<lambda>t. tok_Type t \<notin> set [TokenEof]"
  let ?m = "bindP (attemptP (callP parse CallTopLevel)) (\<lambda>r.
      case r of
        Inl e \<Rightarrow> thenP synchroniseTopLevel (againP (body, errs @ [e]))
      | Inr stmt \<Rightarrow>
          let body' = body @ [stmt] in
          ifP (Parser_Match [TokenEof]) (breakP (body', errs)) (
          ifP (\<lambda>p. \<not> Parser_Match [TokenNewline, TokenSemicolon] p)
            (bindP (readP CurrLoc) (\<lambda>l.
             thenP synchroniseTopLevel
               (againP (body', errs @ [ParseError l ''expected `;` or newline'' []]))))
            (thenP separators (againP (body', errs)))))"
  have top: "eats n (\<lambda>_. True) (callP parse CallTopLevel)"
    "bites n (\<lambda>p. isTopLevelStart (Parser_Peek p)) (callP parse CallTopLevel)"
    using bites_callP [of n parse CallTopLevel] by (simp_all add: eats start_eq)
  have m: "eats_at n ?P goes_on ?m"
    by (rule eats_at_recover [OF top eats_synchroniseTopLevel
          bites_pre [OF bites_synchroniseTopLevel]]) (auto simp: eats)
  have "returns n ?m" by (simp add: eats)
  then show "eats_at n ?P goes_on (thenP separators
      (ifP (Parser_Match [TokenEof]) (breakP (body, errs)) ?m))"
    using m by (intro eats_at_separators eats_at_if eats_if) (auto intro: eats_eats_at simp: eats)
qed (simp add: eats)

lemma Parse_returns: "\<exists>r q. Parse p = Some (r, q)"
proof -
  obtain r q where "parse_declarations p = Some (r, q)"
    using eatsD [OF eats_parse_declarations, of p "Suc (left p)"] by blast
  then show ?thesis
    by (cases r) (auto simp: Parse_def bindP_def retP_def split: prod.splits)
qed

end
