(* ===== verification/Parser_Runs.thy ===== *)
theory Parser_Runs
  imports Parser_Termination
begin

text \<open>
  Running the parser on concrete tokens by rewriting. The methods are unfolded only where they are
  applied to a state, and the control structure evaluates the state before anything else, so that
  \<open>simp add: parser_run sample_token cong: parser_cong\<close> computes the result of a call.
\<close>

lemma parser_cong:
  "p = q \<Longrightarrow> bindP m k p = bindP m k q"
  "p = q \<Longrightarrow> thenP u m p = thenP u m q"
  "p = q \<Longrightarrow> attemptP m p = attemptP m q"
  "p = q \<Longrightarrow> ifP c m m2 p = ifP c m m2 q"
  "p = q \<Longrightarrow> acceptP ks n m2 p = acceptP ks n m2 q"
  "p = q \<Longrightarrow> accept_word w s m m2 p = accept_word w s m m2 q"
  "p = q \<Longrightarrow> or_else m m2 p = or_else m m2 q"
  "p = q \<Longrightarrow> unless_from m c m2 p = unless_from m c m2 q"
  "p = q \<Longrightarrow> keep_if m c p = keep_if m c q"
  "p = q \<Longrightarrow> speculate m keep p = speculate m keep q"
  "p = q \<Longrightarrow> after_newlines c m m2 p = after_newlines c m m2 q"
  "p = q \<Longrightarrow> with_captures m p = with_captures m q"
  "p = q \<Longrightarrow> then_commit m p = then_commit m q"
  "p = q \<Longrightarrow> subparse ts m p = subparse ts m q"
  "p = q \<Longrightarrow> readP f p = readP f q"
  "s = t \<Longrightarrow> p = q \<Longrightarrow> loopP body s p = loopP body t q"
  by simp_all

lemmas parser_run =
  NewParser_def PushPos_def PopPos_def CommitPos_def Parser_Peek_def Parser_Next_def
  Parser_Inc_def PrevLoc_def CurrLoc_def SpanFrom_def Parser_Consume_def Parser_Expect_def
  Parser_ExpectGet_def Parser_Match_def MatchAdjacentPair_def MatchBuiltin_def ConsumeBuiltin_def
  at_word_def retP_def failP_def bindP_def thenP_def [THEN fun_cong] attemptP_def ifP_def
  readP_def incP_def newlines_def separators_def acceptP_def accept_word_def
  optionalP_def [THEN fun_cong] optional_keyword_def [THEN fun_cong] fail_here_def fail_prev_def
  expect_fmt_def expect_get_fmt_def expect_word_def builtinP_def finish_def [THEN fun_cong]
  then_commit_def speculate_def or_else_def unless_from_def keep_if_def after_newlines_def
  subparse_def callP_def [THEN fun_cong] call_statement_def [THEN fun_cong]
  call_link_items_def [THEN fun_cong] join_errors_def [THEN fun_cong] isTopLevelStart_def
  is_separator_def at_boundary_def clear_stack_def synchroniseTopLevel_def [THEN fun_cong]
  ParseWholeExpression_def [THEN fun_cong] parseWhenCondition_def require_builtin_def
  before_last_loc_def parseCompilerDirective_def [THEN fun_cong] at_directive_def link_kind_def
  parseLinkWhen_def [THEN fun_cong] parseLinkItems_def [THEN fun_cong]
  parseWhenDeclarationBody_def [THEN fun_cong] parseWhenBody_def [THEN fun_cong]
  parseWhen_def [THEN fun_cong] ParseIdent_def [THEN fun_cong] ident_Name_def attribute_names_def
  link_of_def parseLinkAttribute_def [THEN fun_cong] no_arguments_def [THEN fun_cong]
  parseInlineAttribute_def [THEN fun_cong] parseNoInlineAttribute_def [THEN fun_cong]
  parseNoReturnAttribute_def [THEN fun_cong] parsePackedAttribute_def [THEN fun_cong]
  foreign_abi_def foreign_option_def [THEN fun_cong, THEN fun_cong]
  parseForeignAttribute_def [THEN fun_cong] export_option_def [THEN fun_cong, THEN fun_cong]
  parseExportAttribute_def [THEN fun_cong] parseAttribute_def [THEN fun_cong]
  parseAttributes_def [THEN fun_cong] parseCallTypeArguments_def [THEN fun_cong]
  named_arguments_def [THEN fun_cong] named_rest_def [THEN fun_cong]
  ParseNamedType_def [THEN fun_cong] ParseDynType_def [THEN fun_cong]
  ParseArrayOrSliceType_def [THEN fun_cong] ParseFunctionType_def [THEN fun_cong]
  ParsePointerType_def [THEN fun_cong] is_digit_char_def SetString10_def enumValueFits32Bits_def
  enum_variant_def [THEN fun_cong, THEN fun_cong] ParseEnumType_def [THEN fun_cong]
  parseFlagValue_def [THEN fun_cong] flag_member_def [THEN fun_cong, THEN fun_cong]
  ParseFlagsType_def [THEN fun_cong] type_parameter_rest_def [THEN fun_cong]
  parseTypeParameter_def parseFunctionReturnType_def [THEN fun_cong]
  expression_body_def [THEN fun_cong] trait_receiver_def [THEN fun_cong]
  trait_parameters_def [THEN fun_cong] trait_method_def [THEN fun_cong]
  ParseTraitType_def [THEN fun_cong] union_tag_def [THEN fun_cong]
  payload_name_def [THEN fun_cong] union_payload_def [THEN fun_cong]
  union_variant_def [THEN fun_cong] ParseUnionType_def [THEN fun_cong]
  struct_field_def [THEN fun_cong] ParseStructType_def [THEN fun_cong]
  ParseType_def [THEN fun_cong] capture_name_def capturedTypeParameters_def
  type_or_expression_def [THEN fun_cong] operand_forms_def
  ParseSizeOfExpression_def [THEN fun_cong] ParseAlignOfExpression_def [THEN fun_cong]
  ParseOffsetOfExpression_def [THEN fun_cong] ParseEmbedExpression_def [THEN fun_cong]
  asm_entry_def [THEN fun_cong, THEN fun_cong] ParseInlineAsmExpression_def [THEN fun_cong]
  ParseCall_def [THEN fun_cong] call_node_def ParseFunctionCall_def [THEN fun_cong]
  flag_names_def [THEN fun_cong] literal_fields_def [THEN fun_cong]
  ParseStructLiteral_def [THEN fun_cong] ParseSliceLiteral_def [THEN fun_cong]
  no_lambda_default_def [THEN fun_cong] lambda_group_def [THEN fun_cong] set_arg_type_def
  lambda_type_def [THEN fun_cong] lambda_parameters_def [THEN fun_cong]
  ParseLambdaExpression_def [THEN fun_cong] parseIf_def [THEN fun_cong]
  parseMatchPatternLiteral_def [THEN fun_cong] empty_pattern_def
  pattern_bindings_def [THEN fun_cong] parseMatchPatternAtom_def [THEN fun_cong]
  parseMatchPatternTerm_def [THEN fun_cong] parseMatchPattern_def [THEN fun_cong]
  match_patterns_def [THEN fun_cong] match_subjects_def [THEN fun_cong]
  match_arm_def [THEN fun_cong] match_arms_def [THEN fun_cong] ParseMatch_def [THEN fun_cong]
  ParseTerm_def [THEN fun_cong] dottedIdentifier_def qualified_identifier_def
  with_type_arguments_def at_struct_literal_def postfix_call_def [THEN fun_cong]
  postfix_index_def [THEN fun_cong] postfix_dot_def [THEN fun_cong]
  ParsePostfix_def [THEN fun_cong] unary_operators_def ParseUnary_def [THEN fun_cong]
  parseLeftAssociative_def [THEN fun_cong] ParseMulDiv_def [THEN fun_cong]
  ParseAddSub_def [THEN fun_cong] ParseShift_def [THEN fun_cong]
  ParseComparison_def [THEN fun_cong] ParseBitwiseAnd_def [THEN fun_cong]
  ParseBitwiseXor_def [THEN fun_cong] ParseBitwiseOr_def [THEN fun_cong]
  ParseLogicalAnd_def [THEN fun_cong] ParseLogicalOr_def [THEN fun_cong]
  ParseExpression_def [THEN fun_cong] isStatementStart_def
  synchroniseStatement_def [THEN fun_cong] tail_expression_def [THEN fun_cong]
  block_statements_def [THEN fun_cong] parseBlock_def [THEN fun_cong] with_captures_def
  captured_nominal_def owner_application_def lift_captures_def [THEN fun_cong]
  owner_method_def [THEN fun_cong] function_name_def [THEN fun_cong]
  method_receiver_def [THEN fun_cong] parameter_name_def [THEN fun_cong]
  parameter_group_def [THEN fun_cong] set_default_def group_type_def [THEN fun_cong]
  function_parameters_def [THEN fun_cong] function_body_def [THEN fun_cong]
  ParseFunctionDefinition_def [THEN fun_cong] ParseTypeAlias_def [THEN fun_cong]
  parseModulePath_def [THEN fun_cong] import_entry_def [THEN fun_cong]
  ParseImport_def [THEN fun_cong] ParseModule_def [THEN fun_cong]
  ParseDeclaration_def [THEN fun_cong] isMultiResultSource_def
  parseMultiDeclaration_def [THEN fun_cong] ParseAssignment_def [THEN fun_cong]
  compound_operators_def ParseCompoundAssignment_def [THEN fun_cong]
  ParseDefer_def [THEN fun_cong] ParseControlKeyword_def [THEN fun_cong] header_reference_def
  header_index_def matchesRangeOrForEachHeader_def parseIterationAttributes_def [THEN fun_cong]
  destructure_names_def [THEN fun_cong] element_kind_def [THEN fun_cong] token_or_empty_def
  parseRangeOrForEach_def [THEN fun_cong] ParseForLoop_def [THEN fun_cong]
  tokenContinuesExpression_def bindingParametersIntroduce_def let_lookahead_def
  let_statement_def [THEN fun_cong] multiple_assignment_def [THEN fun_cong]
  expression_statement_def [THEN fun_cong] with_semicolon_def [THEN fun_cong]
  ParseStatement_def [THEN fun_cong] set_public_def parseTopLevel_def [THEN fun_cong]
  as_node_def [THEN fun_cong] parse_step_def [THEN fun_cong]
  parse_declarations_def [THEN fun_cong] root_loc_def Parse_def
  skip_kinds.simps loopP.simps sync_top_loop.simps sync_statement_loop.simps condition_end.simps
  binding_scan.simps parse.simps Let_def eof_token_def

section \<open>Samples\<close>

text \<open>A token at offset \<open>i\<close> of the first line; the list of tokens of a sample stays folded.\<close>

definition sample_loc :: "nat \<Rightarrow> Location" where
  "sample_loc i = zero_Location\<lparr>LC := \<lparr>Line = 1, Col = i + 1\<rparr>, Offset := i,
      EndLC := \<lparr>Line = 1, Col = i + 2\<rparr>, EndOffset := i + 1\<rparr>"

definition sample_token :: "TokenKind \<Rightarrow> string \<Rightarrow> nat \<Rightarrow> Token" where
  "sample_token k v i =
    \<lparr>tok_Type = k, tok_Value = v, tok_Loc = sample_loc i, NumberBase = 10\<rparr>"

lemma sample_token [simp]:
  "tok_Type (sample_token k v i) = k" "tok_Value (sample_token k v i) = v"
  "tok_Loc (sample_token k v i) = sample_loc i" "NumberBase (sample_token k v i) = 10"
  "Offset (sample_loc i) = i" "EndOffset (sample_loc i) = i + 1"
  by (simp_all add: sample_token_def sample_loc_def)

lemma sample:
  assumes "ts = us"
  shows "length ts = length us" "ts ! i = us ! i" "drop i ts = drop i us" "take i ts = take i us"
    "last ts = last us" "ts = [] \<longleftrightarrow> us = []"
  using assms by simp_all

end
