(* ===== verification/Parser_Trees.thy ===== *)
theory Parser_Trees
  imports Parser
begin

text \<open>
  Well-formed trees. The nodes of the model have one type; in the source each field of a node has
  an interface or a struct as its type. \<open>parts\<close> lists the nodes a node consists of, each
  with the form that its field demands, and \<open>shape\<close> states the conditions that the parser enforces
  on the node itself. Both are executable. A tree is well formed if they hold everywhere in it.
\<close>

section \<open>Forms\<close>

text \<open>A conditional stands only where its context says.\<close>

fun expression_form :: "node \<Rightarrow> bool" where
  "expression_form (Expr e) = True"
| "expression_form (WhenNode bs eb ev c l) = (c = WhenExpression)"
| "expression_form _ = False"

text \<open>A function type stands only behind a pointer.\<close>

fun pointee_form :: "node \<Rightarrow> bool" where
  "pointee_form (Type t) = True"
| "pointee_form (WhenNode bs eb ev c l) = (c = WhenType)"
| "pointee_form _ = False"

definition type_form :: "node \<Rightarrow> bool" where
  "type_form n \<longleftrightarrow> pointee_form n \<and> \<not> is_function_type n"

fun named_form :: "node \<Rightarrow> bool" where
  "named_form (Type (NamedTypeNode m n as c k l)) = True"
| "named_form _ = False"

fun block_form :: "bool \<Rightarrow> node \<Rightarrow> bool" where
  "block_form x (Expr (BlockNode ns y l)) = (x = y)"
| "block_form x _ = False"

fun directive_form :: "node \<Rightarrow> bool" where
  "directive_form (Stmt (CompilerDirectiveNode n c m nl l)) = True"
| "directive_form _ = False"

fun statement_form :: "node \<Rightarrow> bool" where
  "statement_form (Expr e) = True"
| "statement_form (Type t) = False"
| "statement_form (WhenNode bs eb ev c l) = (c = WhenStatements \<or> c = WhenExpression)"
| "statement_form (Stmt (RootNode ns l)) = False"
| "statement_form (Stmt (ImportNode ms as l)) = False"
| "statement_form (Stmt (ModuleNode n as l)) = False"
| "statement_form (Stmt s) = True"

fun declaration_form :: "node \<Rightarrow> bool" where
  "declaration_form (Stmt (ImportNode ms as l)) = True"
| "declaration_form (Stmt (ModuleNode n as l)) = True"
| "declaration_form (WhenNode bs eb ev c l) = (c \<noteq> WhenType)"
| "declaration_form n = statement_form n"

text \<open>
  The operand of \<open>@sizeof\<close> and \<open>@alignof\<close>: the parser takes a conditional expression for a type, because
  conditionals implement both interfaces.
\<close>

fun operand_form :: "node \<Rightarrow> bool" where
  "operand_form (Type t) = True"
| "operand_form (WhenNode bs eb ev c l) = (c = WhenType \<or> c = WhenExpression)"
| "operand_form _ = False"

text \<open>What a branch of a type conditional selects: a type or a directive.\<close>

definition selected_form :: "node \<Rightarrow> bool" where
  "selected_form n \<longleftrightarrow> type_form n \<or> directive_form n"

lemma statement_declaration: "statement_form n \<Longrightarrow> declaration_form n"
  by (cases n rule: declaration_form.cases) auto

lemma expression_statement_form: "expression_form n \<Longrightarrow> statement_form n"
  by (cases n rule: expression_form.cases) auto

lemma block_expression: "block_form x n \<Longrightarrow> expression_form n"
  by (cases "(x, n)" rule: block_form.cases) auto

lemma type_form_simps [simp]:
  "\<not> type_form (Stmt s)" "\<not> type_form (Expr e)"
  "type_form (WhenNode bs eb ev c l) \<longleftrightarrow> c = WhenType"
  "type_form (Type t) \<longleftrightarrow> \<not> is_function_type (Type t)"
  by (simp_all add: type_form_def is_function_type_def)

lemma named_type: "named_form n \<Longrightarrow> type_form n"
  by (cases n rule: named_form.cases) (auto simp: is_function_type_def)

lemma type_pointee: "type_form n \<Longrightarrow> pointee_form n \<and> \<not> is_function_type n"
  by (simp add: type_form_def)

lemma identifier_expression: "is_identifier n \<Longrightarrow> expression_form n"
  by (simp add: is_identifier_def split: node.splits)

lemmas forms = statement_declaration expression_statement_form block_expression named_type
  identifier_expression

section \<open>Parts\<close>

type_synonym part = "(node \<Rightarrow> bool) \<times> node"

definition each :: "(node \<Rightarrow> bool) \<Rightarrow> node list \<Rightarrow> part list" where
  "each P ns = map (Pair P) ns"

definition optional :: "(node \<Rightarrow> bool) \<Rightarrow> node option \<Rightarrow> part list" where
  "optional P x = (case x of None \<Rightarrow> [] | Some n \<Rightarrow> [(P, n)])"

fun item_parts :: "node LinkItemNode \<Rightarrow> part list"
  and items_parts :: "node LinkItemNode list \<Rightarrow> part list"
  and link_branches_parts :: "(node \<times> node LinkItemNode list) list \<Rightarrow> part list" where
  "item_parts (LinkItem l) = []"
| "item_parts (LinkWhen bs es l) = link_branches_parts bs @ items_parts es"
| "item_parts (LinkDirective n) = [(directive_form, n)]"
| "items_parts [] = []"
| "items_parts (i # is) = item_parts i @ items_parts is"
| "link_branches_parts [] = []"
| "link_branches_parts ((c, is) # bs) = (expression_form, c) # items_parts is @ link_branches_parts bs"

fun attribute_parts :: "node parsed_attribute \<Rightarrow> part list" where
  "attribute_parts (Resolved a) = []"
| "attribute_parts (Parsed_Link items) = items_parts items"

definition argument_parts :: "node FunctionNodeArg \<Rightarrow> part list" where
  "argument_parts a = optional type_form (arg_Type a) @ optional expression_form (arg_Default a)"

definition generic_parts :: "node GenericParameterNode \<Rightarrow> part list" where
  "generic_parts g = optional type_form (gen_Constraint g)"

fun pattern_parts :: "node MatchPatternNode \<Rightarrow> part list" where
  "pattern_parts (MatchPatternNode k lit first stop v bs p alts l) =
     optional expression_form lit @ optional expression_form first @ optional expression_form stop @
     concat (map pattern_parts alts)"

fun arm_parts :: "node MatchArmNode \<Rightarrow> part list" where
  "arm_parts (MatchArmNode ps g b l) =
     concat (map pattern_parts ps) @ optional expression_form g @ [(expression_form, b)]"

fun method_parts :: "node TraitMethodNode \<Rightarrow> part list" where
  "method_parts (TraitMethodNode n gs r as t b x l) =
     concat (map generic_parts gs) @ concat (map argument_parts as) @ [(type_form, t)] @
     optional expression_form b"

fun function_parts :: "node FunctionDef \<Rightarrow> part list" where
  "function_parts (FunctionDef n ow owt ogs rc gs as rt b x hv tv p attrs l) =
     optional type_form owt @ concat (map generic_parts ogs) @ concat (map generic_parts gs) @
     concat (map argument_parts as) @ optional type_form rt @ optional expression_form b @
     concat (map attribute_parts attrs)"

fun type_parts :: "node type_node \<Rightarrow> part list" where
  "type_parts (NamedTypeNode m n as c k l) = each type_form as @ optional type_form k"
| "type_parts (StructTypeNode fs l attrs) =
     each type_form (map snd fs) @ concat (map attribute_parts attrs)"
| "type_parts (ReprTypeNode t l) = [(type_form, t)]"
| "type_parts (EnumTypeNode vs xs l) = []"
| "type_parts (FlagsTypeNode u vs xs l) = [(named_form, u)]"
| "type_parts (UnionTypeNode t a fs vs l) =
     optional type_form t @ each type_form (map snd fs) @
     concat (map (\<lambda>v. each type_form (map snd (variant_Fields v))) vs)"
| "type_parts (OpaqueTypeNode l) = []"
| "type_parts (TraitTypeNode ms l) = concat (map method_parts ms)"
| "type_parts (SliceTypeNode t m l) = [(type_form, t)]"
| "type_parts (ArrayTypeNode t n l) = [(type_form, t), (expression_form, n)]"
| "type_parts (PointerTypeNode t m l) = [(pointee_form, t)]"
| "type_parts (DynTypeNode t m l) = [(named_form, t)]"
| "type_parts (FunctionTypeNode ps r v l) = each type_form ps @ [(type_form, r)]"
| "type_parts (MultipleReturnTypeNode ts l) = each type_form ts"

fun output_part :: "node InlineAsmOutput \<Rightarrow> part" where
  "output_part (InlineAsmOutput t c l) = (type_form, t)"

fun input_part :: "node InlineAsmInput \<Rightarrow> part" where
  "input_part (InlineAsmInput e c l) = (expression_form, e)"

text \<open>The blocks of an \<open>if\<close> are expressions exactly when it is one.\<close>

definition branch_parts :: "bool \<Rightarrow> node \<times> node \<Rightarrow> part list" where
  "branch_parts x = (\<lambda>(c, b). [(expression_form, c), (block_form x, b)])"

fun expression_parts :: "node expression_node \<Rightarrow> part list" where
  "expression_parts (IdentifierNode n m as l) = each type_form as"
| "expression_parts (FieldAccessNode s f l) = [(expression_form, s), (is_identifier, f)]"
| "expression_parts (ReprNode n l) = [(expression_form, n)]"
| "expression_parts (StructLiteralNode n fs ms r l) =
     optional is_identifier n @ each expression_form (map snd fs)"
| "expression_parts (SliceLiteralNode es v a l) =
     each expression_form es @ optional expression_form v @ optional expression_form a"
| "expression_parts (FunctionCallNode c n as v l) =
     (expression_form, c) # optional is_identifier n @ each expression_form as"
| "expression_parts (LambdaNode as b v l) = concat (map argument_parts as) @ [(expression_form, b)]"
| "expression_parts (InlineAsmNode t os is cs v l) = map output_part os @ map input_part is"
| "expression_parts (UnaryOpNode u e l) = [(expression_form, e)]"
| "expression_parts (IndexExprNode s i l) = [(expression_form, s), (expression_form, i)]"
| "expression_parts (SliceExprNode s b e l) =
     (expression_form, s) # optional expression_form b @ optional expression_form e"
| "expression_parts (BinaryOpNode b x y l) = [(expression_form, x), (expression_form, y)]"
| "expression_parts (CastNode t e l) = [(type_form, t), (expression_form, e)]"
| "expression_parts (SizeOfNode t e l) = (operand_form, t) # optional expression_form e"
| "expression_parts (SizeOfExprNode e l) = [(expression_form, e)]"
| "expression_parts (AlignOfNode t e l) = optional operand_form t @ optional expression_form e"
| "expression_parts (OffsetOfNode t f l) = [(type_form, t)]"
| "expression_parts (IfNode b bs e x l) =
     branch_parts x b @ concat (map (branch_parts x) bs) @ optional (block_form x) e"
| "expression_parts (MatchNode ss b bl as x l) =
     each expression_form ss @ concat (map arm_parts as)"
| "expression_parts (BlockNode ns x l) = each statement_form ns"
| "expression_parts e = []"

fun plain_parts :: "node plain_node \<Rightarrow> part list" where
  "plain_parts (RootNode ns l) = each declaration_form ns"
| "plain_parts (CompilerDirectiveNode n c m nl l) = optional expression_form c"
| "plain_parts (ImportNode ms as l) = []"
| "plain_parts (ModuleNode n attrs l) = concat (map attribute_parts attrs)"
| "plain_parts (FunctionDefNode f) = function_parts f"
| "plain_parts (TypeAliasNode n gs t tr p l) = concat (map generic_parts gs) @ [(type_form, t)]"
| "plain_parts (ForNode ns b l) = each statement_form ns @ [(block_form False, b)]"
| "plain_parts (RangeForNode n nl s e i r b l) =
     [(expression_form, s), (expression_form, e), (block_form False, b)]"
| "plain_parts (ForEachNode n nl ds k i il e r b l) =
     [(expression_form, e), (block_form False, b)]"
| "plain_parts (ControlKeywordNode k v vs l) = optional expression_form v @ each expression_form vs"
| "plain_parts (DeferNode n l) = [(expression_form, n)]"
| "plain_parts (DeclarationNode n nl m p t v c attrs l) =
     optional type_form t @ optional expression_form v @ concat (map attribute_parts attrs)"
| "plain_parts (MultiDeclarationNode ns nls m v l) = [(expression_form, v)]"
| "plain_parts (AssignmentNode a as v c l) =
     optional expression_form a @ each expression_form as @ [(expression_form, v)]"

text \<open>The bodies and values of a conditional are those of its context.\<close>

definition body_form :: "WhenContext \<Rightarrow> node \<Rightarrow> bool" where
  "body_form c = (if c = WhenDeclarations then declaration_form else statement_form)"

definition value_form :: "WhenContext \<Rightarrow> node \<Rightarrow> bool" where
  "value_form c = (if c = WhenType then selected_form else block_form True)"

fun when_branch_parts :: "WhenContext \<Rightarrow> node WhenBranchNode \<Rightarrow> part list" where
  "when_branch_parts x (WhenBranchNode c b v l) =
     (expression_form, c) # each (body_form x) b @ optional (value_form x) v"

fun parts :: "node \<Rightarrow> part list" where
  "parts (Type t) = type_parts t"
| "parts (Expr e) = expression_parts e"
| "parts (Stmt s) = plain_parts s"
| "parts (WhenNode bs eb ev c l) =
     concat (map (when_branch_parts c) bs) @ each (body_form c) eb @ optional (value_form c) ev"

section \<open>Shapes\<close>

definition is_slice_type :: "node option \<Rightarrow> bool" where
  "is_slice_type t = (case t of Some (Type (SliceTypeNode e m l)) \<Rightarrow> True | _ \<Rightarrow> False)"

text \<open>The last parameter of a function with a typed variadic parameter is a slice.\<close>

definition variadic_shape :: "node FunctionNodeArg list \<Rightarrow> bool \<Rightarrow> bool" where
  "variadic_shape as v \<longleftrightarrow> \<not> v \<or> as \<noteq> [] \<and> is_slice_type (arg_Type (last as))"

fun pattern_shape :: "node MatchPatternNode \<Rightarrow> bool" where
  "pattern_shape (MatchPatternNode k lit first stop v bs p alts l) =
     ((lit \<noteq> None) = (k = MatchPatternLiteral) \<and>
      (first \<noteq> None) = (k = MatchPatternRange) \<and> (stop \<noteq> None) = (k = MatchPatternRange) \<and>
      (bs \<noteq> [] \<longrightarrow> p) \<and> (p \<longrightarrow> k = MatchPatternVariant) \<and>
      (if k = MatchPatternAlternative then 2 \<le> length alts else alts = []) \<and>
      list_all (\<lambda>a. pat_Kind a \<noteq> MatchPatternAlternative) alts \<and> list_all pattern_shape alts)"

text \<open>An arm has one pattern per subject, or a single wildcard.\<close>

fun arm_shape :: "nat \<Rightarrow> node MatchArmNode \<Rightarrow> bool" where
  "arm_shape n (MatchArmNode ps g b l) =
     ((length ps = n \<or> length ps = 1 \<and> pat_Kind (hd ps) = MatchPatternWildcard) \<and>
      list_all pattern_shape ps)"

definition function_shape :: "node FunctionDef \<Rightarrow> bool" where
  "function_shape f \<longleftrightarrow>
    distinct (map gen_Name (fd_GenericParameters f)) \<and>
    variadic_shape (fd_Args f) (fd_TypedVariadic f) \<and>
    \<not> (fd_HasVariadic f \<and> fd_TypedVariadic f) \<and>
    (fd_Receiver f \<noteq> MethodReceiverNone \<longrightarrow> fd_Args f \<noteq> [] \<and> arg_Name (hd (fd_Args f)) = ''self'') \<and>
    (fd_Body f = None) = has_attribute (fd_Attributes f) AttributeTypeForeign"

definition union_shape ::
  "node option \<Rightarrow> bool \<Rightarrow> (string \<times> node) list \<Rightarrow> node TaggedUnionVariantNode list \<Rightarrow> bool" where
  "union_shape t a fs vs \<longleftrightarrow>
    distinct (map fst fs @ map variant_Name vs) \<and>
    list_all (\<lambda>v. distinct (filter (\<lambda>n. n \<noteq> []) (map fst (variant_Fields v)))) vs \<and>
    (if t \<noteq> None \<or> a then fs = [] \<and> \<not> (t \<noteq> None \<and> a) \<and> (a \<longrightarrow> vs \<noteq> []) else vs = [] \<and> fs \<noteq> [])"

fun type_shape :: "node type_node \<Rightarrow> bool" where
  "type_shape (EnumTypeNode vs xs l) =
     (vs \<noteq> [] \<and> distinct vs \<and> length xs = length vs \<and>
      (xs = map decimal [0..<length vs] \<or> list_all enumValueFits32Bits xs))"
| "type_shape (FlagsTypeNode u vs xs l) = (vs \<noteq> [] \<and> distinct vs \<and> length xs = length vs)"
| "type_shape (UnionTypeNode t a fs vs l) = union_shape t a fs vs"
| "type_shape (TraitTypeNode ms l) =
     (distinct (map tm_Name ms) \<and> list_all (\<lambda>m. tm_Receiver m \<noteq> MethodReceiverNone) ms)"
| "type_shape (PointerTypeNode t m l) = (\<not> (m \<and> is_function_type t))"
| "type_shape (FunctionTypeNode ps r v l) = (v \<longrightarrow> ps \<noteq> [] \<and> is_slice_type (Some (last ps)))"
| "type_shape (MultipleReturnTypeNode ts l) = (2 \<le> length ts)"
| "type_shape t = True"

fun expression_shape :: "node expression_node \<Rightarrow> bool" where
  "expression_shape (StructLiteralNode n fs ms r l) = (fs = [] \<or> ms = [])"
| "expression_shape (SliceLiteralNode es v a l) = ((v = None) = (a = None) \<and> (v \<noteq> None \<longrightarrow> es = []))"
| "expression_shape (FunctionCallNode c n as v l) =
     ((n = (if is_identifier c then Some c else None)) \<and> (v \<longrightarrow> as \<noteq> []))"
| "expression_shape (LambdaNode as b v l) =
     (variadic_shape as v \<and> list_all (\<lambda>a. arg_Default a = None) as)"
| "expression_shape (AlignOfNode t e l) = (t \<noteq> None \<or> e \<noteq> None)"
| "expression_shape (IfNode b bs e x l) = (x \<longrightarrow> e \<noteq> None)"
| "expression_shape (MatchNode ss b bl as x l) =
     (ss \<noteq> [] \<and> as \<noteq> [] \<and> list_all (arm_shape (length ss)) as)"
| "expression_shape e = True"

definition keywords_of_control :: "string list" where
  "keywords_of_control = [''return'', ''break'', ''continue'']"

fun is_conditional :: "node \<Rightarrow> bool" where
  "is_conditional (WhenNode bs eb ev c l) = True"
| "is_conditional n = False"

text \<open>A compound assignment repeats its target, unless the target is a conditional.\<close>

fun plain_shape :: "node plain_node \<Rightarrow> bool" where
  "plain_shape (CompilerDirectiveNode n c m nl l) =
     (n \<in> {''compiler_assert'', ''compiler_error''} \<and> (c \<noteq> None) = (n = ''compiler_assert''))"
| "plain_shape (ImportNode ms as l) = (length as = length ms)"
| "plain_shape (FunctionDefNode f) = function_shape f"
| "plain_shape (ForEachNode n nl ds k i il e r b l) = (ds \<noteq> [] \<longrightarrow> n = [] \<and> k = ForEachElementValue)"
| "plain_shape (ControlKeywordNode k v vs l) =
     (k \<in> set keywords_of_control \<and> v = (case vs of [] \<Rightarrow> None | e # es \<Rightarrow> Some e) \<and>
      (k \<noteq> ''return'' \<longrightarrow> vs = []))"
| "plain_shape (DeclarationNode n nl m p t v c attrs l) =
     (\<not> (m \<and> c) \<and> (v = None \<longrightarrow> attrs \<noteq> []) \<and>
      (v = None \<and> has_attribute attrs AttributeTypeForeign \<longrightarrow> t \<noteq> None))"
| "plain_shape (MultiDeclarationNode ns nls m v l) =
     (ns \<noteq> [] \<and> length nls = length ns \<and> isMultiResultSource v)"
| "plain_shape (AssignmentNode a as v c l) =
     ((a = None) = (as \<noteq> []) \<and> (as \<noteq> [] \<longrightarrow> isMultiResultSource v \<and> \<not> c) \<and>
      (c \<longrightarrow> (case v of
         Expr (BinaryOpNode b x y l') \<Rightarrow> a = Some x \<or> (\<exists>t. a = Some t \<and> is_conditional t) | _ \<Rightarrow> False)))"
| "plain_shape s = True"

text \<open>Conditional declarations and statements have bodies, expressions and types have values.\<close>

fun when_branch_shape :: "WhenContext \<Rightarrow> node WhenBranchNode \<Rightarrow> bool" where
  "when_branch_shape x (WhenBranchNode c b v l) =
     (if x = WhenDeclarations \<or> x = WhenStatements then v = None else b = [] \<and> v \<noteq> None)"

fun shape :: "node \<Rightarrow> bool" where
  "shape (Type t) = type_shape t"
| "shape (Expr e) = expression_shape e"
| "shape (Stmt s) = plain_shape s"
| "shape (WhenNode bs eb ev c l) =
     (bs \<noteq> [] \<and> list_all (when_branch_shape c) bs \<and>
      (if c = WhenDeclarations \<or> c = WhenStatements then ev = None else eb = []))"

section \<open>Well-formed trees\<close>

text \<open>A part is smaller than its node.\<close>

definition smaller :: "nat \<Rightarrow> part list \<Rightarrow> bool" where
  "smaller k ps \<longleftrightarrow> list_all (\<lambda>(Q, m). size m < k) ps"

lemma smaller_simps [simp]:
  "smaller k []" "smaller k ((Q, m) # ps) \<longleftrightarrow> size m < k \<and> smaller k ps"
  "smaller k (ps @ qs) \<longleftrightarrow> smaller k ps \<and> smaller k qs"
  by (simp_all add: smaller_def)

lemma smaller_mono: "smaller j ps \<Longrightarrow> j \<le> k \<Longrightarrow> smaller k ps"
  by (induction ps) (auto simp: smaller_def)

lemma smaller_each: "size_list size ns \<le> k \<Longrightarrow> smaller k (each Q ns)"
  by (induction ns) (auto simp: each_def)

lemma smaller_fields: "size_list (size_prod (\<lambda>_. 0) size) fs \<le> k \<Longrightarrow> smaller k (each Q (map snd fs))"
  by (induction fs) (auto simp: each_def)

lemma smaller_optional: "size_option size x \<le> k \<Longrightarrow> smaller k (optional Q x)"
  by (cases x) (auto simp: optional_def)

lemma smaller_concat:
  "\<lbrakk>\<And>x. x \<in> set xs \<Longrightarrow> smaller (g x) (f x); size_list g xs \<le> k\<rbrakk> \<Longrightarrow> smaller k (concat (map f xs))"
proof (induction xs arbitrary: k)
  case (Cons x xs)
  then have "smaller (g x) (f x)" "g x \<le> k" "smaller k (concat (map f xs))" by auto
  then show ?case by (auto intro: smaller_mono)
qed simp

lemmas smaller = smaller_each smaller_fields smaller_optional

lemma smaller_items:
  "smaller (size_LinkItemNode size i) (item_parts i)"
  "smaller (size_list (size_LinkItemNode size) is) (items_parts is)"
  "smaller (size_list (size_prod size (size_list (size_LinkItemNode size))) bs) (link_branches_parts bs)"
  by (induction i and "is" and bs rule: item_parts_items_parts_link_branches_parts.induct)
    (auto elim: smaller_mono)

lemma smaller_attribute: "smaller (size_parsed_attribute size a) (attribute_parts a)"
  by (cases a) (auto intro: smaller_mono [OF smaller_items(2)])

lemma smaller_argument: "smaller (size_FunctionNodeArg size a) (argument_parts a)"
  by (cases a) (auto simp: argument_parts_def intro!: smaller)

lemma smaller_generic: "smaller (size_GenericParameterNode size g) (generic_parts g)"
  by (cases g) (auto simp: generic_parts_def intro!: smaller)

lemma smaller_pattern: "smaller (size_MatchPatternNode size p) (pattern_parts p)"
  by (induction p rule: pattern_parts.induct) (auto intro!: smaller smaller_concat)

lemma smaller_arm: "smaller (size_MatchArmNode size a) (arm_parts a)"
  by (cases a) (auto intro!: smaller smaller_concat [OF smaller_pattern])

lemma smaller_method: "smaller (size_TraitMethodNode size m) (method_parts m)"
  by (cases m)
    (auto intro!: smaller smaller_concat [OF smaller_generic] smaller_concat [OF smaller_argument])

lemma smaller_variant:
  "smaller (size_TaggedUnionVariantNode size v) (each Q (map snd (variant_Fields v)))"
  by (cases v) (auto intro!: smaller)

lemma smaller_function: "smaller (size_FunctionDef size f) (function_parts f)"
  by (cases f) (auto intro!: smaller smaller_concat [OF smaller_generic]
      smaller_concat [OF smaller_argument] smaller_concat [OF smaller_attribute])

lemma smaller_branch: "smaller (size_prod size size b) (branch_parts x b)"
  by (auto simp: branch_parts_def split: prod.splits)

lemma smaller_when_branch: "smaller (size_WhenBranchNode size b) (when_branch_parts x b)"
  by (cases b) (auto intro!: smaller)

lemma smaller_output: "smaller (size_list (size_InlineAsmOutput size) os) (map output_part os)"
  by (induction os) (auto simp: smaller_def list_all_iff elim!: output_part.elims)

lemma smaller_input: "smaller (size_list (size_InlineAsmInput size) os) (map input_part os)"
  by (induction os) (auto simp: smaller_def list_all_iff elim!: input_part.elims)

lemma smaller_parts: "smaller (size n) (parts n)"
proof (cases n)
  case (Type t)
  then show ?thesis
    by (cases t) (auto intro!: smaller smaller_concat [OF smaller_attribute]
        smaller_concat [OF smaller_method] smaller_concat [OF smaller_variant])
next
  case (Expr e)
  then show ?thesis
    by (cases e) (auto intro!: smaller smaller_concat [OF smaller_argument]
        smaller_concat [OF smaller_arm] smaller_concat [OF smaller_branch]
        smaller_mono [OF smaller_branch] smaller_mono [OF smaller_output] smaller_mono [OF smaller_input])
next
  case (Stmt s)
  then show ?thesis
    by (cases s) (auto intro!: smaller smaller_concat [OF smaller_generic]
        smaller_concat [OF smaller_attribute] smaller_mono [OF smaller_function])
next
  case (WhenNode bs eb ev c l)
  then show ?thesis by (auto intro!: smaller smaller_concat [OF smaller_when_branch])
qed

lemma parts_size: "(P, m) \<in> set (parts n) \<Longrightarrow> size m < size n"
  using smaller_parts [of n] by (auto simp: smaller_def list_all_iff)

function everywhere :: "(node \<Rightarrow> bool) \<Rightarrow> node \<Rightarrow> bool" where
  "everywhere P n \<longleftrightarrow> P n \<and> list_all (\<lambda>(Q, m). everywhere P m) (parts n)"
  by pat_completeness auto
termination by (relation "measure (\<lambda>(P, n). size n)") (auto dest: parts_size)

declare everywhere.simps [simp del]

text \<open>The nodes in a node's fields have the form the fields demand.\<close>

definition fits :: "node \<Rightarrow> bool" where
  "fits n \<longleftrightarrow> list_all (\<lambda>(Q, m). Q m) (parts n)"

definition tree :: "node \<Rightarrow> bool" where
  "tree n \<longleftrightarrow> everywhere (\<lambda>n. fits n \<and> shape n) n"

definition part_ok :: "part \<Rightarrow> bool" where
  "part_ok = (\<lambda>(Q, m). Q m \<and> tree m)"

lemma tree_iff: "tree n \<longleftrightarrow> shape n \<and> list_all part_ok (parts n)"
  unfolding tree_def part_ok_def
  by (subst everywhere.simps) (auto simp: fits_def list_all_iff tree_def)

lemma everywhere_mono: "everywhere P n \<Longrightarrow> (\<And>n. P n \<Longrightarrow> Q n) \<Longrightarrow> everywhere Q n"
proof (induction P n rule: everywhere.induct)
  case (1 P n)
  then show ?case
    by (subst everywhere.simps, subst (asm) (2) everywhere.simps) (auto simp: list_all_iff)
qed

end
