(* ===== verification/Source_Header.thy ===== *)
theory Source_Header
  imports Parser
begin

text \<open>
  The scan for the module name and the imports of a file that runs before compile-time expansion
  (\<^verbatim>\<open>src/parser/header.go\<close>), and the analysis of the control flow of a tree
  (\<^verbatim>\<open>src/parser/control_flow.go\<close>). An index into the tokens is a natural number; the bound that
  the code tests before every access is part of \<open>kind_at\<close>.
\<close>

section \<open>Headers\<close>

record SourceHeader =
  hdr_Module :: string
  hdr_Imports :: "string list"
  hdr_Aliases :: "string list"

definition kind_at :: "Token list \<Rightarrow> nat \<Rightarrow> TokenKind list \<Rightarrow> bool" where
  "kind_at ts i ks \<longleftrightarrow> i < length ts \<and> tok_Type (ts ! i) \<in> set ks"

function skip_tokens :: "TokenKind list \<Rightarrow> Token list \<Rightarrow> nat \<Rightarrow> nat" where
  "skip_tokens ks ts i = (if kind_at ts i ks then skip_tokens ks ts (i + 1) else i)"
  by pat_completeness auto
termination by (relation "measure (\<lambda>(ks, ts, i). length ts - i)") (auto simp: kind_at_def)

declare skip_tokens.simps [simp del]

function skip_until :: "TokenKind list \<Rightarrow> Token list \<Rightarrow> nat \<Rightarrow> nat" where
  "skip_until ks ts i =
    (if i < length ts \<and> tok_Type (ts ! i) \<notin> set ks then skip_until ks ts (i + 1) else i)"
  by pat_completeness auto
termination by (relation "measure (\<lambda>(ks, ts, i). length ts - i)") auto

declare skip_until.simps [simp del]

text \<open>The parts of a path after its first name, and the index after them.\<close>

function path_loop :: "Token list \<Rightarrow> nat \<Rightarrow> string list \<Rightarrow> parse_error + string list \<times> nat" where
  "path_loop ts i parts =
    (if kind_at ts i [TokenDot] then
       if kind_at ts (i + 1) [TokenIdentifier] then
         path_loop ts (i + 2) (parts @ [tok_Value (ts ! (i + 1))])
       else Inl (ParseError (tok_Loc (ts ! i)) ''expected module name after `.`'' [])
     else Inr (parts, i))"
  by pat_completeness auto
termination by (relation "measure (\<lambda>(ts, i, ps). length ts - i)") (auto simp: kind_at_def)

declare path_loop.simps [simp del]

definition scanHeaderModulePath :: "Token list \<Rightarrow> nat \<Rightarrow> parse_error + string \<times> nat" where
  "scanHeaderModulePath ts start =
    (if \<not> kind_at ts start [TokenIdentifier] then
       Inl (ParseError (if start < length ts then tok_Loc (ts ! start) else zero_Location)
         ''expected module name'' [])
     else
       (case path_loop ts (start + 1) [tok_Value (ts ! start)] of
          Inl e \<Rightarrow> Inl e
        | Inr (parts, i) \<Rightarrow> Inr (join_strings ''.'' parts, i)))"

lemma path_loop_advances: "path_loop ts i parts = Inr (parts', j) \<Longrightarrow> i \<le> j"
proof (induction ts i parts rule: path_loop.induct)
  case (1 ts i parts)
  then show ?case
    by (subst (asm) (2) path_loop.simps) (fastforce split: if_splits)
qed

lemma scanHeaderModulePath_advances:
  "scanHeaderModulePath ts i = Inr (name, j) \<Longrightarrow> i < j \<and> i < length ts"
  by (auto simp: scanHeaderModulePath_def kind_at_def dest: path_loop_advances
      split: if_splits sum.splits)

lemma skip_tokens_le: "i \<le> skip_tokens ks ts i"
proof (induction ks ts i rule: skip_tokens.induct)
  case (1 ks ts i)
  then show ?case by (subst skip_tokens.simps) auto
qed

lemma skip_until_le: "i \<le> skip_until ks ts i"
proof (induction ks ts i rule: skip_until.induct)
  case (1 ks ts i)
  then show ?case by (subst skip_until.simps) auto
qed

definition header_alias :: "Token list \<Rightarrow> nat \<Rightarrow> string \<times> nat" where
  "header_alias ts i =
    (if kind_at ts i [TokenIdentifier] then (tok_Value (ts ! i), i + 1) else ([], i))"

lemma import_step_advances:
  assumes "scanHeaderModulePath ts (skip_tokens ks ts i) = Inr (nm, i2)"
    "header_alias ts i2 = (al, i3)"
  shows "i < i3 \<and> i < length ts \<and> i < skip_until [TokenComma, TokenNewline, TokenCloseParen] ts i3"
proof -
  have "skip_tokens ks ts i < i2" "skip_tokens ks ts i < length ts" "i2 \<le> i3"
    using scanHeaderModulePath_advances [OF assms(1)] assms(2)
    by (auto simp: header_alias_def split: if_splits)
  then show ?thesis
    using skip_tokens_le [of i ks ts] 
      skip_until_le [of i3 "[TokenComma, TokenNewline, TokenCloseParen]" ts] by linarith
qed

text \<open>The loop over the imports; the imports, the aliases and the index after them.\<close>

type_synonym header_imports = "parse_error + string list \<times> string list \<times> nat"

function import_loop ::
  "Token list \<Rightarrow> bool \<Rightarrow> nat \<Rightarrow> string list \<Rightarrow> string list \<Rightarrow> header_imports" where
  "import_loop ts grouped i imports aliases =
    (if length ts \<le> i then Inr (imports, aliases, i)
     else
       let i1 = skip_tokens [TokenNewline, TokenComma] ts i in
       if grouped \<and> kind_at ts i1 [TokenCloseParen] then Inr (imports, aliases, i1 + 1)
       else
         (case scanHeaderModulePath ts i1 of
            Inl e \<Rightarrow> Inl e
          | Inr (name, i2) \<Rightarrow>
              (case header_alias ts i2 of
                 (alias, i3) \<Rightarrow>
                   if \<not> grouped then Inr (imports @ [name], aliases @ [alias], i3)
                   else
                     import_loop ts grouped
                       (skip_until [TokenComma, TokenNewline, TokenCloseParen] ts i3)
                       (imports @ [name]) (aliases @ [alias]))))"
  by pat_completeness auto
termination
  by (relation "measure (\<lambda>(ts, g, i, ms, nms). length ts - i)")
    (auto dest!: import_step_advances [OF _ sym])

declare import_loop.simps [simp del]

definition scanHeaderImport :: "Token list \<Rightarrow> nat \<Rightarrow> header_imports" where
  "scanHeaderImport ts start =
    (let i = skip_tokens [TokenNewline] ts start;
         grouped = kind_at ts i [TokenOpenParen]
     in import_loop ts grouped (if grouped then i + 1 else i) [] [])"

lemma import_loop_advances: "import_loop ts g i ms nms = Inr (ms', nms', j) \<Longrightarrow> i \<le> j"
proof (induction ts g i ms nms rule: import_loop.induct)
  case (1 ts g i ms nms)
  let ?i1 = "skip_tokens [TokenNewline, TokenComma] ts i"
  consider "length ts \<le> i" | "i < length ts" "g \<and> kind_at ts ?i1 [TokenCloseParen]"
    | "i < length ts" "\<not> (g \<and> kind_at ts ?i1 [TokenCloseParen])" by linarith
  then show ?case
  proof cases
    case 3
    then obtain name i2 where path: "scanHeaderModulePath ts ?i1 = Inr (name, i2)"
      using import_loop.simps [of ts g i ms nms] "1.prems" by (auto split: sum.splits)
    obtain a i3 where al: "header_alias ts i2 = (a, i3)" by fastforce
    have le: "i \<le> i3" using import_step_advances [OF path al] by simp
    show ?thesis
    proof (cases g)
      case True
      let ?j = "skip_until [TokenComma, TokenNewline, TokenCloseParen] ts i3"
      have "import_loop ts g ?j (ms @ [name]) (nms @ [a]) = import_loop ts g i ms nms"
        by (subst (2) import_loop.simps) (use 3 True path al in simp)
      also have "\<dots> = Inr (ms', nms', j)" by (rule "1.prems")
      finally have "?j \<le> j"
        by (intro 1(1) [OF _ refl _ path refl al [symmetric]]) (use 3 True in simp_all)
      then show ?thesis
        using le skip_until_le [of i3 "[TokenComma, TokenNewline, TokenCloseParen]" ts] by linarith
    next
      case False
      have "import_loop ts g i ms nms = Inr (ms @ [name], nms @ [a], i3)"
        by (subst import_loop.simps) (use 3 False path al in simp)
      then show ?thesis using "1.prems" le by simp
    qed
  next
    case 1
    then show ?thesis using import_loop.simps [of ts g i ms nms] "1.prems" by simp
  next
    case 2
    then show ?thesis
      using import_loop.simps [of ts g i ms nms] "1.prems"
        skip_tokens_le [of i "[TokenNewline, TokenComma]" ts] by simp
  qed
qed

lemma scanHeaderImport_advances:
  assumes "scanHeaderImport ts i = Inr (ms, nms, j)"
  shows "i \<le> j"
proof -
  have "skip_tokens [TokenNewline] ts i \<le> j"
    using import_loop_advances assms
    by (fastforce simp: scanHeaderImport_def Let_def split: if_splits)
  then show ?thesis using skip_tokens_le order.trans by blast
qed

text \<open>The loop of \<open>ScanSourceHeader\<close> over the tokens.\<close>

function header_loop :: "Token list \<Rightarrow> nat \<Rightarrow> SourceHeader \<Rightarrow> parse_error + SourceHeader" where
  "header_loop ts i header =
    (if length ts \<le> i then Inr header
     else if kind_at ts i [TokenKeyword] \<and> tok_Value (ts ! i) = ''module'' then
       if hdr_Module header \<noteq> [] then header_loop ts (i + 1) header
       else
         (case scanHeaderModulePath ts (i + 1) of
            Inl e \<Rightarrow> Inl e
          | Inr (name, _) \<Rightarrow> header_loop ts (i + 1) (header\<lparr>hdr_Module := name\<rparr>))
     else if kind_at ts i [TokenKeyword] \<and> tok_Value (ts ! i) = ''import'' then
       (case scanHeaderImport ts (i + 1) of
          Inl e \<Rightarrow> Inl e
        | Inr (imports, aliases, j) \<Rightarrow>
            header_loop ts j
              (header\<lparr>hdr_Imports := hdr_Imports header @ imports,
                hdr_Aliases := hdr_Aliases header @ aliases\<rparr>))
     else header_loop ts (i + 1) header)"
  by pat_completeness auto
termination
  by (relation "measure (\<lambda>(ts, i, h). length ts - i)")
    (auto simp: kind_at_def dest: scanHeaderImport_advances)

declare header_loop.simps [simp del]

definition ScanSourceHeader :: "Token list \<Rightarrow> parse_error + SourceHeader" where
  "ScanSourceHeader ts =
    header_loop ts 0 \<lparr>hdr_Module = [], hdr_Imports = [], hdr_Aliases = []\<rparr>"

section \<open>Control flow\<close>

text \<open>The expression a block yields at its end. A nil block and a nil expression are \<open>None\<close>.\<close>

fun is_statement_form :: "node \<Rightarrow> bool" where
  "is_statement_form (Expr (BlockNode ns e l)) = (\<not> e)"
| "is_statement_form (Expr (IfNode b bs eb e l)) = (\<not> e)"
| "is_statement_form (Expr (MatchNode ss n nl as e l)) = (\<not> e)"
| "is_statement_form _ = False"

fun BlockResult :: "node option \<Rightarrow> node option" where
  "BlockResult (Some (Expr (BlockNode body expression l))) =
     (if \<not> expression \<or> body = [] then None
      else if \<not> is_expression (last body) then None
      else if is_statement_form (last body) then None
      else Some (last body))"
| "BlockResult _ = None"

text \<open>
  Whether control can continue after a node. The symbol of a call is found by semantic analysis;
  \<open>noreturn\<close> tells of a call whether its symbol is known and has the attribute.
\<close>

function (sequential) NodeFallsThrough :: "(node \<Rightarrow> bool) \<Rightarrow> node \<Rightarrow> bool"
  and all_fall_through :: "(node \<Rightarrow> bool) \<Rightarrow> node list \<Rightarrow> bool"
  and branch_falls_through :: "(node \<Rightarrow> bool) \<Rightarrow> (node \<times> node) list \<Rightarrow> bool"
  and arm_falls_through :: "(node \<Rightarrow> bool) \<Rightarrow> node MatchArmNode list \<Rightarrow> bool" where
  "NodeFallsThrough noreturn (Stmt (ControlKeywordNode kw e es l)) =
     (kw \<noteq> ''return'' \<and> kw \<noteq> ''break'' \<and> kw \<noteq> ''continue'')"
| "NodeFallsThrough noreturn (Expr (BlockNode body x l)) = all_fall_through noreturn body"
| "NodeFallsThrough noreturn (Expr (IfNode (c, b) elseIfs elseBranch x l)) =
     (case elseBranch of
        None \<Rightarrow> True
      | Some e \<Rightarrow>
          NodeFallsThrough noreturn b \<or> branch_falls_through noreturn elseIfs \<or>
          NodeFallsThrough noreturn e)"
| "NodeFallsThrough noreturn (Expr (MatchNode ss n nl arms x l)) = arm_falls_through noreturn arms"
| "NodeFallsThrough noreturn (Expr (FunctionCallNode f n as v l)) =
     (\<not> noreturn (Expr (FunctionCallNode f n as v l)))"
| "NodeFallsThrough noreturn _ = True"
| "all_fall_through noreturn [] = True"
| "all_fall_through noreturn (n # ns) =
     (if \<not> NodeFallsThrough noreturn n then False else all_fall_through noreturn ns)"
| "branch_falls_through noreturn [] = False"
| "branch_falls_through noreturn ((c, b) # bs) =
     (if NodeFallsThrough noreturn b then True else branch_falls_through noreturn bs)"
| "arm_falls_through noreturn [] = False"
| "arm_falls_through noreturn (MatchArmNode ps g b l # as) =
     (if NodeFallsThrough noreturn b then True else arm_falls_through noreturn as)"
  by pat_completeness auto
termination
  by (relation "measure (\<lambda>x. case x of
        Inl (Inl (f, n)) \<Rightarrow> size n
      | Inl (Inr (f, ns)) \<Rightarrow> size_list size ns
      | Inr (Inl (f, bs)) \<Rightarrow> size_list (size_prod size size) bs
      | Inr (Inr (f, as)) \<Rightarrow> size_list (size_MatchArmNode size) as)")
    (auto simp: less_Suc_eq_le)

end
