(* ===== verification/Source_Header_Facts.thy ===== *)
theory Source_Header_Facts
  imports Parser_Termination Source_Header
begin

text \<open>
  Results of loops, and the agreement of the scan for imports with the parser's own reading of them.
\<close>

section \<open>Results of loops\<close>

text \<open>An invariant of the rounds of a loop gives a property of its result and final state.\<close>

lemma loop_result:
  assumes "loopP body s p = Some (Parsed a, q)" and "I s p"
    and again: "\<And>s p t q. \<lbrakk>I s p; body s p = Some (Parsed (Inl t), q)\<rbrakk> \<Longrightarrow> I t q"
    and stop: "\<And>s p a q. \<lbrakk>I s p; body s p = Some (Parsed (Inr a), q)\<rbrakk> \<Longrightarrow> Q a q"
  shows "Q a q"
proof -
  have "\<lbrakk>I s p;
      \<And>s p t q. \<lbrakk>I s p; body s p = Some (Parsed (Inl t), q)\<rbrakk> \<Longrightarrow> I t q;
      \<And>s p a q. \<lbrakk>I s p; body s p = Some (Parsed (Inr a), q)\<rbrakk> \<Longrightarrow> Q a q\<rbrakk>
    \<Longrightarrow> case x of (r, q) \<Rightarrow> \<forall>a. r = Parsed a \<longrightarrow> Q a q"
    if "loopP body s p = Some x" for body s p x
    using that
  proof (induction rule: loopP.raw_induct [rotated 1, consumes 1, case_names 1])
    case (1 loop body s p x)
    obtain r q where run: "body s p = Some (r, q)"
      using 1(2) by (cases "body s p") auto
    show ?case
    proof (cases r)
      case (Parsed t)
      show ?thesis
      proof (cases t)
        case (Inl s')
        with run Parsed 1(2) "1.prems" have "loop body s' q = Some x" "I s' q" by simp_all
        then show ?thesis using 1(1) "1.prems"(2,3) by blast
      next
        case (Inr b)
        with run Parsed 1(2) "1.prems" show ?thesis by auto
      qed
    qed (use run 1(2) in auto)
  qed
  from this [OF assms(1,2) again stop] show ?thesis by simp
qed

lemma bind_result:
  "bindP m k p = Some (Parsed b, q) \<longleftrightarrow> (\<exists>a p'. m p = Some (Parsed a, p') \<and> k a p' = Some (Parsed b, q))"
  by (auto simp: bindP_def split: option.splits parsed.splits)

lemma then_result:
  "thenP m k p = Some (Parsed b, q) \<longleftrightarrow> (\<exists>p'. m p = Some (Parsed (), p') \<and> k p' = Some (Parsed b, q))"
  by (simp add: thenP_def bind_result)

section \<open>Positions\<close>

lemma Match_kind_at:
  "TokenEof \<notin> set ks \<Longrightarrow> Parser_Match ks p \<longleftrightarrow> kind_at (p_tokens p) (p_pos p) ks"
  by (auto simp: Parser_Match_def kind_at_def Parser_Peek_def eof_token_def)

lemma skip_kinds_tokens:
  assumes "TokenEof \<notin> set ks"
  shows "skip_kinds ks p = p\<lparr>p_pos := skip_tokens ks (p_tokens p) (p_pos p)\<rparr>"
  using assms
proof (induction ks p rule: skip_kinds.induct)
  case (1 ks p)
  then show ?case
    by (subst skip_kinds.simps, subst skip_tokens.simps)
      (auto simp: Match_kind_at Parser_Inc_def kind_at_def)
qed

lemma kind_at_Peek: "kind_at (p_tokens p) (p_pos p) ks \<Longrightarrow> Parser_Peek p = p_tokens p ! p_pos p"
  by (auto simp: kind_at_def Parser_Peek_def)

lemma skip_tokens_stop: "\<not> kind_at ts i ks \<Longrightarrow> skip_tokens ks ts i = i"
  by (subst skip_tokens.simps) simp

lemma skip_tokens_step: "kind_at ts i ks \<Longrightarrow> skip_tokens ks ts (Suc i) = skip_tokens ks ts i"
  by (subst (2) skip_tokens.simps) simp

text \<open>Skipping some of the kinds first makes no difference to skipping all of them.\<close>

lemma skip_tokens_twice:
  assumes "set js \<subseteq> set ks"
  shows "skip_tokens ks ts (skip_tokens js ts i) = skip_tokens ks ts i"
  using assms
proof (induction js ts i rule: skip_tokens.induct)
  case (1 js ts i)
  show ?case
  proof (cases "kind_at ts i js")
    case True
    with 1 have "kind_at ts i ks" by (auto simp: kind_at_def)
    then show ?thesis
      using 1 True by (subst skip_tokens.simps [of js]) (simp add: skip_tokens_step)
  qed (simp add: skip_tokens_stop)
qed

lemma expect_get_result:
  assumes "k \<noteq> TokenEof"
  shows "expect_get_fmt k msg args p = Some (Parsed t, q) \<longleftrightarrow>
    kind_at (p_tokens p) (p_pos p) [k] \<and> t = p_tokens p ! p_pos p \<and> q = p\<lparr>p_pos := p_pos p + 1\<rparr>"
proof -
  have "expect_get_fmt k msg args p = Some (Parsed t, q) \<longleftrightarrow>
      Parser_Match [k] p \<and> t = Parser_Peek p \<and> q = Parser_Inc p"
    by (auto simp: expect_get_fmt_def Parser_ExpectGet_def Parser_Consume_def
        fail_prev_def Parser_Match_def split: prod.splits if_splits)
  then show ?thesis
    using assms kind_at_Peek [of p "[k]"] by (auto simp: Match_kind_at Parser_Inc_def)
qed

lemma accept_result:
  assumes "TokenEof \<notin> set ks"
  shows "acceptP ks m1 m2 p =
    (if kind_at (p_tokens p) (p_pos p) ks
     then m1 (p_tokens p ! p_pos p) (p\<lparr>p_pos := p_pos p + 1\<rparr>) else m2 p)"
  using assms by (auto simp: acceptP_def Match_kind_at kind_at_Peek Parser_Inc_def)

section \<open>Imports\<close>

lemma parseModulePath_scan:
  assumes "parseModulePath p = Some (Parsed (name, l), q)"
  shows "scanHeaderModulePath (p_tokens p) (p_pos p) = Inr (name, p_pos q)"
    and "p_tokens q = p_tokens p"
proof -
  let ?ts = "p_tokens p"
  let ?body = "\<lambda>parts. acceptP [TokenDot]
        (\<lambda>_. bindP (expect_get TokenIdentifier ''expected module name after `.`'') (\<lambda>part.
          againP (parts @ [tok_Value part])))
        (breakP (join_strings ''.'' parts, last parts))"
  obtain t p' where "expect_get TokenIdentifier ''expected module name'' p = Some (Parsed t, p')"
    and loop: "loopP ?body [tok_Value t] p' = Some (Parsed (name, l), q)"
    using assms unfolding parseModulePath_def bind_result by blast
  then have first: "kind_at ?ts (p_pos p) [TokenIdentifier]" "t = ?ts ! p_pos p"
      "p' = p\<lparr>p_pos := p_pos p + 1\<rparr>"
    by (simp_all add: expect_get_result)
  have "(case (name, l) of (name, _) \<Rightarrow>
      \<exists>parts. path_loop ?ts (p_pos p + 1) [tok_Value t] = Inr (parts, p_pos q) \<and>
        name = join_strings ''.'' parts) \<and> p_tokens q = ?ts"
    using loop
  proof (rule loop_result [where I = "\<lambda>parts p'. p_tokens p' = ?ts \<and>
      path_loop ?ts (p_pos p') parts = path_loop ?ts (p_pos p + 1) [tok_Value t]"])
    show "p_tokens p' = ?ts \<and>
        path_loop ?ts (p_pos p') [tok_Value t] = path_loop ?ts (p_pos p + 1) [tok_Value t]"
      using first by simp
  next
    fix parts r t' u
    assume I: "p_tokens r = ?ts \<and>
        path_loop ?ts (p_pos r) parts = path_loop ?ts (p_pos p + 1) [tok_Value t]"
      and run: "?body parts r = Some (Parsed (Inl t'), u)"
    then show "p_tokens u = ?ts \<and>
        path_loop ?ts (p_pos u) t' = path_loop ?ts (p_pos p + 1) [tok_Value t]"
      by (subst (asm) path_loop.simps)
        (auto simp: accept_result bind_result retP_def expect_get_result split: if_splits)
  next
    fix parts r a u
    assume I: "p_tokens r = ?ts \<and>
        path_loop ?ts (p_pos r) parts = path_loop ?ts (p_pos p + 1) [tok_Value t]"
      and run: "?body parts r = Some (Parsed (Inr a), u)"
    then show "(case a of (name, _) \<Rightarrow>
        \<exists>parts. path_loop ?ts (p_pos p + 1) [tok_Value t] = Inr (parts, p_pos u) \<and>
          name = join_strings ''.'' parts) \<and> p_tokens u = ?ts"
      by (subst (asm) path_loop.simps)
        (auto simp: accept_result bind_result retP_def expect_get_result split: if_splits intro!: exI [of _ parts])
  qed
  then show "scanHeaderModulePath ?ts (p_pos p) = Inr (name, p_pos q)" "p_tokens q = ?ts"
    using first by (auto simp: scanHeaderModulePath_def)
qed

lemma import_entry_scan:
  assumes "import_entry p = Some (Parsed (name, nm), q)"
  obtains i where "scanHeaderModulePath (p_tokens p) (p_pos p) = Inr (name, i)"
    "header_alias (p_tokens p) i = (nm, p_pos q)" "p_tokens q = p_tokens p"
    "kind_at (p_tokens p) (p_pos p) [TokenIdentifier]"
proof -
  obtain l p' where path: "parseModulePath p = Some (Parsed (name, l), p')"
    and rest: "acceptP [TokenIdentifier] (\<lambda>tok. retP (name, tok_Value tok)) (retP (name, [])) p'
      = Some (Parsed (name, nm), q)"
    using assms by (auto simp: import_entry_def bind_result accept_result retP_def split: if_splits)
  note path = parseModulePath_scan [OF path]
  have "header_alias (p_tokens p) (p_pos p') = (nm, p_pos q) \<and> p_tokens q = p_tokens p"
    using rest path(2) by (auto simp: accept_result retP_def header_alias_def split: if_splits)
  moreover have "kind_at (p_tokens p) (p_pos p) [TokenIdentifier]"
    using path(1) by (auto simp: scanHeaderModulePath_def split: if_splits)
  ultimately show ?thesis using path that by blast
qed

lemma kind_at_other: "kind_at ts i ks \<Longrightarrow> set ks \<inter> set js = {} \<Longrightarrow> \<not> kind_at ts i js"
  by (auto simp: kind_at_def)

text \<open>
  One round of the grouped form. The scan may stand before the separators that the parser has
  already skipped; skipping all separators brings both to the same token.
\<close>

abbreviation separated :: "TokenKind list" where
  "separated \<equiv> [TokenNewline, TokenComma]"

lemma import_loop_entry:
  assumes i: "i < length ts" "skip_tokens separated ts i = k"
    and entry: "scanHeaderModulePath ts k = Inr (name, i2)" "header_alias ts i2 = (nm, j)"
    and j: "kind_at ts j [TokenComma, TokenNewline, TokenCloseParen]"
    and k: "kind_at ts k [TokenIdentifier]"
  shows "import_loop ts True i ms nms = import_loop ts True j (ms @ [name]) (nms @ [nm])"
proof -
  have "\<not> kind_at ts k [TokenCloseParen]" using k by (rule kind_at_other) simp
  moreover have "skip_until [TokenComma, TokenNewline, TokenCloseParen] ts j = j"
    using j by (subst skip_until.simps) (auto simp: kind_at_def)
  ultimately show ?thesis
    using assms by (subst import_loop.simps) simp
qed

lemma import_loop_close:
  assumes "i < length ts" "skip_tokens separated ts i = k" "kind_at ts k [TokenCloseParen]"
  shows "import_loop ts True i ms nms = Inr (ms, nms, k + 1)"
  using assms by (subst import_loop.simps) simp

definition grouped_round :: "string list \<times> string list
    \<Rightarrow> ((string list \<times> string list) + (string list \<times> string list)) parser" where
  "grouped_round = (\<lambda>(modules, aliases).
      thenP newlines (
      acceptP [TokenCloseParen] (\<lambda>_. breakP (modules, aliases)) (
      bindP import_entry (\<lambda>(name, alias).
      let s = (modules @ [name], aliases @ [alias]) in
      acceptP [TokenComma] (\<lambda>_. thenP newlines (againP s)) (
      acceptP [TokenNewline] (\<lambda>_. againP s) (
      acceptP [TokenCloseParen] (\<lambda>_. breakP s) (
      fail_prev ''expected `,`, newline, or `)`'' [])))))))"

lemma newlines_result:
  "newlines p = Some (Parsed (), q) \<longleftrightarrow>
    q = p\<lparr>p_pos := skip_tokens [TokenNewline] (p_tokens p) (p_pos p)\<rparr>"
  by (auto simp: newlines_def skip_kinds_tokens)

lemma grouped_round_in_range:
  assumes "grouped_round s p = Some (Parsed r, q)"
  shows "p_pos p < length (p_tokens p)"
proof (rule ccontr)
  assume out: "\<not> ?thesis"
  then have "skip_tokens [TokenNewline] (p_tokens p) (p_pos p) = p_pos p"
    by (intro skip_tokens_stop) (simp add: kind_at_def)
  with assms out have "\<exists>e p'. import_entry p = Some (Parsed e, p')"
    by (cases s) (auto simp: grouped_round_def then_result newlines_result accept_result
        bind_result kind_at_def)
  then show False using out by (auto simp: kind_at_def elim: import_entry_scan)
qed

text \<open>What a round does, told by the scan.\<close>

lemma grouped_round_result:
  assumes run: "grouped_round (ms, nms) p = Some (Parsed r, q)"
    and i: "i < length (p_tokens p)"
      "skip_tokens separated (p_tokens p) i = skip_tokens separated (p_tokens p) (p_pos p)"
  shows "p_tokens q = p_tokens p" (is ?same)
    and "case r of
        Inl (ms', nms') \<Rightarrow> \<exists>j < length (p_tokens p).
          import_loop (p_tokens p) True i ms nms = import_loop (p_tokens p) True j ms' nms' \<and>
          skip_tokens separated (p_tokens p) j = skip_tokens separated (p_tokens p) (p_pos q)
      | Inr (ms', nms') \<Rightarrow> import_loop (p_tokens p) True i ms nms = Inr (ms', nms', p_pos q)"
      (is ?result)
proof -
  let ?ts = "p_tokens p"
  define k where "k = skip_tokens [TokenNewline] ?ts (p_pos p)"
  have at_k: "skip_tokens separated ?ts i = skip_tokens separated ?ts k"
    using i skip_tokens_twice [of "[TokenNewline]" separated] by (simp add: k_def)
  have ik: "skip_tokens separated ?ts i = k" if "kind_at ?ts k [t]" "t \<notin> set separated" for t
    using at_k kind_at_other [OF that(1), of separated] that(2) by (auto simp: skip_tokens_stop)
  let ?rest = "\<lambda>(name, alias).
      let s = (ms @ [name], nms @ [alias]) in
      acceptP [TokenComma] (\<lambda>_. thenP newlines (againP s)) (
      acceptP [TokenNewline] (\<lambda>_. againP s) (
      acceptP [TokenCloseParen] (\<lambda>_. breakP s) (
      fail_prev ''expected `,`, newline, or `)`'' [])))"
  have steps: "acceptP [TokenCloseParen] (\<lambda>_. breakP (ms, nms)) (bindP import_entry ?rest)
      (p\<lparr>p_pos := k\<rparr>) = Some (Parsed r, q)"
    using run by (simp add: grouped_round_def then_result newlines_result k_def)
  show ?same ?result
  proof (atomize (full), cases "kind_at ?ts k [TokenCloseParen]")
    case True
    with steps have "r = Inr (ms, nms)" "q = p\<lparr>p_pos := k + 1\<rparr>"
      by (simp_all add: accept_result retP_def)
    then show "?same \<and> ?result"
      using import_loop_close [OF i(1) ik [OF True] True] by simp
  next
    case False
    with steps obtain name nm p' where entry: "import_entry (p\<lparr>p_pos := k\<rparr>) = Some (Parsed (name, nm), p')"
      and rest: "?rest (name, nm) p' = Some (Parsed r, q)"
      by (auto simp: accept_result bind_result)
    obtain i2 where scan: "scanHeaderModulePath ?ts k = Inr (name, i2)"
        "header_alias ?ts i2 = (nm, p_pos p')" "p_tokens p' = ?ts"
        "kind_at ?ts k [TokenIdentifier]"
      using import_entry_scan [OF entry] by auto
    let ?j = "p_pos p'"
    consider "kind_at ?ts ?j [TokenComma]" "r = Inl (ms @ [name], nms @ [nm])"
        "q = p'\<lparr>p_pos := skip_tokens [TokenNewline] ?ts (?j + 1)\<rparr>"
      | "kind_at ?ts ?j [TokenNewline]" "r = Inl (ms @ [name], nms @ [nm])" "q = p'\<lparr>p_pos := ?j + 1\<rparr>"
      | "kind_at ?ts ?j [TokenCloseParen]" "r = Inr (ms @ [name], nms @ [nm])"
        "q = p'\<lparr>p_pos := ?j + 1\<rparr>"
      using rest scan(3)
      by (auto simp: accept_result then_result newlines_result retP_def fail_prev_def Let_def
          split: if_splits)
    then show "?same \<and> ?result"
    proof cases
      case 1
      moreover have "skip_tokens separated ?ts ?j = skip_tokens separated ?ts (p_pos q)"
        using 1 skip_tokens_twice [of "[TokenNewline]" separated] skip_tokens_step [of ?ts ?j separated]
        by (simp add: kind_at_def)
      moreover have "import_loop ?ts True i ms nms = import_loop ?ts True ?j (ms @ [name]) (nms @ [nm])"
        by (rule import_loop_entry [OF i(1) ik [OF scan(4)] scan(1,2) _ scan(4)])
          (use 1 in \<open>auto simp: kind_at_def\<close>)
      ultimately show ?thesis using scan(3) by (auto simp: kind_at_def)
    next
      case 2
      moreover have "skip_tokens separated ?ts ?j = skip_tokens separated ?ts (p_pos q)"
        using 2 skip_tokens_step [of ?ts ?j separated] by (simp add: kind_at_def)
      moreover have "import_loop ?ts True i ms nms = import_loop ?ts True ?j (ms @ [name]) (nms @ [nm])"
        by (rule import_loop_entry [OF i(1) ik [OF scan(4)] scan(1,2) _ scan(4)])
          (use 2 in \<open>auto simp: kind_at_def\<close>)
      ultimately show ?thesis using scan(3) by (auto simp: kind_at_def)
    next
      case 3
      moreover have "import_loop ?ts True i ms nms = import_loop ?ts True ?j (ms @ [name]) (nms @ [nm])"
        by (rule import_loop_entry [OF i(1) ik [OF scan(4)] scan(1,2) _ scan(4)])
          (use 3 in \<open>auto simp: kind_at_def\<close>)
      moreover have "import_loop ?ts True ?j (ms @ [name]) (nms @ [nm])
          = Inr (ms @ [name], nms @ [nm], ?j + 1)"
        by (rule import_loop_close)
          (use 3 kind_at_other [OF 3(1), of separated] in \<open>simp_all add: skip_tokens_stop kind_at_def\<close>)
      ultimately show ?thesis using scan(3) by simp
    qed
  qed
qed

text \<open>The whole declaration.\<close>

lemma ParseImport_scan:
  assumes "ParseImport p = Some (Parsed n, q)"
  shows "\<exists>ms nms l. n = Stmt (ImportNode ms nms l) \<and>
    scanHeaderImport (p_tokens p) (p_pos p + 1) = Inr (ms, nms, p_pos q)"
proof -
  let ?ts = "p_tokens p" and ?p1 = "p\<lparr>p_pos := p_pos p + 1\<rparr>"
  let ?form = "acceptP [TokenOpenParen] (\<lambda>_. loopP grouped_round ([], []))
        (bindP import_entry (\<lambda>(name, nm). retP ([name], [nm])))"
  obtain ms nms p2 l where form: "?form ?p1 = Some (Parsed (ms, nms), p2)"
      "n = Stmt (ImportNode ms nms l)" "p_pos q = p_pos p2"
    using assms
    by (auto simp: ParseImport_def grouped_round_def [symmetric] bind_result readP_def expect_word_def
        Parser_ExpectGet_def Parser_Consume_def Parser_Inc_def fail_prev_def finish_def retP_def
        SpanFrom_def split: prod.splits if_splits option.splits)
  have "scanHeaderImport ?ts (p_pos p + 1) = Inr (ms, nms, p_pos p2)"
  proof (cases "kind_at ?ts (p_pos ?p1) [TokenOpenParen]")
    case True
    let ?p2 = "p\<lparr>p_pos := p_pos p + 2\<rparr>"
    have start: "scanHeaderImport ?ts (p_pos p + 1) = import_loop ?ts True (p_pos p + 2) [] []"
      using True kind_at_other [OF True, of "[TokenNewline]"]
      by (simp add: scanHeaderImport_def skip_tokens_stop)
    have loop: "loopP grouped_round ([], []) ?p2 = Some (Parsed (ms, nms), p2)"
      using form(1) True by (simp add: accept_result)
    show ?thesis
    proof (cases "p_pos p + 2 < length ?ts")
      case True
      let ?I = "\<lambda>(ms, nms) r. p_tokens r = ?ts \<and> (\<exists>i < length ?ts.
          import_loop ?ts True (p_pos p + 2) [] [] = import_loop ?ts True i ms nms \<and>
          skip_tokens separated ?ts i = skip_tokens separated ?ts (p_pos r))"
      have "case (ms, nms) of (ms, nms) \<Rightarrow>
          import_loop ?ts True (p_pos p + 2) [] [] = Inr (ms, nms, p_pos p2)"
        using loop
      proof (rule loop_result [where I = ?I])
        show "?I ([], []) ?p2" using True by auto
      next
        fix s r t u assume "?I s r" "grouped_round s r = Some (Parsed (Inl t), u)"
        then show "?I t u" by (cases s; cases t) (fastforce dest: grouped_round_result)
      next
        fix s r a u assume "?I s r" "grouped_round s r = Some (Parsed (Inr a), u)"
        then show "case a of (ms, nms) \<Rightarrow>
            import_loop ?ts True (p_pos p + 2) [] [] = Inr (ms, nms, p_pos u)"
          by (cases s; cases a) (fastforce dest: grouped_round_result)
      qed
      then show ?thesis using start by simp
    next
      case False
      then have False
        using loop grouped_round_in_range [of "([], [])" ?p2]
        by (subst (asm) loopP.simps) (auto split: option.splits parsed.splits)
      then show ?thesis ..
    qed
  next
    case False
    then obtain name nm where entry: "import_entry ?p1 = Some (Parsed (name, nm), p2)"
        "ms = [name]" "nms = [nm]"
      using form(1) by (auto simp: accept_result bind_result retP_def)
    then show ?thesis
      using False by (elim import_entry_scan)
        (auto simp: scanHeaderImport_def skip_tokens_stop kind_at_def import_loop.simps)
  qed
  then show ?thesis using form by auto
qed

end
