(* ===== verification/Parser_Typed.thy ===== *)
theory Parser_Typed
  imports Parser_Trees Source_Header_Facts
begin

text \<open>
  Every tree that the parser returns is well formed. \<open>yields Q m\<close> says that every result of \<open>m\<close>
  satisfies \<open>Q\<close>; the rules push it through the control structure like weakest preconditions, and
  a method with a loop states the invariant of the loop. The contract of the recursive calls is
  the locale \<open>typed_calls\<close>.
\<close>

named_theorems yields \<open>results of parser methods\<close>

definition yields :: "('a \<Rightarrow> bool) \<Rightarrow> 'a parser \<Rightarrow> bool" where
  "yields Q m \<longleftrightarrow> (\<forall>p a q. m p = Some (Parsed a, q) \<longrightarrow> Q a)"

section \<open>Rules\<close>

lemma yields_imp: "yields P m \<Longrightarrow> (\<And>a. P a \<Longrightarrow> Q a) \<Longrightarrow> yields Q m"
  by (auto simp: yields_def)

lemma yieldsD: "yields Q m \<Longrightarrow> m p = Some (Parsed a, q) \<Longrightarrow> Q a"
  unfolding yields_def by blast

lemma yields_ret [yields]: "Q a \<Longrightarrow> yields Q (retP a)"
  by (simp add: yields_def retP_def)

lemma yields_fail [yields]:
  "yields Q (failP e)" "yields Q (fail_here msg args)" "yields Q (fail_prev msg args)"
  "yields Q (\<lambda>p. Some (Panicked, p))"
  by (simp_all add: yields_def failP_def fail_here_def fail_prev_def)

lemma yields_bind [yields]: "yields (\<lambda>a. yields Q (k a)) m \<Longrightarrow> yields Q (bindP m k)"
  by (force simp: yields_def bind_result)

lemma yields_then [yields]: "yields Q k \<Longrightarrow> yields Q (thenP m k)"
  by (force simp: yields_def then_result)

lemma yields_read [yields]: "(\<And>p. Q (f p)) \<Longrightarrow> yields Q (readP f)"
  by (auto simp: yields_def readP_def)

lemma yields_any [yields]:
  "(\<And>a. Q a) \<Longrightarrow> yields Q (SpanFrom l)" "(\<And>a. Q' a) \<Longrightarrow> yields Q' (expect_get_fmt k msg args)"
  "(\<And>a. Q' a) \<Longrightarrow> yields Q' (expect_word k w msg)" "(\<And>a. Q1 a) \<Longrightarrow> yields Q1 (expect_fmt k msg args)" "(\<And>a. Q a) \<Longrightarrow> yields Q before_last_loc"
  "(\<And>b. Q'' b) \<Longrightarrow> yields Q'' (optionalP k)" "(\<And>b. Q'' b) \<Longrightarrow> yields Q'' (optional_keyword w)"
  "(\<And>a. Q2 a) \<Longrightarrow> yields Q2 (foreign_option t u st)" "(\<And>a. Q2 a) \<Longrightarrow> yields Q2 (export_option t u st)"
  "(\<And>n. Q3 n) \<Longrightarrow> yields Q3 (parseFlagValue known)"
  by (simp_all add: yields_def)

lemma yields_finish [yields]: "(\<And>l. Q (f l)) \<Longrightarrow> yields Q (finish b f)"
  unfolding finish_def by (intro yields)

lemma yields_accept [yields]: "\<lbrakk>\<And>t. yields Q (m1 t); yields Q m2\<rbrakk> \<Longrightarrow> yields Q (acceptP ks m1 m2)"
  by (auto simp: yields_def acceptP_def split: if_splits)

lemma yields_accept_word [yields]: "\<lbrakk>yields Q m1; yields Q m2\<rbrakk> \<Longrightarrow> yields Q (accept_word k w m1 m2)"
  by (auto simp: yields_def accept_word_def split: if_splits)

lemma yields_if [yields]: "\<lbrakk>yields Q m1; yields Q m2\<rbrakk> \<Longrightarrow> yields Q (ifP c m1 m2)"
  by (auto simp: yields_def ifP_def split: if_splits)

text \<open>A test that does not only look at the state tells something.\<close>

lemma yields_if_test: "\<lbrakk>\<And>p. c p \<Longrightarrow> yields Q m1; yields Q m2\<rbrakk> \<Longrightarrow> yields Q (ifP c m1 m2)"
  by (auto simp: yields_def ifP_def split: if_splits)

lemma yields_cond [yields]:
  "\<lbrakk>b \<Longrightarrow> yields Q m1; \<not> b \<Longrightarrow> yields Q m2\<rbrakk> \<Longrightarrow> yields Q (if b then m1 else m2)"
  by simp

lemma yields_prod [yields]:
  "(\<And>a b. x = (a, b) \<Longrightarrow> yields Q (k a b)) \<Longrightarrow> yields Q (case x of (a, b) \<Rightarrow> k a b)"
  by (cases x) simp

lemma yields_option [yields]:
  "\<lbrakk>x = None \<Longrightarrow> yields Q m; \<And>a. x = Some a \<Longrightarrow> yields Q (k a)\<rbrakk>
    \<Longrightarrow> yields Q (case x of None \<Rightarrow> m | Some a \<Rightarrow> k a)"
  by (cases x) simp_all

lemma yields_sum [yields]:
  "\<lbrakk>\<And>a. x = Inl a \<Longrightarrow> yields Q (h a); \<And>a. x = Inr a \<Longrightarrow> yields Q (k a)\<rbrakk>
    \<Longrightarrow> yields Q (case x of Inl a \<Rightarrow> h a | Inr a \<Rightarrow> k a)"
  by (cases x) simp_all

lemma yields_Let [yields]: "(\<And>x. x = a \<Longrightarrow> yields Q (k x)) \<Longrightarrow> yields Q (Let a k)"
  by simp

lemma yields_attempt [yields]:
  "\<lbrakk>\<And>e. Q (Inl e); yields (\<lambda>a. Q (Inr a)) m\<rbrakk> \<Longrightarrow> yields Q (attemptP m)"
  by (auto simp: yields_def attemptP_def split: option.splits parsed.splits)

lemma yields_speculate [yields]:
  "\<lbrakk>Q None; yields (\<lambda>a. Q (Some a)) m\<rbrakk> \<Longrightarrow> yields Q (speculate m keep)"
  by (auto simp: yields_def speculate_def split: option.splits parsed.splits if_splits)

lemma yields_keep_if [yields]:
  "\<lbrakk>Q None; yields (\<lambda>a. Q (Some a)) m\<rbrakk> \<Longrightarrow> yields Q (keep_if m keep)"
  by (auto simp: yields_def keep_if_def Let_def split: option.splits parsed.splits if_splits)

lemma yields_or_else [yields]: "\<lbrakk>yields Q m1; yields Q m2\<rbrakk> \<Longrightarrow> yields Q (or_else m1 m2)"
  by (auto simp: yields_def or_else_def split: option.splits parsed.splits)

lemma yields_unless_from [yields]: "\<lbrakk>yields Q m1; yields Q m2\<rbrakk> \<Longrightarrow> yields Q (unless_from m1 c m2)"
  by (auto simp: yields_def unless_from_def split: option.splits parsed.splits if_splits)

lemma yields_after_newlines [yields]:
  "\<lbrakk>yields Q m1; yields Q m2\<rbrakk> \<Longrightarrow> yields Q (after_newlines c m1 m2)"
  by (auto simp: yields_def after_newlines_def Let_def split: if_splits)

lemma yields_captures [yields]: "yields Q m \<Longrightarrow> yields Q (with_captures m)"
  by (auto simp: yields_def with_captures_def split: option.splits)

lemma yields_subparse: "yields Q m \<Longrightarrow> yields Q (subparse ts m)"
  by (auto simp: yields_def subparse_def split: option.splits)

lemma yields_join_errors [yields]: "Q a \<Longrightarrow> yields Q (join_errors a es)"
  unfolding join_errors_def by (intro yields)

lemma yields_with_semicolon [yields]: "yields (\<lambda>n. Q (n, b)) m \<Longrightarrow> yields Q (with_semicolon b m)"
  unfolding with_semicolon_def by (intro yields) (auto elim: yields_imp intro: yields)

text \<open>The rounds of a loop: either the invariant, or what the result has to satisfy.\<close>

definition round :: "('s \<Rightarrow> bool) \<Rightarrow> ('a \<Rightarrow> bool) \<Rightarrow> 's + 'a \<Rightarrow> bool" where
  "round I Q r = (case r of Inl s \<Rightarrow> I s | Inr a \<Rightarrow> Q a)"

lemma roundI [yields]: "I s \<Longrightarrow> round I Q (Inl s)" "Q a \<Longrightarrow> round I Q (Inr a)"
  by (simp_all add: round_def)

lemma yields_loop:
  assumes "I s" "\<And>s. I s \<Longrightarrow> yields (round I Q) (body s)"
  shows "yields Q (loopP body s)"
  unfolding yields_def
proof (intro allI impI)
  fix p a q assume "loopP body s p = Some (Parsed a, q)"
  then show "Q a"
    by (rule loop_result [where I = "\<lambda>s p. I s"]) (use assms(1) yieldsD [OF assms(2)] in \<open>fastforce simp: round_def\<close>)+
qed

section \<open>Parts\<close>

lemma is_function_type_simps [simp]:
  "is_function_type (Type t) \<longleftrightarrow> (case t of FunctionTypeNode ps r v l \<Rightarrow> True | _ \<Rightarrow> False)"
  "\<not> is_function_type (Expr e)" "\<not> is_function_type (Stmt s)"
  "\<not> is_function_type (WhenNode bs eb ev c l)"
  by (simp_all add: is_function_type_def)

lemma part_ok [simp]: "part_ok (Q, n) \<longleftrightarrow> Q n \<and> tree n"
  by (simp add: part_ok_def)

definition all_parts :: "part list \<Rightarrow> bool" where
  "all_parts ps \<longleftrightarrow> list_all part_ok ps"

lemma all_parts_simps [simp]:
  "all_parts []" "all_parts (x # ps) \<longleftrightarrow> part_ok x \<and> all_parts ps"
  "all_parts (ps @ qs) \<longleftrightarrow> all_parts ps \<and> all_parts qs"
  "all_parts (each Q ns) \<longleftrightarrow> (\<forall>n \<in> set ns. Q n \<and> tree n)"
  "all_parts (optional Q y) \<longleftrightarrow> (\<forall>n. y = Some n \<longrightarrow> Q n \<and> tree n)"
  "all_parts (concat (map f xs)) \<longleftrightarrow> (\<forall>x \<in> set xs. all_parts (f x))"
  by (auto simp: all_parts_def each_def optional_def list_all_iff split: option.splits)

lemma tree_simps [simp]:
  "tree (Type t) \<longleftrightarrow> type_shape t \<and> all_parts (type_parts t)"
  "tree (Expr e) \<longleftrightarrow> expression_shape e \<and> all_parts (expression_parts e)"
  "tree (Stmt s) \<longleftrightarrow> plain_shape s \<and> all_parts (plain_parts s)"
  "tree (WhenNode bs eb ev c l) \<longleftrightarrow>
    shape (WhenNode bs eb ev c l) \<and> all_parts (parts (WhenNode bs eb ev c l))"
  by (simp_all add: tree_iff [of "Type t"] tree_iff [of "Expr e"] tree_iff [of "Stmt s"]
      tree_iff [of "WhenNode bs eb ev c l"] all_parts_def)

lemma link_branches_parts_append [simp]:
  "link_branches_parts (bs @ cs) = link_branches_parts bs @ link_branches_parts cs"
proof (induction bs)
  case (Cons b bs)
  then show ?case by (cases b) simp
qed simp

lemma items_parts_append [simp]: "items_parts (is @ js) = items_parts is @ items_parts js"
  by (induction "is") auto

section \<open>The invariants of loops\<close>

text \<open>The body and the value of a branch in its context.\<close>

definition branch_ok :: "WhenContext \<Rightarrow> node list \<times> node option \<Rightarrow> bool" where
  "branch_ok c = (\<lambda>(b, v). all_parts (each (body_form c) b @ optional (value_form c) v) \<and>
    (if c = WhenDeclarations \<or> c = WhenStatements then v = None else b = [] \<and> v \<noteq> None))"

definition whole_branch_ok :: "WhenContext \<Rightarrow> node WhenBranchNode \<Rightarrow> bool" where
  "whole_branch_ok c b \<longleftrightarrow> when_branch_shape c b \<and> all_parts (when_branch_parts c b)"

text \<open>The variants of an enumeration so far.\<close>

definition enum_ok :: "string list \<times> string list \<times> bool option \<Rightarrow> bool" where
  "enum_ok = (\<lambda>(vs, xs, mode). distinct vs \<and> length xs = length vs \<and>
    (case mode of
       None \<Rightarrow> vs = []
     | Some True \<Rightarrow> list_all enumValueFits32Bits xs
     | Some False \<Rightarrow> xs = map decimal [0..<length vs]))"

definition trait_method_ok :: "node TraitMethodNode \<Rightarrow> bool" where
  "trait_method_ok m \<longleftrightarrow> all_parts (method_parts m) \<and> tm_Receiver m \<noteq> MethodReceiverNone"

definition payload_ok :: "(string \<times> node) list \<Rightarrow> bool" where
  "payload_ok fs \<longleftrightarrow> (\<forall>f \<in> set fs. type_form (snd f) \<and> tree (snd f)) \<and>
    distinct (filter (\<lambda>n. n \<noteq> []) (map fst fs))"

definition variant_ok :: "node TaggedUnionVariantNode \<Rightarrow> bool" where
  "variant_ok v \<longleftrightarrow> payload_ok (variant_Fields v)"

text \<open>The fields and variants of a union so far.\<close>

definition union_ok :: "bool \<Rightarrow> (string \<times> node) list \<times> node TaggedUnionVariantNode list \<Rightarrow> bool" where
  "union_ok tagged = (\<lambda>(fs, vs). distinct (map fst fs @ map variant_Name vs) \<and>
    (\<forall>f \<in> set fs. type_form (snd f) \<and> tree (snd f)) \<and> (\<forall>v \<in> set vs. variant_ok v) \<and>
    (if tagged then fs = [] else vs = []))"

definition operand_ok :: "node \<Rightarrow> bool" where
  "operand_ok n \<longleftrightarrow> (type_form n \<or> expression_form n) \<and> tree n"

definition asm_ok :: "asm_entries \<Rightarrow> bool" where
  "asm_ok = (\<lambda>(os, is, cs, v, i, c). all_parts (map output_part os @ map input_part is))"

definition pattern_ok :: "node MatchPatternNode \<Rightarrow> bool" where
  "pattern_ok p \<longleftrightarrow> pattern_shape p \<and> all_parts (pattern_parts p)"

definition arm_ok :: "nat \<Rightarrow> node MatchArmNode \<Rightarrow> bool" where
  "arm_ok n a \<longleftrightarrow> arm_shape n a \<and> all_parts (arm_parts a)"

text \<open>The type parameters of a function so far.\<close>

definition generics_ok :: "node GenericParameterNode list \<Rightarrow> bool" where
  "generics_ok gs \<longleftrightarrow> distinct (map gen_Name gs) \<and> (\<forall>g \<in> set gs. all_parts (generic_parts g))"

text \<open>The parameters so far, after the ones there are at the start.\<close>

definition parameters_ok ::
  "node FunctionNodeArg list \<Rightarrow> node FunctionNodeArg list \<times> node GenericParameterNode list \<Rightarrow> bool" where
  "parameters_ok as0 = (\<lambda>(as, gs). generics_ok gs \<and> (\<forall>a \<in> set as. all_parts (argument_parts a)) \<and>
    (\<exists>bs. as = as0 @ bs))"

section \<open>The contract of the recursive calls\<close>

fun call_form :: "call \<Rightarrow> node \<Rightarrow> bool" where
  "call_form CallExpression = expression_form"
| "call_form CallUnary = expression_form"
| "call_form CallType = type_form"
| "call_form (CallBlock x) = block_form x"
| "call_form CallStatement = statement_form"
| "call_form CallTopLevel = declaration_form"
| "call_form (CallLinkItems k) = (\<lambda>_. False)"

fun reply_ok :: "call \<Rightarrow> reply \<Rightarrow> bool" where
  "reply_ok c (Node n b) \<longleftrightarrow> call_form c n \<and> tree n"
| "reply_ok c (LinkItems items b) \<longleftrightarrow> all_parts (items_parts items)"

locale typed_calls =
  fixes R :: calls
  assumes calls_typed: "yields (reply_ok c) (R c)"
begin

lemma reply_okD: "R c p = Some (Parsed r, q) \<Longrightarrow> reply_ok c r"
  using calls_typed by (rule yieldsD)

lemma yields_callP: "yields (\<lambda>n. call_form c n \<and> tree n) (callP R c)"
  unfolding yields_def callP_def bind_result
  by (auto simp: retP_def split: reply.split_asm dest!: reply_okD)

lemmas yields_calls [yields] =
  yields_callP [of CallExpression, unfolded call_form.simps, THEN yields_imp]
  yields_callP [of CallUnary, unfolded call_form.simps, THEN yields_imp]
  yields_callP [of CallType, unfolded call_form.simps, THEN yields_imp]
  yields_callP [of "CallBlock x" for x, unfolded call_form.simps, THEN yields_imp]
  yields_callP [of CallTopLevel, unfolded call_form.simps, THEN yields_imp]

lemma result_call_statement: "yields (\<lambda>(n, b). statement_form n \<and> tree n) (call_statement R)"
  unfolding yields_def call_statement_def bind_result
  by (auto simp: retP_def split: reply.split_asm dest!: reply_okD)

lemmas yields_call_statement [yields] = result_call_statement [THEN yields_imp]

lemma result_call_link_items:
  "yields (\<lambda>(items, b). all_parts (items_parts items)) (call_link_items R k)"
  unfolding yields_def call_link_items_def bind_result
  by (auto simp: retP_def split: reply.split_asm dest!: reply_okD)

lemmas yields_call_link_items [yields] = result_call_link_items [THEN yields_imp]

section \<open>Conditionals and directives\<close>

lemma result_ParseWholeExpression: "yields (\<lambda>n. expression_form n \<and> tree n) (ParseWholeExpression R)"
  unfolding ParseWholeExpression_def by (intro yields) auto

lemmas yields_ParseWholeExpression [yields] = result_ParseWholeExpression [THEN yields_imp]

lemma result_parseWhenCondition: "yields (\<lambda>n. expression_form n \<and> tree n) (parseWhenCondition R)"
  unfolding yields_def parseWhenCondition_def
  by (auto simp: fail_here_def Let_def split: prod.splits bool.splits if_splits
      dest: yieldsD [OF yields_subparse [OF result_ParseWholeExpression]])

lemmas yields_parseWhenCondition [yields] = result_parseWhenCondition [THEN yields_imp]

lemma result_parseCompilerDirective:
  "yields (\<lambda>n. directive_form n \<and> tree n) (parseCompilerDirective R)"
  unfolding parseCompilerDirective_def by (intro yields) auto

lemmas yields_parseCompilerDirective [yields] = result_parseCompilerDirective [THEN yields_imp]

lemma result_parseLinkWhen: "yields (\<lambda>i. all_parts (item_parts i)) (parseLinkWhen R)"
  unfolding parseLinkWhen_def
  by (intro yields yields_loop [where I = "\<lambda>bs. all_parts (link_branches_parts bs)"]) auto

lemmas yields_parseLinkWhen [yields] = result_parseLinkWhen [THEN yields_imp]

lemma result_parseLinkItems: "yields (\<lambda>(items, b). all_parts (items_parts items)) (parseLinkItems R k)"
  unfolding parseLinkItems_def
  by (intro yields yields_loop [where I = "\<lambda>(items, b). all_parts (items_parts items)"]) auto

lemmas yields_parseLinkItems [yields] = result_parseLinkItems [THEN yields_imp]

lemma result_parseWhenDeclarationBody:
  "yields (\<lambda>ns. \<forall>n \<in> set ns. declaration_form n \<and> tree n) (parseWhenDeclarationBody R)"
  unfolding parseWhenDeclarationBody_def
  by (intro yields yields_loop [where I = "\<lambda>(ns, es). \<forall>n \<in> set ns. declaration_form n \<and> tree n"])
    auto

lemmas yields_parseWhenDeclarationBody [yields] = result_parseWhenDeclarationBody [THEN yields_imp]

lemma block_body_parts:
  assumes "block_form x n" "tree n"
  shows "\<forall>m \<in> set (block_body n). statement_form m \<and> tree m"
proof -
  obtain ns l where "n = Expr (BlockNode ns x l)"
    using assms(1) by (auto elim: block_form.elims(2))
  then show ?thesis using assms(2) by simp
qed

lemma result_parseWhenBody: "yields (branch_ok c) (parseWhenBody R c)"
proof (cases c)
  case WhenStatements
  then show ?thesis
    unfolding parseWhenBody_def
    by (simp, intro yields) (auto simp: branch_ok_def body_form_def dest: block_body_parts)
qed (auto simp: parseWhenBody_def branch_ok_def body_form_def value_form_def selected_form_def
    intro!: yields)

lemmas yields_parseWhenBody [yields] = result_parseWhenBody [THEN yields_imp]

lemma result_parseWhen: "yields (\<lambda>n. (\<exists>bs eb ev l. n = WhenNode bs eb ev c l) \<and> tree n) (parseWhen R c)"
  unfolding parseWhen_def
  by (intro yields yields_loop [where I = "\<lambda>bs. \<forall>b \<in> set bs. whole_branch_ok c b"])
    (auto simp: whole_branch_ok_def branch_ok_def list_all_iff split: if_splits)

lemmas yields_parseWhen [yields] = result_parseWhen [THEN yields_imp]

section \<open>Identifiers and attributes\<close>

lemma result_ParseIdent:
  "yields (\<lambda>n. is_identifier n \<and> tree n) ParseIdent"
  unfolding ParseIdent_def
  by (intro yields) (auto simp: is_identifier_def)

lemmas yields_ParseIdent [yields] = result_ParseIdent [THEN yields_imp]

lemma link_items: "those (map link_of items) = Some ls \<Longrightarrow> all_parts (items_parts items)"
  by (induction items arbitrary: ls) (auto simp: link_of_def split: LinkItemNode.splits option.splits)

lemma result_parseLinkAttribute:
  "yields (\<lambda>a. all_parts (attribute_parts a)) (parseLinkAttribute R)"
  unfolding parseLinkAttribute_def
  by (intro yields) auto

lemmas yields_parseLinkAttribute [yields] = result_parseLinkAttribute [THEN yields_imp]

lemma result_no_arguments:
  "yields (\<lambda>a. all_parts (attribute_parts a)) (no_arguments msg a)"
  unfolding no_arguments_def
  by (intro yields) auto

lemmas yields_no_arguments [yields] = result_no_arguments [THEN yields_imp]

lemma result_parseInlineAttribute:
  "yields (\<lambda>a. all_parts (attribute_parts a)) parseInlineAttribute"
  unfolding parseInlineAttribute_def
  by (intro yields) auto

lemmas yields_parseInlineAttribute [yields] = result_parseInlineAttribute [THEN yields_imp]

lemma result_parseNoInlineAttribute:
  "yields (\<lambda>a. all_parts (attribute_parts a)) parseNoInlineAttribute"
  unfolding parseNoInlineAttribute_def
  by (intro yields) auto

lemmas yields_parseNoInlineAttribute [yields] = result_parseNoInlineAttribute [THEN yields_imp]

lemma result_parseNoReturnAttribute:
  "yields (\<lambda>a. all_parts (attribute_parts a)) parseNoReturnAttribute"
  unfolding parseNoReturnAttribute_def
  by (intro yields) auto

lemmas yields_parseNoReturnAttribute [yields] = result_parseNoReturnAttribute [THEN yields_imp]

lemma result_parsePackedAttribute:
  "yields (\<lambda>a. all_parts (attribute_parts a)) parsePackedAttribute"
  unfolding parsePackedAttribute_def
  by (intro yields) auto

lemmas yields_parsePackedAttribute [yields] = result_parsePackedAttribute [THEN yields_imp]

lemma result_parseForeignAttribute:
  "yields (\<lambda>a. all_parts (attribute_parts a)) (parseForeignAttribute name)"
  unfolding parseForeignAttribute_def
  by (intro yields yields_loop [where I = "\<lambda>_. True"]) (auto split: prod.splits)

lemmas yields_parseForeignAttribute [yields] = result_parseForeignAttribute [THEN yields_imp]

lemma result_parseExportAttribute:
  "yields (\<lambda>a. all_parts (attribute_parts a)) (parseExportAttribute name)"
  unfolding parseExportAttribute_def
  by (intro yields yields_loop [where I = "\<lambda>_. True"]) (auto split: prod.splits)

lemmas yields_parseExportAttribute [yields] = result_parseExportAttribute [THEN yields_imp]

lemma result_parseAttribute: "yields (\<lambda>a. all_parts (attribute_parts a)) (parseAttribute R name)"
  unfolding parseAttribute_def by (intro yields) (auto split: AttributeType.splits intro!: yields)

lemmas yields_parseAttribute [yields] = result_parseAttribute [THEN yields_imp]

lemma result_parseAttributes:
  "yields (\<lambda>as. \<forall>a \<in> set as. all_parts (attribute_parts a)) (parseAttributes R name)"
  unfolding parseAttributes_def
  by (intro yields yields_loop [where I = "\<lambda>as. \<forall>a \<in> set as. all_parts (attribute_parts a)"]) auto

lemmas yields_parseAttributes [yields] = result_parseAttributes [THEN yields_imp]

section \<open>Types\<close>

lemma result_parseCallTypeArguments:
  "yields (\<lambda>ns. \<forall>n \<in> set ns. type_form n \<and> tree n) (parseCallTypeArguments R)"
  unfolding parseCallTypeArguments_def
  by (intro yields yields_loop [where I = "\<lambda>ns. \<forall>n \<in> set ns. type_form n \<and> tree n"]) auto

lemmas yields_parseCallTypeArguments [yields] = result_parseCallTypeArguments [THEN yields_imp]

lemma result_named_arguments:
  "yields (\<lambda>(ns, l). \<forall>n \<in> set ns. type_form n \<and> tree n) (named_arguments R b)"
  unfolding named_arguments_def
  by (intro yields) auto

lemmas yields_named_arguments [yields] = result_named_arguments [THEN yields_imp]

lemma result_named_rest:
  "yields (\<lambda>n. named_form n \<and> tree n) (named_rest R b c)"
  unfolding named_rest_def
  by (intro yields yields_loop [where I = "\<lambda>_. True"]) auto

lemmas yields_named_rest [yields] = result_named_rest [THEN yields_imp]

lemma result_ParseNamedType:
  "yields (\<lambda>n. named_form n \<and> tree n) (ParseNamedType R)"
  unfolding ParseNamedType_def
  by (intro yields) auto

lemmas yields_ParseNamedType [yields] = result_ParseNamedType [THEN yields_imp]

lemma result_ParseDynType:
  "yields (\<lambda>n. type_form n \<and> tree n) (ParseDynType R b m)"
  unfolding ParseDynType_def
  by (intro yields) (auto dest: named_type)

lemmas yields_ParseDynType [yields] = result_ParseDynType [THEN yields_imp]

lemma result_ParseArrayOrSliceType:
  "yields (\<lambda>n. type_form n \<and> tree n) (ParseArrayOrSliceType R)"
  unfolding ParseArrayOrSliceType_def
  by (intro yields) auto

lemmas yields_ParseArrayOrSliceType [yields] = result_ParseArrayOrSliceType [THEN yields_imp]

lemma result_ParseFunctionType:
  "yields (\<lambda>n. pointee_form n \<and> tree n) (ParseFunctionType R)"
  unfolding ParseFunctionType_def
  by (intro yields yields_loop [where I = "\<lambda>ns. \<forall>n \<in> set ns. type_form n \<and> tree n"]) (auto simp: is_slice_type_def)

lemmas yields_ParseFunctionType [yields] = result_ParseFunctionType [THEN yields_imp]

lemma result_ParsePointerType:
  "yields (\<lambda>n. type_form n \<and> tree n) (ParsePointerType R)"
  unfolding ParsePointerType_def
  by (intro yields) (auto dest: type_pointee)

lemmas yields_ParsePointerType [yields] = result_ParsePointerType [THEN yields_imp]

lemma result_enum_variant: "enum_ok st \<Longrightarrow> yields enum_ok (enum_variant st)"
  unfolding enum_variant_def
  by (intro yields) (auto simp: enum_ok_def split: option.splits bool.splits)

lemmas yields_enum_variant [yields] = result_enum_variant [THEN yields_imp]

lemma result_ParseEnumType:
  "yields (\<lambda>n. type_form n \<and> tree n) ParseEnumType"
  unfolding ParseEnumType_def
  by (intro yields yields_loop [where I = "enum_ok"]) (auto simp: enum_ok_def split: option.splits bool.splits)

lemmas yields_ParseEnumType [yields] = result_ParseEnumType [THEN yields_imp]

lemma result_flag_member:
  "distinct (map fst known) \<Longrightarrow> yields (\<lambda>(known, mode). distinct (map fst known)) (flag_member (known, mode))"
  unfolding flag_member_def
  by (intro yields) auto

lemmas yields_flag_member [yields] = result_flag_member [THEN yields_imp]

lemma result_ParseFlagsType:
  "yields (\<lambda>n. type_form n \<and> tree n) (ParseFlagsType R)"
  unfolding ParseFlagsType_def
  by (intro yields yields_loop [where I = "\<lambda>(known, mode). distinct (map fst known)"]) auto

lemmas yields_ParseFlagsType [yields] = result_ParseFlagsType [THEN yields_imp]

lemma result_type_parameter_rest:
  "yields (\<lambda>g. all_parts (generic_parts g)) (type_parameter_rest R b t)"
  unfolding type_parameter_rest_def
  by (intro yields) (auto simp: generic_parts_def)

lemmas yields_type_parameter_rest [yields] = result_type_parameter_rest [THEN yields_imp]

lemma result_parseTypeParameter:
  "yields (\<lambda>x. \<forall>g. x = Some g \<longrightarrow> all_parts (generic_parts g)) (parseTypeParameter R)"
  using yieldsD [OF result_type_parameter_rest]
  by (auto simp: yields_def parseTypeParameter_def then_commit_def bind_result retP_def failP_def
      Let_def split: if_splits prod.splits option.splits)

lemmas yields_parseTypeParameter [yields] = result_parseTypeParameter [THEN yields_imp]

lemma result_parseFunctionReturnType:
  "yields (\<lambda>n. type_form n \<and> tree n) (parseFunctionReturnType R)"
  unfolding parseFunctionReturnType_def
  by (intro yields yields_loop [where I = "\<lambda>ns. \<forall>n \<in> set ns. type_form n \<and> tree n"]) (auto simp: Suc_le_eq)

lemmas yields_parseFunctionReturnType [yields] = result_parseFunctionReturnType [THEN yields_imp]

lemma result_expression_body:
  "yields (\<lambda>n. expression_form n \<and> tree n) (expression_body R)"
  unfolding expression_body_def
  by (intro yields) (auto dest: block_expression)

lemmas yields_expression_body [yields] = result_expression_body [THEN yields_imp]

lemma result_trait_receiver:
  "yields (\<lambda>r. r \<noteq> MethodReceiverNone) trait_receiver"
  unfolding trait_receiver_def
  by (intro yields) auto

lemmas yields_trait_receiver [yields] = result_trait_receiver [THEN yields_imp]

lemma result_trait_parameters:
  "yields (\<lambda>(gs, as). (\<forall>g \<in> set gs. all_parts (generic_parts g)) \<and> (\<forall>a \<in> set as. all_parts (argument_parts a))) (trait_parameters R)"
  unfolding trait_parameters_def
  by (intro yields yields_loop [where I = "\<lambda>(gs, as). (\<forall>g \<in> set gs. all_parts (generic_parts g)) \<and> (\<forall>a \<in> set as. all_parts (argument_parts a))"]) (auto simp: argument_parts_def)

lemmas yields_trait_parameters [yields] = result_trait_parameters [THEN yields_imp]

lemma result_trait_method:
  "yields (\<lambda>m. trait_method_ok m \<and> tm_Name m \<notin> set seen) (trait_method R seen)"
  unfolding trait_method_def
  by (intro yields) (auto simp: trait_method_ok_def dest: block_expression)

lemmas yields_trait_method [yields] = result_trait_method [THEN yields_imp]

lemma result_ParseTraitType:
  "yields (\<lambda>n. type_form n \<and> tree n) (ParseTraitType R)"
  unfolding ParseTraitType_def
  by (intro yields yields_loop [where I = "\<lambda>ms. (\<forall>m \<in> set ms. trait_method_ok m) \<and> distinct (map tm_Name ms)"]) (auto simp: trait_method_ok_def list_all_iff)

lemmas yields_ParseTraitType [yields] = result_ParseTraitType [THEN yields_imp]

section \<open>Unions and structs\<close>

lemma result_union_tag:
  "yields (\<lambda>(t, a). (\<forall>n. t = Some n \<longrightarrow> type_form n \<and> tree n) \<and> (a \<longrightarrow> t = None)) (union_tag R)"
  unfolding union_tag_def
  by (intro yields) auto

lemmas yields_union_tag [yields] = result_union_tag [THEN yields_imp]

lemma result_payload_name:
  "yields (\<lambda>n. n \<noteq> [] \<longrightarrow> n \<notin> fst ` set fs) (payload_name fs)"
  unfolding payload_name_def
  by (intro yields) force+

lemmas yields_payload_name [yields] = result_payload_name [THEN yields_imp]

lemma result_union_payload:
  "yields (payload_ok) (union_payload R)"
  unfolding union_payload_def
  by (intro yields yields_loop [where I = "payload_ok"]) (auto simp: payload_ok_def)

lemmas yields_union_payload [yields] = result_union_payload [THEN yields_imp]

lemma result_union_variant:
  "yields (\<lambda>v. variant_ok v \<and> variant_Name v = ident_Name n) (union_variant R n)"
  unfolding union_variant_def
  by (intro yields) (auto simp: variant_ok_def payload_ok_def)

lemmas yields_union_variant [yields] = result_union_variant [THEN yields_imp]

lemma result_ParseUnionType: "yields (\<lambda>n. type_form n \<and> tree n) (ParseUnionType R)"
  unfolding ParseUnionType_def
  apply (intro yields)
  subgoal for p tag tagType autoTag
    by (rule yields_loop [where I = "union_ok (tagType \<noteq> None \<or> autoTag)"]; (intro yields)?)
      (auto simp: union_ok_def union_shape_def variant_ok_def payload_ok_def list_all_iff)
  done

lemmas yields_ParseUnionType [yields] = result_ParseUnionType [THEN yields_imp]

lemma result_struct_field:
  "yields (\<lambda>f. type_form (snd f) \<and> tree (snd f)) (struct_field R)"
  unfolding struct_field_def
  by (intro yields) auto

lemmas yields_struct_field [yields] = result_struct_field [THEN yields_imp]

lemma result_ParseStructType:
  "yields (\<lambda>n. type_form n \<and> tree n) (ParseStructType R)"
  unfolding ParseStructType_def
  by (intro yields yields_loop [where I = "\<lambda>fs. \<forall>f \<in> set fs. type_form (snd f) \<and> tree (snd f)"]) auto

lemmas yields_ParseStructType [yields] = result_ParseStructType [THEN yields_imp]

lemma result_ParseType:
  "yields (\<lambda>n. type_form n \<and> tree n) (ParseType R)"
  unfolding ParseType_def
  by (intro yields) (auto dest: named_type)

lemmas yields_ParseType [yields] = result_ParseType [THEN yields_imp]

section \<open>Expressions\<close>

lemma result_type_or_expression:
  "yields (operand_ok) (type_or_expression R m)"
  unfolding type_or_expression_def
  by (intro yields) (auto simp: operand_ok_def)

lemmas yields_type_or_expression [yields] = result_type_or_expression [THEN yields_imp]

lemma operand_forms_parts:
  assumes "operand_forms n = (t, e)" "operand_ok n"
  shows "(\<forall>m. t = Some m \<longrightarrow> operand_form m \<and> tree m) \<and>
    (\<forall>m. e = Some m \<longrightarrow> expression_form m \<and> tree m) \<and>
    (t = None \<longrightarrow> e = Some n \<and> expression_form n \<and> tree n)"
  using assms by (auto simp: operand_forms_def operand_ok_def split: node.splits type_node.splits if_splits)

lemma result_ParseSizeOfExpression: "yields (\<lambda>n. expression_form n \<and> tree n) (ParseSizeOfExpression R)"
  unfolding ParseSizeOfExpression_def
  by (intro yields) (auto dest!: operand_forms_parts split: prod.splits option.splits)

lemmas yields_ParseSizeOfExpression [yields] = result_ParseSizeOfExpression [THEN yields_imp]

lemma result_ParseAlignOfExpression: "yields (\<lambda>n. expression_form n \<and> tree n) (ParseAlignOfExpression R)"
  unfolding ParseAlignOfExpression_def
  by (intro yields) (auto dest!: operand_forms_parts split: prod.splits)

lemmas yields_ParseAlignOfExpression [yields] = result_ParseAlignOfExpression [THEN yields_imp]

lemma result_ParseOffsetOfExpression:
  "yields (\<lambda>n. expression_form n \<and> tree n) (ParseOffsetOfExpression R)"
  unfolding ParseOffsetOfExpression_def
  by (intro yields) auto

lemmas yields_ParseOffsetOfExpression [yields] = result_ParseOffsetOfExpression [THEN yields_imp]

lemma result_ParseEmbedExpression:
  "yields (\<lambda>n. expression_form n \<and> tree n) ParseEmbedExpression"
  unfolding ParseEmbedExpression_def
  by (intro yields) auto

lemmas yields_ParseEmbedExpression [yields] = result_ParseEmbedExpression [THEN yields_imp]

lemma result_asm_entry:
  "asm_ok st \<Longrightarrow> yields (asm_ok) (asm_entry R st)"
  unfolding asm_entry_def
  by (intro yields) (auto simp: asm_ok_def)

lemmas yields_asm_entry [yields] = result_asm_entry [THEN yields_imp]

lemma result_ParseInlineAsmExpression:
  "yields (\<lambda>n. expression_form n \<and> tree n) (ParseInlineAsmExpression R)"
  unfolding ParseInlineAsmExpression_def
  by (intro yields yields_loop [where I = "asm_ok"]) (auto simp: asm_ok_def)

lemmas yields_ParseInlineAsmExpression [yields] = result_ParseInlineAsmExpression [THEN yields_imp]

lemma result_ParseCall:
  "yields (\<lambda>(ns, v, l). (\<forall>n \<in> set ns. expression_form n \<and> tree n) \<and> (v \<longrightarrow> ns \<noteq> [])) (ParseCall R c)"
  unfolding ParseCall_def
  by (intro yields yields_loop [where I = "\<lambda>ns. \<forall>n \<in> set ns. expression_form n \<and> tree n"]) auto

lemmas yields_ParseCall [yields] = result_ParseCall [THEN yields_imp]

lemma call_node_tree:
  assumes "expression_form c" "tree c" "\<forall>n \<in> set ns. expression_form n \<and> tree n" "v \<longrightarrow> ns \<noteq> []"
  shows "tree (call_node c (if is_identifier c then Some c else None) (ns, v, l))"
  using assms by (auto simp: call_node_def)

lemma result_flag_names:
  "yields (\<lambda>_. True) flag_names"
  unfolding flag_names_def
  by (intro yields yields_loop [where I = "\<lambda>_. True"]) auto

lemmas yields_flag_names [yields] = result_flag_names [THEN yields_imp]

lemma result_literal_fields:
  "yields (\<lambda>(fs, r). \<forall>f \<in> set fs. expression_form (snd f) \<and> tree (snd f)) (literal_fields R)"
  unfolding literal_fields_def
  by (intro yields yields_loop [where I = "\<lambda>fs. \<forall>f \<in> set fs. expression_form (snd f) \<and> tree (snd f)"]) auto

lemmas yields_literal_fields [yields] = result_literal_fields [THEN yields_imp]

lemma result_ParseStructLiteral:
  "\<forall>m. n = Some m \<longrightarrow> is_identifier m \<and> tree m \<Longrightarrow> yields (\<lambda>n. expression_form n \<and> tree n) (ParseStructLiteral R n)"
  unfolding ParseStructLiteral_def
  by (intro yields) auto

lemmas yields_ParseStructLiteral [yields] = result_ParseStructLiteral [THEN yields_imp]

lemma result_ParseSliceLiteral:
  "yields (\<lambda>n. expression_form n \<and> tree n) (ParseSliceLiteral R)"
  unfolding ParseSliceLiteral_def
  by (intro yields yields_loop [where I = "\<lambda>ns. \<forall>n \<in> set ns. expression_form n \<and> tree n"]) auto

lemmas yields_ParseSliceLiteral [yields] = result_ParseSliceLiteral [THEN yields_imp]

lemma yields_no_lambda_default [yields]: "yields Q m \<Longrightarrow> yields Q (no_lambda_default m)"
  unfolding no_lambda_default_def by (intro yields)

lemma result_lambda_group:
  "yields (\<lambda>as. as \<noteq> [] \<and> (\<forall>a \<in> set as. all_parts (argument_parts a) \<and> arg_Default a = None)) lambda_group"
  unfolding lambda_group_def
  by (intro yields yields_loop [where I = "\<lambda>as. as \<noteq> [] \<and> (\<forall>a \<in> set as. all_parts (argument_parts a) \<and> arg_Default a = None)"]) (auto simp: argument_parts_def)

lemmas yields_lambda_group [yields] = result_lambda_group [THEN yields_imp]

lemma result_lambda_type:
  "grp \<noteq> [] \<and> (\<forall>a \<in> set grp. all_parts (argument_parts a) \<and> arg_Default a = None) \<Longrightarrow> yields (\<lambda>(as, v). as \<noteq> [] \<and> (\<forall>a \<in> set as. all_parts (argument_parts a) \<and> arg_Default a = None) \<and> variadic_shape as v) (lambda_type R grp)"
  unfolding lambda_type_def
  by (intro yields) (auto simp: argument_parts_def set_arg_type_def variadic_shape_def is_slice_type_def last_map)

lemmas yields_lambda_type [yields] = result_lambda_type [THEN yields_imp]

lemma result_lambda_parameters:
  "yields (\<lambda>(as, v). (\<forall>a \<in> set as. all_parts (argument_parts a) \<and> arg_Default a = None) \<and> variadic_shape as v) (lambda_parameters R)"
  unfolding lambda_parameters_def
  by (intro yields yields_loop [where I = "\<lambda>as. (\<forall>a \<in> set as. all_parts (argument_parts a) \<and> arg_Default a = None)"]) (auto simp: variadic_shape_def)

lemmas yields_lambda_parameters [yields] = result_lambda_parameters [THEN yields_imp]

lemma result_ParseLambdaExpression:
  "yields (\<lambda>n. expression_form n \<and> tree n) (ParseLambdaExpression R)"
  unfolding ParseLambdaExpression_def
  by (intro yields) (auto simp: variadic_shape_def list_all_iff)

lemmas yields_ParseLambdaExpression [yields] = result_ParseLambdaExpression [THEN yields_imp]

section \<open>Conditions and matches\<close>

lemma result_parseIf:
  "yields (\<lambda>n. expression_form n \<and> tree n) (parseIf R x)"
  unfolding parseIf_def
  by (intro yields yields_loop [where I = "\<lambda>bs. \<forall>b \<in> set bs. all_parts (branch_parts x b)"]) (auto simp: branch_parts_def)

lemmas yields_parseIf [yields] = result_parseIf [THEN yields_imp]

lemma result_parseMatchPatternLiteral:
  "yields (\<lambda>n. expression_form n \<and> tree n) parseMatchPatternLiteral"
  unfolding parseMatchPatternLiteral_def
  by (intro yields) auto

lemmas yields_parseMatchPatternLiteral [yields] = result_parseMatchPatternLiteral [THEN yields_imp]

lemma result_pattern_bindings:
  "yields (\<lambda>_. True) pattern_bindings"
  unfolding pattern_bindings_def
  by (intro yields yields_loop [where I = "\<lambda>_. True"]) auto

lemmas yields_pattern_bindings [yields] = result_pattern_bindings [THEN yields_imp]

lemma result_parseMatchPatternAtom:
  "yields (\<lambda>p. pattern_ok p \<and> pat_Kind p \<noteq> MatchPatternAlternative) parseMatchPatternAtom"
  unfolding parseMatchPatternAtom_def
  by (intro yields) (auto simp: pattern_ok_def empty_pattern_def)

lemmas yields_parseMatchPatternAtom [yields] = result_parseMatchPatternAtom [THEN yields_imp]

lemma pattern_ok_simp [simp]:
  "pattern_ok (MatchPatternNode k lit first stop v bs p alts l) \<longleftrightarrow>
    pattern_shape (MatchPatternNode k lit first stop v bs p alts l) \<and>
    all_parts (pattern_parts (MatchPatternNode k lit first stop v bs p alts l))"
  by (simp add: pattern_ok_def)

lemma pattern_literal:
  "pattern_ok p \<Longrightarrow> pat_Kind p = MatchPatternLiteral
    \<Longrightarrow> \<exists>n. pat_Literal p = Some n \<and> expression_form n \<and> tree n"
  by (cases p) (auto simp: pattern_ok_def)

lemma result_parseMatchPatternTerm:
  "yields (\<lambda>p. pattern_ok p \<and> pat_Kind p \<noteq> MatchPatternAlternative) parseMatchPatternTerm"
  unfolding parseMatchPatternTerm_def
  by (intro yields) (auto dest: pattern_literal)

lemmas yields_parseMatchPatternTerm [yields] = result_parseMatchPatternTerm [THEN yields_imp]

lemma result_parseMatchPattern:
  "yields (pattern_ok) parseMatchPattern"
  unfolding parseMatchPattern_def
  by (intro yields yields_loop [where I = "\<lambda>ps. ps \<noteq> [] \<and> (\<forall>p \<in> set ps. pattern_ok p \<and> pat_Kind p \<noteq> MatchPatternAlternative)"]) (auto simp: pattern_ok_def list_all_iff Suc_le_eq neq_Nil_conv)

lemmas yields_parseMatchPattern [yields] = result_parseMatchPattern [THEN yields_imp]

lemma result_match_patterns:
  "yields (\<lambda>ps. \<forall>p \<in> set ps. pattern_ok p) match_patterns"
  unfolding match_patterns_def
  by (intro yields yields_loop [where I = "\<lambda>ps. \<forall>p \<in> set ps. pattern_ok p"]) auto

lemmas yields_match_patterns [yields] = result_match_patterns [THEN yields_imp]

lemma result_match_subjects:
  "yields (\<lambda>ns. ns \<noteq> [] \<and> (\<forall>n \<in> set ns. expression_form n \<and> tree n)) (match_subjects R)"
  unfolding match_subjects_def
  by (intro yields yields_loop [where I = "\<lambda>ns. \<forall>n \<in> set ns. expression_form n \<and> tree n"]) auto

lemmas yields_match_subjects [yields] = result_match_subjects [THEN yields_imp]

lemma result_match_arm:
  "yields (\<lambda>(a, b). arm_ok n a) (match_arm R x n)"
  unfolding match_arm_def
  by (intro yields) (auto simp: arm_ok_def pattern_ok_def list_all_iff dest: block_expression)

lemmas yields_match_arm [yields] = result_match_arm [THEN yields_imp]

lemma result_match_arms:
  "yields (\<lambda>as. \<forall>a \<in> set as. arm_ok n a) (match_arms R x n)"
  unfolding match_arms_def
  by (intro yields yields_loop [where I = "\<lambda>as. \<forall>a \<in> set as. arm_ok n a"]) auto

lemmas yields_match_arms [yields] = result_match_arms [THEN yields_imp]

lemma result_ParseMatch:
  "yields (\<lambda>n. expression_form n \<and> tree n) (ParseMatch R x)"
  unfolding ParseMatch_def
  by (intro yields) (auto simp: arm_ok_def list_all_iff)

lemmas yields_ParseMatch [yields] = result_ParseMatch [THEN yields_imp]

section \<open>Operators\<close>

lemma result_ParseTerm:
  "yields (\<lambda>n. expression_form n \<and> tree n) (ParseTerm R)"
  unfolding ParseTerm_def
  by (intro yields) (auto dest: block_expression identifier_expression)

lemmas yields_ParseTerm [yields] = result_ParseTerm [THEN yields_imp]

lemma identifierE:
  assumes "is_identifier n"
  obtains m nm as l where "n = Expr (IdentifierNode nm m as l)"
  using assms by (cases n; simp add: is_identifier_def split: expression_node.split_asm)

lemma chain_arguments:
  "field_chain n = Some (ps, tas, l) \<Longrightarrow> tree n \<Longrightarrow> \<forall>t \<in> set tas. type_form t \<and> tree t"
proof (induction n arbitrary: ps tas l rule: field_chain.induct)
  case (1 s f l')
  then have "is_identifier f" "tree f" by auto
  then show ?case using 1 by (auto split: option.splits elim!: identifierE)
next
  case (2 n m as l')
  then show ?case by simp
qed (simp_all only: field_chain.simps option.distinct)

lemma qualified_tree:
  "qualified_identifier n = Some q \<Longrightarrow> tree n \<Longrightarrow> is_identifier q \<and> tree q"
  by (auto simp: qualified_identifier_def dottedIdentifier_def is_identifier_def
      dest: chain_arguments split: if_splits option.splits prod.splits)

lemma with_type_arguments_tree:
  "\<lbrakk>is_identifier n; tree n; \<forall>t \<in> set tas. type_form t \<and> tree t\<rbrakk>
    \<Longrightarrow> expression_form (with_type_arguments n tas l) \<and> tree (with_type_arguments n tas l)"
  by (auto simp: with_type_arguments_def elim!: identifierE)

lemma result_postfix_call:
  "expression_form e \<and> tree e \<Longrightarrow> yields (round (\<lambda>n. expression_form n \<and> tree n) (\<lambda>_. False)) (postfix_call R e)"
  unfolding postfix_call_def
  by (intro yields) (auto dest: qualified_tree with_type_arguments_tree intro: call_node_tree simp: call_node_def)

lemmas yields_postfix_call [yields] = result_postfix_call [THEN yields_imp]

lemma result_postfix_index:
  "expression_form e \<and> tree e \<Longrightarrow> yields (round (\<lambda>n. expression_form n \<and> tree n) (\<lambda>_. False)) (postfix_index R l e)"
  unfolding postfix_index_def
  by (intro yields) (auto simp: round_def)

lemmas yields_postfix_index [yields] = result_postfix_index [THEN yields_imp]

lemma result_postfix_dot:
  "expression_form e \<and> tree e \<Longrightarrow> yields (round (\<lambda>n. expression_form n \<and> tree n) (\<lambda>_. False)) (postfix_dot R l e)"
  unfolding postfix_dot_def
  by (intro yields) (auto simp: round_def)

lemmas yields_postfix_dot [yields] = result_postfix_dot [THEN yields_imp]

lemma result_ParsePostfix:
  "yields (\<lambda>n. expression_form n \<and> tree n) (ParsePostfix R)"
  unfolding ParsePostfix_def
  by (intro yields yields_loop [where I = "\<lambda>n. expression_form n \<and> tree n"]) (auto simp: round_def dest: qualified_tree split: sum.splits)

lemmas yields_ParsePostfix [yields] = result_ParsePostfix [THEN yields_imp]

lemma result_ParseUnary:
  "yields (\<lambda>n. expression_form n \<and> tree n) (ParseUnary R)"
  unfolding ParseUnary_def
  by (intro yields) auto

lemmas yields_ParseUnary [yields] = result_ParseUnary [THEN yields_imp]

lemma result_parseLeftAssociative:
  assumes "yields (\<lambda>n. expression_form n \<and> tree n) m"
  shows "yields (\<lambda>n. expression_form n \<and> tree n) (parseLeftAssociative m ops)"
  unfolding parseLeftAssociative_def
  by (intro yields assms [THEN yields_imp] yields_loop [where I = "\<lambda>n. expression_form n \<and> tree n"])
    (auto simp: round_def)

lemma result_ParseExpression: "yields (\<lambda>n. expression_form n \<and> tree n) (ParseExpression R)"
  unfolding ParseExpression_def ParseLogicalOr_def ParseLogicalAnd_def ParseBitwiseOr_def
    ParseBitwiseXor_def ParseBitwiseAnd_def ParseComparison_def ParseShift_def ParseAddSub_def
    ParseMulDiv_def
  by (intro result_parseLeftAssociative result_ParseUnary)

section \<open>Blocks and functions\<close>

lemma result_tail_expression:
  "yields (\<lambda>x. \<forall>n. x = Some n \<longrightarrow> expression_form n \<and> tree n) (tail_expression R)"
  unfolding tail_expression_def
  by (intro yields) auto

lemmas yields_tail_expression [yields] = result_tail_expression [THEN yields_imp]

lemma result_block_statements:
  "yields (\<lambda>(ns, es). \<forall>n \<in> set ns. statement_form n \<and> tree n) (block_statements R x)"
  unfolding block_statements_def
  by (intro yields yields_loop [where I = "\<lambda>(ns, es). \<forall>n \<in> set ns. statement_form n \<and> tree n"]) (auto dest: expression_statement_form)

lemmas yields_block_statements [yields] = result_block_statements [THEN yields_imp]

lemma result_parseBlock:
  "yields (\<lambda>n. block_form x n \<and> tree n) (parseBlock R x)"
  unfolding parseBlock_def
  by (intro yields) auto

lemmas yields_parseBlock [yields] = result_parseBlock [THEN yields_imp]

lemma capture_name_ok:
  "\<lbrakk>capture_name n k l gs = Inr gs'; \<forall>t. k = Some t \<longrightarrow> type_form t \<and> tree t; generics_ok gs\<rbrakk>
    \<Longrightarrow> generics_ok gs'"
  by (auto simp: capture_name_def generics_ok_def generic_parts_def split: if_splits)

lemma captures_ok:
  "\<lbrakk>capture_visit n gs = Inr gs'; tree n; generics_ok gs\<rbrakk> \<Longrightarrow> generics_ok gs'"
  "\<lbrakk>capture_all ns gs = Inr gs'; \<forall>n \<in> set ns. tree n; generics_ok gs\<rbrakk> \<Longrightarrow> generics_ok gs'"
  by (induction n gs and ns gs arbitrary: gs' and gs' rule: capture_visit_capture_all.induct)
    (auto dest: capture_name_ok split: if_splits sum.splits)

lemma captured_ok: "capturedTypeParameters n = Inr gs \<Longrightarrow> tree n \<Longrightarrow> generics_ok gs"
  using captures_ok(1) [of n "[]" gs] by (simp add: capturedTypeParameters_def generics_ok_def)

lemma yields_lift_captures [yields]:
  "(\<And>gs. c = Inr gs \<Longrightarrow> Q gs) \<Longrightarrow> yields Q (lift_captures c)"
  unfolding lift_captures_def by (intro yields)

lemma result_owner_method:
  "type_form n \<and> tree n \<Longrightarrow> yields (\<lambda>(nm, ow, t, gs). generics_ok gs \<and> (\<forall>n. t = Some n \<longrightarrow> type_form n \<and> tree n)) (owner_method n)"
  unfolding owner_method_def
  by (intro yields) (auto dest: captured_ok)

lemmas yields_owner_method [yields] = result_owner_method [THEN yields_imp]

lemma result_function_name:
  "yields (\<lambda>(nm, ow, t, gs). generics_ok gs \<and> (\<forall>n. t = Some n \<longrightarrow> type_form n \<and> tree n)) (function_name R)"
  unfolding function_name_def
  by (intro yields) (auto simp: generics_ok_def)

lemmas yields_function_name [yields] = result_function_name [THEN yields_imp]

lemma result_method_receiver:
  "\<forall>n. t = Some n \<longrightarrow> type_form n \<and> tree n \<Longrightarrow> yields (\<lambda>(r, as). (\<forall>a \<in> set as. all_parts (argument_parts a)) \<and> (r \<noteq> MethodReceiverNone \<longrightarrow> as \<noteq> [] \<and> arg_Name (hd as) = ''self'')) (method_receiver ow t)"
  unfolding method_receiver_def
  by (intro yields) (auto simp: argument_parts_def dest: type_pointee split: option.splits)

lemmas yields_method_receiver [yields] = result_method_receiver [THEN yields_imp]

lemma result_parameter_name:
  "yields (\<lambda>a. all_parts (argument_parts a)) (parameter_name R)"
  unfolding parameter_name_def
  by (intro yields) (auto simp: argument_parts_def)

lemmas yields_parameter_name [yields] = result_parameter_name [THEN yields_imp]

lemma result_parameter_group:
  "yields (\<lambda>as. as \<noteq> [] \<and> (\<forall>a \<in> set as. all_parts (argument_parts a))) (parameter_group R)"
  unfolding parameter_group_def
  by (intro yields yields_loop [where I = "\<lambda>as. as \<noteq> [] \<and> (\<forall>a \<in> set as. all_parts (argument_parts a))"]) auto

lemmas yields_parameter_group [yields] = result_parameter_group [THEN yields_imp]

lemma result_group_type:
  "grp \<noteq> [] \<and> (\<forall>a \<in> set grp. all_parts (argument_parts a)) \<Longrightarrow> yields (\<lambda>(as, v). as \<noteq> [] \<and> (\<forall>a \<in> set as. all_parts (argument_parts a)) \<and> variadic_shape as v) (group_type R l grp)"
  unfolding group_type_def
  by (intro yields) (auto simp: argument_parts_def set_arg_type_def set_default_def variadic_shape_def is_slice_type_def last_map dest: in_set_butlastD)

lemmas yields_group_type [yields] = result_group_type [THEN yields_imp]

lemma result_function_parameters:
  "parameters_ok as0 (as0, gs0) \<Longrightarrow> yields (\<lambda>(as, gs, v, tv). parameters_ok as0 (as, gs) \<and> variadic_shape as tv \<and> \<not> (v \<and> tv)) (function_parameters R l as0 gs0)"
  unfolding function_parameters_def
  by (intro yields yields_loop [where I = "parameters_ok as0"]) (auto simp: parameters_ok_def generics_ok_def variadic_shape_def)

lemmas yields_function_parameters [yields] = result_function_parameters [THEN yields_imp]

lemma result_function_body:
  "yields (\<lambda>(b, x). \<exists>n. b = Some n \<and> expression_form n \<and> tree n) (function_body R)"
  unfolding function_body_def
  by (intro yields) (auto dest: block_expression)

lemmas yields_function_body [yields] = result_function_body [THEN yields_imp]

lemma result_ParseFunctionDefinition:
  "yields (\<lambda>n. statement_form n \<and> tree n) (ParseFunctionDefinition R)"
  unfolding ParseFunctionDefinition_def
  by (intro yields) (auto simp: parameters_ok_def generics_ok_def function_shape_def)

lemmas yields_ParseFunctionDefinition [yields] = result_ParseFunctionDefinition [THEN yields_imp]

section \<open>Declarations and statements\<close>

lemma result_ParseTypeAlias:
  "yields (\<lambda>n. statement_form n \<and> tree n) (ParseTypeAlias R)"
  unfolding ParseTypeAlias_def
  by (intro yields yields_loop [where I = "\<lambda>gs. \<forall>g \<in> set gs. all_parts (generic_parts g)"]) auto

lemmas yields_ParseTypeAlias [yields] = result_ParseTypeAlias [THEN yields_imp]

lemma result_parseModulePath:
  "yields (\<lambda>_. True) parseModulePath"
  unfolding parseModulePath_def
  by (intro yields yields_loop [where I = "\<lambda>_. True"]) auto

lemmas yields_parseModulePath [yields] = result_parseModulePath [THEN yields_imp]

lemma result_import_entry:
  "yields (\<lambda>_. True) import_entry"
  unfolding import_entry_def
  by (intro yields) auto

lemmas yields_import_entry [yields] = result_import_entry [THEN yields_imp]

lemma result_ParseImport:
  "yields (\<lambda>n. declaration_form n \<and> tree n) ParseImport"
  unfolding ParseImport_def
  by (intro yields yields_loop [where I = "\<lambda>(ms, as). length as = length ms"]) auto

lemmas yields_ParseImport [yields] = result_ParseImport [THEN yields_imp]

lemma result_ParseModule:
  "yields (\<lambda>n. declaration_form n \<and> tree n) (ParseModule R)"
  unfolding ParseModule_def
  by (intro yields) auto

lemmas yields_ParseModule [yields] = result_ParseModule [THEN yields_imp]

lemma result_ParseDeclaration:
  "yields (\<lambda>n. statement_form n \<and> tree n) (ParseDeclaration R)"
  unfolding ParseDeclaration_def
  by (intro yields) auto

lemmas yields_ParseDeclaration [yields] = result_ParseDeclaration [THEN yields_imp]

lemma result_parseMultiDeclaration:
  "yields (\<lambda>n. statement_form n \<and> tree n) (parseMultiDeclaration R)"
  unfolding parseMultiDeclaration_def
  by (intro yields yields_loop [where I = "\<lambda>(ns, ls). length ls = length ns"]) auto

lemmas yields_parseMultiDeclaration [yields] = result_parseMultiDeclaration [THEN yields_imp]

lemma result_ParseAssignment:
  "expression_form n \<and> tree n \<Longrightarrow> yields (\<lambda>n. statement_form n \<and> tree n) (ParseAssignment R n)"
  unfolding ParseAssignment_def
  by (intro yields) auto

lemmas yields_ParseAssignment [yields] = result_ParseAssignment [THEN yields_imp]

lemma result_ParseCompoundAssignment:
  "expression_form n \<and> tree n \<Longrightarrow> yields (\<lambda>n. statement_form n \<and> tree n) (ParseCompoundAssignment R t n)"
  unfolding ParseCompoundAssignment_def
  by (intro yields) (auto simp: Let_def)

lemmas yields_ParseCompoundAssignment [yields] = result_ParseCompoundAssignment [THEN yields_imp]

lemma result_ParseDefer:
  "yields (\<lambda>n. statement_form n \<and> tree n) (ParseDefer R)"
  unfolding ParseDefer_def
  by (intro yields) (auto dest: block_expression)

lemmas yields_ParseDefer [yields] = result_ParseDefer [THEN yields_imp]

lemma result_ParseControlKeyword: "yields (\<lambda>n. statement_form n \<and> tree n) (ParseControlKeyword R)"
  unfolding ParseControlKeyword_def
  supply yields_if [yields del] yields_if_test [yields]
  by (intro yields yields_loop [where I = "\<lambda>ns. \<forall>n \<in> set ns. expression_form n \<and> tree n"])
    (auto simp: keywords_of_control_def split: list.splits)

lemmas yields_ParseControlKeyword [yields] = result_ParseControlKeyword [THEN yields_imp]

lemma result_parseIterationAttributes:
  "yields (\<lambda>_. True) parseIterationAttributes"
  unfolding parseIterationAttributes_def
  by (intro yields yields_loop [where I = "\<lambda>_. True"]) auto

lemmas yields_parseIterationAttributes [yields] = result_parseIterationAttributes [THEN yields_imp]

lemma result_destructure_names:
  "yields (\<lambda>_. True) destructure_names"
  unfolding destructure_names_def
  by (intro yields yields_loop [where I = "\<lambda>_. True"]) auto

lemmas yields_destructure_names [yields] = result_destructure_names [THEN yields_imp]

lemma result_element_kind: "yields (\<lambda>k. t = None \<longrightarrow> k = ForEachElementValue) (element_kind t)"
  unfolding element_kind_def
  supply yields_if [yields del] yields_if_test [yields]
  by (intro yields) auto

lemmas yields_element_kind [yields] = result_element_kind [THEN yields_imp]

lemma result_parseRangeOrForEach:
  "yields (\<lambda>n. statement_form n \<and> tree n) (parseRangeOrForEach R l)"
  unfolding parseRangeOrForEach_def
  by (intro yields) (auto simp: token_or_empty_def)

lemmas yields_parseRangeOrForEach [yields] = result_parseRangeOrForEach [THEN yields_imp]

lemma result_ParseForLoop:
  "yields (\<lambda>n. statement_form n \<and> tree n) (ParseForLoop R)"
  unfolding ParseForLoop_def
  by (intro yields yields_loop [where I = "\<lambda>ns. \<forall>n \<in> set ns. statement_form n \<and> tree n"]) (auto dest: expression_statement_form)

lemmas yields_ParseForLoop [yields] = result_ParseForLoop [THEN yields_imp]

lemma yields_lookahead [yields]: "(\<And>x. Q x) \<Longrightarrow> yields Q let_lookahead"
  by (simp add: yields_def)

lemma yields_let_form [yields]:
  "\<lbrakk>yields Q a; yields Q b; yields Q c; yields Q d\<rbrakk> \<Longrightarrow> yields Q (case x of
     LetDeclaration \<Rightarrow> a | LetFunction \<Rightarrow> b | LetTypeAlias \<Rightarrow> c | LetMultiple \<Rightarrow> d)"
  by (cases x) simp_all

lemma result_let_statement:
  "yields (\<lambda>n. statement_form n \<and> tree n) (let_statement R)"
  unfolding let_statement_def
  by (intro yields) auto

lemmas yields_let_statement [yields] = result_let_statement [THEN yields_imp]

lemma result_multiple_assignment:
  "expression_form n \<and> tree n \<Longrightarrow> yields (\<lambda>n. statement_form n \<and> tree n) (multiple_assignment R n)"
  unfolding multiple_assignment_def
  by (intro yields yields_loop [where I = "\<lambda>ns. ns \<noteq> [] \<and> (\<forall>n \<in> set ns. expression_form n \<and> tree n)"]) (auto dest: identifier_expression)

lemmas yields_multiple_assignment [yields] = result_multiple_assignment [THEN yields_imp]

lemma result_expression_statement:
  "yields (\<lambda>(n, b). statement_form n \<and> tree n) (expression_statement R)"
  unfolding expression_statement_def
  by (intro yields) (auto dest: expression_statement_form)

lemmas yields_expression_statement [yields] = result_expression_statement [THEN yields_imp]

lemma directive_statement: "directive_form n \<Longrightarrow> statement_form n"
  by (cases n rule: directive_form.cases) auto

lemma result_ParseStatement:
  "yields (\<lambda>(n, b). statement_form n \<and> tree n) (ParseStatement R)"
  unfolding ParseStatement_def
  by (intro yields) (auto dest: directive_statement expression_statement_form block_expression)

lemmas yields_ParseStatement [yields] = result_ParseStatement [THEN yields_imp]

lemma set_public_tree:
  assumes "set_public b l n = Some m" "declaration_form n" "tree n"
  shows "declaration_form m \<and> tree m"
  using assms
  by (auto simp: set_public_def Let_def function_shape_def
      split: node.splits plain_node.splits FunctionDef.splits if_splits)

lemma result_parseTopLevel:
  "yields (\<lambda>n. declaration_form n \<and> tree n) (parseTopLevel R)"
  unfolding parseTopLevel_def
  by (intro yields) (auto dest: set_public_tree statement_declaration directive_statement)

lemmas yields_parseTopLevel [yields] = result_parseTopLevel [THEN yields_imp]

lemma result_parse_step: "yields (reply_ok c) (parse_step R c)"
  unfolding parse_step_def as_node_def
  by (cases c) (auto intro!: yields result_ParseExpression [THEN yields_imp])

end

section \<open>The recursion and files\<close>

lemma parse_result:
  assumes "parse c p = Some r"
  shows "\<forall>a q. r = (Parsed a, q) \<longrightarrow> reply_ok c a"
proof (rule parse.raw_induct [where P = "\<lambda>c p r. \<forall>a q. r = (Parsed a, q) \<longrightarrow> reply_ok c a", OF _ assms],
    intro allI impI)
  fix R :: calls and c p r a q
  assume IH: "\<And>c p r. R c p = Some r \<Longrightarrow> \<forall>a q. r = (Parsed a, q) \<longrightarrow> reply_ok c a"
    and step: "parse_step R c p = Some r" and r: "r = (Parsed a, q)"
  have "typed_calls R" by (rule typed_calls.intro) (use IH in \<open>auto simp: yields_def\<close>)
  from typed_calls.result_parse_step [OF this, of c] step show "reply_ok c a"
    unfolding r by (rule yieldsD)
qed

interpretation parse_trees: typed_calls parse
  by unfold_locales (auto simp: yields_def dest: parse_result)

lemma result_parse_declarations:
  "yields (\<lambda>(ns, es). \<forall>n \<in> set ns. declaration_form n \<and> tree n) parse_declarations"
  unfolding parse_declarations_def
  by (intro yields parse_trees.yields_calls
      yields_loop [where I = "\<lambda>(ns, es). \<forall>n \<in> set ns. declaration_form n \<and> tree n"]) auto

lemma Parse_tree:
  assumes "Parse p = Some (Parsed (root, errs), q)"
  shows "\<exists>ns l. root = Stmt (RootNode ns l) \<and> tree root"
  using assms yieldsD [OF result_parse_declarations]
  by (fastforce simp: Parse_def bind_result retP_def split: if_splits)

lemma tree_everywhere:
  assumes "tree n"
  shows "everywhere fits n" "everywhere shape n"
  using assms unfolding tree_def by (auto elim: everywhere_mono)

end
