(* ===== verification/Parser_Properties.thy ===== *)
theory Parser_Properties
  imports Parser_Runs Parser_Typed
begin

text \<open>
  The properties of the parser.
\<close>

section \<open>Termination\<close>

definition consumed :: "Parser \<Rightarrow> Parser \<Rightarrow> bool" where
  "consumed p q \<longleftrightarrow> p_tokens q = p_tokens p \<and> p_pos p \<le> p_pos q"

text \<open>
  C2: The parser never runs for ever, whatever the tokens and from every state: neither on files nor
  in any of its recursive methods (expressions, unary expressions, types, blocks, statements,
  declarations and the items of a link). Each ends with a result, an error or a panic, without going
  back before its start, and a method that succeeds has consumed a token, apart from the list
  of link items, which may be empty.
\<close>

theorem parser_always_returns:
  "(\<exists>r q. Parse p = Some (r, q)) \<and>
   (\<exists>r q. parse c p = Some (r, q) \<and> consumed p q \<and>
      (case r of Parsed a \<Rightarrow> (case c of CallLinkItems k \<Rightarrow> True | _ \<Rightarrow> p_pos p < p_pos q) | _ \<Rightarrow> True))"
proof
  show "\<exists>r q. Parse p = Some (r, q)" by (rule Parse_returns)
  have "eats (Suc (left p)) (\<lambda>_. consumes c) (parse c)"
    using good_parse good_def by blast
  then obtain r q where run: "parse c p = Some (r, q)" "advances p q"
      "\<And>a. r = Parsed a \<Longrightarrow> consumes c \<Longrightarrow> left q < left p"
    by (rule eatsD [where p = p]) auto
  then have "left q < left p \<longrightarrow> p_pos p < p_pos q" by (auto simp: left_def advances_def)
  then show "\<exists>r q. parse c p = Some (r, q) \<and> consumed p q \<and>
      (case r of Parsed a \<Rightarrow> (case c of CallLinkItems k \<Rightarrow> True | _ \<Rightarrow> p_pos p < p_pos q) | _ \<Rightarrow> True)"
    using run by (auto simp: advances_def consumed_def split: parsed.splits call.splits)
qed

section \<open>Imports\<close>

text \<open>
  C17: The scan that finds the imports of a file before its conditions are resolved agrees with the
  parser: on an import that the parser accepts, in either form, it finds the same modules and the
  same aliases and stops at the same token.
\<close>

theorem header_scan_agrees_with_parser:
  assumes "ParseImport p = Some (Parsed n, q)"
  shows "\<exists>ms as l. n = Stmt (ImportNode ms as l) \<and>
    scanHeaderImport (p_tokens p) (p_pos p + 1) = Inr (ms, as, p_pos q)"
  using assms by (rule ParseImport_scan)

definition two_imports :: "Token list" where
  "two_imports =
    [sample_token TokenKeyword ''import'' 0, sample_token TokenOpenParen [] 1,
     sample_token TokenIdentifier ''std'' 2, sample_token TokenDot [] 3,
     sample_token TokenIdentifier ''io'' 4, sample_token TokenComma [] 5,
     sample_token TokenNewline [] 6, sample_token TokenIdentifier ''a'' 7,
     sample_token TokenIdentifier ''b'' 8, sample_token TokenCloseParen [] 9,
     sample_token TokenEof [] 10]"

lemma two_imports_parsed:
  "\<exists>l q. ParseImport (NewParser two_imports) =
    Some (Parsed (Stmt (ImportNode [''std.io'', ''a''] [[], ''b''] l)), q)"
  by (simp add: parser_run sample [OF two_imports_def] cong: parser_cong
      del: One_nat_def)

lemma header_scan_agrees_with_parser_witness:
  "\<exists>j. scanHeaderImport two_imports 1 = Inr ([''std.io'', ''a''], [[], ''b''], j)"
proof -
  obtain l q where "ParseImport (NewParser two_imports) =
      Some (Parsed (Stmt (ImportNode [''std.io'', ''a''] [[], ''b''] l)), q)"
    using two_imports_parsed by blast
  from header_scan_agrees_with_parser [OF this] show ?thesis by (simp add: NewParser_def)
qed

section \<open>Well-formed trees\<close>

text \<open>
  C3: The tree of a file is well typed: it is a list of declarations, and in every node below it, each
  field holds a node of the kind that the Go type of the field demands (types where types are due,
  expressions, identifiers, named types, blocks that are expressions exactly when their
  statement is one, directives). Conditionals occur only in their own context and function types
  only behind a pointer. The one exception is the operand of \<open>@sizeof\<close> and \<open>@alignof\<close>, where a conditional
  expression is taken for a type.
\<close>

theorem parsed_files_are_typed:
  assumes "Parse p = Some (Parsed (root, errs), q)"
  shows "(\<exists>ns l. root = Stmt (RootNode ns l)) \<and> everywhere fits root"
  using Parse_tree [OF assms] tree_everywhere by blast

definition enum_file :: "Token list" where
  "enum_file =
    [sample_token TokenKeyword ''let'' 0, sample_token TokenIdentifier ''E'' 1,
     sample_token TokenEquals [] 2, sample_token TokenKeyword ''type'' 3,
     sample_token TokenKeyword ''enum'' 4, sample_token TokenOpenCurly [] 5,
     sample_token TokenIdentifier ''A'' 6, sample_token TokenComma [] 7,
     sample_token TokenIdentifier ''B'' 8, sample_token TokenCloseCurly [] 9,
     sample_token TokenEof [] 10]"

lemma sample_decimals: "decimal 0 = ''0''" "decimal (Suc 0) = ''1''"
  by code_simp+

lemma enum_file_parsed:
  "\<exists>l l' l'' q. Parse (NewParser enum_file) = Some (Parsed (Stmt (RootNode
    [Stmt (TypeAliasNode ''E'' [] (Type (EnumTypeNode [''A'', ''B''] [''0'', ''1''] l)) False False l')] l''), []), q)"
  by (simp add: parser_run sample [OF enum_file_def] sample_decimals cong: parser_cong del: One_nat_def)

lemma parsed_files_are_typed_witness:
  "\<exists>n errs q. Parse (NewParser enum_file) = Some (Parsed (n, errs), q) \<and> everywhere fits n"
  using enum_file_parsed parsed_files_are_typed by blast

text \<open>
  C4: Every recursive method of the parser returns a node of the kind it is called for, and every node
  below it satisfies the conditions that the parser checks: the variants of an enumeration, the
  members of flags, of unions and of traits and the type parameters of a function have distinct names
  and values that fit, an arm of a match has one pattern per subject or a
  wildcard, the last parameter of a typed variadic function is a slice, a method has \<open>self\<close> first, an
  \<open>if\<close> expression has an else branch, a function has a body exactly when it is not foreign, and only
  multi-result expressions are assigned to several names.
\<close>

theorem parsed_trees_are_shaped:
  assumes "parse c p = Some (Parsed (Node n b), q)"
  shows "call_form c n \<and> everywhere shape n"
  using parse_result [OF assms] tree_everywhere by auto

definition enum_type :: "Token list" where
  "enum_type =
    [sample_token TokenKeyword ''enum'' 0, sample_token TokenOpenCurly [] 1,
     sample_token TokenIdentifier ''A'' 2, sample_token TokenCloseCurly [] 3,
     sample_token TokenEof [] 4]"

lemma enum_type_parsed:
  "\<exists>l q. parse CallType (NewParser enum_type) =
    Some (Parsed (Node (Type (EnumTypeNode [''A''] [''0''] l)) True), q)"
  by (simp add: parser_run sample [OF enum_type_def] sample_decimals cong: parser_cong del: One_nat_def)

lemma parsed_trees_are_shaped_witness: "\<exists>l. shape (Type (EnumTypeNode [''A''] [''0''] l))"
  using enum_type_parsed parsed_trees_are_shaped everywhere.simps by blast

end
