(* ===== verification/Stage_Values.thy ===== *)
theory Stage_Values
  imports Eval_Values Target Parser
begin

text \<open>
  Values of compile-time selection and their evaluation, \<^verbatim>\<open>src/loader/staging.go\<close>. Selection
  works on the syntax tree of the parser, before semantic analysis. A value has one of five kinds;
  \<open>typ\<close> is only set on values that come from the evaluator of the intermediate representation.
\<close>

section \<open>Configuration and values\<close>

datatype StageReleaseMode = StageDebug | StageRelease

text \<open>\<open>cfg_host\<close> is the machine the compiler runs on, which an empty triple stands for.\<close>

record StageConfig =
  cfg_host :: emitter
  cfg_TargetTriple :: string
  cfg_Sysroot :: string
  cfg_ReleaseMode :: StageReleaseMode
  cfg_NoLibc :: bool
  cfg_NoStdlib :: bool

datatype stageValue =
    StageBool bool "ty option"
  | StageInteger int "ty option"
  | StageFloat string "ty option"
  | StageEnum string string
  | StageEnumLiteral string

text \<open>
  What evaluation reads: the configuration, the values of the bindings by name, and the values that
  the intermediate representation gave to expressions. The source keys these by the
  address of the expression; here the key is the expression, which includes its location.
\<close>

record stage_env =
  se_config :: StageConfig
  se_bindings :: "string \<rightharpoonup> stageValue"
  se_evaluated :: "node option \<rightharpoonup> stageValue"

section \<open>The target\<close>

definition os_names :: "(string list \<times> string) list" where
  "os_names =
    [([''windows'', ''mingw'', ''msvc''], ''Windows''), ([''linux''], ''Linux''),
     ([''darwin'', ''apple''], ''MacOS''), ([''freebsd''], ''FreeBSD''), ([''openbsd''], ''OpenBSD''),
     ([''netbsd''], ''NetBSD''), ([''dragonfly''], ''DragonFly''), ([''wasi''], ''WASI'')]"

definition target_os :: "string \<Rightarrow> string" where
  "target_os target =
    (case filter (\<lambda>(ws, n). list_ex (Contains target) ws) os_names of
       [] \<Rightarrow> ''Unknown''
     | (ws, n) # _ \<Rightarrow> n)"

definition arch_names :: "string \<rightharpoonup> string" where
  "arch_names = map_of
    [(''386'', ''X86''), (''x86_64'', ''X86_64''), (''amd64'', ''X86_64''), (''aarch64'', ''AArch64''),
     (''arm64'', ''AArch64''), (''wasm32'', ''Wasm32''), (''wasm64'', ''Wasm64'')]"

definition target_environment :: "string \<Rightarrow> string" where
  "target_environment target =
    (if Contains target ''msvc'' then ''MSVC''
     else if Contains target ''musl'' then ''Musl''
     else if Contains target ''gnu'' \<or> Contains target ''mingw'' then ''GNU''
     else ''Unknown'')"

definition native_systems :: "string list" where
  "native_systems =
    [''Windows'', ''Linux'', ''MacOS'', ''FreeBSD'', ''OpenBSD'', ''NetBSD'', ''DragonFly'']"

definition targetValue :: "StageConfig \<Rightarrow> string \<Rightarrow> stageValue option" where
  "targetValue cfg name =
    (let triple = EffectiveTriple (cfg_host cfg) (cfg_TargetTriple cfg);
         target = ToLower triple
     in if name = ''PointerBits'' then
          Some (StageInteger (case PointerBits (cfg_host cfg) triple of None \<Rightarrow> 0 | Some b \<Rightarrow> b) None)
        else if name = ''CCharSigned'' then Some (StageBool (CCharSigned (cfg_host cfg) triple) None)
        else if name = ''ReleaseMode'' then
          Some (StageEnum ''ReleaseMode''
            (if cfg_ReleaseMode cfg = StageRelease then ''Release'' else ''Debug''))
        else if name = ''OS'' then Some (StageEnum ''OS'' (target_os target))
        else if name = ''Arch'' then
          Some (StageEnum ''Arch''
            (case arch_names (Arch (cfg_host cfg) triple) of None \<Rightarrow> [] | Some a \<Rightarrow> a))
        else if name = ''Environment'' then Some (StageEnum ''Environment'' (target_environment target))
        else if name \<in> {''TargetHasLibc'', ''TargetHasFilesystem'', ''TargetHasEnvironment'',
                         ''TargetHasProcessExit''} then
          Some (StageBool
            (target_os target \<in> set native_systems \<and> \<not> (name = ''TargetHasLibc'' \<and> cfg_NoLibc cfg)) None)
        else None)"

section \<open>Evaluation\<close>

text \<open>Equality compares values of one kind; an enumeration also compares with a literal.\<close>

fun stageEqual :: "stageValue \<Rightarrow> stageValue \<Rightarrow> bool" where
  "stageEqual (StageEnum d n) (StageEnumLiteral m) = (n = m)"
| "stageEqual (StageEnumLiteral m) (StageEnum d n) = (n = m)"
| "stageEqual (StageBool a t) (StageBool b u) = (a = b)"
| "stageEqual (StageInteger a t) (StageInteger b u) = (a = b)"
| "stageEqual (StageFloat a t) (StageFloat b u) = (a = b)"
| "stageEqual (StageEnum d n) (StageEnum e m) = (d = e \<and> n = m)"
| "stageEqual (StageEnumLiteral n) (StageEnumLiteral m) = (n = m)"
| "stageEqual _ _ = False"

text \<open>The value, or \<open>None\<close> when it is not resolved yet; or an error.\<close>

type_synonym evaluation = "parse_error + stageValue option"

fun truth :: "stageValue \<Rightarrow> bool option" where
  "truth (StageBool b t) = Some b"
| "truth _ = None"

fun stage_integer :: "stageValue \<Rightarrow> int option" where
  "stage_integer (StageInteger i t) = Some i"
| "stage_integer _ = None"

definition stage_fail :: "Location \<Rightarrow> string \<Rightarrow> evaluation" where
  "stage_fail l msg = Inl (ParseError l msg [])"

definition resolved_bool :: "bool \<Rightarrow> evaluation" where
  "resolved_bool b = Inr (Some (StageBool b None))"

definition resolved_integer :: "int \<Rightarrow> evaluation" where
  "resolved_integer i = Inr (Some (StageInteger i None))"

text \<open>The operation on resolved operands; \<open>sdiv\<close> and \<open>smod\<close> truncate like \<open>Quo\<close> and \<open>Rem\<close>.\<close>

definition binary_operation :: "BinaryOpKind \<Rightarrow> Location \<Rightarrow> stageValue \<Rightarrow> stageValue \<Rightarrow> evaluation" where
  "binary_operation op l left right =
    (if op \<in> {BinaryOpLogicalAnd, BinaryOpLogicalOr} then
       (case (truth left, truth right) of
          (Some a, Some b) \<Rightarrow> resolved_bool (if op = BinaryOpLogicalOr then a \<or> b else a \<and> b)
        | _ \<Rightarrow> stage_fail l ''logical compile-time operation requires booleans'')
     else if op = BinaryOpEqual then resolved_bool (stageEqual left right)
     else if op = BinaryOpNotEqual then resolved_bool (\<not> stageEqual left right)
     else if op \<in> {BinaryOpAdd, BinaryOpSubtract, BinaryOpMultiply, BinaryOpDivide, BinaryOpModulo} then
       (case (stage_integer left, stage_integer right) of
          (Some a, Some b) \<Rightarrow>
            if op = BinaryOpAdd then resolved_integer (a + b)
            else if op = BinaryOpSubtract then resolved_integer (a - b)
            else if op = BinaryOpMultiply then resolved_integer (a * b)
            else if b = 0 then stage_fail l ''division by zero''
            else resolved_integer (if op = BinaryOpDivide then a sdiv b else a smod b)
        | _ \<Rightarrow> stage_fail l ''compile-time arithmetic requires integers'')
     else if op \<in> {BinaryOpLess, BinaryOpLessEqual, BinaryOpGreater, BinaryOpGreaterEqual} then
       (case (stage_integer left, stage_integer right) of
          (Some a, Some b) \<Rightarrow>
            resolved_bool
              (if op = BinaryOpLessEqual then a \<le> b
               else if op = BinaryOpGreater then a > b
               else if op = BinaryOpGreaterEqual then a \<ge> b
               else a < b)
        | _ \<Rightarrow> stage_fail l ''compile-time comparison requires integers'')
     else Inr None)"

definition unary_operation :: "UnaryOpKind \<Rightarrow> Location \<Rightarrow> stageValue \<Rightarrow> evaluation" where
  "unary_operation op l value =
    (case (op, value) of
       (UnaryOpLogicalNot, StageBool b t) \<Rightarrow> Inr (Some (StageBool (\<not> b) t))
     | (UnaryOpNegate, StageInteger i t) \<Rightarrow> resolved_integer (- i)
     | (UnaryOpNegate, StageFloat s t) \<Rightarrow>
         Inr (Some (StageFloat (if starts_with ''-'' s then tl s else CHR ''-'' # s) None))
     | _ \<Rightarrow> stage_fail l ''invalid compile-time unary operation'')"

definition then_value :: "evaluation \<Rightarrow> (stageValue \<Rightarrow> evaluation) \<Rightarrow> evaluation" where
  "then_value r k = (case r of Inl e \<Rightarrow> Inl e | Inr None \<Rightarrow> Inr None | Inr (Some v) \<Rightarrow> k v)"

lemma then_value_cong [fundef_cong]:
  "\<lbrakk>r = r'; \<And>v. k v = k' v\<rbrakk> \<Longrightarrow> then_value r k = then_value r' k'"
  by (simp add: then_value_def split: sum.split option.split)

definition named_value :: "stage_env \<Rightarrow> string \<Rightarrow> stageValue option" where
  "named_value s name =
    (case targetValue (se_config s) name of Some v \<Rightarrow> Some v | None \<Rightarrow> se_bindings s name)"

fun evaluate_node :: "stage_env \<Rightarrow> node \<Rightarrow> evaluation" where
  "evaluate_node s n =
    (case se_evaluated s (Some n) of
       Some v \<Rightarrow> Inr (Some v)
     | None \<Rightarrow>
         (case n of
            Expr (BoolLiteralNode v l) \<Rightarrow> Inr (Some (StageBool (v = ''true'') None))
          | Expr (IntegerLiteralNode v l) \<Rightarrow>
              (case SetString0 v of
                 None \<Rightarrow> stage_fail l ''invalid compile-time integer''
               | Some i \<Rightarrow> resolved_integer i)
          | Expr (FloatLiteralNode v l) \<Rightarrow> Inr (Some (StageFloat v None))
          | Expr (EnumLiteralNode v l) \<Rightarrow> Inr (Some (StageEnumLiteral v))
          | Expr (IdentifierNode nm m as l) \<Rightarrow> Inr (named_value s nm)
          | Expr (UnaryOpNode op x l) \<Rightarrow> then_value (evaluate_node s x) (unary_operation op l)
          | Expr (BinaryOpNode op x y l) \<Rightarrow>
              then_value (evaluate_node s x) (\<lambda>a.
              then_value (evaluate_node s y) (binary_operation op l a))
          | _ \<Rightarrow> Inr None))"

declare evaluate_node.simps [simp del]

text \<open>A missing expression is not resolved.\<close>

definition evaluate :: "stage_env \<Rightarrow> node option \<Rightarrow> evaluation" where
  "evaluate s x =
    (case x of
       Some n \<Rightarrow> evaluate_node s n
     | None \<Rightarrow> Inr (se_evaluated s None))"

section \<open>Values as syntax\<close>

text \<open>A value of an enumeration has no integer; the text of a nil big integer is \<open><nil>\<close>.\<close>

fun stageLiteral :: "stageValue \<Rightarrow> Location \<Rightarrow> node" where
  "stageLiteral (StageBool b t) l = Expr (BoolLiteralNode (if b then ''true'' else ''false'') l)"
| "stageLiteral (StageFloat s t) l = Expr (FloatLiteralNode s l)"
| "stageLiteral (StageInteger i t) l = Expr (IntegerLiteralNode (decimal_int i) l)"
| "stageLiteral _ l = Expr (IntegerLiteralNode ''<nil>'' l)"

fun stage_type :: "stageValue \<Rightarrow> ty option" where
  "stage_type (StageBool b t) = t"
| "stage_type (StageInteger i t) = t"
| "stage_type (StageFloat s t) = t"
| "stage_type _ = None"

text \<open>The node that names the type of a value; \<open>Underlying\<close> need not return.\<close>

definition stageTypeNode :: "alias_store \<Rightarrow> stageValue \<Rightarrow> Location \<Rightarrow> node option run" where
  "stageTypeNode \<sigma> v l =
    (case stage_type v of
       None \<Rightarrow> Some None
     | Some t \<Rightarrow>
         map_option (\<lambda>u.
           case u of
             PrimitiveTy p \<Rightarrow>
               if p = PrimitiveVoid then None
               else Some (Type (NamedTypeNode [] (PrimitiveType_String p) [] False None l))
           | _ \<Rightarrow> None) (Underlying \<sigma> t))"

text \<open>
  The value of a global after the evaluation of the intermediate representation. The text of
  a float is the shortest one that reads back, which is the parameter \<open>FormatFloat\<close>.
\<close>

definition stageValueFromIR :: "(fp \<Rightarrow> string) \<Rightarrow> EvalValue \<Rightarrow> stageValue" where
  "stageValueFromIR FormatFloat v =
    (case ev_Float v of
       Some x \<Rightarrow> StageFloat (FormatFloat x) (Some (ev_Type v))
     | None \<Rightarrow>
         (case ev_Integer v of
            None \<Rightarrow> StageBool (ev_Boolean v) (Some (ev_Type v))
          | Some i \<Rightarrow> StageInteger i (Some (ev_Type v))))"

end
