(* ===== verification/Stage_Select.thy ===== *)
theory Stage_Select
  imports Stage_Values
begin

text \<open>
  Compile-time selection in a syntax tree, the methods of \<open>stageSelector\<close> in
  \<^verbatim>\<open>src/loader/staging.go\<close>. The source changes the nodes in place; here every method returns
  the new node. Trees share nothing, except where the parser gives one node to two fields of a
  statement: the first returned value and the target of a compound assignment, which are treated
  as the one node they are.
\<close>

section \<open>State and control\<close>

text \<open>
  \<open>sel_unresolved\<close> holds the expressions that wait for the intermediate representation. A panic is a
  failed type assertion or a method call on a nil interface; \<open>None\<close> is not returning.
\<close>

record selector =
  sel_env :: stage_env
  sel_unresolved :: "node option list"
  sel_needsIR :: bool

datatype 'a staged = Selected 'a | StageFailed parse_error | StagePanicked

type_synonym 'a stage = "selector \<Rightarrow> ('a \<times> selector) staged run"

definition retS :: "'a \<Rightarrow> 'a stage" where
  "retS a s = Some (Selected (a, s))"

definition failS :: "parse_error \<Rightarrow> 'a stage" where
  "failS e s = Some (StageFailed e)"

definition panicS :: "'a stage" where
  "panicS s = Some StagePanicked"

definition bindS :: "'a stage \<Rightarrow> ('a \<Rightarrow> 'b stage) \<Rightarrow> 'b stage" where
  "bindS m k s =
    (case m s of
       None \<Rightarrow> None
     | Some (Selected (a, s')) \<Rightarrow> k a s'
     | Some (StageFailed e) \<Rightarrow> Some (StageFailed e)
     | Some StagePanicked \<Rightarrow> Some StagePanicked)"

definition readS :: "(selector \<Rightarrow> 'a) \<Rightarrow> 'a stage" where
  "readS f s = Some (Selected (f s, s))"

definition changeS :: "(selector \<Rightarrow> selector) \<Rightarrow> unit stage" where
  "changeS f s = Some (Selected ((), f s))"

definition thenS :: "unit stage \<Rightarrow> 'b stage \<Rightarrow> 'b stage" where
  "thenS m k = bindS m (\<lambda>_. k)"

primrec map_stage :: "('a \<Rightarrow> 'b stage) \<Rightarrow> 'a list \<Rightarrow> 'b list stage" where
  "map_stage f [] = retS []"
| "map_stage f (x # xs) =
    bindS (f x) (\<lambda>y. bindS (map_stage f xs) (\<lambda>ys. retS (y # ys)))"

definition option_stage :: "('a \<Rightarrow> 'b stage) \<Rightarrow> 'a option \<Rightarrow> 'b option stage" where
  "option_stage f x = (case x of None \<Rightarrow> retS None | Some a \<Rightarrow> bindS (f a) (\<lambda>b. retS (Some b)))"

section \<open>Conditions\<close>

definition evaluateS :: "node option \<Rightarrow> stageValue option stage" where
  "evaluateS x s = (case evaluate (sel_env s) x of Inl e \<Rightarrow> failS e s | Inr v \<Rightarrow> retS v s)"

definition mark_unresolved :: "node option \<Rightarrow> unit stage" where
  "mark_unresolved x = changeS (\<lambda>s. s\<lparr>sel_needsIR := True,
     sel_unresolved := List.insert x (sel_unresolved s)\<rparr>)"

definition evaluateDirective ::
  "string \<Rightarrow> node option \<Rightarrow> string \<Rightarrow> Location \<Rightarrow> Location \<Rightarrow> unit stage" where
  "evaluateDirective name condition message nameLoc loc =
    (if name = ''compiler_error'' then failS (ParseError nameLoc ''%s'' [message])
     else
       bindS (evaluateS condition) (\<lambda>v.
       case v of
         None \<Rightarrow> mark_unresolved condition
       | Some w \<Rightarrow>
           if truth w = Some True then retS ()
           else failS (ParseError loc ''compiler assertion failed: %s'' [message])))"

text \<open>Whether a branch holds, or \<open>None\<close> when its condition is not resolved, which is then noted.\<close>

definition branch_holds :: "string \<Rightarrow> node \<Rightarrow> bool option stage" where
  "branch_holds message condition =
    bindS (evaluateS (Some condition)) (\<lambda>v.
    case v of
      None \<Rightarrow> thenS (mark_unresolved (Some condition)) (retS None)
    | Some w \<Rightarrow>
        (case truth w of
           None \<Rightarrow> failS (ParseError (GetLoc condition) message [])
         | Some b \<Rightarrow> retS (Some b)))"

text \<open>\<open>selectWhen\<close>, given the selection of a body; \<open>None\<close> when it is not resolved.\<close>

primrec selectWhen ::
  "(node list \<Rightarrow> node list stage) \<Rightarrow> node WhenBranchNode list \<Rightarrow> node list \<Rightarrow> node list option stage"
where
  "selectWhen body [] elseBody = bindS (body elseBody) (\<lambda>ns. retS (Some ns))"
| "selectWhen body (b # bs) elseBody =
    bindS (branch_holds ''compile-time condition must be boolean'' (when_Condition b)) (\<lambda>r.
    case r of
      None \<Rightarrow> retS None
    | Some True \<Rightarrow> bindS (body (when_Body b)) (\<lambda>ns. retS (Some ns))
    | Some False \<Rightarrow> selectWhen body bs elseBody)"

text \<open>
  \<open>selectWhenValue\<close>: \<open>None\<close> when it is not resolved, else the selected value, which is nil
  (\<open>Some None\<close>) after a directive and when no branch holds and there is no else. The value of a
  branch is treated as the value of the else branch is.
\<close>

function (sequential) selectWhenValue ::
  "node WhenBranchNode list \<Rightarrow> node option \<Rightarrow> node option option stage" where
  "selectWhenValue [] value =
    (case value of
       Some (Stmt (CompilerDirectiveNode name condition message nl l)) \<Rightarrow>
         thenS (evaluateDirective name condition message nl l) (retS (Some None))
     | Some (WhenNode bs eb ev c l) \<Rightarrow> selectWhenValue bs ev
     | _ \<Rightarrow> retS (Some value))"
| "selectWhenValue (WhenBranchNode condition body value l # bs) elseValue =
    bindS (branch_holds ''compile-time condition must be boolean'' condition) (\<lambda>r.
    case r of
      None \<Rightarrow> retS None
    | Some True \<Rightarrow> selectWhenValue [] value
    | Some False \<Rightarrow> selectWhenValue bs elseValue)"
  by pat_completeness auto
termination
  by (relation "measure (\<lambda>(bs, v). size_list (size_WhenBranchNode size) bs + size_option size v)")
    auto

declare selectWhenValue.simps [simp del]

section \<open>Links\<close>

function (sequential) selectLinkItems :: "node LinkItemNode list \<Rightarrow> Link list option stage"
  and selectLinkWhen ::
    "(node \<times> node LinkItemNode list) list \<Rightarrow> node LinkItemNode list \<Rightarrow> Link list option stage" where
  "selectLinkItems [] = retS (Some [])"
| "selectLinkItems (LinkItem link # items) =
    bindS (selectLinkItems items) (\<lambda>r. retS (map_option (Cons link) r))"
| "selectLinkItems (LinkDirective directive # items) =
    (case directive of
       Stmt (CompilerDirectiveNode name condition message nl l) \<Rightarrow>
         thenS (evaluateDirective name condition message nl l) (
         bindS (readS (\<lambda>s. condition \<in> set (sel_unresolved s))) (\<lambda>unresolved.
         if unresolved then retS None else selectLinkItems items))
     | _ \<Rightarrow> panicS)"
| "selectLinkItems (LinkWhen bs es l # items) =
    bindS (selectLinkWhen bs es) (\<lambda>r.
    case r of
      None \<Rightarrow> retS None
    | Some links \<Rightarrow> bindS (selectLinkItems items) (\<lambda>r. retS (map_option (append links) r)))"
| "selectLinkWhen [] es = selectLinkItems es"
| "selectLinkWhen ((condition, items) # bs) es =
    bindS (branch_holds ''@link condition must be boolean'' condition) (\<lambda>r.
    case r of
      None \<Rightarrow> retS None
    | Some True \<Rightarrow> selectLinkItems items
    | Some False \<Rightarrow> selectLinkWhen bs es)"
  by pat_completeness auto
termination
  by (relation "measure (\<lambda>x. case x of
        Inl items \<Rightarrow> 2 * size_list (size_LinkItemNode (\<lambda>_. 0)) items
      | Inr (bs, es) \<Rightarrow>
          2 * (size_list (size_prod (\<lambda>_. 0) (size_list (size_LinkItemNode (\<lambda>_. 0)))) bs +
               size_list (size_LinkItemNode (\<lambda>_. 0)) es) + 1)")
    auto

declare selectLinkItems.simps [simp del] selectLinkWhen.simps [simp del]

definition select_attribute :: "node parsed_attribute \<Rightarrow> node parsed_attribute stage" where
  "select_attribute a =
    (case a of
       Parsed_Link items \<Rightarrow>
         bindS (selectLinkItems items) (\<lambda>r.
         retS (case r of None \<Rightarrow> a | Some links \<Rightarrow> Resolved (ModuleAttributeLink links)))
     | Resolved b \<Rightarrow> retS a)"

section \<open>Array lengths\<close>

fun is_scalar :: "stageValue \<Rightarrow> bool" where
  "is_scalar (StageEnum d n) = False"
| "is_scalar (StageEnumLiteral n) = False"
| "is_scalar _ = True"

fun inlineStageExpression :: "(string \<rightharpoonup> stageValue) \<Rightarrow> node \<Rightarrow> node" where
  "inlineStageExpression bindings (Expr (IdentifierNode name m as l)) =
    (case bindings name of
       Some v \<Rightarrow> if is_scalar v then stageLiteral v l else Expr (IdentifierNode name m as l)
     | None \<Rightarrow> Expr (IdentifierNode name m as l))"
| "inlineStageExpression bindings (Expr (UnaryOpNode op x l)) =
    Expr (UnaryOpNode op (inlineStageExpression bindings x) l)"
| "inlineStageExpression bindings (Expr (BinaryOpNode op x y l)) =
    Expr (BinaryOpNode op (inlineStageExpression bindings x) (inlineStageExpression bindings y) l)"
| "inlineStageExpression bindings (Expr (CastNode t x l)) =
    Expr (CastNode t (inlineStageExpression bindings x) l)"
| "inlineStageExpression bindings n = n"

section \<open>One level of selection\<close>

text \<open>
  The three mutually recursive methods \<open>selectNode\<close>, \<open>selectExpression\<close> and \<open>selectType\<close>, each
  given the selection of the nodes below. \<open>selectBody\<close> puts the selected nodes together.
\<close>

type_synonym selection = "node \<Rightarrow> node stage"

definition selectBody :: "(node \<Rightarrow> node list stage) \<Rightarrow> node list \<Rightarrow> node list stage" where
  "selectBody N ns = bindS (map_stage N ns) (\<lambda>nss. retS (concat nss))"

definition is_when :: "node \<Rightarrow> bool" where
  "is_when n = (case n of WhenNode bs eb ev c l \<Rightarrow> True | _ \<Rightarrow> False)"

text \<open>
  A node whose selection changes it where it is: the nodes that are returned are dropped. These are
  the branches of conditional statements and the bodies of loops, which are \<open>BlockNode\<close>s in every tree the
  parser gives (\<open>block_form\<close> in \<open>Parser_Trees\<close>, a part of what it is for a tree to be well formed), and stay so
  under selection. For a block the source and this definition agree. A \<open>WhenNode\<close>, which never
  stands there, would be left as it is, while the source selects inside the branch that holds.
\<close>

definition in_place :: "(node \<Rightarrow> node list stage) \<Rightarrow> selection" where
  "in_place N n =
    bindS (N n) (\<lambda>ns. retS (case ns of [m] \<Rightarrow> if is_when n then n else m | _ \<Rightarrow> n))"

definition select_fields :: "selection \<Rightarrow> (string \<times> node) list \<Rightarrow> (string \<times> node) list stage" where
  "select_fields S = map_stage (\<lambda>(f, n). bindS (S n) (\<lambda>m. retS (f, m)))"

definition select_argument ::
  "selection \<Rightarrow> selection \<Rightarrow> node FunctionNodeArg \<Rightarrow> node FunctionNodeArg stage" where
  "select_argument E T a =
    bindS (option_stage T (arg_Type a)) (\<lambda>t.
    bindS (option_stage E (arg_Default a)) (\<lambda>d.
    retS (FunctionNodeArg (arg_Name a) t d (arg_Mutable a) (arg_Loc a))))"

definition select_arm :: "selection \<Rightarrow> node MatchArmNode \<Rightarrow> node MatchArmNode stage" where
  "select_arm E a =
    bindS (option_stage E (arm_Guard a)) (\<lambda>g.
    bindS (E (arm_Body a)) (\<lambda>b.
    retS (MatchArmNode (arm_Patterns a) g b (arm_Loc a))))"

definition select_branch ::
  "(node \<Rightarrow> node list stage) \<Rightarrow> selection \<Rightarrow> node \<times> node \<Rightarrow> (node \<times> node) stage" where
  "select_branch N E = (\<lambda>(c, b). bindS (E c) (\<lambda>c. bindS (in_place N b) (\<lambda>b. retS (c, b))))"

text \<open>Blocks, conditionals and matches, which are both statements and expressions.\<close>

definition compound_step ::
  "(node \<Rightarrow> node list stage) \<Rightarrow> selection \<Rightarrow> node expression_node \<Rightarrow> node expression_node stage" where
  "compound_step N E e =
    (case e of
       BlockNode ns x l \<Rightarrow> bindS (selectBody N ns) (\<lambda>ns. retS (BlockNode ns x l))
     | IfNode b bs eb x l \<Rightarrow>
         bindS (select_branch N E b) (\<lambda>b.
         bindS (map_stage (select_branch N E) bs) (\<lambda>bs.
         bindS (option_stage (in_place N) eb) (\<lambda>eb.
         retS (IfNode b bs eb x l))))
     | MatchNode ss b bl as x l \<Rightarrow>
         bindS (map_stage E ss) (\<lambda>ss.
         bindS (map_stage (select_arm E) as) (\<lambda>as.
         retS (MatchNode ss b bl as x l)))
     | _ \<Rightarrow> retS e)"

definition bind_name :: "string \<Rightarrow> stageValue \<Rightarrow> unit stage" where
  "bind_name name v = changeS (\<lambda>s. s\<lparr>sel_env := (sel_env s)
     \<lparr>se_bindings := (se_bindings (sel_env s))(name \<mapsto> v)\<rparr>\<rparr>)"

text \<open>
  The value of a compile-time binding: a literal, with a type if none is given, or noted as
  unresolved. The key of an unresolved value is the node itself, which the selection that
  follows changes, unless it is a conditional.
\<close>

definition comptime_value ::
  "alias_store \<Rightarrow> string \<Rightarrow> Location \<Rightarrow> node option \<Rightarrow> node option
    \<Rightarrow> (node option \<times> node option \<times> bool) stage" where
  "comptime_value \<sigma> name nameLoc t v =
    bindS (evaluateS v) (\<lambda>r.
    case r of
      None \<Rightarrow> thenS (mark_unresolved v) (retS (t, v, True))
    | Some w \<Rightarrow>
        thenS (bind_name name w) (
        case v of
          None \<Rightarrow> panicS
        | Some n \<Rightarrow>
            bindS (case t of None \<Rightarrow> (\<lambda>s. case stageTypeNode \<sigma> w nameLoc of None \<Rightarrow> None | Some u \<Rightarrow> retS u s)
                   | Some u \<Rightarrow> retS t) (\<lambda>t.
            retS (t, Some (stageLiteral w (GetLoc n)), False))))"

definition rename_unresolved :: "node option \<Rightarrow> node option \<Rightarrow> unit stage" where
  "rename_unresolved v v' = changeS (\<lambda>s. s\<lparr>sel_unresolved :=
     map (\<lambda>x. if x = v \<and> (case v of None \<Rightarrow> True | Some n \<Rightarrow> \<not> is_when n) then v' else x) (sel_unresolved s)\<rparr>)"

definition select_function ::
  "(node \<Rightarrow> node list stage) \<Rightarrow> selection \<Rightarrow> selection \<Rightarrow> node FunctionDef \<Rightarrow> node FunctionDef stage" where
  "select_function N E T f =
    bindS (map_stage (select_argument E T) (fd_Args f)) (\<lambda>as.
    bindS (option_stage T (fd_RetTypeNode f)) (\<lambda>rt.
    bindS
      (case fd_Body f of
         Some (Expr (BlockNode ns x l)) \<Rightarrow>
           bindS (selectBody N ns) (\<lambda>ns. retS (Some (Expr (BlockNode ns x l))))
       | Some b \<Rightarrow> if is_expression b then bindS (E b) (\<lambda>b. retS (Some b)) else retS (Some b)
       | None \<Rightarrow> retS None) (\<lambda>b.
    retS (FunctionDef (fd_Name f) (fd_MethodOwner f) (fd_MethodOwnerType f)
      (fd_MethodOwnerGenericParameters f) (fd_Receiver f) (fd_GenericParameters f) as rt b
      (fd_ExpressionBody f) (fd_HasVariadic f) (fd_TypedVariadic f) (fd_Pub f) (fd_Attributes f)
      (fd_Loc f)))))"

text \<open>The returned values; the first of them is also the field \<open>ReturnValue\<close>.\<close>

definition select_results ::
  "selection \<Rightarrow> node option \<Rightarrow> node list \<Rightarrow> (node option \<times> node list) stage" where
  "select_results E v vs =
    (case vs of
       n # ns \<Rightarrow>
         if v = Some n then
           bindS (E n) (\<lambda>n. bindS (E n) (\<lambda>n. bindS (map_stage E ns) (\<lambda>ns. retS (Some n, n # ns))))
         else bindS (option_stage E v) (\<lambda>v. bindS (map_stage E vs) (\<lambda>vs. retS (v, vs)))
     | [] \<Rightarrow> bindS (option_stage E v) (\<lambda>v. retS (v, [])))"

text \<open>The target of a compound assignment is the left operand of its value.\<close>

definition shared_target :: "bool \<Rightarrow> node option \<Rightarrow> node \<Rightarrow> node \<Rightarrow> node option" where
  "shared_target compound target v v' =
    (case (target, v, v') of
       (Some a, Expr (BinaryOpNode op x y l), Expr (BinaryOpNode op' x' y' l')) \<Rightarrow>
         if compound \<and> a = x \<and> \<not> is_when x then Some x' else target
     | _ \<Rightarrow> target)"

text \<open>
  The action of a \<open>DeferNode\<close> is an expression. A conditional there has only values and no bodies, so that
  its selection as a statement gives nothing and leaves it as it is, in the source as here.
\<close>

definition plain_step ::
  "alias_store \<Rightarrow> (node \<Rightarrow> node list stage) \<Rightarrow> selection \<Rightarrow> selection \<Rightarrow> node plain_node \<Rightarrow> node list stage"
where
  "plain_step \<sigma> N E T p =
    (case p of
       CompilerDirectiveNode name condition message nl l \<Rightarrow>
         thenS (evaluateDirective name condition message nl l) (
         bindS (readS (\<lambda>s. condition \<in> set (sel_unresolved s))) (\<lambda>unresolved.
         retS (if unresolved then [Stmt p] else [])))
     | ModuleNode n attrs l \<Rightarrow>
         bindS (map_stage select_attribute attrs) (\<lambda>attrs. retS [Stmt (ModuleNode n attrs l)])
     | DeclarationNode name nl m pub t v c attrs l \<Rightarrow>
         bindS (if c then comptime_value \<sigma> name nl t v else retS (t, v, False)) (\<lambda>(t, v, unresolved).
         bindS (option_stage E v) (\<lambda>v'.
         thenS (if unresolved then rename_unresolved v v' else retS ()) (
         bindS (option_stage T t) (\<lambda>t.
         retS [Stmt (DeclarationNode name nl m pub t v' c attrs l)]))))
     | TypeAliasNode name gs t tr pub l \<Rightarrow>
         bindS (T t) (\<lambda>t. retS [Stmt (TypeAliasNode name gs t tr pub l)])
     | FunctionDefNode f \<Rightarrow>
         bindS (select_function N E T f) (\<lambda>f. retS [Stmt (FunctionDefNode f)])
     | ForNode ns b l \<Rightarrow>
         bindS (selectBody N ns) (\<lambda>ns.
         bindS (in_place N b) (\<lambda>b. retS [Stmt (ForNode ns b l)]))
     | RangeForNode n nl start stop i r b l \<Rightarrow>
         bindS (E start) (\<lambda>start.
         bindS (E stop) (\<lambda>stop.
         bindS (in_place N b) (\<lambda>b. retS [Stmt (RangeForNode n nl start stop i r b l)])))
     | ForEachNode n nl ds k i il e r b l \<Rightarrow>
         bindS (E e) (\<lambda>e.
         bindS (in_place N b) (\<lambda>b. retS [Stmt (ForEachNode n nl ds k i il e r b l)]))
     | ControlKeywordNode k v vs l \<Rightarrow>
         bindS (select_results E v vs) (\<lambda>(v, vs). retS [Stmt (ControlKeywordNode k v vs l)])
     | DeferNode n l \<Rightarrow>
         bindS (N n) (\<lambda>ns. retS [Stmt (DeferNode (case ns of [m] \<Rightarrow> m | _ \<Rightarrow> n) l)])
     | AssignmentNode a as v c l \<Rightarrow>
         bindS (E v) (\<lambda>v'. retS [Stmt (AssignmentNode (shared_target c a v v') as v' c l)])
     | MultiDeclarationNode ns nls m v l \<Rightarrow>
         bindS (E v) (\<lambda>v. retS [Stmt (MultiDeclarationNode ns nls m v l)])
     | _ \<Rightarrow> retS [Stmt p])"

definition node_step ::
  "alias_store \<Rightarrow> (node \<Rightarrow> node list stage) \<Rightarrow> selection \<Rightarrow> selection \<Rightarrow> node \<Rightarrow> node list stage" where
  "node_step \<sigma> N E T n =
    (case n of
       WhenNode bs eb ev c l \<Rightarrow>
         bindS (selectWhen (selectBody N) bs eb) (\<lambda>r.
         retS (case r of None \<Rightarrow> [n] | Some ns \<Rightarrow> ns))
     | Stmt p \<Rightarrow> plain_step \<sigma> N E T p
     | Expr e \<Rightarrow> bindS (compound_step N E e) (\<lambda>e. retS [Expr e])
     | Type t \<Rightarrow> retS [n])"

text \<open>
  What a conditional in the place of an expression or a type selects goes through \<open>S\<close> again. The
  assertion that the selected value is an expression or a type fails on nil.
\<close>

definition select_value ::
  "(node \<Rightarrow> bool) \<Rightarrow> selection \<Rightarrow> node \<Rightarrow> node WhenBranchNode list \<Rightarrow> node option \<Rightarrow> node stage" where
  "select_value is_kind S n bs ev =
    bindS (selectWhenValue bs ev) (\<lambda>r.
    case r of
      None \<Rightarrow> retS n
    | Some None \<Rightarrow> panicS
    | Some (Some m) \<Rightarrow> if is_kind m then S m else panicS)"

definition expression_step ::
  "(node \<Rightarrow> node list stage) \<Rightarrow> selection \<Rightarrow> selection \<Rightarrow> node expression_node \<Rightarrow> node expression_node stage"
where
  "expression_step N E T e =
    (case e of
       UnaryOpNode op x l \<Rightarrow> bindS (E x) (\<lambda>x. retS (UnaryOpNode op x l))
     | BinaryOpNode op x y l \<Rightarrow>
         bindS (E x) (\<lambda>x. bindS (E y) (\<lambda>y. retS (BinaryOpNode op x y l)))
     | FunctionCallNode c n as v l \<Rightarrow>
         bindS (E c) (\<lambda>c. bindS (map_stage E as) (\<lambda>as. retS (FunctionCallNode c n as v l)))
     | IndexExprNode x i l \<Rightarrow>
         bindS (E x) (\<lambda>x. bindS (E i) (\<lambda>i. retS (IndexExprNode x i l)))
     | SliceExprNode x b e l \<Rightarrow>
         bindS (E x) (\<lambda>x.
         bindS (option_stage E b) (\<lambda>b.
         bindS (option_stage E e) (\<lambda>e. retS (SliceExprNode x b e l))))
     | CastNode t x l \<Rightarrow> bindS (T t) (\<lambda>t. bindS (E x) (\<lambda>x. retS (CastNode t x l)))
     | StructLiteralNode n fs ms r l \<Rightarrow>
         bindS (select_fields E fs) (\<lambda>fs. retS (StructLiteralNode n fs ms r l))
     | SliceLiteralNode es v a l \<Rightarrow>
         bindS (map_stage E es) (\<lambda>es.
         bindS (option_stage E v) (\<lambda>v.
         bindS (option_stage E a) (\<lambda>a. retS (SliceLiteralNode es v a l))))
     | _ \<Rightarrow> compound_step N E e)"

definition type_step :: "selection \<Rightarrow> selection \<Rightarrow> node type_node \<Rightarrow> node type_node stage" where
  "type_step E T t =
    (case t of
       NamedTypeNode m n as c k l \<Rightarrow>
         bindS (map_stage T as) (\<lambda>as. retS (NamedTypeNode m n as c k l))
     | ReprTypeNode x l \<Rightarrow> bindS (T x) (\<lambda>x. retS (ReprTypeNode x l))
     | PointerTypeNode x m l \<Rightarrow> bindS (T x) (\<lambda>x. retS (PointerTypeNode x m l))
     | SliceTypeNode x m l \<Rightarrow> bindS (T x) (\<lambda>x. retS (SliceTypeNode x m l))
     | ArrayTypeNode x n l \<Rightarrow>
         bindS (T x) (\<lambda>x.
         bindS (E n) (\<lambda>n.
         bindS (readS (\<lambda>s. se_bindings (sel_env s))) (\<lambda>bindings.
         retS (ArrayTypeNode x (inlineStageExpression bindings n) l))))
     | DynTypeNode x m l \<Rightarrow> bindS (T x) (\<lambda>x. retS (DynTypeNode x m l))
     | FunctionTypeNode ps r v l \<Rightarrow>
         bindS (map_stage T ps) (\<lambda>ps. bindS (T r) (\<lambda>r. retS (FunctionTypeNode ps r v l)))
     | MultipleReturnTypeNode ts l \<Rightarrow>
         bindS (map_stage T ts) (\<lambda>ts. retS (MultipleReturnTypeNode ts l))
     | StructTypeNode fs l attrs \<Rightarrow>
         bindS (select_fields T fs) (\<lambda>fs. retS (StructTypeNode fs l attrs))
     | FlagsTypeNode u vs xs l \<Rightarrow> bindS (T u) (\<lambda>u. retS (FlagsTypeNode u vs xs l))
     | UnionTypeNode tag auto fs vs l \<Rightarrow>
         bindS (option_stage T tag) (\<lambda>tag.
         bindS (select_fields T fs) (\<lambda>fs.
         bindS (map_stage (\<lambda>v. bindS (select_fields T (variant_Fields v)) (\<lambda>fs.
             retS (TaggedUnionVariantNode (variant_Name v) fs (variant_Loc v)))) vs) (\<lambda>vs.
         retS (UnionTypeNode tag auto fs vs l))))
     | _ \<Rightarrow> retS t)"

definition expression_node_step ::
  "(node \<Rightarrow> node list stage) \<Rightarrow> selection \<Rightarrow> selection \<Rightarrow> selection" where
  "expression_node_step N E T n =
    (case n of
       WhenNode bs eb ev c l \<Rightarrow> select_value is_expression E n bs ev
     | Expr e \<Rightarrow> bindS (expression_step N E T e) (\<lambda>e. retS (Expr e))
     | _ \<Rightarrow> retS n)"

definition type_node_step :: "selection \<Rightarrow> selection \<Rightarrow> selection" where
  "type_node_step E T n =
    (case n of
       WhenNode bs eb ev c l \<Rightarrow> select_value is_type T n bs ev
     | Type t \<Rightarrow> bindS (type_step E T t) (\<lambda>t. retS (Type t))
     | _ \<Rightarrow> retS n)"

section \<open>The recursion\<close>

text \<open>The number bounds the depth; a depth above the size of the tree is enough.\<close>

fun selectNode :: "alias_store \<Rightarrow> nat \<Rightarrow> node \<Rightarrow> node list stage"
  and selectExpression :: "alias_store \<Rightarrow> nat \<Rightarrow> selection"
  and selectType :: "alias_store \<Rightarrow> nat \<Rightarrow> selection" where
  "selectNode \<sigma> 0 n = (\<lambda>s. None)"
| "selectNode \<sigma> (Suc k) n =
    node_step \<sigma> (selectNode \<sigma> k) (selectExpression \<sigma> k) (selectType \<sigma> k) n"
| "selectExpression \<sigma> 0 n = (\<lambda>s. None)"
| "selectExpression \<sigma> (Suc k) n =
    expression_node_step (selectNode \<sigma> k) (selectExpression \<sigma> k) (selectType \<sigma> k) n"
| "selectType \<sigma> 0 n = (\<lambda>s. None)"
| "selectType \<sigma> (Suc k) n = type_node_step (selectExpression \<sigma> k) (selectType \<sigma> k) n"

end
