(* ===== verification/Stage.thy ===== *)
theory Stage
  imports Stage_Select Parser_Trees Eval
begin

text \<open>
  Compile-time selection of the files of a module, \<^verbatim>\<open>src/loader/staging.go\<close>: the bindings known
  before selection, the part of the module that goes through semantic analysis and the evaluator of
  the intermediate representation when expressions are left unresolved, the two passes of
  selection, and the return of the selected declarations to their files.
\<close>

section \<open>Bindings known before selection\<close>

text \<open>The compile-time bindings of a body, each with its name and value.\<close>

fun comptime_binding :: "node \<Rightarrow> (string \<times> node option) option" where
  "comptime_binding (Stmt (DeclarationNode name nl m pub t v c attrs l)) =
    (if c then Some (name, v) else None)"
| "comptime_binding n = None"

definition comptime_bindings :: "node list \<Rightarrow> (string \<times> node option) list" where
  "comptime_bindings body = List.map_filter comptime_binding body"

definition with_binding :: "string \<Rightarrow> stageValue \<Rightarrow> stage_env \<Rightarrow> stage_env" where
  "with_binding name v s = s\<lparr>se_bindings := (se_bindings s)(name \<mapsto> v)\<rparr>"

text \<open>
  One pass over the remaining bindings. The source ranges over a map, in any order; errors count as
  not resolved here.
\<close>

fun prime_pass ::
  "stage_env \<Rightarrow> (string \<times> node option) list \<Rightarrow> stage_env \<times> (string \<times> node option) list" where
  "prime_pass s [] = (s, [])"
| "prime_pass s ((name, v) # ds) =
    (case evaluate s v of
       Inr (Some w) \<Rightarrow> prime_pass (with_binding name w s) ds
     | _ \<Rightarrow> (case prime_pass s ds of (s', rest) \<Rightarrow> (s', (name, v) # rest)))"

lemma prime_pass_length: "length (snd (prime_pass s ds)) \<le> length ds"
  by (induction s ds rule: prime_pass.induct)
    (auto split: sum.splits option.splits prod.splits intro: le_SucI)

lemma prime_pass_shorter:
  "prime_pass s ds = (s', rest) \<Longrightarrow> length rest \<noteq> length ds \<Longrightarrow> length rest < length ds"
  using prime_pass_length [of s ds] by simp

function prime_loop :: "stage_env \<Rightarrow> (string \<times> node option) list \<Rightarrow> stage_env" where
  "prime_loop s ds =
    (case prime_pass s ds of (s', rest) \<Rightarrow>
       if length rest = length ds then s' else prime_loop s' rest)"
  by pat_completeness auto
termination
  by (relation "measure (\<lambda>(s, ds). length ds)") (auto split: prod.splits dest: prime_pass_shorter)

declare prime_loop.simps [simp del]

definition primeBindings :: "stage_env \<Rightarrow> node list \<Rightarrow> stage_env" where
  "primeBindings s body = prime_loop s (comptime_bindings body)"

section \<open>The functions an expression calls\<close>

definition optional_node :: "node option \<Rightarrow> node list" where
  "optional_node x = (case x of None \<Rightarrow> [] | Some n \<Rightarrow> [n])"

fun expression_calls :: "node expression_node \<Rightarrow> node list" where
  "expression_calls (FunctionCallNode c n as v l) = c # as"
| "expression_calls (BlockNode ns x l) = ns"
| "expression_calls (IfNode b bs e x l) =
    [fst b, snd b] @ concat (map (\<lambda>(c, b). [c, b]) bs) @ optional_node e"
| "expression_calls (MatchNode ss b bl as x l) =
    ss @ concat (map (\<lambda>a. optional_node (arm_Guard a) @ [arm_Body a]) as)"
| "expression_calls (UnaryOpNode op x l) = [x]"
| "expression_calls (BinaryOpNode op x y l) = [x, y]"
| "expression_calls (IndexExprNode x i l) = [x, i]"
| "expression_calls (SliceExprNode x b e l) = x # optional_node b @ optional_node e"
| "expression_calls (CastNode t x l) = [x]"
| "expression_calls (StructLiteralNode n fs ms r l) = map snd fs"
| "expression_calls (SliceLiteralNode es v a l) = es @ optional_node v @ optional_node a"
| "expression_calls e = []"

fun plain_calls :: "node plain_node \<Rightarrow> node list" where
  "plain_calls (DeclarationNode name nl m pub t v c attrs l) = optional_node v"
| "plain_calls (MultiDeclarationNode ns nls m v l) = [v]"
| "plain_calls (AssignmentNode a as v c l) = [v]"
| "plain_calls (ControlKeywordNode k v vs l) = optional_node v @ vs"
| "plain_calls (DeferNode n l) = [n]"
| "plain_calls (ForNode ns b l) = ns @ [b]"
| "plain_calls (RangeForNode n nl start stop i r b l) = [start, stop, b]"
| "plain_calls (ForEachNode n nl ds k i il e r b l) = [e, b]"
| "plain_calls p = []"

fun call_nodes :: "node \<Rightarrow> node list" where
  "call_nodes (Expr e) = expression_calls e"
| "call_nodes (Stmt p) = plain_calls p"
| "call_nodes n = []"

fun called_name :: "node \<Rightarrow> string list" where
  "called_name (Expr (FunctionCallNode (Expr (IdentifierNode name m as l)) n args v l')) = [name]"
| "called_name n = []"

lemma arm_members:
  "(expression_form, arm_Body a) \<in> set (arm_parts a)"
  "arm_Guard a = Some m \<Longrightarrow> (expression_form, m) \<in> set (arm_parts a)"
  by (cases a; simp add: optional_def)+

lemma call_nodes_parts: "m \<in> set (call_nodes n) \<Longrightarrow> \<exists>P. (P, m) \<in> set (parts n)"
proof (cases n)
  case (Expr e)
  then show "m \<in> set (call_nodes n) \<Longrightarrow> ?thesis"
    by (cases e) (auto simp: optional_node_def optional_def each_def branch_parts_def
        split: option.splits dest!: sym [of "Some m"], (blast intro: arm_members)+)
next
  case (Stmt s)
  then show "m \<in> set (call_nodes n) \<Longrightarrow> ?thesis"
    by (cases s) (auto simp: optional_node_def optional_def each_def split: option.splits)
qed auto

function collectStageCalls :: "node \<Rightarrow> string list" where
  "collectStageCalls n = called_name n @ concat (map collectStageCalls (call_nodes n))"
  by pat_completeness auto
termination
  by (relation "measure size") (auto dest: call_nodes_parts parts_size)

declare collectStageCalls.simps [simp del]

fun function_of :: "node \<Rightarrow> node FunctionDef option" where
  "function_of (Stmt (FunctionDefNode f)) = Some f"
| "function_of n = None"

text \<open>
  The functions that are called, by name, from the names and from the functions found so far. The
  source repeats passes over the names, in any order, until nothing is found.
\<close>

definition body_calls :: "node FunctionDef \<Rightarrow> string list" where
  "body_calls f = concat (map collectStageCalls (optional_node (fd_Body f)))"

function reach_loop ::
  "node FunctionDef list \<Rightarrow> string list \<Rightarrow> node FunctionDef list \<Rightarrow> node FunctionDef list" where
  "reach_loop defs names found =
    (let new = filter (\<lambda>f. fd_Name f \<in> set names \<and> f \<notin> set found) defs
     in if new = [] then found
        else reach_loop defs (names @ concat (map body_calls new)) (found @ new))"
  by pat_completeness auto
termination
proof (relation "measure (\<lambda>(defs, names, found). length (filter (\<lambda>f. f \<notin> set found) defs))", simp)
  fix defs :: "node FunctionDef list" and names found new
  assume new: "new = filter (\<lambda>f. fd_Name f \<in> set names \<and> f \<notin> set found) defs" "new \<noteq> []"
  obtain f where "f \<in> set new" using list.set_sel(1) [OF new(2)] by blast
  with new(1) have f: "f \<in> set defs" "f \<notin> set found" "f \<in> set new" by auto
  have "length (filter (\<lambda>g. g \<notin> set (found @ new)) defs) < length (filter (\<lambda>g. g \<notin> set found) defs)"
    using f length_filter_less [of f "filter (\<lambda>g. g \<notin> set found) defs" "\<lambda>g. g \<notin> set new"]
    by (simp add: conj_commute)
  then show "((defs, names @ concat (map body_calls new), found @ new), defs, names, found)
      \<in> measure (\<lambda>(defs, names, found). length (filter (\<lambda>f. f \<notin> set found) defs))"
    by simp
qed

declare reach_loop.simps [simp del]

definition reachableStageFunctions :: "node list \<Rightarrow> node option list \<Rightarrow> node FunctionDef list" where
  "reachableStageFunctions body unresolved =
    reach_loop (List.map_filter function_of body)
      (concat (map (\<lambda>x. concat (map collectStageCalls (optional_node x))) unresolved)) []"

section \<open>What is left unresolved\<close>

text \<open>
  What staging takes from the rest of the compiler: whether the dependencies of the module are
  supplied; the machine of the evaluator; the compilation of a tree (\<open>stageModules\<close>, semantic
  analysis and IR generation on a copy of it), which gives modules of intermediate code and the
  name of the module's initializer, is refused with an error, panics, or does not return; the
  order in which a Go map of globals is visited; and the texts of a float and of an error.
  What runs the compiled code is the evaluator of the development.
\<close>

record compiled =
  co_Modules :: "Module list"
  co_Initializer :: string

datatype 'a attempt = Made 'a | Refused parse_error | Crashed

record stage_host =
  sh_environment :: bool
  sh_machine :: machine
  sh_compile :: "node \<Rightarrow> compiled attempt run"
  sh_order :: "(string \<rightharpoonup> EvalValue) \<Rightarrow> string list"
  sh_FormatFloat :: "fp \<Rightarrow> string"
  sh_Error :: "eval_error \<Rightarrow> string"

text \<open>The part of a body that is evaluated: the first module clause, without its attributes.\<close>

fun staged_body :: "bool \<Rightarrow> node FunctionDef list \<Rightarrow> bool \<Rightarrow> node list \<Rightarrow> node list" where
  "staged_body environment reachable hasModule [] = []"
| "staged_body environment reachable hasModule (n # ns) =
    (case n of
       WhenNode bs eb ev c l \<Rightarrow> staged_body environment reachable hasModule ns
     | Stmt (CompilerDirectiveNode name c m nl l) \<Rightarrow> staged_body environment reachable hasModule ns
     | Stmt (ImportNode ms as l) \<Rightarrow>
         (if environment then [n] else []) @ staged_body environment reachable hasModule ns
     | Stmt (ModuleNode name attrs l) \<Rightarrow>
         (if hasModule then [] else [Stmt (ModuleNode name [] l)]) @
         staged_body environment reachable True ns
     | Stmt (FunctionDefNode f) \<Rightarrow>
         (if f \<in> set reachable then [n] else []) @ staged_body environment reachable hasModule ns
     | _ \<Rightarrow> n # staged_body environment reachable hasModule ns)"

definition stage_name :: "nat \<Rightarrow> string" where
  "stage_name i = ''__qk_stage_'' @ decimal i"

definition stage_declaration :: "nat \<times> node \<Rightarrow> node" where
  "stage_declaration = (\<lambda>(i, n).
    Stmt (DeclarationNode (stage_name i) (GetLoc n) False False None (Some n) True [] (GetLoc n)))"

text \<open>
  The error of a run of the initializer. Where the evaluator meets something that is not available
  at compile time, the report is at the outermost call and names the cause, preferably in the
  same file; the location of its note is left out.
\<close>

definition sameStageLocation :: "Location \<Rightarrow> Location \<Rightarrow> bool" where
  "sameStageLocation l r \<longleftrightarrow> FilePath l = FilePath r \<and> Offset l = Offset r \<and> EndOffset l = EndOffset r"

definition unavailable_cause :: "unavailable \<Rightarrow> SourceOrigin" where
  "unavailable_cause u =
    (let root = last (un_CallStack u);
         cause = \<lparr>so_Name = un_SourceName u, so_Loc = un_SourceLoc u\<rparr>
     in if FilePath (so_Loc cause) = FilePath (so_Loc root) then cause
        else case find (\<lambda>c. FilePath (so_Loc c) = FilePath (so_Loc root)) (butlast (un_CallStack u)) of
               Some c \<Rightarrow> c
             | None \<Rightarrow> cause)"

definition stageUnavailableDiagnostic :: "(eval_error \<Rightarrow> string) \<Rightarrow> unavailable \<Rightarrow> parse_error" where
  "stageUnavailableDiagnostic text_of u =
    (if un_CallStack u = [] then
       ParseError (un_SourceLoc u)
         (if un_SourceName u \<noteq> [] then un_SourceName u @ '' is not available in a compile-time context''
          else text_of (Unavailable u)) []
     else
       let root = last (un_CallStack u); cause = unavailable_cause u
       in if sameStageLocation (so_Loc root) (so_Loc cause) then
            ParseError (so_Loc cause) ''%s is not available in a compile-time context'' [so_Name cause]
          else
            ParseError (so_Loc root) ''%s cannot be evaluated at compile time'' [so_Name root, so_Name cause])"

definition stage_run_error ::
  "(eval_error \<Rightarrow> string) \<Rightarrow> (nat \<times> node) list \<Rightarrow> eval_error \<Rightarrow> parse_error" where
  "stage_run_error text_of exprs err =
    (let other = ParseError
           (case exprs of [(i, n)] \<Rightarrow> GetLoc n | _ \<Rightarrow> zero_Location) (text_of err) []
     in case as_unavailable err of
          Some u \<Rightarrow> if FilePath (un_SourceLoc u) \<noteq> [] then stageUnavailableDiagnostic text_of u else other
        | None \<Rightarrow> other)"

text \<open>The evaluator on the compiled modules, with its globals after the initializer has run.\<close>

definition run_initializer ::
  "machine \<Rightarrow> compiled \<Rightarrow> (eval_error + (string \<rightharpoonup> EvalValue)) run" where
  "run_initializer M c = do {
     e \<leftarrow> NewEvaluator (mc_aliases M) (co_Modules c);
     if co_Initializer c = [] then Some (Inr (ee_Globals e))
     else do {
       p \<leftarrow> Run M (co_Initializer c) [] e;
       Some (case fst p of Inl err \<Rightarrow> Inl err | Inr v \<Rightarrow> Inr (ee_Globals (snd p))) } }"

definition visit_globals :: "(string \<rightharpoonup> EvalValue) \<Rightarrow> string list \<Rightarrow> (string \<times> EvalValue) list" where
  "visit_globals globals names = List.map_filter (\<lambda>x. map_option (Pair x) (globals x)) names"

text \<open>Compilation and evaluation of a tree; the references in its types live in the store \<open>\<sigma>\<close>.\<close>

definition evaluate_tree ::
  "stage_host \<Rightarrow> alias_store \<Rightarrow> (nat \<times> node) list \<Rightarrow> node \<Rightarrow> (string \<times> EvalValue) list attempt run" where
  "evaluate_tree host \<sigma> exprs staged = do {
     attempt \<leftarrow> sh_compile host staged;
     case attempt of
       Refused e \<Rightarrow> Some (Refused e)
     | Crashed \<Rightarrow> Some Crashed
     | Made c \<Rightarrow> do {
         r \<leftarrow> run_initializer ((sh_machine host)\<lparr>mc_aliases := \<sigma>\<rparr>) c;
         Some (case r of
                 Inl err \<Rightarrow> Refused (stage_run_error (sh_Error host) exprs err)
               | Inr globals \<Rightarrow> Made (visit_globals globals (sh_order host globals))) } }"

text \<open>The globals are in the order in which the source ranges over them, which is any.\<close>

definition findEvaluatedGlobal :: "(string \<times> EvalValue) list \<Rightarrow> string \<Rightarrow> EvalValue option" where
  "findEvaluatedGlobal globals name =
    map_option snd (find (\<lambda>(n, v). starts_with (rev (''_global_'' @ name)) (rev n)) globals)"

definition note_value :: "node option \<Rightarrow> stageValue \<Rightarrow> stage_env \<Rightarrow> stage_env" where
  "note_value x v s = s\<lparr>se_evaluated := (se_evaluated s)(x \<mapsto> v)\<rparr>"

fun note_expressions ::
  "(fp \<Rightarrow> string) \<Rightarrow> (string \<times> EvalValue) list \<Rightarrow> (nat \<times> node) list \<Rightarrow> stage_env \<Rightarrow> parse_error + stage_env"
where
  "note_expressions fmt globals [] s = Inr s"
| "note_expressions fmt globals ((i, n) # ns) s =
    (case findEvaluatedGlobal globals (stage_name i) of
       None \<Rightarrow> Inl (ParseError (GetLoc n) ''compile-time expression did not produce a value'' [])
     | Some v \<Rightarrow>
         note_expressions fmt globals ns (note_value (Some n) (stageValueFromIR fmt v) s))"

fun note_bindings ::
  "(fp \<Rightarrow> string) \<Rightarrow> (string \<times> EvalValue) list \<Rightarrow> (string \<times> node option) list \<Rightarrow> stage_env \<Rightarrow> stage_env"
where
  "note_bindings fmt globals [] s = s"
| "note_bindings fmt globals ((name, v) # ds) s =
    note_bindings fmt globals ds
      (case findEvaluatedGlobal globals name of
         None \<Rightarrow> s
       | Some w \<Rightarrow> note_value v (stageValueFromIR fmt w) (with_binding name (stageValueFromIR fmt w) s))"

text \<open>The tree that is compiled: a part of the body, and a binding for each unresolved expression.\<close>

definition staged_tree :: "stage_host \<Rightarrow> Location \<Rightarrow> node list \<Rightarrow> node option list \<Rightarrow> node" where
  "staged_tree host loc body unresolved =
    Stmt (RootNode
      (staged_body (sh_environment host) (reachableStageFunctions body unresolved) False body @
       map stage_declaration (enumerate 0 (map the unresolved))) loc)"

text \<open>The location of an unresolved expression that is nil is taken, which panics.\<close>

definition evaluateUnresolved :: "stage_host \<Rightarrow> alias_store \<Rightarrow> Location \<Rightarrow> node list \<Rightarrow> unit stage" where
  "evaluateUnresolved host \<sigma> loc body =
    bindS (readS sel_unresolved) (\<lambda>unresolved.
    if None \<in> set unresolved then panicS
    else
      let exprs = enumerate 0 (map the unresolved) in
      case evaluate_tree host \<sigma> exprs (staged_tree host loc body unresolved) of
        None \<Rightarrow> (\<lambda>s. None)
      | Some Crashed \<Rightarrow> panicS
      | Some (Refused e) \<Rightarrow> failS e
      | Some (Made globals) \<Rightarrow>
          bindS (readS sel_env) (\<lambda>s.
          case note_expressions (sh_FormatFloat host) globals exprs s of
            Inl e \<Rightarrow> failS e
          | Inr s' \<Rightarrow>
              changeS (\<lambda>st. st\<lparr>sel_env :=
                note_bindings (sh_FormatFloat host) globals (comptime_bindings body) s'\<rparr>)))"

section \<open>Selection\<close>

definition stage_depth :: "node list \<Rightarrow> nat" where
  "stage_depth body = Suc (size_list size body)"

definition select_pass :: "alias_store \<Rightarrow> node list \<Rightarrow> node list stage" where
  "select_pass \<sigma> body = selectBody (selectNode \<sigma> (stage_depth body)) body"

definition new_selector :: "StageConfig \<Rightarrow> node list \<Rightarrow> selector" where
  "new_selector cfg body =
    \<lparr>sel_env = primeBindings \<lparr>se_config = cfg, se_bindings = Map.empty, se_evaluated = Map.empty\<rparr> body,
     sel_unresolved = [], sel_needsIR = False\<rparr>"

definition select_passes :: "stage_host \<Rightarrow> alias_store \<Rightarrow> Location \<Rightarrow> node list \<Rightarrow> node list stage" where
  "select_passes host \<sigma> loc body =
    bindS (select_pass \<sigma> body) (\<lambda>body.
    bindS (readS sel_needsIR) (\<lambda>needsIR.
    if \<not> needsIR then retS body
    else
      thenS (evaluateUnresolved host \<sigma> loc body) (
      thenS (changeS (\<lambda>s. s\<lparr>sel_needsIR := False, sel_unresolved := []\<rparr>)) (
      bindS (select_pass \<sigma> body) (\<lambda>body.
      bindS (readS sel_needsIR) (\<lambda>needsIR.
      if needsIR then
        failS (ParseError zero_Location
          ''compile-time selection left an unresolved when condition'' [])
      else retS body))))))"

definition selectCompileTime ::
  "stage_host \<Rightarrow> alias_store \<Rightarrow> StageConfig \<Rightarrow> Location \<Rightarrow> node list \<Rightarrow> (node list \<times> selector) staged run"
where
  "selectCompileTime host \<sigma> cfg loc body = select_passes host \<sigma> loc body (new_selector cfg body)"

section \<open>The files of a module\<close>

text \<open>A root is its location and its body; later roots of a file hide earlier ones.\<close>

type_synonym roots = "(Location \<times> node list) list"

fun owner_of :: "nat \<Rightarrow> roots \<Rightarrow> string \<Rightarrow> nat option" where
  "owner_of i [] path = None"
| "owner_of i ((l, b) # roots) path =
    (case owner_of (Suc i) roots path of
       Some j \<Rightarrow> Some j
     | None \<Rightarrow> if FilePath l = path then Some i else None)"

definition file_owner :: "roots \<Rightarrow> node \<Rightarrow> nat" where
  "file_owner roots n = (case owner_of 0 roots (FilePath (GetLoc n)) of Some i \<Rightarrow> i | None \<Rightarrow> 0)"

definition return_nodes :: "roots \<Rightarrow> node list \<Rightarrow> roots" where
  "return_nodes roots body =
    map (\<lambda>(i, l, b). (l, filter (\<lambda>n. file_owner roots n = i) body)) (enumerate 0 roots)"

definition SelectCompileTimeRoots ::
  "stage_host \<Rightarrow> alias_store \<Rightarrow> StageConfig \<Rightarrow> roots \<Rightarrow> roots staged run" where
  "SelectCompileTimeRoots host \<sigma> cfg roots =
    (if roots = [] then Some (Selected roots)
     else
       map_option (\<lambda>r.
         case r of
           Selected (body, s) \<Rightarrow> Selected (return_nodes roots body)
         | StageFailed e \<Rightarrow> StageFailed e
         | StagePanicked \<Rightarrow> StagePanicked)
         (selectCompileTime host \<sigma> cfg (fst (hd roots)) (concat (map snd roots))))"

end
