(* ===== verification/Stage_Typed.thy ===== *)
theory Stage_Typed
  imports Stage Parser_Typed
begin

text \<open>
  Compile-time selection keeps the trees of the parser well formed, always ends, and panics
  only on conditionals and bindings that are incomplete. \<open>ensures strict \<sigma> Q m\<close> is total correctness:
  from every state with values of known types, \<open>m\<close> ends with an error, or with a result that
  satisfies \<open>Q\<close>, or, when not \<open>strict\<close>, with a panic.
\<close>

named_theorems ensures \<open>total correctness of selection methods\<close>

section \<open>States\<close>

text \<open>The type of a value has an underlying type, which is what the type of a binding is taken from.\<close>

definition known_value :: "alias_store \<Rightarrow> stageValue \<Rightarrow> bool" where
  "known_value \<sigma> v \<longleftrightarrow> (\<forall>t. stage_type v = Some t \<longrightarrow> Underlying \<sigma> t \<noteq> None)"

definition env_ok :: "alias_store \<Rightarrow> stage_env \<Rightarrow> bool" where
  "env_ok \<sigma> s \<longleftrightarrow>
    (\<forall>x v. se_bindings s x = Some v \<longrightarrow> known_value \<sigma> v) \<and>
    (\<forall>x v. se_evaluated s x = Some v \<longrightarrow> known_value \<sigma> v)"

definition selector_ok :: "bool \<Rightarrow> alias_store \<Rightarrow> selector \<Rightarrow> bool" where
  "selector_ok strict \<sigma> s \<longleftrightarrow>
    env_ok \<sigma> (sel_env s) \<and> (strict \<longrightarrow> None \<notin> set (sel_unresolved s))"

lemma untyped_value: "stage_type v = None \<Longrightarrow> known_value \<sigma> v"
  by (simp add: known_value_def)

lemma target_values_untyped: "targetValue cfg x = Some v \<Longrightarrow> stage_type v = None"
  by (simp only: targetValue_def Let_def split: if_split_asm)
    (simp_all only: option.inject option.distinct, (erule subst, simp only: stage_type.simps)+)

lemma named_value_ok: "env_ok \<sigma> s \<Longrightarrow> named_value s x = Some v \<Longrightarrow> known_value \<sigma> v"
  by (auto simp: named_value_def env_ok_def dest: target_values_untyped [THEN untyped_value]
      split: option.splits)

lemma unary_operation_ok:
  "known_value \<sigma> v \<Longrightarrow> unary_operation op l v = Inr (Some w) \<Longrightarrow> known_value \<sigma> w"
  by (auto simp: unary_operation_def known_value_def resolved_integer_def stage_fail_def
      split: UnaryOpKind.splits stageValue.splits)

lemma binary_operation_ok: "binary_operation op l v v' = Inr (Some w) \<Longrightarrow> known_value \<sigma> w"
  by (rule untyped_value)
    (auto simp: binary_operation_def resolved_integer_def resolved_bool_def stage_fail_def
      split: if_splits option.splits)

lemma then_valueD:
  "then_value r k = Inr (Some w) \<Longrightarrow> \<exists>v. r = Inr (Some v) \<and> k v = Inr (Some w)"
  by (auto simp: then_value_def split: sum.splits option.splits)

lemma evaluate_node_ok:
  "env_ok \<sigma> s \<Longrightarrow> evaluate_node s n = Inr (Some w) \<Longrightarrow> known_value \<sigma> w"
proof (induction s n arbitrary: w rule: evaluate_node.induct)
  case (1 s n)
  show ?case
  proof (cases "se_evaluated s (Some n)")
    case (Some v)
    then show ?thesis using 1(4,5) by (auto simp: evaluate_node.simps [of s n] env_ok_def)
  next
    case None
    note step = evaluate_node.simps [of s n, unfolded None option.case]
    show ?thesis
    proof (cases n)
      case (Expr e)
      show ?thesis
        using 1 None step unfolding Expr
        by (cases e) (auto simp: untyped_value stage_fail_def resolved_integer_def
            dest!: then_valueD then_valueD [OF sym] intro: named_value_ok unary_operation_ok binary_operation_ok
            split: option.splits)
    qed (use 1(5) step in simp_all)
  qed
qed

lemma evaluate_ok: "env_ok \<sigma> s \<Longrightarrow> evaluate s x = Inr (Some w) \<Longrightarrow> known_value \<sigma> w"
  by (cases x) (auto simp: evaluate_def env_ok_def intro: evaluate_node_ok)

lemma with_binding_ok: "env_ok \<sigma> s \<Longrightarrow> known_value \<sigma> v \<Longrightarrow> env_ok \<sigma> (with_binding x v s)"
  by (simp add: env_ok_def with_binding_def)

section \<open>Rules\<close>

definition ensures :: "bool \<Rightarrow> alias_store \<Rightarrow> ('a \<Rightarrow> bool) \<Rightarrow> 'a stage \<Rightarrow> bool" where
  "ensures strict \<sigma> Q m \<longleftrightarrow> (\<forall>s. selector_ok strict \<sigma> s \<longrightarrow>
    (case m s of
       None \<Rightarrow> False
     | Some (Selected (a, s')) \<Rightarrow> selector_ok strict \<sigma> s' \<and> Q a
     | Some (StageFailed e) \<Rightarrow> True
     | Some StagePanicked \<Rightarrow> \<not> strict))"

lemma ensures_imp: "ensures strict \<sigma> P m \<Longrightarrow> (\<And>a. P a \<Longrightarrow> Q a) \<Longrightarrow> ensures strict \<sigma> Q m"
  by (fastforce simp: ensures_def split: option.splits staged.splits)

lemma ensures_ret [ensures]: "Q a \<Longrightarrow> ensures strict \<sigma> Q (retS a)"
  by (simp add: ensures_def retS_def)

lemma ensures_fail [ensures]: "ensures strict \<sigma> Q (failS e)"
  by (simp add: ensures_def failS_def)

lemma ensures_panic [ensures]: "\<not> strict \<Longrightarrow> ensures strict \<sigma> Q panicS"
  by (simp add: ensures_def panicS_def)

lemma ensures_bind [ensures]:
  assumes "ensures strict \<sigma> (\<lambda>a. ensures strict \<sigma> Q (k a)) m"
  shows "ensures strict \<sigma> Q (bindS m k)"
  unfolding ensures_def
proof (intro allI impI)
  fix s assume s: "selector_ok strict \<sigma> s"
  with assms have "case m s of None \<Rightarrow> False
      | Some (Selected (a, s')) \<Rightarrow> selector_ok strict \<sigma> s' \<and> ensures strict \<sigma> Q (k a)
      | Some (StageFailed e) \<Rightarrow> True | Some StagePanicked \<Rightarrow> \<not> strict"
    unfolding ensures_def by blast
  then show "case bindS m k s of None \<Rightarrow> False
      | Some (Selected (a, s')) \<Rightarrow> selector_ok strict \<sigma> s' \<and> Q a
      | Some (StageFailed e) \<Rightarrow> True | Some StagePanicked \<Rightarrow> \<not> strict"
    unfolding bindS_def [of m k s]
    by (cases "m s"; cases "the (m s)") (auto simp: ensures_def)
qed

lemma ensures_then [ensures]:
  "ensures strict \<sigma> (\<lambda>_. ensures strict \<sigma> Q k) m \<Longrightarrow> ensures strict \<sigma> Q (thenS m k)"
  unfolding thenS_def by (intro ensures)

lemma ensures_read [ensures]: "(\<And>s. Q (f s)) \<Longrightarrow> ensures strict \<sigma> Q (readS f)"
  by (simp add: ensures_def readS_def)

lemma ensures_if [ensures]:
  "\<lbrakk>c \<Longrightarrow> ensures strict \<sigma> Q m; \<not> c \<Longrightarrow> ensures strict \<sigma> Q m'\<rbrakk>
    \<Longrightarrow> ensures strict \<sigma> Q (if c then m else m')"
  by simp

lemma ensures_prod [ensures]:
  "(\<And>a b. x = (a, b) \<Longrightarrow> ensures strict \<sigma> Q (k a b)) \<Longrightarrow> ensures strict \<sigma> Q (case x of (a, b) \<Rightarrow> k a b)"
  by (cases x) simp

lemma ensures_option [ensures]:
  "\<lbrakk>x = None \<Longrightarrow> ensures strict \<sigma> Q m; \<And>a. x = Some a \<Longrightarrow> ensures strict \<sigma> Q (k a)\<rbrakk>
    \<Longrightarrow> ensures strict \<sigma> Q (case x of None \<Rightarrow> m | Some a \<Rightarrow> k a)"
  by (cases x) simp_all

lemma ensures_bool [ensures]:
  "\<lbrakk>c \<Longrightarrow> ensures strict \<sigma> Q m; \<not> c \<Longrightarrow> ensures strict \<sigma> Q m'\<rbrakk>
    \<Longrightarrow> ensures strict \<sigma> Q (case c of True \<Rightarrow> m | False \<Rightarrow> m')"
  by (cases c) simp_all

lemma ensures_optional [ensures]:
  "\<lbrakk>\<And>a. x = Some a \<Longrightarrow> ensures strict \<sigma> (\<lambda>b. Q (Some b)) (f a); x = None \<Longrightarrow> Q None\<rbrakk>
    \<Longrightarrow> ensures strict \<sigma> Q (option_stage f x)"
  unfolding option_stage_def by (intro ensures) (auto elim: ensures_imp intro: ensures)

lemma ensures_map_all2:
  "(\<And>x. x \<in> set xs \<Longrightarrow> ensures strict \<sigma> (P x) (f x))
    \<Longrightarrow> ensures strict \<sigma> (list_all2 P xs) (map_stage f xs)"
proof (induction xs)
  case (Cons x xs)
  then have "ensures strict \<sigma> (P x) (f x)" "ensures strict \<sigma> (list_all2 P xs) (map_stage f xs)" by auto
  then show ?case
    by (simp, intro ensures) (auto elim!: ensures_imp intro!: ensures)
qed (simp add: ensures)

lemma ensures_map:
  assumes "\<And>x. x \<in> set xs \<Longrightarrow> ensures strict \<sigma> (P x) (f x)" "\<And>ys. list_all2 P xs ys \<Longrightarrow> Q ys"
  shows "ensures strict \<sigma> Q (map_stage f xs)"
  using ensures_map_all2 [OF assms(1)] assms(2) by (rule ensures_imp)

lemma all2_set: "list_all2 P xs ys \<Longrightarrow> (\<And>x y. x \<in> set xs \<Longrightarrow> P x y \<Longrightarrow> S y) \<Longrightarrow> \<forall>y \<in> set ys. S y"
  by (metis in_set_conv_nth list_all2_conv_all_nth nth_mem)

lemma all2_last: "list_all2 P xs ys \<Longrightarrow> xs \<noteq> [] \<Longrightarrow> ys \<noteq> [] \<and> P (last xs) (last ys)"
  by (induction rule: list_all2_induct) (auto split: if_splits)

lemma all2_hd: "list_all2 P xs ys \<Longrightarrow> xs \<noteq> [] \<Longrightarrow> ys \<noteq> [] \<and> P (hd xs) (hd ys)"
  by (cases xs) (auto simp: list_all2_Cons1)

section \<open>Conditions\<close>

lemma ensures_evaluate [ensures]:
  "\<lbrakk>Q None; \<And>w. known_value \<sigma> w \<Longrightarrow> Q (Some w)\<rbrakk> \<Longrightarrow> ensures strict \<sigma> Q (evaluateS x)"
  unfolding ensures_def
proof (intro allI impI)
  fix s assume Q: "Q None" "\<And>w. known_value \<sigma> w \<Longrightarrow> Q (Some w)" and s: "selector_ok strict \<sigma> s"
  show "case evaluateS x s of None \<Rightarrow> False | Some (Selected (a, s')) \<Rightarrow> selector_ok strict \<sigma> s' \<and> Q a
      | Some (StageFailed e) \<Rightarrow> True | Some StagePanicked \<Rightarrow> \<not> strict"
  proof (cases "evaluate (sel_env s) x")
    case (Inr v)
    then show ?thesis
      using Q s evaluate_ok [of \<sigma> "sel_env s" x]
      by (cases v) (auto simp: evaluateS_def retS_def selector_ok_def)
  qed (simp add: evaluateS_def failS_def)
qed

lemma ensures_mark [ensures]:
  "\<lbrakk>strict \<Longrightarrow> x \<noteq> None; Q ()\<rbrakk> \<Longrightarrow> ensures strict \<sigma> Q (mark_unresolved x)"
  by (auto simp: ensures_def mark_unresolved_def changeS_def selector_ok_def)

lemma ensures_bind_name [ensures]:
  "\<lbrakk>known_value \<sigma> v; Q ()\<rbrakk> \<Longrightarrow> ensures strict \<sigma> Q (bind_name x v)"
  by (auto simp: ensures_def bind_name_def changeS_def selector_ok_def env_ok_def)

lemma ensures_rename [ensures]:
  "\<lbrakk>strict \<Longrightarrow> v' \<noteq> None \<or> v = None; Q ()\<rbrakk> \<Longrightarrow> ensures strict \<sigma> Q (rename_unresolved v v')"
  by (auto simp: ensures_def rename_unresolved_def changeS_def selector_ok_def split: if_splits)

lemma ensures_directive [ensures]:
  "\<lbrakk>strict \<Longrightarrow> name = ''compiler_error'' \<or> c \<noteq> None; Q ()\<rbrakk>
    \<Longrightarrow> ensures strict \<sigma> Q (evaluateDirective name c m nl l)"
  unfolding evaluateDirective_def by (intro ensures) auto

lemma ensures_branch [ensures]: "(\<And>r. Q r) \<Longrightarrow> ensures strict \<sigma> Q (branch_holds m c)"
  unfolding branch_holds_def by (intro ensures) auto

lemma ensures_when [ensures]:
  "\<lbrakk>\<And>b. b \<in> set bs \<Longrightarrow> ensures strict \<sigma> (\<lambda>ns. Q (Some ns)) (body (when_Body b));
    ensures strict \<sigma> (\<lambda>ns. Q (Some ns)) (body eb); Q None\<rbrakk>
    \<Longrightarrow> ensures strict \<sigma> Q (selectWhen body bs eb)"
proof (induction bs)
  case Nil
  then show ?case by (simp, intro ensures) (auto elim: ensures_imp intro: ensures)
next
  case (Cons b bs)
  have "ensures strict \<sigma> (\<lambda>ns. ensures strict \<sigma> Q (retS (Some ns))) (body (when_Body b))"
    using Cons.prems(1) [of b] by (auto elim: ensures_imp intro: ensures)
  then show ?case using Cons by (simp, intro ensures) auto
qed

section \<open>Well-formed trees\<close>

text \<open>
  A conditional in the place of an expression or a type always has a value, which is not a
  directive, and a compile-time binding has a value. The parser does not ask for this.
\<close>

definition has_value :: "node option \<Rightarrow> bool" where
  "has_value v \<longleftrightarrow> (case v of None \<Rightarrow> False | Some n \<Rightarrow> \<not> directive_form n)"

fun decided :: "node \<Rightarrow> bool" where
  "decided (WhenNode bs eb ev c l) =
    (c = WhenExpression \<or> c = WhenType \<longrightarrow>
       has_value ev \<and> list_all (\<lambda>b. has_value (when_Value b)) bs)"
| "decided (Stmt (DeclarationNode name nl m pub t v c attrs l)) = (c \<longrightarrow> v \<noteq> None)"
| "decided n = True"

definition parts_in :: "(node \<Rightarrow> bool) \<Rightarrow> part list \<Rightarrow> bool" where
  "parts_in S ps \<longleftrightarrow> list_all (\<lambda>(Q, m). Q m \<and> S m) ps"

lemma parts_in_simps [simp]:
  "parts_in S []" "parts_in S ((Q, n) # ps) \<longleftrightarrow> (Q n \<and> S n) \<and> parts_in S ps"
  "parts_in S (ps @ qs) \<longleftrightarrow> parts_in S ps \<and> parts_in S qs"
  "parts_in S (each Q ns) \<longleftrightarrow> (\<forall>n \<in> set ns. Q n \<and> S n)"
  "parts_in S (optional Q y) \<longleftrightarrow> (\<forall>n. y = Some n \<longrightarrow> Q n \<and> S n)"
  "parts_in S (concat (map f xs)) \<longleftrightarrow> (\<forall>x \<in> set xs. parts_in S (f x))"
  by (simp_all add: parts_in_def each_def optional_def list_all_iff ball_Un eq_commute [of _ y]
      split: option.split)

lemma parts_in_mono: "parts_in S ps \<Longrightarrow> (\<And>n. S n \<Longrightarrow> S' n) \<Longrightarrow> parts_in S' ps"
  by (auto simp: parts_in_def list_all_iff)

text \<open>
  Well-formed trees of a bounded depth, which is the depth of the recursion that they need.
  Selection does not make trees deeper.
\<close>

primrec deep :: "bool \<Rightarrow> nat \<Rightarrow> node \<Rightarrow> bool" where
  "deep strict 0 n = False"
| "deep strict (Suc h) n =
    (shape n \<and> (strict \<longrightarrow> decided n) \<and> parts_in (deep strict h) (parts n))"

declare deep.simps(2) [simp del]

lemmas deep_simps [simp] =
  deep.simps(2) [of strict h "Type t" for strict h t] deep.simps(2) [of strict h "Expr e" for strict h e]
  deep.simps(2) [of strict h "Stmt s" for strict h s]

lemma deep_Suc: "deep strict h n \<Longrightarrow> deep strict (Suc h) n"
proof (induction h arbitrary: n)
  case (Suc h)
  then show ?case unfolding deep.simps(2) [of strict "Suc h"] deep.simps(2) [of strict h n]
    by (auto elim: parts_in_mono)
qed simp

lemma deep_parts:
  "deep strict h n \<Longrightarrow> shape n \<and> (strict \<longrightarrow> decided n) \<and> parts_in (deep strict h) (parts n)"
proof (cases h)
  case (Suc j)
  assume "deep strict h n"
  then show ?thesis unfolding Suc deep.simps(2) [of strict j n]
    by (auto elim: parts_in_mono intro: deep_Suc)
qed simp

lemma deep_everywhere:
  "deep strict h n \<Longrightarrow> everywhere (\<lambda>n. fits n \<and> shape n \<and> (strict \<longrightarrow> decided n)) n"
proof (induction h arbitrary: n)
  case (Suc h)
  then show ?case
    unfolding deep.simps(2) by (subst everywhere.simps) (auto simp: fits_def parts_in_def list_all_iff)
qed simp

lemma everywhere_deep:
  "everywhere (\<lambda>n. fits n \<and> shape n \<and> (strict \<longrightarrow> decided n)) n \<Longrightarrow> size n \<le> h \<Longrightarrow> deep strict (Suc h) n"
proof (induction h arbitrary: n)
  case (Suc h)
  have now: "fits n" "shape n" "strict \<longrightarrow> decided n"
    and below: "\<And>Q m. (Q, m) \<in> set (parts n) \<Longrightarrow> everywhere (\<lambda>n. fits n \<and> shape n \<and> (strict \<longrightarrow> decided n)) m"
    using Suc(2) unfolding everywhere.simps [of _ n] list_all_iff by auto
  have "deep strict (Suc h) m" if "(Q, m) \<in> set (parts n)" for Q m
    using Suc.IH [OF below [OF that]] parts_size [OF that] Suc(3) by simp
  with now show ?case
    unfolding deep.simps(2) [of strict "Suc h"] by (auto simp: parts_in_def list_all_iff fits_def)
next
  case 0
  then show ?case by (cases n) simp_all
qed

section \<open>What selection keeps\<close>

text \<open>The nodes that come from a node of a block or file, from an expression and from a type.\<close>

definition from_node :: "(node \<Rightarrow> bool) \<Rightarrow> node \<Rightarrow> node list \<Rightarrow> bool" where
  "from_node S n ns \<longleftrightarrow>
    (\<forall>m \<in> set ns. S m \<and> declaration_form m \<and> (statement_form n \<longrightarrow> statement_form m)) \<and>
    (\<forall>x. block_form x n \<longrightarrow> (\<exists>m. ns = [m] \<and> block_form x m)) \<and>
    (expression_form n \<longrightarrow> ns = [] \<or> (\<exists>m. ns = [m] \<and> expression_form m))"

fun is_binary :: "node \<Rightarrow> bool" where
  "is_binary (Expr (BinaryOpNode op x y l)) = True"
| "is_binary n = False"

definition from_expression :: "node \<Rightarrow> node \<Rightarrow> bool" where
  "from_expression n m \<longleftrightarrow>
    expression_form m \<and> (\<forall>x. block_form x n \<longrightarrow> block_form x m) \<and>
    (if is_identifier n then m = n else \<not> is_identifier m) \<and>
    (isMultiResultSource n \<longrightarrow> isMultiResultSource m) \<and> (is_binary n \<longrightarrow> is_binary m)"

definition from_type :: "node \<Rightarrow> node \<Rightarrow> bool" where
  "from_type n m \<longleftrightarrow>
    pointee_form m \<and> (is_function_type m \<longrightarrow> is_function_type n) \<and>
    (named_form n \<longrightarrow> named_form m) \<and> (is_slice_type (Some n) \<longrightarrow> is_slice_type (Some m))"

lemma from_type_form: "from_type n m \<Longrightarrow> type_form n \<Longrightarrow> type_form m"
  by (auto simp: from_type_def type_form_def)

lemma from_expression_refl: "expression_form n \<Longrightarrow> from_expression n n"
  by (simp add: from_expression_def)

lemma from_type_refl: "pointee_form n \<Longrightarrow> from_type n n"
  by (simp add: from_type_def)

lemma form_simps [simp]:
  "is_slice_type (Some (Type t)) \<longleftrightarrow> (case t of SliceTypeNode x m l \<Rightarrow> True | _ \<Rightarrow> False)"
  "is_identifier (Expr e) \<longleftrightarrow> (case e of IdentifierNode n m as l \<Rightarrow> True | _ \<Rightarrow> False)"
  "isMultiResultSource (Expr e) \<longleftrightarrow>
    (case e of FunctionCallNode c n as x l \<Rightarrow> True | CastNode t x l \<Rightarrow> True
     | InlineAsmNode t os is cs x l \<Rightarrow> True | _ \<Rightarrow> False)"
  "\<not> is_identifier (WhenNode bs eb ev c l)" "\<not> isMultiResultSource (WhenNode bs eb ev c l)"
  "\<not> is_slice_type (Some (WhenNode bs eb ev c l))"
  by (simp_all add: is_slice_type_def is_identifier_def isMultiResultSource_def)

lemma block_not_identifier: "block_form x n \<Longrightarrow> \<not> is_identifier n"
  by (auto elim: block_form.elims(2))

lemma from_when_value:
  "\<lbrakk>block_form True m; from_expression m m'\<rbrakk> \<Longrightarrow> from_expression (WhenNode bs eb ev c l) m'"
  using block_not_identifier by (fastforce simp: from_expression_def split: if_splits)

lemma from_when_type: "\<lbrakk>type_form m; from_type m m'\<rbrakk> \<Longrightarrow> from_type (WhenNode bs eb ev c l) m'"
  by (auto simp: from_type_def type_form_def)

lemma form_kind: "block_form x n \<Longrightarrow> is_expression n" "type_form n \<Longrightarrow> is_type n" "type_form n \<Longrightarrow> \<not> directive_form n"
  by (auto simp: type_form_def elim: block_form.elims(2) pointee_form.elims(2))

text \<open>An argument keeps its name, a slice for its type, and having no default.\<close>

definition same_argument :: "(node \<Rightarrow> bool) \<Rightarrow> node FunctionNodeArg \<Rightarrow> node FunctionNodeArg \<Rightarrow> bool" where
  "same_argument S a c \<longleftrightarrow> arg_Name c = arg_Name a \<and> parts_in S (argument_parts c) \<and>
    (is_slice_type (arg_Type a) \<longrightarrow> is_slice_type (arg_Type c)) \<and> (arg_Default a = None \<longrightarrow> arg_Default c = None)"

lemma literal_deep: "deep strict (Suc h) (stageLiteral w l)" "expression_form (stageLiteral w l)"
  by (cases w; simp)+

lemma inline_deep:
  "\<lbrakk>deep strict h n; expression_form n\<rbrakk>
    \<Longrightarrow> deep strict h (inlineStageExpression bindings n) \<and> expression_form (inlineStageExpression bindings n)"
proof (induction bindings n arbitrary: h rule: inlineStageExpression.induct)
  case (1 bindings name m as l)
  then show ?case using literal_deep by (cases h) (auto split: option.split)
next
  case (2 bindings op x l)
  then show ?case by (cases h) auto
next
  case (3 bindings op x y l)
  then show ?case by (cases h) auto
next
  case (4 bindings t x l)
  then show ?case by (cases h) auto
qed (rule conjI; simp only: inlineStageExpression.simps)+

text \<open>
  The contract of the methods that select the nodes below, for trees of depth \<open>h\<close>.
\<close>

locale selecting =
  fixes strict :: bool and \<sigma> :: alias_store and h :: nat
    and N :: "node \<Rightarrow> node list stage" and E T :: selection
  assumes N_ok: "\<lbrakk>j \<le> h; declaration_form n; deep strict j n\<rbrakk>
      \<Longrightarrow> ensures strict \<sigma> (from_node (deep strict j) n) (N n)"
    and E_ok: "\<lbrakk>expression_form n; deep strict h n\<rbrakk>
      \<Longrightarrow> ensures strict \<sigma> (\<lambda>m. from_expression n m \<and> deep strict h m) (E n)"
    and T_ok: "\<lbrakk>pointee_form n; deep strict h n\<rbrakk>
      \<Longrightarrow> ensures strict \<sigma> (\<lambda>m. from_type n m \<and> deep strict h m) (T n)"
begin

abbreviation below :: "node \<Rightarrow> bool" where
  "below \<equiv> deep strict h"

abbreviation this_deep :: "node \<Rightarrow> bool" where
  "this_deep \<equiv> deep strict (Suc h)"

lemma ensures_E [ensures]:
  "\<lbrakk>expression_form n \<and> below n; \<And>m. from_expression n m \<Longrightarrow> below m \<Longrightarrow> Q m\<rbrakk>
    \<Longrightarrow> ensures strict \<sigma> Q (E n)"
  by (rule ensures_imp [OF E_ok]) auto

lemma ensures_T [ensures]:
  "\<lbrakk>pointee_form n \<and> below n; \<And>m. from_type n m \<Longrightarrow> below m \<Longrightarrow> Q m\<rbrakk>
    \<Longrightarrow> ensures strict \<sigma> Q (T n)"
  by (rule ensures_imp [OF T_ok]) auto

lemma ensures_N [ensures]:
  "\<lbrakk>declaration_form n \<and> below n; \<And>ns. from_node below n ns \<Longrightarrow> Q ns\<rbrakk> \<Longrightarrow> ensures strict \<sigma> Q (N n)"
  by (rule ensures_imp [OF N_ok [OF order_refl]]) auto

lemma ensures_map_E [ensures]:
  assumes "\<forall>n \<in> set ns. expression_form n \<and> below n"
    "\<And>ms. \<lbrakk>\<forall>m \<in> set ms. expression_form m \<and> below m; length ms = length ns\<rbrakk> \<Longrightarrow> Q ms"
  shows "ensures strict \<sigma> Q (map_stage E ns)"
  by (rule ensures_map [where P = "\<lambda>n m. from_expression n m \<and> below m"])
    (use assms in \<open>auto intro!: ensures assms(2) dest: all2_set list_all2_lengthD simp: from_expression_def\<close>)

lemma ensures_map_T [ensures]:
  assumes "\<forall>n \<in> set ns. type_form n \<and> below n"
    "\<And>ms. \<lbrakk>\<forall>m \<in> set ms. type_form m \<and> below m; list_all2 from_type ns ms\<rbrakk> \<Longrightarrow> Q ms"
  shows "ensures strict \<sigma> Q (map_stage T ns)"
proof (rule ensures_map [where P = "\<lambda>n m. from_type n m \<and> below m"])
  fix ms assume all2: "list_all2 (\<lambda>n m. from_type n m \<and> below m) ns ms"
  have "\<forall>m \<in> set ms. type_form m \<and> below m"
    by (rule all2_set [OF all2]) (use assms(1) from_type_form in blast)
  moreover have "list_all2 from_type ns ms" using all2 by (rule list_all2_mono) blast
  ultimately show "Q ms" by (rule assms(2))
qed (use assms in \<open>auto intro!: ensures dest: type_pointee\<close>)


section \<open>Statements and their parts\<close>

lemma ensures_body_at:
  assumes "j \<le> h" "\<forall>n \<in> set ns. declaration_form n \<and> deep strict j n"
    "\<And>ms. \<lbrakk>\<forall>m \<in> set ms. declaration_form m \<and> deep strict j m;
       (\<forall>n \<in> set ns. statement_form n) \<longrightarrow> (\<forall>m \<in> set ms. statement_form m)\<rbrakk> \<Longrightarrow> Q ms"
  shows "ensures strict \<sigma> Q (selectBody N ns)"
  unfolding selectBody_def
proof (intro ensures_bind ensures_ret ensures_map [where P = "from_node (deep strict j)"])
  fix mss assume all2: "list_all2 (from_node (deep strict j)) ns mss"
  have "\<forall>ms \<in> set mss. \<forall>m \<in> set ms. declaration_form m \<and> deep strict j m \<and>
      ((\<forall>n \<in> set ns. statement_form n) \<longrightarrow> statement_form m)"
    by (rule all2_set [OF all2]) (auto simp: from_node_def)
  then show "Q (concat mss)" by (intro assms(3)) auto
next
  fix n assume "n \<in> set ns"
  with assms(2) show "ensures strict \<sigma> (from_node (deep strict j) n) (N n)"
    by (intro N_ok assms(1)) auto
qed

lemmas ensures_body [ensures] = ensures_body_at [OF order_refl]

lemma ensures_in_place [ensures]:
  assumes "block_form x n \<and> below n" "\<And>m. block_form x m \<Longrightarrow> below m \<Longrightarrow> Q m"
  shows "ensures strict \<sigma> Q (in_place N n)"
  unfolding in_place_def
  using assms
  by (intro ensures) (auto simp: from_node_def is_when_def intro!: assms(2)
      dest: block_expression expression_statement_form statement_declaration split: node.splits)

lemma ensures_fields_E [ensures]:
  assumes "\<forall>f \<in> set fs. expression_form (snd f) \<and> below (snd f)"
    "\<And>gs. \<lbrakk>\<forall>g \<in> set gs. expression_form (snd g) \<and> below (snd g); map fst gs = map fst fs\<rbrakk> \<Longrightarrow> Q gs"
  shows "ensures strict \<sigma> Q (select_fields E fs)"
  unfolding select_fields_def
proof (rule ensures_map [where P = "\<lambda>f g. fst g = fst f \<and> expression_form (snd g) \<and> below (snd g)"])
  fix gs assume all2: "list_all2 (\<lambda>f g. fst g = fst f \<and> expression_form (snd g) \<and> below (snd g)) fs gs"
  have "\<forall>g \<in> set gs. expression_form (snd g) \<and> below (snd g)"
    by (rule all2_set [OF all2]) blast
  moreover have "map fst gs = map fst fs" using all2 by (induction rule: list_all2_induct) auto
  ultimately show "Q gs" by (rule assms(2))
qed (use assms(1) in \<open>auto intro!: ensures simp: from_expression_def\<close>)

lemma ensures_fields_T [ensures]:
  assumes "\<forall>f \<in> set fs. type_form (snd f) \<and> below (snd f)"
    "\<And>gs. \<lbrakk>\<forall>g \<in> set gs. type_form (snd g) \<and> below (snd g); map fst gs = map fst fs\<rbrakk> \<Longrightarrow> Q gs"
  shows "ensures strict \<sigma> Q (select_fields T fs)"
  unfolding select_fields_def
proof (rule ensures_map [where P = "\<lambda>f g. fst g = fst f \<and> type_form (snd g) \<and> below (snd g)"])
  fix gs assume all2: "list_all2 (\<lambda>f g. fst g = fst f \<and> type_form (snd g) \<and> below (snd g)) fs gs"
  have "\<forall>g \<in> set gs. type_form (snd g) \<and> below (snd g)"
    by (rule all2_set [OF all2]) blast
  moreover have "map fst gs = map fst fs" using all2 by (induction rule: list_all2_induct) auto
  ultimately show "Q gs" by (rule assms(2))
qed (use assms(1) in \<open>auto intro!: ensures simp: from_type_def type_form_def\<close>)

lemma result_select_argument:
  assumes "parts_in below (argument_parts a)"
  shows "ensures strict \<sigma> (same_argument below a) (select_argument E T a)"
  using assms unfolding select_argument_def
  by (intro ensures) (auto simp: argument_parts_def same_argument_def from_expression_def
      from_type_def type_form_def is_slice_type_def)

lemma ensures_arguments [ensures]:
  assumes "\<forall>a \<in> set as. parts_in below (argument_parts a)"
    "\<And>cs. list_all2 (same_argument below) as cs \<Longrightarrow> Q cs"
  shows "ensures strict \<sigma> Q (map_stage (select_argument E T) as)"
  by (rule ensures_map) (use assms in \<open>auto intro: result_select_argument\<close>)

lemma ensures_arms [ensures]:
  assumes "\<forall>a \<in> set as. parts_in below (arm_parts a) \<and> arm_shape k a"
    "\<And>cs. \<lbrakk>\<forall>c \<in> set cs. parts_in below (arm_parts c) \<and> arm_shape k c; length cs = length as\<rbrakk>
      \<Longrightarrow> Q cs"
  shows "ensures strict \<sigma> Q (map_stage (select_arm E) as)"
proof (rule ensures_map [where P = "\<lambda>a c. parts_in below (arm_parts c) \<and> arm_shape k c"])
  fix a assume a: "a \<in> set as"
  show "ensures strict \<sigma> (\<lambda>c. parts_in below (arm_parts c) \<and> arm_shape k c) (select_arm E a)"
    using assms(1) a unfolding select_arm_def
    by (cases a, intro ensures)
      (auto simp: from_expression_def intro: parts_in_mono dest!: bspec)
next
  fix cs assume "list_all2 (\<lambda>a c. parts_in below (arm_parts c) \<and> arm_shape k c) as cs"
  then show "Q cs" by (intro assms(2)) (auto dest: all2_set list_all2_lengthD)
qed

lemma result_select_branch:
  assumes "parts_in below (branch_parts x b)"
  shows "ensures strict \<sigma> (\<lambda>c. parts_in below (branch_parts x c)) (select_branch N E b)"
  using assms unfolding select_branch_def branch_parts_def
  by (cases b) (auto simp: from_expression_def intro!: ensures ensures_in_place [where x = x])

lemma ensures_branches [ensures]:
  assumes "\<forall>b \<in> set bs. parts_in below (branch_parts x b)"
    "\<And>cs. \<forall>c \<in> set cs. parts_in below (branch_parts x c) \<Longrightarrow> Q cs"
  shows "ensures strict \<sigma> Q (map_stage (select_branch N E) bs)"
proof (rule ensures_map [where P = "\<lambda>b c. parts_in below (branch_parts x c)"])
  fix cs assume "list_all2 (\<lambda>b c. parts_in below (branch_parts x c)) bs cs"
  then show "Q cs" by (intro assms(2)) (auto dest: all2_set)
qed (use assms(1) result_select_branch in blast)

lemma result_compound_step:
  assumes "this_deep (Expr e)"
  shows "ensures strict \<sigma> (\<lambda>e'. this_deep (Expr e') \<and> from_expression (Expr e) (Expr e'))
    (compound_step N E e)"
proof -
  have parts: "parts_in below (expression_parts e)" "expression_shape e"
    using assms by simp_all
  have other: ?thesis if "compound_step N E e = retS e"
    unfolding that using assms(1) by (intro ensures conjI from_expression_refl) simp_all
  show ?thesis
  proof (cases e)
    case (BlockNode ns x l)
    then show ?thesis
      using parts unfolding compound_step_def
      by (simp, intro ensures) (auto simp: from_expression_def
          dest: statement_declaration)
  next
    case (IfNode b bs eb x l)
    then show ?thesis
      using parts unfolding compound_step_def
      by (simp, intro ensures ensures_branches [where x = x] ensures_in_place [where x = x]
          ensures_imp [OF result_select_branch [where x = x]])
        (auto simp: from_expression_def)
  next
    case (MatchNode ss b bl as x l)
    then show ?thesis
      using parts unfolding compound_step_def
      by (simp, intro ensures ensures_arms [where k = "length ss"])
        (auto simp: from_expression_def list_all_iff)
  qed (rule other, simp only: compound_step_def expression_node.case)+
qed

section \<open>Expressions and types\<close>

lemma result_expression_step:
  assumes "this_deep (Expr e)"
  shows "ensures strict \<sigma> (\<lambda>e'. this_deep (Expr e') \<and> from_expression (Expr e) (Expr e'))
    (expression_step N E T e)"
proof -
  have parts: "parts_in below (expression_parts e)" "expression_shape e"
    using assms by simp_all
  have other: ?thesis if "expression_step N E T e = compound_step N E e"
    unfolding that by (rule result_compound_step [OF assms])
  show ?thesis
  proof (cases e)
    case (UnaryOpNode op x l)
    then show ?thesis
      using parts unfolding expression_step_def by (simp, intro ensures) (auto simp: from_expression_def)
  next
    case (BinaryOpNode op x y l)
    then show ?thesis
      using parts unfolding expression_step_def by (simp, intro ensures) (auto simp: from_expression_def)
  next
    case (FunctionCallNode c n as v l)
    show ?thesis
      unfolding expression_step_def FunctionCallNode expression_node.case
    proof (intro ensures)
      fix m ms
      assume m: "from_expression c m" "below m"
        and ms: "\<forall>m \<in> set ms. expression_form m \<and> below m" "length ms = length as"
      have call: "n = (if is_identifier c then Some c else None)" "v \<longrightarrow> as \<noteq> []"
        using parts(2) unfolding FunctionCallNode by simp_all
      have "n = (if is_identifier m then Some m else None)" "expression_form m"
        using call(1) m(1) unfolding from_expression_def by presburger+
      moreover have results: "v \<longrightarrow> ms \<noteq> []" using call(2) ms(2) by auto
      ultimately show "this_deep (Expr (FunctionCallNode m n ms v l)) \<and>
          from_expression (Expr (FunctionCallNode c n as v l)) (Expr (FunctionCallNode m n ms v l))"
        using m(2) ms results by (simp add: from_expression_def split: if_split)
    qed (use parts(1) in \<open>simp_all add: FunctionCallNode\<close>)
  next
    case (IndexExprNode x i l)
    then show ?thesis
      using parts unfolding expression_step_def by (simp, intro ensures) (auto simp: from_expression_def)
  next
    case (SliceExprNode x b e' l)
    then show ?thesis
      using parts unfolding expression_step_def by (simp, intro ensures) (auto simp: from_expression_def)
  next
    case (CastNode x y l)
    then show ?thesis
      using parts unfolding expression_step_def
      by (simp, intro ensures) (auto simp: from_expression_def intro: from_type_form dest: type_pointee)
  next
    case (StructLiteralNode n fs ms r l)
    then show ?thesis
      using parts unfolding expression_step_def by (simp, intro ensures) (auto simp: from_expression_def)
  next
    case (SliceLiteralNode es v a l)
    then show ?thesis
      using parts unfolding expression_step_def by (simp, intro ensures) (auto simp: from_expression_def)
  qed (rule other, simp only: expression_step_def expression_node.case)+
qed

lemma ensures_variants:
  assumes "\<forall>v \<in> set vs. \<forall>f \<in> set (variant_Fields v). type_form (snd f) \<and> below (snd f)"
    "\<And>ws. \<lbrakk>\<forall>w \<in> set ws. \<forall>f \<in> set (variant_Fields w). type_form (snd f) \<and> below (snd f);
       map variant_Name ws = map variant_Name vs;
       map (map fst \<circ> variant_Fields) ws = map (map fst \<circ> variant_Fields) vs\<rbrakk> \<Longrightarrow> Q ws"
  shows "ensures strict \<sigma> Q (map_stage (\<lambda>v. bindS (select_fields T (variant_Fields v)) (\<lambda>fs.
    retS (TaggedUnionVariantNode (variant_Name v) fs (variant_Loc v)))) vs)"
proof (rule ensures_map [where P = "\<lambda>v w. variant_Name w = variant_Name v \<and>
    map fst (variant_Fields w) = map fst (variant_Fields v) \<and>
    (\<forall>f \<in> set (variant_Fields w). type_form (snd f) \<and> below (snd f))"])
  fix ws assume all2: "list_all2 (\<lambda>v w. variant_Name w = variant_Name v \<and>
    map fst (variant_Fields w) = map fst (variant_Fields v) \<and>
    (\<forall>f \<in> set (variant_Fields w). type_form (snd f) \<and> below (snd f))) vs ws"
  have "\<forall>w \<in> set ws. \<forall>f \<in> set (variant_Fields w). type_form (snd f) \<and> below (snd f)"
    by (rule all2_set [OF all2]) blast
  moreover have "map variant_Name ws = map variant_Name vs \<and>
      map (map fst \<circ> variant_Fields) ws = map (map fst \<circ> variant_Fields) vs"
    using all2 by (induction rule: list_all2_induct) auto
  ultimately show "Q ws" by (intro assms(2)) auto
qed (use assms(1) in \<open>auto intro!: ensures\<close>)

lemma distinct_field_names:
  "map (map fst \<circ> variant_Fields) ws = map (map fst \<circ> variant_Fields) vs \<Longrightarrow>
    list_all (\<lambda>v. distinct (filter (\<lambda>n. n \<noteq> []) (map fst (variant_Fields v)))) ws =
    list_all (\<lambda>v. distinct (filter (\<lambda>n. n \<noteq> []) (map fst (variant_Fields v)))) vs"
proof -
  assume *: "map (map fst \<circ> variant_Fields) ws = map (map fst \<circ> variant_Fields) vs"
  have "list_all (\<lambda>ns. distinct (filter (\<lambda>n. n \<noteq> []) ns)) (map (map fst \<circ> variant_Fields) us) =
      list_all (\<lambda>v. distinct (filter (\<lambda>n. n \<noteq> []) (map fst (variant_Fields v)))) us" for us
    by (simp add: list_all_iff)
  from this [of ws] this [of vs] * show ?thesis by simp
qed

lemma same_union_shape:
  assumes "union_shape tag auto fs vs" "(tag' = None) = (tag = None)" "map fst gs = map fst fs"
    "map variant_Name ws = map variant_Name vs"
    "map (map fst \<circ> variant_Fields) ws = map (map fst \<circ> variant_Fields) vs"
  shows "union_shape tag' auto gs ws"
  using assms(1,2) distinct_field_names [OF assms(5)] assms(3,4)
    arg_cong [OF assms(3), of length] arg_cong [OF assms(4), of length]
  unfolding union_shape_def by (auto split: if_splits)

lemma result_type_step:
  assumes "this_deep (Type t)"
  shows "ensures strict \<sigma> (\<lambda>t'. this_deep (Type t') \<and> from_type (Type t) (Type t')) (type_step E T t)"
proof -
  have parts: "parts_in below (type_parts t)" "type_shape t"
    using assms by simp_all
  have other: ?thesis if "type_step E T t = retS t"
    unfolding that using assms(1) by (intro ensures conjI from_type_refl) simp_all
  show ?thesis
  proof (cases t)
    case (NamedTypeNode m n as c k l)
    then show ?thesis
      using parts unfolding type_step_def by (simp, intro ensures) (auto simp: from_type_def type_form_def)
  next
    case (ReprTypeNode x l)
    then show ?thesis
      using parts unfolding type_step_def by (simp, intro ensures) (auto simp: from_type_def type_form_def)
  next
    case (PointerTypeNode x m l)
    then show ?thesis
      using parts unfolding type_step_def by (simp, intro ensures) (auto simp: from_type_def type_form_def)
  next
    case (SliceTypeNode x m l)
    then show ?thesis
      using parts unfolding type_step_def by (simp, intro ensures) (auto simp: from_type_def type_form_def)
  next
    case (ArrayTypeNode x n l)
    then show ?thesis
      using parts unfolding type_step_def
      by (simp, intro ensures) (auto simp: from_type_def type_form_def from_expression_def inline_deep)
  next
    case (DynTypeNode x m l)
    then show ?thesis
      using parts unfolding type_step_def
      by (simp, intro ensures) (auto simp: from_type_def dest!: named_type type_pointee)
  next
    case (FunctionTypeNode ps r v l)
    then show ?thesis
      using parts unfolding type_step_def
      by (simp, intro ensures) (auto simp: from_type_def type_form_def dest: all2_last)
  next
    case (MultipleReturnTypeNode ts l)
    then show ?thesis
      using parts unfolding type_step_def
      by (simp, intro ensures) (auto simp: from_type_def type_form_def dest: list_all2_lengthD)
  next
    case (StructTypeNode fs l attrs)
    then show ?thesis
      using parts unfolding type_step_def
      by (simp, intro ensures) (auto simp: from_type_def type_form_def elim: parts_in_mono)
  next
    case (FlagsTypeNode u vs xs l)
    then show ?thesis
      using parts unfolding type_step_def
      by (simp, intro ensures) (auto simp: from_type_def dest!: named_type type_pointee)
  next
    case (UnionTypeNode tag auto fs vs l)
    show ?thesis
      unfolding UnionTypeNode type_step_def type_node.case
      by (intro ensures ensures_variants)
        (use parts in \<open>auto simp: UnionTypeNode from_type_def type_form_def elim: same_union_shape\<close>)
  qed (rule other, simp only: type_step_def type_node.case)+
qed

lemma result_selectWhenValue:
  assumes "c = WhenExpression \<or> c = WhenType"
    "\<forall>b \<in> set bs. when_branch_shape c b \<and> parts_in below (when_branch_parts c b) \<and>
      (strict \<longrightarrow> has_value (when_Value b))"
    "\<forall>n. ev = Some n \<longrightarrow> value_form c n \<and> below n" "strict \<longrightarrow> has_value ev"
  shows "ensures strict \<sigma> (\<lambda>r. (r = Some None \<longrightarrow> \<not> strict) \<and>
    (\<forall>n. r = Some (Some n) \<longrightarrow> value_form c n \<and> below n \<and> \<not> directive_form n \<and> \<not> is_conditional n))
    (selectWhenValue bs ev)"
  using assms
proof (induction bs ev rule: selectWhenValue.induct)
  case (1 ev)
  show ?case
  proof (cases "\<exists>bs' eb' ev' c' l'. ev = Some (WhenNode bs' eb' ev' c' l')")
    case True
    then obtain bs' eb' ev' c' l' where ev: "ev = Some (WhenNode bs' eb' ev' c' l')" by blast
    have "c' = c" using 1(2,4) unfolding ev
      by (auto simp: value_form_def selected_form_def split: if_splits)
    have "below (WhenNode bs' eb' ev' c' l')" using 1(4) unfolding ev by simp
    note deep_parts [OF this]
    then show ?thesis
      unfolding ev selectWhenValue.simps option.case node.case
      by (intro 1(1) [OF ev refl]) (use 1(2) in \<open>auto simp: \<open>c' = c\<close> list_all_iff\<close>)
  next
    case False
    show ?thesis
    proof (cases "\<exists>name d m nl l. ev = Some (Stmt (CompilerDirectiveNode name d m nl l))")
      case True
      then obtain name d m nl l where ev: "ev = Some (Stmt (CompilerDirectiveNode name d m nl l))" by blast
      then show ?thesis
        using 1(4,5) unfolding ev selectWhenValue.simps option.case node.case plain_node.case
        by (intro ensures) (auto simp: has_value_def)
    next
      case other: False
      have "selectWhenValue [] ev = retS (Some ev)"
        using False other
        by (cases ev; cases "the ev"; cases "case the ev of Stmt p \<Rightarrow> p | _ \<Rightarrow> RootNode [] no_location")
          (auto simp: selectWhenValue.simps)
      then show ?thesis
        using 1(4,5) False other
        by (simp, intro ensures)
          (auto simp: has_value_def elim!: directive_form.elims(2) is_conditional.elims(2))
    qed
  qed
next
  case (2 condition body v l bs ev)
  show ?case
    unfolding selectWhenValue.simps(2)
    by (intro ensures 2(1) 2(2)) (use 2(3-) in auto)
qed

lemma result_expression_node_step:
  assumes "expression_form n" "this_deep n"
  shows "ensures strict \<sigma> (\<lambda>m. from_expression n m \<and> this_deep m) (expression_node_step N E T n)"
proof (cases n)
  case (Expr e)
  with assms show ?thesis
    unfolding expression_node_step_def Expr node.case
    by (intro ensures ensures_imp [OF result_expression_step]) (auto intro: ensures_ret)
next
  case (WhenNode bs eb ev c l)
  then have c: "c = WhenExpression" using assms(1) by simp
  have "shape n" "strict \<longrightarrow> decided n" using assms(2) unfolding deep.simps(2) by blast+
  then have shape: "\<forall>b \<in> set bs. when_branch_shape c b \<and> (strict \<longrightarrow> has_value (when_Value b))"
      "strict \<longrightarrow> has_value ev"
    by (auto simp: WhenNode c list_all_iff)
  have parts: "\<forall>b \<in> set bs. parts_in below (when_branch_parts c b)"
      "\<forall>m. ev = Some m \<longrightarrow> value_form c m \<and> below m"
    using assms(2) unfolding deep.simps(2) by (simp_all add: WhenNode)
  show ?thesis
    unfolding expression_node_step_def select_value_def WhenNode node.case
    by (intro ensures ensures_imp [OF result_selectWhenValue [where c = c and bs = bs and ev = ev]])
      (use c shape parts assms(2) in \<open>auto simp: WhenNode value_form_def from_expression_refl form_kind
        intro!: ensures dest: block_expression from_when_value form_kind deep_Suc\<close>)
qed (use assms in auto)

lemma result_type_node_step:
  assumes "pointee_form n" "this_deep n"
  shows "ensures strict \<sigma> (\<lambda>m. from_type n m \<and> this_deep m) (type_node_step E T n)"
proof (cases n)
  case (Type t)
  with assms show ?thesis
    unfolding type_node_step_def Type node.case
    by (intro ensures ensures_imp [OF result_type_step]) (auto intro: ensures_ret)
next
  case (WhenNode bs eb ev c l)
  then have c: "c = WhenType" using assms(1) by simp
  have "shape n" "strict \<longrightarrow> decided n" using assms(2) unfolding deep.simps(2) by blast+
  then have shape: "\<forall>b \<in> set bs. when_branch_shape c b \<and> (strict \<longrightarrow> has_value (when_Value b))"
      "strict \<longrightarrow> has_value ev"
    by (auto simp: WhenNode c list_all_iff)
  have parts: "\<forall>b \<in> set bs. parts_in below (when_branch_parts c b)"
      "\<forall>m. ev = Some m \<longrightarrow> value_form c m \<and> below m"
    using assms(2) unfolding deep.simps(2) by (simp_all add: WhenNode)
  show ?thesis
    unfolding type_node_step_def select_value_def WhenNode node.case
    by (intro ensures ensures_imp [OF result_selectWhenValue [where c = c and bs = bs and ev = ev]])
      (use c shape parts assms(2) in \<open>auto simp: WhenNode value_form_def selected_form_def
        from_type_refl form_kind intro!: ensures dest: type_pointee from_when_type form_kind deep_Suc\<close>)
qed (use assms in auto)

section \<open>Nodes of blocks and files\<close>

lemma result_links:
  "parts_in below (items_parts items) \<Longrightarrow> ensures strict \<sigma> (\<lambda>_. True) (selectLinkItems items)"
  "\<lbrakk>parts_in below (link_branches_parts bs); parts_in below (items_parts es)\<rbrakk>
    \<Longrightarrow> ensures strict \<sigma> (\<lambda>_. True) (selectLinkWhen bs es)"
proof (induction items and bs es rule: selectLinkItems_selectLinkWhen.induct)
  case (3 directive items)
  then obtain name c m nl l where "directive = Stmt (CompilerDirectiveNode name c m nl l)"
    by (auto elim: directive_form.elims(2))
  with 3 show ?case
    unfolding selectLinkItems.simps by (simp, intro ensures ensures_imp [OF 3(1)]) (auto dest: deep_parts)
next
  case (4 bs es l items)
  then show ?case
    unfolding selectLinkItems.simps
    by (intro ensures ensures_imp [OF 4(1)] ensures_imp [OF 4(2)]) auto
next
  case (6 condition items bs es)
  then show ?case
    unfolding selectLinkWhen.simps
    by (intro ensures ensures_imp [OF 6(1)] ensures_imp [OF 6(2)]) auto
qed (auto simp: selectLinkItems.simps selectLinkWhen.simps intro!: ensures elim!: ensures_imp)

lemma ensures_attributes [ensures]:
  assumes "\<forall>a \<in> set as. parts_in below (attribute_parts a)"
    "\<And>cs. \<lbrakk>\<forall>c \<in> set cs. parts_in below (attribute_parts c); length cs = length as\<rbrakk> \<Longrightarrow> Q cs"
  shows "ensures strict \<sigma> Q (map_stage select_attribute as)"
proof (rule ensures_map [where P = "\<lambda>a c. parts_in below (attribute_parts c)"])
  fix a assume "a \<in> set as"
  with assms(1) have "parts_in below (attribute_parts a)" by blast
  then show "ensures strict \<sigma> (\<lambda>c. parts_in below (attribute_parts c)) (select_attribute a)"
    unfolding select_attribute_def
    by (cases a) (auto intro!: ensures ensures_imp [OF result_links(1)] elim: parts_in_mono split: option.split)
next
  fix cs assume "list_all2 (\<lambda>a c. parts_in below (attribute_parts c)) as cs"
  then show "Q cs" by (intro assms(2)) (auto dest: all2_set list_all2_lengthD)
qed

lemma result_select_function:
  assumes "this_deep (Stmt (FunctionDefNode f))"
  shows "ensures strict \<sigma> (\<lambda>g. this_deep (Stmt (FunctionDefNode g))) (select_function N E T f)"
proof -
  obtain nm ow owt ogs rc gs as rt b eb hv tv p attrs l where
      f: "f = FunctionDef nm ow owt ogs rc gs as rt b eb hv tv p attrs l"
    by (cases f)
  have parts: "parts_in below (function_parts f)" "function_shape f"
    using assms by simp_all
  have args: "\<forall>c \<in> set cs. parts_in below (argument_parts c)"
    if "list_all2 (same_argument below) as cs" for cs
    by (rule all2_set [OF that]) (simp add: same_argument_def)
  have ends: "variadic_shape as tv \<longrightarrow> variadic_shape cs tv"
      "as \<noteq> [] \<longrightarrow> cs \<noteq> [] \<and> arg_Name (hd cs) = arg_Name (hd as)"
    if "list_all2 (same_argument below) as cs" for cs
    using all2_last [OF that] all2_hd [OF that] by (auto simp: same_argument_def variadic_shape_def)
  have body: "ensures strict \<sigma> (\<lambda>b'. (b' = None) = (b = None) \<and>
      (\<forall>n. b' = Some n \<longrightarrow> expression_form n \<and> below n))
      (case b of
         Some (Expr (BlockNode ns x l)) \<Rightarrow>
           bindS (selectBody N ns) (\<lambda>ns. retS (Some (Expr (BlockNode ns x l))))
       | Some b \<Rightarrow> if is_expression b then bindS (E b) (\<lambda>b. retS (Some b)) else retS (Some b)
       | None \<Rightarrow> retS None)"
  proof (cases "\<exists>ns x l. b = Some (Expr (BlockNode ns x l))")
    case True
    then obtain ns x l' where b: "b = Some (Expr (BlockNode ns x l'))" by blast
    obtain j where h: "h = Suc j" using parts(1) by (cases h) (auto simp: f b)
    have "\<forall>n \<in> set ns. declaration_form n \<and> statement_form n \<and> deep strict j n"
      using parts(1) by (auto simp: f b h dest: statement_declaration)
    then show ?thesis unfolding b by (simp, intro ensures ensures_body_at [where j = j]) (auto simp: h)
  next
    case False
    have "(case b of
         Some (Expr (BlockNode ns x l)) \<Rightarrow>
           bindS (selectBody N ns) (\<lambda>ns. retS (Some (Expr (BlockNode ns x l))))
       | Some b \<Rightarrow> if is_expression b then bindS (E b) (\<lambda>b. retS (Some b)) else retS (Some b)
       | None \<Rightarrow> retS None) = option_stage E b"
      using False parts(1) unfolding f option_stage_def
      by (auto split: option.split node.split expression_node.split)
    then show ?thesis
      using parts(1) by (simp add: f, intro ensures) (auto simp: from_expression_def)
  qed
  have new: "this_deep (Stmt (FunctionDefNode (FunctionDef nm ow owt ogs rc gs cs rt' b' eb hv tv p attrs l)))"
    if "list_all2 (same_argument below) as cs" "\<forall>n. rt' = Some n \<longrightarrow> type_form n \<and> below n"
      "(b' = None) = (b = None) \<and> (\<forall>n. b' = Some n \<longrightarrow> expression_form n \<and> below n)" for cs rt' b'
    using assms(1) that(2,3) args [OF that(1)] ends [OF that(1)]
    by (simp add: f function_shape_def)
  have results: "\<forall>n. rt = Some n \<longrightarrow> pointee_form n \<and> type_form n \<and> below n"
      "\<forall>a \<in> set as. parts_in below (argument_parts a)"
    using parts(1) by (auto simp: f dest: type_pointee)
  show ?thesis
    unfolding select_function_def f FunctionDef.sel
    by (intro ensures ensures_imp [OF body] new) (use results in \<open>auto intro: from_type_form\<close>)
qed

lemma stageTypeNode_form:
  "stageTypeNode \<sigma> w l = Some (Some n) \<Longrightarrow> \<exists>p. n = Type (NamedTypeNode [] p [] False None l)"
proof -
  assume *: "stageTypeNode \<sigma> w l = Some (Some n)"
  then obtain t u where "stage_type w = Some t" "Underlying \<sigma> t = Some u"
    by (auto simp: stageTypeNode_def split: option.splits)
  with * show ?thesis by (cases u) (auto simp: stageTypeNode_def split: if_splits)
qed

lemma ensures_type_node [ensures]:
  "\<lbrakk>known_value \<sigma> w; \<And>t. stageTypeNode \<sigma> w l = Some t \<Longrightarrow> Q t\<rbrakk>
    \<Longrightarrow> ensures strict \<sigma> Q (\<lambda>s. case stageTypeNode \<sigma> w l of None \<Rightarrow> None | Some u \<Rightarrow> retS u s)"
  by (auto simp: ensures_def known_value_def stageTypeNode_def retS_def split: option.splits)

lemma ensures_comptime:
  assumes "strict \<longrightarrow> v \<noteq> None"
    "\<And>t' v' u. \<lbrakk>t' = t \<or> t = None \<and> (\<exists>p. t' = Some (Type (NamedTypeNode [] p [] False None l)));
       if u then v' = v \<and> t' = t else \<exists>n w. v = Some n \<and> v' = Some (stageLiteral w (GetLoc n))\<rbrakk> \<Longrightarrow> Q (t', v', u)"
  shows "ensures strict \<sigma> Q (comptime_value \<sigma> x l t v)"
  unfolding comptime_value_def
  by (intro ensures) (use assms(1) in \<open>auto intro!: assms(2) dest: stageTypeNode_form split: option.split\<close>)

lemma ensures_results [ensures]:
  assumes "\<forall>n. v = Some n \<longrightarrow> expression_form n \<and> below n" "\<forall>n \<in> set vs. expression_form n \<and> below n"
    "v = (case vs of [] \<Rightarrow> None | n # ns \<Rightarrow> Some n)"
    "\<And>v' vs'. \<lbrakk>\<forall>n. v' = Some n \<longrightarrow> expression_form n \<and> below n;
       \<forall>n \<in> set vs'. expression_form n \<and> below n; vs = [] \<longrightarrow> vs' = [];
       v' = (case vs' of [] \<Rightarrow> None | n # ns \<Rightarrow> Some n)\<rbrakk> \<Longrightarrow> Q (v', vs')"
  shows "ensures strict \<sigma> Q (select_results E v vs)"
proof (cases vs)
  case Nil
  then show ?thesis
    using assms(3) unfolding select_results_def by (simp, intro ensures) (auto intro: assms(4))
next
  case (Cons n ns)
  then show ?thesis
    using assms(2,3) unfolding select_results_def
    by (simp, intro ensures) (auto simp: from_expression_def intro!: assms(4))
qed

lemma is_when_conditional [simp]: "is_when n = is_conditional n"
  by (cases n) (simp_all add: is_when_def)

lemma shared_target_ok:
  assumes "parts_in below (plain_parts (AssignmentNode a as v c l))" "plain_shape (AssignmentNode a as v c l)"
    "from_expression v v'" "below v'"
  shows "plain_shape (AssignmentNode (shared_target c a v v') as v' c l) \<and>
    (\<forall>n. shared_target c a v v' = Some n \<longrightarrow> expression_form n \<and> below n)"
proof (cases "is_binary v")
  case True
  then obtain op x y l1 where v: "v = Expr (BinaryOpNode op x y l1)" by (auto elim: is_binary.elims(2))
  have "is_binary v'" using assms(3) True by (simp add: from_expression_def)
  then obtain op' x' y' l2 where v': "v' = Expr (BinaryOpNode op' x' y' l2)"
    by (auto elim: is_binary.elims(2))
  show ?thesis
    using assms(1,2) deep_parts [OF assms(4)]
    by (auto simp: v v' shared_target_def split: option.split)
next
  case False
  then have "shared_target c a v v' = a"
    by (auto simp: shared_target_def split: option.split node.split expression_node.split)
  moreover have "\<not> c"
    using assms(2) False by (auto split: node.splits expression_node.splits)
  ultimately show ?thesis
    using assms(1-3) by (auto simp: from_expression_def)
qed

text \<open>The type and value of a binding after its evaluation.\<close>

definition same_binding :: "node option \<Rightarrow> node option \<Rightarrow> node option \<times> node option \<times> bool \<Rightarrow> bool" where
  "same_binding t v = (\<lambda>(t', w, u). (w = None) = (v = None) \<and> (t \<noteq> None \<longrightarrow> t' \<noteq> None) \<and>
    (\<forall>n. w = Some n \<longrightarrow> expression_form n \<and> below n) \<and> (\<forall>n. t' = Some n \<longrightarrow> type_form n \<and> below n))"

lemma result_comptime:
  assumes "c \<Longrightarrow> strict \<longrightarrow> v \<noteq> None"
    "\<forall>n. v = Some n \<longrightarrow> expression_form n \<and> below n" "\<forall>n. t = Some n \<longrightarrow> type_form n \<and> below n"
  shows "ensures strict \<sigma> (same_binding t v) (if c then comptime_value \<sigma> name nl t v else retS (t, v, False))"
proof -
  have literal: "below (stageLiteral w l')" "below (Type (NamedTypeNode [] p [] False None l'))"
    if some: "v = Some n" for n w l' p
  proof -
    obtain j where "h = Suc j" using assms(2) some by (cases h) auto
    then show "below (stageLiteral w l')" "below (Type (NamedTypeNode [] p [] False None l'))"
      using literal_deep(1) by simp_all
  qed
  show ?thesis
    unfolding same_binding_def
    by (intro ensures_if ensures_ret ensures_comptime assms(1))
      (use assms(2,3) in \<open>auto intro!: literal literal_deep(2) split: if_split_asm\<close>)
qed

lemma result_plain_step:
  assumes "declaration_form (Stmt p)" "this_deep (Stmt p)"
  shows "ensures strict \<sigma> (from_node this_deep (Stmt p)) (plain_step \<sigma> N E T p)"
proof -
  have parts: "parts_in below (plain_parts p)" "plain_shape p"
    using assms(2) by simp_all
  have other: ?thesis if "plain_step \<sigma> N E T p = retS [Stmt p]"
    unfolding that using assms(1,2) by (intro ensures) (simp add: from_node_def)
  show ?thesis
  proof (cases p)
    case (CompilerDirectiveNode name c m nl l)
    then show ?thesis
      using parts assms(2) unfolding plain_step_def
      by (simp, intro ensures) (auto simp: from_node_def)
  next
    case (ModuleNode n attrs l)
    then show ?thesis
      using parts unfolding plain_step_def by (simp, intro ensures) (auto simp: from_node_def)
  next
    case (FunctionDefNode f)
    then show ?thesis
      using assms unfolding plain_step_def
      by (simp, intro ensures ensures_imp [OF result_select_function]) (auto simp: from_node_def intro: ensures_ret)
  next
    case (TypeAliasNode n gs t tr pub l)
    then show ?thesis
      using parts assms(2) unfolding plain_step_def
      by (simp, intro ensures) (auto simp: from_node_def intro: from_type_form dest: type_pointee)
  next
    case (ForNode ns b l)
    then show ?thesis
      using parts unfolding plain_step_def
      by (simp, intro ensures ensures_in_place [where x = False]) (auto simp: from_node_def dest: statement_declaration)
  next
    case (RangeForNode n nl start stop i r b l)
    then show ?thesis
      using parts unfolding plain_step_def
      by (simp, intro ensures ensures_in_place [where x = False]) (auto simp: from_node_def from_expression_def)
  next
    case (ForEachNode n nl ds k i il e r b l)
    then show ?thesis
      using parts unfolding plain_step_def
      by (simp, intro ensures ensures_in_place [where x = False]) (auto simp: from_node_def from_expression_def)
  next
    case (ControlKeywordNode k v vs l)
    then show ?thesis
      using parts unfolding plain_step_def by (simp, intro ensures) (auto simp: from_node_def)
  next
    case (DeferNode n l)
    then show ?thesis
      using parts unfolding plain_step_def
      by (simp, intro ensures)
        (auto simp: from_node_def assms(2) dest: expression_statement_form statement_declaration)
  next
    case (AssignmentNode a as v c l)
    have target: "plain_shape (AssignmentNode (shared_target c a v v') as v' c l) \<and>
        (\<forall>n. shared_target c a v v' = Some n \<longrightarrow> expression_form n \<and> below n)"
      if "from_expression v v'" "below v'" for v'
      using parts that unfolding AssignmentNode by (rule shared_target_ok)
    have v: "expression_form v \<and> below v" and as: "\<forall>n \<in> set as. expression_form n \<and> below n"
      using parts(1) by (simp_all add: AssignmentNode)
    have result: "from_node this_deep (Stmt (AssignmentNode a as v c l))
        [Stmt (AssignmentNode (shared_target c a v v') as v' c l)]"
      if "from_expression v v'" "below v'" for v'
    proof -
      have "expression_form v'" using that(1) by (simp add: from_expression_def)
      then have "this_deep (Stmt (AssignmentNode (shared_target c a v v') as v' c l))"
        using target [OF that] as that(2) by (simp del: plain_shape.simps)
      then show ?thesis by (simp add: from_node_def)
    qed
    show ?thesis
      unfolding AssignmentNode plain_step_def plain_node.case
      by (intro ensures v result)
  next
    case (DeclarationNode name nl m pub t v c attrs l)
    have v: "c \<Longrightarrow> strict \<longrightarrow> v \<noteq> None" using assms(2) by (simp add: DeclarationNode)
    have now: "\<forall>n. v = Some n \<longrightarrow> expression_form n \<and> below n" "\<forall>n. t = Some n \<longrightarrow> type_form n \<and> below n"
      using parts(1) by (simp_all add: DeclarationNode)
    have result: "from_node this_deep (Stmt (DeclarationNode name nl m pub t v c attrs l))
        [Stmt (DeclarationNode name nl m pub t' v' c attrs l)]"
      if "(v' = None) = (v = None)" "t \<noteq> None \<longrightarrow> t' \<noteq> None"
        "\<forall>n. v' = Some n \<longrightarrow> expression_form n \<and> below n" "\<forall>n. t' = Some n \<longrightarrow> type_form n \<and> below n" for t' v'
    proof -
      have "this_deep (Stmt (DeclarationNode name nl m pub t' v' c attrs l))"
        using assms(2) that by (auto simp: DeclarationNode)
      then show ?thesis by (simp add: from_node_def)
    qed
    have rest: "ensures strict \<sigma> (from_node this_deep (Stmt (DeclarationNode name nl m pub t v c attrs l)))
        (bindS (option_stage E w) (\<lambda>w'. thenS (if u then rename_unresolved w w' else retS ())
          (bindS (option_stage T t') (\<lambda>t'. retS [Stmt (DeclarationNode name nl m pub t' w' c attrs l)]))))"
      if "(w = None) = (v = None)" "t \<noteq> None \<longrightarrow> t' \<noteq> None"
        "\<forall>n. w = Some n \<longrightarrow> expression_form n \<and> below n" "\<forall>n. t' = Some n \<longrightarrow> type_form n \<and> below n" for w t' u
      using that by (intro ensures result)
        (auto simp: from_expression_def intro: from_type_form dest: type_pointee)
    have comptime: "ensures strict \<sigma> (same_binding t v)
        (if c then comptime_value \<sigma> name nl t v else retS (t, v, False))"
      by (rule result_comptime) (use v now in auto)
    show ?thesis
      unfolding DeclarationNode plain_step_def plain_node.case
    proof (rule ensures_bind [OF ensures_imp [OF comptime]], intro ensures_prod)
      fix r t' wu w u assume "same_binding t v r" "r = (t', wu)" "wu = (w, u)"
      then show "ensures strict \<sigma> (from_node this_deep (Stmt (DeclarationNode name nl m pub t v c attrs l)))
        (bindS (option_stage E w) (\<lambda>w'. thenS (if u then rename_unresolved w w' else retS ())
          (bindS (option_stage T t') (\<lambda>t'. retS [Stmt (DeclarationNode name nl m pub t' w' c attrs l)]))))"
        by (intro rest) (simp_all add: same_binding_def)
    qed
  next
    case (MultiDeclarationNode ns nls m v l)
    then show ?thesis
      using parts unfolding plain_step_def
      by (simp, intro ensures) (auto simp: from_node_def from_expression_def)
  qed (rule other, simp only: plain_step_def plain_node.case)+
qed

lemma result_when:
  assumes "declaration_form (WhenNode bs eb ev c l)" "this_deep (WhenNode bs eb ev c l)"
  shows "ensures strict \<sigma> (\<lambda>r. \<forall>ns. r = Some ns \<longrightarrow> from_node this_deep (WhenNode bs eb ev c l) ns)
    (selectWhen (selectBody N) bs eb)"
proof (rule ensures_when)
  let ?ok = "\<lambda>ns. from_node this_deep (WhenNode bs eb ev c l) ns"
  have parts: "\<forall>b \<in> set bs. parts_in below (when_branch_parts c b)" "\<forall>n \<in> set eb. body_form c n \<and> below n"
    and shape: "list_all (when_branch_shape c) bs" "c = WhenExpression \<longrightarrow> eb = []"
    using assms unfolding deep.simps(2) by (auto split: if_splits)
  have body: "ensures strict \<sigma> ?ok (selectBody N ns)"
    if "\<forall>n \<in> set ns. body_form c n \<and> below n" "c = WhenExpression \<longrightarrow> ns = []" for ns
  proof (cases "c = WhenExpression")
    case True
    then show ?thesis
      using that(2) unfolding selectBody_def by (simp, intro ensures) (simp add: from_node_def)
  next
    case False
    have "\<forall>n \<in> set ns. declaration_form n \<and> below n" "c \<noteq> WhenDeclarations \<longrightarrow> (\<forall>n \<in> set ns. statement_form n)"
      using that(1) by (auto simp: body_form_def intro: statement_declaration split: if_splits)
    then show ?thesis
      by (intro ensures) (use False in \<open>auto simp: from_node_def intro: deep_Suc\<close>)
  qed
  show "ensures strict \<sigma> (\<lambda>ns. \<forall>ms. Some ns = Some ms \<longrightarrow> ?ok ms) (selectBody N eb)"
    using body [OF parts(2) shape(2)] by simp
  show "ensures strict \<sigma> (\<lambda>ns. \<forall>ms. Some ns = Some ms \<longrightarrow> ?ok ms) (selectBody N (when_Body b))"
    if "b \<in> set bs" for b
    using body [of "when_Body b"] bspec [OF parts(1) that] shape(1) that
    by (cases b) (auto simp: list_all_iff dest!: bspec)
qed simp

lemma result_node_step:
  assumes "declaration_form n" "this_deep n"
  shows "ensures strict \<sigma> (from_node this_deep n) (node_step \<sigma> N E T n)"
proof (cases n)
  case (WhenNode bs eb ev c l)
  show ?thesis
    unfolding WhenNode node_step_def node.case
    by (intro ensures ensures_imp [OF result_when [OF assms [unfolded WhenNode]]])
      (use assms in \<open>auto simp: WhenNode from_node_def split: option.split\<close>)
next
  case (Stmt p)
  show ?thesis
    using result_plain_step [of p] assms by (simp add: Stmt node_step_def)
next
  case (Expr e)
  show ?thesis
    unfolding Expr node_step_def node.case
    by (intro ensures ensures_imp [OF result_compound_step [OF assms(2) [unfolded Expr]]])
      (auto simp: from_node_def from_expression_def)
next
  case (Type t)
  then show ?thesis using assms(1) by simp
qed

end

section \<open>The recursion\<close>

theorem selection_contract:
  "h \<le> k \<Longrightarrow> selecting strict \<sigma> h (selectNode \<sigma> k) (selectExpression \<sigma> k) (selectType \<sigma> k)"
proof (induction k arbitrary: h)
  case 0
  then show ?case by unfold_locales simp_all
next
  case (Suc k)
  show ?case
  proof unfold_locales
    fix j n assume "j \<le> h" "declaration_form n" "deep strict j n"
    then show "ensures strict \<sigma> (from_node (deep strict j) n) (selectNode \<sigma> (Suc k) n)"
      using Suc.prems selecting.result_node_step [OF Suc.IH, of "j - 1"] by (cases j) auto
  next
    fix n assume "expression_form n" "deep strict h n"
    then show "ensures strict \<sigma> (\<lambda>m. from_expression n m \<and> deep strict h m) (selectExpression \<sigma> (Suc k) n)"
      using Suc.prems selecting.result_expression_node_step [OF Suc.IH, of "h - 1"] by (cases h) auto
  next
    fix n assume "pointee_form n" "deep strict h n"
    then show "ensures strict \<sigma> (\<lambda>m. from_type n m \<and> deep strict h m) (selectType \<sigma> (Suc k) n)"
      using Suc.prems selecting.result_type_node_step [OF Suc.IH, of "h - 1"] by (cases h) auto
  qed
qed

interpretation selection: selecting strict \<sigma> k "selectNode \<sigma> k" "selectExpression \<sigma> k" "selectType \<sigma> k"
  for strict \<sigma> k
  by (rule selection_contract) simp

end
