(* ===== verification/Stage_Runs.thy ===== *)
theory Stage_Runs
  imports Stage_Typed
begin

text \<open>
  The passes of compile-time selection over the files of a module: they end, and the selected files are
  well formed; the bindings that are known before selection do not depend on the order of the passes; the
  functions that go through the evaluator are those that the unresolved expressions reach; and every
  selected declaration returns to its own file.
\<close>

section \<open>Passes\<close>

definition whole :: "bool \<Rightarrow> node \<Rightarrow> bool" where
  "whole strict n \<longleftrightarrow>
    declaration_form n \<and> everywhere (\<lambda>n. fits n \<and> shape n \<and> (strict \<longrightarrow> decided n)) n"

lemma ensures_pass [ensures]:
  assumes "\<forall>n \<in> set body. whole strict n" "\<And>ms. \<forall>m \<in> set ms. whole strict m \<Longrightarrow> Q ms"
  shows "ensures strict \<sigma> Q (select_pass \<sigma> body)"
proof -
  have "deep strict (stage_depth body) n" if "n \<in> set body" for n
    using assms(1) that unfolding stage_depth_def whole_def
    by (intro everywhere_deep) (auto intro: size_list_estimation')
  then show ?thesis
    unfolding select_pass_def
    by (intro selection.ensures_body assms(2)) (use assms(1) in \<open>auto simp: whole_def intro: deep_everywhere\<close>)
qed

lemma known_global:
  assumes "\<forall>(x, v) \<in> set globals. Underlying \<sigma> (ev_Type v) \<noteq> None" "findEvaluatedGlobal globals x = Some v"
  shows "known_value \<sigma> (stageValueFromIR fmt v)"
proof -
  obtain y where "(y, v) \<in> set globals"
    using assms(2) by (force simp: findEvaluatedGlobal_def find_Some_iff in_set_conv_nth)
  with assms(1) show ?thesis
    by (auto simp: known_value_def stageValueFromIR_def split: option.splits)
qed

lemma note_value_ok: "env_ok \<sigma> s \<Longrightarrow> known_value \<sigma> v \<Longrightarrow> env_ok \<sigma> (note_value x v s)"
  by (simp add: env_ok_def note_value_def)

lemma note_expressions_ok:
  "\<lbrakk>\<forall>(x, v) \<in> set globals. Underlying \<sigma> (ev_Type v) \<noteq> None; env_ok \<sigma> s;
    note_expressions fmt globals ns s = Inr s'\<rbrakk> \<Longrightarrow> env_ok \<sigma> s'"
proof (induction fmt globals ns s rule: note_expressions.induct)
  case (2 fmt globals i n ns s)
  then show ?case
    by (cases "findEvaluatedGlobal globals (stage_name i)")
      (simp_all add: note_value_ok known_global)
qed simp

lemma note_bindings_ok:
  "\<lbrakk>\<forall>(x, v) \<in> set globals. Underlying \<sigma> (ev_Type v) \<noteq> None; env_ok \<sigma> s\<rbrakk>
    \<Longrightarrow> env_ok \<sigma> (note_bindings fmt globals ds s)"
proof (induction fmt globals ds s rule: note_bindings.induct)
  case (2 fmt globals name v ds s)
  then show ?case
    by (cases "findEvaluatedGlobal globals name")
      (simp_all add: note_value_ok with_binding_ok known_global)
qed simp

lemma ensures_change: "\<lbrakk>\<And>s. selector_ok strict \<sigma> s \<Longrightarrow> selector_ok strict \<sigma> (f s); Q ()\<rbrakk>
    \<Longrightarrow> ensures strict \<sigma> Q (changeS f)"
  by (simp add: ensures_def changeS_def)

lemma ensures_read_bind:
  "(\<And>s. selector_ok strict \<sigma> s \<Longrightarrow> ensures strict \<sigma> Q (k (f s)))
    \<Longrightarrow> ensures strict \<sigma> Q (bindS (readS f) k)"
  by (simp add: ensures_def bindS_def readS_def)

text \<open>What the evaluation of the unresolved expressions can lead to.\<close>

definition request :: "stage_host \<Rightarrow> alias_store \<Rightarrow> Location \<Rightarrow> node list \<Rightarrow> node option list \<Rightarrow>
    (string \<times> EvalValue) list attempt run" where
  "request host \<sigma> loc body unresolved =
    evaluate_tree host \<sigma> (enumerate 0 (map the unresolved)) (staged_tree host loc body unresolved)"

definition known_types :: "alias_store \<Rightarrow> (string \<times> EvalValue) list \<Rightarrow> bool" where
  "known_types \<sigma> globals \<longleftrightarrow> (\<forall>(x, v) \<in> set globals. Underlying \<sigma> (ev_Type v) \<noteq> None)"

lemma unresolved_result:
  assumes "selector_ok strict \<sigma> s"
  shows "case evaluateUnresolved host \<sigma> loc body s of
      None \<Rightarrow> None \<notin> set (sel_unresolved s) \<and> request host \<sigma> loc body (sel_unresolved s) = None
    | Some StagePanicked \<Rightarrow>
        \<not> strict \<or> None \<notin> set (sel_unresolved s) \<and> request host \<sigma> loc body (sel_unresolved s) = Some Crashed
    | Some (StageFailed e) \<Rightarrow> True
    | Some (Selected (u, s')) \<Rightarrow> None \<notin> set (sel_unresolved s) \<and>
        (\<exists>globals. request host \<sigma> loc body (sel_unresolved s) = Some (Made globals) \<and>
          (known_types \<sigma> globals \<longrightarrow> selector_ok strict \<sigma> s'))"
proof (cases "None \<in> set (sel_unresolved s)")
  case True
  then have "\<not> strict" using assms by (auto simp: selector_ok_def)
  with True show ?thesis by (simp add: evaluateUnresolved_def bindS_def readS_def panicS_def)
next
  case False
  let ?exprs = "enumerate 0 (map the (sel_unresolved s))"
  let ?fmt = "sh_FormatFloat host"
  have run: "evaluateUnresolved host \<sigma> loc body s =
      (case request host \<sigma> loc body (sel_unresolved s) of
        None \<Rightarrow> None
      | Some Crashed \<Rightarrow> Some StagePanicked
      | Some (Refused e) \<Rightarrow> Some (StageFailed e)
      | Some (Made globals) \<Rightarrow>
          (case note_expressions ?fmt globals ?exprs (sel_env s) of
            Inl e \<Rightarrow> Some (StageFailed e)
          | Inr s' \<Rightarrow> Some (Selected ((), s\<lparr>sel_env :=
              note_bindings ?fmt globals (comptime_bindings body) s'\<rparr>))))"
    using False
    by (simp add: evaluateUnresolved_def request_def bindS_def readS_def panicS_def failS_def changeS_def
        Let_def split: option.split attempt.split sum.split)
  have ok: "selector_ok strict \<sigma> (s\<lparr>sel_env := note_bindings ?fmt globals (comptime_bindings body) s'\<rparr>)"
    if "known_types \<sigma> globals" "note_expressions ?fmt globals ?exprs (sel_env s) = Inr s'" for globals s'
    using assms that note_expressions_ok [of globals \<sigma> "sel_env s" ?fmt ?exprs s']
      note_bindings_ok [of globals \<sigma> s' ?fmt "comptime_bindings body"]
    by (auto simp: selector_ok_def known_types_def)
  show ?thesis
    unfolding run using False ok by (auto split: option.split attempt.split sum.split)
qed

section \<open>Known bindings\<close>

lemma prime_pass_ok: "env_ok \<sigma> s \<Longrightarrow> env_ok \<sigma> (fst (prime_pass s ds))"
proof (induction s ds rule: prime_pass.induct)
  case (2 s name v ds)
  then show ?case
    using evaluate_ok [of \<sigma> s v]
    by (auto split: sum.split option.split prod.split simp: with_binding_ok)
qed simp

lemma prime_loop_ok: "env_ok \<sigma> s \<Longrightarrow> env_ok \<sigma> (prime_loop s ds)"
proof (induction s ds rule: prime_loop.induct)
  case (1 s ds)
  then show ?case
    using prime_pass_ok [of \<sigma> s ds]
    by (subst prime_loop.simps) (auto split: prod.splits)
qed

lemma new_selector_ok: "selector_ok strict \<sigma> (new_selector cfg body)"
  unfolding selector_ok_def new_selector_def primeBindings_def
  by (simp add: prime_loop_ok env_ok_def [of \<sigma> "\<lparr>se_config = c, se_bindings = b, se_evaluated = e\<rparr>" for c b e])

section \<open>Files\<close>

definition whole_file :: "bool \<Rightarrow> Location \<times> node list \<Rightarrow> bool" where
  "whole_file strict = (\<lambda>(l, ns). \<forall>n \<in> set ns. whole strict n)"

lemma ensuresD:
  "\<lbrakk>ensures strict \<sigma> Q m; selector_ok strict \<sigma> s\<rbrakk> \<Longrightarrow>
    \<exists>r. m s = Some r \<and> (r = StagePanicked \<longrightarrow> \<not> strict) \<and> (\<forall>a s'. r = Selected (a, s') \<longrightarrow> Q a)"
  unfolding ensures_def by (drule spec, cases "m s") (auto split: staged.splits)

lemma owned_members: "owned \<in> set (return_nodes roots body) \<Longrightarrow> set (snd owned) \<subseteq> set body"
  by (auto simp: return_nodes_def)

lemma return_nodes_fst: "map fst (return_nodes roots body) = map fst roots"
proof -
  have "map fst (return_nodes roots body) = map (fst \<circ> snd) (enumerate 0 roots)"
    by (simp add: return_nodes_def case_prod_beta comp_def)
  also have "\<dots> = map fst roots" by (simp flip: map_map)
  finally show ?thesis .
qed

text \<open>What the first pass over the files asks of the rest of the compiler, if it does.\<close>

definition evaluation_request ::
  "stage_host \<Rightarrow> alias_store \<Rightarrow> StageConfig \<Rightarrow> roots \<Rightarrow> (string \<times> EvalValue) list attempt run option" where
  "evaluation_request host \<sigma> cfg roots =
    (let body = concat (map snd roots) in
     case select_pass \<sigma> body (new_selector cfg body) of
       Some (Selected (body', s)) \<Rightarrow>
         if sel_needsIR s \<and> None \<notin> set (sel_unresolved s)
         then Some (request host \<sigma> (fst (hd roots)) body' (sel_unresolved s)) else None
     | _ \<Rightarrow> None)"

lemma selector_reset: "selector_ok strict \<sigma> s \<Longrightarrow> selector_ok strict \<sigma> (s\<lparr>sel_needsIR := b, sel_unresolved := []\<rparr>)"
  by (simp add: selector_ok_def)

lemma second_pass:
  assumes "\<forall>n \<in> set body. whole strict n" and "selector_ok strict \<sigma> s"
  shows "\<exists>r. thenS (changeS (\<lambda>s. s\<lparr>sel_needsIR := False, sel_unresolved := []\<rparr>))
      (bindS (select_pass \<sigma> body) (\<lambda>body. bindS (readS sel_needsIR) (\<lambda>needsIR.
        if needsIR then failS e else retS body))) s = Some r \<and>
    (r = StagePanicked \<longrightarrow> \<not> strict) \<and> (\<forall>a s'. r = Selected (a, s') \<longrightarrow> (\<forall>m \<in> set a. whole strict m))"
proof (rule ensuresD [OF _ assms(2)])
  show "ensures strict \<sigma> (\<lambda>ms. \<forall>m \<in> set ms. whole strict m)
      (thenS (changeS (\<lambda>s. s\<lparr>sel_needsIR := False, sel_unresolved := []\<rparr>))
        (bindS (select_pass \<sigma> body) (\<lambda>body. bindS (readS sel_needsIR) (\<lambda>needsIR.
          if needsIR then failS e else retS body))))"
    by (intro ensures ensures_change) (use assms in \<open>auto simp: selector_ok_def\<close>)
qed

text \<open>
  The result of the two passes: they return unless the evaluation in between does not, or gives a
  value whose type has no form.
\<close>

lemma Roots_result:
  assumes "\<forall>file \<in> set roots. whole_file strict file"
  shows "case SelectCompileTimeRoots host \<sigma> cfg roots of
      None \<Rightarrow> evaluation_request host \<sigma> cfg roots = Some None \<or>
        (\<exists>globals. evaluation_request host \<sigma> cfg roots = Some (Some (Made globals)) \<and> \<not> known_types \<sigma> globals)
    | Some StagePanicked \<Rightarrow> \<not> strict \<or> evaluation_request host \<sigma> cfg roots = Some (Some Crashed) \<or>
        (\<exists>globals. evaluation_request host \<sigma> cfg roots = Some (Some (Made globals)) \<and> \<not> known_types \<sigma> globals)
    | Some (StageFailed e) \<Rightarrow> True
    | Some (Selected files) \<Rightarrow> map fst files = map fst roots \<and> ((\<forall>file \<in> set files. whole_file strict file) \<or>
        (\<exists>globals. evaluation_request host \<sigma> cfg roots = Some (Some (Made globals)) \<and> \<not> known_types \<sigma> globals))"
proof (cases "roots = []")
  case False
  let ?body = "concat (map snd roots)" and ?loc = "fst (hd roots)"
  let ?E = "evaluation_request host \<sigma> cfg roots"
  let ?ok = "\<lambda>r. case r of
      None \<Rightarrow> ?E = Some None \<or> (\<exists>globals. ?E = Some (Some (Made globals)) \<and> \<not> known_types \<sigma> globals)
    | Some StagePanicked \<Rightarrow> \<not> strict \<or> ?E = Some (Some Crashed) \<or>
        (\<exists>globals. ?E = Some (Some (Made globals)) \<and> \<not> known_types \<sigma> globals)
    | Some (StageFailed e) \<Rightarrow> True
    | Some (Selected (ms, s)) \<Rightarrow> (\<forall>m \<in> set ms. whole strict m) \<or>
        (\<exists>globals. ?E = Some (Some (Made globals)) \<and> \<not> known_types \<sigma> globals)"
  have whole: "\<forall>n \<in> set ?body. whole strict n" using assms by (auto simp: whole_file_def)
  have first: "ensures strict \<sigma> (\<lambda>ms. \<forall>m \<in> set ms. whole strict m) (select_pass \<sigma> ?body)"
    using whole by (intro ensures) auto
  obtain r1 where r1: "select_pass \<sigma> ?body (new_selector cfg ?body) = Some r1"
    "r1 = StagePanicked \<longrightarrow> \<not> strict" "\<forall>a s'. r1 = Selected (a, s') \<longrightarrow> (\<forall>m \<in> set a. whole strict m)"
    using ensuresD [OF first new_selector_ok] by blast
  have passes: "?ok (selectCompileTime host \<sigma> cfg ?loc ?body)"
  proof (cases r1)
    case (Selected p)
    obtain body s where p: "p = (body, s)" by (cases p)
    have body: "\<forall>m \<in> set body. whole strict m" using r1(3) Selected p by blast
    have s: "selector_ok strict \<sigma> s"
      using first new_selector_ok [of strict \<sigma> cfg ?body] r1(1) Selected p by (force simp: ensures_def)
    show ?thesis
    proof (cases "sel_needsIR s")
      case False
      then show ?thesis
        using r1(1) Selected p body
        by (simp add: selectCompileTime_def select_passes_def bindS_def readS_def retS_def)
    next
      case True
      let ?rest = "thenS (changeS (\<lambda>s. s\<lparr>sel_needsIR := False, sel_unresolved := []\<rparr>))
          (bindS (select_pass \<sigma> body) (\<lambda>body. bindS (readS sel_needsIR) (\<lambda>needsIR.
            if needsIR then failS (ParseError zero_Location
              ''compile-time selection left an unresolved when condition'' []) else retS body)))"
      have run: "selectCompileTime host \<sigma> cfg ?loc ?body =
          thenS (evaluateUnresolved host \<sigma> ?loc body) ?rest s"
        using r1(1) Selected p True
        by (simp add: selectCompileTime_def select_passes_def bindS_def readS_def)
      have E: "?E = (if None \<notin> set (sel_unresolved s)
          then Some (request host \<sigma> ?loc body (sel_unresolved s)) else None)"
        using r1(1) Selected p True by (simp add: evaluation_request_def Let_def)
      note ev = unresolved_result [OF s, of host ?loc body]
      show ?thesis
      proof (cases "evaluateUnresolved host \<sigma> ?loc body s")
        case None
        then show ?thesis using ev E run by (simp add: thenS_def bindS_def)
      next
        case (Some r2)
        show ?thesis
        proof (cases r2)
          case (Selected q)
          obtain u s2 where q: "q = (u, s2)" by (cases q)
          from ev Some Selected q obtain globals where g: "?E = Some (Some (Made globals))"
            "known_types \<sigma> globals \<longrightarrow> selector_ok strict \<sigma> s2" using E by auto
          have "selectCompileTime host \<sigma> cfg ?loc ?body = ?rest s2"
            unfolding run by (simp add: thenS_def bindS_def Some Selected q)
          moreover have "?ok (?rest s2)"
          proof (cases "known_types \<sigma> globals")
            case True
            with g(2) second_pass [OF body, of \<sigma> s2] obtain r where "?rest s2 = Some r"
              "r = StagePanicked \<longrightarrow> \<not> strict" "\<forall>a s'. r = Selected (a, s') \<longrightarrow> (\<forall>m \<in> set a. whole strict m)"
              by blast
            then show ?thesis by (auto split: staged.splits)
          next
            case False
            then show ?thesis using g(1) by (auto split: option.splits staged.splits)
          qed
          ultimately show ?thesis by simp
        qed (use ev E run Some in \<open>auto simp: thenS_def bindS_def\<close>)
      qed
    qed
  qed (use r1 in \<open>simp_all add: selectCompileTime_def select_passes_def bindS_def\<close>)
  then show ?thesis
    using False owned_members
    by (auto simp: SelectCompileTimeRoots_def return_nodes_fst whole_file_def
        split: option.splits staged.splits) (meson subsetD)+
qed (use assms in \<open>simp add: SelectCompileTimeRoots_def\<close>)

lemma everywhere_conj: "everywhere P n \<Longrightarrow> everywhere Q n \<Longrightarrow> everywhere (\<lambda>n. P n \<and> Q n) n"
proof (induction P n rule: everywhere.induct)
  case (1 P n)
  have now: "P n" "Q n" "list_all (\<lambda>(F, m). everywhere P m) (parts n)"
      "list_all (\<lambda>(F, m). everywhere Q m) (parts n)"
    using 1(2) [unfolded everywhere.simps [of P n]] 1(3) [unfolded everywhere.simps [of Q n]] by blast+
  then have "everywhere (\<lambda>n. P n \<and> Q n) m" if "(F, m) \<in> set (parts n)" for F m
    using 1(1) [OF that refl] that by (auto simp: list_all_iff)
  then show ?case
    unfolding everywhere.simps [of "\<lambda>n. P n \<and> Q n" n] using now by (auto simp: list_all_iff)
qed

lemma whole_file_everywhere:
  "whole_file strict (l', ns) \<longleftrightarrow>
    everywhere (\<lambda>n. fits n \<and> shape n \<and> (strict \<longrightarrow> decided n)) (Stmt (RootNode ns l))"
proof -
  let ?P = "\<lambda>n. fits n \<and> shape n \<and> (strict \<longrightarrow> decided n)"
  have "everywhere ?P (Stmt (RootNode ns l)) \<longleftrightarrow>
      list_all declaration_form ns \<and> list_all (everywhere ?P) ns"
    by (subst everywhere.simps) (simp add: fits_def [of "Stmt (RootNode ns l)"] each_def list_all_iff)
  then show ?thesis
    unfolding whole_file_def whole_def list_all_iff by auto
qed

lemma whole_file_tree: "whole_file False (l', ns) \<longleftrightarrow> tree (Stmt (RootNode ns l))"
  using whole_file_everywhere [of False l' ns l] by (simp add: tree_def)

lemma whole_file_decided:
  "\<lbrakk>tree (Stmt (RootNode ns l)); everywhere decided (Stmt (RootNode ns l))\<rbrakk> \<Longrightarrow> whole_file True (l', ns)"
proof -
  assume *: "tree (Stmt (RootNode ns l))" "everywhere decided (Stmt (RootNode ns l))"
  have "everywhere (\<lambda>n. (fits n \<and> shape n) \<and> decided n) (Stmt (RootNode ns l))"
    by (rule everywhere_conj [OF *(1) [unfolded tree_def] *(2)])
  then have "everywhere (\<lambda>n. fits n \<and> shape n \<and> (True \<longrightarrow> decided n)) (Stmt (RootNode ns l))"
    by (rule everywhere_mono) blast
  then show ?thesis
    by (rule whole_file_everywhere [THEN iffD2])
qed

section \<open>The order of the bindings\<close>

text \<open>Monotonicity: more bindings do not change the values and errors that fewer bindings give.\<close>

definition env_le :: "stage_env \<Rightarrow> stage_env \<Rightarrow> bool" where
  "env_le s s' \<longleftrightarrow> se_config s = se_config s' \<and> se_evaluated s = se_evaluated s' \<and>
    se_bindings s \<subseteq>\<^sub>m se_bindings s'"

lemma then_value_mono:
  assumes "r \<noteq> Inr None \<Longrightarrow> r' = r" "\<And>v. k v \<noteq> Inr None \<Longrightarrow> k' v = k v" "then_value r k \<noteq> Inr None"
  shows "then_value r' k' = then_value r k"
  using assms by (cases r) (auto simp: then_value_def split: option.splits)

lemmas literal_steps =
  evaluate_node.simps [of s "Expr (EnumLiteralNode v l)" for s v l]
  evaluate_node.simps [of s "Expr (BoolLiteralNode v l)" for s v l]
  evaluate_node.simps [of s "Expr (IntegerLiteralNode v l)" for s v l]
  evaluate_node.simps [of s "Expr (FloatLiteralNode v l)" for s v l]

lemma evaluate_node_mono:
  "env_le s s' \<Longrightarrow> evaluate_node s n \<noteq> Inr None \<Longrightarrow> evaluate_node s' n = evaluate_node s n"
proof (induction s n rule: evaluate_node.induct)
  case (1 s n)
  then have same: "se_evaluated s' = se_evaluated s" "se_config s' = se_config s"
    by (simp_all add: env_le_def)
  show ?case
  proof (cases "se_evaluated s (Some n)")
    case (Some v)
    then show ?thesis by (simp add: evaluate_node.simps [of s n] evaluate_node.simps [of s' n] same)
  next
    case None
    note step = evaluate_node.simps [of s n, unfolded None option.case]
      evaluate_node.simps [of s' n, unfolded same None option.case]
    note prems = 1(5) [unfolded step]
    show ?thesis
    proof (cases n)
      case (Expr e)
      show ?thesis
      proof (cases e)
        case (IdentifierNode x m as l)
        then show ?thesis
          using prems 1(4) unfolding step unfolding Expr
          by (auto simp: named_value_def env_le_def map_le_def dom_def split: option.splits)
      next
        case (UnaryOpNode op x l)
        then show ?thesis
          using prems 1(1) [OF None Expr UnaryOpNode 1(4)] unfolding step unfolding Expr
          by (auto intro: then_value_mono)
      next
        case (BinaryOpNode op x y l)
        then show ?thesis
          using prems 1(2,3) [OF None Expr BinaryOpNode] 1(4) unfolding step unfolding Expr
          by (auto intro!: then_value_mono)
      qed (use prems None same in \<open>simp_all add: Expr literal_steps\<close>)
    qed (use prems in simp_all)
  qed
qed

lemma evaluate_mono: "\<lbrakk>env_le s s'; evaluate s x = Inr (Some w)\<rbrakk> \<Longrightarrow> evaluate s' x = Inr (Some w)"
  using evaluate_node_mono [of s s'] by (cases x) (auto simp: evaluate_def env_le_def)

text \<open>
  The source takes the bindings from a map, so in any order, and a binding that it adds is known to
  those that follow. A run binds any remaining binding that is resolved, until none is.
\<close>

inductive primes :: "stage_env \<Rightarrow> (string \<times> node option) list \<Rightarrow> stage_env \<Rightarrow> bool" where
  stop: "(\<And>x v w. (x, v) \<in> set ds \<Longrightarrow> evaluate s v \<noteq> Inr (Some w)) \<Longrightarrow> primes s ds s"
| bind: "\<lbrakk>(x, v) \<in> set ds; evaluate s v = Inr (Some w); primes (with_binding x w s) (remove1 (x, v) ds) s'\<rbrakk>
    \<Longrightarrow> primes s ds s'"

lemma env_le_refl: "env_le s s"
  by (simp add: env_le_def)

lemma env_le_binding: "se_bindings s x = None \<Longrightarrow> env_le s (with_binding x w s)"
  by (auto simp: env_le_def with_binding_def map_le_def)

lemma env_le_trans: "env_le s s' \<Longrightarrow> env_le s' s'' \<Longrightarrow> env_le s s''"
  unfolding env_le_def by (auto intro: map_le_trans)

text \<open>Names are declared once, and are not bound yet.\<close>

definition unbound :: "stage_env \<Rightarrow> (string \<times> node option) list \<Rightarrow> bool" where
  "unbound s ds \<longleftrightarrow> distinct (map fst ds) \<and> (\<forall>x \<in> fst ` set ds. se_bindings s x = None)"

lemma distinct_remove1: "distinct (map fst ds) \<Longrightarrow> distinct (map fst (remove1 d ds))"
proof (induction ds)
  case (Cons e ds)
  then show ?case using set_remove1_subset [of d ds] by auto
qed simp

lemma removed_name: "\<lbrakk>distinct (map fst ds); (x, v) \<in> set ds\<rbrakk> \<Longrightarrow> set (remove1 (x, v) ds) = {d \<in> set ds. fst d \<noteq> x}"
  by (induction ds) (auto simp: image_iff)

lemma unbound_remove:
  "\<lbrakk>unbound s ds; (x, v) \<in> set ds\<rbrakk> \<Longrightarrow> unbound (with_binding x w s) (remove1 (x, v) ds)"
  by (auto simp: unbound_def removed_name distinct_remove1 with_binding_def)

text \<open>The end of a run: the bindings are values of their declarations, and no other is resolved.\<close>

lemma primes_end:
  "\<lbrakk>primes s ds s'; unbound s ds\<rbrakk> \<Longrightarrow>
    env_le s s' \<and> (\<forall>x v w. (x, v) \<in> set ds \<longrightarrow> evaluate s' v = Inr (Some w) \<longleftrightarrow> se_bindings s' x = Some w) \<and>
    (\<forall>x. x \<notin> fst ` set ds \<longrightarrow> se_bindings s' x = se_bindings s x)"
proof (induction rule: primes.induct)
  case (stop ds s)
  then show ?case by (force simp: unbound_def env_le_refl)
next
  case (bind x v ds s w s')
  note IH = bind.IH [OF unbound_remove [OF bind.prems bind.hyps(1)]]
  have names: "distinct (map fst ds)" "se_bindings s x = None"
    using bind.prems bind.hyps(1) by (auto simp: unbound_def)
  have le: "env_le s s'" using IH env_le_trans env_le_binding [OF names(2)] by blast
  have bound: "se_bindings s' x = Some w"
    using IH by (auto simp: env_le_def with_binding_def map_le_def)
  have "evaluate s' u = Inr (Some w') \<longleftrightarrow> se_bindings s' y = Some w'" if "(y, u) \<in> set ds" for y u w'
  proof (cases "y = x")
    case True
    then have "u = v" using that bind.hyps(1) names(1) by (auto dest: eq_key_imp_eq_value)
    then show ?thesis using evaluate_mono [OF le bind.hyps(2)] bound True by simp
  next
    case False
    then have "(y, u) \<in> set (remove1 (x, v) ds)"
      using that removed_name [OF names(1) bind.hyps(1)] by simp
    then show ?thesis using IH by blast
  qed
  moreover have "se_bindings s' y = se_bindings s y" if "y \<notin> fst ` set ds" for y
  proof -
    have "y \<noteq> x" "y \<notin> fst ` set (remove1 (x, v) ds)"
      using that bind.hyps(1) set_remove1_subset [of "(x, v)" ds] by force+
    then show ?thesis using IH by (simp add: with_binding_def)
  qed
  ultimately show ?case using le by blast
qed

lemma primes_least:
  "\<lbrakk>primes s ds s'; env_le s u; \<And>x v w. (x, v) \<in> set ds \<Longrightarrow> evaluate u v = Inr (Some w) \<Longrightarrow> se_bindings u x = Some w\<rbrakk>
    \<Longrightarrow> env_le s' u"
proof (induction rule: primes.induct)
  case (bind x v ds s w s')
  have "se_bindings u x = Some w"
    by (rule bind.prems(2) [OF bind.hyps(1) evaluate_mono [OF bind.prems(1) bind.hyps(2)]])
  then have "env_le (with_binding x w s) u"
    using bind.prems(1) by (auto simp: env_le_def with_binding_def map_le_def)
  then show ?case
  proof (rule bind.IH)
    fix y v' w' assume "(y, v') \<in> set (remove1 (x, v) ds)" "evaluate u v' = Inr (Some w')"
    then show "se_bindings u y = Some w'"
      using bind.prems(2) set_remove1_subset [of "(x, v)" ds] by blast
  qed
qed

lemma env_le_antisym: "env_le s s' \<Longrightarrow> env_le s' s \<Longrightarrow> s = s'"
  unfolding env_le_def by (intro stage_env.equality map_le_antisym) simp_all

lemma primes_unique: "\<lbrakk>primes s ds s1; primes s ds s2; unbound s ds\<rbrakk> \<Longrightarrow> s1 = s2"
proof (rule env_le_antisym)
  assume runs: "primes s ds s1" "primes s ds s2" and fresh: "unbound s ds"
  note ends = primes_end [OF runs(1) fresh] primes_end [OF runs(2) fresh]
  show "env_le s1 s2" using ends(2) by (intro primes_least [OF runs(1)]) blast+
  show "env_le s2 s1" using ends(1) by (intro primes_least [OF runs(2)]) blast+
qed

text \<open>The passes of the model are a run.\<close>

lemma prime_pass_cases:
  fixes r :: evaluation
  obtains (error) e where "r = Inl e" | (pending) "r = Inr None" | (resolved) w where "r = Inr (Some w)"
  by (metis option.exhaust sum.exhaust)

lemma prime_pass_step:
  "prime_pass s ((x, v) # ds) = (s', rest) \<Longrightarrow>
    (\<exists>w. evaluate s v = Inr (Some w) \<and> prime_pass (with_binding x w s) ds = (s', rest)) \<or>
    (\<exists>rest'. (\<forall>w. evaluate s v \<noteq> Inr (Some w)) \<and> prime_pass s ds = (s', rest') \<and> rest = (x, v) # rest')"
proof (cases "\<exists>w. evaluate s v = Inr (Some w)")
  case False
  then have "prime_pass s ((x, v) # ds) = (case prime_pass s ds of (s', rest) \<Rightarrow> (s', (x, v) # rest))"
    by (cases "evaluate s v" rule: prime_pass_cases) simp_all
  then show "prime_pass s ((x, v) # ds) = (s', rest) \<Longrightarrow> ?thesis"
    using False by (cases "prime_pass s ds") simp
qed auto

lemma prime_pass_subset:
  "prime_pass s ds = (s', rest) \<Longrightarrow> set rest \<subseteq> set ds \<and> (distinct (map fst ds) \<longrightarrow> distinct (map fst rest))"
proof (induction ds arbitrary: s rest)
  case (Cons d ds)
  obtain x v where d: "d = (x, v)" by (cases d)
  from prime_pass_step [OF Cons.prems [unfolded d]] show ?case
    using Cons.IH by (fastforce simp: d)
qed simp

lemma prime_pass_none:
  "\<lbrakk>prime_pass s ds = (s', rest); length rest = length ds\<rbrakk>
    \<Longrightarrow> s' = s \<and> (\<forall>(x, v) \<in> set ds. \<forall>w. evaluate s v \<noteq> Inr (Some w))"
proof (induction ds arbitrary: s rest)
  case (Cons d ds)
  obtain y u where d: "d = (y, u)" by (cases d)
  from prime_pass_step [OF Cons.prems(1) [unfolded d]] show ?case
  proof (elim disjE exE conjE)
    fix w' assume "prime_pass (with_binding y w' s) ds = (s', rest)"
    then show ?thesis using Cons.prems(2) prime_pass_length [of "with_binding y w' s" ds] by simp
  next
    fix rest' assume *: "\<forall>w. evaluate s u \<noteq> Inr (Some w)" "prime_pass s ds = (s', rest')" "rest = (y, u) # rest'"
    then show ?thesis using Cons.IH [OF *(2)] Cons.prems(2) by (simp add: d)
  qed
qed simp

lemma prime_pass_primes:
  "\<lbrakk>prime_pass s ds = (s', rest); primes s' (pre @ rest) u; distinct (map fst (pre @ ds))\<rbrakk>
    \<Longrightarrow> primes s (pre @ ds) u"
proof (induction ds arbitrary: s rest pre)
  case (Cons d ds)
  obtain x v where d: "d = (x, v)" by (cases d)
  from prime_pass_step [OF Cons.prems(1) [unfolded d]] show ?case
  proof (elim disjE exE conjE)
    fix w assume *: "evaluate s v = Inr (Some w)" "prime_pass (with_binding x w s) ds = (s', rest)"
    have "(x, v) \<notin> set pre" using Cons.prems(3) by (force simp: d)
    then have "remove1 (x, v) (pre @ d # ds) = pre @ ds" by (simp add: d remove1_append)
    moreover have "primes (with_binding x w s) (pre @ ds) u"
      using Cons.IH [OF *(2) Cons.prems(2)] Cons.prems(3) by simp
    ultimately show ?thesis using primes.bind [of x v "pre @ d # ds", OF _ *(1)] by (simp add: d)
  next
    fix rest' assume *: "prime_pass s ds = (s', rest')" "rest = (x, v) # rest'"
    have "primes s' ((pre @ [d]) @ rest') u" using Cons.prems(2) *(2) by (simp add: d)
    from Cons.IH [OF *(1) this] show ?thesis using Cons.prems(3) by simp
  qed
qed simp

lemma prime_loop_primes: "distinct (map fst ds) \<Longrightarrow> primes s ds (prime_loop s ds)"
proof (induction s ds rule: prime_loop.induct)
  case (1 s ds)
  obtain s' rest where pass: "prime_pass s ds = (s', rest)" by fastforce
  show ?case
  proof (cases "length rest = length ds")
    case True
    then show ?thesis
      using prime_pass_none [OF pass True]
      by (subst prime_loop.simps) (auto simp: pass intro!: primes.stop)
  next
    case False
    have "primes s' ([] @ rest) (prime_loop s' rest)"
      using 1(1) [OF pass [symmetric] False] prime_pass_subset [OF pass] 1(2) by simp
    then have "primes s ds (prime_loop s' rest)"
      using prime_pass_primes [OF pass, of "[]"] 1(2) by simp
    then show ?thesis using False by (subst prime_loop.simps) (simp add: pass)
  qed
qed

theorem primes_iff: "unbound s ds \<Longrightarrow> primes s ds s' \<longleftrightarrow> s' = prime_loop s ds"
  using prime_loop_primes [of ds s] primes_unique [of s ds] by (auto simp: unbound_def)

section \<open>The functions that are reached\<close>

text \<open>A function is reached if a given name is its name, or if a function that is reached calls it by name.\<close>

inductive reached :: "node FunctionDef list \<Rightarrow> string set \<Rightarrow> node FunctionDef \<Rightarrow> bool" for defs names where
  named: "\<lbrakk>f \<in> set defs; fd_Name f \<in> names\<rbrakk> \<Longrightarrow> reached defs names f"
| called: "\<lbrakk>reached defs names g; f \<in> set defs; fd_Name f \<in> set (body_calls g)\<rbrakk> \<Longrightarrow> reached defs names f"

lemma reach_loop_sound:
  "\<lbrakk>\<And>f. f \<in> set found \<Longrightarrow> reached defs ns f; \<And>x f. x \<in> set names \<Longrightarrow> f \<in> set defs \<Longrightarrow> fd_Name f = x \<Longrightarrow> reached defs ns f\<rbrakk>
    \<Longrightarrow> f \<in> set (reach_loop defs names found) \<Longrightarrow> reached defs ns f"
proof (induction defs names found rule: reach_loop.induct)
  case (1 defs names found)
  let ?new = "filter (\<lambda>f. fd_Name f \<in> set names \<and> f \<notin> set found) defs"
  show ?case
  proof (cases "?new = []")
    case True
    then show ?thesis using 1 by (simp add: reach_loop.simps [of defs names found])
  next
    case False
    have loop: "reach_loop defs names found = reach_loop defs (names @ concat (map body_calls ?new)) (found @ ?new)"
      using False unfolding reach_loop.simps [of defs names found] Let_def by simp
    show ?thesis
      by (rule 1(1) [OF refl False _ _ 1(4) [unfolded loop]]) (use 1(2,3) in \<open>auto intro: called\<close>)
  qed
qed

lemma reach_loop_complete:
  "(\<And>g. g \<in> set found \<Longrightarrow> set (body_calls g) \<subseteq> set names) \<Longrightarrow>
    (\<forall>f \<in> set defs. fd_Name f \<in> set names \<longrightarrow> f \<in> set (reach_loop defs names found)) \<and>
    (\<forall>g \<in> set (reach_loop defs names found). \<forall>f \<in> set defs.
      fd_Name f \<in> set (body_calls g) \<longrightarrow> f \<in> set (reach_loop defs names found))"
proof (induction defs names found rule: reach_loop.induct)
  case (1 defs names found)
  let ?new = "filter (\<lambda>f. fd_Name f \<in> set names \<and> f \<notin> set found) defs"
  show ?case
  proof (cases "?new = []")
    case True
    then have "\<forall>f \<in> set defs. fd_Name f \<in> set names \<longrightarrow> f \<in> set found"
      by (auto simp: filter_empty_conv)
    moreover have "reach_loop defs names found = found"
      using True unfolding reach_loop.simps [of defs names found] Let_def by simp
    ultimately show ?thesis using 1(2) by auto
  next
    case False
    have loop: "reach_loop defs names found = reach_loop defs (names @ concat (map body_calls ?new)) (found @ ?new)"
      using False unfolding reach_loop.simps [of defs names found] Let_def by simp
    have calls: "set (body_calls g) \<subseteq> set (names @ concat (map body_calls ?new))" if "g \<in> set (found @ ?new)" for g
      using that 1(2) [of g] by auto
    from 1(1) [OF refl False calls] show ?thesis unfolding loop by auto
  qed
qed

lemma reach_loop_reached: "set (reach_loop defs names []) = {f. reached defs (set names) f}"
proof (intro equalityI subsetI CollectI)
  fix f assume "f \<in> set (reach_loop defs names [])"
  then show "reached defs (set names) f" by (rule reach_loop_sound [rotated 2]) (auto intro: named)
next
  fix f assume "f \<in> {f. reached defs (set names) f}"
  then have "reached defs (set names) f" by simp
  then show "f \<in> set (reach_loop defs names [])"
    using reach_loop_complete [of "[]" names defs] by induction auto
qed

section \<open>Owners\<close>

lemma owner_of_bound: "owner_of i roots path = Some j \<Longrightarrow> i \<le> j \<and> j < i + length roots"
  by (induction i roots path rule: owner_of.induct) (auto split: option.splits if_splits)

lemma owner_of_path: "owner_of i roots path = Some j \<Longrightarrow> FilePath (fst (roots ! (j - i))) = path"
proof (induction i roots path rule: owner_of.induct)
  case (2 i l b roots path)
  then show ?case
    using owner_of_bound [of "Suc i" roots path j]
    by (auto split: option.splits if_splits simp: nth_Cons')
qed simp

lemma owner_of_known: "path \<in> set (map (FilePath \<circ> fst) roots) \<Longrightarrow> owner_of i roots path \<noteq> None"
  by (induction i roots path rule: owner_of.induct) (force split: option.splits)+

lemma nth_path:
  assumes "k < length roots"
  shows "FilePath (fst (roots ! k)) \<in> set (map (FilePath \<circ> fst) roots)"
  using nth_mem [of k "map (FilePath \<circ> fst) roots"] assms by simp

lemma owner_unique:
  assumes "distinct (map (FilePath \<circ> fst) roots)" "k < length roots" "FilePath (fst (roots ! k)) = FilePath (GetLoc n)"
  shows "file_owner roots n = k"
proof -
  have "FilePath (GetLoc n) \<in> set (map (FilePath \<circ> fst) roots)"
    using nth_path [OF assms(2)] unfolding assms(3) .
  then obtain j where j: "owner_of 0 roots (FilePath (GetLoc n)) = Some j"
    using owner_of_known by blast
  then have "j < length roots" "FilePath (fst (roots ! j)) = FilePath (fst (roots ! k))"
    using owner_of_bound [OF j] owner_of_path [OF j] assms(3) by simp_all
  then have "j = k" using assms(1,2) by (auto simp: distinct_conv_nth)
  then show ?thesis by (simp add: file_owner_def j)
qed

lemma owner_unknown: "FilePath (GetLoc n) \<notin> set (map (FilePath \<circ> fst) roots) \<Longrightarrow> file_owner roots n = 0"
proof (cases "owner_of 0 roots (FilePath (GetLoc n))")
  case (Some j)
  have "FilePath (GetLoc n) \<in> set (map (FilePath \<circ> fst) roots)"
    using nth_path [of j roots] owner_of_bound [OF Some] owner_of_path [OF Some]
    by (simp only: diff_zero add_0)
  then show "FilePath (GetLoc n) \<notin> set (map (FilePath \<circ> fst) roots) \<Longrightarrow> ?thesis" by blast
qed (simp add: file_owner_def)

lemma return_nodes_nth:
  "k < length roots \<Longrightarrow>
    return_nodes roots body ! k = (fst (roots ! k), filter (\<lambda>n. file_owner roots n = k) body)"
  by (simp add: return_nodes_def nth_enumerate_eq split: prod.split)

end
