(* ===== verification/Stage_Keeps.thy ===== *)
theory Stage_Keeps
  imports Stage_Runs
begin

text \<open>
  Selection leaves alone what has no compile-time construct: no conditional, directive, compile-time
  binding or link that is still to be selected. \<open>keeps x m\<close>: without bindings, \<open>m\<close> returns \<open>x\<close> and
  does not change the state.
\<close>

named_theorems keeps \<open>methods that return their argument\<close>

section \<open>Rules\<close>

definition keeps :: "'a \<Rightarrow> 'a stage \<Rightarrow> bool" where
  "keeps x m \<longleftrightarrow> (\<forall>s. se_bindings (sel_env s) = Map.empty \<longrightarrow> m s = Some (Selected (x, s)))"

lemma bind_ret [simp]: "bindS (retS a) k = k a"
  by (simp add: fun_eq_iff bindS_def retS_def)

lemma keeps_ret [keeps]: "keeps x (retS x)"
  by (simp add: keeps_def retS_def)

lemma keeps_bind [keeps]: "keeps x m \<Longrightarrow> keeps y (k x) \<Longrightarrow> keeps y (bindS m k)"
  by (simp add: keeps_def bindS_def)

lemma keeps_bindings [keeps]:
  "keeps y (k Map.empty) \<Longrightarrow> keeps y (bindS (readS (\<lambda>s. se_bindings (sel_env s))) k)"
  by (simp add: keeps_def bindS_def readS_def)

lemma keeps_map [keeps]: "(\<And>x. x \<in> set xs \<Longrightarrow> keeps x (f x)) \<Longrightarrow> keeps xs (map_stage f xs)"
proof (induction xs)
  case (Cons x xs)
  have "keeps x (f x)" "keeps xs (map_stage f xs)" using Cons by simp_all
  then show ?case by (auto intro!: keeps)
qed (simp add: keeps)

lemma keeps_option [keeps]: "(\<And>a. x = Some a \<Longrightarrow> keeps a (f a)) \<Longrightarrow> keeps x (option_stage f x)"
  by (cases x) (auto simp: option_stage_def intro: keeps)

lemma inline_empty: "inlineStageExpression Map.empty n = n"
  by (induction "Map.empty :: string \<rightharpoonup> stageValue" n rule: inlineStageExpression.induct) simp_all

section \<open>Trees without compile-time constructs\<close>

fun is_resolved :: "node parsed_attribute \<Rightarrow> bool" where
  "is_resolved (Resolved a) = True"
| "is_resolved (Parsed_Link items) = False"

fun unstaged :: "node \<Rightarrow> bool" where
  "unstaged (WhenNode bs eb ev c l) = False"
| "unstaged (Stmt (CompilerDirectiveNode name c m nl l)) = False"
| "unstaged (Stmt (DeclarationNode name nl m pub t v c attrs l)) = (\<not> c)"
| "unstaged (Stmt (ModuleNode name attrs l)) = list_all is_resolved attrs"
| "unstaged n = True"

text \<open>The contract of the methods that select the nodes below, for the nodes in \<open>S\<close>.\<close>

locale keeping =
  fixes S :: "node \<Rightarrow> bool" and N :: "node \<Rightarrow> node list stage" and E T :: selection
  assumes keeps_N [keeps]: "S n \<Longrightarrow> keeps [n] (N n)"
    and keeps_E [keeps]: "S n \<Longrightarrow> keeps n (E n)"
    and keeps_T [keeps]: "S n \<Longrightarrow> keeps n (T n)"
    and S_parts: "S n \<Longrightarrow> parts_in S (parts n)"
begin

lemma keeps_body [keeps]:
  assumes "\<forall>n \<in> set ns. S n"
  shows "keeps ns (selectBody N ns)"
proof -
  have "keeps (map (\<lambda>n. [n]) ns) (map_stage N ns)"
    using assms
  proof (induction ns)
    case (Cons n ns)
    then have "keeps [n] (N n)" "keeps (map (\<lambda>n. [n]) ns) (map_stage N ns)" by (simp_all add: keeps)
    then show ?case by (auto intro!: keeps)
  qed (simp add: keeps)
  then have "keeps (concat (map (\<lambda>n. [n]) ns)) (selectBody N ns)"
    unfolding selectBody_def by (rule keeps_bind) (rule keeps_ret)
  then show ?thesis by simp
qed

lemma keeps_in_place [keeps]: "S n \<Longrightarrow> keeps n (in_place N n)"
  unfolding in_place_def keeps_def bindS_def retS_def using keeps_N by (simp add: keeps_def)

lemma keeps_fields [keeps]:
  "\<lbrakk>\<And>n. n \<in> snd ` set fs \<Longrightarrow> keeps n (F n)\<rbrakk> \<Longrightarrow> keeps fs (select_fields F fs)"
  unfolding select_fields_def
  by (intro keeps_map) (force intro!: keeps_bind [OF _ keeps_ret])

lemma keeps_argument: "parts_in S (argument_parts a) \<Longrightarrow> keeps a (select_argument E T a)"
  unfolding select_argument_def
  by (cases a) (auto simp: argument_parts_def keeps_def bindS_def retS_def option_stage_def
      keeps_E [unfolded keeps_def] keeps_T [unfolded keeps_def] split: option.split)

lemma keeps_arm: "parts_in S (arm_parts a) \<Longrightarrow> keeps a (select_arm E a)"
  unfolding select_arm_def
  by (cases a) (auto simp: keeps_def bindS_def retS_def option_stage_def
      keeps_E [unfolded keeps_def] split: option.split)

lemma keeps_branch: "parts_in S (branch_parts x b) \<Longrightarrow> keeps b (select_branch N E b)"
  unfolding select_branch_def branch_parts_def
  by (cases b) (auto intro!: keeps)

lemma keeps_compound: "parts_in S (expression_parts e) \<Longrightarrow> keeps e (compound_step N E e)"
  unfolding compound_step_def
  by (cases e) (auto intro!: keeps keeps_arm keeps_branch)

lemma keeps_expression: "parts_in S (expression_parts e) \<Longrightarrow> keeps e (expression_step N E T e)"
  unfolding expression_step_def
  by (cases e) (auto intro!: keeps keeps_compound)

lemma keeps_variant:
  "\<forall>n \<in> snd ` set (variant_Fields v). S n \<Longrightarrow>
    keeps v (bindS (select_fields T (variant_Fields v)) (\<lambda>fs.
      retS (TaggedUnionVariantNode (variant_Name v) fs (variant_Loc v))))"
  by (cases v) (auto intro!: keeps)

lemma keeps_type: "parts_in S (type_parts t) \<Longrightarrow> keeps t (type_step E T t)"
  unfolding type_step_def
  by (cases t) (auto simp: inline_empty intro!: keeps keeps_variant)

lemma keeps_function: "parts_in S (function_parts f) \<Longrightarrow> keeps f (select_function N E T f)"
proof -
  assume parts: "parts_in S (function_parts f)"
  obtain nm ow owt ogs rc gs as rt b eb hv tv p attrs l where
      f: "f = FunctionDef nm ow owt ogs rc gs as rt b eb hv tv p attrs l"
    by (cases f)
  have body: "keeps b
      (case b of
         Some (Expr (BlockNode ns x l)) \<Rightarrow>
           bindS (selectBody N ns) (\<lambda>ns. retS (Some (Expr (BlockNode ns x l))))
       | Some b \<Rightarrow> if is_expression b then bindS (E b) (\<lambda>b. retS (Some b)) else retS (Some b)
       | None \<Rightarrow> retS None)"
  proof (cases "\<exists>ns x l. b = Some (Expr (BlockNode ns x l))")
    case True
    then obtain ns x l where b: "b = Some (Expr (BlockNode ns x l))" by blast
    then have "\<forall>n \<in> set ns. S n" using parts S_parts [of "Expr (BlockNode ns x l)"] by (auto simp: f)
    then show ?thesis by (auto simp: b intro!: keeps)
  next
    case False
    have "(case b of
         Some (Expr (BlockNode ns x l)) \<Rightarrow>
           bindS (selectBody N ns) (\<lambda>ns. retS (Some (Expr (BlockNode ns x l))))
       | Some b \<Rightarrow> if is_expression b then bindS (E b) (\<lambda>b. retS (Some b)) else retS (Some b)
       | None \<Rightarrow> retS None) = option_stage E b"
      using False parts unfolding f option_stage_def
      by (auto split: option.split node.split expression_node.split)
    then show ?thesis using parts by (auto simp: f intro!: keeps)
  qed
  have args: "keeps as (map_stage (select_argument E T) as)" and result: "keeps rt (option_stage T rt)"
    using parts by (auto simp: f intro!: keeps keeps_argument)
  show ?thesis
    unfolding select_function_def f FunctionDef.sel
    by (rule keeps_bind [OF args], rule keeps_bind [OF result], rule keeps_bind [OF body], rule keeps_ret)
qed

lemma keeps_results: "\<lbrakk>\<forall>n. v = Some n \<longrightarrow> S n; \<forall>n \<in> set vs. S n\<rbrakk> \<Longrightarrow> keeps (v, vs) (select_results E v vs)"
  unfolding select_results_def
  by (cases vs) (auto intro!: keeps)

lemma shared_same: "shared_target c a v v = a"
  by (auto simp: shared_target_def split: option.split node.split expression_node.split)

lemma keeps_attributes: "list_all is_resolved attrs \<Longrightarrow> keeps attrs (map_stage select_attribute attrs)"
proof (rule keeps_map)
  fix a assume "list_all is_resolved attrs" "a \<in> set attrs"
  then show "keeps a (select_attribute a)"
    by (cases a) (auto simp: select_attribute_def list_all_iff intro: keeps_ret)
qed

lemma keeps_plain:
  assumes "parts_in S (plain_parts p)" "unstaged (Stmt p)"
  shows "keeps [Stmt p] (plain_step \<sigma> N E T p)"
proof -
  have other: ?thesis if "plain_step \<sigma> N E T p = retS [Stmt p]"
    unfolding that by (rule keeps_ret)
  show ?thesis
  proof (cases p)
    case (DeferNode n l)
    then have "keeps [n] (N n)" using assms(1) by (simp add: keeps)
    then show ?thesis unfolding plain_step_def DeferNode by (auto intro!: keeps_bind [of "[n]"] keeps_ret)
  next
    case (AssignmentNode a as v c l)
    then have "keeps v (E v)" using assms(1) by (simp add: keeps)
    then show ?thesis
      unfolding plain_step_def AssignmentNode by (auto simp: shared_same intro!: keeps_bind [of v] keeps_ret)
  next
    case (ControlKeywordNode k v vs l)
    then have "keeps (v, vs) (select_results E v vs)" using assms(1) by (auto intro!: keeps_results)
    then show ?thesis
      unfolding plain_step_def ControlKeywordNode by (auto intro!: keeps_bind [of "(v, vs)"] keeps_ret)
  qed (use assms in \<open>auto simp: plain_step_def thenS_def
      intro!: keeps keeps_function keeps_attributes\<close>)
qed

lemma keeps_node: "\<lbrakk>parts_in S (parts n); unstaged n\<rbrakk> \<Longrightarrow> keeps [n] (node_step \<sigma> N E T n)"
  using keeps_plain unfolding node_step_def
  by (cases n) (auto intro!: keeps keeps_compound)

lemma keeps_expression_node: "\<lbrakk>parts_in S (parts n); unstaged n\<rbrakk> \<Longrightarrow> keeps n (expression_node_step N E T n)"
  unfolding expression_node_step_def
  by (cases n) (auto intro!: keeps keeps_expression)

lemma keeps_type_node: "\<lbrakk>parts_in S (parts n); unstaged n\<rbrakk> \<Longrightarrow> keeps n (type_node_step E T n)"
  unfolding type_node_step_def
  by (cases n) (auto intro!: keeps keeps_type)

end

section \<open>The recursion\<close>

definition plain_tree :: "nat \<Rightarrow> node \<Rightarrow> bool" where
  "plain_tree k n \<longleftrightarrow> everywhere (\<lambda>n. fits n \<and> unstaged n) n \<and> size n < k"

lemma plain_parts_tree: "plain_tree (Suc k) n \<Longrightarrow> unstaged n \<and> parts_in (plain_tree k) (parts n)"
  unfolding plain_tree_def everywhere.simps [of _ n]
  by (auto simp: parts_in_def list_all_iff fits_def dest: parts_size)

lemma plain_tree_Suc: "plain_tree k n \<Longrightarrow> plain_tree (Suc k) n"
  by (simp add: plain_tree_def)

lemma keeping_selection:
  "keeping (plain_tree k) (selectNode \<sigma> k) (selectExpression \<sigma> k) (selectType \<sigma> k)"
proof (induction k)
  case 0
  then show ?case by unfold_locales (simp_all add: plain_tree_def)
next
  case (Suc k)
  show ?case
  proof unfold_locales
    fix n assume n: "plain_tree (Suc k) n"
    note now = plain_parts_tree [OF n, THEN conjunct2] plain_parts_tree [OF n, THEN conjunct1]
    show "keeps [n] (selectNode \<sigma> (Suc k) n)" "keeps n (selectExpression \<sigma> (Suc k) n)"
        "keeps n (selectType \<sigma> (Suc k) n)"
      unfolding selectNode.simps selectExpression.simps selectType.simps
      by (rule keeping.keeps_node [OF Suc.IH now] keeping.keeps_expression_node [OF Suc.IH now]
          keeping.keeps_type_node [OF Suc.IH now])+
    show "parts_in (plain_tree (Suc k)) (parts n)"
      using now(1) by (rule parts_in_mono) (rule plain_tree_Suc)
  qed
qed

interpretation plain_selection: keeping "plain_tree k" "selectNode \<sigma> k" "selectExpression \<sigma> k" "selectType \<sigma> k"
  for k \<sigma>
  by (rule keeping_selection)

section \<open>Files\<close>

lemma keeps_pass:
  assumes "\<forall>n \<in> set body. everywhere (\<lambda>n. fits n \<and> unstaged n) n"
  shows "keeps body (select_pass \<sigma> body)"
  unfolding select_pass_def
  by (intro plain_selection.keeps_body) (use assms in \<open>auto simp: plain_tree_def stage_depth_def less_Suc_eq_le size_list_estimation'\<close>)

lemma unstaged_bindings: "\<forall>n \<in> set body. unstaged n \<Longrightarrow> comptime_bindings body = []"
proof (induction body)
  case (Cons n body)
  have "comptime_binding n = None"
    using Cons.prems by (cases n rule: comptime_binding.cases) auto
  then show ?case using Cons by (simp add: comptime_bindings_def map_filter_simps)
qed (simp add: comptime_bindings_def map_filter_simps)

lemma keeps_compile_time:
  assumes "\<forall>n \<in> set body. everywhere (\<lambda>n. fits n \<and> unstaged n) n"
  shows "selectCompileTime host \<sigma> cfg loc body = Some (Selected (body, new_selector cfg body))"
proof -
  have "\<forall>n \<in> set body. unstaged n"
    using assms by (auto simp: everywhere.simps [of "\<lambda>n. fits n \<and> unstaged n"])
  then have "prime_loop s (comptime_bindings body) = s" for s
    by (simp add: unstaged_bindings prime_loop.simps)
  then have "se_bindings (sel_env (new_selector cfg body)) = Map.empty" "\<not> sel_needsIR (new_selector cfg body)"
    by (simp_all add: new_selector_def primeBindings_def)
  then show ?thesis
    using keeps_pass [OF assms, of \<sigma>]
    by (simp add: selectCompileTime_def select_passes_def keeps_def bindS_def readS_def retS_def)
qed

lemma filter_concat_nth:
  "\<lbrakk>\<And>k n. k < length xs \<Longrightarrow> n \<in> set (xs ! k) \<Longrightarrow> f n = i + k; j < length xs\<rbrakk>
    \<Longrightarrow> filter (\<lambda>n. f n = i + j) (concat xs) = xs ! j"
proof (induction xs arbitrary: i j)
  case (Cons x xs)
  have first: "\<forall>n \<in> set x. f n = i" using Cons.prems(1) [of 0] by simp
  have rest: "f n = Suc i + k" if "k < length xs" "n \<in> set (xs ! k)" for k n
    using Cons.prems(1) [of "Suc k" n] that by simp
  show ?case
  proof (cases j)
    case 0
    have "filter (\<lambda>n. f n = i) (concat xs) = []"
      unfolding filter_empty_conv
    proof
      fix n assume "n \<in> set (concat xs)"
      then obtain y where "y \<in> set xs" "n \<in> set y" by auto
      then obtain k where "k < length xs" "n \<in> set (xs ! k)" by (metis in_set_conv_nth)
      then show "f n \<noteq> i" using rest by simp
    qed
    then show ?thesis using first 0 by (simp add: filter_id_conv)
  next
    case (Suc j')
    have "filter (\<lambda>n. f n = Suc i + j') (concat xs) = xs ! j'"
      by (rule Cons.IH) (use rest Cons.prems(2) Suc in auto)
    moreover have "filter (\<lambda>n. f n = i + j) x = []" using first Suc by (auto simp: filter_empty_conv)
    ultimately show ?thesis using Suc by simp
  qed
qed simp

lemma own_nodes:
  assumes "distinct (map (FilePath \<circ> fst) roots)"
    "\<forall>(l, ns) \<in> set roots. \<forall>n \<in> set ns. FilePath (GetLoc n) = FilePath l"
  shows "return_nodes roots (concat (map snd roots)) = roots"
proof (rule nth_equalityI)
  fix k assume k: "k < length (return_nodes roots (concat (map snd roots)))"
  then have k': "k < length roots" by (simp add: return_nodes_def)
  have "file_owner roots n = 0 + i" if "i < length (map snd roots)" "n \<in> set (map snd roots ! i)" for i n
  proof -
    have i: "i < length roots" "n \<in> set (snd (roots ! i))" using that by simp_all
    then have "FilePath (GetLoc n) = FilePath (fst (roots ! i))"
      using bspec [OF assms(2) nth_mem [OF i(1)]] by (simp add: case_prod_beta)
    then show ?thesis using owner_unique [OF assms(1) i(1)] by simp
  qed
  from filter_concat_nth [of "map snd roots" "file_owner roots" 0 k, OF this] k'
  show "return_nodes roots (concat (map snd roots)) ! k = roots ! k"
    by (simp add: return_nodes_nth)
qed (simp add: return_nodes_def)

end
