(* ===== verification/Stage_Properties.thy ===== *)
theory Stage_Properties
  imports Stage_Keeps Parser_Properties Types_Compat_Facts
begin

text \<open>The properties of compile-time selection, \<^verbatim>\<open>src/loader/staging.go\<close>.\<close>

definition sample_config :: StageConfig where
  "sample_config = \<lparr>cfg_host = \<lparr>em_TargetTriple = [], em_GOARCH = ''amd64'', em_GOOS = ''linux''\<rparr>,
     cfg_TargetTriple = [], cfg_Sysroot = [],
     cfg_ReleaseMode = StageDebug, cfg_NoLibc = False, cfg_NoStdlib = False\<rparr>"

definition sample_host :: stage_host where
  "sample_host = \<lparr>sh_environment = False,
     sh_machine = \<lparr>mc_aliases = Map.empty, mc_nan64 = 0x7FF8000000000001, mc_nan32 = 0x7FC00000\<rparr>,
     sh_compile = (\<lambda>n. Some (Made \<lparr>co_Modules = [], co_Initializer = []\<rparr>)),
     sh_order = (\<lambda>globals. []), sh_FormatFloat = (\<lambda>x. []), sh_Error = (\<lambda>err. [])\<rparr>"

lemma sample_request: "evaluation_request sample_host Map.empty cfg roots \<noteq> Some None"
proof -
  have "run_initializer (sh_machine sample_host\<lparr>mc_aliases := Map.empty\<rparr>)
      \<lparr>co_Modules = [], co_Initializer = []\<rparr> = Some (Inr Map.empty)"
    by (simp add: run_initializer_def NewEvaluator_def ev_simps)
  then have "request sample_host Map.empty loc body unresolved \<noteq> None" for loc body unresolved
    by (simp add: request_def evaluate_tree_def sample_host_def)
  then show ?thesis by (auto simp: evaluation_request_def Let_def split: option.splits staged.splits if_splits)
qed

section \<open>Well-formed files\<close>

text \<open>
  C5: Selection after parsing, for files that are the result of the parser. The files that are selected
  are those that were given, and each is still a well-formed tree: every field holds a node of
  the kind that its Go type demands, and every node satisfies the conditions that the parser
  enforces. Selection itself always returns: it does not return only if the compilation or the evaluation
  of what the first pass left unresolved does not (\<open>evaluation_request\<close>), as the code that it evaluates may loop. A
  panic (a failed assertion or a method of a nil interface) happens only if a conditional in the
  place of an expression or type lacks a value, if a compile-time binding has no value, or
  if the compilation panics. References lead to types after finitely many steps (\<open>alias_ok\<close>), since the
  compiler rejects names that lead back to themselves.
\<close>

theorem selected_files_are_typed:
  assumes "alias_ok \<sigma> rk"
    "\<forall>(l, ns) \<in> set roots. \<exists>p errs q. Parse p = Some (Parsed (Stmt (RootNode ns l), errs), q)"
  shows "case SelectCompileTimeRoots host \<sigma> cfg roots of
      None \<Rightarrow> evaluation_request host \<sigma> cfg roots = Some None
    | Some (Selected files) \<Rightarrow> map fst files = map fst roots \<and>
        (\<forall>(l, ns) \<in> set files. everywhere fits (Stmt (RootNode ns l)) \<and> everywhere shape (Stmt (RootNode ns l)))
    | Some StagePanicked \<Rightarrow> (\<exists>(l, ns) \<in> set roots. \<not> everywhere decided (Stmt (RootNode ns l))) \<or>
        evaluation_request host \<sigma> cfg roots = Some (Some Crashed)
    | Some (StageFailed e) \<Rightarrow> True"
proof -
  have known: "known_types \<sigma> globals" for globals
    using Underlying_returns [OF assms(1)] by (auto simp: known_types_def)
  have trees: "tree (Stmt (RootNode ns l))" if "(l, ns) \<in> set roots" for l ns
    using assms(2) that Parse_tree by blast
  have "\<forall>file \<in> set roots. whole_file False file"
    using trees whole_file_tree by (metis surj_pair)
  note any = Roots_result [OF this, of host \<sigma> cfg]
  have strict: "evaluation_request host \<sigma> cfg roots = Some (Some Crashed)"
    if "SelectCompileTimeRoots host \<sigma> cfg roots = Some StagePanicked"
      "\<forall>(l, ns) \<in> set roots. everywhere decided (Stmt (RootNode ns l))"
  proof -
    have "\<forall>file \<in> set roots. whole_file True file"
      using that(2) trees by (auto intro!: whole_file_decided)
    from Roots_result [OF this, of host \<sigma> cfg] show ?thesis using that(1) known by simp
  qed
  have "everywhere fits (Stmt (RootNode ns l)) \<and> everywhere shape (Stmt (RootNode ns l))"
    if "whole_file False (l, ns)" for l ns
    using that whole_file_tree tree_everywhere by metis
  then show ?thesis
    using any known strict by (auto split: option.splits staged.splits)
qed

lemma selected_files_are_typed_witness:
  "\<exists>ns l errs q. Parse (NewParser enum_file) = Some (Parsed (Stmt (RootNode ns l), errs), q) \<and>
    SelectCompileTimeRoots sample_host Map.empty sample_config [(l, ns)] \<noteq> None"
proof -
  obtain ns l errs q where parsed: "Parse (NewParser enum_file) = Some (Parsed (Stmt (RootNode ns l), errs), q)"
    using enum_file_parsed by blast
  have "alias_ok Map.empty (\<lambda>_. 0)" by (simp add: alias_ok_def alias_target_def)
  note result = selected_files_are_typed [OF this, of "[(l, ns)]" sample_host sample_config]
  have "evaluation_request sample_host Map.empty sample_config [(l, ns)] \<noteq> Some None"
    using sample_request by simp
  with result parsed show ?thesis by (fastforce split: option.splits)
qed

text \<open>
  C19: A module without compile-time constructs (conditionals, directives, compile-time bindings, links
  that are still to be selected) is not changed by selection: every file gets back exactly its
  own declarations in their order. The files are what the parser gives, have different paths, and the
  locations of their declarations are in them.
\<close>

theorem plain_files_are_kept:
  assumes "distinct (map (FilePath \<circ> fst) roots)"
    "\<forall>(l, ns) \<in> set roots. everywhere fits (Stmt (RootNode ns l)) \<and> everywhere unstaged (Stmt (RootNode ns l)) \<and>
      (\<forall>n \<in> set ns. FilePath (GetLoc n) = FilePath l)"
  shows "SelectCompileTimeRoots host \<sigma> cfg roots = Some (Selected roots)"
proof (cases "roots = []")
  case False
  have "everywhere (\<lambda>n. fits n \<and> unstaged n) n" if here: "n \<in> set (concat (map snd roots))" for n
  proof -
    obtain l ns where member: "(l, ns) \<in> set roots" "n \<in> set ns" using here by force
    then have "everywhere (\<lambda>n. fits n \<and> unstaged n) (Stmt (RootNode ns l))"
      using assms(2) everywhere_conj by blast
    then show ?thesis
      using member(2) by (simp add: everywhere.simps [of _ "Stmt (RootNode ns l)"] each_def list_all_iff)
  qed
  then have "selectCompileTime host \<sigma> cfg (fst (hd roots)) (concat (map snd roots)) =
      Some (Selected (concat (map snd roots), new_selector cfg (concat (map snd roots))))"
    by (intro keeps_compile_time) blast
  moreover have "return_nodes roots (concat (map snd roots)) = roots"
    using assms by (intro own_nodes) auto
  ultimately show ?thesis using False by (simp add: SelectCompileTimeRoots_def)
qed (simp add: SelectCompileTimeRoots_def)

definition plain_file :: "Location \<times> node list" where
  "plain_file = (zero_Location, [Stmt (TypeAliasNode ''T'' []
     (Type (NamedTypeNode [] ''i32'' [] False None zero_Location)) False False zero_Location)])"

lemma plain_files_are_kept_witness:
  "SelectCompileTimeRoots sample_host Map.empty sample_config [plain_file] = Some (Selected [plain_file])"
  by (rule plain_files_are_kept)
    (simp_all add: plain_file_def everywhere.simps fits_def each_def optional_def is_function_type_def)

section \<open>Order\<close>

text \<open>
  C25: The bindings known before selection do not depend on the order in which they are visited: the
  source ranges over a map while it deletes from it, so any order is possible, and every run
  that binds resolved declarations until none is left ends with the same values,
  provided that a name is declared once.
\<close>

theorem known_bindings_have_no_order:
  assumes "distinct (map fst (comptime_bindings body))"
  shows "primes \<lparr>se_config = cfg, se_bindings = Map.empty, se_evaluated = Map.empty\<rparr> (comptime_bindings body) s
    \<longleftrightarrow> s = sel_env (new_selector cfg body)"
  using primes_iff assms by (simp add: unbound_def new_selector_def primeBindings_def)

definition sample_bindings :: "node list" where
  "sample_bindings =
    [Stmt (DeclarationNode ''b'' zero_Location False False None
       (Some (Expr (IdentifierNode ''a'' [] [] zero_Location))) True [] zero_Location),
     Stmt (DeclarationNode ''a'' zero_Location False False None
       (Some (Expr (BoolLiteralNode ''true'' zero_Location))) True [] zero_Location)]"

lemma known_bindings_have_no_order_witness:
  "primes \<lparr>se_config = sample_config, se_bindings = Map.empty, se_evaluated = Map.empty\<rparr>
    (comptime_bindings sample_bindings) (sel_env (new_selector sample_config sample_bindings))"
proof -
  have "distinct (map fst (comptime_bindings sample_bindings))"
    by (simp add: sample_bindings_def comptime_bindings_def map_filter_simps)
  from known_bindings_have_no_order [OF this] show ?thesis by simp
qed

text \<open>
  C26: The functions that go through the evaluator with the unresolved expressions are exactly those
  that the expressions reach: those that they call by name, those that the bodies of these call, and
  so on. In particular the search ends, with recursive functions too.
\<close>

theorem reachable_functions_are_reached:
  "set (reachableStageFunctions body unresolved) =
    {f. reached (List.map_filter function_of body)
      {x. \<exists>n. Some n \<in> set unresolved \<and> x \<in> set (collectStageCalls n)} f}"
proof -
  have "set (concat (map (\<lambda>x. concat (map collectStageCalls (optional_node x))) unresolved)) =
      {x. \<exists>n. Some n \<in> set unresolved \<and> x \<in> set (collectStageCalls n)}"
    by (auto simp: optional_node_def split: option.splits)
  then show ?thesis by (simp add: reachableStageFunctions_def reach_loop_reached)
qed

text \<open>
  C27: When the files of a module have different paths, each takes, in order, the selected nodes whose
  location is in it, and the first file takes the nodes of other paths too.
\<close>

theorem nodes_return_to_their_files:
  assumes "distinct (map (FilePath \<circ> fst) roots)" "k < length roots"
  shows "return_nodes roots body ! k = (fst (roots ! k),
    filter (\<lambda>n. FilePath (GetLoc n) = FilePath (fst (roots ! k)) \<or>
      k = 0 \<and> FilePath (GetLoc n) \<notin> set (map (FilePath \<circ> fst) roots)) body)"
proof -
  have "file_owner roots n = k \<longleftrightarrow> FilePath (GetLoc n) = FilePath (fst (roots ! k)) \<or>
      k = 0 \<and> FilePath (GetLoc n) \<notin> set (map (FilePath \<circ> fst) roots)" for n
  proof (cases "FilePath (GetLoc n) \<in> set (map (FilePath \<circ> fst) roots)")
    case True
    then obtain j where j: "j < length roots" "FilePath (fst (roots ! j)) = FilePath (GetLoc n)"
      by (auto simp: in_set_conv_nth)
    have "file_owner roots n = j" by (rule owner_unique [OF assms(1) j])
    then show ?thesis using True j owner_unique [OF assms, of n] by auto
  next
    case False
    then have "FilePath (GetLoc n) \<noteq> FilePath (fst (roots ! k))" using nth_path [OF assms(2)] by metis
    then show ?thesis using False owner_unknown [OF False] by metis
  qed
  then show ?thesis by (simp add: return_nodes_nth [OF assms(2)])
qed

definition two_files :: roots where
  "two_files = [(zero_Location, []), (zero_Location\<lparr>FilePath := ''b''\<rparr>, [])]"

lemma nodes_return_to_their_files_witness:
  "snd (return_nodes two_files (sample_bindings @ [Stmt (RootNode [] (zero_Location\<lparr>FilePath := ''b''\<rparr>))]) ! 0) =
    sample_bindings"
proof -
  have "distinct (map (FilePath \<circ> fst) two_files)" "0 < length two_files"
    by (simp_all add: two_files_def zero_Location_def)
  from nodes_return_to_their_files [OF this] show ?thesis
    by (simp add: two_files_def zero_Location_def sample_bindings_def)
qed

end
