(* ===== verification/Spec2Isabelle.thy ===== *)
theory Spec2Isabelle
  imports Tokenise_Properties Types_Subst_Properties Types_Compat_Properties Types_Graph_Properties
    Foreign_ABI_Properties Modules_Properties Scopes Eval_Properties Parser_Properties Stage_Properties
begin

text \<open>
  Verification of the qk compiler, whose Go sources are under \<^verbatim>\<open>src/\<close>.

  The compiler turns source text into tokens (\<^verbatim>\<open>tokeniser/\<close>), tokens into a syntax tree
  (\<^verbatim>\<open>parser/\<close>), groups files into modules and orders them (\<^verbatim>\<open>loader/\<close>), resolves names in scopes
  (\<^verbatim>\<open>symbols/\<close>) and checks types (\<^verbatim>\<open>sema/\<close>, \<^verbatim>\<open>types/\<close>), generates an intermediate
  representation (\<^verbatim>\<open>codegen/irgen\<close>, \<^verbatim>\<open>ir/ir.go\<close>), runs parts of it at compile time (\<^verbatim>\<open>ir/eval.go\<close>) and
  prints LLVM (\<^verbatim>\<open>codegen/llvm\<close>), following the C calling conventions of the target.

  \<^bold>\<open>How Go is modelled.\<close> A struct is a record, an interface the datatype of its implementations, a map a
  partial function, errors are values of a sum type. A call that may not return, because it loops,
  recurses for ever, dereferences nil or indexes out of range, has an option type (\<open>'a run\<close>) whose
  \<open>None\<close> is not returning; such functions are least fixed points (\<open>partial_function\<close>), so no fuel is
  chosen anywhere. Methods that recurse through an interface are written as a step with the
  dispatched call as an argument, tied by the fixed point. Integers that can overflow are
  words, or \<open>wrap64\<close> is written out. Variables and slices that are shared by pointer live in explicit stores.

  \<^bold>\<open>Components\<close>, each with its facts and its properties in theories of the same name:

  \<^item> \<open>Prelude\<close>: calls that may not return and their loops; slices; decimal text.
  \<^item> \<open>Source_Text\<close>, \<open>Tokens\<close>, \<open>Scanner\<close>, \<open>Tokenise\<close> (\<^verbatim>\<open>shared/utils.go\<close>, \<^verbatim>\<open>tokeniser/\<close>): UTF-8, locations,
    the scanner's cursor and readers, the main loop. \<open>Lexical_Grammar\<close> says, without the scanner, what a lexeme is
    and what may lie between two: the tokens cover the text exactly, with the values their lexemes have. Which texts
    make the tokeniser run for ever.
  \<^item> \<open>Types_Syntax\<close>, \<open>Types_Subst\<close>, \<open>Types_Numeric\<close>, \<open>Types_Compat\<close>, \<open>Types_Identity\<close>, \<open>Types_Graph\<close> (\<^verbatim>\<open>types/type.go\<close>):
    type terms with named references through a store; substitution laws; equality, coercion and casts,
    their termination, and that casts keep the immutability of a pointer's own access; identity texts and the keys of
    generic instances made from them (\<^verbatim>\<open>sema/generics.go\<close>, \<^verbatim>\<open>loader/specializations.go\<close>); completeness.
  \<^item> \<open>Target\<close>, \<open>Layout\<close>, \<open>Foreign_ABI\<close> (\<^verbatim>\<open>target/\<close>, \<^verbatim>\<open>codegen/llvm/target.go\<close>, \<^verbatim>\<open>foreign_abi.go\<close>, \<^verbatim>\<open>abi_*.go\<close> and
    \<open>TypeEmit\<close>): sizes and alignments refine the C layout, which \<open>Layout_Facts\<close> states over unbounded
    integers; the five calling conventions are instances of the contract \<open>abi_contract\<close> of \<open>Foreign_ABI_Facts\<close>:
    the chunks of an aggregate tile it. \<open>SysV_Facts\<close> and \<open>AArch64_Facts\<close> relate the classifications to the scalars.
  \<^item> \<open>Attributes\<close>, \<open>Modules\<close> (\<^verbatim>\<open>attributes/\<close>, \<^verbatim>\<open>loader/moduleinfo.go\<close>, \<^verbatim>\<open>loader/dependency.go\<close>): module headers, merging of files,
    and the depth-first order, against reachability in the import graph.
  \<^item> \<open>Scopes\<close> (\<^verbatim>\<open>symbols/scope.go\<close>): scopes in a store, an instance of the interface \<open>name_table\<close>.
  \<^item> \<open>IR\<close> (\<^verbatim>\<open>ir/ir.go\<close>): operands, instructions, functions, the builder and template instances.
  \<^item> \<open>Float64\<close>, \<open>Eval_Values\<close>, \<open>Eval\<close> (\<^verbatim>\<open>ir/eval.go\<close>): IEEE floats, values with shared storage, every instruction, the run
    loop. \<open>Eval_Storage\<close> holds the invariant of the storage and the predicate \<open>ev_ok\<close> the proofs use,
    \<open>Eval_Facts\<close> that every operation keeps it, and that each beginning of a run (\<open>run_limited\<close>, a bound on the
    instructions) returns: an access outside the storage would not.

  \<^item> \<open>Syntax\<close> (\<^verbatim>\<open>parser/node.go\<close>), \<open>Parser_State\<close>, \<open>Parser_When\<close>, \<open>Parser_Types\<close>, \<open>Parser_Expressions\<close>,
    \<open>Parser_Statements\<close>, \<open>Parser\<close>, \<open>Parser_Files\<close> (\<^verbatim>\<open>parser/*.go\<close>): the tree and every method of the parser as
    a function of the parser's state; its result is a value, an error, or \<open>Panicked\<close> when an index is out
    of range. The methods take the recursive calls as an argument \<open>R\<close>, and \<open>parse\<close> ties them. \<open>Parser_Progress\<close> and
    \<open>Parser_Termination\<close> show that every method makes progress, hence returns; \<open>Parser_Runs\<close> evaluates the parser
    on concrete tokens. \<open>Parser_Trees\<close> says which trees are well formed, \<open>Parser_Typed\<close> that every method builds
    well-formed trees.
  \<^item> \<open>Stage_Values\<close>, \<open>Stage_Select\<close>, \<open>Stage\<close> (\<^verbatim>\<open>loader/staging.go\<close>): compile-time selection, which replaces conditionals
    (\<^verbatim>\<open>when\<close>) by what they select: values and their evaluation, the selection in every kind of node, and the two
    passes over a module. The recursion takes a depth; \<open>stage_depth\<close>, one more than the size of the module, is
    enough, which \<open>selection_contract\<close> in \<open>Stage_Typed\<close> shows: selection keeps well-formed trees well formed and no deeper.
    What the first pass leaves unresolved is made into a tree, compiled and run by \<open>Eval\<close>.
    \<open>Stage_Runs\<close> has the facts about passes, known bindings, reached functions and owners, \<open>Stage_Keeps\<close> that selection
    keeps trees without compile-time constructs.
  \<^item> \<open>Source_Header\<close> (\<^verbatim>\<open>parser/header.go\<close>, \<^verbatim>\<open>parser/control_flow.go\<close>): the scan for imports, which
    \<open>Source_Header_Facts\<close> relates to the parser, and which nodes fall through.

  \<^bold>\<open>Interfaces.\<close> \<open>reader\<close> (the scanner's reading loops), \<open>abi_contract\<close> (calling conventions) and
  \<open>name_table\<close> (scopes) are locales, interpreted on the model's definitions; so are \<open>typed_calls\<close>, what a method of
  the parser may expect of the recursive calls, and \<open>selecting\<close> and \<open>keeping\<close>, what a method of selection may expect
  of the selection of the nodes below.

  \<^bold>\<open>Assumptions.\<close> Memory and \<open>big.Int\<close> are unbounded, so a compile-time shift by a huge amount gives a number here
  where a real run ends without memory; slices are shorter than \<open>2\<^sup>6\<^sup>3\<close>. The texts of error messages are not
  modelled, their kinds and data are. All NaNs are one value. Go's iteration over maps is a
  list argument in any order.

  \<^bold>\<open>Not modelled.\<close> Semantic analysis (\<^verbatim>\<open>sema/\<close>), IR generation and the emission of LLVM instructions
  work on the annotated syntax tree and on types at once, whose shared and mutable nodes the trees of this
  development do not have. Selection takes the compilation of a tree as a parameter (\<open>sh_compile\<close>), which may
  give modules, be refused, panic or not return; a statement about selection says which of these it needs. The
  LLVM bindings, the command line, linking and caching are input and output.
\<close>

end
